(* ===== verification/Prelude.thy ===== *)
theory Prelude
  imports Complex_Main "HOL-Library.AList"
begin

section \<open>Prelude: tables, insertion-ordered maps and shared lemmas\<close>

text \<open>
  What the component theories share. A SQL table is the list of its rows in insertion order:
  \<open>SELECT ... LIMIT 1\<close> is \<open>List.find\<close>, \<open>UPDATE ... WHERE\<close> is \<open>update_where\<close>,
  \<open>DELETE ... WHERE\<close> is \<open>filter\<close>. A JavaScript \<open>Map\<close> iterates in insertion order and
  keeps the position of a key that is set again: it is an association list with
  \<open>map_of\<close>, \<open>AList.update\<close> and \<open>AList.delete\<close>. Times are integers, milliseconds since the
  epoch: the ISO strings the source stores have a fixed width, so their order is the numeric one.
\<close>

type_synonym time = int

named_theorems table_simps \<open>facts about table updates\<close>

definition update_where :: "('a \<Rightarrow> bool) \<Rightarrow> ('a \<Rightarrow> 'a) \<Rightarrow> 'a list \<Rightarrow> 'a list" where
  "update_where p f xs = map (\<lambda>x. if p x then f x else x) xs"

definition count_where :: "('a \<Rightarrow> bool) \<Rightarrow> 'a list \<Rightarrow> nat" where
  "count_where p xs = length (filter p xs)"

lemma update_where_simps [simp, table_simps]:
  "update_where p f [] = []"
  "update_where p f (x # xs) = (if p x then f x else x) # update_where p f xs"
  "update_where p f (xs @ ys) = update_where p f xs @ update_where p f ys"
  by (simp_all add: update_where_def)

lemma length_update_where [simp, table_simps]: "length (update_where p f xs) = length xs"
  by (simp add: update_where_def)

lemma set_update_where: "set (update_where p f xs) = (\<lambda>x. if p x then f x else x) ` set xs"
  by (simp add: update_where_def)

lemma map_update_where [table_simps]:
  "(\<And>x. g (f x) = g x) \<Longrightarrow> map g (update_where p f xs) = map g xs"
  by (simp add: update_where_def)

lemma image_update_where [table_simps]:
  "(\<And>x. g (f x) = g x) \<Longrightarrow> g ` set (update_where p f xs) = g ` set xs"
  by (metis list.set_map map_update_where)

lemma update_where_none: "(\<And>x. x \<in> set xs \<Longrightarrow> \<not> p x) \<Longrightarrow> update_where p f xs = xs"
  by (induction xs) auto

lemma find_update_where:
  "(\<And>x. k (f x) = k x) \<Longrightarrow>
   List.find (\<lambda>x. k x = i) (update_where (\<lambda>x. k x = i) f xs) =
   map_option f (List.find (\<lambda>x. k x = i) xs)"
  by (induction xs) auto

lemma find_update_where_other:
  "(\<And>x. k (f x) = k x) \<Longrightarrow> (\<And>x. p x \<Longrightarrow> k x \<noteq> j) \<Longrightarrow>
   List.find (\<lambda>x. k x = j) (update_where p f xs) = List.find (\<lambda>x. k x = j) xs"
  by (induction xs) auto

lemma find_update_where_any:
  "(\<And>x. q (f x) = q x) \<Longrightarrow>
   List.find q (update_where p f xs) = map_option (\<lambda>x. if p x then f x else x) (List.find q xs)"
  by (induction xs) auto

lemma find_append:
  "List.find p (xs @ ys) = (case List.find p xs of None \<Rightarrow> List.find p ys | Some x \<Rightarrow> Some x)"
  by (induction xs) auto

lemma find_SomeD: "List.find p xs = Some x \<Longrightarrow> x \<in> set xs \<and> p x"
  by (induction xs) (auto split: if_splits)

lemma find_NoneD: "List.find p xs = None \<Longrightarrow> x \<in> set xs \<Longrightarrow> \<not> p x"
  by (auto simp: find_None_iff)

lemma find_distinct_key:
  "distinct (map k xs) \<Longrightarrow> x \<in> set xs \<Longrightarrow> List.find (\<lambda>y. k y = k x) xs = Some x"
  by (induction xs) (auto simp: image_iff)

lemma count_where_append [simp, table_simps]:
  "count_where p (xs @ ys) = count_where p xs + count_where p ys"
  by (simp add: count_where_def)

lemma count_where_Cons [simp, table_simps]:
  "count_where p (x # xs) = (if p x then 1 else 0) + count_where p xs"
  by (simp add: count_where_def)

lemma count_where_Nil [simp, table_simps]: "count_where p [] = 0"
  by (simp add: count_where_def)

lemma count_where_le_length: "count_where p xs \<le> length xs"
  by (simp add: count_where_def)

lemma count_where_mono: "(\<And>x. x \<in> set xs \<Longrightarrow> p x \<Longrightarrow> q x) \<Longrightarrow> count_where p xs \<le> count_where q xs"
  by (induction xs) (auto simp: le_Suc_eq)

subsection \<open>Updates that keep the key of a row\<close>

text \<open>
  The contract of an UPDATE statement that does not write the key column. Every table of the models
  interprets it for its own updates.
\<close>

locale keyed_update =
  fixes key :: "'r \<Rightarrow> 'k" and f :: "'r \<Rightarrow> 'r"
  assumes key_f: "key (f x) = key x"
begin

lemma keys: "map key (update_where p f xs) = map key xs"
  by (rule map_update_where) (rule key_f)

lemma find_same: "List.find (\<lambda>x. key x = k) (update_where (\<lambda>x. key x = k) f xs) =
    map_option f (List.find (\<lambda>x. key x = k) xs)"
  by (rule find_update_where) (rule key_f)

lemma find_other: "j \<noteq> k \<Longrightarrow>
    List.find (\<lambda>x. key x = j) (update_where (\<lambda>x. key x = k) f xs) = List.find (\<lambda>x. key x = j) xs"
  by (rule find_update_where_other) (auto simp: key_f)

end

subsection \<open>Insertion-ordered maps\<close>

lemma map_of_alist_update [simp, table_simps]:
  "map_of (AList.update k v xs) = (map_of xs)(k \<mapsto> v)"
  by (simp add: update_conv' fun_eq_iff)

lemma map_of_alist_delete [simp, table_simps]:
  "map_of (AList.delete k xs) = (map_of xs)(k := None)"
  by (simp add: delete_conv' fun_eq_iff)

lemma length_alist_update:
  "length (AList.update k v xs) = (if k \<in> fst ` set xs then length xs else Suc (length xs))"
  by (induction xs) auto

lemma length_alist_delete:
  "distinct (map fst xs) \<Longrightarrow> k \<in> fst ` set xs \<Longrightarrow> Suc (length (AList.delete k xs)) = length xs"
  by (induction xs) (auto simp: AList.delete_id)

lemma alist_update_fresh: "k \<notin> fst ` set xs \<Longrightarrow> AList.update k v xs = xs @ [(k, v)]"
  by (induction xs) auto


subsection \<open>Reachable states and invariants\<close>

text \<open>
  The states a component can reach from its initial states by its steps. The locale packages the
  two obligations of an invariant; each stateful component interprets it on its own step relation.
\<close>

inductive reach :: "('s \<Rightarrow> bool) \<Rightarrow> ('s \<Rightarrow> 's \<Rightarrow> bool) \<Rightarrow> 's \<Rightarrow> bool"
  for init :: "'s \<Rightarrow> bool" and step :: "'s \<Rightarrow> 's \<Rightarrow> bool" where
  reach_init: "init s \<Longrightarrow> reach init step s"
| reach_step: "reach init step s \<Longrightarrow> step s t \<Longrightarrow> reach init step t"

locale invariant_system =
  fixes init :: "'s \<Rightarrow> bool" and step :: "'s \<Rightarrow> 's \<Rightarrow> bool" and inv :: "'s \<Rightarrow> bool"
  assumes init_inv: "init s \<Longrightarrow> inv s"
    and step_inv: "step s t \<Longrightarrow> inv s \<Longrightarrow> inv t"
begin

lemma reach_inv: "reach init step s \<Longrightarrow> inv s"
  by (induction rule: reach.induct) (auto intro: init_inv step_inv)

lemma reach_inv_step: "reach init step s \<Longrightarrow> step s t \<Longrightarrow> inv t"
  using reach_inv step_inv by blast

end

subsection \<open>Refinement\<close>

text \<open>
  A forward simulation: under the invariant every concrete step is a step of the specification on
  the abstract states. Invariants of the specification then hold of what is reachable below.
\<close>

locale forward_simulation = invariant_system init step inv
  for init :: "'s \<Rightarrow> bool" and step :: "'s \<Rightarrow> 's \<Rightarrow> bool" and inv :: "'s \<Rightarrow> bool" +
  fixes a_init :: "'a \<Rightarrow> bool" and a_step :: "'a \<Rightarrow> 'a \<Rightarrow> bool" and abs :: "'s \<Rightarrow> 'a"
  assumes sim_init: "init s \<Longrightarrow> a_init (abs s)"
    and sim_step: "inv s \<Longrightarrow> step s t \<Longrightarrow> a_step (abs s) (abs t)"
begin

lemma refines: "reach init step s \<Longrightarrow> reach a_init a_step (abs s)"
  by (induction rule: reach.induct) (auto intro: reach.intros sim_init sim_step reach_inv)

lemma transfer: "(\<And>a. reach a_init a_step a \<Longrightarrow> P a) \<Longrightarrow> reach init step s \<Longrightarrow> P (abs s)"
  by (blast dest: refines)

end

end
