(* ===== verification/JsNumber.thy ===== *)
theory JsNumber
  imports Prelude
begin

section \<open>Numbers of the source: binary64 arithmetic on rationals\<close>

text \<open>
  Every number of the program is an ECMAScript Number, that is an IEEE 754 binary64 value.
  A finite double is a rational, so the model computes on type \<open>rat\<close> and rounds after each
  operation, as the hardware does: \<open>rnd\<close> is round-to-nearest, ties to even, to 53 significant
  bits with gradual underflow at \<open>2 powi (-1074)\<close>. The operations \<open>fadd\<close>, \<open>fsub\<close>,
  \<open>fmul\<close>, \<open>fdiv\<close> are the exact operation followed by \<open>rnd\<close>; a literal such as
  \<open>0.02\<close> of the source is \<open>rnd (2 / 100)\<close>. Not represented: overflow to infinity (magnitudes stay
  below \<open>2 ^ 1024\<close>), NaN and the sign of zero; where the source can produce those from its
  input (JSON values, \<open>Number(x)\<close>) the component uses the type \<open>jnum\<close> of theory
  \<open>JsValue\<close> instead.

  The components use rounding through the locale \<open>rounding\<close> below, which is
  interpreted on \<open>rnd\<close>.
\<close>

subsection \<open>Rounding to 53 bits\<close>

fun ilog2 :: "int \<Rightarrow> int" where
  "ilog2 n = (if n \<le> 1 then 0 else 1 + ilog2 (n div 2))"

declare ilog2.simps [simp del]

definition floor_log2 :: "rat \<Rightarrow> int" where
  "floor_log2 x =
     (let (n, d) = quotient_of x;
          e = ilog2 n - ilog2 d
      in if 2 powi e \<le> x then e else e - 1)"

definition round_even :: "rat \<Rightarrow> int" where
  "round_even x =
     (let f = \<lfloor>x\<rfloor>; r = x - of_int f
      in if r < 1 / 2 then f
         else if r > 1 / 2 then f + 1
         else if even f then f else f + 1)"

definition rnd_exp :: "rat \<Rightarrow> int" where
  "rnd_exp x = max (floor_log2 \<bar>x\<bar> - 52) (-1074)"

definition rnd :: "rat \<Rightarrow> rat" where
  "rnd x =
     (if x = 0 then 0
      else let e = rnd_exp x
           in of_int (round_even (x / 2 powi e)) * 2 powi e)"

lemma ilog2_nonneg: "0 \<le> ilog2 n"
  by (induction n rule: ilog2.induct) (subst ilog2.simps, simp)

lemma ilog2_bounds: "0 < n \<Longrightarrow> 2 ^ nat (ilog2 n) \<le> n \<and> n < 2 ^ Suc (nat (ilog2 n))"
proof (induction n rule: ilog2.induct)
  case (1 n)
  show ?case
  proof (cases "n \<le> 1")
    case True
    with "1.prems" have "n = 1" by simp
    then show ?thesis by (simp add: ilog2.simps)
  next
    case False
    let ?k = "nat (ilog2 (n div 2))"
    from False "1.IH" have IH: "2 ^ ?k \<le> n div 2" "n div 2 < 2 ^ Suc ?k" by auto
    have k: "nat (ilog2 n) = Suc ?k"
      using False ilog2_nonneg [of "n div 2"]
      by (simp add: ilog2.simps [of n] nat_add_distrib)
    from IH show ?thesis unfolding k by (simp add: power_Suc) linarith
  qed
qed

lemma powi_of_nat_exp: "0 \<le> k \<Longrightarrow> (2::rat) powi k = of_int (2 ^ nat k)"
  by (simp add: power_int_def)

lemma powi_ilog2_bounds:
  assumes "0 < n"
  shows "(2::rat) powi ilog2 n \<le> of_int n" "(of_int n :: rat) < 2 powi (ilog2 n + 1)"
proof -
  have b: "2 ^ nat (ilog2 n) \<le> n" "n < 2 ^ nat (ilog2 n + 1)"
    using ilog2_bounds [OF assms] ilog2_nonneg [of n] by (simp_all add: nat_add_distrib)
  show "(2::rat) powi ilog2 n \<le> of_int n"
    using b(1) ilog2_nonneg [of n] by (simp only: powi_of_nat_exp of_int_le_iff)
  show "(of_int n :: rat) < 2 powi (ilog2 n + 1)"
    using b(2) ilog2_nonneg [of n] by (simp only: powi_of_nat_exp of_int_less_iff)
qed

lemma floor_log2_bounds:
  assumes "0 < x"
  shows "2 powi floor_log2 x \<le> x \<and> x < 2 powi (floor_log2 x + 1)"
proof -
  obtain n d where q: "quotient_of x = (n, d)" by fastforce
  have x: "x = of_int n / of_int d" using quotient_of_div [OF q] .
  have d: "0 < d" using quotient_of_denom_pos [OF q] .
  have n: "0 < n" using assms x d by (simp add: zero_less_divide_iff)
  let ?a = "ilog2 n" and ?b = "ilog2 d"
  note an = powi_ilog2_bounds [OF n] and bd = powi_ilog2_bounds [OF d]
  have lo: "2 powi (?a - ?b - 1) < x"
  proof -
    have "2 powi (?a - ?b - 1) = (2::rat) powi ?a / 2 powi (?b + 1)"
      by (simp add: power_int_diff power_int_add)
    also have "\<dots> < of_int n / of_int d"
      using an bd d by (intro frac_less2) auto
    finally show ?thesis by (simp add: x)
  qed
  have hi: "x < 2 powi (?a - ?b + 1)"
  proof -
    have "of_int n / of_int d < (2::rat) powi (?a + 1) / 2 powi ?b"
      using an bd n by (intro frac_less) auto
    also have "\<dots> = 2 powi (?a - ?b + 1)"
      by (simp add: power_int_diff power_int_add)
    finally show ?thesis by (simp add: x)
  qed
  show ?thesis using lo hi by (simp add: floor_log2_def q Let_def)
qed

lemma floor_log2_unique:
  assumes "0 < x" "2 powi k \<le> x" "x < 2 powi (k + 1)"
  shows "floor_log2 x = k"
proof -
  have mono: "a < b" if "(2::rat) powi a < 2 powi b" for a b
    using that by (rule contrapos_pp) (auto intro: power_int_increasing simp: not_less)
  from floor_log2_bounds [OF assms(1)] assms(2,3)
  have "(2::rat) powi k < 2 powi (floor_log2 x + 1)" "(2::rat) powi floor_log2 x < 2 powi (k + 1)"
    by linarith+
  then show ?thesis by (auto dest!: mono)
qed

lemma floor_log2_mono: "0 < x \<Longrightarrow> x \<le> y \<Longrightarrow> floor_log2 x \<le> floor_log2 y"
proof -
  assume a: "0 < x" "x \<le> y"
  then have "2 powi floor_log2 x \<le> x" "y < 2 powi (floor_log2 y + 1)"
    using floor_log2_bounds by auto
  with a have "(2::rat) powi floor_log2 x < 2 powi (floor_log2 y + 1)" by linarith
  then have "floor_log2 x < floor_log2 y + 1"
    by (rule contrapos_pp) (auto intro: power_int_increasing simp: not_less)
  then show ?thesis by simp
qed

lemma round_even_of_int [simp]: "round_even (of_int k) = k"
  by (simp add: round_even_def)

lemma round_even_near: "\<bar>of_int (round_even x) - x\<bar> \<le> 1 / 2"
proof -
  have "of_int \<lfloor>x\<rfloor> \<le> x" "x < of_int \<lfloor>x\<rfloor> + 1" by linarith+
  then show ?thesis by (simp add: round_even_def Let_def abs_if) linarith
qed

lemma round_even_mono: "x \<le> y \<Longrightarrow> round_even x \<le> round_even y"
proof -
  assume xy: "x \<le> y"
  then have f: "\<lfloor>x\<rfloor> \<le> \<lfloor>y\<rfloor>" by (rule floor_mono)
  show ?thesis
  proof (cases "\<lfloor>x\<rfloor> = \<lfloor>y\<rfloor>")
    case True
    with xy show ?thesis by (auto simp: round_even_def Let_def)
  next
    case False
    with f have "\<lfloor>x\<rfloor> + 1 \<le> \<lfloor>y\<rfloor>" by simp
    then show ?thesis by (auto simp: round_even_def Let_def)
  qed
qed

lemma floor_minus_frac: "x \<noteq> of_int \<lfloor>x\<rfloor> \<Longrightarrow> \<lfloor>- x\<rfloor> = - \<lfloor>x\<rfloor> - 1" for x :: rat
  by linarith

lemma round_even_minus: "round_even (- x) = - round_even x"
proof (cases "x = of_int \<lfloor>x\<rfloor>")
  case True
  then have "- x = of_int (- \<lfloor>x\<rfloor>)" by simp
  then show ?thesis using True round_even_of_int by metis
next
  case False
  then show ?thesis
    by (auto simp: round_even_def Let_def floor_minus_frac)
qed

lemma rnd_0 [simp]: "rnd 0 = 0"
  by (simp add: rnd_def)

lemma rnd_minus: "rnd (- x) = - rnd x"
  by (simp add: rnd_def rnd_exp_def Let_def round_even_minus)

lemma rnd_pos_eq:
  "0 < x \<Longrightarrow> rnd x = of_int (round_even (x / 2 powi rnd_exp x)) * 2 powi rnd_exp x"
  by (simp add: rnd_def Let_def)

lemma rnd_nonneg: "0 \<le> x \<Longrightarrow> 0 \<le> rnd x"
proof (cases "x = 0")
  case False
  assume "0 \<le> x"
  with False have "0 < x" by simp
  moreover have "round_even 0 \<le> round_even (x / 2 powi rnd_exp x)"
    using \<open>0 < x\<close> by (intro round_even_mono) simp
  ultimately show ?thesis
    using round_even_of_int [of 0] by (simp add: rnd_pos_eq)
qed simp

lemma powi_diff_int:
  "b \<le> a \<Longrightarrow> (2::rat) powi a / 2 powi b = of_int (2 ^ nat (a - b))"
  by (simp add: powi_of_nat_exp flip: power_int_diff)

text \<open>Powers of two bound the rounding from both sides.\<close>

lemma rnd_le_powi:
  assumes "0 < x" "x \<le> 2 powi k" "rnd_exp x \<le> k"
  shows "rnd x \<le> 2 powi k"
proof -
  let ?e = "rnd_exp x"
  have "x / 2 powi ?e \<le> of_int (2 ^ nat (k - ?e))"
    using assms(2) powi_diff_int [OF assms(3)] by (metis divide_right_mono zero_le_numeral zero_le_power_int)
  then have "round_even (x / 2 powi ?e) \<le> 2 ^ nat (k - ?e)"
    using round_even_mono round_even_of_int by metis
  then have "of_int (round_even (x / 2 powi ?e)) \<le> (2::rat) powi k / 2 powi ?e"
    by (simp only: powi_diff_int [OF assms(3)] of_int_le_iff)
  then show ?thesis using assms(1) by (simp add: rnd_pos_eq pos_le_divide_eq)
qed

lemma rnd_ge_powi:
  assumes "0 < x" "2 powi k \<le> x" "rnd_exp x \<le> k"
  shows "2 powi k \<le> rnd x"
proof -
  let ?e = "rnd_exp x"
  have "of_int (2 ^ nat (k - ?e)) \<le> x / 2 powi ?e"
    using assms(2) powi_diff_int [OF assms(3)] by (metis divide_right_mono zero_le_numeral zero_le_power_int)
  then have "2 ^ nat (k - ?e) \<le> round_even (x / 2 powi ?e)"
    using round_even_mono round_even_of_int by metis
  then have "(2::rat) powi k / 2 powi ?e \<le> of_int (round_even (x / 2 powi ?e))"
    by (simp only: powi_diff_int [OF assms(3)] of_int_le_iff)
  then show ?thesis using assms(1) by (simp add: rnd_pos_eq pos_divide_le_eq)
qed

lemma rnd_mono_pos:
  assumes "0 < x" "x \<le> y"
  shows "rnd x \<le> rnd y"
proof -
  have y: "0 < y" using assms by simp
  have le: "rnd_exp x \<le> rnd_exp y"
    using assms y floor_log2_mono [of x y] by (simp add: rnd_exp_def max.coboundedI1)
  show ?thesis
  proof (cases "rnd_exp x = rnd_exp y")
    case True
    have "round_even (x / 2 powi rnd_exp y) \<le> round_even (y / 2 powi rnd_exp y)"
      using assms by (intro round_even_mono divide_right_mono) simp_all
    then show ?thesis using True assms y by (simp add: rnd_pos_eq)
  next
    case False
    let ?k = "floor_log2 y"
    have ey: "rnd_exp y = ?k - 52" "rnd_exp x < ?k - 52"
      using False le y by (auto simp: rnd_exp_def)
    have "floor_log2 x < ?k" using ey(2) assms(1) by (simp add: rnd_exp_def)
    then have "(2::rat) powi (floor_log2 x + 1) \<le> 2 powi ?k"
      by (intro power_int_increasing) simp_all
    with floor_log2_bounds [OF assms(1)] have "x \<le> 2 powi ?k" by linarith
    then have "rnd x \<le> 2 powi ?k" using ey(2) assms(1) by (intro rnd_le_powi) simp_all
    also have "\<dots> \<le> rnd y"
      using floor_log2_bounds [OF y] y ey by (intro rnd_ge_powi) simp_all
    finally show ?thesis .
  qed
qed

lemma rnd_mono: "x \<le> y \<Longrightarrow> rnd x \<le> rnd y"
proof -
  assume xy: "x \<le> y"
  consider "0 < x" | "x \<le> 0" "0 \<le> y" | "y < 0" by linarith
  then show ?thesis
  proof cases
    case 1
    then show ?thesis using xy by (rule rnd_mono_pos)
  next
    case 2
    have "rnd x \<le> 0" using rnd_nonneg [of "- x"] 2 by (simp add: rnd_minus)
    with rnd_nonneg [of y] 2 show ?thesis by linarith
  next
    case 3
    with xy have "rnd (- y) \<le> rnd (- x)" by (intro rnd_mono_pos) simp_all
    then show ?thesis by (simp add: rnd_minus)
  qed
qed

definition is_double :: "rat \<Rightarrow> bool" where
  "is_double x \<longleftrightarrow> rnd x = x"

lemma rnd_scaled_int:
  assumes "\<bar>m\<bar> \<le> 2 ^ 53" "-1074 \<le> e"
  shows "rnd (of_int m * 2 powi e) = of_int m * 2 powi e"
proof -
  have pos: "rnd (of_int k * 2 powi e) = of_int k * 2 powi e" if k: "0 < k" "k < 2 ^ 53" for k :: int
  proof -
    let ?x = "of_int k * 2 powi e :: rat"
    have x: "0 < ?x" using k by simp
    have "(of_int k :: rat) < 2 ^ 53" using k(2) by (metis of_int_less_iff of_int_numeral of_int_power)
    then have "?x < 2 ^ 53 * 2 powi e" by simp
    also have "(2 ^ 53 :: rat) * 2 powi e = 2 powi (53 + e)"
      by (simp add: power_int_add)
    finally have "2 powi floor_log2 ?x < (2::rat) powi (53 + e)"
      using floor_log2_bounds [OF x] by linarith
    then have "floor_log2 ?x < 53 + e"
      by (rule contrapos_pp) (auto intro: power_int_increasing simp: not_less)
    then have le: "rnd_exp ?x \<le> e" using x assms(2) by (simp add: rnd_exp_def)
    have "?x / 2 powi rnd_exp ?x = of_int (k * 2 ^ nat (e - rnd_exp ?x))"
      using powi_diff_int [OF le] by (simp flip: times_divide_eq_right)
    then have "of_int (round_even (?x / 2 powi rnd_exp ?x)) = ?x / 2 powi rnd_exp ?x"
      by (metis round_even_of_int)
    then show ?thesis using x by (simp add: rnd_pos_eq)
  qed
  have top: "rnd (of_int (2 ^ 53) * 2 powi e) = of_int (2 ^ 53) * 2 powi e"
  proof -
    let ?x = "of_int (2 ^ 53) * 2 powi e :: rat"
    have x: "?x = 2 powi (53 + e)" by (simp add: power_int_add)
    have fl: "floor_log2 ?x = 53 + e"
      unfolding x by (rule floor_log2_unique) (simp_all add: power_int_strict_increasing)
    have le: "rnd_exp ?x \<le> 53 + e" using fl assms(2) by (simp add: rnd_exp_def)
    have "?x / 2 powi rnd_exp ?x = of_int (2 ^ nat (53 + e - rnd_exp ?x))"
      using powi_diff_int [OF le] by (simp only: x)
    then have "of_int (round_even (?x / 2 powi rnd_exp ?x)) = ?x / 2 powi rnd_exp ?x"
      by (metis round_even_of_int)
    then show ?thesis using x by (simp add: rnd_pos_eq)
  qed
  have nn: "rnd (of_int k * 2 powi e) = of_int k * 2 powi e" if "0 \<le> k" "k \<le> 2 ^ 53" for k :: int
    using that pos [of k] top by (cases "k = 0"; cases "k = 2 ^ 53") auto
  show ?thesis
  proof (cases "0 \<le> m")
    case True
    with nn assms(1) show ?thesis by simp
  next
    case False
    with nn [of "- m"] assms(1) have "rnd (- (of_int m * 2 powi e)) = - (of_int m * 2 powi e)" by simp
    then show ?thesis by (simp add: rnd_minus)
  qed
qed

lemma rnd_of_int: "\<bar>m\<bar> \<le> 2 ^ 53 \<Longrightarrow> rnd (of_int m) = of_int m"
  using rnd_scaled_int [of m 0] by simp

lemma rnd_rnd_pos:
  assumes "0 < x"
  shows "rnd (rnd x) = rnd x"
proof -
  let ?e = "rnd_exp x" and ?m = "round_even (x / 2 powi rnd_exp x)"
  have "floor_log2 x - 52 \<le> ?e" using assms by (simp add: rnd_exp_def)
  then have "(2::rat) powi (floor_log2 x + 1) \<le> 2 powi (53 + ?e)"
    by (intro power_int_increasing) simp_all
  with floor_log2_bounds [OF assms] have "x \<le> 2 powi (53 + ?e)" by linarith
  then have "x / 2 powi ?e \<le> of_int (2 ^ 53)" by (simp add: power_int_add pos_divide_le_eq)
  then have "?m \<le> 2 ^ 53" by (metis round_even_mono round_even_of_int)
  moreover have "0 \<le> ?m"
    using assms round_even_mono [of 0 "x / 2 powi ?e"] round_even_of_int [of 0] by simp
  ultimately show ?thesis
    using rnd_scaled_int [of ?m ?e] assms by (simp add: rnd_pos_eq [of x] rnd_exp_def)
qed

lemma rnd_rnd [simp]: "rnd (rnd x) = rnd x"
proof (cases "x = 0" ; cases "0 < x")
  assume "x \<noteq> 0" "\<not> 0 < x"
  then have "rnd (rnd (- x)) = rnd (- x)" by (intro rnd_rnd_pos) simp
  then show ?thesis by (simp add: rnd_minus)
qed (simp_all add: rnd_rnd_pos)


lemma rnd_is_multiple: "\<exists>m::int. rnd x = of_int m * 2 powi (-1074)"
proof (cases "x = 0")
  case False
  have le: "(-1074::int) \<le> rnd_exp x" by (simp add: rnd_exp_def)
  have "rnd x = of_int (round_even (x / 2 powi rnd_exp x)) * 2 powi rnd_exp x"
    using False by (simp add: rnd_def Let_def)
  also have "(2::rat) powi rnd_exp x = of_int (2 ^ nat (rnd_exp x + 1074)) * 2 powi (-1074)"
    using powi_diff_int [OF le] by (simp add: field_simps)
  finally show ?thesis by (metis mult.assoc of_int_mult)
qed (auto intro: exI [of _ 0])

text \<open>The relative and the absolute (subnormal) part of one rounding error.\<close>

definition err_rel :: rat where "err_rel = 1 / 2 ^ 53"
definition err_abs :: rat where "err_abs = 1 / 2 ^ 1075"

lemma err_facts [simp]: "0 \<le> err_rel" "0 \<le> err_abs" "err_abs \<le> err_rel"
  by (simp_all add: err_rel_def err_abs_def)

lemma rnd_error_bound:
  assumes "0 \<le> x"
  shows "\<bar>rnd x - x\<bar> \<le> x / 2 ^ 53 + 1 / 2 ^ 1075"
proof (cases "x = 0")
  case False
  with assms have x: "0 < x" by simp
  let ?e = "rnd_exp x" and ?y = "x / 2 powi rnd_exp x"
  have p: "0 < (2::rat) powi ?e" by simp
  have "rnd x - x = (of_int (round_even ?y) - ?y) * 2 powi ?e"
    using x by (simp add: rnd_pos_eq left_diff_distrib)
  then have "\<bar>rnd x - x\<bar> \<le> 1 / 2 * 2 powi ?e"
    using round_even_near [of ?y] p by (simp only: abs_mult) (simp add: mult_right_mono)
  also have "\<dots> \<le> x / 2 ^ 53 + 1 / 2 ^ 1075"
  proof (cases "?e = floor_log2 x - 52")
    case True
    have "(2::rat) powi (floor_log2 x - 52) = 2 powi floor_log2 x / 2 ^ 52"
      by (simp add: power_int_diff)
    also have "\<dots> \<le> x / 2 ^ 52"
      using floor_log2_bounds [OF x] by (intro divide_right_mono) simp_all
    finally show ?thesis using True by simp
  next
    case False
    with x have "?e = -1074" by (simp add: rnd_exp_def max_def split: if_splits)
    moreover have "(2::rat) powi (-1074) = 1 / 2 ^ 1074"
      by (simp add: power_int_def inverse_eq_divide power_divide)
    ultimately have "1 / 2 * (2::rat) powi ?e = 1 / 2 ^ 1075" by simp
    then show ?thesis using x by simp
  qed
  finally show ?thesis .
qed simp

lemma rnd_error: "0 \<le> x \<Longrightarrow> \<bar>rnd x - x\<bar> \<le> err_rel * x + err_abs"
  using rnd_error_bound [of x] by (simp only: err_rel_def err_abs_def) (simp only: times_divide_eq_left mult_1)

lemma rnd_le_error: "0 \<le> x \<Longrightarrow> rnd x \<le> x + err_rel * x + err_abs"
  using rnd_error [of x] by (simp add: abs_le_iff)

subsection \<open>The laws the components rely on\<close>

locale rounding =
  fixes r :: "rat \<Rightarrow> rat"
  assumes zero: "r 0 = 0"
    and mono: "x \<le> y \<Longrightarrow> r x \<le> r y"
    and odd: "r (- x) = - r x"
    and idem: "r (r x) = r x"
    and int: "\<bar>m\<bar> \<le> 2 ^ 53 \<Longrightarrow> r (of_int m) = of_int m"
begin

lemma nonneg: "0 \<le> x \<Longrightarrow> 0 \<le> r x"
  using mono [of 0 x] by (simp add: zero)

lemma nonpos: "x \<le> 0 \<Longrightarrow> r x \<le> 0"
  using mono [of x 0] by (simp add: zero)

lemma upper: "x \<le> a \<Longrightarrow> r a = a \<Longrightarrow> r x \<le> a"
  using mono [of x a] by simp

lemma lower: "a \<le> x \<Longrightarrow> r a = a \<Longrightarrow> a \<le> r x"
  using mono [of a x] by simp

lemma nat: "n \<le> 2 ^ 53 \<Longrightarrow> r (of_nat n) = of_nat n"
proof -
  assume "n \<le> 2 ^ 53"
  then have "int n \<le> 2 ^ 53" by (metis of_nat_le_iff of_nat_numeral of_nat_power)
  then show ?thesis using int [of "int n"] by simp
qed

lemma one: "r 1 = 1"
  using int [of 1] by simp

lemma eq_cancel: "x = y \<Longrightarrow> r x = r y"
  by simp

end

interpretation js: rounding rnd
  by unfold_locales (simp_all add: rnd_mono rnd_minus rnd_of_int)

subsection \<open>Arithmetic and the Math functions the source calls\<close>

definition fadd :: "rat \<Rightarrow> rat \<Rightarrow> rat" where "fadd a b = rnd (a + b)"
definition fsub :: "rat \<Rightarrow> rat \<Rightarrow> rat" where "fsub a b = rnd (a - b)"
definition fmul :: "rat \<Rightarrow> rat \<Rightarrow> rat" where "fmul a b = rnd (a * b)"
definition fdiv :: "rat \<Rightarrow> rat \<Rightarrow> rat" where "fdiv a b = rnd (a / b)"

text \<open>\<open>fdiv\<close> is used under the guards of the source only, where the divisor is not zero.\<close>

lemmas fop_defs = fadd_def fsub_def fmul_def fdiv_def

definition js_round :: "rat \<Rightarrow> int" where
  "js_round x = \<lfloor>x + 1 / 2\<rfloor>"

text \<open>
  \<open>x.toFixed(f)\<close>: the integer \<open>n\<close> with \<open>n / 10 ^ f\<close> closest to the exact value of \<open>x\<close>, the larger
  one on a tie, and the sign put back; from \<open>10 ^ 21\<close> on it prints \<open>x\<close> itself.
  \<open>parseFloat\<close> of the result rounds the decimal to a double.
\<close>

definition to_fixed_val :: "nat \<Rightarrow> rat \<Rightarrow> rat" where
  "to_fixed_val f x =
     (if 10 ^ 21 \<le> \<bar>x\<bar> then x
      else if x < 0 then - (of_int (js_round (- x * 10 ^ f)) / 10 ^ f)
      else of_int (js_round (x * 10 ^ f)) / 10 ^ f)"

definition parse_fixed :: "nat \<Rightarrow> rat \<Rightarrow> rat" where
  "parse_fixed f x = rnd (to_fixed_val f x)"

text \<open>The helper \<open>round(x, places)\<close> of the pricing code: \<open>Math.round(x * p) / p\<close>.\<close>

lemma js_round_mono: "x \<le> y \<Longrightarrow> js_round x \<le> js_round y"
  by (simp add: js_round_def floor_mono)

lemma js_round_nonneg: "0 \<le> x \<Longrightarrow> 0 \<le> js_round x"
  by (simp add: js_round_def)

lemma fadd_nonneg [intro]: "0 \<le> a \<Longrightarrow> 0 \<le> b \<Longrightarrow> 0 \<le> fadd a b"
  by (simp add: fadd_def js.nonneg)

lemma fmul_nonneg [intro]: "0 \<le> a \<Longrightarrow> 0 \<le> b \<Longrightarrow> 0 \<le> fmul a b"
  by (simp add: fmul_def js.nonneg)

lemma fdiv_nonneg [intro]: "0 \<le> a \<Longrightarrow> 0 \<le> b \<Longrightarrow> 0 \<le> fdiv a b"
  by (simp add: fdiv_def js.nonneg)

lemma fsub_nonneg [intro]: "b \<le> a \<Longrightarrow> 0 \<le> fsub a b"
  by (simp add: fsub_def js.nonneg)

lemma fsub_le: "is_double a \<Longrightarrow> 0 \<le> b \<Longrightarrow> fsub a b \<le> a"
  by (simp add: fsub_def is_double_def js.upper)

lemma fadd_mono: "a \<le> b \<Longrightarrow> c \<le> d \<Longrightarrow> fadd a c \<le> fadd b d"
  unfolding fadd_def by (rule rnd_mono) simp

lemma fmul_mono: "0 \<le> a \<Longrightarrow> b \<le> c \<Longrightarrow> fmul a b \<le> fmul a c"
  unfolding fmul_def by (rule rnd_mono) (rule mult_left_mono)

lemma fmul_mono2: "0 \<le> a \<Longrightarrow> a \<le> b \<Longrightarrow> 0 \<le> c \<Longrightarrow> c \<le> d \<Longrightarrow> fmul a c \<le> fmul b d"
  unfolding fmul_def by (rule rnd_mono) (rule mult_mono, auto)

lemma fdiv_mono: "a \<le> b \<Longrightarrow> 0 \<le> c \<Longrightarrow> fdiv a c \<le> fdiv b c"
  unfolding fdiv_def by (rule rnd_mono) (rule divide_right_mono)

lemma js_round_near: "\<bar>of_int (js_round x) - x\<bar> \<le> 1 / 2"
  unfolding js_round_def by linarith

text \<open>The rounding error of a bounded number, of either sign.\<close>

lemma rnd_near: "\<bar>x\<bar> \<le> b \<Longrightarrow> \<bar>rnd x - x\<bar> \<le> err_rel * b + err_abs"
proof -
  assume b: "\<bar>x\<bar> \<le> b"
  have "\<bar>rnd \<bar>x\<bar> - \<bar>x\<bar>\<bar> \<le> err_rel * \<bar>x\<bar> + err_abs" by (rule rnd_error) simp
  moreover have "err_rel * \<bar>x\<bar> \<le> err_rel * b" using b by (intro mult_left_mono) simp_all
  moreover have "\<bar>rnd \<bar>x\<bar> - \<bar>x\<bar>\<bar> = \<bar>rnd x - x\<bar>" by (cases "0 \<le> x") (simp_all add: rnd_minus abs_if)
  ultimately show ?thesis by linarith
qed

lemma is_double_rnd [simp]: "is_double (rnd x)"
  by (simp add: is_double_def)

lemma is_double_fop [simp]:
  "is_double (fadd a b)" "is_double (fsub a b)" "is_double (fmul a b)" "is_double (fdiv a b)"
  by (simp_all add: fop_defs)

lemma is_double_of_int: "\<bar>m\<bar> \<le> 2 ^ 53 \<Longrightarrow> is_double (of_int m)"
  by (simp add: is_double_def js.int)


subsection \<open>Comparing a rounded quotient with a rounded literal\<close>

text \<open>
  For fractions with moderate denominators the comparison of the two doubles is the comparison of
  the fractions: their distance is larger than the rounding errors.
\<close>

lemma rnd_frac_less:
  fixes d t p q :: int
  assumes "0 \<le> d" "d \<le> t" "0 < t" "0 \<le> p" "p \<le> q" "0 < q" "q * t \<le> 2 ^ 50" "d * q < p * t"
  shows "rnd (of_int d / of_int t) < rnd (of_int p / of_int q)"
proof -
  let ?a = "of_int d / of_int t :: rat" and ?b = "of_int p / of_int q :: rat"
  have le1: "?a \<le> 1" "?b \<le> 1" "0 \<le> ?a" "0 \<le> ?b" using assms by simp_all
  have qt: "(0::rat) < of_int (q * t)" using assms by (simp add: zero_less_mult_iff)
  have num: "(1::rat) \<le> of_int (p * t - d * q)" using assms(8) int_one_le_iff_zero_less [of "p * t - d * q"] by (metis diff_gt_0_iff_gt of_int_1 of_int_le_iff)
  have big: "(of_int (q * t) :: rat) \<le> 2 ^ 50"
    using assms(7) by (metis of_int_le_iff of_int_numeral of_int_power)
  have "(1::rat) / 2 ^ 50 \<le> of_int (p * t - d * q) / of_int (q * t)"
    using num big qt by (intro frac_le) simp_all
  also have "\<dots> = ?b - ?a" using assms by (simp add: field_simps)
  finally have gap: "1 / 2 ^ 50 \<le> ?b - ?a" .
  have "rnd ?a \<le> ?a + err_rel * ?a + err_abs" using le1 by (intro rnd_le_error)
  moreover have "?b - (err_rel * ?b + err_abs) \<le> rnd ?b"
    using rnd_error [OF le1(4)] by (simp add: abs_le_iff)
  moreover have "err_rel * ?a \<le> err_rel" "err_rel * ?b \<le> err_rel"
    using le1 by (simp_all add: err_rel_def)
  moreover have "4 * err_rel < 1 / 2 ^ 50" by (simp add: err_rel_def)
  ultimately show ?thesis using gap err_facts(3) by linarith
qed

lemma rnd_frac_less_iff:
  fixes d t p q :: int
  assumes "0 \<le> d" "d \<le> t" "0 < t" "0 \<le> p" "p \<le> q" "0 < q" "q * t \<le> 2 ^ 50"
  shows "rnd (of_int d / of_int t) < rnd (of_int p / of_int q) \<longleftrightarrow> d * q < p * t"
    and "rnd (of_int p / of_int q) < rnd (of_int d / of_int t) \<longleftrightarrow> p * t < d * q"
proof -
  have cmp: "of_int p / of_int q \<le> (of_int d / of_int t :: rat) \<longleftrightarrow> p * t \<le> d * q"
    using assms by (simp add: divide_le_eq le_divide_eq mult.commute flip: of_int_mult)
  have cmp': "of_int d / of_int t \<le> (of_int p / of_int q :: rat) \<longleftrightarrow> d * q \<le> p * t"
    using assms by (simp add: divide_le_eq le_divide_eq mult.commute flip: of_int_mult)
  show "rnd (of_int d / of_int t) < rnd (of_int p / of_int q) \<longleftrightarrow> d * q < p * t"
    using rnd_frac_less [OF assms] rnd_mono cmp by (meson not_le)
  have "q * t = t * q" by simp
  then show "rnd (of_int p / of_int q) < rnd (of_int d / of_int t) \<longleftrightarrow> p * t < d * q"
    using rnd_frac_less [of p q d t] assms rnd_mono cmp' by (metis mult.commute not_le)
qed

end
