(* ===== verification/JsString.thy ===== *)
theory JsString
  imports JsNumber "HOL-Library.Sublist"
begin

section \<open>The string functions of the source\<close>

text \<open>
  A string of the program is a \<open>string\<close> (list of characters). The functions below are the
  ECMAScript ones the source calls, on the ASCII range: \<open>toLowerCase\<close>, \<open>toUpperCase\<close>,
  \<open>trim\<close>, \<open>includes\<close>, \<open>startsWith\<close>, \<open>endsWith\<close>, \<open>split\<close> on one character,
  \<open>join\<close>, decimal printing of integers, \<open>parseInt(s, 10)\<close>, \<open>x.toFixed(f)\<close>,
  \<open>Date.toISOString()\<close> and the UTF-8 bytes of \<open>Buffer.from(s)\<close>. Where a string outside ASCII
  matters, it is the list of its UTF-16 code units (\<open>ustring\<close>).
\<close>

abbreviation code :: "char \<Rightarrow> nat" where
  "code \<equiv> of_char"

definition lower_char :: "char \<Rightarrow> char" where
  "lower_char c = (if 65 \<le> code c \<and> code c \<le> 90 then char_of (code c + 32) else c)"

definition upper_char :: "char \<Rightarrow> char" where
  "upper_char c = (if 97 \<le> code c \<and> code c \<le> 122 then char_of (code c - 32) else c)"

definition to_lower :: "string \<Rightarrow> string" where
  "to_lower = map lower_char"

definition to_upper :: "string \<Rightarrow> string" where
  "to_upper = map upper_char"

definition is_space :: "char \<Rightarrow> bool" where
  "is_space c \<longleftrightarrow> code c = 32 \<or> (9 \<le> code c \<and> code c \<le> 13)"

definition trim :: "string \<Rightarrow> string" where
  "trim s = rev (dropWhile is_space (rev (dropWhile is_space s)))"

fun has_sub :: "'a list \<Rightarrow> 'a list \<Rightarrow> bool" where
  "has_sub n [] \<longleftrightarrow> n = []"
| "has_sub n (c # cs) \<longleftrightarrow> prefix n (c # cs) \<or> has_sub n cs"

definition starts_with :: "string \<Rightarrow> string \<Rightarrow> bool" where
  "starts_with p s \<longleftrightarrow> prefix p s"

definition ends_with :: "string \<Rightarrow> string \<Rightarrow> bool" where
  "ends_with p s \<longleftrightarrow> suffix p s"

fun split_on :: "char \<Rightarrow> string \<Rightarrow> string list" where
  "split_on c [] = [[]]"
| "split_on c (x # xs) =
     (if x = c then [] # split_on c xs
      else (case split_on c xs of [] \<Rightarrow> [[x]] | w # ws \<Rightarrow> (x # w) # ws))"

fun join_with :: "string \<Rightarrow> string list \<Rightarrow> string" where
  "join_with sep [] = []"
| "join_with sep [w] = w"
| "join_with sep (w # ws) = w @ sep @ join_with sep ws"

definition is_digit :: "char \<Rightarrow> bool" where
  "is_digit c \<longleftrightarrow> 48 \<le> code c \<and> code c \<le> 57"

definition digit_val :: "char \<Rightarrow> int" where
  "digit_val c = int (code c) - 48"

definition digits_val :: "string \<Rightarrow> int" where
  "digits_val ds = foldl (\<lambda>a d. 10 * a + digit_val d) 0 ds"

text \<open>\<open>parseInt(s, 10)\<close>; \<open>None\<close> is NaN.\<close>

definition parse_int10 :: "string \<Rightarrow> int option" where
  "parse_int10 s =
     (let t = dropWhile is_space s;
          neg = (t \<noteq> [] \<and> hd t = CHR ''-'');
          u = (if t \<noteq> [] \<and> (hd t = CHR ''-'' \<or> hd t = CHR ''+'') then tl t else t);
          ds = takeWhile is_digit u
      in if ds = [] then None
         else Some (if neg then - digits_val ds else digits_val ds))"

fun nat_digits :: "int \<Rightarrow> string" where
  "nat_digits n =
     (if n < 10 then [char_of (nat (48 + n))]
      else nat_digits (n div 10) @ [char_of (nat (48 + n mod 10))])"

declare nat_digits.simps [simp del]

definition int_str :: "int \<Rightarrow> string" where
  "int_str n = (if n < 0 then CHR ''-'' # nat_digits (- n) else nat_digits n)"

definition pad_left :: "nat \<Rightarrow> string \<Rightarrow> string" where
  "pad_left n s = replicate (n - length s) (CHR ''0'') @ s"

text \<open>\<open>x.toFixed(f)\<close> as a string, for magnitudes below \<open>10 ^ 21\<close>.\<close>

definition to_fixed_str :: "nat \<Rightarrow> rat \<Rightarrow> string" where
  "to_fixed_str f x =
     (let s = pad_left (f + 1) (nat_digits (js_round (\<bar>x\<bar> * 10 ^ f)));
          k = length s - f;
          body = (if f = 0 then s else take k s @ ''.'' @ drop k s)
      in if x < 0 then CHR ''-'' # body else body)"

text \<open>\<open>Date.toISOString()\<close> for the years 0 to 9999, in the proleptic Gregorian calendar.\<close>

definition civil_of_days :: "int \<Rightarrow> int \<times> int \<times> int" where
  "civil_of_days days =
     (let z = days + 719468; era = z div 146097; doe = z mod 146097;
          yoe = (doe - doe div 1460 + doe div 36524 - doe div 146096) div 365;
          doy = doe - (365 * yoe + yoe div 4 - yoe div 100);
          mp = (5 * doy + 2) div 153;
          d = doy - (153 * mp + 2) div 5 + 1;
          m = (if mp < 10 then mp + 3 else mp - 9);
          y = yoe + era * 400 + (if m \<le> 2 then 1 else 0)
      in (y, m, d))"

definition iso_string :: "time \<Rightarrow> string" where
  "iso_string t =
     (let (y, m, d) = civil_of_days (t div 86400000);
          ms = t mod 86400000;
          two = (\<lambda>n. pad_left 2 (nat_digits n))
      in pad_left 4 (nat_digits y) @ ''-'' @ two m @ ''-'' @ two d @ ''T''
         @ two (ms div 3600000) @ '':'' @ two (ms div 60000 mod 60) @ '':''
         @ two (ms div 1000 mod 60) @ ''.'' @ pad_left 3 (nat_digits (ms mod 1000)) @ ''Z'')"

type_synonym ustring = "nat list"

definition units :: "string \<Rightarrow> ustring" where
  "units s = map code s"

definition utf8_unit :: "nat \<Rightarrow> nat list" where
  "utf8_unit n =
     (if n < 128 then [n]
      else if n < 2048 then [192 + n div 64, 128 + n mod 64]
      else [224 + n div 4096, 128 + n div 64 mod 64, 128 + n mod 64])"

text \<open>\<open>Buffer.from(s)\<close>: surrogate pairs give four bytes, a lone surrogate the bytes of U+FFFD.\<close>

fun utf8 :: "ustring \<Rightarrow> nat list" where
  "utf8 [] = []"
| "utf8 [u] = (if 55296 \<le> u \<and> u < 57344 then [239, 191, 189] else utf8_unit u)"
| "utf8 (u # v # us) =
     (if 55296 \<le> u \<and> u < 56320 \<and> 56320 \<le> v \<and> v < 57344 then
        (let c = 65536 + (u - 55296) * 1024 + (v - 56320)
         in [240 + c div 262144, 128 + c div 4096 mod 64, 128 + c div 64 mod 64, 128 + c mod 64] @ utf8 us)
      else (if 55296 \<le> u \<and> u < 57344 then [239, 191, 189] else utf8_unit u) @ utf8 (v # us))"

subsection \<open>Shared facts\<close>

lemma utf8_ascii: "\<forall>u \<in> set us. u < 128 \<Longrightarrow> utf8 us = us"
  by (induction us rule: utf8.induct) (auto simp: utf8_unit_def)

lemma nat_digits_no_sep: "0 \<le> n \<Longrightarrow> \<forall>c \<in> set (nat_digits n). is_digit c"
proof (induction n rule: nat_digits.induct)
  case (1 n)
  have dig: "is_digit (char_of (nat (48 + k)))" if "0 \<le> k" "k < 10" for k :: int
  proof -
    have "nat (48 + k) < 256" using that by simp
    then have "code (char_of (nat (48 + k))) = nat (48 + k)" by (simp add: of_char_of)
    then show ?thesis using that by (simp add: is_digit_def nat_le_iff le_nat_iff)
  qed
  show ?case
  proof (cases "n < 10")
    case True
    then show ?thesis using dig [of n] "1.prems" by (subst nat_digits.simps) simp
  next
    case False
    then show ?thesis using "1.IH" "1.prems" dig [of "n mod 10"] by (subst nat_digits.simps) simp
  qed
qed

text \<open>Evaluation of the case functions on literals by \<open>simp\<close>.\<close>

lemmas str_eval = to_lower_def to_upper_def lower_char_def upper_char_def char_of_def bit_0

lemma has_sub_iff_sublist: "has_sub n s \<longleftrightarrow> sublist n s"
  by (induction s) (auto simp: sublist_Cons_right)

lemma split_on_nonempty [simp]: "split_on c s \<noteq> []"
  by (induction s) (auto split: list.splits)

lemma split_on_no_sep: "w \<in> set (split_on c s) \<Longrightarrow> c \<notin> set w"
  by (induction s arbitrary: w) (fastforce split: if_splits list.splits)+

lemma split_on_single: "c \<notin> set s \<Longrightarrow> split_on c s = [s]"
  by (induction s) auto

lemma join_split_on: "join_with [c] (split_on c s) = s"
proof (induction s)
  case (Cons x s)
  obtain w ws where w: "split_on c s = w # ws"
    by (cases "split_on c s") auto
  then show ?case using Cons by (cases ws) auto
qed simp

end
