(* ===== verification/RateLimiter.thy ===== *)
theory RateLimiter
  imports JsNumber JsString
begin

section \<open>Token-bucket rate limiting (src/middleware/rateLimiter.ts)\<close>

text \<open>
  The bucket (\<open>token_bucket\<close>), the LRU store of buckets (an insertion-ordered map), tier
  resolution and the middleware. Every call of \<open>Date.now()\<close> in the source is an argument of
  type \<open>time\<close> (milliseconds), in the order in which the source reads the clock, collected for one
  request in the record \<open>rl_clock\<close>.
\<close>

subsection \<open>Tiers and options\<close>

datatype api_tier = PAY_AS_YOU_GO | GROWTH | ENTERPRISE

record tier_config =
  requestsPerMinute :: rat
  burstCapacity :: rat
  label :: string

record tier_override =
  o_requestsPerMinute :: "rat option"
  o_burstCapacity :: "rat option"
  o_label :: "string option"

record rl_result =
  allowed :: bool
  rr_tier :: api_tier
  limit :: rat
  remaining :: int
  resetEpoch :: int
  retryAfterSeconds :: "int option"
  bucketKey :: string
  invalidTier :: bool

record rl_options =
  tierHeader :: string
  tenantHeader :: string
  allowUnknownTier :: bool
  maxBuckets :: nat
  tierOverrides :: "api_tier \<Rightarrow> tier_override option"
  bypassPaths :: "string list"

record rl_request =
  headers :: "string \<rightharpoonup> string"
  remoteAddress :: "string option"
  req_path :: string

fun TIER_CONFIGS :: "api_tier \<Rightarrow> tier_config" where
  "TIER_CONFIGS PAY_AS_YOU_GO =
     \<lparr>requestsPerMinute = 60, burstCapacity = 15, label = ''Pay-As-You-Go''\<rparr>"
| "TIER_CONFIGS GROWTH =
     \<lparr>requestsPerMinute = 300, burstCapacity = 75, label = ''Growth''\<rparr>"
| "TIER_CONFIGS ENTERPRISE =
     \<lparr>requestsPerMinute = 1500, burstCapacity = 300, label = ''Enterprise''\<rparr>"

definition ALWAYS_BYPASS :: "string list" where
  "ALWAYS_BYPASS = [''/health'', ''/health/db'', ''/metrics'', ''/favicon.ico'']"

subsection \<open>TokenBucket\<close>

record token_bucket =
  capacity :: rat
  tokens :: rat
  lastRefillMs :: time
  refillRatePerMs :: rat

definition new_bucket :: "time \<Rightarrow> rat \<Rightarrow> rat \<Rightarrow> token_bucket" where
  "new_bucket now cap rpm =
     \<lparr>capacity = cap, tokens = cap, lastRefillMs = now, refillRatePerMs = fdiv rpm 60000\<rparr>"

definition refill :: "time \<Rightarrow> token_bucket \<Rightarrow> token_bucket" where
  "refill now b =
     (let elapsed = of_int (now - lastRefillMs b);
          added = fmul elapsed (refillRatePerMs b)
      in b\<lparr>tokens := min (capacity b) (fadd (tokens b) added), lastRefillMs := now\<rparr>)"

definition consume :: "rat \<Rightarrow> time \<Rightarrow> token_bucket \<Rightarrow> bool \<times> token_bucket" where
  "consume count now b =
     (let b' = refill now b
      in if count \<le> tokens b' then (True, b'\<lparr>tokens := fsub (tokens b') count\<rparr>)
         else (False, b'))"

definition get_remaining :: "time \<Rightarrow> token_bucket \<Rightarrow> int \<times> token_bucket" where
  "get_remaining now b = (let b' = refill now b in (\<lfloor>tokens b'\<rfloor>, b'))"

definition get_resetEpoch :: "time \<Rightarrow> token_bucket \<Rightarrow> int" where
  "get_resetEpoch now b =
     (if capacity b \<le> tokens b then \<lfloor>fdiv (of_int now) 1000\<rfloor>
      else let secondsToFull = fdiv (fsub (capacity b) (tokens b)) (fmul (refillRatePerMs b) 1000)
           in \<lceil>fadd (fdiv (of_int now) 1000) secondsToFull\<rceil>)"

definition get_retryAfterSeconds :: "token_bucket \<Rightarrow> int" where
  "get_retryAfterSeconds b =
     (if 1 \<le> tokens b then 0
      else \<lceil>fdiv (fsub 1 (tokens b)) (fmul (refillRatePerMs b) 1000)\<rceil>)"

subsection \<open>BucketStore\<close>

type_synonym bucket_store = "(string \<times> token_bucket) list"

definition store_get :: "string \<Rightarrow> bucket_store \<Rightarrow> token_bucket option \<times> bucket_store" where
  "store_get key st =
     (case map_of st key of
        None \<Rightarrow> (None, st)
      | Some b \<Rightarrow> (Some b, AList.update key b (AList.delete key st)))"

definition store_set :: "nat \<Rightarrow> string \<Rightarrow> token_bucket \<Rightarrow> bucket_store \<Rightarrow> bucket_store" where
  "store_set maxB key b st =
     (let st' = (if maxB \<le> length st
                 then (case st of [] \<Rightarrow> st | (oldest, _) # _ \<Rightarrow> AList.delete oldest st)
                 else st)
      in AList.update key b st')"

definition getOrCreate ::
  "nat \<Rightarrow> time \<Rightarrow> string \<Rightarrow> rat \<Rightarrow> rat \<Rightarrow> bucket_store \<Rightarrow> token_bucket \<times> bucket_store" where
  "getOrCreate maxB now key cap rpm st =
     (case store_get key st of
        (Some b, st') \<Rightarrow> (b, st')
      | (None, st') \<Rightarrow>
          (let b = new_bucket now cap rpm in (b, store_set maxB key b st')))"

subsection \<open>Tier resolution\<close>

definition parse_tier :: "string \<Rightarrow> api_tier option" where
  "parse_tier s =
     (if s = ''PAY_AS_YOU_GO'' then Some PAY_AS_YOU_GO
      else if s = ''GROWTH'' then Some GROWTH
      else if s = ''ENTERPRISE'' then Some ENTERPRISE
      else None)"

text \<open>An absent header and an empty one are both falsy.\<close>

definition header :: "rl_request \<Rightarrow> string \<Rightarrow> string option" where
  "header req name = headers req (to_lower name)"

definition truthy :: "string option \<Rightarrow> string option" where
  "truthy s = (case s of Some [] \<Rightarrow> None | _ \<Rightarrow> s)"

definition resolveTier :: "rl_request \<Rightarrow> string \<Rightarrow> bool \<Rightarrow> api_tier option" where
  "resolveTier req tierHdr allowUnknown =
     (let fallback = (if allowUnknown then Some PAY_AS_YOU_GO else None)
      in case truthy (header req tierHdr) of
           None \<Rightarrow> fallback
         | Some raw \<Rightarrow>
             (case parse_tier (to_upper raw) of Some t \<Rightarrow> Some t | None \<Rightarrow> fallback))"

definition resolveTierConfig ::
  "api_tier \<Rightarrow> (api_tier \<Rightarrow> tier_override option) \<Rightarrow> tier_config" where
  "resolveTierConfig tier overrides =
     (let base = TIER_CONFIGS tier
      in case overrides tier of
           None \<Rightarrow> base
         | Some ov \<Rightarrow>
             \<lparr>requestsPerMinute = case_option (requestsPerMinute base) id (o_requestsPerMinute ov),
              burstCapacity = case_option (burstCapacity base) id (o_burstCapacity ov),
              label = case_option (label base) id (o_label ov)\<rparr>)"

definition buildBucketKey :: "rl_request \<Rightarrow> string \<Rightarrow> string" where
  "buildBucketKey req tenantHdr =
     (let ip = (case headers req ''x-forwarded-for'' of
                  Some xff \<Rightarrow> trim (hd (split_on (CHR '','') xff))
                | None \<Rightarrow> (case remoteAddress req of Some a \<Rightarrow> a | None \<Rightarrow> ''unknown''))
      in case truthy (header req tenantHdr) of
           Some tenantId \<Rightarrow> ''t:'' @ tenantId
         | None \<Rightarrow> ''ip:'' @ ip)"

definition isAutomationClient :: "rl_request \<Rightarrow> bool" where
  "isAutomationClient req =
     (let ua = to_lower (case_option [] id (headers req ''user-agent''))
      in list_ex (\<lambda>n. has_sub n ua)
           [''zapier'', ''mulesoft'', ''n8n'', ''make.com'', ''workato'', ''tray.io'', ''pipedream''])"

subsection \<open>evaluateRateLimit and the middleware\<close>

record rl_clock =
  at_create :: time
  at_consume :: time
  at_remaining :: time
  at_reset :: time

text \<open>
  The bucket returned by \<open>getOrCreate\<close> is the object held by the store, so its updates are
  written back under its key.
\<close>

definition evaluateRateLimit ::
  "rl_clock \<Rightarrow> rl_options \<Rightarrow> rl_request \<Rightarrow> bucket_store \<Rightarrow> rl_result \<times> bucket_store" where
  "evaluateRateLimit ck opts req st =
     (case resolveTier req (tierHeader opts) (allowUnknownTier opts) of
        None \<Rightarrow>
          (\<lparr>allowed = False, rr_tier = PAY_AS_YOU_GO, limit = 0, remaining = 0,
            resetEpoch = \<lfloor>fdiv (of_int (at_reset ck)) 1000\<rfloor>,
            retryAfterSeconds = None, bucketKey = ''invalid'', invalidTier = True\<rparr>, st)
      | Some tier \<Rightarrow>
          (let config = resolveTierConfig tier (tierOverrides opts);
               key = buildBucketKey req (tenantHeader opts);
               (b0, st1) = getOrCreate (maxBuckets opts) (at_create ck) key
                             (burstCapacity config) (requestsPerMinute config) st;
               (ok, b1) = consume 1 (at_consume ck) b0;
               (rem, b2) = get_remaining (at_remaining ck) b1
           in (\<lparr>allowed = ok, rr_tier = tier, limit = requestsPerMinute config, remaining = rem,
                resetEpoch = get_resetEpoch (at_reset ck) b2,
                retryAfterSeconds = (if ok then None else Some (get_retryAfterSeconds b2)),
                bucketKey = key, invalidTier = False\<rparr>,
               AList.update key b2 st1)))"

datatype rl_header = HNum rat | HInt int | HPolicy rat \<comment> \<open>\<open>`${limit};w=60`\<close>\<close>

definition setRateLimitHeaders :: "rl_result \<Rightarrow> (string \<times> rl_header) list" where
  "setRateLimitHeaders r =
     [(''X-RateLimit-Limit'', HNum (limit r)),
      (''X-RateLimit-Remaining'', HInt (remaining r)),
      (''X-RateLimit-Reset'', HInt (resetEpoch r)),
      (''X-RateLimit-Policy'', HPolicy (limit r))]
     @ (case retryAfterSeconds r of None \<Rightarrow> [] | Some s \<Rightarrow> [(''Retry-After'', HInt s)])"

datatype rl_outcome =
    Bypassed
  | Passed "(string \<times> rl_header) list"
  | BadRequest400 "(string \<times> rl_header) list" string
  | TooMany429 "(string \<times> rl_header) list" api_tier rat "int option" int

record rl_state =
  store :: bucket_store
  rejected :: "(api_tier \<times> string) list" \<comment> \<open>increments of \<open>rateLimitCounter\<close>, newest last\<close>

definition bypasses :: "rl_options \<Rightarrow> string \<Rightarrow> bool" where
  "bypasses opts p \<longleftrightarrow>
     list_ex (\<lambda>q. p = q \<or> starts_with (q @ ''/'') p) (ALWAYS_BYPASS @ bypassPaths opts)"

definition rateLimiterMiddleware ::
  "rl_clock \<Rightarrow> rl_options \<Rightarrow> rl_request \<Rightarrow> rl_state \<Rightarrow> rl_outcome \<times> rl_state" where
  "rateLimiterMiddleware ck opts req s =
     (if bypasses opts (req_path req) then (Bypassed, s)
      else
        let (r, st) = evaluateRateLimit ck opts req (store s);
            hs = setRateLimitHeaders r;
            s' = s\<lparr>store := st\<rparr>
        in if allowed r then (Passed hs, s')
           else if invalidTier r then (BadRequest400 hs (req_path req), s')
           else
             let tenantId = (case header req (tenantHeader opts) of Some t \<Rightarrow> t | None \<Rightarrow> ''unknown'')
             in (TooMany429 hs (rr_tier r) (limit r) (retryAfterSeconds r) (resetEpoch r),
                 s'\<lparr>rejected := rejected s @ [(rr_tier r, tenantId)]\<rparr>))"


subsection \<open>The bucket keeps between zero and its capacity\<close>

definition wf_bucket :: "token_bucket \<Rightarrow> bool" where
  "wf_bucket b \<longleftrightarrow>
     0 \<le> tokens b \<and> tokens b \<le> capacity b \<and> is_double (tokens b) \<and> is_double (capacity b)
     \<and> 0 \<le> refillRatePerMs b"

lemma wf_new_bucket: "is_double cap \<Longrightarrow> 0 \<le> cap \<Longrightarrow> 0 \<le> rpm \<Longrightarrow> wf_bucket (new_bucket now cap rpm)"
  by (simp add: wf_bucket_def new_bucket_def fdiv_nonneg)

lemma refill_fields [simp]:
  "capacity (refill now b) = capacity b" "lastRefillMs (refill now b) = now"
  "refillRatePerMs (refill now b) = refillRatePerMs b"
  by (simp_all add: refill_def Let_def)

lemma wf_refill: "wf_bucket b \<Longrightarrow> lastRefillMs b \<le> now \<Longrightarrow> wf_bucket (refill now b)"
  by (auto simp: wf_bucket_def refill_def Let_def min_def intro!: fadd_nonneg fmul_nonneg)

lemma consume_fields [simp]:
  "capacity (snd (consume c now b)) = capacity b"
  "lastRefillMs (snd (consume c now b)) = now"
  "refillRatePerMs (snd (consume c now b)) = refillRatePerMs b"
  by (simp_all add: consume_def Let_def)

lemma wf_consume:
  assumes "wf_bucket b" "lastRefillMs b \<le> now" "0 \<le> c"
  shows "wf_bucket (snd (consume c now b))"
proof -
  let ?b = "refill now b"
  have w: "wf_bucket ?b" using assms by (simp add: wf_refill)
  have "fsub (tokens ?b) c \<le> capacity ?b"
    using w assms(3) fsub_le [of "tokens ?b" c] unfolding wf_bucket_def by linarith
  with w show ?thesis by (auto simp: consume_def Let_def wf_bucket_def)
qed

lemma wf_get_remaining:
  "wf_bucket b \<Longrightarrow> lastRefillMs b \<le> now \<Longrightarrow> wf_bucket (snd (get_remaining now b))"
  by (simp add: get_remaining_def Let_def wf_refill)

lemma get_remaining_bounds:
  "wf_bucket b \<Longrightarrow> lastRefillMs b \<le> now \<Longrightarrow>
   0 \<le> fst (get_remaining now b) \<and> of_int (fst (get_remaining now b)) \<le> capacity b"
  using wf_refill [of b now] refill_fields(1) [of now b]
  unfolding get_remaining_def Let_def wf_bucket_def fst_conv
  by (metis floor_mono floor_zero of_int_floor_le order_trans)

subsection \<open>No run of requests is admitted beyond burst plus sustained rate\<close>

text \<open>
  What \<open>evaluateRateLimit\<close> does to its bucket, request by request: one token is asked for at the first
  time, and the count reported in the header refills the bucket once more at the second.
\<close>

definition charge :: "time \<times> time \<Rightarrow> token_bucket \<Rightarrow> bool \<times> token_bucket" where
  "charge t b = (let (ok, b') = consume 1 (fst t) b in (ok, snd (get_remaining (snd t) b')))"

fun admit_run :: "(time \<times> time) list \<Rightarrow> token_bucket \<Rightarrow> nat \<times> token_bucket" where
  "admit_run [] b = (0, b)"
| "admit_run (t # ts) b =
     (let (ok, b') = charge t b; (n, b'') = admit_run ts b'
      in ((if ok then 1 else 0) + n, b''))"

definition instants :: "(time \<times> time) list \<Rightarrow> time list" where
  "instants ts = concat (map (\<lambda>(a, r). [a, r]) ts)"

lemma charge_eq:
  "fst (charge t b) = fst (consume 1 (fst t) b)"
  "snd (charge t b) = refill (snd t) (snd (consume 1 (fst t) b))"
  by (simp_all add: charge_def get_remaining_def case_prod_beta Let_def)

text \<open>One request moves at most the rounding slack \<open>rl_slack\<close> beyond the exact budget.\<close>

definition rl_slack :: "rat \<Rightarrow> rat" where
  "rl_slack cap = err_rel * (2 * cap + 3)"

lemma min_rnd_budget:
  assumes "0 \<le> s" "0 \<le> c"
  shows "min c (rnd s) \<le> s + err_rel * c + err_abs"
proof (cases "c \<le> s")
  case True
  have "0 \<le> err_rel * c" using assms by simp
  then show ?thesis using True err_facts(2) by linarith
next
  case False
  then have "err_rel * s \<le> err_rel * c" by (intro mult_left_mono) simp_all
  then show ?thesis using rnd_le_error [OF assms(1)] by linarith
qed

definition accrued :: "token_bucket \<Rightarrow> time \<Rightarrow> rat" where
  "accrued b now = of_int (now - lastRefillMs b) * refillRatePerMs b"

lemma refill_budget:
  assumes "wf_bucket b" "lastRefillMs b \<le> now"
  shows "tokens (refill now b) \<le>
    tokens b + accrued b now * (1 + err_rel) + (err_rel * capacity b + 2 * err_abs)"
proof -
  let ?D = "accrued b now"
  have D: "0 \<le> ?D" using assms by (simp add: wf_bucket_def accrued_def)
  have add: "rnd ?D \<le> ?D + err_rel * ?D + err_abs" using D by (rule rnd_le_error)
  have s0: "0 \<le> tokens b + rnd ?D" using assms D js.nonneg [of ?D] by (simp add: wf_bucket_def)
  have c0: "0 \<le> capacity b" using assms by (simp add: wf_bucket_def)
  have "tokens (refill now b) = min (capacity b) (rnd (tokens b + rnd ?D))"
    by (simp add: refill_def Let_def accrued_def fop_defs)
  also have "\<dots> \<le> tokens b + rnd ?D + err_rel * capacity b + err_abs"
    using s0 c0 by (rule min_rnd_budget)
  finally show ?thesis using add by (simp add: algebra_simps)
qed

lemma consume_budget:
  assumes "wf_bucket b" "lastRefillMs b \<le> now"
  shows "tokens (snd (consume 1 now b)) + (if fst (consume 1 now b) then 1 else 0) \<le>
    tokens b + accrued b now * (1 + err_rel) + rl_slack (capacity b)"
proof -
  let ?b = "refill now b" and ?A = "accrued b now * (1 + err_rel)"
  have w: "wf_bucket ?b" using assms by (rule wf_refill)
  note r = refill_budget [OF assms]
  have cap: "0 \<le> err_rel * capacity b" using assms by (simp add: wf_bucket_def)
  have slack: "rl_slack (capacity b) = 2 * (err_rel * capacity b) + 3 * err_rel"
    by (simp add: rl_slack_def algebra_simps)
  show ?thesis
  proof (cases "1 \<le> tokens ?b")
    case True
    let ?d = "tokens ?b - 1"
    have "fsub (tokens ?b) 1 \<le> ?d + err_rel * ?d + err_abs"
      using True unfolding fsub_def by (intro rnd_le_error) simp
    moreover have "err_rel * ?d \<le> err_rel * capacity b"
      using w by (intro mult_left_mono) (simp_all add: wf_bucket_def)
    ultimately have "fsub (tokens ?b) 1 + 1 \<le> tokens b + ?A + rl_slack (capacity b)"
      using r err_facts(2,3) unfolding slack by linarith
    then show ?thesis using True by (simp add: consume_def Let_def)
  next
    case False
    have "tokens ?b \<le> tokens b + ?A + rl_slack (capacity b)"
      using r cap err_facts(2,3) unfolding slack by linarith
    then show ?thesis using False by (simp add: consume_def Let_def)
  qed
qed

lemma charge_budget:
  assumes "wf_bucket b" "lastRefillMs b \<le> fst t" "fst t \<le> snd t"
  shows "tokens (snd (charge t b)) + (if fst (charge t b) then 1 else 0) \<le>
    tokens b + accrued b (snd t) * (1 + err_rel) + 2 * rl_slack (capacity b)" and "wf_bucket (snd (charge t b))"
proof -
  let ?b = "snd (consume 1 (fst t) b)"
  have w: "wf_bucket ?b" using assms by (intro wf_consume) simp_all
  then show "wf_bucket (snd (charge t b))" using assms(3) by (simp add: charge_eq wf_refill)
  have "accrued b (fst t) * (1 + err_rel) + accrued ?b (snd t) * (1 + err_rel) = accrued b (snd t) * (1 + err_rel)"
    by (simp add: accrued_def algebra_simps)
  moreover have "err_rel * capacity b + 2 * err_abs \<le> rl_slack (capacity b)"
  proof -
    have "0 \<le> err_rel * capacity b" using assms by (simp add: wf_bucket_def)
    moreover have "rl_slack (capacity b) = 2 * (err_rel * capacity b) + 3 * err_rel" by (simp add: rl_slack_def algebra_simps)
    ultimately show ?thesis using err_facts(2,3) by linarith
  qed
  ultimately show "tokens (snd (charge t b)) + (if fst (charge t b) then 1 else 0) \<le>
    tokens b + accrued b (snd t) * (1 + err_rel) + 2 * rl_slack (capacity b)"
    using consume_budget [OF assms(1,2)] refill_budget [OF w, of "snd t"] assms(3)
    by (simp add: charge_eq split: if_splits)
qed

lemma admit_run_budget:
  assumes "wf_bucket b" "sorted (lastRefillMs b # instants ts)"
  shows "of_nat (fst (admit_run ts b)) + tokens (snd (admit_run ts b)) \<le>
    tokens b + accrued b (last (lastRefillMs b # instants ts)) * (1 + err_rel)
    + of_nat (length ts) * (2 * rl_slack (capacity b)) \<and> wf_bucket (snd (admit_run ts b))"
  using assms
proof (induction ts arbitrary: b)
  case Nil
  then show ?case by (simp add: accrued_def instants_def)
next
  case (Cons t ts)
  let ?b = "snd (charge t b)"
  have inst: "instants (t # ts) = fst t # snd t # instants ts" by (cases t) (simp add: instants_def)
  have le: "lastRefillMs b \<le> fst t" "fst t \<le> snd t" "sorted (snd t # instants ts)"
    using Cons.prems(2) by (simp_all add: inst)
  have b: "lastRefillMs ?b = snd t" "capacity ?b = capacity b" "refillRatePerMs ?b = refillRatePerMs b"
    by (simp_all add: charge_eq)
  have IH: "of_nat (fst (admit_run ts ?b)) + tokens (snd (admit_run ts ?b)) \<le>
      tokens ?b + accrued ?b (last (snd t # instants ts)) * (1 + err_rel)
      + of_nat (length ts) * (2 * rl_slack (capacity b))" "wf_bucket (snd (admit_run ts ?b))"
    using Cons.IH [OF charge_budget(2) [OF Cons.prems(1) le(1,2)]] le(3) by (simp_all only: b)
  have run: "admit_run (t # ts) b =
      ((if fst (charge t b) then 1 else 0) + fst (admit_run ts ?b), snd (admit_run ts ?b))"
    by (simp add: case_prod_beta Let_def)
  have "accrued b (snd t) * (1 + err_rel) + accrued ?b u * (1 + err_rel) = accrued b u * (1 + err_rel)" for u
    by (simp add: accrued_def b algebra_simps)
  from this [of "last (snd t # instants ts)"] charge_budget(1) [OF Cons.prems(1) le(1,2)] IH
  have "of_nat (fst (admit_run (t # ts) b)) + tokens (snd (admit_run (t # ts) b)) \<le>
      tokens b + accrued b (last (snd t # instants ts)) * (1 + err_rel)
      + (1 + of_nat (length ts)) * (2 * rl_slack (capacity b))"
    unfolding run distrib_right [of 1] by (cases "fst (charge t b)"; simp only: fst_conv snd_conv mult_1 of_nat_add of_nat_1 of_nat_0 if_True if_False; linarith)
  moreover have "last (lastRefillMs b # instants (t # ts)) = last (snd t # instants ts)" by (simp add: inst)
  ultimately show ?case using IH(2) by (simp only: run snd_conv fst_conv length_Cons of_nat_Suc simp_thms)
qed

subsection \<open>The LRU store as a bounded map\<close>

text \<open>
  What the rate limiter relies on: a bounded store that may forget entries but never mixes them up.
\<close>

locale lru_store =
  fixes get :: "'k \<Rightarrow> 's \<Rightarrow> 'v option \<times> 's"
    and put :: "'k \<Rightarrow> 'v \<Rightarrow> 's \<Rightarrow> 's"
    and lookup :: "'s \<Rightarrow> 'k \<Rightarrow> 'v option"
    and inv :: "'s \<Rightarrow> bool"
  assumes get_value: "fst (get k s) = lookup s k"
    and get_frame: "inv s \<Longrightarrow> lookup (snd (get k s)) = lookup s"
    and get_inv: "inv s \<Longrightarrow> inv (snd (get k s))"
    and put_same: "lookup (put k v s) k = Some v"
    and put_other: "j \<noteq> k \<Longrightarrow> lookup (put k v s) j = lookup s j \<or> lookup (put k v s) j = None"
    and put_inv: "inv s \<Longrightarrow> inv (put k v s)"
begin

lemma get_Some: "get k s = (Some v, s') \<Longrightarrow> inv s \<Longrightarrow> lookup s k = Some v \<and> lookup s' = lookup s \<and> inv s'"
  using get_value [of k s] get_frame [of s k] get_inv [of s k] by simp

lemma put_keeps: "lookup (put k v s) j = Some w \<Longrightarrow> j \<noteq> k \<Longrightarrow> lookup s j = Some w"
  using put_other [of j k v s] by auto

lemma put_all:
  "(\<And>j w. lookup s j = Some w \<Longrightarrow> P w) \<Longrightarrow> P v \<Longrightarrow> lookup (put k v s) j = Some w \<Longrightarrow> P w"
  using put_keeps [of k v s j w] put_same [of k v s] by (cases "j = k") auto

end

definition store_inv :: "nat \<Rightarrow> bucket_store \<Rightarrow> bool" where
  "store_inv maxB st \<longleftrightarrow> distinct (map fst st) \<and> length st \<le> max 1 maxB"

lemma store_get_inv:
  assumes "store_inv maxB st"
  shows "store_inv maxB (snd (store_get key st))"
proof (cases "map_of st key")
  case (Some b)
  then have k: "key \<in> fst ` set st" by (metis map_of_eq_None_iff option.distinct(1))
  have "key \<notin> fst ` set (AList.delete key st)" by (simp add: delete_notin_dom)
  then have "length (AList.update key b (AList.delete key st)) = length st"
    using length_alist_delete [OF _ k] assms by (simp add: length_alist_update store_inv_def)
  then show ?thesis
    using assms Some by (simp add: store_get_def store_inv_def distinct_update distinct_delete)
qed (use assms in \<open>simp add: store_get_def\<close>)

lemma store_set_inv:
  assumes "store_inv maxB st"
  shows "store_inv maxB (store_set maxB key b st)"
proof (cases st)
  case Nil
  then show ?thesis by (simp add: store_set_def store_inv_def)
next
  case (Cons e rest)
  obtain old ob where e: "e = (old, ob)" by (cases e)
  have d: "distinct (map fst st)" and len: "length st \<le> max 1 maxB"
    using assms by (simp_all add: store_inv_def)
  have upd: "length (AList.update key b xs) \<le> Suc (length xs)" for xs
    by (simp add: length_alist_update)
  have del: "length (AList.delete old st) = length rest"
    using length_alist_delete [OF d, of old] Cons e by simp
  show ?thesis
  proof (cases "maxB \<le> length st")
    case True
    then have "store_set maxB key b st = AList.update key b (AList.delete old st)"
      using Cons e by (simp add: store_set_def)
    moreover have "distinct (map fst (AList.update key b (AList.delete old st)))"
      using d by (intro distinct_update distinct_delete)
    moreover have "length (AList.update key b (AList.delete old st)) \<le> length st"
      using upd [of "AList.delete old st"] del Cons by simp
    ultimately show ?thesis using len by (simp only: store_inv_def) simp
  next
    case False
    then show ?thesis
      using d upd [of st] by (simp add: store_set_def store_inv_def distinct_update)
  qed
qed

interpretation rl_store: lru_store store_get "store_set maxB" map_of "store_inv maxB" for maxB
proof unfold_locales
  fix k s j :: string and st :: bucket_store and v
  show "fst (store_get k st) = map_of st k"
    by (simp add: store_get_def split: option.split)
  show "map_of (store_set maxB k v st) k = Some v"
    by (simp add: store_set_def Let_def)
  show "j \<noteq> k \<Longrightarrow> map_of (store_set maxB k v st) j = map_of st j \<or> map_of (store_set maxB k v st) j = None"
    by (auto simp: store_set_def Let_def split: list.split)
  show "store_inv maxB st \<Longrightarrow> map_of (snd (store_get k st)) = map_of st"
    by (auto simp: store_get_def fun_eq_iff split: option.split)
qed (simp_all add: store_get_inv store_set_inv)

text \<open>All buckets of a store are well formed and were last refilled no later than \<open>now\<close>.\<close>

definition buckets_ok :: "time \<Rightarrow> bucket_store \<Rightarrow> bool" where
  "buckets_ok now st \<longleftrightarrow>
     (\<forall>(k, b) \<in> set st. wf_bucket b \<and> lastRefillMs b \<le> now)"

subsection \<open>One request\<close>

text \<open>The bucket a request is charged to, before it is charged.\<close>

definition charged_bucket :: "rl_clock \<Rightarrow> rl_options \<Rightarrow> rl_request \<Rightarrow> api_tier \<Rightarrow> bucket_store \<Rightarrow> token_bucket" where
  "charged_bucket ck opts req tier st =
     (case map_of st (buildBucketKey req (tenantHeader opts)) of
        Some b \<Rightarrow> b
      | None \<Rightarrow> (let config = resolveTierConfig tier (tierOverrides opts)
                in new_bucket (at_create ck) (burstCapacity config) (requestsPerMinute config)))"

lemma getOrCreate_lookup:
  "store_inv maxB st \<Longrightarrow>
   fst (getOrCreate maxB now key cap rpm st) = (case map_of st key of Some b \<Rightarrow> b | None \<Rightarrow> new_bucket now cap rpm)
   \<and> store_inv maxB (snd (getOrCreate maxB now key cap rpm st))
   \<and> map_of (snd (getOrCreate maxB now key cap rpm st)) key = Some (fst (getOrCreate maxB now key cap rpm st))
   \<and> (j \<noteq> key \<longrightarrow> map_of (snd (getOrCreate maxB now key cap rpm st)) j \<in> {map_of st j, None})"
  using rl_store.get_value [of key st] rl_store.get_frame [of maxB st key]
    rl_store.get_inv [of maxB st key]
    rl_store.put_same [of maxB key "new_bucket now cap rpm" "snd (store_get key st)"]
    rl_store.put_other [of j key maxB "new_bucket now cap rpm" "snd (store_get key st)"]
    rl_store.put_inv [of maxB "snd (store_get key st)" key "new_bucket now cap rpm"]
  by (cases "store_get key st") (auto simp: getOrCreate_def Let_def split: option.splits)

lemma store_inv_update: "k \<in> fst ` set st \<Longrightarrow> store_inv m st \<Longrightarrow> store_inv m (AList.update k b st)"
  by (simp add: store_inv_def length_alist_update distinct_update)

lemma evaluateRateLimit_eq:
  fixes ck :: rl_clock
  assumes "resolveTier req (tierHeader opts) (allowUnknownTier opts) = Some tier" "store_inv (maxBuckets opts) st"
  defines "b \<equiv> charged_bucket ck opts req tier st"
  shows "allowed (fst (evaluateRateLimit ck opts req st)) \<longleftrightarrow> 1 \<le> tokens (refill (at_consume ck) b)"
    and "map_of (snd (evaluateRateLimit ck opts req st)) (buildBucketKey req (tenantHeader opts)) =
         Some (refill (at_remaining ck) (snd (consume 1 (at_consume ck) b)))"
    and "store_inv (maxBuckets opts) (snd (evaluateRateLimit ck opts req st))"
    and "j \<noteq> buildBucketKey req (tenantHeader opts) \<Longrightarrow>
         map_of (snd (evaluateRateLimit ck opts req st)) j \<in> {map_of st j, None}"
    and "rr_tier (fst (evaluateRateLimit ck opts req st)) = tier"
    and "\<not> invalidTier (fst (evaluateRateLimit ck opts req st))"
proof -
  let ?key = "buildBucketKey req (tenantHeader opts)"
  let ?c = "resolveTierConfig tier (tierOverrides opts)"
  let ?g = "getOrCreate (maxBuckets opts) (at_create ck) ?key (burstCapacity ?c) (requestsPerMinute ?c) st"
  note g = getOrCreate_lookup [OF assms(2), of "at_create ck" ?key "burstCapacity ?c" "requestsPerMinute ?c"]
  have b: "fst ?g = b"
    unfolding b_def charged_bucket_def Let_def by (rule g [THEN conjunct1])
  have key: "?key \<in> fst ` set (snd ?g)" using g by (metis map_of_eq_None_iff option.distinct(1))
  have ev: "evaluateRateLimit ck opts req st =
      (\<lparr>allowed = fst (consume 1 (at_consume ck) b), rr_tier = tier, limit = requestsPerMinute ?c,
        remaining = \<lfloor>tokens (refill (at_remaining ck) (snd (consume 1 (at_consume ck) b)))\<rfloor>,
        resetEpoch = get_resetEpoch (at_reset ck) (refill (at_remaining ck) (snd (consume 1 (at_consume ck) b))),
        retryAfterSeconds = (if fst (consume 1 (at_consume ck) b) then None
          else Some (get_retryAfterSeconds (refill (at_remaining ck) (snd (consume 1 (at_consume ck) b))))),
        bucketKey = ?key, invalidTier = False\<rparr>,
       AList.update ?key (refill (at_remaining ck) (snd (consume 1 (at_consume ck) b))) (snd ?g))"
    using assms(1) b by (simp add: evaluateRateLimit_def Let_def case_prod_beta get_remaining_def)
  show "allowed (fst (evaluateRateLimit ck opts req st)) \<longleftrightarrow> 1 \<le> tokens (refill (at_consume ck) b)"
    by (simp add: ev consume_def Let_def)
  show "map_of (snd (evaluateRateLimit ck opts req st)) ?key =
         Some (refill (at_remaining ck) (snd (consume 1 (at_consume ck) b)))"
    by (simp add: ev)
  show "store_inv (maxBuckets opts) (snd (evaluateRateLimit ck opts req st))"
    using g key by (simp add: ev store_inv_update)
  show "rr_tier (fst (evaluateRateLimit ck opts req st)) = tier"
    "\<not> invalidTier (fst (evaluateRateLimit ck opts req st))" by (simp_all add: ev)
  show "map_of (snd (evaluateRateLimit ck opts req st)) j \<in> {map_of st j, None}" if "j \<noteq> ?key"
    using getOrCreate_lookup [OF assms(2), of "at_create ck" ?key "burstCapacity ?c" "requestsPerMinute ?c" j] that
    by (simp add: ev)
qed


lemma evaluateRateLimit_invalid:
  "resolveTier req (tierHeader opts) (allowUnknownTier opts) = None \<Longrightarrow>
   \<not> allowed (fst (evaluateRateLimit ck opts req st)) \<and> invalidTier (fst (evaluateRateLimit ck opts req st))
   \<and> snd (evaluateRateLimit ck opts req st) = st"
  by (simp add: evaluateRateLimit_def)

text \<open>The hint of the 400 answer names the tier LITE, which is not a tier of the table.\<close>

lemma lite_hint_rejected:
  "headers req (to_lower tierHdr) = Some ''LITE'' \<Longrightarrow> resolveTier req tierHdr False = None"
  by (simp add: resolveTier_def header_def truthy_def parse_tier_def to_upper_def upper_char_def)

text \<open>Paths below a bypass path are bypassed too, not only exact matches.\<close>

lemma bypass_prefix: "bypasses opts ''/metrics/tenant''"
  by (simp add: bypasses_def ALWAYS_BYPASS_def starts_with_def)

subsection \<open>Properties\<close>

text \<open>C33: Over any run of requests charged to one fresh bucket at non-decreasing clock readings, the number
  of admitted requests is at most the burst capacity plus the sustained rate times the elapsed
  milliseconds, up to the relative rounding error of one double operation and a slack per request
  far below one token. A request reads the clock twice and refills the bucket each time, when it takes
  its token and when it reports the remaining ones.\<close>

theorem rate_limit_bound:
  assumes "is_double cap" "0 \<le> cap" "0 \<le> rpm" "sorted (t0 # instants ts)"
  shows "of_nat (fst (admit_run ts (new_bucket t0 cap rpm))) \<le>
    cap + of_int (last (t0 # instants ts) - t0) * fdiv rpm 60000 * (1 + err_rel)
    + of_nat (length ts) * (2 * rl_slack cap)"
proof -
  let ?b = "new_bucket t0 cap rpm"
  have "of_nat (fst (admit_run ts ?b)) + tokens (snd (admit_run ts ?b)) \<le>
      cap + accrued ?b (last (t0 # instants ts)) * (1 + err_rel) + of_nat (length ts) * (2 * rl_slack cap)"
    "wf_bucket (snd (admit_run ts ?b))"
    using admit_run_budget [OF wf_new_bucket [OF assms(1-3)], of t0 ts] assms(4)
    by (simp_all add: new_bucket_def)
  then show ?thesis by (simp add: wf_bucket_def accrued_def new_bucket_def)
qed

theorem rate_limit_bound_witness:
  "of_nat (fst (admit_run [(0, 0), (0, 1), (1000, 1002)] (new_bucket 0 15 60))) \<le>
    (15::rat) + of_int (1002 - 0) * fdiv 60 60000 * (1 + err_rel) + of_nat 3 * (2 * rl_slack 15)"
  using rate_limit_bound [of 15 60 0 "[(0, 0), (0, 1), (1000, 1002)]"] is_double_of_int [of 15]
  by (simp add: instants_def)

text \<open>A request changes the bucket it is charged to by one \<open>charge\<close>, and its outcome is the answer.\<close>

theorem request_is_one_charge:
  assumes "resolveTier req (tierHeader opts) (allowUnknownTier opts) = Some tier" "store_inv (maxBuckets opts) st"
  shows "(allowed (fst (evaluateRateLimit ck opts req st)),
          map_of (snd (evaluateRateLimit ck opts req st)) (buildBucketKey req (tenantHeader opts)))
       = map_prod id Some (charge (at_consume ck, at_remaining ck) (charged_bucket ck opts req tier st))"
  using evaluateRateLimit_eq [OF assms, where ck = ck]
  by (simp add: charge_eq consume_def Let_def prod_eq_iff)

text \<open>What the middleware answers, and why: it bypasses exactly the bypass paths, answers 400 exactly when
  the tier cannot be resolved (and then changes no state), answers 429 exactly when the bucket the
  request is charged to has no whole token left after its refill (and counts one rejection), and
  passes the request on otherwise.\<close>

theorem middleware_outcome:
  assumes "store_inv (maxBuckets opts) (store s)"
  shows "case rateLimiterMiddleware ck opts req s of
      (Bypassed, s') \<Rightarrow> bypasses opts (req_path req) \<and> s' = s
    | (BadRequest400 _ _, s') \<Rightarrow> \<not> bypasses opts (req_path req)
        \<and> resolveTier req (tierHeader opts) (allowUnknownTier opts) = None \<and> s' = s
    | (TooMany429 _ tier _ _ _, s') \<Rightarrow> \<not> bypasses opts (req_path req)
        \<and> resolveTier req (tierHeader opts) (allowUnknownTier opts) = Some tier
        \<and> tokens (refill (at_consume ck) (charged_bucket ck opts req tier (store s))) < 1
        \<and> length (rejected s') = Suc (length (rejected s)) \<and> store_inv (maxBuckets opts) (store s')
    | (Passed _, s') \<Rightarrow> \<not> bypasses opts (req_path req)
        \<and> (\<exists>tier. resolveTier req (tierHeader opts) (allowUnknownTier opts) = Some tier
            \<and> 1 \<le> tokens (refill (at_consume ck) (charged_bucket ck opts req tier (store s))))
        \<and> rejected s' = rejected s \<and> store_inv (maxBuckets opts) (store s')"
proof (cases "bypasses opts (req_path req)")
  case True
  then show ?thesis by (simp add: rateLimiterMiddleware_def)
next
  case nb: False
  obtain r st where ev: "evaluateRateLimit ck opts req (store s) = (r, st)" by fastforce
  show ?thesis
  proof (cases "resolveTier req (tierHeader opts) (allowUnknownTier opts)")
    case None
    then show ?thesis
      using nb ev evaluateRateLimit_invalid [OF None, of ck "store s"]
      by (simp add: rateLimiterMiddleware_def)
  next
    case (Some tier)
    then show ?thesis
      using nb ev evaluateRateLimit_eq [OF Some assms, where ck = ck]
      by (auto simp: rateLimiterMiddleware_def Let_def not_le)
  qed
qed

text \<open>A request touches its own bucket only: every other key keeps its bucket or is evicted, the store
  never exceeds its bound, and the charged key is present afterwards with the charged bucket.\<close>

theorem request_isolation:
  assumes "store_inv (maxBuckets opts) st"
    and "resolveTier req (tierHeader opts) (allowUnknownTier opts) = Some tier"
  shows "store_inv (maxBuckets opts) (snd (evaluateRateLimit ck opts req st))
    \<and> map_of (snd (evaluateRateLimit ck opts req st)) (buildBucketKey req (tenantHeader opts)) =
        Some (refill (at_remaining ck) (snd (consume 1 (at_consume ck) (charged_bucket ck opts req tier st))))
    \<and> (\<forall>j. j \<noteq> buildBucketKey req (tenantHeader opts) \<longrightarrow>
         map_of (snd (evaluateRateLimit ck opts req st)) j \<in> {map_of st j, None})"
  using evaluateRateLimit_eq [OF assms(2) assms(1), where ck = ck] by blast

text \<open>A bucket keeps the capacity and rate of the tier under which it was created: whatever tier a later
  request of the same key resolves to, the decision and the bucket's parameters come from the stored
  bucket, while the limit reported in the headers is the new tier's.\<close>

theorem tier_change_keeps_bucket:
  assumes "store_inv (maxBuckets opts) st"
    and "resolveTier req (tierHeader opts) (allowUnknownTier opts) = Some tier"
    and "map_of st (buildBucketKey req (tenantHeader opts)) = Some b"
  shows "(allowed (fst (evaluateRateLimit ck opts req st)) \<longleftrightarrow> 1 \<le> tokens (refill (at_consume ck) b))
    \<and> map_option capacity (map_of (snd (evaluateRateLimit ck opts req st)) (buildBucketKey req (tenantHeader opts)))
        = Some (capacity b)
    \<and> map_option refillRatePerMs (map_of (snd (evaluateRateLimit ck opts req st)) (buildBucketKey req (tenantHeader opts)))
        = Some (refillRatePerMs b)
    \<and> limit (fst (evaluateRateLimit ck opts req st)) = requestsPerMinute (resolveTierConfig tier (tierOverrides opts))"
proof -
  have "charged_bucket ck opts req tier st = b" using assms(3) by (simp add: charged_bucket_def)
  moreover have "limit (fst (evaluateRateLimit ck opts req st)) = requestsPerMinute (resolveTierConfig tier (tierOverrides opts))"
    using assms(2) by (simp add: evaluateRateLimit_def Let_def case_prod_beta)
  ultimately show ?thesis
    using evaluateRateLimit_eq [OF assms(2) assms(1), where ck = ck] by simp
qed

text \<open>A request of tenant \<open>acme\<close> under the tier ENTERPRISE against a store that holds its PAY_AS_YOU_GO bucket.\<close>

definition ex_opts :: rl_options where
  "ex_opts = \<lparr>tierHeader = ''X-CaaS-Tier'', tenantHeader = ''X-Tenant-ID'', allowUnknownTier = False,
     maxBuckets = 50000, tierOverrides = (\<lambda>_. None), bypassPaths = []\<rparr>"

definition ex_req :: rl_request where
  "ex_req = \<lparr>headers = [''x-caas-tier'' \<mapsto> ''enterprise'', ''x-tenant-id'' \<mapsto> ''acme''],
     remoteAddress = None, req_path = ''/api/v1/commercial/tokens''\<rparr>"

definition ex_store :: bucket_store where
  "ex_store = [(''t:acme'', new_bucket 0 15 60)]"

definition ex_clock :: rl_clock where
  "ex_clock = \<lparr>at_create = 5, at_consume = 5, at_remaining = 5, at_reset = 5\<rparr>"

lemmas ex_defs = ex_opts_def ex_req_def ex_store_def ex_clock_def

lemma ex_facts:
  "store_inv (maxBuckets ex_opts) ex_store"
  "resolveTier ex_req (tierHeader ex_opts) (allowUnknownTier ex_opts) = Some ENTERPRISE"
  "buildBucketKey ex_req (tenantHeader ex_opts) = ''t:acme''"
  "map_of ex_store ''t:acme'' = Some (new_bucket 0 15 60)"
  by (simp_all add: ex_defs store_inv_def resolveTier_def header_def truthy_def parse_tier_def
      str_eval buildBucketKey_def)

theorem middleware_outcome_witness:
  "store_inv (maxBuckets ex_opts) (store \<lparr>store = ex_store, rejected = []\<rparr>) \<and>
   (case rateLimiterMiddleware ex_clock ex_opts ex_req \<lparr>store = ex_store, rejected = []\<rparr> of
      (Bypassed, s') \<Rightarrow> bypasses ex_opts (req_path ex_req) | (BadRequest400 _ _, s') \<Rightarrow> False | _ \<Rightarrow> True)"
  using middleware_outcome [where opts = ex_opts and s = "\<lparr>store = ex_store, rejected = []\<rparr>" and ck = ex_clock and req = ex_req] ex_facts(1,2)
  by (auto split: prod.splits rl_outcome.splits)

theorem request_isolation_witness:
  "map_of (snd (evaluateRateLimit ex_clock ex_opts ex_req ex_store)) ''t:other'' = None"
  using request_isolation [where opts = ex_opts and st = ex_store and req = ex_req and tier = ENTERPRISE and ck = ex_clock] ex_facts
  by (auto simp: ex_store_def)

theorem tier_change_keeps_bucket_witness:
  "limit (fst (evaluateRateLimit ex_clock ex_opts ex_req ex_store)) = 1500 \<and>
   map_option capacity (map_of (snd (evaluateRateLimit ex_clock ex_opts ex_req ex_store)) ''t:acme'') = Some 15"
  using tier_change_keeps_bucket [where opts = ex_opts and st = ex_store and req = ex_req and tier = ENTERPRISE and b = "new_bucket 0 15 60" and ck = ex_clock] ex_facts
  by (simp add: resolveTierConfig_def ex_opts_def new_bucket_def)

end
