(* ===== verification/Queue.thy ===== *)
theory Queue
  imports Prelude
begin

section \<open>The processing queue (src/services/queue.ts)\<close>

text \<open>
  The \<open>job_queue\<close> table and the in-process state of \<open>ProcessingQueue\<close>. A row keeps the column
  names of the table. \<open>dequeueNext\<close> returns the row as it was read, spread into a \<open>Job\<close>: its
  attempt counter is the one before the UPDATE, and its field \<open>maxAttempts\<close> does not exist, because
  the column is called \<open>max_attempts\<close>; the model writes that missing field as \<open>None\<close> and the
  comparison with it as false. A handler runs between the dispatch of its job and the event that
  settles its promise, so the running handlers are a list (\<open>inflight\<close>) and a settlement is a step.
  Payloads and results are kept as JSON text; random UUIDs and clock readings are arguments.
\<close>

subsection \<open>Types and configuration\<close>

datatype job_priority = Critical | High | Normal | Low

datatype job_status = Queued | Processing | Completed | Failed | Dead

datatype job_type =
    payout_sweep | payout_single | wht_receipt_generate | bulk_statement_generate
  | anomaly_scan | fx_rate_refresh | regulatory_report | notification_dispatch | analyze_db

record job_def =
  d_type :: job_type
  d_payload :: string
  d_priority :: "job_priority option"
  d_maxAttempts :: "int option"
  d_idempotencyKey :: "string option"

record row =
  rid :: string
  rtype :: job_type
  payload_json :: string
  priority :: job_priority
  status :: job_status
  attempts :: int
  max_attempts :: int
  idempotency_key :: "string option"
  result_json :: "string option"
  error :: "string option"
  queued_at :: time
  started_at :: "time option"
  completed_at :: "time option"
  next_attempt_at :: "time option"

record job =
  jid :: string
  jtype :: job_type
  jattempts :: int
  jmaxAttempts :: "int option"

definition DEFAULT_MAX_ATTEMPTS :: int where "DEFAULT_MAX_ATTEMPTS = 3"
definition BASE_RETRY_DELAY_MS :: rat where "BASE_RETRY_DELAY_MS = 2000"

fun priority_order :: "job_priority \<Rightarrow> nat" where
  "priority_order Critical = 0"
| "priority_order High = 1"
| "priority_order Normal = 2"
| "priority_order Low = 3"

text \<open>A dispatched job: its handler is running, or it had none and only \<open>finally\<close> is pending.\<close>

datatype flight = Awaiting job | Finishing job

fun flight_job :: "flight \<Rightarrow> job" where
  "flight_job (Awaiting j) = j"
| "flight_job (Finishing j) = j"

record queue =
  rows :: "row list"
  handlers :: "job_type set"
  concurrency :: nat
  activeCount :: nat
  running :: bool
  inflight :: "flight list"

subsection \<open>Construction and registration\<close>

definition recover :: "row list \<Rightarrow> row list" where
  "recover rs = update_where (\<lambda>r. status r = Processing) (\<lambda>r. r\<lparr>status := Queued, started_at := None\<rparr>) rs"

definition new_queue :: "row list \<Rightarrow> nat \<Rightarrow> queue" where
  "new_queue rs conc =
     \<lparr>rows = recover rs, handlers = {}, concurrency = conc, activeCount = 0, running = False,
      inflight = []\<rparr>"

definition register :: "job_type \<Rightarrow> queue \<Rightarrow> queue" where
  "register t q = q\<lparr>handlers := insert t (handlers q)\<rparr>"

subsection \<open>dequeueNext\<close>

definition eligible :: "time \<Rightarrow> row \<Rightarrow> bool" where
  "eligible now r \<longleftrightarrow>
     status r = Queued \<and> (case next_attempt_at r of None \<Rightarrow> True | Some t \<Rightarrow> t \<le> now)"

definition before :: "row \<Rightarrow> row \<Rightarrow> bool" where
  "before a b \<longleftrightarrow>
     priority_order (priority a) < priority_order (priority b)
     \<or> priority_order (priority a) = priority_order (priority b) \<and> queued_at a < queued_at b"

text \<open>ORDER BY priority, queued_at LIMIT 1; rows that tie are taken in row order.\<close>

fun first_by_order :: "row list \<Rightarrow> row option" where
  "first_by_order [] = None"
| "first_by_order (r # rs) =
     (case first_by_order rs of
        None \<Rightarrow> Some r
      | Some s \<Rightarrow> if before s r then Some s else Some r)"

definition job_of_row :: "row \<Rightarrow> job" where
  "job_of_row r = \<lparr>jid = rid r, jtype = rtype r, jattempts = attempts r, jmaxAttempts = None\<rparr>"

definition dequeueNext :: "time \<Rightarrow> row list \<Rightarrow> (job \<times> row list) option" where
  "dequeueNext now rs =
     (case first_by_order (filter (eligible now) rs) of
        None \<Rightarrow> None
      | Some r \<Rightarrow>
          Some (job_of_row r,
                update_where (\<lambda>x. rid x = rid r)
                  (\<lambda>x. x\<lparr>status := Processing, started_at := Some now, attempts := attempts x + 1\<rparr>) rs))"

subsection \<open>markCompleted and markFailed\<close>

definition markCompleted :: "job \<Rightarrow> string \<Rightarrow> time \<Rightarrow> row list \<Rightarrow> row list" where
  "markCompleted j result now rs =
     update_where (\<lambda>r. rid r = jid j)
       (\<lambda>r. r\<lparr>status := Completed, result_json := Some result, completed_at := Some now, error := None\<rparr>) rs"

definition retry_delay :: "int \<Rightarrow> rat" where
  "retry_delay a = BASE_RETRY_DELAY_MS * 2 powi (a - 1)"

definition markFailed :: "job \<Rightarrow> string \<Rightarrow> bool \<Rightarrow> time \<Rightarrow> row list \<Rightarrow> row list" where
  "markFailed j err exhausted now rs =
     (if exhausted then
        update_where (\<lambda>r. rid r = jid j)
          (\<lambda>r. r\<lparr>status := Dead, error := Some err, completed_at := Some now\<rparr>) rs
      else
        update_where (\<lambda>r. rid r = jid j)
          (\<lambda>r. r\<lparr>status := Queued, error := Some err,
                 next_attempt_at := Some \<lfloor>of_int now + retry_delay (jattempts j)\<rfloor>\<rparr>) rs)"

text \<open>\<open>job.attempts >= job.maxAttempts\<close>: false when the field is missing.\<close>

definition is_exhausted :: "job \<Rightarrow> bool" where
  "is_exhausted j = (case jmaxAttempts j of None \<Rightarrow> False | Some m \<Rightarrow> m \<le> jattempts j)"

subsection \<open>The worker loop\<close>

text \<open>
  The synchronous part of \<open>processJob\<close>: without a handler the row goes to the dead-letter queue at
  once; with one, the handler is called and its promise awaited.
\<close>

fun type_name :: "job_type \<Rightarrow> string" where
  "type_name payout_sweep = ''payout_sweep''"
| "type_name payout_single = ''payout_single''"
| "type_name wht_receipt_generate = ''wht_receipt_generate''"
| "type_name bulk_statement_generate = ''bulk_statement_generate''"
| "type_name anomaly_scan = ''anomaly_scan''"
| "type_name fx_rate_refresh = ''fx_rate_refresh''"
| "type_name regulatory_report = ''regulatory_report''"
| "type_name notification_dispatch = ''notification_dispatch''"
| "type_name analyze_db = ''analyze_db''"

definition start_job :: "job \<Rightarrow> time \<Rightarrow> queue \<Rightarrow> queue" where
  "start_job j now q =
     (if jtype j \<in> handlers q then q\<lparr>inflight := inflight q @ [Awaiting j]\<rparr>
      else q\<lparr>rows := markFailed j (''No handler registered for job type: '' @ type_name (jtype j)) True now (rows q),
             inflight := inflight q @ [Finishing j]\<rparr>)"

function tick_loop :: "time \<Rightarrow> queue \<Rightarrow> queue" where
  "tick_loop now q =
     (if activeCount q < concurrency q then
        (case dequeueNext now (rows q) of
           None \<Rightarrow> q
         | Some (j, rs) \<Rightarrow>
             tick_loop now (start_job j now (q\<lparr>rows := rs, activeCount := activeCount q + 1\<rparr>)))
      else q)"
  by pat_completeness auto
termination
  by (relation "measure (\<lambda>(now, q). concurrency q - activeCount q)") (auto simp: start_job_def)

declare tick_loop.simps [simp del]

definition tick :: "time \<Rightarrow> queue \<Rightarrow> queue" where
  "tick now q = (if running q then tick_loop now q else q)"

definition start :: "queue \<Rightarrow> queue" where
  "start q = q\<lparr>running := True\<rparr>"

definition stop :: "queue \<Rightarrow> queue" where
  "stop q = q\<lparr>running := False\<rparr>"

text \<open>The promise of a handler settles, \<open>processJob\<close> records it, and \<open>finally\<close> frees the worker.\<close>

datatype outcome = Resolved string | Rejected string

definition release :: "flight \<Rightarrow> time \<Rightarrow> queue \<Rightarrow> queue" where
  "release f now q = tick now (q\<lparr>inflight := remove1 f (inflight q), activeCount := activeCount q - 1\<rparr>)"

definition settle :: "job \<Rightarrow> outcome \<Rightarrow> time \<Rightarrow> queue \<Rightarrow> queue" where
  "settle j res now q =
     release (Awaiting j) now
       (q\<lparr>rows := (case res of
            Resolved v \<Rightarrow> markCompleted j v now (rows q)
          | Rejected e \<Rightarrow> markFailed j e (is_exhausted j) now (rows q))\<rparr>)"

subsection \<open>Submission and inspection\<close>

datatype queue_error = UniqueViolation

definition insert_row :: "row \<Rightarrow> row list \<Rightarrow> queue_error + row list" where
  "insert_row r rs =
     (if list_ex (\<lambda>x. rid x = rid r) rs
         \<or> (idempotency_key r \<noteq> None \<and> list_ex (\<lambda>x. idempotency_key x = idempotency_key r) rs)
      then Inl UniqueViolation else Inr (rs @ [r]))"

text \<open>The idempotency check: an empty key is falsy, and only queued or processing jobs count.\<close>

definition live_job :: "string option \<Rightarrow> row list \<Rightarrow> row option" where
  "live_job ikey rs =
     (case ikey of
        None \<Rightarrow> None
      | Some [] \<Rightarrow> None
      | Some k \<Rightarrow> List.find (\<lambda>r. idempotency_key r = Some k
                              \<and> (status r = Queued \<or> status r = Processing)) rs)"

definition new_row :: "job_def \<Rightarrow> string \<Rightarrow> time \<Rightarrow> row" where
  "new_row d uuid now =
     \<lparr>rid = uuid, rtype = d_type d, payload_json = d_payload d,
      priority = case_option Normal id (d_priority d), status = Queued, attempts = 0,
      max_attempts = case_option DEFAULT_MAX_ATTEMPTS id (d_maxAttempts d),
      idempotency_key = d_idempotencyKey d, result_json = None, error = None, queued_at = now,
      started_at = None, completed_at = None, next_attempt_at = None\<rparr>"

definition enqueue :: "job_def \<Rightarrow> string \<Rightarrow> time \<Rightarrow> queue \<Rightarrow> queue_error + string \<times> queue" where
  "enqueue d uuid now q =
     (case live_job (d_idempotencyKey d) (rows q) of
        Some r \<Rightarrow> Inr (rid r, q)
      | None \<Rightarrow>
          (case insert_row (new_row d uuid now) (rows q) of
             Inl e \<Rightarrow> Inl e
           | Inr rs \<Rightarrow> Inr (uuid, tick now (q\<lparr>rows := rs\<rparr>))))"

definition getJob :: "string \<Rightarrow> queue \<Rightarrow> row option" where
  "getJob i q = List.find (\<lambda>r. rid r = i) (rows q)"

record queue_stats =
  n_queued :: nat
  n_processing :: nat
  n_completed :: nat
  n_failed :: nat
  n_dead :: nat
  n_total :: nat

definition getStats :: "queue \<Rightarrow> queue_stats" where
  "getStats q =
     (let n = (\<lambda>s. count_where (\<lambda>r. status r = s) (rows q))
      in \<lparr>n_queued = n Queued, n_processing = n Processing, n_completed = n Completed,
          n_failed = n Failed, n_dead = n Dead,
          n_total = n Queued + n Processing + n Completed + n Failed + n Dead\<rparr>)"

text \<open>\<open>ORDER BY completed_at DESC LIMIT ?\<close>; SQLite sorts NULL last in descending order.\<close>

definition getDeadLetterQueue :: "nat \<Rightarrow> queue \<Rightarrow> row list" where
  "getDeadLetterQueue n q =
     (let dead = filter (\<lambda>r. status r = Dead) (rows q)
      in take n (sort_key (\<lambda>r. - the (completed_at r)) (filter (\<lambda>r. completed_at r \<noteq> None) dead)
           @ filter (\<lambda>r. completed_at r = None) dead))"

text \<open>The job types \<open>getQueue\<close> registers handlers for on first use (\<open>registerBuiltInHandlers\<close>).\<close>

definition builtin_types :: "job_type list" where
  "builtin_types = [fx_rate_refresh, analyze_db, notification_dispatch, wht_receipt_generate,
     bulk_statement_generate, payout_sweep]"

definition getQueue :: "row list \<Rightarrow> nat \<Rightarrow> queue" where
  "getQueue rs conc = fold register builtin_types (new_queue rs conc)"

definition retryDead :: "string \<Rightarrow> time \<Rightarrow> queue \<Rightarrow> bool \<times> queue" where
  "retryDead i now q =
     (let p = (\<lambda>r. rid r = i \<and> status r = Dead)
      in if 0 < count_where p (rows q)
         then (True, tick now (q\<lparr>rows := update_where p
                 (\<lambda>r. r\<lparr>status := Queued, error := None, attempts := 0, next_attempt_at := None\<rparr>) (rows q)\<rparr>))
         else (False, q))"

definition purge :: "int \<Rightarrow> time \<Rightarrow> queue \<Rightarrow> nat \<times> queue" where
  "purge retentionDays now q =
     (let cutoff = now - retentionDays * 86400000;
          gone = (\<lambda>r. (status r = Completed \<or> status r = Dead)
                    \<and> (case completed_at r of None \<Rightarrow> False | Some t \<Rightarrow> t < cutoff))
      in (count_where gone (rows q), q\<lparr>rows := filter (\<lambda>r. \<not> gone r) (rows q)\<rparr>))"


subsection \<open>The queue as a transition system\<close>

text \<open>
  The events of a running service: API calls, the 500 ms timer, the settlement of a handler's promise,
  and a crash, after which the constructor runs again on the table.
\<close>

inductive q_step :: "queue \<Rightarrow> queue \<Rightarrow> bool" where
  q_enqueue: "enqueue d uuid now q = Inr (i, q') \<Longrightarrow> q_step q q'"
| q_register: "q_step q (register t q)"
| q_start: "q_step q (start q)"
| q_stop: "q_step q (stop q)"
| q_timer: "q_step q (tick now q)"
| q_settle: "Awaiting j \<in> set (inflight q) \<Longrightarrow> q_step q (settle j res now q)"
| q_finish: "Finishing j \<in> set (inflight q) \<Longrightarrow> q_step q (release (Finishing j) now q)"
| q_retry: "q_step q (snd (retryDead i now q))"
| q_purge: "q_step q (snd (purge days now q))"
| q_crash: "q_step q (new_queue (rows q) conc)"

definition wf_rows :: "row list \<Rightarrow> bool" where
  "wf_rows rs \<longleftrightarrow>
     distinct (map rid rs) \<and> distinct (List.map_filter idempotency_key rs)
     \<and> (\<forall>r \<in> set rs. status r \<noteq> Failed)"

definition q_init :: "queue \<Rightarrow> bool" where
  "q_init q \<longleftrightarrow> (\<exists>rs conc. wf_rows rs \<and> q = new_queue rs conc)"

definition proc_ids :: "row list \<Rightarrow> string set" where
  "proc_ids rs = rid ` {r \<in> set rs. status r = Processing}"

fun awaiting_ids :: "flight list \<Rightarrow> string list" where
  "awaiting_ids [] = []"
| "awaiting_ids (Awaiting j # fs) = jid j # awaiting_ids fs"
| "awaiting_ids (Finishing j # fs) = awaiting_ids fs"

definition q_inv :: "queue \<Rightarrow> bool" where
  "q_inv q \<longleftrightarrow>
     wf_rows (rows q)
     \<and> activeCount q = length (inflight q) \<and> activeCount q \<le> concurrency q
     \<and> distinct (awaiting_ids (inflight q)) \<and> set (awaiting_ids (inflight q)) = proc_ids (rows q)"

subsection \<open>How the table updates act on rows and ids\<close>

lemma wf_rows_update:
  assumes "wf_rows rs" "\<And>x. rid (f x) = rid x" "\<And>x. idempotency_key (f x) = idempotency_key x"
    "\<And>x. status (f x) \<noteq> Failed"
  shows "wf_rows (update_where p f rs)"
proof -
  have "List.map_filter idempotency_key (update_where p f rs) = List.map_filter idempotency_key rs"
    by (induction rs) (simp_all add: List.map_filter_simps assms(3) split: option.split)
  then show ?thesis using assms by (auto simp: wf_rows_def map_update_where set_update_where)
qed

lemma set_map_filter_iff: "set (List.map_filter f xs) = {y. \<exists>x \<in> set xs. f x = Some y}"
  by (induction xs) (auto split: option.splits)

lemma map_filter_append: "List.map_filter f (xs @ ys) = List.map_filter f xs @ List.map_filter f ys"
  by (induction xs) (simp_all split: option.split)

lemma wf_rows_filter: "wf_rows rs \<Longrightarrow> wf_rows (filter p rs)"
proof -
  have "distinct (List.map_filter idempotency_key rs) \<Longrightarrow> distinct (List.map_filter idempotency_key (filter p rs))"
    by (induction rs) (auto simp: set_map_filter_iff split: option.splits)
  then show "wf_rows rs \<Longrightarrow> wf_rows (filter p rs)"
    by (auto simp: wf_rows_def distinct_map_filter)
qed

lemma proc_ids_simps [simp]:
  "proc_ids [] = {}"
  "proc_ids (r # rs) = (if status r = Processing then insert (rid r) (proc_ids rs) else proc_ids rs)"
  by (auto simp: proc_ids_def)

lemma proc_ids_to_other:
  "(\<And>x. rid (f x) = rid x) \<Longrightarrow> (\<And>x. status (f x) \<noteq> Processing) \<Longrightarrow>
   proc_ids (update_where (\<lambda>x. rid x = i) f rs) = proc_ids rs - {i}"
  by (induction rs) (auto simp: proc_ids_def)

lemma proc_ids_to_processing:
  "(\<And>x. rid (f x) = rid x) \<Longrightarrow> (\<And>x. status (f x) = Processing) \<Longrightarrow>
   proc_ids (update_where (\<lambda>x. rid x = i) f rs) = proc_ids rs \<union> {i} \<inter> rid ` set rs"
  by (induction rs) auto

lemma proc_ids_frame:
  "(\<And>x. p x \<Longrightarrow> status x \<noteq> Processing) \<Longrightarrow> (\<And>x. status (f x) \<noteq> Processing) \<Longrightarrow>
   proc_ids (update_where p f rs) = proc_ids rs"
  by (induction rs) auto

lemma awaiting_append [simp]: "awaiting_ids (fs @ gs) = awaiting_ids fs @ awaiting_ids gs"
  by (induction fs rule: awaiting_ids.induct) auto

lemma awaiting_remove_Finishing: "awaiting_ids (remove1 (Finishing j) fs) = awaiting_ids fs"
  by (induction fs rule: awaiting_ids.induct) auto

lemma awaiting_memI: "Awaiting j \<in> set fs \<Longrightarrow> jid j \<in> set (awaiting_ids fs)"
  by (induction fs rule: awaiting_ids.induct) auto

lemma awaiting_remove_Awaiting:
  "Awaiting j \<in> set fs \<Longrightarrow> distinct (awaiting_ids fs) \<Longrightarrow>
   awaiting_ids (remove1 (Awaiting j) fs) = remove1 (jid j) (awaiting_ids fs)"
  by (induction fs rule: awaiting_ids.induct) (auto dest: awaiting_memI)

subsection \<open>What dequeueNext picks\<close>

lemma first_by_order_SomeD:
  "first_by_order rs = Some r \<Longrightarrow> r \<in> set rs \<and> (\<forall>s \<in> set rs. \<not> before s r)"
proof (induction rs arbitrary: r)
  case (Cons a rs)
  have trans: "\<not> before s b \<Longrightarrow> \<not> before b a \<Longrightarrow> \<not> before s a" for s b
    by (auto simp: before_def)
  show ?case
  proof (cases "first_by_order rs")
    case None
    then have "rs = []" by (cases rs) (auto split: option.splits if_splits)
    then show ?thesis using Cons.prems by (auto simp: before_def)
  next
    case (Some b)
    note IH = Cons.IH [OF Some]
    show ?thesis
    proof (cases "before b a")
      case True
      then have "\<not> before a b" by (auto simp: before_def)
      then show ?thesis using Cons.prems Some IH True by auto
    next
      case False
      then show ?thesis using Cons.prems Some IH trans by (auto simp: before_def)
    qed
  qed
qed simp

lemma first_by_order_None: "first_by_order rs = None \<longleftrightarrow> rs = []"
  by (cases rs) (auto split: option.splits)

lemma dequeueNext_SomeD:
  assumes "dequeueNext now rs = Some (j, rs')"
  obtains r where "r \<in> set rs" "eligible now r" "j = job_of_row r"
    "\<forall>s \<in> set rs. eligible now s \<longrightarrow> \<not> before s r"
    "rs' = update_where (\<lambda>x. rid x = rid r)
       (\<lambda>x. x\<lparr>status := Processing, started_at := Some now, attempts := attempts x + 1\<rparr>) rs"
  using assms by (auto simp: dequeueNext_def split: option.splits dest!: first_by_order_SomeD)

subsection \<open>Every operation keeps the invariant\<close>

lemma wf_recover: "wf_rows rs \<Longrightarrow> wf_rows (recover rs)"
  by (simp add: recover_def wf_rows_update)

lemma proc_ids_recover: "proc_ids (recover rs) = {}"
  by (auto simp: recover_def proc_ids_def set_update_where)

lemma inv_new_queue: "wf_rows rs \<Longrightarrow> q_inv (new_queue rs conc)"
  by (simp add: q_inv_def new_queue_def wf_recover proc_ids_recover)

lemma wf_rows_markFailed: "wf_rows rs \<Longrightarrow> wf_rows (markFailed j e x now rs)"
  by (simp add: markFailed_def wf_rows_update)

lemma wf_rows_markCompleted: "wf_rows rs \<Longrightarrow> wf_rows (markCompleted j v now rs)"
  by (simp add: markCompleted_def wf_rows_update)

lemma proc_ids_markFailed: "proc_ids (markFailed j e x now rs) = proc_ids rs - {jid j}"
  by (simp add: markFailed_def proc_ids_to_other)

lemma proc_ids_markCompleted: "proc_ids (markCompleted j v now rs) = proc_ids rs - {jid j}"
  by (simp add: markCompleted_def proc_ids_to_other)

lemma eligible_not_processing:
  "wf_rows rs \<Longrightarrow> r \<in> set rs \<Longrightarrow> eligible now r \<Longrightarrow> rid r \<notin> proc_ids rs"
  by (auto simp: wf_rows_def proc_ids_def eligible_def distinct_map inj_on_def)

lemma inv_dispatch:
  assumes "q_inv q" "activeCount q < concurrency q" "dequeueNext now (rows q) = Some (j, rs)"
  shows "q_inv (start_job j now (q\<lparr>rows := rs, activeCount := activeCount q + 1\<rparr>))"
proof -
  from assms(3) obtain r where r: "r \<in> set (rows q)" "eligible now r" "j = job_of_row r"
    and rs: "rs = update_where (\<lambda>x. rid x = rid r)
       (\<lambda>x. x\<lparr>status := Processing, started_at := Some now, attempts := attempts x + 1\<rparr>) (rows q)"
    by (rule dequeueNext_SomeD)
  have wf: "wf_rows rs" using assms(1) by (simp add: rs q_inv_def wf_rows_update)
  have ids: "proc_ids rs = insert (rid r) (proc_ids (rows q))"
    using r by (auto simp: rs proc_ids_to_processing)
  have new: "rid r \<notin> proc_ids (rows q)"
    using assms(1) r eligible_not_processing [of "rows q" r now] by (simp add: q_inv_def)
  have jid: "jid j = rid r" by (simp add: r(3) job_of_row_def)
  show ?thesis
    using assms(1,2) wf ids new
    by (auto simp: q_inv_def start_job_def jid wf_rows_markFailed proc_ids_markFailed)
qed

lemma inv_tick_loop: "q_inv q \<Longrightarrow> q_inv (tick_loop now q)"
proof (induction now q rule: tick_loop.induct)
  case (1 now q)
  show ?case
  proof (cases "activeCount q < concurrency q")
    case True
    show ?thesis
    proof (cases "dequeueNext now (rows q)")
      case None
      with True "1.prems" show ?thesis by (simp add: tick_loop.simps)
    next
      case (Some p)
      obtain j rs where p: "p = (j, rs)" by (cases p)
      have "q_inv (start_job j now (q\<lparr>rows := rs, activeCount := activeCount q + 1\<rparr>))"
        using "1.prems" True Some p by (intro inv_dispatch) simp_all
      then show ?thesis
        using "1.IH" [OF True Some p [symmetric]] True Some p by (simp add: tick_loop.simps [of now q])
    qed
  next
    case False
    with "1.prems" show ?thesis by (simp add: tick_loop.simps)
  qed
qed

lemma inv_tick: "q_inv q \<Longrightarrow> q_inv (tick now q)"
  by (simp add: tick_def inv_tick_loop)

lemma inv_release_Finishing:
  assumes "q_inv q" "Finishing j \<in> set (inflight q)"
  shows "q_inv (release (Finishing j) now q)"
  using assms unfolding release_def
  by (intro inv_tick) (auto simp: q_inv_def awaiting_remove_Finishing length_remove1)

lemma inv_settle:
  assumes "q_inv q" "Awaiting j \<in> set (inflight q)"
  shows "q_inv (settle j res now q)"
proof -
  have d: "distinct (awaiting_ids (inflight q))" using assms by (simp add: q_inv_def)
  note rm = awaiting_remove_Awaiting [OF assms(2) d]
  show ?thesis
    unfolding settle_def release_def
    using assms d
    by (intro inv_tick)
      (auto simp: q_inv_def rm length_remove1 wf_rows_markFailed wf_rows_markCompleted
        proc_ids_markFailed proc_ids_markCompleted split: outcome.split)
qed

lemma new_row_fields [simp]:
  "status (new_row d u t) = Queued" "attempts (new_row d u t) = 0" "rid (new_row d u t) = u"
  "idempotency_key (new_row d u t) = d_idempotencyKey d"
  by (simp_all add: new_row_def)

lemma enqueue_cases:
  assumes "enqueue d uuid now q = Inr (i, q')"
  obtains "q' = q"
  | r rs where "insert_row r (rows q) = Inr rs" "status r = Queued" "attempts r = 0"
      "q' = tick now (q\<lparr>rows := rs\<rparr>)"
proof -
  have "q' = q \<or> (\<exists>r rs. insert_row r (rows q) = Inr rs \<and> status r = Queued \<and> attempts r = 0
      \<and> q' = tick now (q\<lparr>rows := rs\<rparr>))"
    using assms unfolding enqueue_def
    by (cases "live_job (d_idempotencyKey d) (rows q)"; cases "insert_row (new_row d uuid now) (rows q)")
      (auto intro: new_row_fields)
  then show thesis using that by blast
qed

lemma insert_row_InrD:
  "insert_row r rs = Inr rs' \<Longrightarrow>
   rs' = rs @ [r] \<and> rid r \<notin> rid ` set rs
   \<and> (\<forall>k. idempotency_key r = Some k \<longrightarrow> (\<forall>x \<in> set rs. idempotency_key x \<noteq> Some k))"
  by (auto simp: insert_row_def list_ex_iff split: if_splits)

lemma inv_insert:
  assumes "q_inv q" "insert_row r (rows q) = Inr rs" "status r = Queued"
  shows "q_inv (q\<lparr>rows := rs\<rparr>)"
proof -
  note ins = insert_row_InrD [OF assms(2)]
  have wf: "wf_rows (rows q)" using assms(1) by (simp add: q_inv_def)
  have "distinct (List.map_filter idempotency_key rs)"
    using wf ins by (cases "idempotency_key r")
      (auto simp: wf_rows_def map_filter_append set_map_filter_iff)
  then have "wf_rows rs" using wf ins assms(3) by (auto simp: wf_rows_def)
  moreover have "proc_ids rs = proc_ids (rows q)"
    using ins assms(3) by (auto simp: proc_ids_def)
  ultimately show ?thesis using assms(1) by (simp add: q_inv_def)
qed

lemma inv_enqueue: "q_inv q \<Longrightarrow> enqueue d uuid now q = Inr (i, q') \<Longrightarrow> q_inv q'"
  by (erule enqueue_cases) (auto intro: inv_tick inv_insert)

lemma inv_retryDead: "q_inv q \<Longrightarrow> q_inv (snd (retryDead i now q))"
proof -
  assume inv: "q_inv q"
  let ?f = "\<lambda>r. r\<lparr>status := Queued, error := None, attempts := 0, next_attempt_at := None\<rparr>"
  have "q_inv (q\<lparr>rows := update_where (\<lambda>r. rid r = i \<and> status r = Dead) ?f (rows q)\<rparr>)"
    using inv proc_ids_frame [of "\<lambda>r. rid r = i \<and> status r = Dead" ?f "rows q"]
    by (simp add: q_inv_def wf_rows_update)
  then show ?thesis using inv by (simp add: retryDead_def Let_def inv_tick)
qed

lemma inv_purge: "q_inv q \<Longrightarrow> q_inv (snd (purge days now q))"
  by (auto simp: purge_def Let_def q_inv_def wf_rows_filter proc_ids_def)


lemma inv_register: "q_inv q \<Longrightarrow> q_inv (register t q)"
  and inv_start: "q_inv q \<Longrightarrow> q_inv (start q)"
  and inv_stop: "q_inv q \<Longrightarrow> q_inv (stop q)"
  by (simp_all add: q_inv_def register_def start_def stop_def)

lemma q_inv_wf: "q_inv q \<Longrightarrow> wf_rows (rows q)"
  by (simp add: q_inv_def)

lemmas q_inv_ops =
  inv_enqueue inv_register inv_start inv_stop inv_tick inv_settle inv_release_Finishing
  inv_retryDead inv_purge inv_new_queue

subsection \<open>The job in flight and its row\<close>

text \<open>
  A dispatched job has no \<open>maxAttempts\<close> field and carries the attempt counter its row had before the
  dispatch. Rows of running jobs are touched by nobody else, so this stays true until settlement.
\<close>

definition flight_ok :: "row list \<Rightarrow> flight \<Rightarrow> bool" where
  "flight_ok rs f \<longleftrightarrow>
     (case f of Finishing _ \<Rightarrow> True
      | Awaiting j \<Rightarrow> jmaxAttempts j = None \<and> 0 \<le> jattempts j
          \<and> (\<forall>r \<in> set rs. rid r = jid j \<longrightarrow> attempts r = jattempts j + 1))"

definition q_link :: "queue \<Rightarrow> bool" where
  "q_link q \<longleftrightarrow>
     (\<forall>r \<in> set (rows q). 0 \<le> attempts r) \<and> (\<forall>f \<in> set (inflight q). flight_ok (rows q) f)"

lemma flight_ok_frame:
  assumes "flight_ok rs f"
    "\<And>r'. r' \<in> set rs' \<Longrightarrow> rid r' = jid (flight_job f) \<Longrightarrow>
      \<exists>r \<in> set rs. rid r = rid r' \<and> attempts r = attempts r'"
  shows "flight_ok rs' f"
proof (cases f)
  case (Awaiting j)
  have all: "\<forall>r \<in> set rs. rid r = jid j \<longrightarrow> attempts r = jattempts j + 1"
    using assms(1) by (simp add: flight_ok_def Awaiting)
  have "attempts r' = jattempts j + 1" if r': "r' \<in> set rs'" "rid r' = jid j" for r'
  proof -
    have "\<exists>r \<in> set rs. rid r = rid r' \<and> attempts r = attempts r'"
      by (rule assms(2) [OF r'(1)]) (simp add: Awaiting r'(2))
    then obtain r where "r \<in> set rs" "rid r = rid r'" "attempts r = attempts r'" by (elim bexE conjE)
    have "rid r = jid j" using \<open>rid r = rid r'\<close> r'(2) by (rule trans)
    then have "attempts r = jattempts j + 1" using all \<open>r \<in> set rs\<close> by blast
    then show ?thesis using \<open>attempts r = attempts r'\<close> by simp
  qed
  then show ?thesis using assms(1) by (simp add: flight_ok_def Awaiting)
qed (simp add: flight_ok_def)

lemma same_row: "wf_rows rs \<Longrightarrow> r \<in> set rs \<Longrightarrow> s \<in> set rs \<Longrightarrow> rid r = rid s \<Longrightarrow> r = s"
  by (auto simp: wf_rows_def distinct_map inj_on_def)

lemma link_rows:
  assumes "q_link q" "\<And>r'. r' \<in> set rs' \<Longrightarrow> 0 \<le> attempts r'"
    "\<And>r' f. r' \<in> set rs' \<Longrightarrow> f \<in> set (inflight q) \<Longrightarrow> f = Awaiting (flight_job f) \<Longrightarrow> rid r' = jid (flight_job f) \<Longrightarrow>
      \<exists>r \<in> set (rows q). rid r = rid r' \<and> attempts r = attempts r'"
  shows "q_link (q\<lparr>rows := rs'\<rparr>)"
proof -
  have "flight_ok rs' f" if f: "f \<in> set (inflight q)" for f
  proof (cases f)
    case (Awaiting j)
    have "flight_ok (rows q) f" using assms(1) f by (simp add: q_link_def)
    then show ?thesis
      by (rule flight_ok_frame) (rule assms(3) [OF _ f], simp_all add: Awaiting)
  qed (simp add: flight_ok_def)
  then show ?thesis using assms(2) by (simp add: q_link_def)
qed

lemma link_same_attempts:
  assumes "q_link q" "\<And>x. rid (g x) = rid x" "\<And>x. attempts (g x) = attempts x"
  shows "q_link (q\<lparr>rows := update_where p g (rows q)\<rparr>)"
  using assms by (intro link_rows) (auto simp: set_update_where q_link_def)

lemma link_inflight: "q_link q \<Longrightarrow> set fs \<subseteq> set (inflight q) \<Longrightarrow> q_link (q\<lparr>inflight := fs, activeCount := n\<rparr>)"
  by (auto simp: q_link_def)

lemma awaiting_processing:
  "q_inv q \<Longrightarrow> Awaiting j \<in> set (inflight q) \<Longrightarrow> r \<in> set (rows q) \<Longrightarrow> rid r = jid j \<Longrightarrow> status r = Processing"
proof -
  assume a: "q_inv q" "Awaiting j \<in> set (inflight q)" "r \<in> set (rows q)" "rid r = jid j"
  then have "jid j \<in> proc_ids (rows q)" using awaiting_memI by (force simp: q_inv_def)
  then obtain r' where "r' \<in> set (rows q)" "rid r' = rid r" "status r' = Processing"
    using a(4) by (auto simp: proc_ids_def)
  moreover have "r' = r"
    using calculation a same_row [of "rows q" r' r] by (simp add: q_inv_def)
  ultimately show ?thesis by simp
qed

lemma link_dispatch:
  assumes "q_inv q" "q_link q" "dequeueNext now (rows q) = Some (j, rs)"
  shows "q_link (start_job j now (q\<lparr>rows := rs, activeCount := n\<rparr>))"
proof -
  from assms(3) obtain r where r: "r \<in> set (rows q)" "eligible now r" "j = job_of_row r"
    and rs: "rs = update_where (\<lambda>x. rid x = rid r)
       (\<lambda>x. x\<lparr>status := Processing, started_at := Some now, attempts := attempts x + 1\<rparr>) (rows q)"
    by (rule dequeueNext_SomeD)
  have other: "jid j' \<noteq> rid r" if "Awaiting j' \<in> set (inflight q)" for j'
    using awaiting_processing [OF assms(1) that r(1)] r(2) by (auto simp: eligible_def)
  have l1: "q_link (q\<lparr>rows := rs\<rparr>)"
  proof (rule link_rows [OF assms(2)])
    show "0 \<le> attempts r'" if "r' \<in> set rs" for r'
      using that assms(2) by (auto simp: rs set_update_where q_link_def)
    show "\<exists>x \<in> set (rows q). rid x = rid r' \<and> attempts x = attempts r'"
      if "r' \<in> set rs" "f \<in> set (inflight q)" "f = Awaiting (flight_job f)" "rid r' = jid (flight_job f)" for r' f
    proof -
      have "rid r' \<noteq> rid r" using other [of "flight_job f"] that by metis
      then show ?thesis using that(1) by (auto simp: rs set_update_where)
    qed
  qed
  have same: "x = r" if "x \<in> set (rows q)" "rid x = rid r" for x
    using that r(1) assms(1) same_row [of "rows q" x r] by (simp add: q_inv_def)
  have new: "flight_ok rs (Awaiting j)"
    using r(1) assms(2) by (auto simp: flight_ok_def r(3) job_of_row_def rs set_update_where q_link_def
      dest!: same split: if_splits)
  have "q_link (q\<lparr>rows := rs, activeCount := n, inflight := inflight q @ [Awaiting j]\<rparr>)"
    using l1 new by (auto simp: q_link_def)
  moreover have "q_link (q\<lparr>activeCount := n, rows := markFailed j e True now rs, inflight := inflight q @ [Finishing j]\<rparr>)" for e
    using link_same_attempts [OF l1, of "\<lambda>r. r\<lparr>status := Dead, error := Some e, completed_at := Some now\<rparr>"]
    by (auto simp: q_link_def markFailed_def flight_ok_def split: flight.split)
  ultimately show ?thesis by (simp add: start_job_def)
qed

lemma link_tick_loop: "q_inv q \<Longrightarrow> q_link q \<Longrightarrow> q_link (tick_loop now q)"
proof (induction now q rule: tick_loop.induct)
  case (1 now q)
  show ?case
  proof (cases "activeCount q < concurrency q")
    case True
    show ?thesis
    proof (cases "dequeueNext now (rows q)")
      case None
      with True "1.prems" show ?thesis by (simp add: tick_loop.simps)
    next
      case (Some p)
      obtain j rs where p: "p = (j, rs)" by (cases p)
      then show ?thesis
        using "1.IH" [OF True Some p [symmetric]] True Some
          inv_dispatch [of q now j rs] link_dispatch [of q now j rs "activeCount q + 1"] "1.prems"
        by (simp add: tick_loop.simps [of now q])
    qed
  qed (use "1.prems" in \<open>simp add: tick_loop.simps\<close>)
qed

lemma link_tick: "q_inv q \<Longrightarrow> q_link q \<Longrightarrow> q_link (tick now q)"
  by (simp add: tick_def link_tick_loop)


lemma link_mark:
  "q_link q \<Longrightarrow> q_link (q\<lparr>rows := markFailed j e x now (rows q)\<rparr>)"
  "q_link q \<Longrightarrow> q_link (q\<lparr>rows := markCompleted j v now (rows q)\<rparr>)"
  by (simp_all add: markFailed_def markCompleted_def link_same_attempts)

text \<open>The state just before \<open>tick\<close> runs in \<open>settle\<close>.\<close>

definition settled :: "job \<Rightarrow> outcome \<Rightarrow> time \<Rightarrow> queue \<Rightarrow> queue" where
  "settled j res now q =
     q\<lparr>rows := (case res of
          Resolved v \<Rightarrow> markCompleted j v now (rows q)
        | Rejected e \<Rightarrow> markFailed j e (is_exhausted j) now (rows q)),
       inflight := remove1 (Awaiting j) (inflight q), activeCount := activeCount q - 1\<rparr>"

lemma settle_eq: "settle j res now q = tick now (settled j res now q)"
  by (simp add: settle_def release_def settled_def)

lemma inv_settled: "q_inv q \<Longrightarrow> Awaiting j \<in> set (inflight q) \<Longrightarrow> q_inv (settled j res now q)"
proof -
  assume a: "q_inv q" "Awaiting j \<in> set (inflight q)"
  then have d: "distinct (awaiting_ids (inflight q))" by (simp add: q_inv_def)
  note rm = awaiting_remove_Awaiting [OF a(2) d]
  show ?thesis
    using a d by (auto simp: settled_def q_inv_def rm length_remove1 wf_rows_markFailed
        wf_rows_markCompleted proc_ids_markFailed proc_ids_markCompleted split: outcome.split)
qed

lemma link_settled: "q_link q \<Longrightarrow> q_link (settled j res now q)"
proof -
  assume l: "q_link q"
  have "q_link (q\<lparr>rows := (case res of Resolved v \<Rightarrow> markCompleted j v now (rows q)
      | Rejected e \<Rightarrow> markFailed j e (is_exhausted j) now (rows q))\<rparr>)"
    using link_mark [OF l] by (simp split: outcome.split)
  then show ?thesis unfolding settled_def
    by (auto simp: q_link_def dest: notin_set_remove1)
qed

lemma link_insert:
  assumes "q_inv q" "q_link q" "insert_row r (rows q) = Inr rs" "attempts r = 0"
  shows "q_link (q\<lparr>rows := rs\<rparr>)"
proof -
  note ins = insert_row_InrD [OF assms(3)]
  have "jid (flight_job f) \<noteq> rid r" if "f \<in> set (inflight q)" "f = Awaiting (flight_job f)" for f
  proof -
    have "jid (flight_job f) \<in> set (awaiting_ids (inflight q))" using that awaiting_memI by metis
    then show ?thesis using assms(1) ins by (auto simp: q_inv_def proc_ids_def)
  qed
  note other = this
  show ?thesis
  proof (rule link_rows [OF assms(2)])
    show "0 \<le> attempts r'" if "r' \<in> set rs" for r'
      using that ins assms(2,4) by (auto simp: q_link_def)
    show "\<exists>x \<in> set (rows q). rid x = rid r' \<and> attempts x = attempts r'"
      if "r' \<in> set rs" "f \<in> set (inflight q)" "f = Awaiting (flight_job f)" "rid r' = jid (flight_job f)" for r' f
    proof -
      have "r' \<noteq> r" using other [OF that(2,3)] that(4) by auto
      then show ?thesis using that(1) ins by auto
    qed
  qed
qed

lemma link_enqueue:
  "q_inv q \<Longrightarrow> q_link q \<Longrightarrow> enqueue d uuid now q = Inr (i, q') \<Longrightarrow> q_link q'"
  by (erule enqueue_cases) (auto intro!: link_tick inv_insert link_insert)

lemma link_retryDead:
  assumes "q_inv q" "q_link q"
  shows "q_link (snd (retryDead i now q))"
proof -
  let ?f = "\<lambda>r. r\<lparr>status := Queued, error := None, attempts := 0, next_attempt_at := None\<rparr>"
  let ?p = "\<lambda>r. rid r = i \<and> status r = Dead"
  let ?q = "q\<lparr>rows := update_where ?p ?f (rows q)\<rparr>"
  have "q_inv ?q"
    using assms(1) proc_ids_frame [of ?p ?f "rows q"] by (simp add: q_inv_def wf_rows_update)
  moreover have "q_link ?q"
  proof (rule link_rows [OF assms(2)])
    show "0 \<le> attempts r'" if "r' \<in> set (update_where ?p ?f (rows q))" for r'
      using that assms(2) by (auto simp: set_update_where q_link_def)
    show "\<exists>r \<in> set (rows q). rid r = rid r' \<and> attempts r = attempts r'"
      if r': "r' \<in> set (update_where ?p ?f (rows q))" and f: "f \<in> set (inflight q)"
        "f = Awaiting (flight_job f)" "rid r' = jid (flight_job f)" for r' f
    proof -
      obtain r where r: "r \<in> set (rows q)" "r' = (if ?p r then ?f r else r)"
        using r' by (auto simp: set_update_where)
      then have "rid r = jid (flight_job f)" using f(3) by (auto split: if_splits)
      then have "status r = Processing"
        using awaiting_processing [OF assms(1) _ r(1), of "flight_job f"] f by metis
      then show ?thesis using r by auto
    qed
  qed
  ultimately show ?thesis using assms(2) by (simp add: retryDead_def Let_def link_tick)
qed

lemma link_purge: "q_inv q \<Longrightarrow> q_link q \<Longrightarrow> q_link (snd (purge days now q))"
  unfolding purge_def Let_def snd_conv by (rule link_rows) (auto simp: q_link_def)

lemma link_release_Finishing:
  assumes "q_inv q" "q_link q" "Finishing j \<in> set (inflight q)"
  shows "q_link (release (Finishing j) now q)"
proof -
  let ?q = "q\<lparr>inflight := remove1 (Finishing j) (inflight q), activeCount := activeCount q - 1\<rparr>"
  have "q_inv ?q" using assms by (auto simp: q_inv_def awaiting_remove_Finishing length_remove1)
  moreover have "q_link ?q" by (rule link_inflight [OF assms(2)]) (rule set_remove1_subset)
  ultimately show ?thesis unfolding release_def by (rule link_tick)
qed

lemma link_new_queue: "q_link q \<Longrightarrow> q_link (new_queue (rows q) conc)"
  by (auto simp: q_link_def new_queue_def recover_def set_update_where)

definition q_start :: "queue \<Rightarrow> bool" where
  "q_start q \<longleftrightarrow> (\<exists>rs conc. wf_rows rs \<and> (\<forall>r \<in> set rs. 0 \<le> attempts r) \<and> q = new_queue rs conc)"

definition q_all :: "queue \<Rightarrow> bool" where
  "q_all q \<longleftrightarrow> q_inv q \<and> q_link q"

interpretation qs: invariant_system q_start q_step q_all
proof unfold_locales
  show "q_start q \<Longrightarrow> q_all q" for q
    by (auto simp: q_start_def q_all_def inv_new_queue)
      (auto simp: q_link_def new_queue_def recover_def set_update_where)
  show "q_step q q' \<Longrightarrow> q_all q \<Longrightarrow> q_all q'" for q q'
  proof (induction rule: q_step.induct)
    case (q_settle j q res now)
    then show ?case
      unfolding settle_eq q_all_def by (blast intro: inv_tick link_tick inv_settled link_settled)
  next
    case (q_register q t)
    then show ?case by (simp add: q_all_def q_inv_def q_link_def register_def)
  next
    case (q_start q)
    then show ?case by (simp add: q_all_def q_inv_def q_link_def start_def)
  next
    case (q_stop q)
    then show ?case by (simp add: q_all_def q_inv_def q_link_def stop_def)
  qed (auto simp: q_all_def intro: inv_enqueue link_enqueue inv_tick link_tick
      inv_release_Finishing link_release_Finishing inv_retryDead link_retryDead
      inv_purge link_purge inv_new_queue link_new_queue q_inv_wf)
qed

subsection \<open>What one tick does\<close>

text \<open>Rows that are not eligible are left alone by the worker loop.\<close>

lemma dispatch_keeps_ineligible:
  assumes "q_inv q" "dequeueNext now (rows q) = Some (j, rs)" "r \<in> set (rows q)" "\<not> eligible now r"
  shows "r \<in> set (rows (start_job j now (q\<lparr>rows := rs, activeCount := n\<rparr>)))"
proof -
  from assms(2) obtain r0 where r0: "r0 \<in> set (rows q)" "eligible now r0" "j = job_of_row r0"
    and rs: "rs = update_where (\<lambda>x. rid x = rid r0)
       (\<lambda>x. x\<lparr>status := Processing, started_at := Some now, attempts := attempts x + 1\<rparr>) (rows q)"
    by (rule dequeueNext_SomeD)
  have ne: "rid r \<noteq> rid r0"
    using same_row [of "rows q" r r0] assms(1,3,4) r0 by (auto simp: q_inv_def)
  have "r \<in> set rs" using ne assms(3) by (auto simp: rs set_update_where intro: rev_image_eqI)
  then show ?thesis
    using ne by (auto simp: start_job_def markFailed_def set_update_where r0(3) job_of_row_def
      intro: rev_image_eqI)
qed

lemma tick_loop_keeps_ineligible:
  "q_inv q \<Longrightarrow> r \<in> set (rows q) \<Longrightarrow> \<not> eligible now r \<Longrightarrow> r \<in> set (rows (tick_loop now q))"
proof (induction now q rule: tick_loop.induct)
  case (1 now q)
  show ?case
  proof (cases "activeCount q < concurrency q")
    case True
    show ?thesis
    proof (cases "dequeueNext now (rows q)")
      case (Some p)
      obtain j rs where p: "p = (j, rs)" by (cases p)
      then show ?thesis
        using "1.IH" [OF True Some p [symmetric]] True Some "1.prems"
          inv_dispatch [of q now j rs] dispatch_keeps_ineligible [of q now j rs r "activeCount q + 1"]
        by (simp add: tick_loop.simps [of now q])
    qed (use True "1.prems" in \<open>simp add: tick_loop.simps\<close>)
  qed (use "1.prems" in \<open>simp add: tick_loop.simps\<close>)
qed

lemma tick_keeps_ineligible:
  "q_inv q \<Longrightarrow> r \<in> set (rows q) \<Longrightarrow> \<not> eligible now r \<Longrightarrow> r \<in> set (rows (tick now q))"
  by (simp add: tick_def tick_loop_keeps_ineligible)

lemma dequeueNext_None: "dequeueNext now rs = None \<longleftrightarrow> filter (eligible now) rs = []"
  using first_by_order_None [of "filter (eligible now) rs"]
  by (cases "first_by_order (filter (eligible now) rs)") (simp_all add: dequeueNext_def)

lemma tick_loop_saturates:
  "activeCount (tick_loop now q) < concurrency (tick_loop now q) \<Longrightarrow>
   filter (eligible now) (rows (tick_loop now q)) = []"
proof (induction now q rule: tick_loop.induct)
  case (1 now q)
  show ?case
  proof (cases "activeCount q < concurrency q")
    case True
    show ?thesis
    proof (cases "dequeueNext now (rows q)")
      case None
      then have "tick_loop now q = q" using True by (simp add: tick_loop.simps)
      then show ?thesis using None by (simp add: dequeueNext_None)
    next
      case (Some p)
      obtain j rs where p: "p = (j, rs)" by (cases p)
      then show ?thesis
        using "1.IH" [OF True Some p [symmetric]] "1.prems" True Some
        by (simp add: tick_loop.simps [of now q])
    qed
  next
    case False
    then show ?thesis using "1.prems" by (simp add: tick_loop.simps)
  qed
qed


lemma floor_int_add_rat: "\<lfloor>of_int t + (of_int k :: rat)\<rfloor> = t + k"
  by (metis floor_of_int of_int_add)

lemma retry_delay_eq: "0 \<le> a \<Longrightarrow> retry_delay a = of_int (1000 * 2 ^ nat a)"
  by (simp add: retry_delay_def BASE_RETRY_DELAY_MS_def power_int_diff) (simp add: power_int_def)

text \<open>The row of a running job, as the failure of its handler leaves it.\<close>

definition requeued :: "row \<Rightarrow> string \<Rightarrow> time \<Rightarrow> row" where
  "requeued r e t = r\<lparr>status := Queued, error := Some e, next_attempt_at := Some t\<rparr>"

subsection \<open>Properties\<close>

text \<open>C1: In every reachable state of the service, crashes included, the rows in status processing are exactly
  the jobs whose handler is running, each of them once; the number of busy workers is the number of
  dispatched jobs and never exceeds the configured concurrency; and job ids and idempotency keys stay
  unique.\<close>

theorem queue_safety:
  assumes "reach q_start q_step q"
  shows "distinct (awaiting_ids (inflight q))
    \<and> set (awaiting_ids (inflight q)) = proc_ids (rows q)
    \<and> activeCount q = length (inflight q) \<and> activeCount q \<le> concurrency q
    \<and> wf_rows (rows q)"
  using qs.reach_inv [OF assms] by (simp add: q_all_def q_inv_def)

text \<open>C31: A job whose handler throws is never moved to the dead-letter queue, however many attempts it has
  made and whatever its max_attempts: in every reachable state its row goes back to queued, eligible
  again after 1000 * 2^(n-1) milliseconds, where n is the number of the attempt that failed.\<close>

theorem failing_handler_requeues:
  assumes "reach q_start q_step q" "Awaiting j \<in> set (inflight q)" "r \<in> set (rows q)" "rid r = jid j"
  shows "1 \<le> attempts r
    \<and> requeued r e (now + 1000 * 2 ^ nat (attempts r - 1)) \<in> set (rows (settle j (Rejected e) now q))"
proof -
  have all: "q_inv q" "q_link q" using qs.reach_inv [OF assms(1)] by (simp_all add: q_all_def)
  then have fl: "flight_ok (rows q) (Awaiting j)" using assms(2) by (simp add: q_link_def)
  then have a: "0 \<le> jattempts j" "attempts r = jattempts j + 1" "jmaxAttempts j = None"
    using assms(3,4) by (simp_all add: flight_ok_def)
  have t: "\<lfloor>of_int now + retry_delay (jattempts j)\<rfloor> = now + 1000 * 2 ^ nat (jattempts j)"
    unfolding retry_delay_eq [OF a(1)] by (rule floor_int_add_rat)
  let ?r = "requeued r e (now + 1000 * 2 ^ nat (jattempts j))"
  have "?r \<in> set (rows (settled j (Rejected e) now q))"
    using assms(3,4) t
    by (force simp: settled_def is_exhausted_def a(3) markFailed_def set_update_where requeued_def)
  moreover have "\<not> eligible now ?r" by (simp add: eligible_def requeued_def)
  ultimately have "?r \<in> set (rows (settle j (Rejected e) now q))"
    unfolding settle_eq using inv_settled [OF all(1) assms(2)] by (intro tick_keeps_ineligible)
  then show ?thesis using a by simp
qed

text \<open>The worker takes the eligible job of highest priority, the oldest among equals, marks exactly that
  row as processing and counts the attempt; it takes nothing exactly when no row is eligible.\<close>

theorem dequeue_takes_first:
  shows "case dequeueNext now rs of
      None \<Rightarrow> \<not> (\<exists>r \<in> set rs. eligible now r)
    | Some (j, rs') \<Rightarrow> \<exists>r \<in> set rs. eligible now r \<and> jid j = rid r \<and> jtype j = rtype r
        \<and> \<not> (\<exists>s \<in> set rs. eligible now s \<and> before s r)
        \<and> rs' = update_where (\<lambda>x. rid x = rid r)
            (\<lambda>x. x\<lparr>status := Processing, started_at := Some now, attempts := attempts x + 1\<rparr>) rs"
proof (cases "dequeueNext now rs")
  case None
  then have "\<not> (\<exists>r \<in> set rs. eligible now r)" by (simp add: dequeueNext_None filter_empty_conv)
  then show ?thesis by (simp add: None)
next
  case (Some p)
  obtain j rs' where p: "p = (j, rs')" by (cases p)
  with Some obtain r where "r \<in> set rs" "eligible now r" "j = job_of_row r"
    "\<forall>s \<in> set rs. eligible now s \<longrightarrow> \<not> before s r"
    "rs' = update_where (\<lambda>x. rid x = rid r)
       (\<lambda>x. x\<lparr>status := Processing, started_at := Some now, attempts := attempts x + 1\<rparr>) rs"
    by (auto elim: dequeueNext_SomeD)
  then show ?thesis using Some p by (auto simp: job_of_row_def)
qed

text \<open>C35: The queue is work-conserving: after a tick of a running queue either every worker is busy or no
  eligible job is left waiting.\<close>

theorem tick_work_conserving:
  assumes "running q"
  shows "\<not> activeCount (tick now q) < concurrency (tick now q)
    \<or> \<not> (\<exists>r \<in> set (rows (tick now q)). eligible now r)"
  using tick_loop_saturates [of now q] assms by (auto simp: tick_def filter_empty_conv)

text \<open>Submission under an idempotency key: a queued or processing job with the key is returned and nothing
  changes; if the only job with the key is finished, the insertion violates the UNIQUE constraint and
  enqueue throws; without either, a fresh queued job with no attempts is stored under the new id.\<close>

theorem enqueue_idempotency:
  assumes "d_idempotencyKey d = Some k" "k \<noteq> []" "\<forall>r \<in> set (rows q). rid r \<noteq> uuid"
  shows "enqueue d uuid now q =
    (if \<exists>r \<in> set (rows q). idempotency_key r = Some k \<and> (status r = Queued \<or> status r = Processing)
     then Inr (rid (the (live_job (Some k) (rows q))), q)
     else if \<exists>r \<in> set (rows q). idempotency_key r = Some k then Inl UniqueViolation
     else Inr (uuid, tick now (q\<lparr>rows := rows q @ [new_row d uuid now]\<rparr>)))"
proof -
  have live: "live_job (Some k) (rows q) = List.find (\<lambda>r. idempotency_key r = Some k
      \<and> (status r = Queued \<or> status r = Processing)) (rows q)"
    using assms(2) by (simp add: live_job_def split: list.split)
  have ins: "insert_row (new_row d uuid now) (rows q) =
      (if \<exists>r \<in> set (rows q). idempotency_key r = Some k then Inl UniqueViolation
       else Inr (rows q @ [new_row d uuid now]))"
    using assms(1,3) by (auto simp: insert_row_def list_ex_iff)
  show ?thesis
  proof (cases "live_job (Some k) (rows q)")
    case None
    then have "\<not> (\<exists>r \<in> set (rows q). idempotency_key r = Some k \<and> (status r = Queued \<or> status r = Processing))"
      using live by (auto simp: find_None_iff)
    then show ?thesis using assms(1) ins None by (simp add: enqueue_def)
  next
    case (Some r)
    then have "\<exists>r \<in> set (rows q). idempotency_key r = Some k \<and> (status r = Queued \<or> status r = Processing)"
      using live by (auto dest!: find_SomeD)
    then show ?thesis using assms(1) Some by (simp add: enqueue_def)
  qed
qed

text \<open>After a crash the constructor loses no job and leaves none stuck: every row survives with its
  attempts, rows that were processing are queued again, all others are unchanged, and no worker is
  busy.\<close>

theorem crash_recovery:
  "rows (new_queue (rows q) c) =
     map (\<lambda>r. if status r = Processing then r\<lparr>status := Queued, started_at := None\<rparr> else r) (rows q)
   \<and> proc_ids (rows (new_queue (rows q) c)) = {}
   \<and> activeCount (new_queue (rows q) c) = 0 \<and> inflight (new_queue (rows q) c) = []"
  using proc_ids_recover [of "rows q"] by (simp add: new_queue_def recover_def update_where_def)


subsection \<open>Witnesses\<close>

text \<open>One worker, one registered type, one job submitted with a limit of a single attempt.\<close>

definition ex_def :: job_def where
  "ex_def = \<lparr>d_type = fx_rate_refresh, d_payload = ''{}'', d_priority = None, d_maxAttempts = Some 1,
     d_idempotencyKey = Some ''k1''\<rparr>"

definition ex_q1 :: queue where
  "ex_q1 = start (register fx_rate_refresh (new_queue [] 1))"

definition ex_row :: row where
  "ex_row = (new_row ex_def ''job-1'' 10)\<lparr>status := Processing, started_at := Some 10, attempts := 1\<rparr>"

definition ex_job :: job where
  "ex_job = \<lparr>jid = ''job-1'', jtype = fx_rate_refresh, jattempts = 0, jmaxAttempts = None\<rparr>"

definition ex_q2 :: queue where
  "ex_q2 = ex_q1\<lparr>rows := [ex_row], activeCount := 1, inflight := [Awaiting ex_job]\<rparr>"

lemmas ex_queue_defs = ex_def_def ex_q1_def ex_row_def ex_job_def ex_q2_def start_def register_def
  new_queue_def recover_def new_row_def

lemma ex_enqueue: "enqueue ex_def ''job-1'' 10 ex_q1 = Inr (''job-1'', ex_q2)"
  by (simp add: enqueue_def live_job_def insert_row_def tick_def tick_loop.simps dequeueNext_def
      eligible_def start_job_def job_of_row_def ex_queue_defs)

lemma ex_reach: "reach q_start q_step ex_q2"
proof -
  have "reach q_start q_step (new_queue [] 1)"
    by (rule reach_init) (auto simp: q_start_def wf_rows_def intro!: exI [of _ "[]"])
  then have "reach q_start q_step (register fx_rate_refresh (new_queue [] 1))"
    by (rule reach_step) (rule q_register)
  then have "reach q_start q_step ex_q1"
    unfolding ex_q1_def by (rule reach_step) (rule q_step.q_start)
  then show ?thesis by (rule reach_step) (rule q_enqueue [OF ex_enqueue])
qed

theorem queue_safety_witness: "proc_ids (rows ex_q2) = {''job-1''} \<and> activeCount ex_q2 \<le> 1"
  using queue_safety [OF ex_reach] by (simp add: ex_queue_defs)

theorem failing_handler_requeues_witness:
  "max_attempts ex_row = 1 \<and>
   requeued ex_row ''boom'' 1020 \<in> set (rows (settle ex_job (Rejected ''boom'') 20 ex_q2))"
  using failing_handler_requeues [OF ex_reach, of ex_job ex_row "''boom''" 20]
  by (simp add: ex_queue_defs)

theorem tick_work_conserving_witness: "running ex_q2 \<and> activeCount (tick 11 ex_q2) = 1"
  using tick_work_conserving [of ex_q2 11]
  by (simp add: tick_def tick_loop.simps ex_queue_defs eligible_def)

theorem enqueue_idempotency_witness:
  "enqueue ex_def ''job-2'' 30 (ex_q2\<lparr>rows := [ex_row\<lparr>status := Completed\<rparr>]\<rparr>) = Inl UniqueViolation"
  using enqueue_idempotency [of ex_def "''k1''" "ex_q2\<lparr>rows := [ex_row\<lparr>status := Completed\<rparr>]\<rparr>" "''job-2''" 30]
  by (simp add: ex_queue_defs)

end
