(* ===== verification/Badge.thy ===== *)
theory Badge
  imports JsString
begin

section \<open>Trust badges: secrets, state, rotation and the public endpoint\<close>

text \<open>
  The models of src/lib/badge-secrets.ts, src/lib/badge-sync.ts, src/lib/badge-rotation.ts and
  src/routes/badge.ts over one database state \<open>gov_db\<close>, which the warranty theory uses too. The
  cryptographic primitives come from Node's crypto package and are parameters:
  \<open>hmac :: string \<Rightarrow> string \<Rightarrow> ustring\<close> is \<open>createHmac("sha256", secret).update(msg).digest("hex")\<close>
  and \<open>sha :: string \<Rightarrow> string\<close> is \<open>createHash("sha256").update(s).digest("hex")\<close>. The ids of the
  audit and history rows (random UUIDs that nothing reads) are left out; all clock readings of one
  synchronous operation are one argument \<open>now\<close>.
\<close>

subsection \<open>Secrets (badge-secrets.ts)\<close>

record badge_env =
  env_current :: "string option"
  env_previous :: "string option"
  env_legacy :: "string option"

record resolved_secrets =
  current :: string
  previous :: "string option"
  isDevFallback :: bool

definition DEV_FALLBACK_SECRET :: string where
  "DEV_FALLBACK_SECRET = ''dev-only-badge-secret-do-not-ship''"

definition nonempty :: "string option \<Rightarrow> string option" where
  "nonempty s = (case s of Some [] \<Rightarrow> None | _ \<Rightarrow> s)"

definition resolveSecrets :: "badge_env \<Rightarrow> resolved_secrets" where
  "resolveSecrets env =
     (case nonempty (env_current env) of
        Some c \<Rightarrow> \<lparr>current = c, previous = nonempty (env_previous env), isDevFallback = False\<rparr>
      | None \<Rightarrow>
          (case nonempty (env_legacy env) of
             Some l \<Rightarrow> \<lparr>current = l, previous = None, isDevFallback = False\<rparr>
           | None \<Rightarrow> \<lparr>current = DEV_FALLBACK_SECRET, previous = None, isDevFallback = True\<rparr>))"

text \<open>The module variable \<open>cached\<close> is the second component.\<close>

definition getBadgeSecrets ::
  "badge_env \<Rightarrow> resolved_secrets option \<Rightarrow> resolved_secrets \<times> resolved_secrets option" where
  "getBadgeSecrets env cached =
     (case cached of Some c \<Rightarrow> (c, cached) | None \<Rightarrow> (resolveSecrets env, Some (resolveSecrets env)))"

definition invalidateCache :: "resolved_secrets option \<Rightarrow> resolved_secrets option" where
  "invalidateCache cached = None"

definition badge_message :: "string \<Rightarrow> string \<Rightarrow> string \<Rightarrow> string" where
  "badge_message tenantId badgeState stateChangedAt = join_with ''|'' [tenantId, badgeState, stateChangedAt]"

definition signBadgeState ::
  "(string \<Rightarrow> string \<Rightarrow> ustring) \<Rightarrow> resolved_secrets \<Rightarrow> string \<Rightarrow> string \<Rightarrow> string \<Rightarrow> ustring" where
  "signBadgeState hmac sec tenantId badgeState stateChangedAt =
     hmac (current sec) (badge_message tenantId badgeState stateChangedAt)"

datatype js_throw = RangeError \<comment> \<open>\<open>timingSafeEqual\<close> on buffers of different length\<close>

definition timingSafeEqual :: "nat list \<Rightarrow> nat list \<Rightarrow> js_throw + bool" where
  "timingSafeEqual a b = (if length a \<noteq> length b then Inl RangeError else Inr (a = b))"

definition safeEqual :: "ustring \<Rightarrow> ustring \<Rightarrow> js_throw + bool" where
  "safeEqual a b = (if length a \<noteq> length b then Inr False else timingSafeEqual (utf8 a) (utf8 b))"

datatype signature_match = MatchCurrent | MatchPrevious | MatchInvalid

definition verifyBadgeSignature ::
  "(string \<Rightarrow> string \<Rightarrow> ustring) \<Rightarrow> resolved_secrets \<Rightarrow> ustring \<Rightarrow> string \<Rightarrow> string \<Rightarrow> string
   \<Rightarrow> js_throw + signature_match" where
  "verifyBadgeSignature hmac sec presented tenantId badgeState stateChangedAt =
     (let msg = badge_message tenantId badgeState stateChangedAt
      in case safeEqual presented (hmac (current sec) msg) of
           Inl e \<Rightarrow> Inl e
         | Inr True \<Rightarrow> Inr MatchCurrent
         | Inr False \<Rightarrow>
             (case nonempty (previous sec) of
                None \<Rightarrow> Inr MatchInvalid
              | Some p \<Rightarrow>
                  (case safeEqual presented (hmac p msg) of
                     Inl e \<Rightarrow> Inl e
                   | Inr True \<Rightarrow> Inr MatchPrevious
                   | Inr False \<Rightarrow> Inr MatchInvalid)))"

definition getCurrentSecretFingerprint :: "(string \<Rightarrow> string) \<Rightarrow> resolved_secrets \<Rightarrow> string" where
  "getCurrentSecretFingerprint sha sec = sha (current sec)"

subsection \<open>The database state\<close>

datatype policy_state = ACTIVE | VOID_BY_COMPLIANCE_DRIFT | VOID_BY_ANOMALY_RATIO

datatype badge_state = Green | Amber | Red

fun badge_name :: "badge_state \<Rightarrow> string" where
  "badge_name Green = ''green''"
| "badge_name Amber = ''amber''"
| "badge_name Red = ''red''"

text \<open>The evidence objects \<open>evaluatePolicyState\<close> builds, and the empty object of a new warranty.\<close>

datatype evidence =
    EvAnomaly rat rat int int int \<comment> \<open>anomaly_ratio, threshold, window_days, total, denied\<close>
  | EvDrift int int int \<comment> \<open>boundary_crossings, threshold, window_days\<close>
  | EvActive rat rat int time \<comment> \<open>anomaly_ratio, threshold, boundary_crossings, checked_at\<close>
  | EvNone

fun ev_anomaly_ratio :: "evidence \<Rightarrow> rat option" where
  "ev_anomaly_ratio (EvAnomaly r _ _ _ _) = Some r"
| "ev_anomaly_ratio (EvActive r _ _ _) = Some r"
| "ev_anomaly_ratio _ = None"

fun ev_threshold :: "evidence \<Rightarrow> rat option" where
  "ev_threshold (EvAnomaly _ t _ _ _) = Some t"
| "ev_threshold (EvDrift _ t _) = Some (of_int t)"
| "ev_threshold (EvActive _ t _ _) = Some t"
| "ev_threshold EvNone = None"

fun ev_boundary_crossings :: "evidence \<Rightarrow> int option" where
  "ev_boundary_crossings (EvDrift c _ _) = Some c"
| "ev_boundary_crossings (EvActive _ _ c _) = Some c"
| "ev_boundary_crossings _ = None"

record account =
  acc_id :: string
  acc_tenant :: string

record user =
  usr_id :: string
  plane_role :: "string option"

record access_metric =
  user_tenant_id :: "string option"
  access_granted :: bool
  is_boundary_crossing :: bool
  evaluated_at :: time

record warranty =
  wid :: string
  w_tenant :: string
  w_account :: string
  policy_state :: policy_state
  external_carrier_id :: "string option"
  external_policy_number :: "string option"
  state_evidence :: evidence
  coverage_started_at :: time
  coverage_ends_at :: "string option"
  w_state_changed_at :: time
  w_created_at :: time
  w_updated_at :: time

record badge =
  b_tenant :: string
  b_account :: string
  b_state :: badge_state
  state_signature :: ustring
  state_reason :: "string option"
  state_changed_at :: time
  b_created_at :: time
  b_updated_at :: time

record badge_history =
  h_tenant :: string
  h_account :: string
  from_state :: "badge_state option"
  to_state :: badge_state
  h_reason :: "string option"
  changed_at :: time

datatype audit_value = AuditState policy_state | AuditExternal "string option" "string option"

datatype audit_meta = MetaEvidence evidence | MetaBind string "string option"

record audit_row =
  a_tenant :: string
  a_actor :: "string option"
  entity_type :: string
  entity_id :: string
  action :: string
  old_value :: "audit_value option"
  new_value :: "audit_value option"
  a_metadata :: "audit_meta option"
  a_created_at :: time

record secret_state =
  fingerprint :: string
  last_seen_at :: time
  last_rotated_at :: time

record gov_db =
  accounts :: "account list"
  users :: "user list"
  metrics :: "access_metric list"
  warranties :: "warranty list"
  badges :: "badge list"
  history :: "badge_history list"
  audit :: "audit_row list"
  secret :: "secret_state option"

text \<open>
  A statement can fail on the foreign key from a badge row or a history row to its account, or on
  a primary key.
\<close>

datatype db_error = ForeignKeyViolation | PrimaryKeyViolation

definition account_exists :: "gov_db \<Rightarrow> string \<Rightarrow> bool" where
  "account_exists db a \<longleftrightarrow> list_ex (\<lambda>x. acc_id x = a) (accounts db)"

definition commercialAuditLog ::
  "string \<Rightarrow> string option \<Rightarrow> string \<Rightarrow> string \<Rightarrow> string \<Rightarrow> audit_value option \<Rightarrow> audit_value option
   \<Rightarrow> audit_meta option \<Rightarrow> time \<Rightarrow> gov_db \<Rightarrow> gov_db" where
  "commercialAuditLog tenant actor etype eid act old new meta now db =
     db\<lparr>audit := audit db @
       [\<lparr>a_tenant = tenant, a_actor = actor, entity_type = etype, entity_id = eid, action = act,
         old_value = old, new_value = new, a_metadata = meta, a_created_at = now\<rparr>]\<rparr>"

subsection \<open>Badge state and its synchronisation (badge-sync.ts)\<close>

record badge_inputs =
  in_policy_state :: "policy_state option"
  in_evidence :: "evidence option"

definition AMBER_THRESHOLD_RATIO :: rat where
  "AMBER_THRESHOLD_RATIO = rnd (75 / 100)"

definition percent :: "rat \<Rightarrow> string" where
  "percent x = to_fixed_str 1 (fmul x 100) @ ''%''"

definition computeBadgeState :: "badge_inputs \<Rightarrow> badge_state \<times> string option" where
  "computeBadgeState inp =
     (let ev = case_option EvNone id (in_evidence inp)
      in case in_policy_state inp of
           Some VOID_BY_ANOMALY_RATIO \<Rightarrow>
             (Red, Some (case ev_anomaly_ratio ev of
                Some r \<Rightarrow> ''Coverage void: anomaly ratio '' @ percent r @ '' exceeds threshold''
              | None \<Rightarrow> ''Coverage void: anomaly ratio exceeds threshold''))
         | Some VOID_BY_COMPLIANCE_DRIFT \<Rightarrow>
             (Red, Some (case ev_boundary_crossings ev of
                Some c \<Rightarrow> ''Coverage void: '' @ int_str c @ '' boundary crossings detected''
              | None \<Rightarrow> ''Coverage void: compliance drift detected''))
         | _ \<Rightarrow>
             (case (ev_anomaly_ratio ev, ev_threshold ev) of
                (Some r, Some t) \<Rightarrow>
                  if 0 < t \<and> fmul t AMBER_THRESHOLD_RATIO \<le> r \<and> r < t
                  then (Amber, Some (''Anomaly ratio '' @ percent r @ '' approaching '' @ percent t @ '' threshold''))
                  else (Green, None)
              | _ \<Rightarrow> (Green, None)))"

record sync_result =
  sr_state :: badge_state
  sr_reason :: "string option"
  sr_changed :: bool
  sr_signature :: ustring

definition find_badge :: "gov_db \<Rightarrow> string \<Rightarrow> badge option" where
  "find_badge db tenantId = List.find (\<lambda>b. b_tenant b = tenantId) (badges db)"

definition syncBadge ::
  "(string \<Rightarrow> string \<Rightarrow> ustring) \<Rightarrow> resolved_secrets \<Rightarrow> time \<Rightarrow> string \<Rightarrow> string \<Rightarrow> badge_inputs
   \<Rightarrow> gov_db \<Rightarrow> db_error + sync_result \<times> gov_db" where
  "syncBadge hmac sec now tenantId accountId inp db =
     (let (st, reason) = computeBadgeState inp;
          existing = find_badge db tenantId;
          unchanged = (case existing of Some b \<Rightarrow> b_state b = st \<and> state_reason b = reason | None \<Rightarrow> False)
      in if unchanged then
           (case existing of
              Some b \<Rightarrow> Inr (\<lparr>sr_state = b_state b, sr_reason = state_reason b, sr_changed = False,
                           sr_signature = state_signature b\<rparr>, db)
            | None \<Rightarrow> Inl ForeignKeyViolation)
         else if \<not> account_exists db accountId then Inl ForeignKeyViolation
         else
           let sig = signBadgeState hmac sec tenantId (badge_name st) (iso_string now);
               bs = (case existing of
                       Some _ \<Rightarrow> update_where (\<lambda>b. b_tenant b = tenantId)
                         (\<lambda>b. b\<lparr>b_state := st, state_signature := sig, state_reason := reason,
                                state_changed_at := now, b_updated_at := now\<rparr>) (badges db)
                     | None \<Rightarrow> badges db @
                         [\<lparr>b_tenant = tenantId, b_account = accountId, b_state = st, state_signature = sig,
                           state_reason = reason, state_changed_at = now, b_created_at = now,
                           b_updated_at = now\<rparr>]);
               h = \<lparr>h_tenant = tenantId, h_account = accountId,
                    from_state = map_option b_state existing, to_state = st, h_reason = reason,
                    changed_at = now\<rparr>
           in Inr (\<lparr>sr_state = st, sr_reason = reason, sr_changed = True, sr_signature = sig\<rparr>,
                   db\<lparr>badges := bs, history := history db @ [h]\<rparr>))"

subsection \<open>Rotation at boot (badge-rotation.ts)\<close>

datatype rotation_outcome = Established | Unchanged | Rotated

definition resignAllBadges ::
  "(string \<Rightarrow> string \<Rightarrow> ustring) \<Rightarrow> resolved_secrets \<Rightarrow> time \<Rightarrow> gov_db \<Rightarrow> nat \<times> gov_db" where
  "resignAllBadges hmac sec now db =
     (length (badges db),
      db\<lparr>badges := map (\<lambda>b. b\<lparr>state_signature :=
              signBadgeState hmac sec (b_tenant b) (badge_name (b_state b)) (iso_string (state_changed_at b)),
            b_updated_at := now\<rparr>) (badges db),
         audit := audit db @ map (\<lambda>b. \<lparr>a_tenant = b_tenant b, a_actor = None, entity_type = ''badge'',
            entity_id = b_tenant b, action = ''secret_rotation'', old_value = None, new_value = None,
            a_metadata = None, a_created_at = now\<rparr>) (badges db)\<rparr>)"

definition detectAndApplyRotation ::
  "(string \<Rightarrow> string \<Rightarrow> ustring) \<Rightarrow> (string \<Rightarrow> string) \<Rightarrow> resolved_secrets \<Rightarrow> time \<Rightarrow> gov_db
   \<Rightarrow> (rotation_outcome \<times> nat) \<times> gov_db" where
  "detectAndApplyRotation hmac sha sec now db =
     (let fp = getCurrentSecretFingerprint sha sec
      in case secret db of
           None \<Rightarrow> ((Established, 0),
                    db\<lparr>secret := Some \<lparr>fingerprint = fp, last_seen_at = now, last_rotated_at = now\<rparr>\<rparr>)
         | Some prior \<Rightarrow>
             if fingerprint prior = fp
             then ((Unchanged, 0), db\<lparr>secret := Some (prior\<lparr>last_seen_at := now\<rparr>)\<rparr>)
             else
               let (n, db') = resignAllBadges hmac sec now db
               in ((Rotated, n),
                   db'\<lparr>secret := Some (prior\<lparr>fingerprint := fp, last_seen_at := now,
                                             last_rotated_at := now\<rparr>)\<rparr>))"

subsection \<open>The public endpoint (routes/badge.ts)\<close>

record badge_view =
  v_state :: badge_state
  v_reason :: "string option"
  v_changed_at :: time
  v_stale :: bool \<comment> \<open>header \<open>X-Badge-Signature-Stale\<close>\<close>

datatype 'a http = Ok200 'a | Created201 'a | NotFound404 | ServerError500

definition getBadgeState ::
  "(string \<Rightarrow> string \<Rightarrow> ustring) \<Rightarrow> resolved_secrets \<Rightarrow> string \<Rightarrow> ustring \<Rightarrow> gov_db \<Rightarrow> badge_view http" where
  "getBadgeState hmac sec tenantId presented db =
     (if presented = [] then NotFound404
      else case find_badge db tenantId of
             None \<Rightarrow> NotFound404
           | Some row \<Rightarrow>
               let view = (\<lambda>stale. Ok200 \<lparr>v_state = b_state row, v_reason = state_reason row,
                             v_changed_at = state_changed_at row, v_stale = stale\<rparr>)
               in case safeEqual presented (state_signature row) of
                    Inl _ \<Rightarrow> ServerError500
                  | Inr True \<Rightarrow> view False
                  | Inr False \<Rightarrow>
                      (case verifyBadgeSignature hmac sec presented tenantId (badge_name (b_state row))
                              (iso_string (state_changed_at row)) of
                         Inl _ \<Rightarrow> ServerError500
                       | Inr MatchInvalid \<Rightarrow> NotFound404
                       | Inr MatchPrevious \<Rightarrow> view True
                       | Inr MatchCurrent \<Rightarrow> view False))"


subsection \<open>What a signature binds\<close>

lemma append_sep_inject:
  "a @ c # x = b @ c # y \<Longrightarrow> c \<notin> set a \<Longrightarrow> c \<notin> set b \<Longrightarrow> a = b \<and> x = y"
proof (induction a arbitrary: b)
  case Nil
  then show ?case by (cases b) auto
next
  case (Cons u a)
  then show ?case by (cases b) auto
qed

lemma rsplit_inject:
  assumes "x @ c # a = y @ c # b" "c \<notin> set a" "c \<notin> set b"
  shows "x = y \<and> a = b"
proof -
  have "rev a @ c # rev x = rev b @ c # rev y"
    using arg_cong [OF assms(1), of rev] by simp
  then have "rev a = rev b \<and> rev x = rev y" using assms(2,3) by (intro append_sep_inject) auto
  then show ?thesis by simp
qed

lemma badge_message_inject:
  assumes "badge_message t s c = badge_message t' s' c'"
    "CHR ''|'' \<notin> set s" "CHR ''|'' \<notin> set c" "CHR ''|'' \<notin> set s'" "CHR ''|'' \<notin> set c'"
  shows "t = t' \<and> s = s' \<and> c = c'"
proof -
  have "(t @ CHR ''|'' # s) @ CHR ''|'' # c = (t' @ CHR ''|'' # s') @ CHR ''|'' # c'"
    using assms(1) by (simp add: badge_message_def)
  then have "t @ CHR ''|'' # s = t' @ CHR ''|'' # s' \<and> c = c'"
    using assms by (intro rsplit_inject)
  then show ?thesis using assms rsplit_inject by metis
qed

lemma badge_name_no_sep: "CHR ''|'' \<notin> set (badge_name s)"
  by (cases s) simp_all


subsection \<open>Comparing signatures\<close>

lemma utf8_grows: "length us \<le> length (utf8 us)"
  by (induction us rule: utf8.induct) (auto simp: utf8_unit_def Let_def)

lemma utf8_grows_strictly: "u \<in> set us \<Longrightarrow> 128 \<le> u \<Longrightarrow> length us < length (utf8 us)"
proof (induction us rule: utf8.induct)
  case (3 x y zs)
  then show ?case using utf8_grows [of "y # zs"] utf8_grows [of zs]
    by (auto simp: utf8_unit_def Let_def)
qed (auto simp: utf8_unit_def)

definition ascii_units :: "ustring \<Rightarrow> bool" where
  "ascii_units us \<longleftrightarrow> (\<forall>u \<in> set us. u < 128)"

lemma utf8_length_ascii: "length (utf8 us) = length us \<Longrightarrow> ascii_units us"
  using utf8_grows_strictly [of _ us] by (fastforce simp: ascii_units_def not_less [symmetric])

lemma utf8_id: "ascii_units us \<Longrightarrow> utf8 us = us"
  by (rule utf8_ascii) (simp add: ascii_units_def)

lemma safeEqual_ascii: "ascii_units a \<Longrightarrow> ascii_units b \<Longrightarrow> safeEqual a b = Inr (a = b)"
  by (auto simp: safeEqual_def timingSafeEqual_def utf8_id)

lemma safeEqual_same [simp]: "safeEqual a a = Inr True"
  by (simp add: safeEqual_def timingSafeEqual_def)

lemma safeEqual_non_ascii:
  "\<not> ascii_units a \<Longrightarrow> ascii_units b \<Longrightarrow> length a = length b \<Longrightarrow> safeEqual a b = Inl RangeError"
  using utf8_length_ascii [of a] by (auto simp: safeEqual_def timingSafeEqual_def utf8_id)

text \<open>What \<open>digest("hex")\<close> promises: 64 hexadecimal digits.\<close>

definition hex_digest :: "(string \<Rightarrow> string \<Rightarrow> ustring) \<Rightarrow> bool" where
  "hex_digest hmac \<longleftrightarrow> (\<forall>k m. length (hmac k m) = 64 \<and> ascii_units (hmac k m))"

lemma hex_digestD: "hex_digest hmac \<Longrightarrow> length (hmac k m) = 64 \<and> ascii_units (hmac k m)"
  by (simp add: hex_digest_def)

subsection \<open>Synchronisation\<close>

definition shown :: "badge option \<Rightarrow> (badge_state \<times> string option) option" where
  "shown = map_option (\<lambda>b. (b_state b, state_reason b))"

interpretation sync_rows: keyed_update b_tenant
    "\<lambda>b. b\<lparr>b_state := st, state_signature := sig, state_reason := reason,
           state_changed_at := now, b_updated_at := now\<rparr>" for st sig reason now
  by unfold_locales simp

interpretation resign_rows: keyed_update b_tenant "\<lambda>b. b\<lparr>state_signature := g b, b_updated_at := now\<rparr>" for g now
  by unfold_locales simp

lemma find_badge_SomeD: "find_badge db t = Some b \<Longrightarrow> b \<in> set (badges db) \<and> b_tenant b = t"
  unfolding find_badge_def by (rule find_SomeD)

text \<open>The three ways \<open>syncBadge\<close> can go.\<close>

lemma syncBadge_cases:
  assumes "syncBadge hmac sec now t a inp db = res"
  obtains
    (same) b where "find_badge db t = Some b" "computeBadgeState inp = (b_state b, state_reason b)"
      "res = Inr (\<lparr>sr_state = b_state b, sr_reason = state_reason b, sr_changed = False,
                  sr_signature = state_signature b\<rparr>, db)"
  | (no_account) "shown (find_badge db t) \<noteq> Some (computeBadgeState inp)" "\<not> account_exists db a"
      "res = Inl ForeignKeyViolation"
  | (written) st reason sig r db' where "shown (find_badge db t) \<noteq> Some (computeBadgeState inp)"
      "account_exists db a" "computeBadgeState inp = (st, reason)"
      "sig = signBadgeState hmac sec t (badge_name st) (iso_string now)"
      "r = \<lparr>sr_state = st, sr_reason = reason, sr_changed = True, sr_signature = sig\<rparr>"
      "db' = db\<lparr>badges := (case find_badge db t of
                       Some _ \<Rightarrow> update_where (\<lambda>b. b_tenant b = t)
                         (\<lambda>b. b\<lparr>b_state := st, state_signature := sig, state_reason := reason,
                                state_changed_at := now, b_updated_at := now\<rparr>) (badges db)
                     | None \<Rightarrow> badges db @
                         [\<lparr>b_tenant = t, b_account = a, b_state = st, state_signature = sig,
                           state_reason = reason, state_changed_at = now, b_created_at = now,
                           b_updated_at = now\<rparr>]),
               history := history db @ [\<lparr>h_tenant = t, h_account = a,
                    from_state = map_option b_state (find_badge db t), to_state = st, h_reason = reason,
                    changed_at = now\<rparr>]\<rparr>"
      "res = Inr (r, db')"
proof -
  obtain st reason where c: "computeBadgeState inp = (st, reason)" by fastforce
  show ?thesis
  proof (cases "shown (find_badge db t) = Some (computeBadgeState inp)")
    case True
    then obtain b where "find_badge db t = Some b" "b_state b = st" "state_reason b = reason"
      using c by (auto simp: shown_def)
    then show ?thesis using assms c by (intro same) (auto simp: syncBadge_def)
  next
    case False
    then have nu: "(case find_badge db t of Some b \<Rightarrow> b_state b = st \<and> state_reason b = reason | None \<Rightarrow> False) = False"
      using c by (auto simp: shown_def split: option.splits)
    show ?thesis
    proof (cases "account_exists db a")
      case True
      show ?thesis
        by (rule written [OF False True c refl refl refl]) (use assms True in \<open>simp add: syncBadge_def c nu Let_def\<close>)
    next
      case no: False
      show ?thesis
        by (rule no_account [OF False no]) (use assms no in \<open>simp add: syncBadge_def c nu Let_def\<close>)
    qed
  qed
qed

lemma find_badge_written_same:
  "find_badge (db\<lparr>badges := (case find_badge db t of
       Some _ \<Rightarrow> update_where (\<lambda>b. b_tenant b = t)
         (\<lambda>b. b\<lparr>b_state := st, state_signature := sig, state_reason := reason,
                state_changed_at := now, b_updated_at := now\<rparr>) (badges db)
     | None \<Rightarrow> badges db @ [new]), history := hs\<rparr>) t =
   Some (case find_badge db t of
       Some b \<Rightarrow> b\<lparr>b_state := st, state_signature := sig, state_reason := reason,
                state_changed_at := now, b_updated_at := now\<rparr>
     | None \<Rightarrow> new)" if "b_tenant new = t"
  using that by (auto simp: find_badge_def sync_rows.find_same find_append split: option.splits)

lemma find_badge_written_other:
  "find_badge (db\<lparr>badges := (case find_badge db t of
       Some _ \<Rightarrow> update_where (\<lambda>b. b_tenant b = t)
         (\<lambda>b. b\<lparr>b_state := st, state_signature := sig, state_reason := reason,
                state_changed_at := now, b_updated_at := now\<rparr>) (badges db)
     | None \<Rightarrow> badges db @ [new]), history := hs\<rparr>) u = find_badge db u"
  if "b_tenant new = t" "u \<noteq> t"
  using that by (auto simp: find_badge_def sync_rows.find_other find_append split: option.splits)

lemma syncBadge_shown:
  assumes "syncBadge hmac sec now t a inp db = Inr (r, db')"
  shows "shown (find_badge db' t) = Some (computeBadgeState inp)"
    and "u \<noteq> t \<Longrightarrow> find_badge db' u = find_badge db u"
    and "find_badge db' t = Some b \<Longrightarrow> sr_signature r = state_signature b \<and> sr_state r = b_state b
           \<and> sr_reason r = state_reason b"
proof -
  show "shown (find_badge db' t) = Some (computeBadgeState inp)"
    using syncBadge_cases [OF assms]
    by cases (auto simp: shown_def find_badge_written_same split: option.splits)
  show "u \<noteq> t \<Longrightarrow> find_badge db' u = find_badge db u"
    using syncBadge_cases [OF assms] by cases (auto simp: find_badge_written_other)
  show "find_badge db' t = Some b \<Longrightarrow> sr_signature r = state_signature b \<and> sr_state r = b_state b
           \<and> sr_reason r = state_reason b"
    using syncBadge_cases [OF assms]
    by cases (auto simp: find_badge_written_same split: option.splits)
qed

text \<open>What a synchronisation never touches.\<close>

lemma syncBadge_frame:
  assumes "syncBadge hmac sec now t a inp db = Inr (r, db')"
  shows "accounts db' = accounts db" "users db' = users db" "metrics db' = metrics db"
    "warranties db' = warranties db" "audit db' = audit db" "secret db' = secret db"
proof -
  have "accounts db' = accounts db \<and> users db' = users db \<and> metrics db' = metrics db
    \<and> warranties db' = warranties db \<and> audit db' = audit db \<and> secret db' = secret db"
    using assms by (cases rule: syncBadge_cases) auto
  then show "accounts db' = accounts db" "users db' = users db" "metrics db' = metrics db"
    "warranties db' = warranties db" "audit db' = audit db" "secret db' = secret db" by simp_all
qed

lemma syncBadge_again:
  assumes "shown (find_badge db t) = Some (computeBadgeState inp)" "find_badge db t = Some b"
  shows "syncBadge hmac sec now t a inp db =
    Inr (\<lparr>sr_state = b_state b, sr_reason = state_reason b, sr_changed = False,
          sr_signature = state_signature b\<rparr>, db)"
proof -
  have "computeBadgeState inp = (b_state b, state_reason b)" using assms by (simp add: shown_def)
  then show ?thesis using assms(2) by (simp add: syncBadge_def)
qed

subsection \<open>A deployment: synchronisations and boots\<close>

text \<open>
  The state is the secrets of the running process and the database. \<open>S\<close> is the set of secrets the
  operators ever configure; a boot resolves a new one and runs \<open>detectAndApplyRotation\<close> before
  any request (server.ts, \<open>createApp\<close>).
\<close>

inductive dep_step ::
  "(string \<Rightarrow> string \<Rightarrow> ustring) \<Rightarrow> (string \<Rightarrow> string) \<Rightarrow> string set
   \<Rightarrow> resolved_secrets \<times> gov_db \<Rightarrow> resolved_secrets \<times> gov_db \<Rightarrow> bool"
  for hmac sha S where
  dep_sync: "syncBadge hmac sec now t a inp db = Inr (r, db') \<Longrightarrow> dep_step hmac sha S (sec, db) (sec, db')"
| dep_boot: "current sec' \<in> S \<Longrightarrow> detectAndApplyRotation hmac sha sec' now db = (out, db') \<Longrightarrow>
    dep_step hmac sha S (sec, db) (sec', db')"
| dep_other: "badges db' = badges db \<Longrightarrow> secret db' = secret db \<Longrightarrow> dep_step hmac sha S (sec, db) (sec, db')"

text \<open>First boot on a database without badges.\<close>

definition dep_init ::
  "(string \<Rightarrow> string \<Rightarrow> ustring) \<Rightarrow> (string \<Rightarrow> string) \<Rightarrow> string set \<Rightarrow> resolved_secrets \<times> gov_db \<Rightarrow> bool" where
  "dep_init hmac sha S s \<longleftrightarrow>
     (\<exists>sec now out db0. current sec \<in> S \<and> badges db0 = [] \<and> secret db0 = None
        \<and> detectAndApplyRotation hmac sha sec now db0 = (out, snd s) \<and> fst s = sec)"

definition signed_with :: "(string \<Rightarrow> string \<Rightarrow> ustring) \<Rightarrow> string \<Rightarrow> badge \<Rightarrow> bool" where
  "signed_with hmac k b \<longleftrightarrow>
     state_signature b =
       hmac k (badge_message (b_tenant b) (badge_name (b_state b)) (iso_string (state_changed_at b)))"

definition dep_inv ::
  "(string \<Rightarrow> string \<Rightarrow> ustring) \<Rightarrow> (string \<Rightarrow> string) \<Rightarrow> string set \<Rightarrow> resolved_secrets \<times> gov_db \<Rightarrow> bool" where
  "dep_inv hmac sha S s \<longleftrightarrow>
     current (fst s) \<in> S \<and> distinct (map b_tenant (badges (snd s)))
     \<and> (\<exists>p. secret (snd s) = Some p \<and> fingerprint p = sha (current (fst s)))
     \<and> (\<forall>b \<in> set (badges (snd s)). \<exists>k \<in> S. sha k = sha (current (fst s)) \<and> signed_with hmac k b)"

lemma dep_inv_sync:
  assumes "syncBadge hmac sec now t a inp db = Inr (r, db')" "dep_inv hmac sha S (sec, db)"
  shows "dep_inv hmac sha S (sec, db')"
  using assms(1)
proof (cases rule: syncBadge_cases)
  case same
  then show ?thesis using assms(2) by simp
next
  case no_account
  then show ?thesis by simp
next
  case (written st reason sig)
  show ?thesis
  proof (cases "find_badge db t")
    case None
    then have "t \<notin> b_tenant ` set (badges db)" by (auto simp: find_badge_def find_None_iff)
    with None written assms(2) show ?thesis
      by (auto simp: dep_inv_def signed_with_def signBadgeState_def)
  next
    case (Some b)
    with written assms(2) show ?thesis
      by (auto simp: dep_inv_def sync_rows.keys set_update_where signed_with_def signBadgeState_def)
  qed
qed

lemma dep_inv_boot:
  assumes "current sec' \<in> S" "detectAndApplyRotation hmac sha sec' now db = (out, db')"
    "dep_inv hmac sha S (sec, db)"
  shows "dep_inv hmac sha S (sec', db')"
proof -
  obtain p where p: "secret db = Some p" "fingerprint p = sha (current sec)"
    using assms(3) by (auto simp: dep_inv_def)
  show ?thesis
  proof (cases "fingerprint p = sha (current sec')")
    case True
    then show ?thesis using assms p
      by (auto simp: dep_inv_def detectAndApplyRotation_def getCurrentSecretFingerprint_def)
  next
    case False
    then have "db' = (snd (resignAllBadges hmac sec' now db))
       \<lparr>secret := Some (p\<lparr>fingerprint := sha (current sec'), last_seen_at := now, last_rotated_at := now\<rparr>)\<rparr>"
      using assms p
      by (auto simp: detectAndApplyRotation_def getCurrentSecretFingerprint_def Let_def split: prod.splits)
    then show ?thesis using assms
      by (auto simp: dep_inv_def resignAllBadges_def signed_with_def signBadgeState_def comp_def)
  qed
qed

interpretation dep: invariant_system "dep_init hmac sha S" "dep_step hmac sha S" "dep_inv hmac sha S"
  for hmac sha S
proof unfold_locales
  show "dep_init hmac sha S s \<Longrightarrow> dep_inv hmac sha S s" for s
    by (cases s) (auto simp: dep_init_def dep_inv_def detectAndApplyRotation_def getCurrentSecretFingerprint_def)
  show "dep_step hmac sha S s s' \<Longrightarrow> dep_inv hmac sha S s \<Longrightarrow> dep_inv hmac sha S s'" for s s'
  proof (induction rule: dep_step.induct)
    case (dep_other db' db sec)
    then show ?case by (simp add: dep_inv_def)
  qed (auto intro: dep_inv_sync dep_inv_boot)
qed

lemma dep_signed:
  assumes "reach (dep_init hmac sha S) (dep_step hmac sha S) (sec, db)" "inj_on sha S"
    "find_badge db t = Some b"
  shows "signed_with hmac (current sec) b" "b_tenant b = t"
proof -
  have "dep_inv hmac sha S (sec, db)" using assms(1) by (rule dep.reach_inv)
  then show "signed_with hmac (current sec) b"
    using find_badge_SomeD [OF assms(3)] assms(2) by (auto simp: dep_inv_def dest: inj_onD)
  show "b_tenant b = t" using find_badge_SomeD [OF assms(3)] by simp
qed

lemma find_map_keyed: "(\<And>x. k (g x) = k x) \<Longrightarrow>
    List.find (\<lambda>x. k x = i) (map g xs) = map_option g (List.find (\<lambda>x. k x = i) xs)"
  by (induction xs) auto

lemma hex_nonempty: "hex_digest hmac \<Longrightarrow> hmac k m \<noteq> []"
  using hex_digestD [of hmac k m] by auto

text \<open>The endpoint's answer for a tenant with a correctly signed badge and an ASCII signature.\<close>

definition view_of :: "badge \<Rightarrow> bool \<Rightarrow> badge_view" where
  "view_of b stale = \<lparr>v_state = b_state b, v_reason = state_reason b, v_changed_at = state_changed_at b,
     v_stale = stale\<rparr>"

definition badge_text :: "badge \<Rightarrow> string" where
  "badge_text b = badge_message (b_tenant b) (badge_name (b_state b)) (iso_string (state_changed_at b))"

lemma getBadgeState_signed:
  assumes "hex_digest hmac" "find_badge db t = Some b" "signed_with hmac (current sec) b" "ascii_units presented"
  shows "getBadgeState hmac sec t presented db =
    (if presented = hmac (current sec) (badge_text b) then Ok200 (view_of b False)
     else if \<exists>p. nonempty (previous sec) = Some p \<and> presented = hmac p (badge_text b) then Ok200 (view_of b True)
     else NotFound404)"
proof -
  have t: "b_tenant b = t" using find_badge_SomeD [OF assms(2)] by simp
  have sig: "state_signature b = hmac (current sec) (badge_text b)"
    using assms(3) by (simp add: signed_with_def badge_text_def)
  have msg: "badge_message t (badge_name (b_state b)) (iso_string (state_changed_at b)) = badge_text b"
    by (simp add: badge_text_def t)
  have eq: "safeEqual presented (hmac k m) = Inr (presented = hmac k m)" for k m
    using assms(1,4) hex_digestD by (intro safeEqual_ascii) auto
  have "presented = [] \<Longrightarrow> presented \<noteq> hmac k m" for k m using hex_nonempty [OF assms(1)] by metis
  then show ?thesis using assms(2)
    by (auto simp: getBadgeState_def verifyBadgeSignature_def sig msg eq view_of_def Let_def
        split: option.splits)
qed

subsection \<open>Properties of the badges\<close>

text \<open>A successful \<open>syncBadge\<close> leaves the tenant's badge showing exactly the state and reason that
  \<open>computeBadgeState\<close> derives from the warranty, returns what the badge row holds (its signature
  included), reports \<open>changed\<close> exactly when the badge showed something else before, appends one
  history row exactly in that case, with the old state in it, changes nothing at all otherwise, and
  never touches the badge of another tenant.\<close>

theorem syncBadge_correct:
  assumes "syncBadge hmac sec now t a inp db = Inr (r, db')"
  shows "(\<exists>b. find_badge db' t = Some b \<and> (b_state b, state_reason b) = computeBadgeState inp
            \<and> r = \<lparr>sr_state = b_state b, sr_reason = state_reason b,
                  sr_changed = (shown (find_badge db t) \<noteq> Some (computeBadgeState inp)),
                  sr_signature = state_signature b\<rparr>)
    \<and> (\<forall>u. u \<noteq> t \<longrightarrow> find_badge db' u = find_badge db u)
    \<and> history db' = history db @ (if sr_changed r then
         [\<lparr>h_tenant = t, h_account = a, from_state = map_option b_state (find_badge db t),
           to_state = sr_state r, h_reason = sr_reason r, changed_at = now\<rparr>] else [])
    \<and> (\<not> sr_changed r \<longrightarrow> db' = db)"
proof -
  obtain b where b: "find_badge db' t = Some b" "(b_state b, state_reason b) = computeBadgeState inp"
    using syncBadge_shown(1) [OF assms] by (auto simp: shown_def)
  have r: "sr_changed r = (shown (find_badge db t) \<noteq> Some (computeBadgeState inp))"
    using syncBadge_cases [OF assms] by cases (auto simp: shown_def)
  have "r = \<lparr>sr_state = b_state b, sr_reason = state_reason b,
             sr_changed = (shown (find_badge db t) \<noteq> Some (computeBadgeState inp)),
             sr_signature = state_signature b\<rparr>"
    using syncBadge_shown(3) [OF assms b(1)] r by (cases r) simp
  moreover have "history db' = history db @ (if sr_changed r then
         [\<lparr>h_tenant = t, h_account = a, from_state = map_option b_state (find_badge db t),
           to_state = sr_state r, h_reason = sr_reason r, changed_at = now\<rparr>] else [])"
    using syncBadge_cases [OF assms] by cases auto
  moreover have "\<not> sr_changed r \<longrightarrow> db' = db"
    using syncBadge_cases [OF assms] by cases auto
  ultimately show ?thesis using b syncBadge_shown(2) [OF assms] by blast
qed

text \<open>Synchronising twice with the same warranty is the same as once: the second call, at any
  later time, reports no change, returns the same state, reason and signature, and leaves the
  database as it is.\<close>

theorem syncBadge_idempotent:
  assumes "syncBadge hmac sec now t a inp db = Inr (r, db')"
  shows "syncBadge hmac sec later t a2 inp db' = Inr (r\<lparr>sr_changed := False\<rparr>, db')"
proof -
  obtain b where b: "find_badge db' t = Some b" using syncBadge_shown(1) [OF assms] by (auto simp: shown_def)
  from syncBadge_again [OF syncBadge_shown(1) [OF assms] b] show ?thesis
    using syncBadge_shown(3) [OF assms b] by (cases r) simp
qed

text \<open>C3: In every state a deployment can reach by synchronisations and boots with any of its
  configured secrets, and for an ASCII query, the public endpoint answers exactly by the HMAC: the badge, fresh,
  for the signature of its stored state under the current secret; the badge, marked stale, for the
  signature under the previous secret; and the same 404 for everything else, an unknown tenant
  included. \<open>hex_digest\<close> is the documented format of \<open>digest("hex")\<close>, and the fingerprints of the
  configured secrets do not collide.\<close>

theorem badge_endpoint_exact:
  assumes "hex_digest hmac" "inj_on sha S"
    "reach (dep_init hmac sha S) (dep_step hmac sha S) (sec, db)"
    "ascii_units presented"
  shows "getBadgeState hmac sec t presented db =
    (case find_badge db t of
       None \<Rightarrow> NotFound404
     | Some b \<Rightarrow>
         if presented = hmac (current sec) (badge_text b) then Ok200 (view_of b False)
         else if \<exists>p. nonempty (previous sec) = Some p \<and> presented = hmac p (badge_text b)
         then Ok200 (view_of b True)
         else NotFound404)"
proof (cases "find_badge db t")
  case None
  then show ?thesis by (simp add: getBadgeState_def)
next
  case (Some b)
  then show ?thesis
    using getBadgeState_signed [OF assms(1) Some dep_signed(1) [OF assms(3,2) Some] assms(4)] by simp
qed

text \<open>A query whose signature has the right length but holds a non-ASCII character is not
  answered uniformly: for a tenant with a badge \<open>timingSafeEqual\<close> throws on the unequal UTF-8
  lengths and the answer is a 500, for an unknown tenant it is a 404, so the endpoint tells which
  tenants exist.\<close>

theorem badge_endpoint_oracle:
  assumes "hex_digest hmac" "find_badge db t = Some b" "signed_with hmac k b"
    "find_badge db u = None" "length presented = 64" "\<not> ascii_units presented"
  shows "getBadgeState hmac sec t presented db = ServerError500
    \<and> getBadgeState hmac sec u presented db = NotFound404"
proof -
  have "length (state_signature b) = 64 \<and> ascii_units (state_signature b)"
    using hex_digestD [OF assms(1)] assms(3) by (simp add: signed_with_def)
  then have "safeEqual presented (state_signature b) = Inl RangeError"
    using assms(5,6) by (intro safeEqual_non_ascii) auto
  then show ?thesis using assms(2,4,5) by (auto simp: getBadgeState_def)
qed

text \<open>What a rotation does. Booting a reachable deployment with a new secret while the old one is
  kept as the previous secret re-signs every badge: a copy embedded before the boot is still
  answered with the badge, now marked stale (unless both secrets give it the same signature), the
  re-signed copy is answered fresh, and the displayed state does not change. A second boot with the
  same secret re-signs nothing.\<close>

theorem rotation_keeps_badges_alive:
  assumes "hex_digest hmac" "inj_on sha S"
    "reach (dep_init hmac sha S) (dep_step hmac sha S) (sec, db)"
    "current new \<in> S" "current new \<noteq> current sec" "nonempty (previous new) = Some (current sec)"
    "detectAndApplyRotation hmac sha new now db = (out, db')"
    "find_badge db t = Some b"
  shows "out = (Rotated, length (badges db))
    \<and> fst (detectAndApplyRotation hmac sha new later db') = (Unchanged, 0)
    \<and> (\<exists>b'. find_badge db' t = Some b' \<and> badge_text b' = badge_text b
         \<and> shown (Some b') = shown (Some b)
         \<and> getBadgeState hmac new t (state_signature b') db' = Ok200 (view_of b' False)
         \<and> getBadgeState hmac new t (state_signature b) db' =
             Ok200 (view_of b' (state_signature b \<noteq> state_signature b')))"
proof -
  have inv: "dep_inv hmac sha S (sec, db)" using assms(3) by (rule dep.reach_inv)
  then obtain p where p: "secret db = Some p" "fingerprint p = sha (current sec)" "current sec \<in> S"
    by (auto simp: dep_inv_def)
  have fp: "fingerprint p \<noteq> sha (current new)" using p assms(2,4,5) by (auto dest: inj_onD)
  let ?sign = "\<lambda>b :: badge. b\<lparr>state_signature := signBadgeState hmac new (b_tenant b) (badge_name (b_state b))
                      (iso_string (state_changed_at b)), b_updated_at := now\<rparr>"
  have det: "out = (Rotated, length (badges db))" "badges db' = map ?sign (badges db)"
    "secret db' = Some (p\<lparr>fingerprint := sha (current new), last_seen_at := now, last_rotated_at := now\<rparr>)"
    using assms(7) p fp
    by (auto simp: detectAndApplyRotation_def getCurrentSecretFingerprint_def resignAllBadges_def Let_def)
  have again: "fst (detectAndApplyRotation hmac sha new later db') = (Unchanged, 0)"
    by (simp add: detectAndApplyRotation_def getCurrentSecretFingerprint_def det(3))
  have find': "find_badge db' t = Some (?sign b)"
    using assms(8) det(2) find_map_keyed [of b_tenant ?sign] by (simp add: find_badge_def)
  have old: "state_signature b = hmac (current sec) (badge_text b)"
    using dep_signed(1) [OF assms(3,2,8)] by (simp add: signed_with_def badge_text_def)
  have btext: "badge_text (?sign b) = badge_text b" by (simp add: badge_text_def)
  have new: "signed_with hmac (current new) (?sign b)" "state_signature (?sign b) = hmac (current new) (badge_text b)"
    by (simp_all add: signed_with_def signBadgeState_def badge_text_def)
  have asc: "ascii_units (hmac k m)" for k m using hex_digestD [OF assms(1)] by simp
  have "getBadgeState hmac new t (state_signature (?sign b)) db' = Ok200 (view_of (?sign b) False)"
    by (subst getBadgeState_signed [OF assms(1) find' new(1)]) (simp_all add: new(2) asc btext)
  moreover have "getBadgeState hmac new t (state_signature b) db' =
      Ok200 (view_of (?sign b) (state_signature b \<noteq> state_signature (?sign b)))"
    by (subst getBadgeState_signed [OF assms(1) find' new(1)])
      (auto simp: new(2) old asc btext assms(6))
  ultimately show ?thesis using det(1) again find' btext
    by (intro conjI exI [of _ "?sign b"]) (simp_all add: shown_def)
qed

text \<open>A signature binds the tenant, the state and the time: the signed text determines all
  three, whatever the tenant id holds, because neither a state name nor a timestamp holds the
  separator.\<close>

theorem badge_message_binds:
  assumes "badge_message t (badge_name s) at1 = badge_message t' (badge_name s') at2"
    "CHR ''|'' \<notin> set at1" "CHR ''|'' \<notin> set at2"
  shows "t = t' \<and> s = s' \<and> at1 = at2"
proof -
  have "t = t' \<and> badge_name s = badge_name s' \<and> at1 = at2"
    using assms badge_name_no_sep by (intro badge_message_inject) auto
  then show ?thesis by (cases s; cases s') simp_all
qed

subsection \<open>A concrete deployment\<close>

definition demo_hmac :: "string \<Rightarrow> string \<Rightarrow> ustring" where
  "demo_hmac k m = take 64 (map (\<lambda>c. code c mod 128) (k @ m) @ replicate 64 48)"

definition demo_sec :: "string \<Rightarrow> string option \<Rightarrow> resolved_secrets" where
  "demo_sec k p = \<lparr>current = k, previous = p, isDevFallback = False\<rparr>"

definition demo_db :: gov_db where
  "demo_db = \<lparr>accounts = [\<lparr>acc_id = ''a'', acc_tenant = ''t''\<rparr>], users = [], metrics = [], warranties = [],
     badges = [], history = [], audit = [],
     secret = Some \<lparr>fingerprint = ''k1'', last_seen_at = 0, last_rotated_at = 0\<rparr>\<rparr>"

definition demo_inputs :: badge_inputs where
  "demo_inputs = \<lparr>in_policy_state = Some VOID_BY_COMPLIANCE_DRIFT, in_evidence = Some (EvDrift 12 10 30)\<rparr>"

definition demo_badge :: badge where
  "demo_badge = \<lparr>b_tenant = ''t'', b_account = ''a'', b_state = Red,
     state_signature = signBadgeState demo_hmac (demo_sec ''k1'' None) ''t'' ''red'' (iso_string 0),
     state_reason = snd (computeBadgeState demo_inputs), state_changed_at = 0, b_created_at = 0,
     b_updated_at = 0\<rparr>"

definition demo_synced :: gov_db where
  "demo_synced = demo_db\<lparr>badges := [demo_badge],
     history := [\<lparr>h_tenant = ''t'', h_account = ''a'', from_state = None, to_state = Red,
       h_reason = state_reason demo_badge, changed_at = 0\<rparr>]\<rparr>"

definition demo_result :: sync_result where
  "demo_result = \<lparr>sr_state = Red, sr_reason = state_reason demo_badge, sr_changed = True,
     sr_signature = state_signature demo_badge\<rparr>"

lemma demo_sync:
  "syncBadge demo_hmac (demo_sec ''k1'' None) 0 ''t'' ''a'' demo_inputs demo_db = Inr (demo_result, demo_synced)"
  by (simp add: syncBadge_def find_badge_def account_exists_def demo_inputs_def demo_db_def
      demo_synced_def demo_result_def demo_badge_def computeBadgeState_def Let_def)

lemma demo_hex: "hex_digest demo_hmac"
  by (auto simp: hex_digest_def demo_hmac_def ascii_units_def dest!: in_set_takeD)

lemma demo_reach:
  "reach (dep_init demo_hmac id {''k1'', ''k2''}) (dep_step demo_hmac id {''k1'', ''k2''})
     (demo_sec ''k1'' None, demo_synced)"
proof (rule reach_step [OF reach_init])
  show "dep_step demo_hmac id {''k1'', ''k2''} (demo_sec ''k1'' None, demo_db) (demo_sec ''k1'' None, demo_synced)"
    by (rule dep_sync [OF demo_sync])
  show "dep_init demo_hmac id {''k1'', ''k2''} (demo_sec ''k1'' None, demo_db)"
    unfolding dep_init_def
    by (intro exI [of _ "demo_sec ''k1'' None"] exI [of _ 0] exI [of _ "(Established, 0)"]
        exI [of _ "demo_db\<lparr>secret := None\<rparr>"])
      (simp add: demo_sec_def demo_db_def detectAndApplyRotation_def getCurrentSecretFingerprint_def)
qed

lemma demo_find: "find_badge demo_synced ''t'' = Some demo_badge" "find_badge demo_synced ''u'' = None"
  by (simp_all add: find_badge_def demo_synced_def demo_badge_def)

theorem syncBadge_correct_witness:
  "\<exists>b. find_badge demo_synced ''t'' = Some b \<and> (b_state b, state_reason b) = computeBadgeState demo_inputs"
  using syncBadge_correct [OF demo_sync] by blast

theorem syncBadge_idempotent_witness:
  "syncBadge demo_hmac (demo_sec ''k1'' None) 5 ''t'' ''a'' demo_inputs demo_synced =
     Inr (demo_result\<lparr>sr_changed := False\<rparr>, demo_synced)"
  by (rule syncBadge_idempotent [OF demo_sync])

theorem badge_endpoint_exact_witness:
  "getBadgeState demo_hmac (demo_sec ''k1'' None) ''t'' (units ''forged'') demo_synced = NotFound404"
proof -
  have "length (units ''forged'') \<noteq> length (demo_hmac ''k1'' (badge_text demo_badge))"
    using hex_digestD [OF demo_hex] by (simp add: units_def)
  then have "units ''forged'' \<noteq> demo_hmac ''k1'' (badge_text demo_badge)" by auto
  then show ?thesis
    by (subst badge_endpoint_exact [OF demo_hex _ demo_reach])
      (simp_all add: demo_find nonempty_def demo_sec_def ascii_units_def units_def)
qed

theorem badge_endpoint_oracle_witness:
  "getBadgeState demo_hmac (demo_sec ''k1'' None) ''t'' (replicate 64 233) demo_synced = ServerError500
   \<and> getBadgeState demo_hmac (demo_sec ''k1'' None) ''u'' (replicate 64 233) demo_synced = NotFound404"
  by (rule badge_endpoint_oracle [OF demo_hex demo_find(1) _ demo_find(2), where k = "''k1''"])
    (simp_all add: signed_with_def demo_badge_def signBadgeState_def demo_sec_def ascii_units_def)

theorem rotation_keeps_badges_alive_witness:
  "fst (detectAndApplyRotation demo_hmac id (demo_sec ''k2'' (Some ''k1'')) 7 demo_synced) = (Rotated, 1)"
  using rotation_keeps_badges_alive [OF demo_hex _ demo_reach, where new = "demo_sec ''k2'' (Some ''k1'')"
      and now = 7 and t = "''t''" and b = demo_badge, OF _ _ _ _ surjective_pairing demo_find(1)]
  by (simp add: demo_sec_def nonempty_def) (simp add: demo_synced_def)

theorem badge_message_binds_witness:
  "\<not> (badge_message ''t|green'' (badge_name Red) ''2026'' = badge_message ''t'' (badge_name Green) ''2026'')"
  using badge_message_binds [where t = "''t|green''" and s = Red and ?at1.0 = "''2026''" and t' = "''t''"
      and s' = Green and ?at2.0 = "''2026''"] by auto

end
