(* ===== verification/Warranty.thy ===== *)
theory Warranty
  imports Badge
begin

section \<open>AI warranties: the policy state machine and its recomputation\<close>

text \<open>
  The models of src/routes/insurance.ts, src/lib/recompute-scheduler.ts and src/routes/admin.ts,
  over the database \<open>gov_db\<close> of the badge theory. A handler takes the request's caller (what
  \<open>requireAccessToken\<close> put on the request), the validated input and the database, and returns the
  response with the new database; a statement that fails inside a transaction rolls it back and
  becomes a 500. Random ids are arguments (\<open>uuid\<close>), clock readings are \<open>now\<close>.
\<close>

definition ANOMALY_RATIO_THRESHOLD :: rat where "ANOMALY_RATIO_THRESHOLD = rnd (2 / 100)"
definition ANOMALY_WINDOW_DAYS :: int where "ANOMALY_WINDOW_DAYS = 7"
definition DRIFT_BOUNDARY_THRESHOLD :: int where "DRIFT_BOUNDARY_THRESHOLD = 10"
definition DRIFT_WINDOW_DAYS :: int where "DRIFT_WINDOW_DAYS = 30"

definition isoDaysAgo :: "time \<Rightarrow> int \<Rightarrow> time" where
  "isoDaysAgo now days = now - days * 86400000"

record caller =
  caasUserId :: "string option"
  caasTenantId :: "string option"

definition getActorId :: "caller \<Rightarrow> string" where
  "getActorId c = (case caasUserId c of Some u \<Rightarrow> u | None \<Rightarrow> ''system'')"

definition getTenantId :: "caller \<Rightarrow> string" where
  "getTenantId c = (case caasTenantId c of Some t \<Rightarrow> t | None \<Rightarrow> '''')"

definition isCallerSuperAdmin :: "caller \<Rightarrow> gov_db \<Rightarrow> bool" where
  "isCallerSuperAdmin c db =
     (case nonempty (caasUserId c) of
        None \<Rightarrow> False
      | Some uid \<Rightarrow>
          (case List.find (\<lambda>u. usr_id u = uid) (users db) of
             None \<Rightarrow> False
           | Some u \<Rightarrow> plane_role u = Some ''global_super_admin''))"

subsection \<open>Evaluation and transition\<close>

definition total_requests :: "time \<Rightarrow> string \<Rightarrow> gov_db \<Rightarrow> int" where
  "total_requests now t db = int (count_where
     (\<lambda>m. user_tenant_id m = Some t \<and> isoDaysAgo now ANOMALY_WINDOW_DAYS < evaluated_at m) (metrics db))"

definition denied_requests :: "time \<Rightarrow> string \<Rightarrow> gov_db \<Rightarrow> int" where
  "denied_requests now t db = int (count_where
     (\<lambda>m. user_tenant_id m = Some t \<and> isoDaysAgo now ANOMALY_WINDOW_DAYS < evaluated_at m
        \<and> \<not> access_granted m) (metrics db))"

definition boundary_crossings :: "time \<Rightarrow> string \<Rightarrow> gov_db \<Rightarrow> int" where
  "boundary_crossings now t db = int (count_where
     (\<lambda>m. user_tenant_id m = Some t \<and> is_boundary_crossing m
        \<and> isoDaysAgo now DRIFT_WINDOW_DAYS < evaluated_at m) (metrics db))"

definition evaluatePolicyState :: "time \<Rightarrow> string \<Rightarrow> gov_db \<Rightarrow> policy_state \<times> evidence" where
  "evaluatePolicyState now tenantId db =
     (let total = total_requests now tenantId db;
          denied = denied_requests now tenantId db;
          ratio = (if total > 0 then fdiv (of_int denied) (of_int total) else 0)
      in if total > 0 \<and> ratio > ANOMALY_RATIO_THRESHOLD then
           (VOID_BY_ANOMALY_RATIO,
            EvAnomaly ratio ANOMALY_RATIO_THRESHOLD ANOMALY_WINDOW_DAYS total denied)
         else
           let crossings = boundary_crossings now tenantId db
           in if crossings \<ge> DRIFT_BOUNDARY_THRESHOLD then
                (VOID_BY_COMPLIANCE_DRIFT, EvDrift crossings DRIFT_BOUNDARY_THRESHOLD DRIFT_WINDOW_DAYS)
              else (ACTIVE, EvActive ratio ANOMALY_RATIO_THRESHOLD crossings now))"

record recompute_result =
  previous_state :: policy_state
  current_state :: policy_state
  changed :: bool
  r_evidence :: evidence

definition applyStateTransition ::
  "time \<Rightarrow> warranty \<Rightarrow> policy_state \<Rightarrow> evidence \<Rightarrow> string option \<Rightarrow> gov_db \<Rightarrow> recompute_result \<times> gov_db" where
  "applyStateTransition now w newState ev actor db =
     (if policy_state w = newState then
        (\<lparr>previous_state = policy_state w, current_state = newState, changed = False, r_evidence = ev\<rparr>, db)
      else
        let db1 = db\<lparr>warranties := update_where (\<lambda>x. wid x = wid w \<and> w_tenant x = w_tenant w)
                (\<lambda>x. x\<lparr>policy_state := newState, state_evidence := ev, w_state_changed_at := now,
                       w_updated_at := now\<rparr>) (warranties db)\<rparr>;
            db2 = commercialAuditLog (w_tenant w) actor ''warranty'' (wid w) ''state_change''
                (Some (AuditState (policy_state w))) (Some (AuditState newState))
                (Some (MetaEvidence ev)) now db1
        in (\<lparr>previous_state = policy_state w, current_state = newState, changed = True, r_evidence = ev\<rparr>, db2))"

text \<open>The transaction that \<open>recomputePolicy\<close> and the scheduler share.\<close>

definition recompute_tx ::
  "(string \<Rightarrow> string \<Rightarrow> ustring) \<Rightarrow> resolved_secrets \<Rightarrow> time \<Rightarrow> string option \<Rightarrow> warranty \<Rightarrow> gov_db
   \<Rightarrow> recompute_result \<times> (db_error + sync_result \<times> gov_db)" where
  "recompute_tx hmac sec now actor w db =
     (let (st, ev) = evaluatePolicyState now (w_tenant w) db;
          (r, db1) = applyStateTransition now w st ev actor db
      in (r, syncBadge hmac sec now (w_tenant w) (w_account w)
               \<lparr>in_policy_state = Some (current_state r), in_evidence = Some ev\<rparr> db1))"

subsection \<open>Handlers\<close>

definition find_warranty :: "gov_db \<Rightarrow> string \<Rightarrow> warranty option" where
  "find_warranty db i = List.find (\<lambda>w. wid w = i) (warranties db)"

definition find_account :: "gov_db \<Rightarrow> string \<Rightarrow> account option" where
  "find_account db i = List.find (\<lambda>a. acc_id a = i) (accounts db)"

text \<open>\<open>ORDER BY state_changed_at DESC\<close>: a stable sort; SQL leaves the order of ties open.\<close>

definition listPolicies :: "caller \<Rightarrow> gov_db \<Rightarrow> warranty list \<times> nat" where
  "listPolicies c db =
     (let rs = sort_key (\<lambda>w. - w_state_changed_at w)
                 (filter (\<lambda>w. w_tenant w = getTenantId c) (warranties db))
      in (rs, length rs))"

definition may_access :: "caller \<Rightarrow> string \<Rightarrow> gov_db \<Rightarrow> bool" where
  "may_access c tenant db \<longleftrightarrow> tenant = getTenantId c \<or> isCallerSuperAdmin c db"

definition getPolicy :: "caller \<Rightarrow> string \<Rightarrow> gov_db \<Rightarrow> warranty http" where
  "getPolicy c i db =
     (case find_warranty db i of
        None \<Rightarrow> NotFound404
      | Some w \<Rightarrow> if \<not> may_access c (w_tenant w) db then NotFound404 else Ok200 w)"

definition new_warranty :: "string \<Rightarrow> account \<Rightarrow> string option \<Rightarrow> time \<Rightarrow> warranty" where
  "new_warranty uuid a ends now =
     \<lparr>wid = uuid, w_tenant = acc_tenant a, w_account = acc_id a, policy_state = ACTIVE,
      external_carrier_id = None, external_policy_number = None, state_evidence = EvNone,
      coverage_started_at = now, coverage_ends_at = ends, w_state_changed_at = now,
      w_created_at = now, w_updated_at = now\<rparr>"

definition bindPolicy ::
  "(string \<Rightarrow> string \<Rightarrow> ustring) \<Rightarrow> resolved_secrets \<Rightarrow> time \<Rightarrow> string \<Rightarrow> caller \<Rightarrow> string \<Rightarrow> string option
   \<Rightarrow> gov_db \<Rightarrow> warranty http \<times> gov_db" where
  "bindPolicy hmac sec now uuid c accountId ends db =
     (case find_account db accountId of
        None \<Rightarrow> (NotFound404, db)
      | Some a \<Rightarrow>
          if \<not> may_access c (acc_tenant a) db then (NotFound404, db)
          else if find_warranty db uuid \<noteq> None then (ServerError500, db)
          else
            let w = new_warranty uuid a ends now;
                db1 = db\<lparr>warranties := warranties db @ [w]\<rparr>
            in case syncBadge hmac sec now (acc_tenant a) (acc_id a)
                      \<lparr>in_policy_state = Some ACTIVE, in_evidence = None\<rparr> db1 of
                 Inl _ \<Rightarrow> (ServerError500, db)
               | Inr (_, db2) \<Rightarrow>
                   (Created201 w,
                    commercialAuditLog (acc_tenant a) (Some (getActorId c)) ''warranty'' uuid ''bind'' None
                      (Some (AuditState ACTIVE)) (Some (MetaBind accountId ends)) now db2))"

definition recomputePolicy ::
  "(string \<Rightarrow> string \<Rightarrow> ustring) \<Rightarrow> resolved_secrets \<Rightarrow> time \<Rightarrow> caller \<Rightarrow> string \<Rightarrow> gov_db
   \<Rightarrow> (recompute_result \<times> sync_result) http \<times> gov_db" where
  "recomputePolicy hmac sec now c i db =
     (case find_warranty db i of
        None \<Rightarrow> (NotFound404, db)
      | Some w \<Rightarrow>
          if \<not> may_access c (w_tenant w) db then (NotFound404, db)
          else case recompute_tx hmac sec now (Some (getActorId c)) w db of
                 (r, Inl _) \<Rightarrow> (ServerError500, db)
               | (r, Inr (b, db')) \<Rightarrow> (Ok200 (r, b), db'))"

definition or_else :: "'a option \<Rightarrow> 'a option \<Rightarrow> 'a option" where
  "or_else a b = (case a of Some x \<Rightarrow> Some x | None \<Rightarrow> b)"

definition attachExternal ::
  "time \<Rightarrow> caller \<Rightarrow> string \<Rightarrow> string option \<Rightarrow> string option \<Rightarrow> gov_db \<Rightarrow> (string \<times> time) http \<times> gov_db" where
  "attachExternal now c i carrier number db =
     (case find_warranty db i of
        None \<Rightarrow> (NotFound404, db)
      | Some w \<Rightarrow>
          if \<not> may_access c (w_tenant w) db then (NotFound404, db)
          else
            let carrier' = or_else carrier (external_carrier_id w);
                number' = or_else number (external_policy_number w);
                db1 = db\<lparr>warranties := update_where (\<lambda>x. wid x = i \<and> w_tenant x = w_tenant w)
                   (\<lambda>x. x\<lparr>external_carrier_id := carrier', external_policy_number := number',
                          w_updated_at := now\<rparr>) (warranties db)\<rparr>
            in (Ok200 (i, now),
                commercialAuditLog (w_tenant w) (Some (getActorId c)) ''warranty'' i ''external_attach''
                  (Some (AuditExternal (external_carrier_id w) (external_policy_number w)))
                  (Some (AuditExternal carrier' number')) None now db1))"

subsection \<open>The scheduled scan\<close>

record run_summary =
  scanned :: nat
  state_changes :: nat
  badge_changes :: nat
  errors :: nat

text \<open>
  One iteration: the counters are variables of the function and keep their increments when the
  transaction rolls back.
\<close>

definition scan_one ::
  "(string \<Rightarrow> string \<Rightarrow> ustring) \<Rightarrow> resolved_secrets \<Rightarrow> time \<Rightarrow> warranty \<Rightarrow> run_summary \<times> gov_db
   \<Rightarrow> run_summary \<times> gov_db" where
  "scan_one hmac sec now w s =
     (let (r, out) = recompute_tx hmac sec now None w (snd s);
          sm = (fst s)\<lparr>scanned := scanned (fst s) + 1,
                       state_changes := state_changes (fst s) + (if changed r then 1 else 0)\<rparr>
      in case out of
           Inl _ \<Rightarrow> (sm\<lparr>errors := errors sm + 1\<rparr>, snd s)
         | Inr (b, db') \<Rightarrow> (sm\<lparr>badge_changes := badge_changes sm + (if sr_changed b then 1 else 0)\<rparr>, db'))"

definition recomputeAllWarranties ::
  "(string \<Rightarrow> string \<Rightarrow> ustring) \<Rightarrow> resolved_secrets \<Rightarrow> time \<Rightarrow> gov_db \<Rightarrow> run_summary \<times> gov_db" where
  "recomputeAllWarranties hmac sec now db =
     fold (scan_one hmac sec now) (filter (\<lambda>w. policy_state w = ACTIVE) (warranties db))
       (\<lparr>scanned = 0, state_changes = 0, badge_changes = 0, errors = 0\<rparr>, db)"

text \<open>
  The timer handle kept in \<open>app.locals\<close>: \<open>startScheduler\<close> gives the handle (None when disabled) and
  the new locals, \<open>stop\<close> clears it.
\<close>

record scheduler_env =
  RECOMPUTE_SCHEDULER_ENABLED :: "string option"

definition DEFAULT_INTERVAL_MS :: int where "DEFAULT_INTERVAL_MS = 5 * 60 * 1000"

definition startScheduler ::
  "scheduler_env \<Rightarrow> int option \<Rightarrow> int option \<Rightarrow> int option \<times> int option" where
  "startScheduler env opt handle =
     (if RECOMPUTE_SCHEDULER_ENABLED env = Some ''false'' then (None, handle)
      else case handle of
             Some h \<Rightarrow> (Some h, handle)
           | None \<Rightarrow>
               let iv = (case opt of Some v \<Rightarrow> v | None \<Rightarrow> DEFAULT_INTERVAL_MS) in (Some iv, Some iv))"

subsection \<open>Evaluation in integers\<close>

text \<open>
  The ratio is a double; for windows of up to \<open>2 ^ 43\<close> rows its comparisons with the thresholds
  are the exact integer ones.
\<close>

lemma denied_le_total: "denied_requests now t db \<le> total_requests now t db"
  unfolding denied_requests_def total_requests_def by (auto intro!: count_where_mono)

lemma counts_nonneg [simp]:
  "0 \<le> total_requests now t db" "0 \<le> denied_requests now t db" "0 \<le> boundary_crossings now t db"
  by (simp_all add: denied_requests_def total_requests_def boundary_crossings_def)

definition anomaly_ratio :: "time \<Rightarrow> string \<Rightarrow> gov_db \<Rightarrow> rat" where
  "anomaly_ratio now t db = (if total_requests now t db > 0
     then fdiv (of_int (denied_requests now t db)) (of_int (total_requests now t db)) else 0)"

lemma ratio_less_iff:
  fixes p q :: int
  assumes "200 * total_requests now t db \<le> 2 ^ 50" "0 < p" "p \<le> q" "q \<le> 200"
  shows "anomaly_ratio now t db < rnd (of_int p / of_int q) \<longleftrightarrow>
           denied_requests now t db * q < p * total_requests now t db \<or> total_requests now t db = 0"
    and "rnd (of_int p / of_int q) < anomaly_ratio now t db \<longleftrightarrow>
           p * total_requests now t db < denied_requests now t db * q"
proof -
  let ?t = "total_requests now t db" and ?d = "denied_requests now t db"
  have q: "0 < q" using assms by simp
  have "q * ?t \<le> 200 * ?t" using assms(4) by (intro mult_right_mono) simp_all
  then have b: "q * ?t \<le> 2 ^ 50" using assms(1) by simp
  have pos: "(0::rat) < rnd (of_int p / of_int q)"
    using rnd_frac_less [of 0 1 p q] assms q by simp
  have t0: "?t \<noteq> 0 \<Longrightarrow> 0 < ?t" using counts_nonneg(1) [of now t db] by linarith
  show "anomaly_ratio now t db < rnd (of_int p / of_int q) \<longleftrightarrow> ?d * q < p * ?t \<or> ?t = 0"
    using rnd_frac_less_iff(1) [OF counts_nonneg(2) denied_le_total _ _ assms(3) q b] assms(2) pos t0
    by (cases "?t = 0") (auto simp: anomaly_ratio_def fdiv_def)
  have d0: "?t = 0 \<Longrightarrow> ?d = 0" using counts_nonneg(2) [of now t db] denied_le_total [of now t db] by linarith
  show "rnd (of_int p / of_int q) < anomaly_ratio now t db \<longleftrightarrow> p * ?t < ?d * q"
  proof (cases "?t = 0")
    case True
    then show ?thesis using d0 pos by (simp add: anomaly_ratio_def)
  next
    case False
    then show ?thesis
      using rnd_frac_less_iff(2) [OF counts_nonneg(2) denied_le_total t0 _ assms(3) q b] assms(2) t0
      by (simp add: anomaly_ratio_def fdiv_def)
  qed
qed

lemma thresholds:
  "ANOMALY_RATIO_THRESHOLD = rnd (of_int 1 / of_int 50)"
  "fmul ANOMALY_RATIO_THRESHOLD AMBER_THRESHOLD_RATIO = rnd (of_int 3 / of_int 200)"
proof -
  show "ANOMALY_RATIO_THRESHOLD = rnd (of_int 1 / of_int 50)" by (simp add: ANOMALY_RATIO_THRESHOLD_def)
  have "fmul (rnd (2 / 100)) (rnd (75 / 100)) = rnd (3 / 200)" by code_simp
  then show "fmul ANOMALY_RATIO_THRESHOLD AMBER_THRESHOLD_RATIO = rnd (of_int 3 / of_int 200)"
    by (simp add: ANOMALY_RATIO_THRESHOLD_def AMBER_THRESHOLD_RATIO_def)
qed

text \<open>The verdict and the badge as integer functions of the three counts.\<close>

definition verdict :: "int \<Rightarrow> int \<Rightarrow> int \<Rightarrow> policy_state" where
  "verdict n d c =
     (if n < 50 * d then VOID_BY_ANOMALY_RATIO
      else if 10 \<le> c then VOID_BY_COMPLIANCE_DRIFT else ACTIVE)"

definition badge_verdict :: "int \<Rightarrow> int \<Rightarrow> int \<Rightarrow> badge_state" where
  "badge_verdict n d c =
     (if verdict n d c \<noteq> ACTIVE then Red
      else if 3 * n \<le> 200 * d \<and> 50 * d < n then Amber else Green)"

lemma evaluate_eq:
  "evaluatePolicyState now t db =
     (if total_requests now t db > 0 \<and> anomaly_ratio now t db > ANOMALY_RATIO_THRESHOLD then
        (VOID_BY_ANOMALY_RATIO, EvAnomaly (anomaly_ratio now t db) ANOMALY_RATIO_THRESHOLD
           ANOMALY_WINDOW_DAYS (total_requests now t db) (denied_requests now t db))
      else if boundary_crossings now t db \<ge> DRIFT_BOUNDARY_THRESHOLD then
        (VOID_BY_COMPLIANCE_DRIFT, EvDrift (boundary_crossings now t db) DRIFT_BOUNDARY_THRESHOLD DRIFT_WINDOW_DAYS)
      else (ACTIVE, EvActive (anomaly_ratio now t db) ANOMALY_RATIO_THRESHOLD (boundary_crossings now t db) now))"
  by (simp add: evaluatePolicyState_def anomaly_ratio_def Let_def)

lemma evaluate_verdict:
  assumes "200 * total_requests now t db \<le> 2 ^ 50"
  shows "fst (evaluatePolicyState now t db) =
    verdict (total_requests now t db) (denied_requests now t db) (boundary_crossings now t db)"
proof -
  have "ANOMALY_RATIO_THRESHOLD < anomaly_ratio now t db \<longleftrightarrow>
      total_requests now t db < denied_requests now t db * 50"
    unfolding thresholds(1) using ratio_less_iff(2) [OF assms, of 1 50] by simp
  then show ?thesis using denied_le_total [of now t db] counts_nonneg(1,2) [of now t db]
    by (auto simp: evaluate_eq verdict_def DRIFT_BOUNDARY_THRESHOLD_def)
qed

lemma badge_verdict_eq:
  assumes "200 * total_requests now t db \<le> 2 ^ 50" "evaluatePolicyState now t db = (st, ev)"
  shows "fst (computeBadgeState \<lparr>in_policy_state = Some st, in_evidence = Some ev\<rparr>) =
    badge_verdict (total_requests now t db) (denied_requests now t db) (boundary_crossings now t db)"
proof -
  let ?t = "total_requests now t db" and ?d = "denied_requests now t db"
  have v: "st = verdict ?t ?d (boundary_crossings now t db)" using evaluate_verdict [OF assms(1)] assms(2) by simp
  show ?thesis
  proof (cases st)
    case ACTIVE
    have ev: "ev = EvActive (anomaly_ratio now t db) ANOMALY_RATIO_THRESHOLD (boundary_crossings now t db) now"
      using assms(2) ACTIVE by (auto simp: evaluate_eq split: if_splits)
    have pos: "0 < ANOMALY_RATIO_THRESHOLD" unfolding thresholds(1) using rnd_frac_less [of 0 1 1 50] by simp
    have lt: "anomaly_ratio now t db < ANOMALY_RATIO_THRESHOLD \<longleftrightarrow> ?d * 50 < ?t \<or> ?t = 0"
      unfolding thresholds(1) using ratio_less_iff(1) [OF assms(1), of 1 50] by simp
    have le: "fmul ANOMALY_RATIO_THRESHOLD AMBER_THRESHOLD_RATIO \<le> anomaly_ratio now t db \<longleftrightarrow>
        \<not> (?d * 200 < 3 * ?t \<or> ?t = 0)"
      unfolding thresholds(2) using ratio_less_iff(1) [OF assms(1), of 3 200] by (simp add: not_less [symmetric])
    show ?thesis using v ACTIVE denied_le_total [of now t db] counts_nonneg(1,2) [of now t db]
      by (auto simp: computeBadgeState_def ev badge_verdict_def lt le pos)
  qed (use v in \<open>auto simp: computeBadgeState_def badge_verdict_def split: option.splits\<close>)
qed

text \<open>Badges are ordered by severity.\<close>

fun severity_rank :: "badge_state \<Rightarrow> nat" where
  "severity_rank Green = 0"
| "severity_rank Amber = 1"
| "severity_rank Red = 2"

lemma severity_rank_inject [simp]: "severity_rank a = severity_rank b \<longleftrightarrow> a = b"
  by (cases a; cases b) simp_all

instantiation badge_state :: linorder
begin

definition less_eq_badge_state :: "badge_state \<Rightarrow> badge_state \<Rightarrow> bool" where
  "less_eq_badge_state a b \<longleftrightarrow> severity_rank a \<le> severity_rank b"

definition less_badge_state :: "badge_state \<Rightarrow> badge_state \<Rightarrow> bool" where
  "less_badge_state a b \<longleftrightarrow> severity_rank a < severity_rank b"

instance
proof
  show "x \<le> y \<Longrightarrow> y \<le> x \<Longrightarrow> x = y" for x y :: badge_state
    unfolding less_eq_badge_state_def by (simp flip: severity_rank_inject)
qed (auto simp: less_eq_badge_state_def less_badge_state_def)

end

lemma badge_verdict_mono:
  assumes "0 \<le> d" "d \<le> d2" "c \<le> c2" "n \<noteq> 50 * d2"
  shows "badge_verdict n d c \<le> badge_verdict n d2 c2"
  using assms by (auto simp: badge_verdict_def verdict_def less_eq_badge_state_def)

subsection \<open>What a transaction changes\<close>

definition transitioned :: "policy_state \<Rightarrow> evidence \<Rightarrow> time \<Rightarrow> warranty \<Rightarrow> warranty" where
  "transitioned st ev now w = w\<lparr>policy_state := st, state_evidence := ev, w_state_changed_at := now,
     w_updated_at := now\<rparr>"

lemma transitioned_sel [simp]:
  "wid (transitioned st ev now w) = wid w" "w_tenant (transitioned st ev now w) = w_tenant w"
  "w_account (transitioned st ev now w) = w_account w" "policy_state (transitioned st ev now w) = st"
  "state_evidence (transitioned st ev now w) = ev"
  by (simp_all add: transitioned_def)

interpretation transition_rows: keyed_update wid "transitioned st ev now" for st ev now
  by unfold_locales simp

interpretation external_rows: keyed_update wid
    "\<lambda>x. x\<lparr>external_carrier_id := c, external_policy_number := n, w_updated_at := now\<rparr>" for c n now
  by unfold_locales simp

definition same_row :: "warranty \<Rightarrow> warranty \<Rightarrow> bool" where
  "same_row w x \<longleftrightarrow> wid x = wid w \<and> w_tenant x = w_tenant w"

definition state_change_row :: "warranty \<Rightarrow> string option \<Rightarrow> policy_state \<Rightarrow> evidence \<Rightarrow> time \<Rightarrow> audit_row" where
  "state_change_row w actor st ev now = \<lparr>a_tenant = w_tenant w, a_actor = actor, entity_type = ''warranty'',
     entity_id = wid w, action = ''state_change'', old_value = Some (AuditState (policy_state w)),
     new_value = Some (AuditState st), a_metadata = Some (MetaEvidence ev), a_created_at = now\<rparr>"

lemma applyStateTransition_eq:
  "applyStateTransition now w st ev actor db =
     (\<lparr>previous_state = policy_state w, current_state = st, changed = (policy_state w \<noteq> st), r_evidence = ev\<rparr>,
      if policy_state w = st then db
      else db\<lparr>warranties := update_where (same_row w) (transitioned st ev now) (warranties db),
              audit := audit db @ [state_change_row w actor st ev now]\<rparr>)"
  by (simp add: applyStateTransition_def commercialAuditLog_def state_change_row_def same_row_def [abs_def]
      transitioned_def [abs_def] Let_def)

lemma recompute_txD:
  assumes "recompute_tx hmac sec now actor w db = (r, Inr (b, db'))"
    "evaluatePolicyState now (w_tenant w) db = (st, ev)"
  shows "r = \<lparr>previous_state = policy_state w, current_state = st, changed = (policy_state w \<noteq> st), r_evidence = ev\<rparr>"
    and "warranties db' = (if policy_state w = st then warranties db
           else update_where (same_row w) (transitioned st ev now) (warranties db))"
    and "audit db' = audit db @ (if policy_state w = st then [] else [state_change_row w actor st ev now])"
    and "accounts db' = accounts db" and "users db' = users db" and "metrics db' = metrics db"
    and "secret db' = secret db"
    and "shown (find_badge db' (w_tenant w)) =
           Some (computeBadgeState \<lparr>in_policy_state = Some st, in_evidence = Some ev\<rparr>)"
    and "u \<noteq> w_tenant w \<Longrightarrow> find_badge db' u = find_badge db u"
proof -
  define db1 where "db1 = (if policy_state w = st then db
      else db\<lparr>warranties := update_where (same_row w) (transitioned st ev now) (warranties db),
              audit := audit db @ [state_change_row w actor st ev now]\<rparr>)"
  have r: "r = \<lparr>previous_state = policy_state w, current_state = st, changed = (policy_state w \<noteq> st), r_evidence = ev\<rparr>"
    and sy: "syncBadge hmac sec now (w_tenant w) (w_account w)
        \<lparr>in_policy_state = Some st, in_evidence = Some ev\<rparr> db1 = Inr (b, db')"
    using assms by (auto simp: recompute_tx_def applyStateTransition_eq db1_def)
  show "r = \<lparr>previous_state = policy_state w, current_state = st, changed = (policy_state w \<noteq> st), r_evidence = ev\<rparr>"
    by (rule r)
  note fr = syncBadge_frame [OF sy] and sh = syncBadge_shown [OF sy]
  show "warranties db' = (if policy_state w = st then warranties db
           else update_where (same_row w) (transitioned st ev now) (warranties db))"
    "audit db' = audit db @ (if policy_state w = st then [] else [state_change_row w actor st ev now])"
    "accounts db' = accounts db" "users db' = users db" "metrics db' = metrics db" "secret db' = secret db"
    using fr by (simp_all add: db1_def)
  show "shown (find_badge db' (w_tenant w)) =
           Some (computeBadgeState \<lparr>in_policy_state = Some st, in_evidence = Some ev\<rparr>)"
    by (rule sh(1))
  show "u \<noteq> w_tenant w \<Longrightarrow> find_badge db' u = find_badge db u"
    using sh(2) [of u] by (simp add: db1_def find_badge_def)
qed

lemma recompute_tx_succeeds:
  assumes "account_exists db (w_account w)"
  obtains r b db' where "recompute_tx hmac sec now actor w db = (r, Inr (b, db'))"
proof -
  obtain st ev where e: "evaluatePolicyState now (w_tenant w) db = (st, ev)" by fastforce
  let ?db1 = "snd (applyStateTransition now w st ev actor db)"
  have acc: "account_exists ?db1 (w_account w)"
    using assms by (simp add: applyStateTransition_eq account_exists_def)
  have "\<exists>b db'. syncBadge hmac sec now (w_tenant w) (w_account w)
        \<lparr>in_policy_state = Some st, in_evidence = Some ev\<rparr> ?db1 = Inr (b, db')"
    by (rule syncBadge_cases [OF refl]) (use acc in auto)
  then show thesis using e by (auto simp: recompute_tx_def applyStateTransition_eq intro: that)
qed

lemma counts_cong:
  assumes "metrics db' = metrics db"
  shows "total_requests now t db' = total_requests now t db"
    "denied_requests now t db' = denied_requests now t db"
    "boundary_crossings now t db' = boundary_crossings now t db"
  using assms by (simp_all add: total_requests_def denied_requests_def boundary_crossings_def)

lemma evaluate_cong:
  assumes "metrics db' = metrics db"
  shows "evaluatePolicyState now t db' = evaluatePolicyState now t db"
  by (simp only: evaluatePolicyState_def counts_cong [OF assms])

lemma find_warranty_SomeD: "find_warranty db i = Some w \<Longrightarrow> w \<in> set (warranties db) \<and> wid w = i"
  unfolding find_warranty_def by (rule find_SomeD)

text \<open>The update of one row, seen through \<open>find_warranty\<close>; ids are a primary key.\<close>

definition unique_ids :: "gov_db \<Rightarrow> bool" where
  "unique_ids db \<longleftrightarrow> distinct (map wid (warranties db))"

lemma same_row_key:
  assumes "unique_ids db" "w \<in> set (warranties db)"
  shows "update_where (same_row w) f (warranties db) = update_where (\<lambda>x. wid x = wid w) f (warranties db)"
proof -
  have "same_row w x \<longleftrightarrow> wid x = wid w" if "x \<in> set (warranties db)" for x
    using assms that by (auto simp: same_row_def unique_ids_def distinct_map dest: inj_onD)
  then show ?thesis by (simp add: update_where_def)
qed

lemma recompute_tx_find:
  assumes "recompute_tx hmac sec now actor w db = (r, Inr (b, db'))"
    "evaluatePolicyState now (w_tenant w) db = (st, ev)" "unique_ids db" "w \<in> set (warranties db)"
  shows "find_warranty db' i = (if i = wid w then Some (if policy_state w = st then w else transitioned st ev now w)
            else find_warranty db i)"
    and "map wid (warranties db') = map wid (warranties db)"
proof -
  have w: "find_warranty db (wid w) = Some w"
    using assms(3,4) unfolding find_warranty_def unique_ids_def by (rule find_distinct_key)
  note d = recompute_txD(2) [OF assms(1,2)] and k = same_row_key [OF assms(3,4)]
  show "map wid (warranties db') = map wid (warranties db)" by (simp add: d transition_rows.keys)
  show "find_warranty db' i = (if i = wid w then Some (if policy_state w = st then w else transitioned st ev now w)
            else find_warranty db i)"
    using w by (auto simp: find_warranty_def d k transition_rows.find_same transition_rows.find_other)
qed

subsection \<open>The scan\<close>

definition due_state :: "time \<Rightarrow> gov_db \<Rightarrow> warranty \<Rightarrow> warranty" where
  "due_state now db w =
     (let (st, ev) = evaluatePolicyState now (w_tenant w) db
      in if policy_state w = st then w else transitioned st ev now w)"

definition due_badge :: "time \<Rightarrow> gov_db \<Rightarrow> string \<Rightarrow> badge_state \<times> string option" where
  "due_badge now db t =
     (let (st, ev) = evaluatePolicyState now t db
      in computeBadgeState \<lparr>in_policy_state = Some st, in_evidence = Some ev\<rparr>)"

lemma due_cong:
  assumes "metrics db' = metrics db"
  shows "due_state now db' = due_state now db" "due_badge now db' = due_badge now db"
  by (simp_all add: fun_eq_iff due_state_def due_badge_def evaluate_cong [OF assms])

lemma due_state_sel [simp]: "wid (due_state now db w) = wid w"
  by (simp add: due_state_def split: prod.split)

lemma scan_one_step:
  assumes "find_warranty db (wid w) = Some w" "unique_ids db" "account_exists db (w_account w)"
  obtains sm' db' where "scan_one hmac sec now w (sm, db) = (sm', db')"
    "scanned sm' = scanned sm + 1" "errors sm' = errors sm"
    "state_changes sm' = state_changes sm + (if due_state now db w = w then 0 else 1)"
    "metrics db' = metrics db" "accounts db' = accounts db" "unique_ids db'"
    "\<And>i. find_warranty db' i = (if i = wid w then Some (due_state now db w) else find_warranty db i)"
    "shown (find_badge db' (w_tenant w)) = Some (due_badge now db (w_tenant w))"
    "\<And>u. u \<noteq> w_tenant w \<Longrightarrow> find_badge db' u = find_badge db u"
proof -
  obtain st ev where e: "evaluatePolicyState now (w_tenant w) db = (st, ev)" by fastforce
  obtain r b db' where t: "recompute_tx hmac sec now None w db = (r, Inr (b, db'))"
    by (rule recompute_tx_succeeds [OF assms(3)])
  note d = recompute_txD [OF t e]
  have w: "w \<in> set (warranties db)" using find_warranty_SomeD [OF assms(1)] by simp
  note f = recompute_tx_find [OF t e assms(2) w]
  have due: "due_state now db w = (if policy_state w = st then w else transitioned st ev now w)"
    by (simp add: due_state_def e)
  have ne: "policy_state w \<noteq> st \<Longrightarrow> transitioned st ev now w \<noteq> w"
    by (metis transitioned_sel(4))
  show thesis
  proof (rule that)
    show "scan_one hmac sec now w (sm, db) =
      (sm\<lparr>scanned := scanned sm + 1, state_changes := state_changes sm + (if changed r then 1 else 0),
          badge_changes := badge_changes sm + (if sr_changed b then 1 else 0)\<rparr>, db')"
      by (simp add: scan_one_def t Let_def)
    show "unique_ids db'" using assms(2) f(2) by (simp add: unique_ids_def)
    show "find_warranty db' i = (if i = wid w then Some (due_state now db w) else find_warranty db i)" for i
      by (simp add: f(1) due)
    show "shown (find_badge db' (w_tenant w)) = Some (due_badge now db (w_tenant w))"
      using d(8) by (simp add: due_badge_def e)
    show "u \<noteq> w_tenant w \<Longrightarrow> find_badge db' u = find_badge db u" for u by (rule d(9))
  qed (use d ne due in auto)
qed

lemma scan_fold:
  assumes "distinct (map wid ws)" "\<forall>w \<in> set ws. find_warranty db (wid w) = Some w"
    "\<forall>w \<in> set ws. account_exists db (w_account w)" "unique_ids db"
    "fold (scan_one hmac sec now) ws (sm, db) = (sm', db')"
  shows "scanned sm' = scanned sm + length ws \<and> errors sm' = errors sm
    \<and> state_changes sm' = state_changes sm + count_where (\<lambda>w. due_state now db w \<noteq> w) ws
    \<and> (\<forall>i. find_warranty db' i = (case List.find (\<lambda>w. wid w = i) ws of
             Some w \<Rightarrow> Some (due_state now db w) | None \<Rightarrow> find_warranty db i))
    \<and> (\<forall>t. if t \<in> w_tenant ` set ws then shown (find_badge db' t) = Some (due_badge now db t)
            else find_badge db' t = find_badge db t)"
  using assms
proof (induction ws arbitrary: sm db)
  case Nil
  then show ?case by simp
next
  case (Cons w ws)
  obtain sm1 db1 where s1: "scan_one hmac sec now w (sm, db) = (sm1, db1)"
    "scanned sm1 = scanned sm + 1" "errors sm1 = errors sm"
    "state_changes sm1 = state_changes sm + (if due_state now db w = w then 0 else 1)"
    "metrics db1 = metrics db" "accounts db1 = accounts db" "unique_ids db1"
    "\<And>i. find_warranty db1 i = (if i = wid w then Some (due_state now db w) else find_warranty db i)"
    "shown (find_badge db1 (w_tenant w)) = Some (due_badge now db (w_tenant w))"
    "\<And>u. u \<noteq> w_tenant w \<Longrightarrow> find_badge db1 u = find_badge db u"
    using Cons.prems by (auto intro: scan_one_step [of db w hmac sec now sm])
  have ne: "wid x \<noteq> wid w" if "x \<in> set ws" for x
    using Cons.prems(1) imageI [OF that, of wid] by auto
  have rest: "fold (scan_one hmac sec now) ws (sm1, db1) = (sm', db')"
    using Cons.prems(5) by (simp add: s1(1))
  have "\<forall>x \<in> set ws. find_warranty db1 (wid x) = Some x" using Cons.prems(2) ne by (simp add: s1(8))
  moreover have "\<forall>x \<in> set ws. account_exists db1 (w_account x)"
    using Cons.prems(3) s1(6) by (simp add: account_exists_def)
  moreover have "distinct (map wid ws)" using Cons.prems(1) by simp
  ultimately have ih: "scanned sm' = scanned sm1 + length ws \<and> errors sm' = errors sm1
    \<and> state_changes sm' = state_changes sm1 + count_where (\<lambda>w. due_state now db w \<noteq> w) ws
    \<and> (\<forall>i. find_warranty db' i = (case List.find (\<lambda>w. wid w = i) ws of
             Some w \<Rightarrow> Some (due_state now db w) | None \<Rightarrow> find_warranty db1 i))
    \<and> (\<forall>t. if t \<in> w_tenant ` set ws then shown (find_badge db' t) = Some (due_badge now db t)
            else find_badge db' t = find_badge db1 t)"
    using Cons.IH [of db1 sm1] s1(7) rest unfolding due_cong [OF s1(5)] by blast
  have "List.find (\<lambda>x. wid x = wid w) ws = None" using ne by (auto simp: find_None_iff)
  then have "find_warranty db' i = (case List.find (\<lambda>w. wid w = i) (w # ws) of
             Some w \<Rightarrow> Some (due_state now db w) | None \<Rightarrow> find_warranty db i)" for i
    using ih by (auto simp: s1(8) split: option.splits)
  moreover have "if t \<in> w_tenant ` set (w # ws) then shown (find_badge db' t) = Some (due_badge now db t)
            else find_badge db' t = find_badge db t" for t
    using ih s1(9,10) by (cases "t = w_tenant w"; cases "t \<in> w_tenant ` set ws") auto
  ultimately show ?case using ih s1(2,3,4) by simp
qed

lemma scan_one_cases:
  obtains "snd (scan_one hmac sec now w (sm, db)) = db"
  | r b where "recompute_tx hmac sec now None w db = (r, Inr (b, snd (scan_one hmac sec now w (sm, db))))"
proof -
  obtain r out where t: "recompute_tx hmac sec now None w db = (r, out)" by fastforce
  show thesis
  proof (cases out)
    case (Inl e)
    then show ?thesis by (intro that(1)) (simp add: scan_one_def t Let_def)
  next
    case (Inr x)
    then show ?thesis by (intro that(2) [of r "fst x"]) (simp add: scan_one_def t Let_def split: prod.split)
  qed
qed

lemma scan_induct:
  assumes "distinct (map wid ws)" "\<forall>w \<in> set ws. find_warranty db (wid w) = Some w" "unique_ids db" "P db"
    "\<And>r b w db db'. recompute_tx hmac sec now None w db = (r, Inr (b, db')) \<Longrightarrow>
       find_warranty db (wid w) = Some w \<Longrightarrow> unique_ids db \<Longrightarrow> P db \<Longrightarrow> P db'"
  shows "P (snd (fold (scan_one hmac sec now) ws (sm, db)))"
  using assms(1-4)
proof (induction ws arbitrary: sm db)
  case Nil
  then show ?case by simp
next
  case (Cons w ws)
  obtain sm1 db1 where s1: "scan_one hmac sec now w (sm, db) = (sm1, db1)" by fastforce
  have ne: "wid x \<noteq> wid w" if "x \<in> set ws" for x
    using Cons.prems(1) imageI [OF that, of wid] by auto
  have w: "find_warranty db (wid w) = Some w" using Cons.prems(2) by simp
  have "P db1 \<and> unique_ids db1 \<and> (\<forall>x \<in> set ws. find_warranty db1 (wid x) = Some x)"
  proof (rule scan_one_cases [of hmac sec now w sm db])
    assume "snd (scan_one hmac sec now w (sm, db)) = db"
    then show ?thesis using s1 Cons.prems by simp
  next
    fix r b
    assume "recompute_tx hmac sec now None w db = (r, Inr (b, snd (scan_one hmac sec now w (sm, db))))"
    then have t: "recompute_tx hmac sec now None w db = (r, Inr (b, db1))" using s1 by simp
    have "w \<in> set (warranties db)" using find_warranty_SomeD [OF w] by simp
    from recompute_tx_find [OF t prod.collapse [symmetric] Cons.prems(3) this]
    have "find_warranty db1 (wid x) = find_warranty db (wid x)" if "x \<in> set ws" for x using ne [OF that] by simp
    moreover have "unique_ids db1"
      using recompute_tx_find(2) [OF t prod.collapse [symmetric] Cons.prems(3) \<open>w \<in> set (warranties db)\<close>]
        Cons.prems(3) by (simp add: unique_ids_def)
    ultimately show ?thesis
      using Cons.prems(2) assms(5) [OF t w Cons.prems(3,4)] by simp
  qed
  then show ?case using Cons.IH [of db1 sm1] Cons.prems(1) by (simp add: s1)
qed

lemma active_found:
  assumes "unique_ids db"
  shows "distinct (map wid (filter (\<lambda>w. policy_state w = ACTIVE) (warranties db)))"
    "\<forall>w \<in> set (filter (\<lambda>w. policy_state w = ACTIVE) (warranties db)). find_warranty db (wid w) = Some w"
  using assms find_distinct_key [of wid "warranties db"]
  by (auto simp: unique_ids_def find_warranty_def distinct_map_filter)

subsection \<open>Requests, steps and the invariant\<close>

text \<open>The routes of \<open>createInsuranceRouter\<close>; the new policy's random id is part of the request.\<close>

datatype insurance_request =
    ListPolicies
  | GetPolicy string
  | BindPolicy string string "string option"
  | RecomputePolicy string
  | AttachExternal string "string option" "string option"

fun insurance_effect ::
  "(string \<Rightarrow> string \<Rightarrow> ustring) \<Rightarrow> resolved_secrets \<Rightarrow> time \<Rightarrow> caller \<Rightarrow> insurance_request \<Rightarrow> gov_db \<Rightarrow> gov_db" where
  "insurance_effect hmac sec now c ListPolicies db = db"
| "insurance_effect hmac sec now c (GetPolicy i) db = db"
| "insurance_effect hmac sec now c (BindPolicy uuid acc ends) db = snd (bindPolicy hmac sec now uuid c acc ends db)"
| "insurance_effect hmac sec now c (RecomputePolicy i) db = snd (recomputePolicy hmac sec now c i db)"
| "insurance_effect hmac sec now c (AttachExternal i carrier number) db =
     snd (attachExternal now c i carrier number db)"

inductive w_step :: "gov_db \<Rightarrow> gov_db \<Rightarrow> bool" where
  w_request: "w_step db (insurance_effect hmac sec now c req db)"
| w_scan: "w_step db (snd (recomputeAllWarranties hmac sec now db))"
| w_metric: "w_step db (db\<lparr>metrics := metrics db @ [m]\<rparr>)"
| w_account: "acc_id a \<notin> acc_id ` set (accounts db) \<Longrightarrow> w_step db (db\<lparr>accounts := accounts db @ [a]\<rparr>)"
| w_users: "w_step db (db\<lparr>users := us\<rparr>)"

definition w_init :: "gov_db \<Rightarrow> bool" where
  "w_init db \<longleftrightarrow> warranties db = [] \<and> accounts db = [] \<and> audit db = []"

text \<open>
  The audit rows of a policy form a chain: each old value is the new value of the row before it.
\<close>

definition state_row :: "string \<Rightarrow> audit_row \<Rightarrow> bool" where
  "state_row i a \<longleftrightarrow> entity_type a = ''warranty'' \<and> entity_id a = i \<and> action a \<in> {''bind'', ''state_change''}"

definition trail :: "gov_db \<Rightarrow> string \<Rightarrow> (audit_value option \<times> audit_value option) list" where
  "trail db i = map (\<lambda>a. (old_value a, new_value a)) (filter (state_row i) (audit db))"

fun chain :: "'a option \<Rightarrow> ('a option \<times> 'a option) list \<Rightarrow> 'a option \<Rightarrow> bool" where
  "chain s [] e \<longleftrightarrow> s = e"
| "chain s ((u, v) # xs) e \<longleftrightarrow> u = s \<and> chain v xs e"

lemma chain_snoc [simp]: "chain s (xs @ [(u, v)]) e \<longleftrightarrow> chain s xs u \<and> v = e"
  by (induction s xs u rule: chain.induct) auto

definition recorded :: "gov_db \<Rightarrow> string \<Rightarrow> audit_value option" where
  "recorded db i = map_option (\<lambda>w. AuditState (policy_state w)) (find_warranty db i)"

definition owned :: "gov_db \<Rightarrow> warranty \<Rightarrow> bool" where
  "owned db w \<longleftrightarrow> (\<exists>a \<in> set (accounts db). acc_id a = w_account w \<and> acc_tenant a = w_tenant w)"

definition w_inv :: "gov_db \<Rightarrow> bool" where
  "w_inv db \<longleftrightarrow> unique_ids db \<and> (\<forall>w \<in> set (warranties db). owned db w)
     \<and> (\<forall>i. chain None (trail db i) (recorded db i))"

lemma inv_recompute_tx:
  assumes "recompute_tx hmac sec now actor w db = (r, Inr (b, db'))"
    "find_warranty db (wid w) = Some w" "unique_ids db" "w_inv db"
  shows "w_inv db'"
proof -
  obtain st ev where e: "evaluatePolicyState now (w_tenant w) db = (st, ev)" by fastforce
  have w: "w \<in> set (warranties db)" using find_warranty_SomeD [OF assms(2)] by simp
  note d = recompute_txD [OF assms(1) e] and f = recompute_tx_find [OF assms(1) e assms(3) w]
  have "chain None (trail db' i) (recorded db' i)" for i
  proof -
    have "trail db' i = trail db i @ (if i = wid w \<and> policy_state w \<noteq> st
        then [(Some (AuditState (policy_state w)), Some (AuditState st))] else [])"
      by (simp add: trail_def d(3) state_row_def state_change_row_def)
    moreover have "recorded db' i = (if i = wid w then Some (AuditState st) else recorded db i)"
      by (simp add: recorded_def f(1))
    moreover have "chain None (trail db i) (recorded db i)" using assms(4) by (simp add: w_inv_def)
    moreover have "recorded db (wid w) = Some (AuditState (policy_state w))" by (simp add: recorded_def assms(2))
    ultimately show ?thesis by (cases "i = wid w"; cases "policy_state w = st") simp_all
  qed
  moreover have "\<forall>x \<in> set (warranties db'). owned db' x"
    using assms(4) by (auto simp: w_inv_def d(2,4) set_update_where owned_def)
  ultimately show ?thesis using assms(3) f(2) by (simp add: w_inv_def unique_ids_def)
qed

lemma w_inv_cong:
  assumes "warranties db' = warranties db" "accounts db' = accounts db" "audit db' = audit db"
  shows "w_inv db' = w_inv db"
  by (simp add: w_inv_def unique_ids_def owned_def trail_def recorded_def find_warranty_def assms)

lemma bindPolicy_cases:
  obtains "snd (bindPolicy hmac sec now uuid c acc ends db) = db"
      "fst (bindPolicy hmac sec now uuid c acc ends db) \<in> {NotFound404, ServerError500}"
  | a w r db2 where "find_account db acc = Some a" "may_access c (acc_tenant a) db" "find_warranty db uuid = None"
      "w = new_warranty uuid a ends now"
      "syncBadge hmac sec now (acc_tenant a) (acc_id a) \<lparr>in_policy_state = Some ACTIVE, in_evidence = None\<rparr>
         (db\<lparr>warranties := warranties db @ [w]\<rparr>) = Inr (r, db2)"
      "bindPolicy hmac sec now uuid c acc ends db = (Created201 w,
         commercialAuditLog (acc_tenant a) (Some (getActorId c)) ''warranty'' uuid ''bind'' None
           (Some (AuditState ACTIVE)) (Some (MetaBind acc ends)) now db2)"
  unfolding bindPolicy_def by (fastforce simp: Let_def split: option.splits sum.splits if_splits)

lemma find_account_SomeD: "find_account db i = Some a \<Longrightarrow> a \<in> set (accounts db) \<and> acc_id a = i"
  unfolding find_account_def by (rule find_SomeD)

lemma inv_bind:
  assumes "w_inv db"
  shows "w_inv (snd (bindPolicy hmac sec now uuid c acc ends db))"
proof (rule bindPolicy_cases [of hmac sec now uuid c acc ends db])
  assume "snd (bindPolicy hmac sec now uuid c acc ends db) = db"
  then show ?thesis using assms by simp
next
  fix a w r db2
  assume h: "find_account db acc = Some a" "find_warranty db uuid = None" "w = new_warranty uuid a ends now"
    "syncBadge hmac sec now (acc_tenant a) (acc_id a) \<lparr>in_policy_state = Some ACTIVE, in_evidence = None\<rparr>
         (db\<lparr>warranties := warranties db @ [w]\<rparr>) = Inr (r, db2)"
    "bindPolicy hmac sec now uuid c acc ends db = (Created201 w,
         commercialAuditLog (acc_tenant a) (Some (getActorId c)) ''warranty'' uuid ''bind'' None
           (Some (AuditState ACTIVE)) (Some (MetaBind acc ends)) now db2)"
  define db3 where "db3 = snd (bindPolicy hmac sec now uuid c acc ends db)"
  have f: "warranties db3 = warranties db @ [w]" "accounts db3 = accounts db"
    "audit db3 = audit db @ [\<lparr>a_tenant = acc_tenant a, a_actor = Some (getActorId c), entity_type = ''warranty'',
         entity_id = uuid, action = ''bind'', old_value = None, new_value = Some (AuditState ACTIVE),
         a_metadata = Some (MetaBind acc ends), a_created_at = now\<rparr>]"
    using syncBadge_frame [OF h(4)] by (simp_all add: db3_def h(5) commercialAuditLog_def)
  have w: "wid w = uuid" "w_account w = acc_id a" "w_tenant w = acc_tenant a" "policy_state w = ACTIVE"
    by (simp_all add: h(3) new_warranty_def)
  have new: "uuid \<notin> wid ` set (warranties db)"
    using h(2) by (auto simp: find_warranty_def find_None_iff)
  have a: "a \<in> set (accounts db)" using find_account_SomeD [OF h(1)] by simp
  have "chain None (trail db3 i) (recorded db3 i)" for i
  proof -
    have "trail db3 i = trail db i @ (if i = uuid then [(None, Some (AuditState ACTIVE))] else [])"
      by (simp add: trail_def f(3) state_row_def)
    moreover have "recorded db3 i = (if i = uuid then Some (AuditState ACTIVE) else recorded db i)"
      using h(2) w by (auto simp: recorded_def find_warranty_def f(1) find_append split: option.splits)
    moreover have "chain None (trail db i) (recorded db i)" using assms by (simp add: w_inv_def)
    moreover have "recorded db uuid = None" by (simp add: recorded_def h(2))
    ultimately show ?thesis by (cases "i = uuid") simp_all
  qed
  moreover have "unique_ids db3" using assms new by (simp add: w_inv_def unique_ids_def f(1) w)
  moreover have "\<forall>x \<in> set (warranties db3). owned db3 x"
    using assms a w by (auto simp: w_inv_def f(1,2) owned_def)
  ultimately show ?thesis by (simp add: w_inv_def db3_def)
qed

lemma recomputePolicy_cases:
  obtains "snd (recomputePolicy hmac sec now c i db) = db"
      "fst (recomputePolicy hmac sec now c i db) \<in> {NotFound404, ServerError500}"
  | w r b db' where "find_warranty db i = Some w" "may_access c (w_tenant w) db"
      "recompute_tx hmac sec now (Some (getActorId c)) w db = (r, Inr (b, db'))"
      "recomputePolicy hmac sec now c i db = (Ok200 (r, b), db')"
proof (cases "find_warranty db i")
  case None
  then show ?thesis by (intro that(1)) (simp_all add: recomputePolicy_def)
next
  case (Some w)
  obtain r out where t: "recompute_tx hmac sec now (Some (getActorId c)) w db = (r, out)" by fastforce
  show ?thesis
  proof (cases "may_access c (w_tenant w) db")
    case False
    then show ?thesis using Some by (intro that(1)) (simp_all add: recomputePolicy_def)
  next
    case True
    then show ?thesis using Some t
      by (cases out) (auto intro: that simp: recomputePolicy_def)
  qed
qed

lemma attachExternal_cases:
  obtains "attachExternal now c i carrier number db = (NotFound404, db)"
  | w where "find_warranty db i = Some w" "may_access c (w_tenant w) db"
      "attachExternal now c i carrier number db = (Ok200 (i, now),
         commercialAuditLog (w_tenant w) (Some (getActorId c)) ''warranty'' i ''external_attach''
            (Some (AuditExternal (external_carrier_id w) (external_policy_number w)))
            (Some (AuditExternal (or_else carrier (external_carrier_id w)) (or_else number (external_policy_number w))))
            None now
            (db\<lparr>warranties := update_where (same_row w)
               (\<lambda>x. x\<lparr>external_carrier_id := or_else carrier (external_carrier_id w),
                      external_policy_number := or_else number (external_policy_number w),
                      w_updated_at := now\<rparr>) (warranties db)\<rparr>))"
proof (cases "find_warranty db i")
  case None
  then show ?thesis by (intro that(1)) (simp add: attachExternal_def)
next
  case (Some w)
  then have "wid w = i" using find_warranty_SomeD by blast
  then show ?thesis using Some that
    by (cases "may_access c (w_tenant w) db")
      (auto simp: attachExternal_def Let_def same_row_def [abs_def])
qed

lemma inv_attach:
  assumes "w_inv db"
  shows "w_inv (snd (attachExternal now c i carrier number db))"
proof (rule attachExternal_cases [of now c i carrier number db])
  assume "attachExternal now c i carrier number db = (NotFound404, db)"
  then show ?thesis using assms by simp
next
  fix w :: warranty
  let ?f = "\<lambda>x :: warranty. x\<lparr>external_carrier_id := or_else carrier (external_carrier_id w),
      external_policy_number := or_else number (external_policy_number w), w_updated_at := now\<rparr>"
  assume h: "find_warranty db i = Some w"
    "attachExternal now c i carrier number db = (Ok200 (i, now),
         commercialAuditLog (w_tenant w) (Some (getActorId c)) ''warranty'' i ''external_attach''
            (Some (AuditExternal (external_carrier_id w) (external_policy_number w)))
            (Some (AuditExternal (or_else carrier (external_carrier_id w)) (or_else number (external_policy_number w))))
            None now (db\<lparr>warranties := update_where (same_row w) ?f (warranties db)\<rparr>))"
  define db3 where "db3 = snd (attachExternal now c i carrier number db)"
  have u: "unique_ids db" using assms by (simp add: w_inv_def)
  have w: "w \<in> set (warranties db)" using find_warranty_SomeD [OF h(1)] by simp
  have f: "warranties db3 = update_where (\<lambda>x. wid x = wid w) ?f (warranties db)" "accounts db3 = accounts db"
    by (simp_all add: db3_def h(2) commercialAuditLog_def same_row_key [OF u w])
  have "trail db3 j = trail db j" for j
    by (simp add: trail_def db3_def h(2) commercialAuditLog_def state_row_def)
  moreover have "recorded db3 j = recorded db j" for j
    by (cases "j = wid w")
      (simp_all add: recorded_def find_warranty_def f external_rows.find_same external_rows.find_other
        option.map_comp comp_def)
  moreover have "unique_ids db3" using u by (simp add: unique_ids_def f external_rows.keys)
  moreover have "\<forall>x \<in> set (warranties db3). owned db3 x"
    using assms by (auto simp: w_inv_def f set_update_where owned_def)
  ultimately show ?thesis using assms by (simp add: w_inv_def db3_def)
qed

lemma inv_scan:
  assumes "w_inv db"
  shows "w_inv (snd (recomputeAllWarranties hmac sec now db))"
proof -
  have u: "unique_ids db" using assms by (simp add: w_inv_def)
  show ?thesis unfolding recomputeAllWarranties_def
    by (rule scan_induct [where P = w_inv, OF active_found [OF u] u assms]) (rule inv_recompute_tx)
qed

lemma inv_request: "w_inv db \<Longrightarrow> w_inv (insurance_effect hmac sec now c req db)"
proof (cases req)
  case (RecomputePolicy i)
  assume inv: "w_inv db"
  show ?thesis
  proof (rule recomputePolicy_cases [of hmac sec now c i db])
    fix w :: warranty and r b db'
    assume h: "find_warranty db i = Some w" "recompute_tx hmac sec now (Some (getActorId c)) w db = (r, Inr (b, db'))"
      "recomputePolicy hmac sec now c i db = (Ok200 (r, b), db')"
    have "find_warranty db (wid w) = Some w" using h(1) find_warranty_SomeD by metis
    then show ?thesis using inv_recompute_tx [OF h(2) _ _ inv] inv
      by (simp add: RecomputePolicy h(3) w_inv_def)
  qed (use inv RecomputePolicy in simp)
qed (auto intro: inv_bind inv_attach)

interpretation ws: invariant_system w_init w_step w_inv
proof unfold_locales
  show "w_init db \<Longrightarrow> w_inv db" for db
    by (simp add: w_init_def w_inv_def unique_ids_def trail_def recorded_def find_warranty_def)
  show "w_step db db' \<Longrightarrow> w_inv db \<Longrightarrow> w_inv db'" for db db'
  proof (induction rule: w_step.induct)
    case (w_account a db)
    then show ?case by (auto simp: w_inv_def unique_ids_def owned_def trail_def recorded_def find_warranty_def)
  next
    case (w_metric db m)
    then show ?case by (subst w_inv_cong) auto
  next
    case (w_users db us)
    then show ?case by (subst w_inv_cong) auto
  qed (auto intro: inv_scan inv_request)
qed

subsection \<open>Tenant isolation\<close>

definition tenant_view ::
  "string \<Rightarrow> gov_db \<Rightarrow> warranty list \<times> badge list \<times> badge_history list \<times> audit_row list" where
  "tenant_view t db =
     (filter (\<lambda>w. w_tenant w = t) (warranties db), filter (\<lambda>b. b_tenant b = t) (badges db),
      filter (\<lambda>h. h_tenant h = t) (history db), filter (\<lambda>a. a_tenant a = t) (audit db))"

lemma filter_update_where_other:
  "(\<And>x. p x \<Longrightarrow> \<not> q x \<and> \<not> q (f x)) \<Longrightarrow> filter q (update_where p f xs) = filter q xs"
  by (induction xs) auto

lemma other_rows:
  "u \<noteq> w_tenant w \<Longrightarrow> (\<And>x. w_tenant (f x) = w_tenant x) \<Longrightarrow>
   filter (\<lambda>x. w_tenant x = u) (update_where (same_row w) f xs) = filter (\<lambda>x. w_tenant x = u) xs"
  by (rule filter_update_where_other) (auto simp: same_row_def)

lemma syncBadge_view:
  assumes "syncBadge hmac sec now t a inp db = Inr (r, db')" "u \<noteq> t"
  shows "tenant_view u db' = tenant_view u db"
  using assms(1)
proof (cases rule: syncBadge_cases)
  case (written st reason sig)
  then show ?thesis using assms(2)
    by (auto simp: tenant_view_def filter_update_where_other split: option.splits)
qed simp_all

lemma recompute_tx_view:
  assumes "recompute_tx hmac sec now actor w db = (r, Inr (b, db'))" "u \<noteq> w_tenant w"
  shows "tenant_view u db' = tenant_view u db"
proof -
  obtain st ev where e: "evaluatePolicyState now (w_tenant w) db = (st, ev)" by fastforce
  let ?db1 = "snd (applyStateTransition now w st ev actor db)"
  have "syncBadge hmac sec now (w_tenant w) (w_account w)
      \<lparr>in_policy_state = Some st, in_evidence = Some ev\<rparr> ?db1 = Inr (b, db')"
    using assms(1) e by (simp add: recompute_tx_def applyStateTransition_eq)
  moreover have "tenant_view u ?db1 = tenant_view u db"
    using assms(2)
    by (auto simp: applyStateTransition_eq tenant_view_def state_change_row_def other_rows)
  ultimately show ?thesis using syncBadge_view assms(2) by metis
qed

subsection \<open>Properties of the warranties\<close>

text \<open>C2: For windows of at most \<open>2 ^ 42\<close> requests, the double arithmetic of
  \<open>evaluatePolicyState\<close> is the exact integer decision: a tenant's coverage is void for its
  anomaly ratio exactly when more than one request in fifty of the last seven days was denied
  (which wins), void for compliance drift exactly when at least ten boundary crossings happened in
  the last thirty days, and active otherwise. The badge it synchronises is red exactly for a void
  policy, amber exactly when the ratio is at least 1.5 per cent and strictly below 2 per cent, and
  green otherwise, so that a ratio of exactly 2 per cent shows green.\<close>

theorem warranty_verdict_exact:
  assumes "200 * total_requests now t db \<le> 2 ^ 50"
  shows "fst (evaluatePolicyState now t db) =
      verdict (total_requests now t db) (denied_requests now t db) (boundary_crossings now t db)
    \<and> fst (due_badge now db t) =
      badge_verdict (total_requests now t db) (denied_requests now t db) (boundary_crossings now t db)
    \<and> (total_requests now t db = 50 * denied_requests now t db \<and> boundary_crossings now t db < 10 \<longrightarrow>
      fst (due_badge now db t) = Green)"
proof -
  have a: "fst (evaluatePolicyState now t db) =
      verdict (total_requests now t db) (denied_requests now t db) (boundary_crossings now t db)"
    by (rule evaluate_verdict [OF assms])
  obtain st ev where e: "evaluatePolicyState now t db = (st, ev)" by fastforce
  have b: "fst (due_badge now db t) =
      badge_verdict (total_requests now t db) (denied_requests now t db) (boundary_crossings now t db)"
    using badge_verdict_eq [OF assms e] by (simp add: due_badge_def e)
  show ?thesis using a b by (simp add: badge_verdict_def verdict_def)
qed

text \<open>Evidence only ever worsens the badge, with one exception: of two databases with the same number of requests of
  a tenant in the window (at most \<open>2 ^ 42\<close>), the one with at least as many denials and boundary
  crossings asks for a badge that is at least as severe, in the order green, amber, red, unless its ratio is
  exactly 2 per cent, where the badge falls back to green.\<close>

theorem badge_monotone:
  assumes "200 * total_requests now t db \<le> 2 ^ 50" "total_requests now t db2 = total_requests now t db"
    "denied_requests now t db \<le> denied_requests now t db2"
    "boundary_crossings now t db \<le> boundary_crossings now t db2"
    "total_requests now t db2 \<noteq> 50 * denied_requests now t db2"
  shows "fst (due_badge now db t) \<le> fst (due_badge now db2 t)"
proof -
  obtain st ev st2 ev2 where e: "evaluatePolicyState now t db = (st, ev)" "evaluatePolicyState now t db2 = (st2, ev2)"
    by fastforce
  have "fst (due_badge now db t) = badge_verdict (total_requests now t db) (denied_requests now t db) (boundary_crossings now t db)"
    using badge_verdict_eq [OF assms(1) e(1)] by (simp add: due_badge_def e)
  moreover have "fst (due_badge now db2 t) = badge_verdict (total_requests now t db) (denied_requests now t db2) (boundary_crossings now t db2)"
    using badge_verdict_eq [of now t db2, OF _ e(2)] assms(1,2) by (simp add: due_badge_def e)
  ultimately show ?thesis using badge_verdict_mono [OF counts_nonneg(2) assms(3,4)] assms(2,5) by simp
qed

text \<open>A successful recomputation of a policy installs the state that the evidence asks for, whatever
  the state before: it reports the old and the new state and whether they differ, writes one
  audit row exactly when they differ, changes no other policy, and leaves the tenant's badge
  showing what the same evidence asks for. In particular a void policy whose evidence has aged
  out of the windows becomes active again, and a void policy's reason can change.\<close>

theorem recompute_is_memoryless:
  assumes "recomputePolicy hmac sec now c i db = (Ok200 (r, b), db')"
    "reach w_init w_step db" "find_warranty db i = Some w"
  shows "find_warranty db' i = Some (due_state now db w)
    \<and> policy_state (due_state now db w) = fst (evaluatePolicyState now (w_tenant w) db)
    \<and> previous_state r = policy_state w \<and> current_state r = fst (evaluatePolicyState now (w_tenant w) db)
    \<and> changed r = (policy_state w \<noteq> current_state r)
    \<and> length (audit db') = length (audit db) + (if changed r then 1 else 0)
    \<and> (\<forall>j. j \<noteq> i \<longrightarrow> find_warranty db' j = find_warranty db j)
    \<and> shown (find_badge db' (w_tenant w)) = Some (due_badge now db (w_tenant w))"
proof -
  obtain st ev where e: "evaluatePolicyState now (w_tenant w) db = (st, ev)" by fastforce
  have u: "unique_ids db" using ws.reach_inv [OF assms(2)] by (simp add: w_inv_def)
  have w: "w \<in> set (warranties db)" "wid w = i" using find_warranty_SomeD [OF assms(3)] by simp_all
  have t: "recompute_tx hmac sec now (Some (getActorId c)) w db = (r, Inr (b, db'))"
    using assms(1,3) by (auto simp: recomputePolicy_def split: if_splits prod.splits sum.splits)
  note d = recompute_txD [OF t e] and f = recompute_tx_find(1) [OF t e u w(1)]
  show ?thesis
    using d(1,3,8) by (auto simp: f w(2) due_state_def due_badge_def e)
qed

text \<open>C4: A request of a caller who is not a super-admin changes nothing that belongs to another
  tenant: no policy, badge, badge history or audit row, and never the accounts, users, metrics or
  the secret; and a request for another tenant's policy or account is answered exactly as for
  one that does not exist, with nothing written.\<close>

theorem tenant_isolation:
  assumes "\<not> isCallerSuperAdmin c db" "t \<noteq> getTenantId c"
  shows "tenant_view t (insurance_effect hmac sec now c req db) = tenant_view t db
    \<and> (find_warranty db i = Some w \<and> w_tenant w = t \<longrightarrow>
      getPolicy c i db = NotFound404 \<and> recomputePolicy hmac sec now c i db = (NotFound404, db)
      \<and> attachExternal now c i carrier number db = (NotFound404, db))
    \<and> (find_account db acc = Some a \<and> acc_tenant a = t \<longrightarrow>
      bindPolicy hmac sec now uuid c acc ends db = (NotFound404, db))"
proof -
  have own: "may_access c x db \<Longrightarrow> t \<noteq> x" for x using assms by (auto simp: may_access_def)
  have "find_warranty db i = Some w \<and> w_tenant w = t \<longrightarrow>
      getPolicy c i db = NotFound404 \<and> recomputePolicy hmac sec now c i db = (NotFound404, db)
      \<and> attachExternal now c i carrier number db = (NotFound404, db)"
    using own by (auto simp: getPolicy_def recomputePolicy_def attachExternal_def)
  moreover have "find_account db acc = Some a \<and> acc_tenant a = t \<longrightarrow>
      bindPolicy hmac sec now uuid c acc ends db = (NotFound404, db)"
    using own by (auto simp: bindPolicy_def)
  moreover have "tenant_view t (insurance_effect hmac sec now c req db) = tenant_view t db"
  proof (cases req)
    case (BindPolicy uuid acc ends)
    show ?thesis
      by (rule bindPolicy_cases [of hmac sec now uuid c acc ends db])
        (auto simp: BindPolicy commercialAuditLog_def tenant_view_def new_warranty_def dest!: own
          dest!: syncBadge_view [where u = t])
  next
    case (RecomputePolicy i)
    show ?thesis
      by (rule recomputePolicy_cases [of hmac sec now c i db])
        (auto simp: RecomputePolicy dest!: own intro: recompute_tx_view)
  next
    case (AttachExternal i carrier number)
    show ?thesis
      by (rule attachExternal_cases [of now c i carrier number db])
        (auto simp: AttachExternal commercialAuditLog_def tenant_view_def other_rows dest!: own)
  qed simp_all
  ultimately show ?thesis by blast
qed

text \<open>In every reachable state the scheduled scan succeeds on every active policy: it counts them as
  scanned with no error, moves exactly those whose evidence asks for a void state and counts
  them, leaves every policy that was already void as it was, and leaves the badge of every tenant with an
  active policy showing what the evidence asks for and every other badge as it was.\<close>

theorem scheduled_scan:
  assumes "reach w_init w_step db" "recomputeAllWarranties hmac sec now db = (s, db')"
  shows "scanned s = count_where (\<lambda>w. policy_state w = ACTIVE) (warranties db) \<and> errors s = 0
    \<and> state_changes s = count_where (\<lambda>w. policy_state w = ACTIVE
          \<and> fst (evaluatePolicyState now (w_tenant w) db) \<noteq> ACTIVE) (warranties db)
    \<and> (\<forall>w \<in> set (warranties db). find_warranty db' (wid w) =
          Some (if policy_state w = ACTIVE then due_state now db w else w))
    \<and> (\<forall>t. if \<exists>w \<in> set (warranties db). policy_state w = ACTIVE \<and> w_tenant w = t
          then shown (find_badge db' t) = Some (due_badge now db t)
          else find_badge db' t = find_badge db t)"
proof -
  let ?act = "filter (\<lambda>w. policy_state w = ACTIVE) (warranties db)"
  have inv: "w_inv db" using assms(1) by (rule ws.reach_inv)
  then have u: "unique_ids db" by (simp add: w_inv_def)
  have acc: "\<forall>w \<in> set ?act. account_exists db (w_account w)"
    using inv by (auto simp: w_inv_def owned_def account_exists_def list_ex_iff)
  note scan = scan_fold [OF active_found [OF u] acc u assms(2) [unfolded recomputeAllWarranties_def]]
  have due: "policy_state w = ACTIVE \<Longrightarrow> due_state now db w \<noteq> w \<longleftrightarrow>
      fst (evaluatePolicyState now (w_tenant w) db) \<noteq> ACTIVE" for w
    by (auto simp: due_state_def split: prod.splits if_splits) (metis transitioned_sel(4))
  have "count_where (\<lambda>w. due_state now db w \<noteq> w) ?act = count_where (\<lambda>w. policy_state w = ACTIVE
          \<and> fst (evaluatePolicyState now (w_tenant w) db) \<noteq> ACTIVE) (warranties db)"
    using due by (auto simp: count_where_def intro!: arg_cong [of _ _ length] filter_cong)
  moreover have "find_warranty db' (wid w) = Some (if policy_state w = ACTIVE then due_state now db w else w)"
    if w: "w \<in> set (warranties db)" for w
  proof -
    have f: "find_warranty db (wid w) = Some w"
      using u w unfolding find_warranty_def unique_ids_def by (rule find_distinct_key)
    have "List.find (\<lambda>x. wid x = wid w) ?act = (if policy_state w = ACTIVE then Some w else None)"
    proof (cases "policy_state w = ACTIVE")
      case True
      then have "w \<in> set ?act" using w by simp
      then show ?thesis using find_distinct_key [OF active_found(1) [OF u]] True by simp
    next
      case False
      have "x = w" if "x \<in> set (warranties db)" "wid x = wid w" for x
        using u w that by (auto simp: unique_ids_def distinct_map dest: inj_onD)
      then show ?thesis using False by (auto simp: find_None_iff)
    qed
    then show ?thesis using scan f by (simp split: if_splits)
  qed
  moreover have "t \<in> w_tenant ` set ?act \<longleftrightarrow> (\<exists>w \<in> set (warranties db). policy_state w = ACTIVE \<and> w_tenant w = t)" for t
    by auto
  ultimately show ?thesis using scan by (simp add: count_where_def)
qed

text \<open>C34: The audit log is a complete history of every policy: in every reachable state the rows
  for binding and state changes of a policy form a chain from nothing to its present state, each
  row's old value being the row before's new value; an id without a policy has no such rows; and
  every policy belongs to an existing account of its own tenant.\<close>

theorem audit_log_replays:
  assumes "reach w_init w_step db"
  shows "chain None (trail db i) (recorded db i)
    \<and> (\<forall>w \<in> set (warranties db). owned db w) \<and> unique_ids db"
  using ws.reach_inv [OF assms] by (simp add: w_inv_def)

text \<open>Binding a policy always turns the tenant's badge green with no reason, whatever it showed and
  whatever other policies of the tenant are void; no existing policy changes.\<close>

theorem bind_resets_badge:
  assumes "bindPolicy hmac sec now uuid c acc ends db = (Created201 w, db')"
  shows "shown (find_badge db' (w_tenant w)) = Some (Green, None)
    \<and> warranties db' = warranties db @ [w] \<and> policy_state w = ACTIVE \<and> wid w = uuid"
proof (rule bindPolicy_cases [of hmac sec now uuid c acc ends db])
  fix a w' r db2
  assume h: "w' = new_warranty uuid a ends now"
    "syncBadge hmac sec now (acc_tenant a) (acc_id a) \<lparr>in_policy_state = Some ACTIVE, in_evidence = None\<rparr>
         (db\<lparr>warranties := warranties db @ [w']\<rparr>) = Inr (r, db2)"
    "bindPolicy hmac sec now uuid c acc ends db = (Created201 w',
         commercialAuditLog (acc_tenant a) (Some (getActorId c)) ''warranty'' uuid ''bind'' None
           (Some (AuditState ACTIVE)) (Some (MetaBind acc ends)) now db2)"
  then have w: "w = w'" and db': "badges db' = badges db2" "warranties db' = warranties db2"
    using assms by (auto simp: commercialAuditLog_def)
  have "shown (find_badge db2 (acc_tenant a)) = Some (Green, None)"
    using syncBadge_shown(1) [OF h(2)] by (simp add: computeBadgeState_def)
  then show ?thesis using syncBadge_frame(4) [OF h(2)]
    by (simp add: w h(1) db' new_warranty_def find_badge_def)
qed (use assms in auto)

subsection \<open>Witnesses\<close>

definition demo_metric :: access_metric where
  "demo_metric = \<lparr>user_tenant_id = Some ''t'', access_granted = False, is_boundary_crossing = False, evaluated_at = 5\<rparr>"

definition demo_caller :: caller where
  "demo_caller = \<lparr>caasUserId = Some ''u'', caasTenantId = Some ''t''\<rparr>"

definition demo_open :: gov_db where
  "demo_open = \<lparr>accounts = [\<lparr>acc_id = ''a'', acc_tenant = ''t''\<rparr>], users = [], metrics = [demo_metric],
     warranties = [], badges = [], history = [], audit = [], secret = None\<rparr>"

definition demo_policy :: warranty where
  "demo_policy = new_warranty ''p'' \<lparr>acc_id = ''a'', acc_tenant = ''t''\<rparr> None 3"

abbreviation demo_run :: resolved_secrets where "demo_run \<equiv> demo_sec ''k1'' None"

definition demo_bound :: gov_db where
  "demo_bound = snd (bindPolicy demo_hmac demo_run 3 ''p'' demo_caller ''a'' None demo_open)"

lemma demo_bind: "bindPolicy demo_hmac demo_run 3 ''p'' demo_caller ''a'' None demo_open = (Created201 demo_policy, demo_bound)"
  by (simp add: demo_bound_def bindPolicy_def find_account_def demo_open_def may_access_def demo_caller_def
      getTenantId_def find_warranty_def syncBadge_def find_badge_def computeBadgeState_def account_exists_def
      Let_def demo_policy_def)

lemma demo_bound_rows: "warranties demo_bound = [demo_policy]" "accounts demo_bound = accounts demo_open"
  "metrics demo_bound = [demo_metric]" "find_warranty demo_bound ''p'' = Some demo_policy"
  by (simp_all add: demo_bound_def bindPolicy_def find_account_def demo_open_def may_access_def demo_caller_def
      getTenantId_def find_warranty_def syncBadge_def find_badge_def computeBadgeState_def account_exists_def
      Let_def demo_policy_def commercialAuditLog_def new_warranty_def)

lemma demo_reach_bound: "reach w_init w_step demo_bound"
proof -
  let ?e = "demo_open\<lparr>accounts := [], metrics := []\<rparr>"
  have "reach w_init w_step ?e" by (rule reach_init) (simp add: w_init_def demo_open_def)
  then have "reach w_init w_step (?e\<lparr>accounts := accounts ?e @ accounts demo_open\<rparr>)"
    by (rule reach_step) (use w_account [of "\<lparr>acc_id = ''a'', acc_tenant = ''t''\<rparr>" ?e] in \<open>simp add: demo_open_def\<close>)
  then have "reach w_init w_step demo_open"
    by (rule reach_step)
      (use w_metric [of "demo_open\<lparr>metrics := []\<rparr>" demo_metric] in \<open>simp add: demo_open_def\<close>)
  then show ?thesis
    by (rule reach_step)
      (use w_request [of demo_open demo_hmac demo_run 3 demo_caller "BindPolicy ''p'' ''a'' None"] in
        \<open>simp add: demo_bound_def\<close>)
qed

lemma demo_counts:
  "total_requests 10 ''t'' demo_bound = 1" "denied_requests 10 ''t'' demo_bound = 1"
  "boundary_crossings 10 ''t'' demo_bound = 0"
  by (simp_all add: total_requests_def denied_requests_def boundary_crossings_def demo_bound_rows
      demo_metric_def isoDaysAgo_def ANOMALY_WINDOW_DAYS_def)

theorem warranty_verdict_exact_witness:
  "fst (evaluatePolicyState 10 ''t'' demo_bound) = VOID_BY_ANOMALY_RATIO \<and> fst (due_badge 10 demo_bound ''t'') = Red"
  using warranty_verdict_exact [of 10 "''t''" demo_bound] by (simp add: demo_counts verdict_def badge_verdict_def)

theorem badge_monotone_witness:
  "fst (due_badge 10 (demo_bound\<lparr>metrics := [demo_metric\<lparr>access_granted := True\<rparr>]\<rparr>) ''t'') \<le> fst (due_badge 10 demo_bound ''t'')"
proof -
  let ?db = "demo_bound\<lparr>metrics := [demo_metric\<lparr>access_granted := True\<rparr>]\<rparr>"
  have "total_requests 10 ''t'' ?db = 1" "denied_requests 10 ''t'' ?db = 0" "boundary_crossings 10 ''t'' ?db = 0"
    by (simp_all add: total_requests_def denied_requests_def boundary_crossings_def
        demo_metric_def isoDaysAgo_def ANOMALY_WINDOW_DAYS_def)
  then show ?thesis using badge_monotone [of 10 "''t''" ?db demo_bound] by (simp add: demo_counts)
qed

theorem recompute_is_memoryless_witness:
  "\<exists>r b db'. recomputePolicy demo_hmac demo_run 10 demo_caller ''p'' demo_bound = (Ok200 (r, b), db')
     \<and> previous_state r = ACTIVE \<and> current_state r = VOID_BY_ANOMALY_RATIO"
proof -
  have "account_exists demo_bound (w_account demo_policy)"
    by (simp add: account_exists_def demo_bound_rows demo_open_def demo_policy_def new_warranty_def)
  from recompute_tx_succeeds [OF this] obtain r b db' where
    "recompute_tx demo_hmac demo_run 10 (Some (getActorId demo_caller)) demo_policy demo_bound = (r, Inr (b, db'))"
    by metis
  then have e: "recomputePolicy demo_hmac demo_run 10 demo_caller ''p'' demo_bound = (Ok200 (r, b), db')"
    by (simp add: recomputePolicy_def demo_bound_rows may_access_def demo_caller_def getTenantId_def
        demo_policy_def new_warranty_def)
  have "fst (evaluatePolicyState 10 ''t'' demo_bound) = VOID_BY_ANOMALY_RATIO"
    using evaluate_verdict [of 10 "''t''" demo_bound] by (simp add: demo_counts verdict_def)
  then show ?thesis using e recompute_is_memoryless [OF e demo_reach_bound demo_bound_rows(4)]
    by (simp add: demo_policy_def new_warranty_def)
qed

theorem tenant_isolation_witness:
  "recomputePolicy demo_hmac demo_run 10 (demo_caller\<lparr>caasTenantId := Some ''x''\<rparr>) ''p'' demo_bound
     = (NotFound404, demo_bound)"
proof -
  have u: "users demo_bound = []"
    by (simp add: demo_bound_def bindPolicy_def find_account_def demo_open_def may_access_def demo_caller_def
        getTenantId_def find_warranty_def syncBadge_def find_badge_def computeBadgeState_def account_exists_def
        Let_def commercialAuditLog_def)
  have "\<not> isCallerSuperAdmin (demo_caller\<lparr>caasTenantId := Some ''x''\<rparr>) demo_bound"
    by (simp add: isCallerSuperAdmin_def nonempty_def demo_caller_def u)
  from tenant_isolation [OF this, of "''t''" demo_hmac demo_run 10 ListPolicies "''p''" demo_policy]
  show ?thesis by (simp add: getTenantId_def demo_bound_rows demo_policy_def new_warranty_def)
qed

theorem scheduled_scan_witness:
  "scanned (fst (recomputeAllWarranties demo_hmac demo_run 10 demo_bound)) = 1"
  using scheduled_scan [OF demo_reach_bound prod.collapse [symmetric]]
  by (simp add: demo_bound_rows demo_policy_def new_warranty_def)

theorem audit_log_replays_witness: "chain None (trail demo_bound ''p'') (Some (AuditState ACTIVE))"
  using audit_log_replays [OF demo_reach_bound, of "''p''"]
  by (simp add: recorded_def demo_bound_rows demo_policy_def new_warranty_def)

theorem bind_resets_badge_witness: "shown (find_badge demo_bound ''t'') = Some (Green, None)"
  using bind_resets_badge [OF demo_bind] by (simp add: demo_policy_def new_warranty_def)

end
