(* ===== verification/JsValue.thy ===== *)
theory JsValue
  imports JsString
begin

section \<open>JavaScript values\<close>

text \<open>
  The values that the policy and verification engines compute with: what \<open>JSON.parse\<close> gives, plus
  \<open>undefined\<close> and the built-in functions and prototypes that a property access can reach. Numbers
  are doubles (\<open>Fin q\<close> with \<open>q\<close> a double, the infinities and NaN; the sign of zero shows in no
  comparison or conversion used). The keys of an object are distinct. \<open>to_str\<close> is \<open>String(x)\<close> and
  \<open>to_num\<close> is \<open>Number(x)\<close>, both with the TypeError that an own, uncallable \<open>toString\<close> causes.
\<close>

datatype jnum = Fin rat | PosInf | NegInf | NaN

datatype js =
    JUndef | JNull | JBool bool | JNum jnum | JStr string
  | JArr "js list"
  | JObj "(string \<times> js) list"
  | JFun string \<comment> \<open>a built-in function, by name\<close>
  | JObjProto | JArrProto \<comment> \<open>\<open>Object.prototype\<close>, \<open>Array.prototype\<close>\<close>

datatype js_error = TypeError | SyntaxError

type_synonym 'a throwing = "js_error + 'a"

definition bind_t :: "'a throwing \<Rightarrow> ('a \<Rightarrow> 'b throwing) \<Rightarrow> 'b throwing" where
  "bind_t m f = (case m of Inl e \<Rightarrow> Inl e | Inr x \<Rightarrow> f x)"

lemma bind_t_simps [simp]: "bind_t (Inl e) f = Inl e" "bind_t (Inr x) f = f x"
  by (simp_all add: bind_t_def)

lemma bind_t_Inr: "bind_t m f = Inr y \<longleftrightarrow> (\<exists>x. m = Inr x \<and> f x = Inr y)"
  by (cases m) auto

text \<open>\<open>Array.map\<close> with a callback that may throw.\<close>

fun map_t :: "('a \<Rightarrow> 'b throwing) \<Rightarrow> 'a list \<Rightarrow> 'b list throwing" where
  "map_t f [] = Inr []"
| "map_t f (x # xs) = bind_t (f x) (\<lambda>y. bind_t (map_t f xs) (\<lambda>ys. Inr (y # ys)))"

lemma map_t_Inr: "map_t f xs = Inr ys \<longleftrightarrow> list_all2 (\<lambda>x y. f x = Inr y) xs ys"
proof (induction xs arbitrary: ys)
  case Nil
  then show ?case by auto
next
  case (Cons x xs)
  then show ?case by (cases ys) (auto simp: bind_t_Inr list_all2_Cons1)
qed

subsection \<open>Property access\<close>

definition object_methods :: "string list" where
  "object_methods = [''hasOwnProperty'', ''isPrototypeOf'', ''propertyIsEnumerable'', ''toLocaleString'',
     ''toString'', ''valueOf'', ''__defineGetter__'', ''__defineSetter__'', ''__lookupGetter__'',
     ''__lookupSetter__'']"

definition array_methods :: "string list" where
  "array_methods = [''at'', ''concat'', ''copyWithin'', ''entries'', ''every'', ''fill'', ''filter'',
     ''find'', ''findIndex'', ''findLast'', ''findLastIndex'', ''flat'', ''flatMap'', ''forEach'',
     ''includes'', ''indexOf'', ''join'', ''keys'', ''lastIndexOf'', ''map'', ''pop'', ''push'',
     ''reduce'', ''reduceRight'', ''reverse'', ''shift'', ''slice'', ''some'', ''sort'', ''splice'',
     ''toReversed'', ''toSorted'', ''toSpliced'', ''unshift'', ''values'', ''with'']"

definition object_inherited :: "string \<Rightarrow> js" where
  "object_inherited k =
     (if k = ''__proto__'' then JObjProto
      else if k = ''constructor'' then JFun ''Object''
      else if k \<in> set object_methods then JFun k else JUndef)"

definition array_inherited :: "string \<Rightarrow> js" where
  "array_inherited k =
     (if k = ''__proto__'' then JArrProto
      else if k = ''constructor'' then JFun ''Array''
      else if k \<in> set array_methods then JFun k else object_inherited k)"

definition is_index :: "string \<Rightarrow> bool" where
  "is_index k \<longleftrightarrow> k = ''0'' \<or> (k \<noteq> [] \<and> list_all is_digit k \<and> hd k \<noteq> CHR ''0'')"

fun get_prop :: "js \<Rightarrow> string \<Rightarrow> js" where
  "get_prop (JObj kvs) k = (case map_of kvs k of Some v \<Rightarrow> v | None \<Rightarrow> object_inherited k)"
| "get_prop (JArr xs) k =
     (if k = ''length'' then JNum (Fin (of_nat (length xs)))
      else if is_index k then
        (if nat (digits_val k) < length xs then xs ! nat (digits_val k) else JUndef)
      else array_inherited k)"
| "get_prop JObjProto k = (if k = ''__proto__'' then JNull else object_inherited k)"
| "get_prop JArrProto k =
     (if k = ''length'' then JNum (Fin 0) else if k = ''__proto__'' then JObjProto else array_inherited k)"
| "get_prop _ k = JUndef"

fun is_object :: "js \<Rightarrow> bool" where
  "is_object (JObj _) = True"
| "is_object (JArr _) = True"
| "is_object JObjProto = True"
| "is_object JArrProto = True"
| "is_object _ = False"

subsection \<open>Numbers as text\<close>

text \<open>
  \<open>decimal_point v\<close> is the \<open>n\<close> with \<open>10^(n-1) \<le> v < 10^n\<close>; \<open>shortest v\<close> gives the digits and the
  point of the shortest decimal that reads back as \<open>v\<close> (17 digits are always enough).
\<close>

definition decimal_point :: "rat \<Rightarrow> int" where
  "decimal_point v =
     (let (p, q) = quotient_of v;
          e = int (length (nat_digits p)) - int (length (nat_digits q))
      in if v \<ge> 10 powi e then e + 1 else e)"

definition candidate :: "rat \<Rightarrow> int \<Rightarrow> nat \<Rightarrow> int" where
  "candidate v n k = \<lfloor>v / 10 powi (n - int k) + 1 / 2\<rfloor>"

definition shortest :: "rat \<Rightarrow> string \<times> int" where
  "shortest v =
     (let n = decimal_point v;
          k = (case List.find (\<lambda>k. rnd (of_int (candidate v n k) * 10 powi (n - int k)) = v) [1..<17] of
                 Some k \<Rightarrow> k | None \<Rightarrow> 17);
          ds = nat_digits (candidate v n k)
      in (rev (dropWhile (\<lambda>c. c = CHR ''0'') (rev ds)), n + int (length ds) - int k))"

definition pos_str :: "rat \<Rightarrow> string" where
  "pos_str v =
     (let (ds, n) = shortest v; k = int (length ds)
      in if k \<le> n \<and> n \<le> 21 then ds @ replicate (nat (n - k)) (CHR ''0'')
         else if 0 < n \<and> n \<le> 21 then take (nat n) ds @ ''.'' @ drop (nat n) ds
         else if - 6 < n \<and> n \<le> 0 then ''0.'' @ replicate (nat (- n)) (CHR ''0'') @ ds
         else take 1 ds @ (if k = 1 then [] else ''.'' @ drop 1 ds) @ ''e''
              @ (if n - 1 < 0 then ''-'' else ''+'') @ nat_digits \<bar>n - 1\<bar>)"

fun num_str :: "jnum \<Rightarrow> string" where
  "num_str NaN = ''NaN''"
| "num_str PosInf = ''Infinity''"
| "num_str NegInf = ''-Infinity''"
| "num_str (Fin q) = (if q = 0 then ''0'' else if q < 0 then ''-'' @ pos_str (- q) else pos_str q)"

subsection \<open>Text as numbers\<close>

definition exponent_of :: "string \<Rightarrow> int option" where
  "exponent_of s =
     (case s of
        [] \<Rightarrow> Some 0
      | e # r \<Rightarrow>
          if e = CHR ''e'' \<or> e = CHR ''E'' then
            (let (neg, ds) = (case r of
                 c # ds \<Rightarrow> if c = CHR ''-'' then (True, ds) else if c = CHR ''+'' then (False, ds) else (False, r)
               | [] \<Rightarrow> (False, []))
             in if ds \<noteq> [] \<and> list_all is_digit ds
                then Some (if neg then - digits_val ds else digits_val ds) else None)
          else None)"

definition unsigned_decimal :: "string \<Rightarrow> rat option" where
  "unsigned_decimal s =
     (let ip = takeWhile is_digit s;
          r = dropWhile is_digit s;
          dot = (r \<noteq> [] \<and> hd r = CHR ''.'');
          fp = (if dot then takeWhile is_digit (tl r) else []);
          r2 = (if dot then dropWhile is_digit (tl r) else r)
      in if ip = [] \<and> fp = [] then None
         else map_option (\<lambda>e. of_int (digits_val (ip @ fp)) * 10 powi (e - int (length fp))) (exponent_of r2))"

definition hex_digit :: "char \<Rightarrow> int option" where
  "hex_digit c =
     (if is_digit c then Some (digit_val c)
      else let k = int (of_char (lower_char c)) in if 97 \<le> k \<and> k \<le> 122 then Some (k - 87) else None)"

definition radix_value :: "int \<Rightarrow> string \<Rightarrow> rat option" where
  "radix_value b s =
     (if s = [] then None
      else map_option of_int (fold (\<lambda>c acc. case (acc, hex_digit c) of
             (Some n, Some d) \<Rightarrow> if d < b then Some (n * b + d) else None | _ \<Rightarrow> None) s (Some 0)))"

definition finite_or_inf :: "rat \<Rightarrow> jnum" where
  "finite_or_inf q =
     (if q \<ge> 2 ^ 1024 - 2 ^ 970 then PosInf else if q \<le> - (2 ^ 1024 - 2 ^ 970) then NegInf else Fin (rnd q))"

definition str_to_num :: "string \<Rightarrow> jnum" where
  "str_to_num s0 =
     (let s = trim s0;
          signed = (\<lambda>neg r. if r = ''Infinity'' then (if neg then NegInf else PosInf)
             else case unsigned_decimal r of None \<Rightarrow> NaN | Some q \<Rightarrow> finite_or_inf (if neg then - q else q));
          radix = (\<lambda>b. case radix_value b (drop 2 s) of None \<Rightarrow> NaN | Some q \<Rightarrow> finite_or_inf q)
      in if s = [] then Fin 0
         else if to_lower (take 2 s) = ''0x'' then radix 16
         else if to_lower (take 2 s) = ''0o'' then radix 8
         else if to_lower (take 2 s) = ''0b'' then radix 2
         else if hd s = CHR ''-'' then signed True (tl s)
         else if hd s = CHR ''+'' then signed False (tl s)
         else signed False s)"

subsection \<open>Conversions\<close>

definition has_own :: "string \<Rightarrow> (string \<times> js) list \<Rightarrow> bool" where
  "has_own k kvs \<longleftrightarrow> map_of kvs k \<noteq> None"

definition native_fun :: "string \<Rightarrow> string" where
  "native_fun f = ''function '' @ f @ ''() { [native code] }''"

text \<open>\<open>String\<close> of an array is its \<open>join(",")\<close>, which skips undefined and null.\<close>

fun to_str :: "js \<Rightarrow> string throwing" and join_strs :: "js list \<Rightarrow> string list throwing" where
  "to_str JUndef = Inr ''undefined''"
| "to_str JNull = Inr ''null''"
| "to_str (JBool b) = Inr (if b then ''true'' else ''false'')"
| "to_str (JNum n) = Inr (num_str n)"
| "to_str (JStr s) = Inr s"
| "to_str (JArr xs) = bind_t (join_strs xs) (\<lambda>ss. Inr (join_with '','' ss))"
| "to_str (JObj kvs) = (if has_own ''toString'' kvs then Inl TypeError else Inr ''[object Object]'')"
| "to_str (JFun f) = Inr (native_fun f)"
| "to_str JObjProto = Inr ''[object Object]''"
| "to_str JArrProto = Inr []"
| "join_strs [] = Inr []"
| "join_strs (x # xs) =
     bind_t (if x = JUndef \<or> x = JNull then Inr [] else to_str x)
       (\<lambda>s. bind_t (join_strs xs) (\<lambda>ss. Inr (s # ss)))"

fun to_num :: "js \<Rightarrow> jnum throwing" where
  "to_num JUndef = Inr NaN"
| "to_num JNull = Inr (Fin 0)"
| "to_num (JBool b) = Inr (Fin (if b then 1 else 0))"
| "to_num (JNum n) = Inr n"
| "to_num v = bind_t (to_str v) (\<lambda>s. Inr (str_to_num s))"

fun num_less :: "jnum \<Rightarrow> jnum \<Rightarrow> bool" where
  "num_less (Fin a) (Fin b) = (a < b)"
| "num_less NegInf (Fin _) = True"
| "num_less NegInf PosInf = True"
| "num_less (Fin _) PosInf = True"
| "num_less _ _ = False"

text \<open>
  \<open>===\<close> between a value of the event and a value of a policy: they come from different parses, so
  objects and arrays are never the same reference. \<open>Array.includes\<close> differs on NaN only.
\<close>

fun strict_eq :: "js \<Rightarrow> js \<Rightarrow> bool" where
  "strict_eq (JNum a) (JNum b) = (a = b \<and> a \<noteq> NaN)"
| "strict_eq (JStr a) (JStr b) = (a = b)"
| "strict_eq (JBool a) (JBool b) = (a = b)"
| "strict_eq JNull JNull = True"
| "strict_eq JUndef JUndef = True"
| "strict_eq _ _ = False"

definition same_value_zero :: "js \<Rightarrow> js \<Rightarrow> bool" where
  "same_value_zero a b \<longleftrightarrow> strict_eq a b \<or> (a = JNum NaN \<and> b = JNum NaN)"

lemma num_less_irrefl [simp]: "\<not> num_less a a"
  by (cases a) auto

lemma num_less_trans: "num_less a b \<Longrightarrow> num_less b c \<Longrightarrow> num_less a c"
  by (cases a; cases b; cases c) auto

lemma to_str_own_toString [simp]: "has_own ''toString'' kvs \<Longrightarrow> to_str (JObj kvs) = Inl TypeError"
  by simp

end
