(* ===== verification/Policy.thy ===== *)
theory Policy
  imports JsValue
begin

section \<open>The policy engine\<close>

text \<open>
  The model of src/engine/policy.ts with the data types of src/types/domain.ts that it uses. The policy
  directory is what \<open>reload\<close> reads: None when it does not exist, else its file names in
  directory order with the value \<open>JSON.parse\<close> gives for each (None when reading or parsing
  fails). The engine's \<open>Map\<close> is an insertion-ordered association list. Logging is left out.
\<close>

subsection \<open>Validation\<close>

definition VALID_OPERATORS :: "string list" where
  "VALID_OPERATORS = [''eq'', ''neq'', ''contains'', ''exists'', ''gt'', ''lt'', ''matches'']"

fun is_text :: "js \<Rightarrow> bool" where
  "is_text (JStr _) = True"
| "is_text _ = False"

fun text_of :: "js \<Rightarrow> string" where
  "text_of (JStr s) = s"
| "text_of _ = []"

fun list_of :: "js \<Rightarrow> js list option" where
  "list_of (JArr xs) = Some xs"
| "list_of JArrProto = Some []"
| "list_of _ = None"

fun is_bool :: "js \<Rightarrow> bool" where
  "is_bool (JBool _) = True"
| "is_bool _ = False"

definition blank :: "js \<Rightarrow> bool" where
  "blank v \<longleftrightarrow> \<not> is_text v \<or> trim (text_of v) = []"

fun check_conditions :: "js list \<Rightarrow> string option" where
  "check_conditions [] = None"
| "check_conditions (c # cs) =
     (if \<not> is_object c then Some ''each condition must be an object''
      else if \<not> is_text (get_prop c ''field'') then Some ''condition.field must be a string''
      else if \<not> is_text (get_prop c ''operator'') then Some ''condition.operator must be a string''
      else if text_of (get_prop c ''operator'') \<notin> set VALID_OPERATORS then
        Some (''unknown operator '' @ CHR 0x22 # text_of (get_prop c ''operator'') @ [CHR 0x22])
      else check_conditions cs)"

definition validatePolicy :: "js \<Rightarrow> string option" where
  "validatePolicy p =
     (if \<not> is_object p then Some ''policy must be an object''
      else if blank (get_prop p ''id'') then Some ''missing required string field: id''
      else if blank (get_prop p ''name'') then Some ''missing required string field: name''
      else if \<not> is_text (get_prop p ''framework'') then Some ''missing required string field: framework''
      else if \<not> is_text (get_prop p ''controlId'') then Some ''missing required string field: controlId''
      else if \<not> is_text (get_prop p ''description'') then Some ''missing required string field: description''
      else if \<not> is_text (get_prop p ''version'') then Some ''missing required string field: version''
      else if \<not> is_bool (get_prop p ''enabled'') then Some ''missing required boolean field: enabled''
      else if \<not> is_text (get_prop p ''failureSeverity'')
        then Some ''missing required string field: failureSeverity''
      else case list_of (get_prop p ''appliesTo'') of
             None \<Rightarrow> Some ''appliesTo must be an array''
           | Some ts \<Rightarrow>
               if list_ex (\<lambda>t. \<not> is_text t) ts then Some ''all entries in appliesTo must be strings''
               else case list_of (get_prop p ''conditions'') of
                      None \<Rightarrow> Some ''conditions must be an array''
                    | Some cs \<Rightarrow> check_conditions cs)"

subsection \<open>Policies\<close>

record condition =
  field :: string
  operator :: string
  cvalue :: js

text \<open>\<open>environments\<close> is not validated, so it can be any value.\<close>

record policy =
  policy_id :: string
  policy_name :: string
  framework :: string
  controlId :: string
  description :: string
  appliesTo :: "string list"
  environments :: js
  conditions :: "condition list"
  failureSeverity :: string
  version :: string
  enabled :: bool

definition condition_of :: "js \<Rightarrow> condition" where
  "condition_of c = \<lparr>field = text_of (get_prop c ''field''), operator = text_of (get_prop c ''operator''),
     cvalue = get_prop c ''value''\<rparr>"

definition elements :: "js \<Rightarrow> js list" where
  "elements v = (case list_of v of Some xs \<Rightarrow> xs | None \<Rightarrow> [])"

text \<open>The cast \<open>items[i] as PolicyTemplate\<close> of a validated value.\<close>

definition policy_of :: "js \<Rightarrow> policy" where
  "policy_of p = \<lparr>policy_id = text_of (get_prop p ''id''), policy_name = text_of (get_prop p ''name''),
     framework = text_of (get_prop p ''framework''), controlId = text_of (get_prop p ''controlId''),
     description = text_of (get_prop p ''description''),
     appliesTo = map text_of (elements (get_prop p ''appliesTo'')),
     environments = get_prop p ''environments'',
     conditions = map condition_of (elements (get_prop p ''conditions'')),
     failureSeverity = text_of (get_prop p ''failureSeverity''), version = text_of (get_prop p ''version''),
     enabled = (get_prop p ''enabled'' = JBool True)\<rparr>"

subsection \<open>Loading\<close>

record engine =
  store :: "(string \<times> policy) list"
  watching :: bool
  debounce :: bool

definition loadFile :: "js option \<Rightarrow> policy list option" where
  "loadFile raw =
     (case raw of
        None \<Rightarrow> None
      | Some v \<Rightarrow>
          (let items = (case list_of v of Some xs \<Rightarrow> xs | None \<Rightarrow> [v])
           in Some (map policy_of (filter (\<lambda>i. validatePolicy i = None) items))))"

definition loaded :: "(string \<times> js option) list option \<Rightarrow> policy list" where
  "loaded dir =
     (case dir of
        None \<Rightarrow> []
      | Some files \<Rightarrow>
          concat (map (\<lambda>(name, raw). case loadFile raw of None \<Rightarrow> [] | Some ps \<Rightarrow> ps)
                   (filter (\<lambda>(name, raw). ends_with ''.json'' name) files)))"

fun store_policies :: "policy list \<Rightarrow> (string \<times> policy) list \<Rightarrow> (string \<times> policy) list" where
  "store_policies [] st = st"
| "store_policies (p # ps) st =
     store_policies ps (if \<not> enabled p then st else AList.update (policy_id p) p st)"

definition reload :: "(string \<times> js option) list option \<Rightarrow> engine \<Rightarrow> engine" where
  "reload dir e = e\<lparr>store := store_policies (loaded dir) []\<rparr>"

definition create :: "(string \<times> js option) list option \<Rightarrow> engine" where
  "create dir = reload dir \<lparr>store = [], watching = False, debounce = False\<rparr>"

subsection \<open>Hot reload\<close>

definition watch :: "bool \<Rightarrow> engine \<Rightarrow> engine" where
  "watch dirExists e = (if watching e then e else if \<not> dirExists then e else e\<lparr>watching := True\<rparr>)"

text \<open>The watcher's callback, and the 500 ms timer it (re)starts.\<close>

definition on_change :: "string option \<Rightarrow> engine \<Rightarrow> engine" where
  "on_change filename e =
     (case filename of
        None \<Rightarrow> e
      | Some f \<Rightarrow> if watching e \<and> ends_with ''.json'' f then e\<lparr>debounce := True\<rparr> else e)"

definition on_timer :: "(string \<times> js option) list option \<Rightarrow> engine \<Rightarrow> engine" where
  "on_timer dir e = (if debounce e then reload dir (e\<lparr>debounce := False\<rparr>) else e)"

definition stopWatch :: "engine \<Rightarrow> engine" where
  "stopWatch e = e\<lparr>debounce := False, watching := False\<rparr>"

subsection \<open>Queries\<close>

fun falsy :: "js \<Rightarrow> bool" where
  "falsy JUndef = True"
| "falsy JNull = True"
| "falsy (JBool b) = (\<not> b)"
| "falsy (JNum n) = (n = Fin 0 \<or> n = NaN)"
| "falsy (JStr s) = (s = [])"
| "falsy _ = False"

text \<open>
  \<open>environments && environments.length > 0 && !environments.includes(environment)\<close> on the
  unvalidated value: a string is searched for a substring, an object with a positive \<open>length\<close> has
  no callable \<open>includes\<close>.
\<close>

definition env_excluded :: "js \<Rightarrow> string \<Rightarrow> bool throwing" where
  "env_excluded envs env =
     (if falsy envs then Inr False
      else case envs of
             JStr s \<Rightarrow> Inr (\<not> has_sub env s)
           | JArr xs \<Rightarrow> Inr (xs \<noteq> [] \<and> \<not> list_ex (\<lambda>x. same_value_zero x (JStr env)) xs)
           | JObj kvs \<Rightarrow> bind_t (to_num (get_prop envs ''length''))
               (\<lambda>n. if num_less (Fin 0) n then Inl TypeError else Inr False)
           | _ \<Rightarrow> Inr False)"

fun applicable :: "string \<Rightarrow> string \<Rightarrow> policy list \<Rightarrow> policy list throwing" where
  "applicable etype env [] = Inr []"
| "applicable etype env (p # ps) =
     (if \<not> enabled p then applicable etype env ps
      else if etype \<notin> set (appliesTo p) then applicable etype env ps
      else bind_t (env_excluded (environments p) env)
             (\<lambda>ex. if ex then applicable etype env ps
                   else bind_t (applicable etype env ps) (\<lambda>rs. Inr (p # rs))))"

definition getApplicablePolicies :: "engine \<Rightarrow> string \<Rightarrow> string \<Rightarrow> policy list throwing" where
  "getApplicablePolicies e etype env = applicable etype env (map snd (store e))"

definition getPolicy :: "engine \<Rightarrow> string \<Rightarrow> policy option" where
  "getPolicy e i = map_of (store e) i"

record policy_filter =
  f_framework :: "string option"
  f_eventType :: "string option"
  f_environment :: "string option"
  f_enabledOnly :: bool

definition given :: "string option \<Rightarrow> bool" where
  "given s \<longleftrightarrow> s \<noteq> None \<and> s \<noteq> Some []"

definition env_listed :: "js \<Rightarrow> string \<Rightarrow> bool throwing" where
  "env_listed envs env =
     (if falsy envs then Inr True
      else case envs of
             JStr s \<Rightarrow> Inr (has_sub env s)
           | JArr xs \<Rightarrow> Inr (xs = [] \<or> list_ex (\<lambda>x. same_value_zero x (JStr env)) xs)
           | JObj kvs \<Rightarrow>
               if strict_eq (get_prop envs ''length'') (JNum (Fin 0)) then Inr True else Inl TypeError
           | _ \<Rightarrow> Inl TypeError)"

fun filter_t :: "('a \<Rightarrow> bool throwing) \<Rightarrow> 'a list \<Rightarrow> 'a list throwing" where
  "filter_t f [] = Inr []"
| "filter_t f (x # xs) = bind_t (f x) (\<lambda>b. bind_t (filter_t f xs) (\<lambda>ys. Inr (if b then x # ys else ys)))"

definition listPolicies :: "policy_filter \<Rightarrow> engine \<Rightarrow> policy list throwing" where
  "listPolicies f e =
     (let r0 = map snd (store e);
          r1 = (if given (f_framework f) then filter (\<lambda>p. Some (framework p) = f_framework f) r0 else r0);
          r2 = (if given (f_eventType f) then filter (\<lambda>p. the (f_eventType f) \<in> set (appliesTo p)) r1 else r1)
      in bind_t (if given (f_environment f)
                 then filter_t (\<lambda>p. env_listed (environments p) (the (f_environment f))) r2 else Inr r2)
           (\<lambda>r3. Inr (if f_enabledOnly f then filter enabled r3 else r3)))"

definition size_of :: "engine \<Rightarrow> nat" where
  "size_of e = length (store e)"

subsection \<open>The store\<close>

lemma ends_with_rev: "ends_with t s = prefix (rev t) (rev s)"
  by (simp add: ends_with_def suffix_to_prefix)

lemma store_map: "map_of (store_policies ps st) i =
    (case List.find (\<lambda>p. policy_id p = i) (rev (filter enabled ps)) of
       Some p \<Rightarrow> Some p | None \<Rightarrow> map_of st i)"
  by (induction ps st rule: store_policies.induct) (auto simp: find_append split: option.splits)

lemma store_keys: "distinct (map fst st) \<Longrightarrow> distinct (map fst (store_policies ps st))"
  by (induction ps st rule: store_policies.induct) (auto simp: distinct_update)

lemma store_members:
  "(i, p) \<in> set (store_policies ps st) \<Longrightarrow> distinct (map fst st) \<Longrightarrow>
     (p \<in> set ps \<and> enabled p \<and> policy_id p = i) \<or> (i, p) \<in> set st"
proof -
  assume a: "(i, p) \<in> set (store_policies ps st)" "distinct (map fst st)"
  then have "map_of (store_policies ps st) i = Some p" by (simp add: store_keys)
  then show ?thesis using a(2)
    by (auto simp: store_map split: option.splits dest: find_SomeD map_of_SomeD)
qed

text \<open>What validation guarantees of a policy that passes it.\<close>

definition well_formed :: "policy \<Rightarrow> bool" where
  "well_formed p \<longleftrightarrow> trim (policy_id p) \<noteq> [] \<and> trim (policy_name p) \<noteq> []
     \<and> (\<forall>c \<in> set (conditions p). operator c \<in> set VALID_OPERATORS)"

lemma check_conditions_None:
  "check_conditions cs = None \<Longrightarrow> c \<in> set cs \<Longrightarrow> operator (condition_of c) \<in> set VALID_OPERATORS"
  by (induction cs) (auto simp: condition_of_def split: if_splits)

lemma validated_well_formed: "validatePolicy v = None \<Longrightarrow> well_formed (policy_of v)"
  by (auto simp: validatePolicy_def well_formed_def policy_of_def blank_def elements_def
      dest: check_conditions_None split: if_splits option.splits)

lemma loaded_well_formed: "p \<in> set (loaded dir) \<Longrightarrow> well_formed p"
  by (auto simp: loaded_def loadFile_def Let_def dest: validated_well_formed split: option.splits)

lemma create_store: "store (create dir) = store_policies (loaded dir) []"
  by (simp add: create_def reload_def)

text \<open>The documented shape of \<open>environments\<close>: absent, or an array of strings.\<close>

fun plain_envs :: "js \<Rightarrow> bool" where
  "plain_envs JUndef = True"
| "plain_envs (JArr xs) = list_all is_text xs"
| "plain_envs _ = False"

definition env_names :: "policy \<Rightarrow> string list" where
  "env_names p = map text_of (elements (environments p))"

lemma same_value_text: "is_text x \<Longrightarrow> same_value_zero x (JStr s) \<longleftrightarrow> text_of x = s"
  by (cases x) (auto simp: same_value_zero_def)

lemma env_excluded_plain:
  "plain_envs (environments p) \<Longrightarrow>
     env_excluded (environments p) env = Inr (env_names p \<noteq> [] \<and> env \<notin> set (env_names p))"
  by (cases "environments p")
    (auto simp: env_excluded_def env_names_def elements_def list_ex_iff list_all_iff same_value_text)

lemma applicable_plain:
  "\<forall>p \<in> set ps. plain_envs (environments p) \<Longrightarrow> applicable t env ps =
     Inr (filter (\<lambda>p. enabled p \<and> t \<in> set (appliesTo p) \<and> (env_names p = [] \<or> env \<in> set (env_names p))) ps)"
  by (induction ps) (auto simp: env_excluded_plain)

lemma applicable_subset: "applicable t env ps = Inr rs \<Longrightarrow> p \<in> set rs \<Longrightarrow> p \<in> set ps \<and> enabled p \<and> t \<in> set (appliesTo p)"
proof (induction ps arbitrary: rs)
  case (Cons q ps)
  then show ?case by (auto simp: bind_t_Inr split: if_splits)
qed simp

subsection \<open>Properties of the policy engine\<close>

text \<open>After loading a directory, \<open>getPolicy\<close> of an id is the last enabled, valid policy with that
  id over all its \<open>.json\<close> files, and nothing else is stored: every stored policy is enabled, is
  stored under its own id, has a non-blank id and name, and only conditions with one of the seven
  known operators. A file that does not parse, or an invalid entry, drops nothing else.\<close>

theorem policy_store_lookup:
  shows "getPolicy (create dir) i =
      List.find (\<lambda>p. policy_id p = i) (rev (filter enabled (loaded dir)))
    \<and> distinct (map fst (store (create dir)))
    \<and> (\<forall>(j, p) \<in> set (store (create dir)). p \<in> set (loaded dir) \<and> enabled p \<and> policy_id p = j \<and> well_formed p)"
proof -
  have "well_formed p \<and> p \<in> set (loaded dir) \<and> enabled p \<and> policy_id p = j"
    if "(j, p) \<in> set (store (create dir))" for j p
    using store_members [of j p "loaded dir" "[]"] that loaded_well_formed by (auto simp: create_store)
  then show ?thesis
    by (auto simp: getPolicy_def create_store store_map store_keys split: option.splits)
qed

text \<open>When the loaded policies have their documented shape (\<open>environments\<close> absent or an array of
  strings), \<open>getApplicablePolicies\<close> never throws and gives, in load order, exactly the stored policies
  that list the event type and either name no environment or name the event's.\<close>

theorem applicable_policies_exact:
  assumes "\<forall>p \<in> set (loaded dir). plain_envs (environments p)"
  shows "getApplicablePolicies (create dir) t env =
    Inr (filter (\<lambda>p. t \<in> set (appliesTo p) \<and> (env_names p = [] \<or> env \<in> set (env_names p)))
          (map snd (store (create dir))))"
proof -
  have m: "p \<in> set (loaded dir) \<and> enabled p" if "p \<in> set (map snd (store (create dir)))" for p
    using that store_members [of _ p "loaded dir" "[]"] by (auto simp: create_store)
  have "getApplicablePolicies (create dir) t env = Inr (filter (\<lambda>p. enabled p \<and> t \<in> set (appliesTo p)
      \<and> (env_names p = [] \<or> env \<in> set (env_names p))) (map snd (store (create dir))))"
    unfolding getApplicablePolicies_def using m assms by (intro applicable_plain) blast
  also have "\<dots> = Inr (filter (\<lambda>p. t \<in> set (appliesTo p) \<and> (env_names p = [] \<or> env \<in> set (env_names p)))
          (map snd (store (create dir))))"
    using m by (auto intro!: filter_cong)
  finally show ?thesis .
qed

subsection \<open>A concrete policy directory\<close>

definition demo_policy_js :: "string \<Rightarrow> js \<Rightarrow> js" where
  "demo_policy_js ty conds = JObj [(''id'', JStr ''p1''), (''name'', JStr ''n''), (''framework'', JStr ''SOC2''),
     (''controlId'', JStr ''CC1''), (''description'', JStr []), (''version'', JStr ''1''),
     (''enabled'', JBool True), (''failureSeverity'', JStr ''high''),
     (''appliesTo'', JArr [JStr ty]), (''conditions'', conds)]"

definition demo_condition_js :: js where
  "demo_condition_js = JObj [(''field'', JStr ''metadata.a''), (''operator'', JStr ''eq''), (''value'', JNum (Fin 1))]"

definition demo_dir :: "string \<Rightarrow> (string \<times> js option) list option" where
  "demo_dir ty = Some [(''p.json'', Some (demo_policy_js ty (JArr [demo_condition_js]))), (''q.json'', None)]"

definition demo_template :: "string \<Rightarrow> policy" where
  "demo_template ty = \<lparr>policy_id = ''p1'', policy_name = ''n'', framework = ''SOC2'', controlId = ''CC1'',
     description = [], appliesTo = [ty], environments = JUndef,
     conditions = [\<lparr>field = ''metadata.a'', operator = ''eq'', cvalue = JNum (Fin 1)\<rparr>],
     failureSeverity = ''high'', version = ''1'', enabled = True\<rparr>"

lemma demo_loaded: "loaded (demo_dir ty) = [demo_template ty]"
  by (simp add: loaded_def demo_dir_def loadFile_def demo_policy_js_def demo_condition_js_def validatePolicy_def
      blank_def trim_def is_space_def VALID_OPERATORS_def policy_of_def condition_of_def elements_def
      demo_template_def ends_with_rev object_inherited_def object_methods_def Let_def)

lemma demo_store: "store (create (demo_dir ty)) = [(''p1'', demo_template ty)]"
  by (simp add: create_store demo_loaded) (simp add: demo_template_def)

theorem policy_store_lookup_witness:
  "getPolicy (create (demo_dir ''deploy.failed'')) ''p1'' = Some (demo_template ''deploy.failed'')
    \<and> getPolicy (create (demo_dir ''deploy.failed'')) ''p2'' = None"
  using policy_store_lookup [of "demo_dir ''deploy.failed''" "''p1''"]
    policy_store_lookup [of "demo_dir ''deploy.failed''" "''p2''"]
  by (simp add: demo_loaded) (simp add: demo_template_def)

theorem applicable_policies_exact_witness:
  "getApplicablePolicies (create (demo_dir ''deploy.failed'')) ''deploy.failed'' ''staging''
     = Inr [demo_template ''deploy.failed'']"
  by (subst applicable_policies_exact)
    (simp_all add: demo_loaded demo_store, simp_all add: demo_template_def env_names_def elements_def)

end
