(* ===== verification/Verification.thy ===== *)
theory Verification
  imports Policy
begin

section \<open>The verification engine\<close>

text \<open>
  The model of src/engine/verification.ts. An event is a record and, for field paths, the
  JavaScript object \<open>event_js\<close>. The regular expression engine is the parameter \<open>regex\<close>: \<open>regex
  pattern subject\<close> is None when \<open>new RegExp(pattern)\<close> throws, else the result of \<open>test\<close>. An
  exception inside \<open>verify\<close> rejects its promise: \<open>Inl\<close>. Alert ids (random UUIDs) are left out; the
  clock readings of one verification are one argument \<open>now\<close>; the em dash of two messages is
  written \<open>--\<close>.
\<close>

record actor =
  actor_id :: string
  actor_name :: string
  kind :: string
  ipAddress :: "string option"

record event =
  event_id :: string
  event_type :: string
  occurredAt :: string
  receivedAt :: string
  source :: string
  ev_actor :: actor
  metadata :: "(string \<times> js) list"
  environment :: string

definition actor_js :: "actor \<Rightarrow> js" where
  "actor_js a = JObj ([(''id'', JStr (actor_id a)), (''name'', JStr (actor_name a)), (''kind'', JStr (kind a))]
     @ (case ipAddress a of None \<Rightarrow> [] | Some ip \<Rightarrow> [(''ipAddress'', JStr ip)]))"

definition event_js :: "event \<Rightarrow> js" where
  "event_js ev = JObj [(''id'', JStr (event_id ev)), (''type'', JStr (event_type ev)),
     (''occurredAt'', JStr (occurredAt ev)), (''receivedAt'', JStr (receivedAt ev)),
     (''source'', JStr (source ev)), (''actor'', actor_js (ev_actor ev)), (''metadata'', JObj (metadata ev)),
     (''environment'', JStr (environment ev))]"

definition FORCE_FAIL_EVENT_TYPES :: "string list" where
  "FORCE_FAIL_EVENT_TYPES = [''secret.exposed'', ''audit.log_tampered'']"

subsection \<open>Fields and conditions\<close>

fun resolve_path :: "js \<Rightarrow> string list \<Rightarrow> js" where
  "resolve_path v [] = v"
| "resolve_path v (p # ps) = (if \<not> is_object v then JUndef else resolve_path (get_prop v p) ps)"

definition resolveField :: "event \<Rightarrow> string \<Rightarrow> js" where
  "resolveField ev f = resolve_path (event_js ev) (split_on (CHR ''.'') f)"

record condition_result =
  cr_condition :: condition
  resolvedValue :: js
  passed :: bool
  explanation :: string

definition quote :: "string \<Rightarrow> string" where
  "quote s = CHR 0x22 # s @ [CHR 0x22]"

definition nullish :: "js \<Rightarrow> bool" where
  "nullish v \<longleftrightarrow> v = JUndef \<or> v = JNull"

definition result_of :: "condition \<Rightarrow> js \<Rightarrow> bool \<Rightarrow> string \<Rightarrow> condition_result" where
  "result_of c v b s = \<lparr>cr_condition = c, resolvedValue = v, passed = b, explanation = s\<rparr>"

definition eval_eq :: "js \<Rightarrow> condition \<Rightarrow> condition_result throwing" where
  "eval_eq v c =
     (let f = quote (field c); ok = strict_eq v (cvalue c)
      in if ok then
           bind_t (to_str (cvalue c)) (\<lambda>e. Inr (result_of c v ok (f @ '' equals expected value '' @ quote e)))
         else
           bind_t (to_str v) (\<lambda>s. bind_t (to_str (cvalue c)) (\<lambda>e.
             Inr (result_of c v ok (f @ '' is '' @ quote s @ '' but expected '' @ quote e)))))"

definition eval_neq :: "js \<Rightarrow> condition \<Rightarrow> condition_result throwing" where
  "eval_neq v c =
     (let f = quote (field c); ok = (\<not> strict_eq v (cvalue c))
      in bind_t (to_str (cvalue c)) (\<lambda>e. Inr (result_of c v ok
           (if ok then f @ '' correctly differs from '' @ quote e
            else f @ '' must not equal '' @ quote e @ '' but it does''))))"

definition eval_exists :: "js \<Rightarrow> condition \<Rightarrow> condition_result throwing" where
  "eval_exists v c =
     (let f = quote (field c); ok = (\<not> nullish v)
      in Inr (result_of c v ok (if ok then f @ '' is present'' else f @ '' is missing or null'')))"

definition eval_contains :: "js \<Rightarrow> condition \<Rightarrow> condition_result throwing" where
  "eval_contains v c =
     (let f = quote (field c)
      in case list_of v of
           Some xs \<Rightarrow>
             (let ok = list_ex (\<lambda>x. same_value_zero x (cvalue c)) xs
              in bind_t (to_str (cvalue c)) (\<lambda>e. Inr (result_of c v ok
                   (if ok then ''array '' @ f @ '' contains '' @ quote e
                    else ''array '' @ f @ '' does not contain '' @ quote e))))
         | None \<Rightarrow>
             if is_text v then
               bind_t (if nullish (cvalue c) then Inr [] else to_str (cvalue c)) (\<lambda>needle.
                 bind_t (to_str (cvalue c)) (\<lambda>e.
                   let ok = has_sub needle (text_of v)
                   in Inr (result_of c v ok
                        (if ok then f @ '' contains substring '' @ quote e
                         else f @ '' does not contain '' @ quote e))))
             else Inr (result_of c v False (f @ '' is not a string or array -- cannot apply '' @ quote ''contains'')))"

text \<open>\<open>gt\<close> and \<open>lt\<close> share the shape; \<open>num_less\<close> is false on NaN, like the guarded comparison.\<close>

definition eval_compare :: "string \<Rightarrow> (jnum \<Rightarrow> jnum \<Rightarrow> bool) \<Rightarrow> js \<Rightarrow> condition \<Rightarrow> condition_result throwing" where
  "eval_compare word cmp v c =
     (let f = quote (field c)
      in bind_t (to_num v) (\<lambda>n. bind_t (to_num (cvalue c)) (\<lambda>t.
           if n \<noteq> NaN \<and> t \<noteq> NaN \<and> cmp n t then
             Inr (result_of c v True (f @ '' ('' @ num_str n @ '') is '' @ word @ '' than '' @ num_str t))
           else bind_t (to_str v) (\<lambda>s.
             Inr (result_of c v False (f @ '' ('' @ s @ '') is not '' @ word @ '' than '' @ num_str t))))))"

definition eval_matches ::
  "(string \<Rightarrow> string \<Rightarrow> bool option) \<Rightarrow> js \<Rightarrow> condition \<Rightarrow> condition_result throwing" where
  "eval_matches regex v c =
     (let f = quote (field c)
      in if \<not> is_text v then
           Inr (result_of c v False (f @ '' is not a string -- cannot apply regex '' @ quote ''matches''))
         else
           bind_t (if nullish (cvalue c) then Inr [] else to_str (cvalue c)) (\<lambda>pattern.
             case regex pattern (text_of v) of
               None \<Rightarrow> Inl SyntaxError
             | Some ok \<Rightarrow>
                 bind_t (to_str (cvalue c)) (\<lambda>e. Inr (result_of c v ok
                   (if ok then f @ '' matches pattern /'' @ e @ ''/''
                    else f @ '' does not match pattern /'' @ e @ ''/'')))))"

definition evaluateCondition ::
  "(string \<Rightarrow> string \<Rightarrow> bool option) \<Rightarrow> event \<Rightarrow> condition \<Rightarrow> condition_result throwing" where
  "evaluateCondition regex ev c =
     (let v = resolveField ev (field c)
      in if operator c = ''eq'' then eval_eq v c
         else if operator c = ''neq'' then eval_neq v c
         else if operator c = ''exists'' then eval_exists v c
         else if operator c = ''contains'' then eval_contains v c
         else if operator c = ''gt'' then eval_compare ''greater'' (\<lambda>n t. num_less t n) v c
         else if operator c = ''lt'' then eval_compare ''less'' num_less v c
         else if operator c = ''matches'' then eval_matches regex v c
         else Inr (result_of c v False (''unknown operator '' @ quote (operator c))))"

subsection \<open>Policies\<close>

datatype verification_outcome = Pass | Fail | Inconclusive

record verification_result =
  r_eventId :: string
  r_policyId :: string
  r_controlId :: string
  r_framework :: string
  outcome :: verification_outcome
  conditionResults :: "condition_result list"
  evaluatedAt :: time
  summary :: string

definition policy_result ::
  "event \<Rightarrow> policy \<Rightarrow> time \<Rightarrow> verification_outcome \<Rightarrow> condition_result list \<Rightarrow> string \<Rightarrow> verification_result" where
  "policy_result ev p now out crs s =
     \<lparr>r_eventId = event_id ev, r_policyId = policy_id p, r_controlId = controlId p, r_framework = framework p,
      outcome = out, conditionResults = crs, evaluatedAt = now, summary = s\<rparr>"

definition evaluatePolicy ::
  "(string \<Rightarrow> string \<Rightarrow> bool option) \<Rightarrow> event \<Rightarrow> time \<Rightarrow> policy \<Rightarrow> verification_result throwing" where
  "evaluatePolicy regex ev now p =
     (if event_type ev \<in> set FORCE_FAIL_EVENT_TYPES then
        Inr (policy_result ev p now Fail [] (''Event type '' @ quote (event_type ev)
          @ '' is unconditionally treated as a control failure ('' @ controlId p @ '').''))
      else if conditions p = [] then
        Inr (policy_result ev p now Pass [] (''Policy '' @ quote (policy_name p)
          @ '' has no conditions -- event type presence is sufficient.''))
      else
        bind_t (map_t (evaluateCondition regex ev) (conditions p)) (\<lambda>crs.
          let allPassed = list_all passed crs;
              failed = filter (\<lambda>r. \<not> passed r) crs;
              total = int_str (int (length crs))
          in Inr (policy_result ev p now (if allPassed then Pass else Fail) crs
               (if allPassed then ''All '' @ total @ '' condition(s) passed for policy '' @ quote (policy_name p)
                     @ '' ('' @ controlId p @ '').''
                else int_str (int (length failed)) @ '' of '' @ total @ '' condition(s) failed for policy ''
                     @ quote (policy_name p) @ '' ('' @ controlId p @ ''): ''
                     @ join_with ''; '' (map explanation failed)))))"

definition aggregateOutcome :: "verification_result list \<Rightarrow> verification_outcome" where
  "aggregateOutcome rs =
     (if list_ex (\<lambda>r. outcome r = Fail) rs then Fail
      else if list_all (\<lambda>r. outcome r = Pass) rs then Pass else Inconclusive)"

record alert =
  al_eventId :: string
  al_policyId :: string
  al_controlId :: string
  al_framework :: string
  severity :: string
  message :: string
  al_event :: event
  al_result :: verification_result
  triggeredAt :: time
  acknowledged :: bool

definition buildAlert :: "event \<Rightarrow> time \<Rightarrow> policy \<Rightarrow> verification_result \<Rightarrow> alert" where
  "buildAlert ev now p r = \<lparr>al_eventId = event_id ev, al_policyId = policy_id p, al_controlId = controlId p,
     al_framework = framework p, severity = failureSeverity p, message = summary r, al_event = ev,
     al_result = r, triggeredAt = now, acknowledged = False\<rparr>"

record batch =
  b_event :: event
  results :: "verification_result list"
  overallOutcome :: verification_outcome
  alerts :: "alert list"

text \<open>The loop over the policies: results and alerts in the order of the policies.\<close>

fun verify_policies ::
  "(string \<Rightarrow> string \<Rightarrow> bool option) \<Rightarrow> event \<Rightarrow> time \<Rightarrow> policy list
   \<Rightarrow> (verification_result list \<times> alert list) throwing" where
  "verify_policies regex ev now [] = Inr ([], [])"
| "verify_policies regex ev now (p # ps) =
     bind_t (evaluatePolicy regex ev now p) (\<lambda>r.
       bind_t (verify_policies regex ev now ps) (\<lambda>(rs, as).
         Inr (r # rs, if outcome r = Fail then buildAlert ev now p r # as else as)))"

definition verify ::
  "(string \<Rightarrow> string \<Rightarrow> bool option) \<Rightarrow> engine \<Rightarrow> time \<Rightarrow> event \<Rightarrow> batch throwing" where
  "verify regex e now ev =
     bind_t (getApplicablePolicies e (event_type ev) (environment ev)) (\<lambda>ps.
       if ps = [] then
         Inr \<lparr>b_event = ev,
              results = [\<lparr>r_eventId = event_id ev, r_policyId = ''none'', r_controlId = ''N/A'',
                r_framework = ''SOC2'', outcome = Inconclusive, conditionResults = [], evaluatedAt = now,
                summary = ''No policies found for event type '' @ quote (event_type ev) @ '' in environment ''
                  @ quote (environment ev) @ ''. Manual review recommended.''\<rparr>],
              overallOutcome = Inconclusive, alerts = []\<rparr>
       else
         bind_t (verify_policies regex ev now ps) (\<lambda>(rs, as).
           Inr \<lparr>b_event = ev, results = rs, overallOutcome = aggregateOutcome rs, alerts = as\<rparr>))"

subsection \<open>Evidence records\<close>

text \<open>\<open>digest\<close> is SHA-256 of the \<open>JSON.stringify\<close> of the record's body, a parameter.\<close>

record evidence_body =
  rec_id :: string
  rec_event :: event
  rec_results :: "verification_result list"
  rec_outcome :: verification_outcome
  previousHash :: string
  recordedAt :: time

record evidence_record = evidence_body +
  integrity :: string

definition buildEvidenceRecord ::
  "(evidence_body \<Rightarrow> string) \<Rightarrow> string \<Rightarrow> time \<Rightarrow> batch \<Rightarrow> string \<Rightarrow> evidence_record" where
  "buildEvidenceRecord digest uuid now b prev =
     (let body = \<lparr>rec_id = uuid, rec_event = b_event b, rec_results = results b,
                   rec_outcome = overallOutcome b, previousHash = prev, recordedAt = now\<rparr>
      in evidence_body.extend body \<lparr>integrity = digest body\<rparr>)"

subsection \<open>What a condition means\<close>

text \<open>
  The declarative reading of the operators, on the resolved value \<open>v\<close> and the expected value \<open>w\<close>.
\<close>

definition number_of :: "js \<Rightarrow> jnum option" where
  "number_of v = (case to_num v of Inr NaN \<Rightarrow> None | Inr n \<Rightarrow> Some n | Inl _ \<Rightarrow> None)"

definition text_or_empty :: "js \<Rightarrow> string option" where
  "text_or_empty w = (if nullish w then Some [] else case to_str w of Inr s \<Rightarrow> Some s | Inl _ \<Rightarrow> None)"

definition op_holds :: "(string \<Rightarrow> string \<Rightarrow> bool option) \<Rightarrow> string \<Rightarrow> js \<Rightarrow> js \<Rightarrow> bool" where
  "op_holds regex opr v w \<longleftrightarrow>
     opr = ''eq'' \<and> strict_eq v w
     \<or> opr = ''neq'' \<and> \<not> strict_eq v w
     \<or> opr = ''exists'' \<and> v \<noteq> JUndef \<and> v \<noteq> JNull
     \<or> opr = ''contains'' \<and> (\<exists>xs. list_of v = Some xs \<and> (\<exists>x \<in> set xs. same_value_zero x w))
     \<or> opr = ''contains'' \<and> (\<exists>s n. v = JStr s \<and> text_or_empty w = Some n \<and> sublist n s)
     \<or> opr = ''gt'' \<and> (\<exists>a b. number_of v = Some a \<and> number_of w = Some b \<and> num_less b a)
     \<or> opr = ''lt'' \<and> (\<exists>a b. number_of v = Some a \<and> number_of w = Some b \<and> num_less a b)
     \<or> opr = ''matches'' \<and> (\<exists>s p. v = JStr s \<and> text_or_empty w = Some p \<and> regex p s = Some True)"

lemma list_of_text: "is_text v \<Longrightarrow> list_of v = None"
  by (cases v) auto

lemma is_text_iff: "is_text v \<longleftrightarrow> (\<exists>s. v = JStr s)"
  by (cases v) auto

lemma passed_result [simp]: "passed (result_of c v b s) = b"
  by (simp add: result_of_def)

lemma eval_eq_passed: "eval_eq v c = Inr r \<Longrightarrow> passed r = strict_eq v (cvalue c)"
  by (auto simp: eval_eq_def bind_t_Inr Let_def split: if_splits)

lemma eval_neq_passed: "eval_neq v c = Inr r \<Longrightarrow> passed r = (\<not> strict_eq v (cvalue c))"
  by (auto simp: eval_neq_def bind_t_Inr Let_def)

lemma eval_exists_passed: "eval_exists v c = Inr r \<Longrightarrow> passed r = (v \<noteq> JUndef \<and> v \<noteq> JNull)"
  by (auto simp: eval_exists_def Let_def nullish_def)

lemma eval_contains_passed:
  "eval_contains v c = Inr r \<Longrightarrow>
     passed r = ((\<exists>xs. list_of v = Some xs \<and> (\<exists>x \<in> set xs. same_value_zero x (cvalue c)))
       \<or> (\<exists>s n. v = JStr s \<and> text_or_empty (cvalue c) = Some n \<and> sublist n s))"
  by (auto simp: eval_contains_def bind_t_Inr Let_def text_or_empty_def list_ex_iff is_text_iff
      has_sub_iff_sublist split: option.splits if_splits)

lemma number_of_Some: "number_of v = Some a \<longleftrightarrow> to_num v = Inr a \<and> a \<noteq> NaN"
  by (auto simp: number_of_def split: sum.splits jnum.splits)

lemma eval_compare_passed:
  assumes "eval_compare word cmp v c = Inr r"
  shows "passed r = (\<exists>a b. number_of v = Some a \<and> number_of (cvalue c) = Some b \<and> cmp a b)"
proof -
  obtain n t where nt: "to_num v = Inr n" "to_num (cvalue c) = Inr t"
    using assms by (auto simp only: eval_compare_def bind_t_Inr Let_def)
  have "passed r = (n \<noteq> NaN \<and> t \<noteq> NaN \<and> cmp n t)"
  proof (cases "n \<noteq> NaN \<and> t \<noteq> NaN \<and> cmp n t")
    case True
    then show ?thesis using assms by (auto simp only: eval_compare_def nt bind_t_simps Let_def if_True passed_result Inr_inject simp_thms)
  next
    case False
    then obtain s x where "r = result_of c v False x"
      using assms by (auto simp only: eval_compare_def nt bind_t_simps bind_t_Inr Let_def if_False Inr_inject)
    then show ?thesis using False by simp
  qed
  then show ?thesis using nt by (simp add: number_of_Some)
qed

lemma eval_matches_passed:
  assumes "eval_matches regex v c = Inr r"
  shows "passed r = (\<exists>s p. v = JStr s \<and> text_or_empty (cvalue c) = Some p \<and> regex p s = Some True)"
proof (cases "is_text v")
  case False
  then show ?thesis using assms by (auto simp: eval_matches_def Let_def)
next
  case True
  then obtain s where s: "v = JStr s" by (auto simp: is_text_iff)
  obtain p ok x where p: "text_or_empty (cvalue c) = Some p" "regex p s = Some ok" "r = result_of c v ok x"
    using assms by (auto simp add: eval_matches_def Let_def s bind_t_Inr text_or_empty_def
        simp del: append.simps split: option.splits if_splits)
  then show ?thesis by (simp add: s)
qed

lemmas eval_passed = eval_eq_passed eval_neq_passed eval_exists_passed eval_contains_passed
  eval_compare_passed eval_matches_passed

lemma evaluateCondition_passed:
  assumes "evaluateCondition regex ev c = Inr r"
  shows "passed r = op_holds regex (operator c) (resolveField ev (field c)) (cvalue c)"
  using assms
  by (auto simp: evaluateCondition_def Let_def op_holds_def dest!: eval_passed split: if_splits)

definition policy_holds :: "(string \<Rightarrow> string \<Rightarrow> bool option) \<Rightarrow> event \<Rightarrow> policy \<Rightarrow> bool" where
  "policy_holds regex ev p \<longleftrightarrow> event_type ev \<notin> set FORCE_FAIL_EVENT_TYPES
     \<and> (\<forall>c \<in> set (conditions p). op_holds regex (operator c) (resolveField ev (field c)) (cvalue c))"

lemma evaluatePolicy_outcome:
  assumes "evaluatePolicy regex ev now p = Inr r"
  shows "outcome r = (if policy_holds regex ev p then Pass else Fail)"
    and "r_policyId r = policy_id p" and "length (conditionResults r) \<le> length (conditions p)"
proof -
  have "outcome r = (if policy_holds regex ev p then Pass else Fail) \<and> r_policyId r = policy_id p
    \<and> length (conditionResults r) \<le> length (conditions p)"
  proof (cases "event_type ev \<in> set FORCE_FAIL_EVENT_TYPES \<or> conditions p = []")
    case True
    then show ?thesis using assms
      by (auto simp: evaluatePolicy_def policy_holds_def policy_result_def)
  next
    case False
    then obtain crs where crs: "map_t (evaluateCondition regex ev) (conditions p) = Inr crs"
      "outcome r = (if list_all passed crs then Pass else Fail)" "r_policyId r = policy_id p"
      "conditionResults r = crs"
      using assms by (auto simp: evaluatePolicy_def bind_t_Inr policy_result_def Let_def)
    have l: "list_all2 (\<lambda>c r. evaluateCondition regex ev c = Inr r) (conditions p) crs"
      using crs(1) by (simp add: map_t_Inr)
    have "list_all passed crs \<longleftrightarrow>
        (\<forall>c \<in> set (conditions p). op_holds regex (operator c) (resolveField ev (field c)) (cvalue c))"
      using l by (induction rule: list_all2_induct) (auto simp: evaluateCondition_passed)
    then show ?thesis using crs False list_all2_lengthD [OF l] by (simp add: policy_holds_def)
  qed
  then show "outcome r = (if policy_holds regex ev p then Pass else Fail)"
    "r_policyId r = policy_id p" "length (conditionResults r) \<le> length (conditions p)" by simp_all
qed

lemma verify_policies_Inr:
  assumes "verify_policies regex ev now ps = Inr (rs, as)"
  shows "list_all2 (\<lambda>p r. evaluatePolicy regex ev now p = Inr r) ps rs
    \<and> map outcome rs = map (\<lambda>p. if policy_holds regex ev p then Pass else Fail) ps
    \<and> map r_policyId rs = map policy_id ps
    \<and> map (\<lambda>a. (al_policyId a, severity a)) as =
        map (\<lambda>p. (policy_id p, failureSeverity p)) (filter (\<lambda>p. \<not> policy_holds regex ev p) ps)"
  using assms
proof (induction ps arbitrary: rs as)
  case (Cons p ps)
  then show ?case
    by (auto simp: bind_t_Inr evaluatePolicy_outcome buildAlert_def split: if_splits)
qed simp

lemma aggregate_pass_fail:
  assumes "map outcome rs = map (\<lambda>p. if h p then Pass else Fail) ps"
  shows "aggregateOutcome rs = (if \<forall>p \<in> set ps. h p then Pass else Fail)"
proof -
  have s: "outcome ` set rs = (\<lambda>p. if h p then Pass else Fail) ` set ps"
    using arg_cong [OF assms, of set] by simp
  have "(\<exists>r \<in> set rs. outcome r = Fail) \<longleftrightarrow> Fail \<in> outcome ` set rs" by force
  also have "\<dots> \<longleftrightarrow> (\<exists>p \<in> set ps. \<not> h p)" unfolding s by auto
  finally have f: "(\<exists>r \<in> set rs. outcome r = Fail) \<longleftrightarrow> (\<exists>p \<in> set ps. \<not> h p)" .
  have "outcome r = Pass \<or> outcome r = Fail" if "r \<in> set rs" for r
  proof -
    have "outcome r \<in> (\<lambda>p. if h p then Pass else Fail) ` set ps"
      using imageI [OF that, of outcome] unfolding s .
    then show ?thesis by auto
  qed
  then have "(\<forall>r \<in> set rs. outcome r = Pass) \<longleftrightarrow> \<not> (\<exists>r \<in> set rs. outcome r = Fail)" by force
  then show ?thesis using f by (auto simp: aggregateOutcome_def list_ex_iff list_all_iff)
qed

lemma verify_cases:
  assumes "verify regex e now ev = Inr b" "getApplicablePolicies e (event_type ev) (environment ev) = Inr ps"
  obtains "ps = []" "overallOutcome b = Inconclusive" "alerts b = []" "map r_policyId (results b) = [''none'']"
  | "ps \<noteq> []" "verify_policies regex ev now ps = Inr (results b, alerts b)"
      "overallOutcome b = aggregateOutcome (results b)"
  using assms by (auto simp: verify_def bind_t_Inr split: if_splits)

text \<open>A policy that cannot be evaluated makes the whole verification fail.\<close>

lemma verify_policies_throws:
  "p \<in> set ps \<Longrightarrow> evaluatePolicy regex ev now p = Inl e \<Longrightarrow> \<exists>e'. verify_policies regex ev now ps = Inl e'"
proof (induction ps)
  case (Cons q ps)
  then show ?case
    by (cases "evaluatePolicy regex ev now q") auto
qed simp

lemma map_t_throws: "x \<in> set xs \<Longrightarrow> f x = Inl e \<Longrightarrow> \<exists>e'. map_t f xs = Inl e'"
proof (induction xs)
  case (Cons y xs)
  then show ?case by (cases "f y") auto
qed simp

subsection \<open>Evidence chains\<close>

text \<open>A log: each record is built with the previous record's \<open>integrity\<close> as its \<open>previousHash\<close>.\<close>

fun build_log ::
  "(evidence_body \<Rightarrow> string) \<Rightarrow> string \<Rightarrow> (string \<times> time \<times> batch) list \<Rightarrow> evidence_record list" where
  "build_log digest prev [] = []"
| "build_log digest prev ((uuid, now, b) # xs) =
     (let r = buildEvidenceRecord digest uuid now b prev in r # build_log digest (integrity r) xs)"

text \<open>What an auditor can check of any list of records, and the hash it ends with.\<close>

fun chained :: "(evidence_body \<Rightarrow> string) \<Rightarrow> string \<Rightarrow> evidence_record list \<Rightarrow> bool" where
  "chained digest prev [] \<longleftrightarrow> True"
| "chained digest prev (r # rs) \<longleftrightarrow> previousHash r = prev \<and> integrity r = digest (evidence_body.truncate r)
     \<and> chained digest (integrity r) rs"

definition last_hash :: "string \<Rightarrow> evidence_record list \<Rightarrow> string" where
  "last_hash g rs = (if rs = [] then g else integrity (last rs))"

lemma chained_snoc: "chained digest g (rs @ [r]) \<longleftrightarrow>
    chained digest g rs \<and> previousHash r = last_hash g rs \<and> integrity r = digest (evidence_body.truncate r)"
  by (induction digest g rs rule: chained.induct) (auto simp: last_hash_def)

lemma build_log_chained: "chained digest g (build_log digest g xs)"
  by (induction digest g xs rule: build_log.induct)
    (auto simp: buildEvidenceRecord_def evidence_body.defs Let_def)

lemma record_eqI:
  "evidence_body.truncate r = evidence_body.truncate r' \<Longrightarrow> integrity r = integrity r' \<Longrightarrow> r = r'"
  for r r' :: evidence_record
  by (cases r; cases r') (simp add: evidence_body.defs)

lemma chained_unique:
  assumes "chained digest g rs" "chained digest g rs'" "last_hash g rs = last_hash g rs'"
    "inj_on digest (evidence_body.truncate ` (set rs \<union> set rs'))"
    "g \<notin> digest ` evidence_body.truncate ` (set rs \<union> set rs')"
  shows "rs = rs'"
  using assms
proof (induction rs arbitrary: rs' rule: rev_induct)
  case Nil
  then show ?case by (cases rs' rule: rev_cases) (auto simp: chained_snoc last_hash_def)
next
  case (snoc r rs)
  show ?case
  proof (cases rs' rule: rev_cases)
    case Nil
    then show ?thesis using snoc.prems by (auto simp: chained_snoc last_hash_def)
  next
    case e: (snoc rs2 r2)
    have ch: "chained digest g rs" "previousHash r = last_hash g rs" "integrity r = digest (evidence_body.truncate r)"
      using snoc.prems(1) by (simp_all add: chained_snoc)
    have ch2: "chained digest g rs2" "previousHash r2 = last_hash g rs2" "integrity r2 = digest (evidence_body.truncate r2)"
      using snoc.prems(2) by (simp_all add: chained_snoc e)
    have eq: "integrity r = integrity r2" using snoc.prems(3) by (simp add: last_hash_def e)
    have "evidence_body.truncate r = evidence_body.truncate r2"
      using snoc.prems(4) by (rule inj_onD) (use eq ch(3) ch2(3) e in auto)
    then have r: "r = r2" using eq by (rule record_eqI)
    have sub: "evidence_body.truncate ` (set rs \<union> set rs2) \<subseteq> evidence_body.truncate ` (set (rs @ [r]) \<union> set rs')"
      by (auto simp: e)
    have "rs = rs2"
    proof (rule snoc.IH [OF ch(1) ch2(1)])
      show "last_hash g rs = last_hash g rs2" using ch(2) ch2(2) r by simp
      show "inj_on digest (evidence_body.truncate ` (set rs \<union> set rs2))"
        using snoc.prems(4) sub by (rule inj_on_subset)
      show "g \<notin> digest ` evidence_body.truncate ` (set rs \<union> set rs2)"
        using snoc.prems(5) sub by blast
    qed
    then show ?thesis using e r by simp
  qed
qed

subsection \<open>Properties of the verification engine\<close>

text \<open>C30: A verification that returns is the conjunction it promises. With no applicable policy it is
  inconclusive, with one placeholder result and no alert. Otherwise there is one result per
  applicable policy, in order; a policy passes exactly when the event type is not one of the forced failures
  and every condition holds of the field it names; the overall outcome is a failure as soon as one
  policy fails and a pass otherwise, never inconclusive; and exactly the failed policies raise an
  alert, in order, each with its policy's severity.\<close>

theorem verify_outcome:
  assumes "verify regex e now ev = Inr b"
    "getApplicablePolicies e (event_type ev) (environment ev) = Inr ps"
  shows "if ps = [] then overallOutcome b = Inconclusive \<and> map r_policyId (results b) = [''none''] \<and> alerts b = []
    else map r_policyId (results b) = map policy_id ps
      \<and> map outcome (results b) = map (\<lambda>p. if policy_holds regex ev p then Pass else Fail) ps
      \<and> overallOutcome b = (if \<forall>p \<in> set ps. policy_holds regex ev p then Pass else Fail)
      \<and> map (\<lambda>a. (al_policyId a, severity a)) (alerts b) =
          map (\<lambda>p. (policy_id p, failureSeverity p)) (filter (\<lambda>p. \<not> policy_holds regex ev p) ps)"
  using verify_cases [OF assms]
proof cases
  case 1
  then show ?thesis by simp
next
  case 2
  note v = verify_policies_Inr [OF 2(2)]
  then have m: "map outcome (results b) = map (\<lambda>p. if policy_holds regex ev p then Pass else Fail) ps" by simp
  show ?thesis using 2(1,3) v aggregate_pass_fail [OF m] by simp
qed

text \<open>An exposed secret or a tampered log fails every applicable policy whatever its conditions
  say, always returns, and raises one alert per applicable policy. When no loaded policy applies, though,
  the same event is only inconclusive and raises no alert.\<close>

theorem forced_failure:
  assumes "event_type ev \<in> set FORCE_FAIL_EVENT_TYPES"
    "getApplicablePolicies e (event_type ev) (environment ev) = Inr ps"
  shows "\<exists>b. verify regex e now ev = Inr b
    \<and> (if ps = [] then overallOutcome b = Inconclusive \<and> alerts b = []
       else overallOutcome b = Fail \<and> length (alerts b) = length ps)"
proof -
  have one: "\<exists>r. evaluatePolicy regex ev now p = Inr r \<and> outcome r = Fail" for p
    using assms(1) by (simp add: evaluatePolicy_def policy_result_def)
  have "\<exists>rs as. verify_policies regex ev now ps = Inr (rs, as) \<and> length as = length ps
      \<and> length rs = length ps \<and> (\<forall>r \<in> set rs. outcome r = Fail)" for ps
  proof (induction ps)
    case (Cons p ps)
    then obtain rs as where "verify_policies regex ev now ps = Inr (rs, as)" "length as = length ps"
      "length rs = length ps" "\<forall>r \<in> set rs. outcome r = Fail" by blast
    moreover obtain r where "evaluatePolicy regex ev now p = Inr r" "outcome r = Fail" using one by blast
    ultimately show ?case by simp
  qed simp
  from this [of ps] obtain rs as where v: "verify_policies regex ev now ps = Inr (rs, as)"
    "length as = length ps" "length rs = length ps" "\<forall>r \<in> set rs. outcome r = Fail" by blast
  then show ?thesis using assms(2)
    by (cases rs) (auto simp: verify_def aggregateOutcome_def)
qed

text \<open>One crafted event value stops the verification: when some applicable policy compares a field with
  \<open>eq\<close> and the event holds there an object with an own property named \<open>toString\<close>, building the explanation
  throws and the whole verification rejects, with no result and no alert for any policy.\<close>

theorem crafted_value_rejects:
  assumes "getApplicablePolicies e (event_type ev) (environment ev) = Inr ps" "p \<in> set ps"
    "event_type ev \<notin> set FORCE_FAIL_EVENT_TYPES" "c \<in> set (conditions p)" "operator c = ''eq''"
    "resolveField ev (field c) = JObj kvs" "has_own ''toString'' kvs"
  shows "\<exists>err. verify regex e now ev = Inl err"
proof -
  have "strict_eq (JObj kvs) v = False" for v by (cases v) simp_all
  then have "evaluateCondition regex ev c = Inl TypeError"
    using assms(5-7) by (simp add: evaluateCondition_def eval_eq_def)
  from map_t_throws [where f = "evaluateCondition regex ev", OF assms(4) this] obtain e1 where "map_t (evaluateCondition regex ev) (conditions p) = Inl e1" ..
  then have "evaluatePolicy regex ev now p = Inl e1"
    using assms(3,4) by (auto simp: evaluatePolicy_def)
  then obtain e2 where "verify_policies regex ev now ps = Inl e2"
    using verify_policies_throws [OF assms(2)] by blast
  then show ?thesis using assms(1,2) by (auto simp: verify_def)
qed

text \<open>The evidence log is tamper-evident: with a digest that has no collision on the records
  concerned and never gives the genesis value, the only list of records that chains from the
  genesis to the last integrity hash of a log built by \<open>buildEvidenceRecord\<close> is that log itself,
  record for record.\<close>

theorem evidence_log_binding:
  assumes "chained digest g rs" "last_hash g rs = last_hash g (build_log digest g xs)"
    "inj_on digest (evidence_body.truncate ` (set rs \<union> set (build_log digest g xs)))"
    "g \<notin> digest ` evidence_body.truncate ` (set rs \<union> set (build_log digest g xs))"
  shows "rs = build_log digest g xs \<and> chained digest g (build_log digest g xs)"
  using chained_unique [OF assms(1) build_log_chained assms(2,3,4)] build_log_chained by blast

subsection \<open>Concrete events\<close>

definition demo_event :: "string \<Rightarrow> js \<Rightarrow> event" where
  "demo_event ty v = \<lparr>event_id = ''e1'', event_type = ty, occurredAt = ''2026-01-01'', receivedAt = ''2026-01-01'',
     source = ''github'', ev_actor = \<lparr>actor_id = ''u'', actor_name = ''U'', kind = ''human'', ipAddress = None\<rparr>,
     metadata = [(''a'', v)], environment = ''production''\<rparr>"

lemma demo_applicable:
  "getApplicablePolicies (create (demo_dir ty)) (event_type (demo_event ty v)) (environment (demo_event ty v)) =
     Inr [demo_template ty]"
  by (simp add: getApplicablePolicies_def demo_store) (simp add: demo_event_def demo_template_def env_excluded_def)

lemma demo_resolve: "resolveField (demo_event ty v) ''metadata.a'' = v"
  by (simp add: resolveField_def demo_event_def event_js_def)

lemma demo_evaluates:
  "\<exists>r. evaluatePolicy regex (demo_event ''deploy.failed'' (JNum (Fin 2))) now (demo_template ''deploy.failed'') = Inr r"
  using demo_resolve [of "''deploy.failed''" "JNum (Fin 2)"]
  by (simp add: evaluatePolicy_def demo_template_def evaluateCondition_def eval_eq_def Let_def)

theorem verify_outcome_witness:
  "\<exists>b. verify (\<lambda>p s. None) (create (demo_dir ''deploy.failed'')) 0 (demo_event ''deploy.failed'' (JNum (Fin 2))) = Inr b
     \<and> overallOutcome b = Fail \<and> map al_policyId (alerts b) = [''p1'']"
proof -
  let ?ev = "demo_event ''deploy.failed'' (JNum (Fin 2))"
  obtain r where "evaluatePolicy (\<lambda>p s. None) ?ev 0 (demo_template ''deploy.failed'') = Inr r"
    using demo_evaluates by blast
  then obtain b where b: "verify (\<lambda>p s. None) (create (demo_dir ''deploy.failed'')) 0 ?ev = Inr b"
    by (auto simp: verify_def demo_applicable)
  have "\<not> policy_holds (\<lambda>p s. None) ?ev (demo_template ''deploy.failed'')"
    using demo_resolve [of "''deploy.failed''" "JNum (Fin 2)"]
    by (simp add: policy_holds_def op_holds_def demo_template_def)
  then show ?thesis using verify_outcome [OF b demo_applicable] b
    by (auto simp: demo_template_def)
qed

theorem forced_failure_witness:
  "\<exists>b. verify (\<lambda>p s. None) (create (demo_dir ''secret.exposed'')) 0 (demo_event ''secret.exposed'' JNull) = Inr b
     \<and> overallOutcome b = Fail \<and> length (alerts b) = 1"
  using forced_failure [OF _ demo_applicable [of "''secret.exposed''" JNull], of "\<lambda>p s. None" 0]
  by (simp add: FORCE_FAIL_EVENT_TYPES_def demo_event_def)

theorem crafted_value_rejects_witness:
  "\<exists>err. verify (\<lambda>p s. None) (create (demo_dir ''deploy.failed'')) 0
     (demo_event ''deploy.failed'' (JObj [(''toString'', JNull)])) = Inl err"
  by (rule crafted_value_rejects [OF demo_applicable, where p = "demo_template ''deploy.failed''"
        and c = "\<lparr>field = ''metadata.a'', operator = ''eq'', cvalue = JNum (Fin 1)\<rparr>"
        and kvs = "[(''toString'', JNull)]"])
    (simp_all add: FORCE_FAIL_EVENT_TYPES_def demo_resolve has_own_def, simp_all add: demo_event_def demo_template_def)

definition demo_digest :: "evidence_body \<Rightarrow> string" where
  "demo_digest b = CHR ''h'' # rec_id b"

definition demo_batch :: batch where
  "demo_batch = \<lparr>b_event = demo_event ''deploy.failed'' JNull, results = [], overallOutcome = Pass, alerts = []\<rparr>"

theorem evidence_log_binding_witness:
  "chained demo_digest [] (build_log demo_digest [] [(''a'', 1, demo_batch), (''b'', 2, demo_batch)])"
proof -
  let ?l = "build_log demo_digest [] [(''a'', 1, demo_batch), (''b'', 2, demo_batch)]"
  have "inj_on demo_digest (evidence_body.truncate ` (set ?l \<union> set ?l))"
    by (simp add: buildEvidenceRecord_def evidence_body.defs Let_def demo_digest_def)
  moreover have "[] \<notin> demo_digest ` evidence_body.truncate ` (set ?l \<union> set ?l)"
    by (auto simp: demo_digest_def)
  ultimately show ?thesis
    using evidence_log_binding [OF build_log_chained refl] by blast
qed

end
