(* ===== verification/Risk.thy ===== *)
theory Risk
  imports JsValue
begin

section \<open>Risk profiles, premiums and the quote endpoint\<close>

text \<open>
  The models of src/lib/risk-profile.ts, src/lib/premium-pricing.ts, src/lib/vessel-classes.ts and
  src/routes/risk-pricing.ts in double arithmetic (\<open>fadd\<close>, \<open>fmul\<close>, ... round every operation;
  overflow to infinity is not modelled). \<open>Math.pow\<close>, \<open>Math.log1p\<close> and \<open>Math.sqrt\<close>, whose results
  ECMAScript leaves to the implementation, are the fields of the parameter \<open>mathlib\<close>;
  \<open>mathlib_ok\<close> is what is relied on. Powers of ten up to \<open>10^4\<close> are exact.
\<close>

record mathlib =
  pow :: "rat \<Rightarrow> nat \<Rightarrow> rat"
  log1p :: "rat \<Rightarrow> rat"
  msqrt :: "rat \<Rightarrow> rat"

definition mathlib_ok :: "mathlib \<Rightarrow> bool" where
  "mathlib_ok M \<longleftrightarrow> (\<forall>b k. 0 \<le> b \<longrightarrow> 0 \<le> pow M b k) \<and> (\<forall>b. pow M b 0 = 1)
     \<and> (\<forall>x. 0 \<le> x \<longrightarrow> 0 \<le> log1p M x)"

definition round_to :: "rat \<Rightarrow> nat \<Rightarrow> rat" where
  "round_to x places = fdiv (of_int (js_round (fmul x (10 ^ places)))) (10 ^ places)"

definition fsum :: "rat list \<Rightarrow> rat" where
  "fsum xs = fold (\<lambda>x s. fadd s x) xs 0"

subsection \<open>Risk profiles (risk-profile.ts)\<close>

record day =
  date :: string
  events :: rat
  severity_sum :: rat
  anomaly_count :: rat
  drift_flag :: bool

datatype risk_pattern = Stable | Rising | Volatile | Sparse

record risk_config =
  ewma_decay :: rat
  sparse_threshold_events_per_day :: rat
  rising_trajectory_threshold :: rat
  volatile_cv_threshold :: rat

definition DEFAULT_RISK_CONFIG :: risk_config where
  "DEFAULT_RISK_CONFIG = \<lparr>ewma_decay = rnd (85 / 100), sparse_threshold_events_per_day = 2,
     rising_trajectory_threshold = rnd (20 / 100), volatile_cv_threshold = 1\<rparr>"

record risk_profile =
  total_events :: rat
  total_anomalies :: rat
  drift_days :: nat
  series_days :: nat
  ewma_events_per_day :: rat
  ewma_severity_per_event :: rat
  ewma_anomaly_rate :: rat
  trajectory_events :: rat
  trajectory_severity :: rat
  trajectory_anomalies :: rat
  pattern :: risk_pattern
  window_from :: string
  window_to :: string

datatype profile_error = SeriesEmpty | NegativeValues nat

fun first_negative :: "nat \<Rightarrow> day list \<Rightarrow> nat option" where
  "first_negative i [] = None"
| "first_negative i (d # ds) =
     (if events d < 0 \<or> severity_sum d < 0 \<or> anomaly_count d < 0 then Some i else first_negative (Suc i) ds)"

definition raw_weights :: "mathlib \<Rightarrow> rat \<Rightarrow> nat \<Rightarrow> rat list" where
  "raw_weights M decay n = map (\<lambda>i. pow M decay (n - 1 - i)) [0..<n]"

definition norm_weights :: "mathlib \<Rightarrow> rat \<Rightarrow> nat \<Rightarrow> rat list" where
  "norm_weights M decay n =
     (let ws = raw_weights M decay n; s = fsum ws in map (\<lambda>w. fdiv w s) ws)"

definition ewma :: "rat list \<Rightarrow> rat list \<Rightarrow> rat" where
  "ewma ws xs = fsum (map2 fmul ws xs)"

definition mean_of :: "rat list \<Rightarrow> rat" where
  "mean_of xs = (if xs = [] then 0 else fdiv (fsum xs) (of_nat (length xs)))"

definition trajectory :: "rat list \<Rightarrow> rat" where
  "trajectory xs =
     (let mid = length xs div 2;
          older = mean_of (take mid xs);
          recent = mean_of (drop mid xs)
      in if 0 < older then fdiv (fsub recent older) older else if 0 < recent then 1 else 0)"

definition variation :: "mathlib \<Rightarrow> rat list \<Rightarrow> rat" where
  "variation M xs =
     (let n = of_nat (length xs); mean = fdiv (fsum xs) n;
          sd = msqrt M (fdiv (fsum (map (\<lambda>x. pow M (fsub x mean) 2) xs)) n)
      in if 0 < mean then fdiv sd mean else 0)"

definition classify :: "mathlib \<Rightarrow> risk_config \<Rightarrow> day list \<Rightarrow> risk_pattern" where
  "classify M cfg series =
     (let evs = map events series
      in if fdiv (fsum evs) (of_nat (length series)) < sparse_threshold_events_per_day cfg then Sparse
         else if trajectory evs > rising_trajectory_threshold cfg
               \<or> trajectory (map anomaly_count series) > rising_trajectory_threshold cfg then Rising
         else if variation M evs > volatile_cv_threshold cfg then Volatile
         else Stable)"

definition buildRiskProfile :: "mathlib \<Rightarrow> day list \<Rightarrow> risk_config \<Rightarrow> profile_error + risk_profile" where
  "buildRiskProfile M series cfg =
     (if series = [] then Inl SeriesEmpty
      else case first_negative 0 series of
             Some i \<Rightarrow> Inl (NegativeValues i)
           | None \<Rightarrow>
               (let n = length series;
                    ws = norm_weights M (ewma_decay cfg) n;
                    ee = ewma ws (map events series);
                    es = ewma ws (map severity_sum series);
                    ea = ewma ws (map anomaly_count series)
                in Inr \<lparr>total_events = fsum (map events series),
                        total_anomalies = fsum (map anomaly_count series),
                        drift_days = length (filter drift_flag series),
                        series_days = n,
                        ewma_events_per_day = round_to ee 3,
                        ewma_severity_per_event = round_to (if 0 < ee then fdiv es ee else 0) 3,
                        ewma_anomaly_rate = round_to (if 0 < ee then fdiv ea ee else 0) 4,
                        trajectory_events = round_to (trajectory (map events series)) 3,
                        trajectory_severity = round_to (trajectory (map severity_sum series)) 3,
                        trajectory_anomalies = round_to (trajectory (map anomaly_count series)) 3,
                        pattern = classify M cfg series,
                        window_from = date (hd series), window_to = date (last series)\<rparr>))"

subsection \<open>Premiums (premium-pricing.ts)\<close>

record vessel_config =
  class_name :: string
  base_rate_per_exposure_day :: rat
  exposure :: rat
  coverage_days :: rat
  k_freq :: rat
  freq_anchor :: rat
  k_sev :: rat
  sev_anchor :: rat
  pattern_multipliers :: "risk_pattern \<Rightarrow> rat option"
  k_anom :: rat

datatype calibration = PLACEHOLDER | CALIBRATED

record quote_signals =
  s_pattern :: risk_pattern
  s_ewma_events_per_day :: rat
  s_ewma_severity_per_event :: rat
  s_ewma_anomaly_rate :: rat
  s_trajectory_events :: rat

record premium_quote =
  vessel_class :: string
  q_coverage_days :: rat
  q_exposure :: rat
  base_premium :: rat
  frequency_adjustment :: rat
  severity_adjustment :: rat
  pattern_multiplier :: rat
  anomaly_load :: rat
  premium_total :: rat
  signals :: quote_signals
  calibration_status :: calibration

definition PREMIUM_FLOOR_RATIO :: rat where "PREMIUM_FLOOR_RATIO = 1 / 2"

definition basePremium :: "vessel_config \<Rightarrow> rat" where
  "basePremium c = fmul (fmul (base_rate_per_exposure_day c) (exposure c)) (coverage_days c)"

definition freqAdj :: "mathlib \<Rightarrow> risk_profile \<Rightarrow> vessel_config \<Rightarrow> rat" where
  "freqAdj M p c = fadd 1 (fmul (k_freq c)
     (log1p M (fdiv (ewma_events_per_day p) (max (freq_anchor c) (rnd (1 / 10 ^ 9))))))"

definition sevAdj :: "risk_profile \<Rightarrow> vessel_config \<Rightarrow> rat" where
  "sevAdj p c = fadd 1 (fmul (k_sev c)
     (fsub (fdiv (ewma_severity_per_event p) (max (sev_anchor c) (rnd (1 / 10 ^ 9)))) 1))"

definition patternMult :: "risk_profile \<Rightarrow> vessel_config \<Rightarrow> rat" where
  "patternMult p c = (case pattern_multipliers c (pattern p) of Some m \<Rightarrow> m | None \<Rightarrow> 1)"

definition anomLoad :: "risk_profile \<Rightarrow> vessel_config \<Rightarrow> rat" where
  "anomLoad p c = fmul (k_anom c) (ewma_anomaly_rate p)"

definition raw_total :: "mathlib \<Rightarrow> risk_profile \<Rightarrow> vessel_config \<Rightarrow> rat" where
  "raw_total M p c = fmul (basePremium c)
     (fmul (fmul (fmul (freqAdj M p c) (sevAdj p c)) (patternMult p c)) (fadd 1 (anomLoad p c)))"

definition priceFromProfile ::
  "mathlib \<Rightarrow> risk_profile \<Rightarrow> vessel_config \<Rightarrow> calibration option \<Rightarrow> premium_quote" where
  "priceFromProfile M p c status =
     \<lparr>vessel_class = class_name c, q_coverage_days = coverage_days c, q_exposure = exposure c,
      base_premium = round_to (basePremium c) 2,
      frequency_adjustment = round_to (freqAdj M p c) 4,
      severity_adjustment = round_to (sevAdj p c) 4,
      pattern_multiplier = round_to (patternMult p c) 4,
      anomaly_load = round_to (anomLoad p c) 4,
      premium_total = round_to (max (raw_total M p c) (fmul (basePremium c) PREMIUM_FLOOR_RATIO)) 2,
      signals = \<lparr>s_pattern = pattern p, s_ewma_events_per_day = ewma_events_per_day p,
        s_ewma_severity_per_event = ewma_severity_per_event p, s_ewma_anomaly_rate = ewma_anomaly_rate p,
        s_trajectory_events = trajectory_events p\<rparr>,
      calibration_status = (case status of Some s \<Rightarrow> s | None \<Rightarrow> PLACEHOLDER)\<rparr>"

subsection \<open>Vessel classes (vessel-classes.ts)\<close>

text \<open>The em dash of the class names is written \<open>--\<close>.\<close>

fun container_multipliers :: "risk_pattern \<Rightarrow> rat option" where
  "container_multipliers Stable = Some 1"
| "container_multipliers Rising = Some (rnd (120 / 100))"
| "container_multipliers Volatile = Some (rnd (110 / 100))"
| "container_multipliers Sparse = Some (rnd (85 / 100))"

definition CONTAINER_SHIP_CONFIG :: vessel_config where
  "CONTAINER_SHIP_CONFIG = \<lparr>class_name = ''Container Ship -- Suezmax (PLACEHOLDER)'',
     base_rate_per_exposure_day = rnd (50 / 100), exposure = 100000, coverage_days = 30,
     k_freq = rnd (30 / 100), freq_anchor = 15, k_sev = rnd (40 / 100), sev_anchor = 5,
     pattern_multipliers = container_multipliers, k_anom = 8\<rparr>"

fun tugboat_multipliers :: "risk_pattern \<Rightarrow> rat option" where
  "tugboat_multipliers Stable = Some 1"
| "tugboat_multipliers Rising = Some (rnd (160 / 100))"
| "tugboat_multipliers Volatile = Some (rnd (145 / 100))"
| "tugboat_multipliers Sparse = Some (rnd (95 / 100))"

definition TUGBOAT_CONFIG :: vessel_config where
  "TUGBOAT_CONFIG = \<lparr>class_name = ''Tugboat -- Harbor (PLACEHOLDER)'',
     base_rate_per_exposure_day = 3, exposure = 350, coverage_days = 30,
     k_freq = rnd (50 / 100), freq_anchor = 2, k_sev = rnd (80 / 100), sev_anchor = 8,
     pattern_multipliers = tugboat_multipliers, k_anom = 15\<rparr>"

subsection \<open>The quote endpoint (risk-pricing.ts)\<close>

definition VESSEL_CLASSES :: "(string \<times> vessel_config) list" where
  "VESSEL_CLASSES = [(''CONTAINER_SHIP'', CONTAINER_SHIP_CONFIG), (''TUGBOAT'', TUGBOAT_CONFIG)]"

text \<open>The body that \<open>QuoteBody\<close> accepts; a custom configuration is modelled when it is complete.\<close>

record quote_body =
  qb_vessel_class :: string
  qb_series :: "day list"
  qb_custom_config :: "vessel_config option"

definition valid_body :: "quote_body \<Rightarrow> bool" where
  "valid_body b \<longleftrightarrow> qb_vessel_class b \<noteq> [] \<and> 1 \<le> length (qb_series b) \<and> length (qb_series b) \<le> 365
     \<and> list_all (\<lambda>d. date d \<noteq> [] \<and> 0 \<le> events d \<and> 0 \<le> severity_sum d \<and> 0 \<le> anomaly_count d) (qb_series b)"

datatype quote_response =
    Quoted risk_profile premium_quote
  | CustomConfigRequired400
  | UnknownClass400
  | QuoteError500

text \<open>
  The registry is a plain object: \<open>VESSEL_CLASSES[name]\<close> also finds what objects inherit, and
  pricing with that throws, because it has no \<open>pattern_multipliers\<close>.
\<close>

definition quote :: "mathlib \<Rightarrow> quote_body \<Rightarrow> quote_response" where
  "quote M b =
     (let price = (\<lambda>c. case buildRiskProfile M (qb_series b) DEFAULT_RISK_CONFIG of
             Inl _ \<Rightarrow> QuoteError500
           | Inr p \<Rightarrow> Quoted p (priceFromProfile M p c (Some PLACEHOLDER)))
      in if qb_vessel_class b = ''custom'' then
           (case qb_custom_config b of None \<Rightarrow> CustomConfigRequired400 | Some c \<Rightarrow> price c)
         else
           (case map_of VESSEL_CLASSES (qb_vessel_class b) of
              Some c \<Rightarrow> price c
            | None \<Rightarrow> if object_inherited (qb_vessel_class b) = JUndef then UnknownClass400 else QuoteError500))"

subsection \<open>Signs and monotonicity\<close>

lemma fsum_fold_nonneg: "0 \<le> a \<Longrightarrow> \<forall>x \<in> set xs. 0 \<le> x \<Longrightarrow> 0 \<le> fold (\<lambda>x s. fadd s x) xs a"
  by (induction xs arbitrary: a) (auto intro: fadd_nonneg)

lemma fsum_nonneg: "\<forall>x \<in> set xs. 0 \<le> x \<Longrightarrow> 0 \<le> fsum xs"
  unfolding fsum_def by (rule fsum_fold_nonneg) simp_all

lemma fsum_fold_mono: "list_all2 (\<le>) xs ys \<Longrightarrow> a \<le> b \<Longrightarrow>
    fold (\<lambda>x s. fadd s x) xs a \<le> fold (\<lambda>x s. fadd s x) ys b"
  by (induction xs ys arbitrary: a b rule: list_all2_induct) (auto intro: fadd_mono)

lemma fsum_mono: "list_all2 (\<le>) xs ys \<Longrightarrow> fsum xs \<le> fsum ys"
  unfolding fsum_def by (rule fsum_fold_mono) simp_all

lemma round_to_mono: "x \<le> y \<Longrightarrow> round_to x k \<le> round_to y k"
  unfolding round_to_def
  by (intro fdiv_mono) (auto intro!: js_round_mono fmul_mono2 simp: fmul_def rnd_mono mult_right_mono)

lemma round_to_nonneg: "0 \<le> x \<Longrightarrow> 0 \<le> round_to x k"
  unfolding round_to_def by (intro fdiv_nonneg) (auto intro!: js_round_nonneg fmul_nonneg)

lemma raw_weights_nonneg: "mathlib_ok M \<Longrightarrow> 0 \<le> d \<Longrightarrow> \<forall>w \<in> set (raw_weights M d n). 0 \<le> w"
  by (auto simp: raw_weights_def mathlib_ok_def)

lemma norm_weights_nonneg:
  assumes "mathlib_ok M" "0 \<le> d"
  shows "\<forall>w \<in> set (norm_weights M d n). 0 \<le> w"
proof -
  have "0 \<le> fsum (raw_weights M d n)" using raw_weights_nonneg [OF assms] by (rule fsum_nonneg)
  then show ?thesis using raw_weights_nonneg [OF assms] by (auto simp: norm_weights_def Let_def intro: fdiv_nonneg)
qed

lemma length_norm_weights [simp]: "length (norm_weights M d n) = n"
  by (simp add: norm_weights_def raw_weights_def Let_def)

lemma ewma_nonneg: "\<forall>w \<in> set ws. 0 \<le> w \<Longrightarrow> \<forall>x \<in> set xs. 0 \<le> x \<Longrightarrow> 0 \<le> ewma ws xs"
  unfolding ewma_def by (rule fsum_nonneg) (auto simp: set_zip dest!: nth_mem intro!: fmul_nonneg)

lemma ewma_mono:
  assumes "\<forall>w \<in> set ws. 0 \<le> w" "list_all2 (\<le>) xs ys" "length ws = length xs"
  shows "ewma ws xs \<le> ewma ws ys"
  unfolding ewma_def
proof (rule fsum_mono)
  show "list_all2 (\<le>) (map2 fmul ws xs) (map2 fmul ws ys)"
    using assms by (auto simp: list_all2_conv_all_nth intro!: fmul_mono)
qed

lemma mean_nonneg: "\<forall>x \<in> set xs. 0 \<le> x \<Longrightarrow> 0 \<le> mean_of xs"
  by (auto simp: mean_of_def intro!: fdiv_nonneg fsum_nonneg)

lemma trajectory_lower:
  assumes "\<forall>x \<in> set xs. 0 \<le> x"
  shows "-1 \<le> trajectory xs"
proof -
  define u v where "u = mean_of (take (length xs div 2) xs)" and "v = mean_of (drop (length xs div 2) xs)"
  have v: "0 \<le> v" unfolding v_def using assms by (intro mean_nonneg) (auto dest: in_set_dropD)
  show ?thesis
  proof (cases "0 < u")
    case True
    have "is_double u" using True by (auto simp: u_def mean_of_def split: if_splits)
    then have "- u \<le> fsub v u" unfolding fsub_def using v rnd_mono [of "- u" "v - u"]
      by (simp add: is_double_def rnd_minus)
    then have "-1 \<le> fsub v u / u" using True by (simp add: le_divide_eq)
    from rnd_mono [OF this] have "-1 \<le> fdiv (fsub v u) u"
      using rnd_of_int [of "-1"] by (simp add: fdiv_def)
    then show ?thesis using True by (simp add: trajectory_def Let_def u_def v_def)
  next
    case False
    then show ?thesis by (simp add: trajectory_def Let_def u_def v_def)
  qed
qed

lemma first_negative_None:
  "first_negative i ds = None \<longleftrightarrow> (\<forall>d \<in> set ds. 0 \<le> events d \<and> 0 \<le> severity_sum d \<and> 0 \<le> anomaly_count d)"
  by (induction i ds rule: first_negative.induct) (auto simp: not_less)

lemma round_to_lower: "-1 \<le> x \<Longrightarrow> -1 \<le> round_to x 3"
proof -
  assume a: "-1 \<le> x"
  have "round_to (-1) 3 = -1" by code_simp
  then show ?thesis using round_to_mono [OF a, of 3] by simp
qed

definition nonneg_day :: "day \<Rightarrow> bool" where
  "nonneg_day d \<longleftrightarrow> 0 \<le> events d \<and> 0 \<le> severity_sum d \<and> 0 \<le> anomaly_count d"

lemma first_negative_Some:
  "first_negative k ds = Some i \<Longrightarrow>
     k \<le> i \<and> i - k < length ds \<and> \<not> nonneg_day (ds ! (i - k)) \<and> (\<forall>j < i - k. nonneg_day (ds ! j))"
proof (induction k ds arbitrary: i rule: first_negative.induct)
  case (2 k d ds)
  show ?case
  proof (cases "nonneg_day d")
    case True
    then have f: "first_negative (Suc k) ds = Some i"
      using "2.prems" by (auto simp: nonneg_day_def not_less split: if_splits)
    have n: "\<not> (events d < 0 \<or> severity_sum d < 0 \<or> anomaly_count d < 0)"
      using True by (auto simp: nonneg_day_def)
    from "2.IH" [OF n f] have ih: "Suc k \<le> i" "i - Suc k < length ds" "\<not> nonneg_day (ds ! (i - Suc k))"
      "\<forall>j < i - Suc k. nonneg_day (ds ! j)" by auto
    have e: "i - k = Suc (i - Suc k)" using ih(1) by simp
    have "nonneg_day ((d # ds) ! j)" if "j < i - k" for j
      using that ih(4) True by (cases j) (auto simp: e)
    then show ?thesis using ih by (simp add: e)
  next
    case False
    then have "i = k" using "2.prems" by (auto simp: nonneg_day_def not_less split: if_splits)
    then show ?thesis using False by simp
  qed
qed simp

lemma build_Inr:
  assumes "buildRiskProfile M series cfg = Inr p"
  shows "series \<noteq> []" "\<forall>d \<in> set series. nonneg_day d"
    "ewma_events_per_day p = round_to (ewma (norm_weights M (ewma_decay cfg) (length series)) (map events series)) 3"
    "pattern p = classify M cfg series"
  using assms by (auto simp: buildRiskProfile_def nonneg_day_def first_negative_None Let_def
      split: if_splits option.splits)

subsection \<open>Properties of the risk pipeline\<close>

text \<open>\<open>buildRiskProfile\<close> rejects exactly the empty series and, with the index of the first
  offending day, the series with a negative value. Every profile it builds from other series is
  meaningful: no smoothed signal or total is negative, no trajectory is below -100 per cent, the counts are those of the
  series, and the series is never called sparse unless its mean is below the threshold.\<close>

theorem risk_profile_signals:
  assumes "mathlib_ok M" "0 \<le> ewma_decay cfg"
  shows "case buildRiskProfile M series cfg of
      Inl SeriesEmpty \<Rightarrow> series = []
    | Inl (NegativeValues i) \<Rightarrow> i < length series \<and> \<not> nonneg_day (series ! i) \<and> (\<forall>j < i. nonneg_day (series ! j))
    | Inr p \<Rightarrow> series \<noteq> [] \<and> (\<forall>d \<in> set series. nonneg_day d)
        \<and> 0 \<le> ewma_events_per_day p \<and> 0 \<le> ewma_severity_per_event p \<and> 0 \<le> ewma_anomaly_rate p
        \<and> 0 \<le> total_events p \<and> 0 \<le> total_anomalies p
        \<and> -1 \<le> trajectory_events p \<and> -1 \<le> trajectory_severity p \<and> -1 \<le> trajectory_anomalies p
        \<and> series_days p = length series \<and> drift_days p \<le> series_days p
        \<and> (pattern p = Sparse \<longrightarrow> mean_of (map events series) < sparse_threshold_events_per_day cfg)"
proof (cases "buildRiskProfile M series cfg")
  case (Inl e)
  then show ?thesis using first_negative_Some [of 0 series]
    by (auto simp: buildRiskProfile_def Let_def split: if_splits option.splits)
next
  case (Inr p)
  note b = build_Inr [OF Inr]
  have nn: "\<forall>x \<in> set (map events series). 0 \<le> x" "\<forall>x \<in> set (map severity_sum series). 0 \<le> x"
    "\<forall>x \<in> set (map anomaly_count series). 0 \<le> x"
    using b(2) by (auto simp: nonneg_day_def)
  note w = norm_weights_nonneg [OF assms, of "length series"]
  have p: "p = (let n = length series;
                    ws = norm_weights M (ewma_decay cfg) n;
                    ee = ewma ws (map events series);
                    es = ewma ws (map severity_sum series);
                    ea = ewma ws (map anomaly_count series)
                in \<lparr>total_events = fsum (map events series),
                        total_anomalies = fsum (map anomaly_count series),
                        drift_days = length (filter drift_flag series),
                        series_days = n,
                        ewma_events_per_day = round_to ee 3,
                        ewma_severity_per_event = round_to (if 0 < ee then fdiv es ee else 0) 3,
                        ewma_anomaly_rate = round_to (if 0 < ee then fdiv ea ee else 0) 4,
                        trajectory_events = round_to (trajectory (map events series)) 3,
                        trajectory_severity = round_to (trajectory (map severity_sum series)) 3,
                        trajectory_anomalies = round_to (trajectory (map anomaly_count series)) 3,
                        pattern = classify M cfg series,
                        window_from = date (hd series), window_to = date (last series)\<rparr>)"
    using Inr b(1) by (auto simp: buildRiskProfile_def Let_def split: option.splits)
  have sp: "classify M cfg series = Sparse \<longrightarrow> mean_of (map events series) < sparse_threshold_events_per_day cfg"
    using b(1) by (auto simp: classify_def Let_def mean_of_def split: if_splits)
  show ?thesis
    using b(1,2) sp
    by (simp add: Inr p Let_def round_to_nonneg round_to_lower ewma_nonneg [OF w nn(1)] ewma_nonneg [OF w nn(2)]
        ewma_nonneg [OF w nn(3)] fdiv_nonneg fsum_nonneg [OF nn(1)] fsum_nonneg [OF nn(3)]
        trajectory_lower [OF nn(1)] trajectory_lower [OF nn(2)] trajectory_lower [OF nn(3)])
qed

text \<open>The smoothed event rate responds monotonically to evidence, in double arithmetic: for two
  series of the same length, more events on any days never give a smaller rate.\<close>

theorem ewma_events_monotone:
  assumes "mathlib_ok M" "0 \<le> ewma_decay cfg"
    "buildRiskProfile M series cfg = Inr p" "buildRiskProfile M series2 cfg = Inr p2"
    "list_all2 (\<lambda>d d2. events d \<le> events d2) series series2"
  shows "ewma_events_per_day p \<le> ewma_events_per_day p2"
proof -
  have len: "length series = length series2" using assms(5) by (rule list_all2_lengthD)
  have "ewma (norm_weights M (ewma_decay cfg) (length series)) (map events series)
      \<le> ewma (norm_weights M (ewma_decay cfg) (length series)) (map events series2)"
    by (rule ewma_mono [OF norm_weights_nonneg [OF assms(1,2)]])
      (use assms(5) in \<open>simp_all add: list_all2_conv_all_nth\<close>)
  then show ?thesis using build_Inr(3) [OF assms(3)] build_Inr(3) [OF assms(4)] len round_to_mono by simp
qed

definition standard_config :: "vessel_config \<Rightarrow> bool" where
  "standard_config c \<longleftrightarrow> 0 \<le> base_rate_per_exposure_day c \<and> 0 \<le> exposure c \<and> 0 \<le> coverage_days c
     \<and> 0 \<le> k_freq c \<and> 0 \<le> k_sev c \<and> k_sev c \<le> 1 \<and> 0 \<le> k_anom c
     \<and> (\<forall>pt m. pattern_multipliers c pt = Some m \<longrightarrow> 0 \<le> m)"

lemma anchor_pos: "0 \<le> max a (rnd (1 / 10 ^ 9))"
  using rnd_nonneg [of "1 / 10 ^ 9"] by (simp add: le_max_iff_disj)

lemma base_nonneg: "standard_config c \<Longrightarrow> 0 \<le> basePremium c"
  by (auto simp: basePremium_def standard_config_def intro!: fmul_nonneg)

lemma freqAdj_nonneg:
  "standard_config c \<Longrightarrow> mathlib_ok M \<Longrightarrow> 0 \<le> ewma_events_per_day p \<Longrightarrow> 0 \<le> freqAdj M p c"
  by (auto simp: freqAdj_def standard_config_def mathlib_ok_def intro!: fadd_nonneg fmul_nonneg fdiv_nonneg anchor_pos)

lemma sevAdj_nonneg:
  assumes "standard_config c" "0 \<le> ewma_severity_per_event p"
  shows "0 \<le> sevAdj p c"
proof -
  define x where "x = fdiv (ewma_severity_per_event p) (max (sev_anchor c) (rnd (1 / 10 ^ 9)))"
  have one: "rnd (-1) = -1" using rnd_of_int [of "-1"] by simp
  have "0 \<le> x" unfolding x_def using assms(2) anchor_pos by (rule fdiv_nonneg)
  then have "rnd (-1) \<le> fsub x 1" unfolding fsub_def by (intro rnd_mono) simp
  then have s: "-1 \<le> fsub x 1" by (simp add: one)
  have k: "0 \<le> k_sev c" "k_sev c \<le> 1" using assms(1) by (simp_all add: standard_config_def)
  have "k_sev c * (-1) \<le> k_sev c * fsub x 1" using k(1) s by (intro mult_left_mono) simp_all
  then have "-1 \<le> k_sev c * fsub x 1" using k(2) by simp
  from rnd_mono [OF this] have "-1 \<le> fmul (k_sev c) (fsub x 1)" by (simp add: one fmul_def)
  then show ?thesis unfolding sevAdj_def x_def [symmetric] fadd_def by (intro rnd_nonneg) simp
qed

lemma patternMult_nonneg: "standard_config c \<Longrightarrow> 0 \<le> patternMult p c"
  by (auto simp: patternMult_def standard_config_def split: option.splits)

text \<open>C36: For every configuration with non-negative coefficients and \<open>k_sev \<le> 1\<close> (both built-in classes
  are), the premium never falls below half the base premium, and it is monotone in the risk signals: of two
  profiles with the same pattern, the one with at least the event rate, the severity and the
  anomaly rate of the other never pays less. \<open>Math.log1p\<close> is assumed monotone.\<close>

theorem premium_floor_and_monotone:
  assumes "mathlib_ok M" "\<forall>x y. 0 \<le> x \<and> x \<le> y \<longrightarrow> log1p M x \<le> log1p M y" "standard_config c"
    "0 \<le> ewma_events_per_day p" "0 \<le> ewma_severity_per_event p" "0 \<le> ewma_anomaly_rate p"
    "ewma_events_per_day p \<le> ewma_events_per_day p2" "ewma_severity_per_event p \<le> ewma_severity_per_event p2"
    "ewma_anomaly_rate p \<le> ewma_anomaly_rate p2" "pattern p2 = pattern p"
  shows "round_to (fmul (basePremium c) PREMIUM_FLOOR_RATIO) 2 \<le> premium_total (priceFromProfile M p c st)
    \<and> premium_total (priceFromProfile M p c st) \<le> premium_total (priceFromProfile M p2 c st)"
proof -
  have k: "0 \<le> k_freq c" "0 \<le> k_sev c" "0 \<le> k_anom c" using assms(3) by (simp_all add: standard_config_def)
  have "fdiv (ewma_events_per_day p) (max (freq_anchor c) (rnd (1 / 10 ^ 9)))
      \<le> fdiv (ewma_events_per_day p2) (max (freq_anchor c) (rnd (1 / 10 ^ 9)))"
    using assms(7) anchor_pos by (rule fdiv_mono)
  moreover have "0 \<le> fdiv (ewma_events_per_day p) (max (freq_anchor c) (rnd (1 / 10 ^ 9)))"
    using assms(4) anchor_pos by (rule fdiv_nonneg)
  ultimately have f: "freqAdj M p c \<le> freqAdj M p2 c" unfolding freqAdj_def
    using assms(2) k(1) by (intro fadd_mono fmul_mono) blast+
  have s: "sevAdj p c \<le> sevAdj p2 c" unfolding sevAdj_def
    using assms(8) k(2) anchor_pos
    by (intro fadd_mono fmul_mono) (auto simp: fsub_def intro!: rnd_mono diff_right_mono fdiv_mono)
  have a: "fadd 1 (anomLoad p c) \<le> fadd 1 (anomLoad p2 c)" unfolding anomLoad_def
    using assms(9) k(3) by (intro fadd_mono fmul_mono) simp_all
  have a0: "0 \<le> fadd 1 (anomLoad p c)" unfolding anomLoad_def
    using assms(6) k(3) by (intro fadd_nonneg fmul_nonneg) simp_all
  have pm: "patternMult p2 c = patternMult p c" by (simp add: patternMult_def assms(10))
  note nn = base_nonneg [OF assms(3)] freqAdj_nonneg [OF assms(3,1,4)] sevAdj_nonneg [OF assms(3,5)]
    patternMult_nonneg [OF assms(3), of p]
  have "raw_total M p c \<le> raw_total M p2 c"
    unfolding raw_total_def pm
    by (intro fmul_mono fmul_mono2) (auto intro: nn f s a a0 fmul_nonneg)
  then show ?thesis by (auto simp: priceFromProfile_def intro!: round_to_mono)
qed

text \<open>A validated quote request is answered by its class alone: a built-in class or a given custom
  configuration is always priced, with the status PLACEHOLDER; a custom request without its
  configuration and an unknown class get a 400; but a class name that plain objects inherit,
  such as \<open>constructor\<close>, passes the registry check and ends in a 500.\<close>

theorem quote_outcomes:
  assumes "valid_body b"
  shows "(\<forall>c. (qb_vessel_class b = ''custom'' \<and> qb_custom_config b = Some c
            \<or> map_of VESSEL_CLASSES (qb_vessel_class b) = Some c) \<longrightarrow>
          (\<exists>p. quote M b = Quoted p (priceFromProfile M p c (Some PLACEHOLDER))
             \<and> buildRiskProfile M (qb_series b) DEFAULT_RISK_CONFIG = Inr p))
    \<and> (qb_vessel_class b = ''custom'' \<and> qb_custom_config b = None \<longrightarrow> quote M b = CustomConfigRequired400)
    \<and> (qb_vessel_class b \<notin> {''custom'', ''CONTAINER_SHIP'', ''TUGBOAT''} \<longrightarrow>
         quote M b = (if qb_vessel_class b \<in> {''__proto__'', ''constructor''} \<union> set object_methods
                      then QuoteError500 else UnknownClass400))"
proof -
  have "qb_series b \<noteq> []" "first_negative 0 (qb_series b) = None"
    using assms by (auto simp: valid_body_def first_negative_None list_all_iff)
  then obtain p where p: "buildRiskProfile M (qb_series b) DEFAULT_RISK_CONFIG = Inr p"
    by (auto simp: buildRiskProfile_def Let_def)
  show ?thesis
    by (auto simp: quote_def p VESSEL_CLASSES_def object_inherited_def)
qed

subsection \<open>Witnesses\<close>

definition demo_math :: mathlib where
  "demo_math = \<lparr>pow = (\<lambda>b k. b ^ k), log1p = (\<lambda>x. x), msqrt = (\<lambda>x. x)\<rparr>"

definition demo_series :: "rat \<Rightarrow> day list" where
  "demo_series x = [\<lparr>date = ''2026-01-01'', events = x, severity_sum = 4, anomaly_count = 1, drift_flag = True\<rparr>]"

lemma demo_math_ok: "mathlib_ok demo_math"
  by (simp add: mathlib_ok_def demo_math_def)

lemma decay_nonneg: "0 \<le> ewma_decay DEFAULT_RISK_CONFIG"
  by (simp add: DEFAULT_RISK_CONFIG_def rnd_nonneg)

lemma demo_builds: "0 \<le> x \<Longrightarrow> \<exists>p. buildRiskProfile demo_math (demo_series x) DEFAULT_RISK_CONFIG = Inr p"
  by (simp add: buildRiskProfile_def demo_series_def Let_def)

theorem risk_profile_signals_witness:
  "\<exists>p. buildRiskProfile demo_math (demo_series 2) DEFAULT_RISK_CONFIG = Inr p \<and> 0 \<le> ewma_anomaly_rate p"
  using risk_profile_signals [OF demo_math_ok decay_nonneg, of "demo_series 2"] demo_builds [of 2] by auto

theorem ewma_events_monotone_witness:
  "\<exists>p p2. buildRiskProfile demo_math (demo_series 2) DEFAULT_RISK_CONFIG = Inr p
     \<and> buildRiskProfile demo_math (demo_series 3) DEFAULT_RISK_CONFIG = Inr p2
     \<and> ewma_events_per_day p \<le> ewma_events_per_day p2"
proof -
  obtain p p2 where p: "buildRiskProfile demo_math (demo_series 2) DEFAULT_RISK_CONFIG = Inr p"
    "buildRiskProfile demo_math (demo_series 3) DEFAULT_RISK_CONFIG = Inr p2"
    using demo_builds [of 2] demo_builds [of 3] by auto
  have "list_all2 (\<lambda>d d2. events d \<le> events d2) (demo_series 2) (demo_series 3)" by (simp add: demo_series_def)
  from ewma_events_monotone [OF demo_math_ok decay_nonneg p this] p show ?thesis by blast
qed

definition demo_profile :: "rat \<Rightarrow> risk_profile" where
  "demo_profile x = \<lparr>total_events = 1, total_anomalies = 0, drift_days = 0, series_days = 1,
     ewma_events_per_day = 1, ewma_severity_per_event = 5, ewma_anomaly_rate = x, trajectory_events = 0,
     trajectory_severity = 0, trajectory_anomalies = 0, pattern = Stable, window_from = [], window_to = []\<rparr>"

lemma container_standard: "standard_config CONTAINER_SHIP_CONFIG"
proof -
  have "rnd (40 / 100) \<le> 1" by code_simp
  moreover have "0 \<le> m" if "container_multipliers pt = Some m" for pt m
    using that by (cases pt) (auto intro: rnd_nonneg)
  ultimately show ?thesis by (auto simp: standard_config_def CONTAINER_SHIP_CONFIG_def rnd_nonneg)
qed

theorem premium_floor_and_monotone_witness:
  "premium_total (priceFromProfile demo_math (demo_profile 0) CONTAINER_SHIP_CONFIG None)
     \<le> premium_total (priceFromProfile demo_math (demo_profile 1) CONTAINER_SHIP_CONFIG None)"
proof -
  have mono: "\<forall>x y. 0 \<le> x \<and> x \<le> y \<longrightarrow> log1p demo_math x \<le> log1p demo_math y" by (simp add: demo_math_def)
  show ?thesis
    using premium_floor_and_monotone [OF demo_math_ok mono container_standard, of "demo_profile 0" "demo_profile 1" None]
    by (simp add: demo_profile_def)
qed

theorem quote_outcomes_witness:
  "quote demo_math \<lparr>qb_vessel_class = ''constructor'', qb_series = demo_series 2, qb_custom_config = None\<rparr> = QuoteError500"
proof -
  let ?b = "\<lparr>qb_vessel_class = ''constructor'', qb_series = demo_series 2, qb_custom_config = None\<rparr>"
  have "valid_body ?b" by (simp add: valid_body_def demo_series_def)
  from quote_outcomes [OF this] show ?thesis by simp
qed

end
