(* ===== verification/Calibration.thy ===== *)
theory Calibration
  imports Risk
begin

section \<open>Calibration: loss runs and fitters\<close>

text \<open>
  The models of src/calibration/loss-run-schema.ts, src/calibration/loader.ts and
  src/calibration/fitter.ts. Cells are read with \<open>str_to_num\<close>, the model of \<open>Number(text)\<close>. The
  \<open>Map\<close>s of the aggregation are insertion-ordered association lists.
\<close>

datatype vessel_key = Key_CONTAINER_SHIP | Key_TUGBOAT

record loss_run =
  policy_year :: rat
  lr_vessel_class :: string
  exposure_value :: rat
  exposure_unit :: string
  claim_count :: rat
  severity_total :: rat
  premium_earned :: rat

record loss_stats =
  vessel_class_key :: vessel_key
  total_vessel_years :: nat
  total_claims :: rat
  total_severity_usd :: rat
  total_exposure :: rat
  total_premium_earned :: rat
  claim_frequency_rate :: rat
  mean_severity_per_claim :: "rat option"
  loss_ratio :: rat
  earliest_year :: rat
  latest_year :: rat

subsection \<open>Labels and rows (loader.ts)\<close>

definition LABEL_NORMALIZATION :: "(string \<times> vessel_key) list" where
  "LABEL_NORMALIZATION =
     [(''container ship'', Key_CONTAINER_SHIP), (''container vessel'', Key_CONTAINER_SHIP),
      (''containership'', Key_CONTAINER_SHIP), (''tugboat'', Key_TUGBOAT), (''tug '', Key_TUGBOAT),
      (''tug-'', Key_TUGBOAT), (''harbor tug'', Key_TUGBOAT)]"

definition normalizeVesselClass :: "string \<Rightarrow> vessel_key option" where
  "normalizeVesselClass raw =
     (let haystack = trim (to_lower raw)
      in map_option snd (List.find (\<lambda>(m, k). has_sub m haystack) LABEL_NORMALIZATION))"

definition REQUIRED_HEADERS :: "string list" where
  "REQUIRED_HEADERS = [''policy_year'', ''vessel_class'', ''exposure_value'', ''exposure_unit'',
     ''claim_count'', ''severity_total'', ''premium_earned'']"

definition quoted :: "string \<Rightarrow> string" where
  "quoted s = CHR 0x22 # s @ [CHR 0x22]"

text \<open>The last column of a name wins, as the assignments to \<open>idx\<close> do.\<close>

definition column :: "string list \<Rightarrow> string \<Rightarrow> nat" where
  "column header name = last (filter (\<lambda>i. header ! i = name) [0..<length header])"

definition cell :: "string list \<Rightarrow> string list \<Rightarrow> string \<Rightarrow> string" where
  "cell header cells name = cells ! column header name"

definition numeric :: "string list \<Rightarrow> string list \<Rightarrow> string \<Rightarrow> string + rat" where
  "numeric header cells name =
     (case str_to_num (cell header cells name) of
        Fin n \<Rightarrow>
          if n < 0 then Inl (quoted name @ '' must be a non-negative number (got '' @ quoted (cell header cells name) @ '')'')
          else Inr n
      | _ \<Rightarrow> Inl (quoted name @ '' must be a non-negative number (got '' @ quoted (cell header cells name) @ '')''))"

definition and_then :: "string + 'a \<Rightarrow> ('a \<Rightarrow> string + 'b) \<Rightarrow> string + 'b" where
  "and_then m f = (case m of Inl e \<Rightarrow> Inl e | Inr x \<Rightarrow> f x)"

definition is_integer :: "rat \<Rightarrow> bool" where
  "is_integer q \<longleftrightarrow> of_int \<lfloor>q\<rfloor> = q"

definition tryParseRow :: "string list \<Rightarrow> string list \<Rightarrow> string + loss_run" where
  "tryParseRow header cells =
     and_then (numeric header cells ''policy_year'') (\<lambda>year.
     if year < 1900 \<or> 2200 < year then
       Inl (quoted ''policy_year'' @ '' out of range (got '' @ num_str (Fin year) @ '')'')
     else and_then (numeric header cells ''exposure_value'') (\<lambda>expo.
     if expo = 0 then Inl (quoted ''exposure_value'' @ '' cannot be zero'')
     else and_then (numeric header cells ''claim_count'') (\<lambda>claims.
     if \<not> is_integer claims then
       Inl (quoted ''claim_count'' @ '' must be an integer (got '' @ num_str (Fin claims) @ '')'')
     else and_then (numeric header cells ''severity_total'') (\<lambda>sev.
     and_then (numeric header cells ''premium_earned'') (\<lambda>prem.
     if cell header cells ''vessel_class'' = [] then Inl (quoted ''vessel_class'' @ '' cannot be empty'')
     else if cell header cells ''exposure_unit'' = [] then Inl (quoted ''exposure_unit'' @ '' cannot be empty'')
     else Inr \<lparr>policy_year = year, lr_vessel_class = cell header cells ''vessel_class'', exposure_value = expo,
               exposure_unit = cell header cells ''exposure_unit'', claim_count = claims,
               severity_total = sev, premium_earned = prem\<rparr>)))))"

fun crlf :: "string \<Rightarrow> string" where
  "crlf (a # b # s) =
     (if a = CHR 0x0D \<and> b = CHR 0x0A then CHR 0x0A # crlf s else a # crlf (b # s))"
| "crlf s = s"

definition csv_lines :: "string \<Rightarrow> string list" where
  "csv_lines csv = filter (\<lambda>l. l \<noteq> []) (map trim (split_on (CHR 0x0A) (crlf csv)))"

datatype csv_error = CsvEmpty | MissingColumn string

text \<open>The loop over the data lines; \<open>lineNo\<close> counts the lines that are left after dropping blank ones.\<close>

fun parse_rows :: "string list \<Rightarrow> nat \<Rightarrow> string list \<Rightarrow> loss_run list \<times> (nat \<times> string) list" where
  "parse_rows header lineNo [] = ([], [])"
| "parse_rows header lineNo (l # ls) =
     (let cells = map trim (split_on (CHR '','') l);
          (recs, skipped) = parse_rows header (Suc lineNo) ls
      in if length cells \<noteq> length header then
           (recs, (lineNo, ''expected '' @ int_str (int (length header)) @ '' columns, got ''
                             @ int_str (int (length cells))) # skipped)
         else case tryParseRow header cells of
                Inl e \<Rightarrow> (recs, (lineNo, e) # skipped)
              | Inr r \<Rightarrow> (r # recs, skipped))"

definition parseLossRunCSV :: "string \<Rightarrow> csv_error + loss_run list \<times> (nat \<times> string) list" where
  "parseLossRunCSV csv =
     (case csv_lines csv of
        [] \<Rightarrow> Inl CsvEmpty
      | h # ls \<Rightarrow>
          (let header = map (\<lambda>c. to_lower (trim c)) (split_on (CHR '','') h)
           in case List.find (\<lambda>r. r \<notin> set header) REQUIRED_HEADERS of
                Some r \<Rightarrow> Inl (MissingColumn r)
              | None \<Rightarrow> Inr (parse_rows header 2 ls)))"

subsection \<open>Aggregation (loader.ts)\<close>

fun group_step ::
  "loss_run \<Rightarrow> (vessel_key \<times> loss_run list) list \<times> (string \<times> nat) list
   \<Rightarrow> (vessel_key \<times> loss_run list) list \<times> (string \<times> nat) list" where
  "group_step r (grouped, dropped) =
     (case normalizeVesselClass (lr_vessel_class r) of
        None \<Rightarrow> (grouped, AList.update (lr_vessel_class r)
                   ((case map_of dropped (lr_vessel_class r) of Some n \<Rightarrow> n | None \<Rightarrow> 0) + 1) dropped)
      | Some k \<Rightarrow> (AList.update k ((case map_of grouped k of Some b \<Rightarrow> b | None \<Rightarrow> []) @ [r]) grouped, dropped))"

definition stats_of :: "vessel_key \<Rightarrow> loss_run list \<Rightarrow> loss_stats" where
  "stats_of k recs =
     (let claims = fsum (map claim_count recs);
          sev = fsum (map severity_total recs);
          expo = fsum (map exposure_value recs);
          prem = fsum (map premium_earned recs);
          n = length recs
      in \<lparr>vessel_class_key = k, total_vessel_years = n, total_claims = claims, total_severity_usd = sev,
          total_exposure = expo, total_premium_earned = prem,
          claim_frequency_rate = (if 0 < n then fdiv claims (of_nat n) else 0),
          mean_severity_per_claim = (if 0 < claims then Some (fdiv sev claims) else None),
          loss_ratio = (if 0 < prem then fdiv sev prem else 0),
          earliest_year = Min (set (map policy_year recs)),
          latest_year = Max (set (map policy_year recs))\<rparr>)"

definition aggregateByVesselClass ::
  "loss_run list \<Rightarrow> (vessel_key \<times> loss_stats) list \<times> (string \<times> nat) list" where
  "aggregateByVesselClass records =
     (let (grouped, dropped) = fold group_step records ([], [])
      in (map (\<lambda>(k, recs). (k, stats_of k recs)) grouped, dropped))"

subsection \<open>Fitters (fitter.ts)\<close>

record provenance =
  fitter_name :: string
  fitter_version :: string
  input_vessel_years :: nat
  input_year_range :: "rat \<times> rat"
  fit_timestamp :: time

record calibrated =
  cal_key :: vessel_key
  config :: vessel_config
  provenance :: provenance

definition nullFitter :: "time \<Rightarrow> loss_stats \<Rightarrow> calibrated" where
  "nullFitter now st =
     (let base = (if vessel_class_key st = Key_CONTAINER_SHIP then CONTAINER_SHIP_CONFIG else TUGBOAT_CONFIG)
      in \<lparr>cal_key = vessel_class_key st, config = base\<lparr>class_name := class_name base\<rparr>,
          provenance = \<lparr>fitter_name = ''nullFitter'', fitter_version = ''0.1.0'',
            input_vessel_years = total_vessel_years st,
            input_year_range = (earliest_year st, latest_year st), fit_timestamp = now\<rparr>\<rparr>)"

datatype problem_severity = PError | PWarning

record problem =
  p_field :: string
  p_value :: rat
  reason :: string
  p_severity :: problem_severity

definition err :: "string \<Rightarrow> rat \<Rightarrow> string \<Rightarrow> problem list" where
  "err f v r = [\<lparr>p_field = f, p_value = v, reason = r, p_severity = PError\<rparr>]"

definition warn :: "string \<Rightarrow> rat \<Rightarrow> string \<Rightarrow> problem list" where
  "warn f v r = [\<lparr>p_field = f, p_value = v, reason = r, p_severity = PWarning\<rparr>]"

fun pattern_name :: "risk_pattern \<Rightarrow> string" where
  "pattern_name Stable = ''stable''"
| "pattern_name Rising = ''rising''"
| "pattern_name Volatile = ''volatile''"
| "pattern_name Sparse = ''sparse''"

text \<open>\<open>Object.entries\<close> of the multipliers, in the order the configurations declare them.\<close>

definition multiplier_entries :: "vessel_config \<Rightarrow> (risk_pattern \<times> rat) list" where
  "multiplier_entries c = List.map_filter (\<lambda>pt. map_option (\<lambda>m. (pt, m)) (pattern_multipliers c pt))
     [Stable, Rising, Volatile, Sparse]"

definition check_multiplier :: "risk_pattern \<times> rat \<Rightarrow> problem list" where
  "check_multiplier e =
     (let f = ''pattern_multipliers.'' @ pattern_name (fst e); m = snd e
      in if m \<le> 0 then err f m ''must be > 0''
         else if m < rnd (1 / 2) \<or> 5 < m then warn f m ''outside [0.5, 5.0] range; pricing may be unstable''
         else [])"

definition validateCalibratedConfig :: "calibrated \<Rightarrow> problem list" where
  "validateCalibratedConfig cal =
     (let c = config cal
      in (if base_rate_per_exposure_day c \<le> 0
            then err ''base_rate_per_exposure_day'' (base_rate_per_exposure_day c) ''must be > 0''
          else if base_rate_per_exposure_day c < rnd (1 / 100) \<or> 100 < base_rate_per_exposure_day c
            then warn ''base_rate_per_exposure_day'' (base_rate_per_exposure_day c)
                   ''outside typical marine H&M range [0.01, 100] USD/exposure/day''
          else [])
       @ (if k_freq c < 0 then err ''k_freq'' (k_freq c) ''must be >= 0 (negative would discount high frequency)'' else [])
       @ (if 2 < k_freq c then warn ''k_freq'' (k_freq c) ''very high frequency loading; verify intent'' else [])
       @ (if freq_anchor c \<le> 0 then err ''freq_anchor'' (freq_anchor c) ''must be > 0'' else [])
       @ (if k_sev c < 0 then err ''k_sev'' (k_sev c) ''must be >= 0'' else [])
       @ (if 3 < k_sev c then warn ''k_sev'' (k_sev c) ''very high severity loading; verify intent'' else [])
       @ (if sev_anchor c \<le> 0 then err ''sev_anchor'' (sev_anchor c) ''must be > 0'' else [])
       @ concat (map check_multiplier (multiplier_entries c))
       @ (if k_anom c < 0 then err ''k_anom'' (k_anom c) ''must be >= 0'' else [])
       @ (if 50 < k_anom c then warn ''k_anom'' (k_anom c) ''very steep anomaly response; verify intent'' else [])
       @ (if exposure c \<le> 0 then err ''exposure'' (exposure c) ''must be > 0'' else [])
       @ (if coverage_days c \<le> 0 then err ''coverage_days'' (coverage_days c) ''must be > 0'' else [])
       @ (if input_vessel_years (provenance cal) < 50
            then warn ''provenance.input_vessel_years'' (of_nat (input_vessel_years (provenance cal)))
                   ''<50 vessel-years of input data; fit may be noisy. Industry rule of thumb is 5+ years.''
          else []))"

definition partitionProblems :: "problem list \<Rightarrow> problem list \<times> problem list" where
  "partitionProblems ps = (filter (\<lambda>p. p_severity p = PError) ps, filter (\<lambda>p. p_severity p = PWarning) ps)"

subsection \<open>Rows\<close>

definition valid_run :: "loss_run \<Rightarrow> bool" where
  "valid_run r \<longleftrightarrow> 1900 \<le> policy_year r \<and> policy_year r \<le> 2200 \<and> 0 < exposure_value r
     \<and> 0 \<le> claim_count r \<and> is_integer (claim_count r) \<and> 0 \<le> severity_total r \<and> 0 \<le> premium_earned r
     \<and> lr_vessel_class r \<noteq> [] \<and> exposure_unit r \<noteq> []"

lemma and_then_Inr: "and_then m f = Inr y \<longleftrightarrow> (\<exists>x. m = Inr x \<and> f x = Inr y)"
  by (cases m) (auto simp: and_then_def)

lemma numeric_nonneg: "numeric h cs n = Inr q \<Longrightarrow> 0 \<le> q"
  by (auto simp: numeric_def split: jnum.splits if_splits)

lemma tryParseRow_valid: "tryParseRow h cs = Inr r \<Longrightarrow> valid_run r"
  by (auto simp: tryParseRow_def and_then_Inr valid_run_def dest!: numeric_nonneg split: if_splits)

lemma parse_rows_props:
  assumes "parse_rows h k ls = (recs, skipped)"
  shows "(\<forall>r \<in> set recs. valid_run r) \<and> length recs + length skipped = length ls
    \<and> sorted (map fst skipped) \<and> distinct (map fst skipped) \<and> (\<forall>n \<in> set (map fst skipped). k \<le> n \<and> n < k + length ls)"
  using assms
proof (induction h k ls arbitrary: recs skipped rule: parse_rows.induct)
  case (2 h k l ls)
  obtain recs' sk' where r: "parse_rows h (Suc k) ls = (recs', sk')" by fastforce
  from "2.IH" [OF refl r]
  have ih: "\<forall>r \<in> set recs'. valid_run r" "length recs' + length sk' = length ls" "sorted (map fst sk')"
    "distinct (map fst sk')" "\<forall>n \<in> set (map fst sk'). Suc k \<le> n \<and> n < Suc k + length ls"
    by blast+
  have "(recs = recs' \<and> (\<exists>e. skipped = (k, e) # sk')) \<or> (\<exists>x. valid_run x \<and> recs = x # recs' \<and> skipped = sk')"
    using "2.prems" r
    by (auto simp: Let_def dest: tryParseRow_valid split: if_splits sum.splits)
  then show ?case using ih by (fastforce dest: Suc_leD)
qed simp

text \<open>The aggregation is a filter per class.\<close>

definition class_rows :: "vessel_key \<Rightarrow> loss_run list \<Rightarrow> loss_run list" where
  "class_rows k recs = filter (\<lambda>r. normalizeVesselClass (lr_vessel_class r) = Some k) recs"

definition unknown_rows :: "string \<Rightarrow> loss_run list \<Rightarrow> nat" where
  "unknown_rows l recs = count_where (\<lambda>r. normalizeVesselClass (lr_vessel_class r) = None \<and> lr_vessel_class r = l) recs"

lemma group_step_maps:
  assumes "group_step r (g0, d0) = (g1, d1)"
  shows "map_of g1 k = (if normalizeVesselClass (lr_vessel_class r) = Some k
           then Some ((case map_of g0 k of Some b \<Rightarrow> b | None \<Rightarrow> []) @ [r]) else map_of g0 k)"
    and "map_of d1 l = (if normalizeVesselClass (lr_vessel_class r) = None \<and> lr_vessel_class r = l
           then Some ((case map_of d0 l of Some n \<Rightarrow> n | None \<Rightarrow> 0) + 1) else map_of d0 l)"
    and "distinct (map fst g0) \<Longrightarrow> distinct (map fst g1)" "distinct (map fst d0) \<Longrightarrow> distinct (map fst d1)"
  using assms by (cases "normalizeVesselClass (lr_vessel_class r)"; auto simp: distinct_update)+

lemma group_fold:
  assumes "fold group_step recs ([], []) = (g, d)"
  shows "map_of g k = (if class_rows k recs = [] then None else Some (class_rows k recs))"
    and "map_of d l = (if unknown_rows l recs = 0 then None else Some (unknown_rows l recs))"
    and "distinct (map fst g)" "distinct (map fst d)"
proof -
  have "map_of g k = (if class_rows k recs = [] then None else Some (class_rows k recs))
    \<and> map_of d l = (if unknown_rows l recs = 0 then None else Some (unknown_rows l recs))
    \<and> distinct (map fst g) \<and> distinct (map fst d)"
    using assms
  proof (induction recs arbitrary: g d rule: rev_induct)
    case Nil
    then show ?case by (simp add: class_rows_def unknown_rows_def)
  next
    case (snoc r recs)
    obtain g0 d0 where f: "fold group_step recs ([], []) = (g0, d0)" by fastforce
    have s: "group_step r (g0, d0) = (g, d)" using snoc.prems f by simp
    note st = group_step_maps [OF s] and ih = snoc.IH [OF f]
    have c: "class_rows k (recs @ [r]) = class_rows k recs @
        (if normalizeVesselClass (lr_vessel_class r) = Some k then [r] else [])"
      by (simp add: class_rows_def)
    have n: "unknown_rows l (recs @ [r]) = unknown_rows l recs +
        (if normalizeVesselClass (lr_vessel_class r) = None \<and> lr_vessel_class r = l then 1 else 0)"
      by (simp add: unknown_rows_def)
    show ?case unfolding c n st(1) [of k] st(2) [of l] using ih st(3,4)
      by (cases "normalizeVesselClass (lr_vessel_class r)") auto
  qed
  then show "map_of g k = (if class_rows k recs = [] then None else Some (class_rows k recs))"
    "map_of d l = (if unknown_rows l recs = 0 then None else Some (unknown_rows l recs))"
    "distinct (map fst g)" "distinct (map fst d)" by blast+
qed

subsection \<open>Properties of the calibration\<close>

text \<open>Parsing a loss run fails exactly for an input without a non-blank line or without one of
  the seven required columns (the first missing one is named). Otherwise every data line is
  accounted for once, as a record or as a skipped line, the skipped line numbers are distinct,
  increasing and in range, and every record is valid: its year is in [1900, 2200], its exposure is positive, its claim count is a
  whole number, no amount is negative and no label is empty.\<close>

theorem loss_run_parse_sound:
  "case parseLossRunCSV csv of
     Inl CsvEmpty \<Rightarrow> csv_lines csv = []
   | Inl (MissingColumn c) \<Rightarrow> csv_lines csv \<noteq> [] \<and> c \<in> set REQUIRED_HEADERS
       \<and> c \<notin> set (map (\<lambda>h. to_lower (trim h)) (split_on (CHR '','') (hd (csv_lines csv))))
   | Inr (recs, skipped) \<Rightarrow> csv_lines csv \<noteq> [] \<and> list_all valid_run recs
       \<and> length recs + length skipped = length (csv_lines csv) - 1
       \<and> sorted (map fst skipped) \<and> distinct (map fst skipped)
       \<and> list_all (\<lambda>n. 2 \<le> n \<and> n \<le> length (csv_lines csv)) (map fst skipped)"
proof (cases "csv_lines csv")
  case Nil
  then show ?thesis by (simp add: parseLossRunCSV_def)
next
  case (Cons h ls)
  define header where "header = map (\<lambda>c. to_lower (trim c)) (split_on (CHR '','') h)"
  show ?thesis
  proof (cases "List.find (\<lambda>r. r \<notin> set header) REQUIRED_HEADERS")
    case None
    obtain recs skipped where r: "parse_rows header 2 ls = (recs, skipped)" by fastforce
    show ?thesis using parse_rows_props [OF r]
      by (auto simp: parseLossRunCSV_def Cons header_def [symmetric] None r list_all_iff)
  next
    case (Some c)
    then have "c \<in> set REQUIRED_HEADERS \<and> c \<notin> set header" by (rule find_SomeD)
    then show ?thesis
      by (simp add: parseLossRunCSV_def Cons header_def [symmetric] Some)
  qed
qed

text \<open>The aggregation loop computes per class the statistics of exactly the records whose label
  normalises to that class, in input order, has an entry for exactly the classes that occur, and
  counts every other record under its own label: no record is lost or counted twice.\<close>

theorem aggregation_by_filter:
  "map_of (fst (aggregateByVesselClass recs)) k =
      (if class_rows k recs = [] then None else Some (stats_of k (class_rows k recs)))
    \<and> map_of (snd (aggregateByVesselClass recs)) l =
      (if unknown_rows l recs = 0 then None else Some (unknown_rows l recs))
    \<and> distinct (map fst (fst (aggregateByVesselClass recs)))
    \<and> distinct (map fst (snd (aggregateByVesselClass recs)))"
proof -
  obtain g d where f: "fold group_step recs ([], []) = (g, d)" by fastforce
  have m: "map_of (map (\<lambda>(k, rs). (k, stats_of k rs)) g) k = map_option (stats_of k) (map_of g k)" for k
    by (induction g) auto
  show ?thesis using group_fold [OF f]
    by (simp add: aggregateByVesselClass_def f m comp_def case_prod_beta)
qed

definition error_free :: "calibrated \<Rightarrow> bool" where
  "error_free cal \<longleftrightarrow> fst (partitionProblems (validateCalibratedConfig cal)) = []"

lemma multiplier_entries_iff: "(pt, m) \<in> set (multiplier_entries c) \<longleftrightarrow> pattern_multipliers c pt = Some m"
  by (cases pt) (auto simp: multiplier_entries_def List.map_filter_def split: option.splits)

lemma no_multiplier_error: "filter (\<lambda>p. p_severity p = PError) (concat (map check_multiplier (multiplier_entries c))) = []
    \<longleftrightarrow> (\<forall>pt m. pattern_multipliers c pt = Some m \<longrightarrow> 0 < m)"
proof -
  have "filter (\<lambda>p. p_severity p = PError) (check_multiplier (pt, m)) = [] \<longleftrightarrow> 0 < m" for pt m
    by (auto simp: check_multiplier_def err_def warn_def Let_def)
  then show ?thesis
    by (force simp: filter_concat multiplier_entries_iff [symmetric])
qed

lemma part_err: "filter (\<lambda>p. p_severity p = PError) (if b then err f v r else []) = [] \<longleftrightarrow> \<not> b"
  by (simp add: err_def)

lemma part_warn: "filter (\<lambda>p. p_severity p = PError) (if b then warn f v r else []) = [] \<longleftrightarrow> True"
  by (simp add: warn_def)

lemma part_both: "filter (\<lambda>p. p_severity p = PError) (if b then err f v r else if b2 then warn f2 v2 r2 else []) = [] \<longleftrightarrow> \<not> b"
  by (simp add: err_def warn_def)

text \<open>A calibrated configuration passes validation without an error exactly when its rate, anchors,
  exposure, days and multipliers are positive and its loadings are not negative; and an error-free
  configuration with \<open>k_sev \<le> 1\<close> satisfies what the premium floor and monotonicity rest on.\<close>

theorem calibration_validation_exact:
  "(error_free cal \<longleftrightarrow> (let c = config cal in 0 < base_rate_per_exposure_day c \<and> 0 \<le> k_freq c \<and> 0 < freq_anchor c
      \<and> 0 \<le> k_sev c \<and> 0 < sev_anchor c \<and> (\<forall>pt m. pattern_multipliers c pt = Some m \<longrightarrow> 0 < m)
      \<and> 0 \<le> k_anom c \<and> 0 < exposure c \<and> 0 < coverage_days c))
    \<and> (error_free cal \<and> k_sev (config cal) \<le> 1 \<longrightarrow> standard_config (config cal))"
proof -
  have "error_free cal \<longleftrightarrow> (let c = config cal in 0 < base_rate_per_exposure_day c \<and> 0 \<le> k_freq c \<and> 0 < freq_anchor c
      \<and> 0 \<le> k_sev c \<and> 0 < sev_anchor c \<and> (\<forall>pt m. pattern_multipliers c pt = Some m \<longrightarrow> 0 < m)
      \<and> 0 \<le> k_anom c \<and> 0 < exposure c \<and> 0 < coverage_days c)"
    unfolding error_free_def partitionProblems_def validateCalibratedConfig_def Let_def fst_conv filter_append
      append_is_Nil_conv no_multiplier_error part_err part_warn part_both
    by (simp add: not_le not_less)
  then show ?thesis by (auto simp: standard_config_def Let_def intro: less_imp_le)
qed

definition demo_stats :: loss_stats where
  "demo_stats = \<lparr>vessel_class_key = Key_CONTAINER_SHIP, total_vessel_years = 60, total_claims = 2,
     total_severity_usd = 100, total_exposure = 1000, total_premium_earned = 500, claim_frequency_rate = 0,
     mean_severity_per_claim = Some 50, loss_ratio = 0, earliest_year = 2020, latest_year = 2025\<rparr>"

lemma rnd_pos: "rnd (of_int p / of_int q) > 0" if "0 < p" "p \<le> q" "q \<le> 2 ^ 50" for p q :: int
  using rnd_frac_less [of 0 1 p q] that by simp

lemma container_multiplier_pos: "container_multipliers pt = Some m \<Longrightarrow> 0 < m"
proof (cases pt)
  case Sparse
  then show "container_multipliers pt = Some m \<Longrightarrow> 0 < m" using rnd_pos [of 17 20] by auto
next
  case Rising
  then show "container_multipliers pt = Some m \<Longrightarrow> 0 < m"
    using rnd_mono [of 1 "120 / 100"] rnd_of_int [of 1] by auto
next
  case Volatile
  then show "container_multipliers pt = Some m \<Longrightarrow> 0 < m"
    using rnd_mono [of 1 "110 / 100"] rnd_of_int [of 1] by auto
qed auto

theorem calibration_validation_exact_witness:
  "error_free (nullFitter 0 demo_stats) \<and> standard_config (config (nullFitter 0 demo_stats))"
proof -
  have p: "0 < rnd (50 / 100)" "0 < rnd (30 / 100)" "0 < rnd (40 / 100)"
    using rnd_pos [of 1 2] rnd_pos [of 3 10] rnd_pos [of 2 5] by simp_all
  have one: "rnd (40 / 100) \<le> 1" using rnd_mono [of "40 / 100" 1] rnd_of_int [of 1] by simp
  show ?thesis
    using calibration_validation_exact [of "nullFitter 0 demo_stats"] p one container_multiplier_pos
    by (auto simp: nullFitter_def demo_stats_def CONTAINER_SHIP_CONFIG_def Let_def intro: less_imp_le)
qed

end
