(* ===== verification/PlatformDb.thy ===== *)
theory PlatformDb
  imports JsString
begin

section \<open>The platform tables: users, tokens, access metrics, anomaly log\<close>

text \<open>
  The tables of src/db/migrate.ts that authentication, the dual-plane guards and the anomaly
  analytics share, as one database record. A table is the list of its rows; the model has the columns that the
  modelled code reads or writes. \<open>users\<close> carries the columns of migration 5 and the plane columns
  of migration 17 (\<open>control_plane\<close> has a CHECK constraint, \<open>plane_role\<close> is any text).
  \<open>context_json\<close> is kept as the object it prints. A request is the record of what the
  middlewares read from it and of what they attach to it.
\<close>

datatype control_plane = Business | Client

record user_row =
  u_id :: string
  u_tenant :: string
  u_name :: string
  u_email :: string
  u_hash :: string
  u_role :: string
  u_failed :: int
  u_locked :: bool
  u_locked_until :: "time option"
  u_shadow_until :: "time option"
  u_last_login :: "time option"
  u_created :: time
  u_updated :: time
  u_plane :: control_plane
  u_plane_role :: string
  u_scope :: "string option"

record refresh_token =
  rt_id :: string
  rt_user :: string
  rt_hash :: string
  rt_expires :: time
  rt_revoked :: bool
  rt_created :: time

record role_audit_row =
  ra_tenant :: string
  ra_target :: string
  ra_actor :: string
  ra_action :: string
  ra_old :: "string option"
  ra_new :: "string option"
  ra_reason :: "string option"
  ra_created :: time

record agent_row =
  ag_id :: string
  ag_locked :: bool
  ag_lockout_until :: "time option"
  ag_shadow_until :: "time option"

record ip_lockout =
  ip :: string
  ip_locked_until :: time
  ip_created :: time

datatype anomaly_event_type =
  Rapid_balance_drain | Threshold_spike | Off_hours_payout | High_frequency_payout
| Cross_tenant_probe | Invalid_hmac_sequence | Shadow_scan_trigger | Failed_auth_burst
| Policy_reload_flood | Large_single_transfer

datatype anomaly_risk_level = Risk_low | Risk_medium | Risk_high | Risk_critical

datatype lockout_type = Soft | Hard | Shadow

datatype entity_kind = Agent_entity | User_entity | Ip_entity

record anomaly_log_row =
  al_id :: string
  al_entity :: string
  al_entity_type :: entity_kind
  al_tenant :: string
  al_event :: anomaly_event_type
  al_observed :: rat
  al_risk :: anomaly_risk_level
  al_score :: int
  al_context :: "(string \<times> rat) list"
  al_lockout :: "lockout_type option"
  al_until :: "time option"
  al_dispatched :: bool
  al_created :: time

record payout_log_row =
  po_tenant :: string
  po_agent :: string
  po_status :: string
  po_created :: time

record access_metric_row =
  m_user_id :: string
  m_username :: string
  m_plane :: string
  m_plane_role :: string
  m_tenant :: "string option"
  m_resource :: string
  m_method :: string
  m_required_plane :: "control_plane option"
  m_required_roles :: string
  m_granted :: bool
  m_denial_reason :: "string option"
  m_boundary_crossing :: bool
  m_tenant_violation :: bool
  m_elevation_attempt :: bool
  m_ip :: "string option"
  m_user_agent :: "string option"
  m_request_id :: "string option"
  m_evaluated_at :: time
  m_denial_count_1h :: int

record key_account =
  ka_tenant :: string
  ka_tier :: string
  ka_status :: string
  ka_hash :: string
  ka_prefix :: string

record plat_db =
  t_users :: "user_row list"
  t_tokens :: "refresh_token list"
  t_role_audit :: "role_audit_row list"
  t_agents :: "agent_row list"
  t_ip_lockouts :: "ip_lockout list"
  t_anomalies :: "anomaly_log_row list"
  t_payouts :: "payout_log_row list"
  t_metrics :: "access_metric_row list"
  t_accounts :: "key_account list"

record request =
  r_method :: string
  r_path :: string
  h_authorization :: "string option"
  h_tenant_id :: "string option"
  h_forwarded_for :: "string option"
  h_user_agent :: "string option"
  h_request_id :: "string option"
  h_tier :: "string option"
  r_remote :: "string option"
  caas_user :: "string option"
  caas_tenant :: "string option"
  caas_role :: "string option"
  caas_auth_method :: "string option"
  caas_api_tier :: "string option"

subsection \<open>Statements on the users table\<close>

definition find_user :: "plat_db \<Rightarrow> string \<Rightarrow> user_row option" where
  "find_user db i = List.find (\<lambda>u. u_id u = i) (t_users db)"

definition update_user :: "string \<Rightarrow> (user_row \<Rightarrow> user_row) \<Rightarrow> plat_db \<Rightarrow> plat_db" where
  "update_user i f db = db\<lparr>t_users := update_where (\<lambda>u. u_id u = i) f (t_users db)\<rparr>"

named_theorems user_simps \<open>look-ups after updates of the users table\<close>

lemma find_user_update [user_simps]:
  "(\<And>u. u_id (f u) = u_id u) \<Longrightarrow>
   find_user (update_user i f db) j = (if j = i then map_option f (find_user db j) else find_user db j)"
  by (auto simp: find_user_def update_user_def find_update_where intro!: find_update_where_other)

lemma find_user_upd_other [simp, user_simps]:
  "find_user (db\<lparr>t_tokens := a\<rparr>) j = find_user db j"
  "find_user (db\<lparr>t_anomalies := b\<rparr>) j = find_user db j"
  "find_user (db\<lparr>t_role_audit := c\<rparr>) j = find_user db j"
  "find_user (db\<lparr>t_metrics := d\<rparr>) j = find_user db j"
  "find_user (db\<lparr>t_agents := e\<rparr>) j = find_user db j"
  "find_user (db\<lparr>t_ip_lockouts := g\<rparr>) j = find_user db j"
  by (simp_all add: find_user_def)

lemma update_user_tables [simp, user_simps]:
  "t_tokens (update_user i f db) = t_tokens db"
  "t_anomalies (update_user i f db) = t_anomalies db"
  "t_role_audit (update_user i f db) = t_role_audit db"
  "t_metrics (update_user i f db) = t_metrics db"
  "t_agents (update_user i f db) = t_agents db"
  "t_ip_lockouts (update_user i f db) = t_ip_lockouts db"
  "t_payouts (update_user i f db) = t_payouts db"
  "t_accounts (update_user i f db) = t_accounts db"
  by (simp_all add: update_user_def)

lemma find_user_id: "find_user db i = Some u \<Longrightarrow> u_id u = i"
  by (auto simp: find_user_def dest: find_SomeD)

lemma find_user_mem: "find_user db i = Some u \<Longrightarrow> u \<in> set (t_users db)"
  by (auto simp: find_user_def dest: find_SomeD)

lemma update_user_set:
  "u \<in> set (t_users (update_user i f db)) \<Longrightarrow>
   (\<exists>v \<in> set (t_users db). u_id v = i \<and> u = f v) \<or> u \<in> set (t_users db)"
  by (auto simp: update_user_def set_update_where split: if_splits)

lemma update_user_twice [user_simps]:
  "(\<And>u. u_id (g u) = u_id u) \<Longrightarrow> update_user i f (update_user i g db) = update_user i (\<lambda>u. f (g u)) db"
  by (simp add: update_user_def update_where_def)

lemma update_user_ids: "(\<And>u. u_id (f u) = u_id u) \<Longrightarrow> map u_id (t_users (update_user i f db)) = map u_id (t_users db)"
  by (simp add: update_user_def map_update_where)

lemma update_user_id: "(\<And>u. find_user db i = Some u \<Longrightarrow> f u = u) \<Longrightarrow> distinct (map u_id (t_users db)) \<Longrightarrow>
    update_user i f db = db"
proof -
  assume f: "\<And>u. find_user db i = Some u \<Longrightarrow> f u = u" and d: "distinct (map u_id (t_users db))"
  have "update_where (\<lambda>u. u_id u = i) f (t_users db) = map (\<lambda>u. u) (t_users db)"
    unfolding update_where_def
  proof (rule map_cong)
    fix u assume "u \<in> set (t_users db)"
    then have "u_id u = i \<Longrightarrow> find_user db i = Some u" using find_distinct_key [OF d] by (auto simp: find_user_def)
    with f show "(if u_id u = i then f u else u) = u" by auto
  qed simp
  then show ?thesis by (simp add: update_user_def)
qed

lemma find_user_iff: "distinct (map u_id (t_users db)) \<Longrightarrow> find_user db i = Some u \<longleftrightarrow> u \<in> set (t_users db) \<and> u_id u = i"
  using find_distinct_key [of u_id "t_users db" u] by (auto simp: find_user_def dest: find_SomeD)

lemma find_user_None_iff: "find_user db i = None \<longleftrightarrow> i \<notin> u_id ` set (t_users db)"
  by (auto simp: find_user_def find_None_iff)

lemma find_user_tables_cong: "t_users a = t_users b \<Longrightarrow> find_user a i = find_user b i"
  by (simp add: find_user_def)

end
