(* ===== verification/Anomaly.thy ===== *)
theory Anomaly
  imports PlatformDb
begin

section \<open>Anomaly scoring, lockouts and the anomaly log\<close>

text \<open>
  The model of src/analytics/anomaly.ts. The random id of a log row and the clock reading are
  arguments. \<open>processAnomaly\<close> awaits the alert channels between two database statements: it is
  the composition of \<open>processAnomaly_log\<close> (what runs before the await) and
  \<open>mark_dispatched\<close> (after it); the channels themselves never throw (\<open>Promise.allSettled\<close>)
  and answer nothing the code uses.
\<close>

definition EVENT_BASE_SCORES :: "anomaly_event_type \<Rightarrow> rat" where
  "EVENT_BASE_SCORES t =
     (case t of Rapid_balance_drain \<Rightarrow> 35 | Threshold_spike \<Rightarrow> 20 | Off_hours_payout \<Rightarrow> 15
      | High_frequency_payout \<Rightarrow> 25 | Cross_tenant_probe \<Rightarrow> 70 | Invalid_hmac_sequence \<Rightarrow> 55
      | Shadow_scan_trigger \<Rightarrow> 80 | Failed_auth_burst \<Rightarrow> 50 | Policy_reload_flood \<Rightarrow> 30
      | Large_single_transfer \<Rightarrow> 40)"

text \<open>A rule is the lockout type with its duration in hours.\<close>

definition LOCKOUT_RULES :: "anomaly_risk_level \<Rightarrow> (lockout_type \<times> int) option" where
  "LOCKOUT_RULES r =
     (case r of Risk_low \<Rightarrow> None | Risk_medium \<Rightarrow> Some (Soft, 1) | Risk_high \<Rightarrow> Some (Hard, 24)
      | Risk_critical \<Rightarrow> Some (Shadow, 7 * 24))"

record anomaly_event =
  ae_entity :: string
  ae_kind :: entity_kind
  ae_tenant :: string
  ae_type :: anomaly_event_type
  ae_observed :: rat
  ae_context :: "(string \<times> rat) list"

record scored_anomaly =
  sc_score :: int
  sc_risk :: anomaly_risk_level
  sc_lockout :: "(lockout_type \<times> int) option"

subsection \<open>Scoring\<close>

definition computeSeverityMultiplier :: "anomaly_event_type \<Rightarrow> rat \<Rightarrow> rat" where
  "computeSeverityMultiplier t v =
     (case t of
        Rapid_balance_drain \<Rightarrow>
          if v \<ge> rnd (9 / 10) then 3 else if v \<ge> rnd (7 / 10) then 2 else if v \<ge> 1 / 2 then 3 / 2 else 1
      | High_frequency_payout \<Rightarrow>
          if v \<ge> 20 then 3 else if v \<ge> 10 then 2 else if v \<ge> 5 then 3 / 2 else 1
      | Large_single_transfer \<Rightarrow>
          if v \<ge> 40000 then 3 else if v \<ge> 20000 then 2 else if v \<ge> 10000 then 3 / 2 else 1
      | Failed_auth_burst \<Rightarrow>
          if v \<ge> 20 then 3 else if v \<ge> 10 then 2 else if v \<ge> 5 then 3 / 2 else 1
      | Invalid_hmac_sequence \<Rightarrow>
          if v \<ge> 5 then 3 else if v \<ge> 3 then 2 else 1
      | Policy_reload_flood \<Rightarrow>
          if v \<ge> 30 then 3 else if v \<ge> 15 then 2 else if v \<ge> 5 then 3 / 2 else 1
      | _ \<Rightarrow> 1)"

definition recent_count :: "time \<Rightarrow> string \<Rightarrow> anomaly_event_type \<Rightarrow> plat_db \<Rightarrow> nat" where
  "recent_count now entity t db =
     count_where (\<lambda>r. al_entity r = entity \<and> al_event r = t \<and> al_created r \<ge> now - 24 * 3600000) (t_anomalies db)"

definition computeRecencyBonus :: "time \<Rightarrow> string \<Rightarrow> anomaly_event_type \<Rightarrow> plat_db \<Rightarrow> rat" where
  "computeRecencyBonus now entity t db =
     (let n = recent_count now entity t db
      in if n \<ge> 10 then 15 else if n \<ge> 5 then 10 else if n \<ge> 2 then 5 else 0)"

definition risk_of_score :: "int \<Rightarrow> anomaly_risk_level" where
  "risk_of_score s =
     (if s \<ge> 70 then Risk_critical else if s \<ge> 45 then Risk_high else if s \<ge> 20 then Risk_medium else Risk_low)"

definition scoreAnomaly :: "time \<Rightarrow> anomaly_event \<Rightarrow> plat_db \<Rightarrow> scored_anomaly" where
  "scoreAnomaly now ev db =
     (let raw = fadd (fmul (EVENT_BASE_SCORES (ae_type ev)) (computeSeverityMultiplier (ae_type ev) (ae_observed ev)))
                     (computeRecencyBonus now (ae_entity ev) (ae_type ev) db);
          s = min 100 (js_round raw);
          r = risk_of_score s
      in \<lparr>sc_score = s, sc_risk = r, sc_lockout = LOCKOUT_RULES r\<rparr>)"

subsection \<open>Lockouts\<close>

definition applyAgentLockout :: "string \<Rightarrow> lockout_type \<Rightarrow> time \<Rightarrow> plat_db \<Rightarrow> plat_db" where
  "applyAgentLockout i k until db =
     db\<lparr>t_agents := update_where (\<lambda>a. ag_id a = i)
        (\<lambda>a. if k = Shadow then a\<lparr>ag_shadow_until := Some until, ag_locked := False\<rparr>
             else a\<lparr>ag_locked := True, ag_lockout_until := Some until\<rparr>) (t_agents db)\<rparr>"

definition user_lockout :: "lockout_type \<Rightarrow> time \<Rightarrow> user_row \<Rightarrow> user_row" where
  "user_lockout k until u =
     (if k = Shadow then u\<lparr>u_shadow_until := Some until, u_locked := False\<rparr>
      else u\<lparr>u_locked := True, u_locked_until := Some until\<rparr>)"

definition applyUserLockout :: "string \<Rightarrow> lockout_type \<Rightarrow> time \<Rightarrow> plat_db \<Rightarrow> plat_db" where
  "applyUserLockout i k until db = update_user i (user_lockout k until) db"

definition applyIpLockout :: "time \<Rightarrow> string \<Rightarrow> time \<Rightarrow> plat_db \<Rightarrow> plat_db" where
  "applyIpLockout now i until db =
     db\<lparr>t_ip_lockouts :=
          (if list_ex (\<lambda>l. ip l = i) (t_ip_lockouts db)
           then update_where (\<lambda>l. ip l = i) (\<lambda>l. l\<lparr>ip_locked_until := until\<rparr>) (t_ip_lockouts db)
           else t_ip_lockouts db @ [\<lparr>ip = i, ip_locked_until = until, ip_created = now\<rparr>])\<rparr>"

definition executeLockout :: "time \<Rightarrow> anomaly_event \<Rightarrow> lockout_type \<Rightarrow> time \<Rightarrow> plat_db \<Rightarrow> plat_db" where
  "executeLockout now ev k until db =
     (case ae_kind ev of
        Agent_entity \<Rightarrow> applyAgentLockout (ae_entity ev) k until db
      | User_entity \<Rightarrow> applyUserLockout (ae_entity ev) k until db
      | Ip_entity \<Rightarrow> applyIpLockout now (ae_entity ev) until db)"

subsection \<open>Processing an event\<close>

definition log_row :: "time \<Rightarrow> string \<Rightarrow> anomaly_event \<Rightarrow> scored_anomaly \<Rightarrow> anomaly_log_row" where
  "log_row now i ev sc =
     \<lparr>al_id = i, al_entity = ae_entity ev, al_entity_type = ae_kind ev, al_tenant = ae_tenant ev,
      al_event = ae_type ev, al_observed = ae_observed ev, al_risk = sc_risk sc, al_score = sc_score sc,
      al_context = ae_context ev, al_lockout = map_option fst (sc_lockout sc),
      al_until = map_option (\<lambda>(k, hours). now + hours * 3600000) (sc_lockout sc),
      al_dispatched = False, al_created = now\<rparr>"

definition processAnomaly_log :: "time \<Rightarrow> string \<Rightarrow> anomaly_event \<Rightarrow> plat_db \<Rightarrow> anomaly_log_row \<times> plat_db" where
  "processAnomaly_log now i ev db =
     (let sc = scoreAnomaly now ev db;
          row = log_row now i ev sc;
          db1 = (case sc_lockout sc of None \<Rightarrow> db
                 | Some (k, hours) \<Rightarrow> executeLockout now ev k (now + hours * 3600000) db)
      in (row, db1\<lparr>t_anomalies := t_anomalies db1 @ [row]\<rparr>))"

definition mark_dispatched :: "string \<Rightarrow> plat_db \<Rightarrow> plat_db" where
  "mark_dispatched i db =
     db\<lparr>t_anomalies := update_where (\<lambda>r. al_id r = i) (\<lambda>r. r\<lparr>al_dispatched := True\<rparr>) (t_anomalies db)\<rparr>"

definition processAnomaly :: "time \<Rightarrow> string \<Rightarrow> anomaly_event \<Rightarrow> plat_db \<Rightarrow> anomaly_log_row \<times> plat_db" where
  "processAnomaly now i ev db =
     (let (row, db1) = processAnomaly_log now i ev db
      in if al_risk row \<noteq> Risk_low then (row\<lparr>al_dispatched := True\<rparr>, mark_dispatched i db1) else (row, db1))"

subsection \<open>Detectors\<close>

definition getUTCHours :: "time \<Rightarrow> int" where
  "getUTCHours now = (now div 3600000) mod 24"

definition detectOffHoursPayout ::
  "time \<Rightarrow> string \<Rightarrow> string \<Rightarrow> string \<Rightarrow> rat \<Rightarrow> plat_db \<Rightarrow> anomaly_log_row option \<times> plat_db" where
  "detectOffHoursPayout now i agentId tenantId amountGhs db =
     (let h = getUTCHours now
      in if h \<ge> 6 \<and> h < 22 then (None, db)
         else apfst Some (processAnomaly now i
           \<lparr>ae_entity = agentId, ae_kind = Agent_entity, ae_tenant = tenantId, ae_type = Off_hours_payout,
            ae_observed = of_int h, ae_context = [(''hour_utc'', of_int h), (''amount_g_h_s'', amountGhs)]\<rparr> db))"

definition detectRapidBalanceDrain ::
  "time \<Rightarrow> string \<Rightarrow> string \<Rightarrow> string \<Rightarrow> rat \<Rightarrow> rat \<Rightarrow> plat_db \<Rightarrow> anomaly_log_row option \<times> plat_db" where
  "detectRapidBalanceDrain now i agentId tenantId previousBalance payoutAmount db =
     (if previousBalance \<le> 0 then (None, db)
      else let fraction = fdiv payoutAmount previousBalance
           in if fraction < 1 / 2 then (None, db)
              else apfst Some (processAnomaly now i
                \<lparr>ae_entity = agentId, ae_kind = Agent_entity, ae_tenant = tenantId,
                 ae_type = Rapid_balance_drain, ae_observed = fraction,
                 ae_context = [(''previous_balance_g_h_s'', previousBalance),
                   (''payout_amount_g_h_s'', payoutAmount), (''drain_fraction'', fraction)]\<rparr> db))"

definition payouts_since :: "time \<Rightarrow> string \<Rightarrow> plat_db \<Rightarrow> nat" where
  "payouts_since since agentId db = count_where
     (\<lambda>p. po_agent p = agentId \<and> po_created p \<ge> since \<and> po_status p \<notin> {''duplicate'', ''failed''}) (t_payouts db)"

definition detectHighFrequencyPayouts ::
  "time \<Rightarrow> string \<Rightarrow> string \<Rightarrow> string \<Rightarrow> int \<Rightarrow> int \<Rightarrow> plat_db \<Rightarrow> anomaly_log_row option \<times> plat_db" where
  "detectHighFrequencyPayouts now i agentId tenantId windowMinutes maxAllowed db =
     (let n = payouts_since (now - windowMinutes * 60000) agentId db
      in if int n \<le> maxAllowed then (None, db)
         else apfst Some (processAnomaly now i
           \<lparr>ae_entity = agentId, ae_kind = Agent_entity, ae_tenant = tenantId,
            ae_type = High_frequency_payout, ae_observed = of_nat n,
            ae_context = [(''window_minutes'', of_int windowMinutes), (''payout_count'', of_nat n),
              (''max_allowed'', of_int maxAllowed)]\<rparr> db))"

definition burst_event :: "string \<Rightarrow> string \<Rightarrow> int \<Rightarrow> int \<Rightarrow> anomaly_event" where
  "burst_event userId tenantId failedAttempts windowMinutes =
     \<lparr>ae_entity = userId, ae_kind = User_entity, ae_tenant = tenantId, ae_type = Failed_auth_burst,
      ae_observed = of_int failedAttempts,
      ae_context = [(''failed_attempts'', of_int failedAttempts), (''window_minutes'', of_int windowMinutes)]\<rparr>"

definition detectFailedAuthBurst ::
  "time \<Rightarrow> string \<Rightarrow> string \<Rightarrow> string \<Rightarrow> int \<Rightarrow> int \<Rightarrow> plat_db \<Rightarrow> anomaly_log_row option \<times> plat_db" where
  "detectFailedAuthBurst now i userId tenantId failedAttempts windowMinutes db =
     (if failedAttempts < 5 then (None, db)
      else apfst Some (processAnomaly now i (burst_event userId tenantId failedAttempts windowMinutes) db))"

subsection \<open>Queries on the log\<close>

record log_filters =
  qf_entity :: "string option"
  qf_risk :: "anomaly_risk_level option"
  qf_event :: "anomaly_event_type option"
  qf_since :: "time option"
  qf_limit :: "int option"
  qf_offset :: "int option"

definition log_matches :: "string \<Rightarrow> log_filters \<Rightarrow> anomaly_log_row \<Rightarrow> bool" where
  "log_matches tenantId f r \<longleftrightarrow>
     al_tenant r = tenantId
     \<and> (case qf_entity f of None \<Rightarrow> True | Some e \<Rightarrow> e = [] \<or> al_entity r = e)
     \<and> (case qf_risk f of None \<Rightarrow> True | Some l \<Rightarrow> al_risk r = l)
     \<and> (case qf_event f of None \<Rightarrow> True | Some t \<Rightarrow> al_event r = t)
     \<and> (case qf_since f of None \<Rightarrow> True | Some s \<Rightarrow> al_created r \<ge> s)"

text \<open>\<open>LIMIT n OFFSET m\<close> of SQLite: a negative limit is no limit, a negative offset is none.\<close>

definition sql_limit :: "int \<Rightarrow> int \<Rightarrow> 'a list \<Rightarrow> 'a list" where
  "sql_limit n m xs = (let ys = drop (nat m) xs in if n < 0 then ys else take (nat n) ys)"

definition or_default :: "'a \<Rightarrow> 'a option \<Rightarrow> 'a" where
  "or_default d v = (case v of None \<Rightarrow> d | Some x \<Rightarrow> x)"

definition queryAnomalyLogs :: "string \<Rightarrow> log_filters \<Rightarrow> plat_db \<Rightarrow> anomaly_log_row list" where
  "queryAnomalyLogs tenantId f db =
     sql_limit (or_default 100 (qf_limit f)) (or_default 0 (qf_offset f))
       (sort_key (\<lambda>r. - al_created r) (filter (log_matches tenantId f) (t_anomalies db)))"

record anomaly_stats =
  st_total :: nat
  st_by_risk :: "(anomaly_risk_level \<times> nat) list"
  st_by_event :: "(anomaly_event_type \<times> nat) list"
  st_lockouts :: nat

definition stats_rows :: "string \<Rightarrow> time option \<Rightarrow> plat_db \<Rightarrow> anomaly_log_row list" where
  "stats_rows tenantId since db =
     filter (\<lambda>r. al_tenant r = tenantId \<and> (case since of None \<Rightarrow> True | Some s \<Rightarrow> al_created r \<ge> s)) (t_anomalies db)"

definition getAnomalyStats :: "string \<Rightarrow> time option \<Rightarrow> plat_db \<Rightarrow> anomaly_stats" where
  "getAnomalyStats tenantId since db =
     (let rows = stats_rows tenantId since db
      in \<lparr>st_total = length rows,
          st_by_risk = map (\<lambda>l. (l, count_where (\<lambda>r. al_risk r = l) rows)) [Risk_low, Risk_medium, Risk_high, Risk_critical],
          st_by_event = map (\<lambda>t. (t, count_where (\<lambda>r. al_event r = t) rows)) (remdups (map al_event rows)),
          st_lockouts = count_where (\<lambda>r. al_lockout r \<noteq> None) rows\<rparr>)"

subsection \<open>The order of risk levels\<close>

fun risk_rank :: "anomaly_risk_level \<Rightarrow> nat" where
  "risk_rank Risk_low = 0"
| "risk_rank Risk_medium = 1"
| "risk_rank Risk_high = 2"
| "risk_rank Risk_critical = 3"

instantiation anomaly_risk_level :: linorder
begin

definition less_eq_anomaly_risk_level :: "anomaly_risk_level \<Rightarrow> anomaly_risk_level \<Rightarrow> bool" where
  "less_eq_anomaly_risk_level a b \<longleftrightarrow> risk_rank a \<le> risk_rank b"

definition less_anomaly_risk_level :: "anomaly_risk_level \<Rightarrow> anomaly_risk_level \<Rightarrow> bool" where
  "less_anomaly_risk_level a b \<longleftrightarrow> risk_rank a < risk_rank b"

instance
proof
  fix x y :: anomaly_risk_level
  assume "x \<le> y" "y \<le> x"
  then show "x = y" by (cases x; cases y) (simp_all add: less_eq_anomaly_risk_level_def)
qed (auto simp: less_eq_anomaly_risk_level_def less_anomaly_risk_level_def)

end

subsection \<open>Scores\<close>

lemma rnd_half_int: "\<bar>k\<bar> \<le> 2 ^ 53 \<Longrightarrow> rnd (of_int k / 2) = of_int k / 2"
  using rnd_scaled_int [of k "-1"] by simp

definition raw_score :: "time \<Rightarrow> anomaly_event \<Rightarrow> plat_db \<Rightarrow> rat" where
  "raw_score now ev db =
     EVENT_BASE_SCORES (ae_type ev) * computeSeverityMultiplier (ae_type ev) (ae_observed ev)
     + computeRecencyBonus now (ae_entity ev) (ae_type ev) db"

lemma multiplier_cases: "computeSeverityMultiplier t v \<in> {1, 3 / 2, 2, 3}"
  by (simp add: computeSeverityMultiplier_def split: anomaly_event_type.splits)

lemma base_cases: "EVENT_BASE_SCORES t \<in> {15, 20, 25, 30, 35, 40, 50, 55, 70, 80}"
  by (simp add: EVENT_BASE_SCORES_def split: anomaly_event_type.splits)

lemma bonus_cases: "computeRecencyBonus now e t db \<in> {0, 5, 10, 15}"
  by (simp add: computeRecencyBonus_def Let_def)

lemma product_half: "\<exists>k::int. \<bar>k\<bar> \<le> 480 \<and> EVENT_BASE_SCORES t * computeSeverityMultiplier t v = of_int k / 2"
proof -
  have "\<exists>b::int. 0 \<le> b \<and> b \<le> 80 \<and> EVENT_BASE_SCORES t = of_int b"
    using base_cases [of t] by (auto intro: exI [of _ 15] exI [of _ 20] exI [of _ 25] exI [of _ 30] exI [of _ 35]
      exI [of _ 40] exI [of _ 50] exI [of _ 55] exI [of _ 70] exI [of _ 80])
  moreover have "\<exists>m::int. 0 \<le> m \<and> m \<le> 6 \<and> computeSeverityMultiplier t v = of_int m / 2"
    using multiplier_cases [of t v] by (auto intro: exI [of _ 2] exI [of _ 3] exI [of _ 4] exI [of _ 6])
  ultimately obtain b m :: int where "0 \<le> b" "b \<le> 80" "0 \<le> m" "m \<le> 6"
    "EVENT_BASE_SCORES t = of_int b" "computeSeverityMultiplier t v = of_int m / 2" by blast
  moreover from this have "b * m \<le> 80 * 6" by (intro mult_mono) auto
  ultimately show ?thesis by (intro exI [of _ "b * m"]) (simp add: abs_mult)
qed

text \<open>The double arithmetic of the score is exact.\<close>

lemma score_exact: "sc_score (scoreAnomaly now ev db) = min 100 (js_round (raw_score now ev db))"
proof -
  obtain k :: int where k: "\<bar>k\<bar> \<le> 480"
    "EVENT_BASE_SCORES (ae_type ev) * computeSeverityMultiplier (ae_type ev) (ae_observed ev) = of_int k / 2"
    using product_half by blast
  obtain b :: int where b: "0 \<le> b" "b \<le> 15" "computeRecencyBonus now (ae_entity ev) (ae_type ev) db = of_int b"
    using bonus_cases [of now "ae_entity ev" "ae_type ev" db]
    by (auto intro: that [of 0] that [of 5] that [of 10] that [of 15])
  have 1: "rnd (of_int k / 2) = of_int k / 2" using k(1) by (intro rnd_half_int) simp
  have 2: "rnd (of_int k / 2 + of_int b) = of_int k / 2 + of_int b"
    using rnd_half_int [of "k + 2 * b"] k(1) b by (simp add: add_divide_distrib)
  show ?thesis
    by (simp only: scoreAnomaly_def raw_score_def fadd_def fmul_def k(2) b(3) Let_def 1 2
        scored_anomaly.select_convs)
qed

lemma score_risk: "sc_risk (scoreAnomaly now ev db) = risk_of_score (sc_score (scoreAnomaly now ev db))"
  "sc_lockout (scoreAnomaly now ev db) = LOCKOUT_RULES (sc_risk (scoreAnomaly now ev db))"
  by (simp_all add: scoreAnomaly_def Let_def)

lemma risk_of_score_mono: "s \<le> t \<Longrightarrow> risk_of_score s \<le> risk_of_score t"
  by (simp add: risk_of_score_def less_eq_anomaly_risk_level_def)

lemma multiplier_mono: "v \<le> w \<Longrightarrow> computeSeverityMultiplier t v \<le> computeSeverityMultiplier t w"
proof -
  assume "v \<le> w"
  moreover have "rnd (7 / 10) \<le> rnd (9 / 10)" by (rule rnd_mono) simp
  ultimately show ?thesis by (cases t) (auto simp: computeSeverityMultiplier_def)
qed

lemma bonus_mono:
  "recent_count now e t db \<le> recent_count now' e' t db' \<Longrightarrow>
   computeRecencyBonus now e t db \<le> computeRecencyBonus now' e' t db'"
  by (simp add: computeRecencyBonus_def Let_def)

lemma raw_score_bounds: "15 \<le> raw_score now ev db" "raw_score now ev db \<le> 255"
proof -
  let ?t = "ae_type ev"
  let ?b = "EVENT_BASE_SCORES ?t" and ?m = "computeSeverityMultiplier ?t (ae_observed ev)"
    and ?r = "computeRecencyBonus now (ae_entity ev) ?t db"
  have b: "15 \<le> ?b" "?b \<le> 80" using base_cases [of ?t] by auto
  have m: "1 \<le> ?m" "?m \<le> 3" using multiplier_cases [of ?t "ae_observed ev"] by auto
  have r: "0 \<le> ?r" "?r \<le> 15" using bonus_cases [of now "ae_entity ev" ?t db] by auto
  have "15 * 1 \<le> ?b * ?m" "?b * ?m \<le> 80 * 3"
    using b m by (intro mult_mono; simp)+
  with r show "15 \<le> raw_score now ev db" "raw_score now ev db \<le> 255"
    by (simp_all add: raw_score_def)
qed

lemma score_bounds: "15 \<le> sc_score (scoreAnomaly now ev db)" "sc_score (scoreAnomaly now ev db) \<le> 100"
proof -
  have "js_round 15 \<le> js_round (raw_score now ev db)"
    by (rule js_round_mono) (rule raw_score_bounds)
  moreover have "js_round 15 = 15" by (simp add: js_round_def floor_eq_iff)
  ultimately show "15 \<le> sc_score (scoreAnomaly now ev db)" by (simp add: score_exact)
qed (simp add: score_exact)

subsection \<open>Effects of an event\<close>

lemma executeLockout_tables [simp]:
  "t_anomalies (executeLockout now ev k until db) = t_anomalies db"
  "t_tokens (executeLockout now ev k until db) = t_tokens db"
  "t_role_audit (executeLockout now ev k until db) = t_role_audit db"
  "t_metrics (executeLockout now ev k until db) = t_metrics db"
  "t_payouts (executeLockout now ev k until db) = t_payouts db"
  by (simp_all add: executeLockout_def applyAgentLockout_def applyUserLockout_def applyIpLockout_def
      split: entity_kind.split)

lemma user_lockout_id [simp]: "u_id (user_lockout k t u) = u_id u"
  by (simp add: user_lockout_def)

lemma find_user_executeLockout:
  "find_user (executeLockout now ev k until db) j =
     (if ae_kind ev = User_entity \<and> j = ae_entity ev then map_option (user_lockout k until) (find_user db j)
      else find_user db j)"
  by (simp add: executeLockout_def applyAgentLockout_def applyUserLockout_def applyIpLockout_def
      find_user_update split: entity_kind.split)

lemma find_user_mark [simp]: "find_user (mark_dispatched i db) j = find_user db j"
  by (simp add: mark_dispatched_def)

lemma processAnomaly_log_row: "fst (processAnomaly_log now i ev db) = log_row now i ev (scoreAnomaly now ev db)"
  by (simp add: processAnomaly_log_def Let_def)

lemma processAnomaly_log_table:
  "t_anomalies (snd (processAnomaly_log now i ev db)) = t_anomalies db @ [log_row now i ev (scoreAnomaly now ev db)]"
  by (simp add: processAnomaly_log_def Let_def split: option.split)

lemma processAnomaly_log_user:
  "find_user (snd (processAnomaly_log now i ev db)) j =
     (if ae_kind ev = User_entity \<and> j = ae_entity ev
      then map_option (\<lambda>u. case sc_lockout (scoreAnomaly now ev db) of None \<Rightarrow> u
             | Some (k, h) \<Rightarrow> user_lockout k (now + h * 3600000) u) (find_user db j)
      else find_user db j)"
  by (auto simp add: processAnomaly_log_def Let_def find_user_executeLockout option.map_ident split: option.split)

lemma processAnomaly_user:
  "find_user (snd (processAnomaly now i ev db)) j = find_user (snd (processAnomaly_log now i ev db)) j"
  by (simp add: processAnomaly_def split: prod.split)

lemma processAnomaly_tables:
  "t_tokens (snd (processAnomaly now i ev db)) = t_tokens db"
  "t_role_audit (snd (processAnomaly now i ev db)) = t_role_audit db"
  "t_metrics (snd (processAnomaly now i ev db)) = t_metrics db"
  by (simp_all add: processAnomaly_def processAnomaly_log_def mark_dispatched_def Let_def split: prod.split option.split)

lemma lockout_of_score:
  "sc_lockout (scoreAnomaly now ev db) =
     (let s = sc_score (scoreAnomaly now ev db)
      in if s \<ge> 70 then Some (Shadow, 168) else if s \<ge> 45 then Some (Hard, 24)
         else if s \<ge> 20 then Some (Soft, 1) else None)"
  by (simp add: scoreAnomaly_def LOCKOUT_RULES_def risk_of_score_def Let_def)

text \<open>
  What an anomaly does to accounts. An event about a user changes that user's row only: from a
  score of 20 the account is locked for an hour, from 45 for a day; but from 70, the critical
  level, the shadow scan is set for seven days and the lock is \<^emph>\<open>cleared\<close>. Events about agents
  and addresses touch no user. The log gets one row with the score, the level and the lockout, and
  its alert flag is set exactly when the level is above low.\<close>

theorem anomaly_user_lockout:
  "find_user (snd (processAnomaly now i ev db)) j =
     (if ae_kind ev = User_entity \<and> j = ae_entity ev
      then map_option (\<lambda>u. let s = sc_score (scoreAnomaly now ev db)
             in if s \<ge> 70 then u\<lparr>u_shadow_until := Some (now + 604800000), u_locked := False\<rparr>
                else if s \<ge> 45 then u\<lparr>u_locked := True, u_locked_until := Some (now + 86400000)\<rparr>
                else if s \<ge> 20 then u\<lparr>u_locked := True, u_locked_until := Some (now + 3600000)\<rparr>
                else u) (find_user db j)
      else find_user db j)
   \<and> (i \<notin> al_id ` set (t_anomalies db) \<longrightarrow>
      t_anomalies (snd (processAnomaly now i ev db)) =
        t_anomalies db @ [(log_row now i ev (scoreAnomaly now ev db))
          \<lparr>al_dispatched := (sc_score (scoreAnomaly now ev db) \<ge> 20)\<rparr>])"
proof -
  have low: "sc_risk (scoreAnomaly now ev db) \<noteq> Risk_low \<longleftrightarrow> sc_score (scoreAnomaly now ev db) \<ge> 20"
    by (simp add: score_risk(1) risk_of_score_def)
  have fresh: "i \<notin> al_id ` set (t_anomalies db) \<Longrightarrow>
      update_where (\<lambda>r. al_id r = i) (\<lambda>r. r\<lparr>al_dispatched := True\<rparr>) (t_anomalies db) = t_anomalies db"
    by (rule update_where_none) auto
  obtain row db1 where p: "processAnomaly_log now i ev db = (row, db1)" by fastforce
  have row: "row = log_row now i ev (scoreAnomaly now ev db)" "t_anomalies db1 = t_anomalies db @ [row]"
    using processAnomaly_log_row [of now i ev db] processAnomaly_log_table [of now i ev db] p by auto
  have "i \<notin> al_id ` set (t_anomalies db) \<Longrightarrow>
      t_anomalies (snd (processAnomaly now i ev db)) =
        t_anomalies db @ [row\<lparr>al_dispatched := (sc_score (scoreAnomaly now ev db) \<ge> 20)\<rparr>]"
    using row fresh low by (auto simp: processAnomaly_def p mark_dispatched_def log_row_def)
  then show ?thesis
    by (auto simp: processAnomaly_user processAnomaly_log_user lockout_of_score user_lockout_def Let_def row(1)
        option.map_ident intro!: option.map_cong)
qed

text \<open>
  The score is monotone and bounded: a larger observed value, or more events of the entity in
  the last day, never lower the score or the risk level; every event scores between 15 and 100.\<close>

theorem anomaly_score_monotone:
  assumes "ae_type ev = ae_type ev'" "ae_observed ev \<le> ae_observed ev'"
    and "recent_count now (ae_entity ev) (ae_type ev) db \<le> recent_count now' (ae_entity ev') (ae_type ev') db'"
  shows "sc_score (scoreAnomaly now ev db) \<le> sc_score (scoreAnomaly now' ev' db')
    \<and> sc_risk (scoreAnomaly now ev db) \<le> sc_risk (scoreAnomaly now' ev' db')
    \<and> 15 \<le> sc_score (scoreAnomaly now ev db) \<and> sc_score (scoreAnomaly now' ev' db') \<le> 100"
proof -
  have "0 \<le> EVENT_BASE_SCORES (ae_type ev)" using base_cases [of "ae_type ev"] by auto
  then have "raw_score now ev db \<le> raw_score now' ev' db'"
    unfolding raw_score_def assms(1) [symmetric]
    using assms multiplier_mono [OF assms(2), of "ae_type ev"] bonus_mono [OF assms(3) [folded assms(1)]]
    by (intro add_mono mult_left_mono) simp_all
  then have "sc_score (scoreAnomaly now ev db) \<le> sc_score (scoreAnomaly now' ev' db')"
    by (simp add: score_exact js_round_mono min.coboundedI2)
  then show ?thesis by (simp add: score_risk(1) risk_of_score_mono score_bounds)
qed

lemma burst_score:
  assumes "5 \<le> n"
  shows "75 \<le> sc_score (scoreAnomaly now (burst_event u t n w) db)"
proof -
  have "computeSeverityMultiplier Failed_auth_burst (of_int n) \<ge> 3 / 2"
    using assms by (simp add: computeSeverityMultiplier_def)
  moreover have "0 \<le> computeRecencyBonus now u Failed_auth_burst db"
    using bonus_cases [of now u Failed_auth_burst db] by auto
  ultimately have "75 \<le> raw_score now (burst_event u t n w) db"
    by (simp add: raw_score_def burst_event_def EVENT_BASE_SCORES_def)
  then have "js_round 75 \<le> js_round (raw_score now (burst_event u t n w) db)" by (rule js_round_mono)
  moreover have "js_round 75 = 75" by (simp add: js_round_def floor_eq_iff)
  ultimately show ?thesis by (simp add: score_exact)
qed

text \<open>
  Every failed-login burst that is reported is critical, so the soft and hard lockouts of the
  anomaly engine are never used for it: the account gets the seven-day shadow scan and is
  unlocked.\<close>

theorem auth_burst_is_shadow:
  assumes "5 \<le> n" "find_user db u = Some x"
  shows "\<exists>r. fst (detectFailedAuthBurst now i u t n w db) = Some r
      \<and> al_risk r = Risk_critical \<and> al_lockout r = Some Shadow \<and> al_until r = Some (now + 604800000) \<and> 75 \<le> al_score r
      \<and> find_user (snd (detectFailedAuthBurst now i u t n w db)) u =
          Some (x\<lparr>u_shadow_until := Some (now + 604800000), u_locked := False\<rparr>)"
proof -
  let ?ev = "burst_event u t n w"
  let ?sc = "scoreAnomaly now ?ev db"
  have s: "75 \<le> sc_score ?sc" using assms(1) by (rule burst_score)
  have r: "sc_risk ?sc = Risk_critical" using s by (simp add: score_risk(1) risk_of_score_def)
  have l: "sc_lockout ?sc = Some (Shadow, 168)" using s by (simp add: lockout_of_score)
  have "fst (processAnomaly now i ?ev db) = (log_row now i ?ev ?sc)\<lparr>al_dispatched := True\<rparr>"
    using r by (simp add: processAnomaly_def processAnomaly_log_def Let_def log_row_def)
  moreover have "find_user (snd (processAnomaly now i ?ev db)) u =
      Some (x\<lparr>u_shadow_until := Some (now + 604800000), u_locked := False\<rparr>)"
    using l assms(2) by (simp add: processAnomaly_user processAnomaly_log_user user_lockout_def burst_event_def)
  ultimately show ?thesis
    using assms(1) s r l by (simp add: detectFailedAuthBurst_def log_row_def)
qed

subsection \<open>Statistics and queries\<close>

lemma count_where_sum_list:
  "distinct ks \<Longrightarrow> (\<forall>x \<in> set xs. f x \<in> set ks) \<Longrightarrow>
   sum_list (map (\<lambda>k. count_where (\<lambda>x. f x = k) xs) ks) = length xs"
proof (induction xs)
  case (Cons x xs)
  have one: "sum_list (map (\<lambda>k. if f x = k then 1 else 0 :: nat) ks) = 1"
    using Cons.prems by (simp add: sum_list_map_eq_sum_count2 [of ks "set ks"] sum_list_distinct_conv_sum_set)
  have "sum_list (map (\<lambda>k. count_where (\<lambda>x. f x = k) (x # xs)) ks) =
      sum_list (map (\<lambda>k. if f x = k then 1 else 0) ks) + sum_list (map (\<lambda>k. count_where (\<lambda>x. f x = k) xs) ks)"
    by (simp add: sum_list_addf)
  with one Cons show ?case by simp
qed simp

text \<open>
  The statistics account for every event of the tenant exactly once: the counts by risk level
  and the counts by event type both add up to the total, and no event of another tenant is
  counted.\<close>

theorem anomaly_stats_partition:
  "sum_list (map snd (st_by_risk (getAnomalyStats t since db))) = st_total (getAnomalyStats t since db)
   \<and> sum_list (map snd (st_by_event (getAnomalyStats t since db))) = st_total (getAnomalyStats t since db)
   \<and> st_lockouts (getAnomalyStats t since db) \<le> st_total (getAnomalyStats t since db)
   \<and> getAnomalyStats t since db = getAnomalyStats t since (db\<lparr>t_anomalies := filter (\<lambda>r. al_tenant r = t) (t_anomalies db)\<rparr>)"
proof -
  let ?rows = "stats_rows t since db"
  have "al_risk r \<in> set [Risk_low, Risk_medium, Risk_high, Risk_critical]" for r :: anomaly_log_row
    by (cases "al_risk r") simp_all
  then have "sum_list (map (\<lambda>k. count_where (\<lambda>r. al_risk r = k) ?rows) [Risk_low, Risk_medium, Risk_high, Risk_critical])
      = length ?rows"
    by (intro count_where_sum_list) auto
  moreover have "sum_list (map (\<lambda>k. count_where (\<lambda>r. al_event r = k) ?rows) (remdups (map al_event ?rows))) = length ?rows"
    by (rule count_where_sum_list) auto
  moreover have "stats_rows t since (db\<lparr>t_anomalies := filter (\<lambda>r. al_tenant r = t) (t_anomalies db)\<rparr>) = ?rows"
    by (auto simp: stats_rows_def intro: filter_cong)
  ultimately show ?thesis by (simp add: getAnomalyStats_def Let_def comp_def count_where_le_length)
qed

lemma set_sql_limit: "set (sql_limit n m xs) \<subseteq> set xs"
  by (auto simp: sql_limit_def Let_def dest: in_set_dropD in_set_takeD)

lemma sorted_sql_limit: "sorted (map k xs) \<Longrightarrow> sorted (map k (sql_limit n m xs))"
  by (auto simp: sql_limit_def Let_def take_map [symmetric] drop_map [symmetric] intro: sorted_wrt_take sorted_wrt_drop)

text \<open>
  The log query returns only rows of the tenant that pass the filters, newest first, at most
  \<open>limit\<close> of them; with a limit that covers the table and no offset it returns them all. A
  negative limit returns every matching row: nothing bounds the parameter.\<close>

theorem anomaly_query_exact:
  assumes "0 \<le> l"
  shows "set (queryAnomalyLogs t (f\<lparr>qf_limit := Some l\<rparr>) db) \<subseteq> {r \<in> set (t_anomalies db). log_matches t f r}
    \<and> sorted (map (\<lambda>r. - al_created r) (queryAnomalyLogs t f db))
    \<and> length (queryAnomalyLogs t (f\<lparr>qf_limit := Some l\<rparr>) db) \<le> nat l
    \<and> (int (length (t_anomalies db)) \<le> l \<longrightarrow>
        set (queryAnomalyLogs t (f\<lparr>qf_limit := Some l, qf_offset := None\<rparr>) db) = {r \<in> set (t_anomalies db). log_matches t f r})
    \<and> set (queryAnomalyLogs t (f\<lparr>qf_limit := Some (-1 - l), qf_offset := None\<rparr>) db) = {r \<in> set (t_anomalies db). log_matches t f r}"
proof -
  have m: "log_matches t (f\<lparr>qf_limit := x\<rparr>) = log_matches t f" "log_matches t (f\<lparr>qf_limit := x, qf_offset := y\<rparr>) = log_matches t f"
    for x y by (simp_all add: log_matches_def fun_eq_iff)
  let ?ys = "sort_key (\<lambda>r. - al_created r) (filter (log_matches t f) (t_anomalies db))"
  have "set (queryAnomalyLogs t (f\<lparr>qf_limit := Some l\<rparr>) db) \<subseteq> set ?ys"
    unfolding queryAnomalyLogs_def m by (rule set_sql_limit)
  moreover have "sorted (map (\<lambda>r. - al_created r) (queryAnomalyLogs t f db))"
    unfolding queryAnomalyLogs_def by (intro sorted_sql_limit sorted_sort_key)
  moreover have "length (queryAnomalyLogs t (f\<lparr>qf_limit := Some l\<rparr>) db) \<le> nat l"
    using assms by (simp add: queryAnomalyLogs_def sql_limit_def or_default_def Let_def)
  moreover have "queryAnomalyLogs t (f\<lparr>qf_limit := Some l, qf_offset := None\<rparr>) db = ?ys"
    if "int (length (t_anomalies db)) \<le> l"
  proof -
    have "length (filter (log_matches t f) (t_anomalies db)) \<le> nat l"
      using that length_filter_le [of "log_matches t f" "t_anomalies db"] by linarith
    then show ?thesis using assms by (simp add: queryAnomalyLogs_def m sql_limit_def or_default_def Let_def)
  qed
  moreover have "queryAnomalyLogs t (f\<lparr>qf_limit := Some (-1 - l), qf_offset := None\<rparr>) db = ?ys"
    using assms by (simp add: queryAnomalyLogs_def m sql_limit_def or_default_def Let_def)
  ultimately show ?thesis by auto
qed

lemma off_hours_lockout:
  "sc_lockout (scoreAnomaly now \<lparr>ae_entity = a, ae_kind = k, ae_tenant = t, ae_type = Off_hours_payout,
       ae_observed = v, ae_context = c\<rparr> db) = (if recent_count now a Off_hours_payout db \<ge> 2 then Some (Soft, 1) else None)"
proof -
  have "js_round 15 = 15" "js_round 20 = 20" "js_round 25 = 25" "js_round 30 = 30"
    by (simp_all add: js_round_def floor_eq_iff)
  then show ?thesis
    by (auto simp add: lockout_of_score score_exact raw_score_def EVENT_BASE_SCORES_def
        computeSeverityMultiplier_def computeRecencyBonus_def Let_def)
qed

text \<open>
  An off-hours payout is tolerated twice: outside 06:00 to 22:00 UTC the first two events of
  an agent within a day are logged without effect, and from the third on the agent is locked for
  an hour. Inside the hours nothing is written.\<close>

theorem off_hours_third_strike:
  "t_agents (snd (detectOffHoursPayout now i a t amt db)) =
     (if getUTCHours now \<in> {6..<22} \<or> recent_count now a Off_hours_payout db < 2 then t_agents db
      else update_where (\<lambda>x. ag_id x = a) (\<lambda>x. x\<lparr>ag_locked := True, ag_lockout_until := Some (now + 3600000)\<rparr>) (t_agents db))
   \<and> (fst (detectOffHoursPayout now i a t amt db) = None \<longleftrightarrow> getUTCHours now \<in> {6..<22})
   \<and> length (t_anomalies (snd (detectOffHoursPayout now i a t amt db))) =
       length (t_anomalies db) + (if getUTCHours now \<in> {6..<22} then 0 else 1)"
  by (auto simp: detectOffHoursPayout_def processAnomaly_def processAnomaly_log_def mark_dispatched_def off_hours_lockout
      executeLockout_def applyAgentLockout_def Let_def apfst_def map_prod_def split: prod.split)

subsection \<open>Witnesses\<close>

definition demo_plat :: plat_db where
  "demo_plat = \<lparr>t_users = [], t_tokens = [], t_role_audit = [], t_agents = [], t_ip_lockouts = [],
     t_anomalies = [], t_payouts = [], t_metrics = [], t_accounts = []\<rparr>"

definition demo_user :: user_row where
  "demo_user = \<lparr>u_id = ''u1'', u_tenant = ''t'', u_name = ''ann'', u_email = ''a@x'', u_hash = ''h'', u_role = ''Partner'',
     u_failed = 0, u_locked = False, u_locked_until = None, u_shadow_until = None, u_last_login = None,
     u_created = 0, u_updated = 0, u_plane = Client, u_plane_role = ''client_partner'', u_scope = None\<rparr>"

lemma demo_find_user: "find_user (demo_plat\<lparr>t_users := [demo_user]\<rparr>) ''u1'' = Some demo_user"
  by (simp add: find_user_def demo_user_def)

theorem anomaly_user_lockout_witness:
  "length (t_anomalies (snd (processAnomaly 5 ''a1'' (burst_event ''u1'' ''t'' 5 10) demo_plat))) = 1"
  using anomaly_user_lockout [of 5 "''a1''" "burst_event ''u1'' ''t'' 5 10" demo_plat "''u1''"]
  by (simp add: demo_plat_def)

theorem anomaly_score_monotone_witness:
  "sc_score (scoreAnomaly 5 (burst_event ''u1'' ''t'' 5 10) demo_plat)
     \<le> sc_score (scoreAnomaly 5 (burst_event ''u1'' ''t'' 20 10) demo_plat)"
  using anomaly_score_monotone [of "burst_event ''u1'' ''t'' 5 10" "burst_event ''u1'' ''t'' 20 10" 5 demo_plat 5 demo_plat]
  by (simp add: burst_event_def)

theorem auth_burst_is_shadow_witness:
  "find_user (snd (detectFailedAuthBurst 5 ''a1'' ''u1'' ''t'' 5 10 (demo_plat\<lparr>t_users := [demo_user]\<rparr>))) ''u1'' =
     Some (demo_user\<lparr>u_shadow_until := Some 604800005, u_locked := False\<rparr>)"
  using auth_burst_is_shadow [of 5 "demo_plat\<lparr>t_users := [demo_user]\<rparr>" "''u1''" demo_user 5 "''a1''" "''t''" 10]
  by (auto simp: demo_find_user)

theorem anomaly_query_exact_witness:
  "length (queryAnomalyLogs ''t'' \<lparr>qf_entity = None, qf_risk = None, qf_event = None, qf_since = None, qf_limit = Some 3, qf_offset = None\<rparr> demo_plat) \<le> 3"
  using anomaly_query_exact [of 3 "''t''" "\<lparr>qf_entity = None, qf_risk = None, qf_event = None, qf_since = None, qf_limit = Some 3, qf_offset = None\<rparr>" demo_plat]
  by simp

theorem off_hours_third_strike_witness:
  "t_agents (snd (detectOffHoursPayout 0 ''i'' ''ag'' ''t'' 1 demo_plat)) = []"
  using off_hours_third_strike [of 0 "''i''" "''ag''" "''t''" 1 demo_plat]
  by (simp add: demo_plat_def recent_count_def)

end
