(* ===== verification/Auth.thy ===== *)
theory Auth
  imports Anomaly
begin

section \<open>Authentication: login, lockout, refresh tokens, passwords\<close>

text \<open>
  The model of src/routes/auth.ts. Third-party code is a parameter: \<open>verify hash password\<close> is what
  \<open>argon2.verify\<close> answers (None when it throws), \<open>newHash\<close> what \<open>argon2.hash\<close> answers, \<open>sha\<close> the
  hexadecimal SHA-256 digest, \<open>jwt\<close> what \<open>jsonwebtoken\<close> finds in an access token. Random ids, the
  raw refresh tokens and clock readings are arguments; an access token is its claims. The
  lifetimes are the defaults of the environment variables. Request bodies are those after schema
  validation.

  A handler that awaits is split at its awaits: \<open>login_start\<close> runs until \<open>argon2.verify\<close>,
  \<open>login_check\<close> until the alert of the anomaly engine is out, \<open>login_alerted\<close> to the end. \<open>login\<close>
  is their composition when no other request runs in between. \<open>refresh\<close> and \<open>logout\<close> do not
  await.
\<close>

subsection \<open>Constants and helpers\<close>

definition REFRESH_TOKEN_TTL_DAYS :: int where "REFRESH_TOKEN_TTL_DAYS = 30"
definition MAX_FAILED_ATTEMPTS :: int where "MAX_FAILED_ATTEMPTS = 5"
definition SOFT_LOCKOUT_MINUTES :: int where "SOFT_LOCKOUT_MINUTES = 15"
definition HARD_LOCKOUT_HOURS :: int where "HARD_LOCKOUT_HOURS = 24"
definition BURST_WINDOW_MINUTES :: int where "BURST_WINDOW_MINUTES = 10"

definition bruteForceDelay :: "int \<Rightarrow> int" where
  "bruteForceDelay failedAttempts =
     (if failedAttempts \<le> 0 then 0 else min (200 * 2 ^ nat (failedAttempts - 1)) 10000)"

definition validatePasswordStrength :: "string \<Rightarrow> string option" where
  "validatePasswordStrength p =
     (if length p < 12 then Some ''Password must be at least 12 characters''
      else if \<not> list_ex (\<lambda>c. 65 \<le> code c \<and> code c \<le> 90) p then Some ''Password must contain an uppercase letter''
      else if \<not> list_ex (\<lambda>c. 97 \<le> code c \<and> code c \<le> 122) p then Some ''Password must contain a lowercase letter''
      else if \<not> list_ex is_digit p then Some ''Password must contain a digit''
      else if \<not> list_ex (\<lambda>c. \<not> (65 \<le> code c \<and> code c \<le> 90) \<and> \<not> (97 \<le> code c \<and> code c \<le> 122) \<and> \<not> is_digit c) p
      then Some ''Password must contain a special character''
      else None)"

datatype auth_resp =
  Tokens200 string string string string \<comment> \<open>sub, tid and role of the access token, raw refresh token\<close>
| Registered201 string
| Ok200_password
| NoContent204
| Profile200 string string string string string "time option" time
| Unauthorized401 "int option" \<comment> \<open>with \<open>attempts_remaining\<close>\<close>
| NotFound404_user
| Conflict409
| Unprocessable422 string
| Locked423 time
| Error500

definition resetFailedAttempts :: "time \<Rightarrow> string \<Rightarrow> plat_db \<Rightarrow> plat_db" where
  "resetFailedAttempts now i db =
     update_user i (\<lambda>u. u\<lparr>u_failed := 0, u_locked := False, u_locked_until := None, u_updated := now\<rparr>) db"

definition incrementFailedAttempts :: "time \<Rightarrow> string \<Rightarrow> plat_db \<Rightarrow> int option \<times> plat_db" where
  "incrementFailedAttempts now i db =
     (let db1 = update_user i (\<lambda>u. u\<lparr>u_failed := u_failed u + 1, u_updated := now\<rparr>) db
      in (map_option u_failed (find_user db1 i), db1))"

definition lockUser :: "time \<Rightarrow> string \<Rightarrow> time \<Rightarrow> plat_db \<Rightarrow> plat_db" where
  "lockUser now i until db =
     update_user i (\<lambda>u. u\<lparr>u_locked := True, u_locked_until := Some until, u_updated := now\<rparr>) db"

definition updateLastLogin :: "time \<Rightarrow> string \<Rightarrow> plat_db \<Rightarrow> plat_db" where
  "updateLastLogin now i db = update_user i (\<lambda>u. u\<lparr>u_last_login := Some now, u_updated := now\<rparr>) db"

text \<open>The INSERT fails on the primary key, on the UNIQUE hash and on the foreign key.\<close>

definition storeRefreshToken :: "(string \<Rightarrow> string) \<Rightarrow> time \<Rightarrow> string \<Rightarrow> string \<Rightarrow> string \<Rightarrow> plat_db \<Rightarrow> plat_db option" where
  "storeRefreshToken sha now tid userId raw db =
     (if list_ex (\<lambda>t. rt_id t = tid \<or> rt_hash t = sha raw) (t_tokens db) \<or> find_user db userId = None then None
      else Some (db\<lparr>t_tokens := t_tokens db @
        [\<lparr>rt_id = tid, rt_user = userId, rt_hash = sha raw, rt_expires = now + REFRESH_TOKEN_TTL_DAYS * 86400000,
          rt_revoked = False, rt_created = now\<rparr>]\<rparr>))"

definition revoke_where :: "(refresh_token \<Rightarrow> bool) \<Rightarrow> plat_db \<Rightarrow> plat_db" where
  "revoke_where p db = db\<lparr>t_tokens := update_where p (\<lambda>t. t\<lparr>rt_revoked := True\<rparr>) (t_tokens db)\<rparr>"

definition revokeAllUserRefreshTokens :: "string \<Rightarrow> plat_db \<Rightarrow> plat_db" where
  "revokeAllUserRefreshTokens userId db = revoke_where (\<lambda>t. rt_user t = userId) db"

definition issue :: "(string \<Rightarrow> string) \<Rightarrow> time \<Rightarrow> string \<Rightarrow> string \<Rightarrow> user_row \<Rightarrow> plat_db \<Rightarrow> auth_resp \<times> plat_db" where
  "issue sha now tid raw u db =
     (case storeRefreshToken sha now tid (u_id u) raw db of
        None \<Rightarrow> (Error500, db)
      | Some db' \<Rightarrow> (Tokens200 (u_id u) (u_tenant u) (u_role u) raw, db'))"

subsection \<open>Login\<close>

datatype login_phase = Answered auth_resp | Verifying user_row | Alerting user_row int string

definition lock_active :: "time \<Rightarrow> user_row \<Rightarrow> bool" where
  "lock_active now u \<longleftrightarrow> u_locked u \<and> (case u_locked_until u of None \<Rightarrow> False | Some t \<Rightarrow> t > now)"

definition login_start :: "time \<Rightarrow> string \<Rightarrow> string \<Rightarrow> plat_db \<Rightarrow> login_phase \<times> plat_db" where
  "login_start now username tenantId db =
     (case List.find (\<lambda>u. u_name u = username \<and> u_tenant u = tenantId) (t_users db) of
        None \<Rightarrow> (Answered (Unauthorized401 None), db)
      | Some u \<Rightarrow>
          if lock_active now u then (Answered (Locked423 (the (u_locked_until u))), db)
          else if u_locked u then (Verifying u, resetFailedAttempts now (u_id u) db)
          else (Verifying u, db))"

definition login_check ::
  "(string \<Rightarrow> string) \<Rightarrow> (string \<Rightarrow> string \<Rightarrow> bool option) \<Rightarrow> time \<Rightarrow> string \<Rightarrow> string \<Rightarrow> string \<Rightarrow> string \<Rightarrow> user_row
   \<Rightarrow> plat_db \<Rightarrow> login_phase \<times> plat_db" where
  "login_check sha verify now aid tid raw password u db =
     (case verify (u_hash u) password of
        None \<Rightarrow> (Answered Error500, db)
      | Some False \<Rightarrow>
          (let (n, db1) = incrementFailedAttempts now (u_id u) db
           in case n of
                None \<Rightarrow> (Answered Error500, db1)
              | Some k \<Rightarrow>
                  if k < 5 then (Answered (Unauthorized401 (Some (MAX_FAILED_ATTEMPTS - k))), db1)
                  else (Alerting u k aid,
                    snd (processAnomaly_log now aid (burst_event (u_id u) (u_tenant u) k BURST_WINDOW_MINUTES) db1)))
      | Some True \<Rightarrow>
          apfst Answered (issue sha now tid raw u (updateLastLogin now (u_id u) (resetFailedAttempts now (u_id u) db))))"

definition lock_duration :: "int \<Rightarrow> int" where
  "lock_duration k = (if k \<ge> MAX_FAILED_ATTEMPTS * 2 then HARD_LOCKOUT_HOURS * 3600000 else SOFT_LOCKOUT_MINUTES * 60000)"

definition login_alerted :: "time \<Rightarrow> user_row \<Rightarrow> int \<Rightarrow> string \<Rightarrow> plat_db \<Rightarrow> auth_resp \<times> plat_db" where
  "login_alerted now u k aid db =
     (let db1 = mark_dispatched aid db
      in if k \<ge> MAX_FAILED_ATTEMPTS then
           (Locked423 (now + lock_duration k), lockUser now (u_id u) (now + lock_duration k) db1)
         else (Unauthorized401 (Some (MAX_FAILED_ATTEMPTS - k)), db1))"

definition login_rest ::
  "(string \<Rightarrow> string) \<Rightarrow> (string \<Rightarrow> string \<Rightarrow> bool option) \<Rightarrow> time \<Rightarrow> string \<Rightarrow> string \<Rightarrow> string \<Rightarrow> string \<Rightarrow> user_row
   \<Rightarrow> plat_db \<Rightarrow> auth_resp \<times> plat_db" where
  "login_rest sha verify now aid tid raw password u db =
     (case login_check sha verify now aid tid raw password u db of
        (Answered r, db1) \<Rightarrow> (r, db1)
      | (Alerting v k i, db1) \<Rightarrow> login_alerted now v k i db1
      | (Verifying v, db1) \<Rightarrow> (Error500, db1))"

definition login ::
  "(string \<Rightarrow> string) \<Rightarrow> (string \<Rightarrow> string \<Rightarrow> bool option) \<Rightarrow> time \<Rightarrow> string \<Rightarrow> string \<Rightarrow> string
   \<Rightarrow> string \<Rightarrow> string \<Rightarrow> string \<Rightarrow> plat_db \<Rightarrow> auth_resp \<times> plat_db" where
  "login sha verify now aid tid raw username password tenantId db =
     (case login_start now username tenantId db of
        (Answered r, db1) \<Rightarrow> (r, db1)
      | (Verifying u, db1) \<Rightarrow> login_rest sha verify now aid tid raw password u db1
      | (Alerting v k i, db1) \<Rightarrow> (Error500, db1))"

subsection \<open>Refresh, logout, profile\<close>

definition live_token :: "(string \<Rightarrow> string) \<Rightarrow> string \<Rightarrow> plat_db \<Rightarrow> (refresh_token \<times> user_row) option" where
  "live_token sha raw db =
     (case List.find (\<lambda>t. rt_hash t = sha raw \<and> \<not> rt_revoked t \<and> find_user db (rt_user t) \<noteq> None) (t_tokens db) of
        None \<Rightarrow> None
      | Some t \<Rightarrow> map_option (\<lambda>u. (t, u)) (find_user db (rt_user t)))"

definition refresh ::
  "(string \<Rightarrow> string) \<Rightarrow> time \<Rightarrow> string \<Rightarrow> string \<Rightarrow> string \<Rightarrow> plat_db \<Rightarrow> auth_resp \<times> plat_db" where
  "refresh sha now tid newRaw raw db =
     (case live_token sha raw db of
        None \<Rightarrow> (Unauthorized401 None, db)
      | Some (t, u) \<Rightarrow>
          if rt_expires t < now then (Unauthorized401 None, revoke_where (\<lambda>x. rt_id x = rt_id t) db)
          else if lock_active now u then (Locked423 (the (u_locked_until u)), db)
          else issue sha now tid newRaw u (revoke_where (\<lambda>x. rt_id x = rt_id t) db))"

definition logout :: "string option \<Rightarrow> plat_db \<Rightarrow> auth_resp \<times> plat_db" where
  "logout caller db =
     (case caller of
        None \<Rightarrow> (Unauthorized401 None, db)
      | Some uid \<Rightarrow> if uid = [] then (Unauthorized401 None, db) else (NoContent204, revokeAllUserRefreshTokens uid db))"

definition me :: "string option \<Rightarrow> plat_db \<Rightarrow> auth_resp" where
  "me caller db =
     (case caller of
        None \<Rightarrow> Unauthorized401 None
      | Some uid \<Rightarrow> if uid = [] then Unauthorized401 None
          else (case find_user db uid of None \<Rightarrow> NotFound404_user 
              | Some u \<Rightarrow> Profile200 (u_id u) (u_name u) (u_email u) (u_role u) (u_tenant u) (u_last_login u) (u_created u)))"

subsection \<open>Registration and password change\<close>

definition new_user :: "time \<Rightarrow> string \<Rightarrow> string \<Rightarrow> string \<Rightarrow> string \<Rightarrow> string \<Rightarrow> string \<Rightarrow> user_row" where
  "new_user now uid username email h role tenantId =
     \<lparr>u_id = uid, u_tenant = tenantId, u_name = username, u_email = email, u_hash = h, u_role = role,
      u_failed = 0, u_locked = False, u_locked_until = None, u_shadow_until = None, u_last_login = None,
      u_created = now, u_updated = now, u_plane = Client, u_plane_role = ''client_partner'', u_scope = None\<rparr>"

definition register ::
  "bool \<Rightarrow> string option \<Rightarrow> time \<Rightarrow> string \<Rightarrow> string \<Rightarrow> string \<Rightarrow> string \<Rightarrow> string \<Rightarrow> string \<Rightarrow> plat_db
   \<Rightarrow> auth_resp \<times> plat_db" where
  "register enabled newHash now uid username email password role tenantId db =
     (if \<not> enabled then (NotFound404_user, db)
      else case validatePasswordStrength password of
        Some e \<Rightarrow> (Unprocessable422 e, db)
      | None \<Rightarrow>
          if list_ex (\<lambda>u. (u_name u = username \<or> u_email u = email) \<and> u_tenant u = tenantId) (t_users db)
          then (Conflict409, db)
          else (case newHash of
              None \<Rightarrow> (Error500, db)
            | Some h \<Rightarrow>
                if find_user db uid \<noteq> None then (Error500, db)
                else (Registered201 uid,
                  db\<lparr>t_users := t_users db @ [new_user now uid username email h role tenantId]\<rparr>)))"

definition auditLog ::
  "time \<Rightarrow> string \<Rightarrow> string \<Rightarrow> string \<Rightarrow> string \<Rightarrow> string option \<Rightarrow> string option \<Rightarrow> string option \<Rightarrow> plat_db \<Rightarrow> plat_db" where
  "auditLog now tenantId target actor action oldValue newValue reason db =
     db\<lparr>t_role_audit := t_role_audit db @
       [\<lparr>ra_tenant = tenantId, ra_target = target, ra_actor = actor, ra_action = action, ra_old = oldValue,
         ra_new = newValue, ra_reason = reason, ra_created = now\<rparr>]\<rparr>"

definition change_start :: "string \<Rightarrow> string \<Rightarrow> plat_db \<Rightarrow> auth_resp + user_row" where
  "change_start newPassword userId db =
     (case validatePasswordStrength newPassword of
        Some e \<Rightarrow> Inl (Unprocessable422 e)
      | None \<Rightarrow> (case find_user db userId of None \<Rightarrow> Inl NotFound404_user | Some u \<Rightarrow> Inr u))"

definition commit_password :: "time \<Rightarrow> string \<Rightarrow> string \<Rightarrow> string \<Rightarrow> plat_db \<Rightarrow> plat_db" where
  "commit_password now userId tenantId h db =
     revokeAllUserRefreshTokens userId
       (auditLog now tenantId userId userId ''password_change'' None None None
         (update_user userId (\<lambda>u. u\<lparr>u_hash := h, u_failed := 0, u_updated := now\<rparr>) db))"

definition change_finish ::
  "(string \<Rightarrow> string \<Rightarrow> bool option) \<Rightarrow> string option \<Rightarrow> time \<Rightarrow> string \<Rightarrow> string \<Rightarrow> string \<Rightarrow> string option \<Rightarrow> user_row
   \<Rightarrow> plat_db \<Rightarrow> auth_resp \<times> plat_db" where
  "change_finish verify newHash now currentPassword newPassword userId tenant u db =
     (case verify (u_hash u) currentPassword of
        None \<Rightarrow> (Error500, db)
      | Some False \<Rightarrow>
          (let (n, db1) = incrementFailedAttempts now userId db
           in (if n = None then Error500 else Unauthorized401 None, db1))
      | Some True \<Rightarrow>
          (case verify (u_hash u) newPassword of
             None \<Rightarrow> (Error500, db)
           | Some True \<Rightarrow> (Unprocessable422 ''New password must differ from the current password'', db)
           | Some False \<Rightarrow>
               (case newHash of
                  None \<Rightarrow> (Error500, db)
                | Some h \<Rightarrow>
                    (Ok200_password,
                     commit_password now userId (case tenant of None \<Rightarrow> [] | Some t \<Rightarrow> t) h db))))"

definition changePassword ::
  "(string \<Rightarrow> string \<Rightarrow> bool option) \<Rightarrow> string option \<Rightarrow> time \<Rightarrow> string \<Rightarrow> string \<Rightarrow> string \<Rightarrow> string option
   \<Rightarrow> plat_db \<Rightarrow> auth_resp \<times> plat_db" where
  "changePassword verify newHash now currentPassword newPassword userId tenant db =
     (case change_start newPassword userId db of
        Inl r \<Rightarrow> (r, db)
      | Inr u \<Rightarrow> change_finish verify newHash now currentPassword newPassword userId tenant u db)"

subsection \<open>Access tokens\<close>

datatype jwt_result = JwtOk "string option" "string option" "string option" | JwtExpired | JwtInvalid

datatype auth_reject = MissingHeader | ExpiredToken | InvalidToken

definition requireAccessToken :: "(string \<Rightarrow> jwt_result) \<Rightarrow> request \<Rightarrow> auth_reject + request" where
  "requireAccessToken jwt req =
     (case h_authorization req of
        None \<Rightarrow> Inl MissingHeader
      | Some a \<Rightarrow>
          if \<not> starts_with ''Bearer '' a then Inl MissingHeader
          else (case jwt (drop 7 a) of
              JwtOk sub tid role \<Rightarrow> Inr (req\<lparr>caas_user := sub, caas_tenant := tid, caas_role := role\<rparr>)
            | JwtExpired \<Rightarrow> Inl ExpiredToken
            | JwtInvalid \<Rightarrow> Inl InvalidToken))"

subsection \<open>API keys (apiKeyAuth.ts)\<close>

definition API_KEY_SENTINEL :: string where "API_KEY_SENTINEL = ''aitw_''"
definition API_KEY_PREFIX_LENGTH :: nat where "API_KEY_PREFIX_LENGTH = 12"

datatype key_reject = BadKeyFormat401 | InvalidKey401 | KeyVerify500

definition apiKeyAuthMiddleware ::
  "(string \<Rightarrow> string \<Rightarrow> bool option) \<Rightarrow> plat_db \<Rightarrow> request \<Rightarrow> key_reject + request" where
  "apiKeyAuthMiddleware verify db req =
     (case h_authorization req of
        None \<Rightarrow> Inr req
      | Some a \<Rightarrow>
          if \<not> starts_with (''Bearer '' @ API_KEY_SENTINEL) a then Inr req
          else let fullKey = trim (drop 7 a)
               in if length fullKey < API_KEY_PREFIX_LENGTH + 4 then Inl BadKeyFormat401
                  else case List.find (\<lambda>k. ka_prefix k = take API_KEY_PREFIX_LENGTH fullKey \<and> ka_status k \<noteq> ''suspended'')
                              (t_accounts db) of
                      None \<Rightarrow> Inl InvalidKey401
                    | Some k \<Rightarrow>
                        (case verify (ka_hash k) fullKey of
                           None \<Rightarrow> Inl KeyVerify500
                         | Some False \<Rightarrow> Inl InvalidKey401
                         | Some True \<Rightarrow> Inr (req\<lparr>caas_tenant := Some (ka_tenant k),
                             caas_auth_method := Some ''api_key'', caas_api_tier := Some (ka_tier k),
                             h_tier := Some (ka_tier k)\<rparr>)))"

definition requireTenantContext :: "request \<Rightarrow> request option" where
  "requireTenantContext req = (case caas_tenant req of None \<Rightarrow> None | Some t \<Rightarrow> if t = [] then None else Some req)"

subsection \<open>Requests as steps\<close>

datatype auth_request =
  LoginReq string string string
| RefreshReq string
| LogoutReq "string option"
| ChangeReq string string string "string option"
| RegisterReq string string string string string

record nonce =
  n_now :: time
  n_aid :: string
  n_tid :: string
  n_raw :: string
  n_uid :: string
  n_hash :: "string option"

definition auth_handle ::
  "(string \<Rightarrow> string) \<Rightarrow> (string \<Rightarrow> string \<Rightarrow> bool option) \<Rightarrow> nonce \<Rightarrow> auth_request \<Rightarrow> plat_db \<Rightarrow> auth_resp \<times> plat_db" where
  "auth_handle sha verify n q db =
     (case q of
        LoginReq u p t \<Rightarrow> login sha verify (n_now n) (n_aid n) (n_tid n) (n_raw n) u p t db
      | RefreshReq raw \<Rightarrow> refresh sha (n_now n) (n_tid n) (n_raw n) raw db
      | LogoutReq c \<Rightarrow> logout c db
      | ChangeReq cur new uid t \<Rightarrow> changePassword verify (n_hash n) (n_now n) cur new uid t db
      | RegisterReq u e p r t \<Rightarrow> register True (n_hash n) (n_now n) (n_uid n) u e p r t db)"

inductive auth_step ::
  "(string \<Rightarrow> string) \<Rightarrow> (string \<Rightarrow> string \<Rightarrow> bool option) \<Rightarrow> (auth_request \<Rightarrow> bool)
   \<Rightarrow> time \<times> plat_db \<Rightarrow> time \<times> plat_db \<Rightarrow> bool" for sha verify allowed where
  "allowed q \<Longrightarrow> clock \<le> n_now n \<Longrightarrow>
   auth_step sha verify allowed (clock, db) (n_now n, snd (auth_handle sha verify n q db))"

inductive_cases auth_stepE: "auth_step sha verify allowed s t"

subsection \<open>Effects on users\<close>

lemma token_ops_users [simp]:
  "t_users (revoke_where p db) = t_users db"
  "t_users (revokeAllUserRefreshTokens i db) = t_users db"
  "t_users (auditLog now tn tg ac an ov nv rs db) = t_users db"
  "t_users (mark_dispatched aid db) = t_users db"
  by (simp_all add: revoke_where_def revokeAllUserRefreshTokens_def auditLog_def mark_dispatched_def)

lemma find_user_token_ops [simp]:
  "find_user (revoke_where p db) j = find_user db j"
  "find_user (revokeAllUserRefreshTokens i db) j = find_user db j"
  "find_user (auditLog now tn tg ac an ov nv rs db) j = find_user db j"
  by (simp_all add: find_user_def)

lemma issue_users [simp]: "t_users (snd (issue sha now tid raw u db)) = t_users db"
  by (simp add: issue_def storeRefreshToken_def split: option.split if_splits)

lemma processAnomaly_log_users:
  "ae_kind ev = User_entity \<Longrightarrow>
   t_users (snd (processAnomaly_log now i ev db)) =
     t_users (update_user (ae_entity ev) (\<lambda>u. case sc_lockout (scoreAnomaly now ev db) of None \<Rightarrow> u
             | Some (k, h) \<Rightarrow> user_lockout k (now + h * 3600000) u) db)"
  by (cases "sc_lockout (scoreAnomaly now ev db)")
    (auto simp add: processAnomaly_log_def executeLockout_def applyUserLockout_def update_user_def update_where_def Let_def
      map_idI)

lemma burst_users:
  assumes "5 \<le> k"
  shows "t_users (snd (processAnomaly_log now i (burst_event u t k w) db)) =
    t_users (update_user u (\<lambda>x. x\<lparr>u_shadow_until := Some (now + 604800000), u_locked := False\<rparr>) db)"
proof -
  have "sc_lockout (scoreAnomaly now (burst_event u t k w) db) = Some (Shadow, 168)"
    using burst_score [OF assms, of now u t w db] by (simp add: lockout_of_score)
  then show ?thesis
    using processAnomaly_log_users [of "burst_event u t k w" now i db]
    by (simp add: burst_event_def user_lockout_def)
qed

text \<open>What one login does to the row of its user.\<close>

definition counted :: "user_row \<Rightarrow> int" where
  "counted v = (if u_locked v then 0 else u_failed v)"

definition login_effect :: "time \<Rightarrow> user_row \<Rightarrow> user_row \<Rightarrow> bool" where
  "login_effect now v w \<longleftrightarrow>
     w = v
   \<or> u_failed w = 0 \<and> \<not> u_locked w \<and> u_locked_until w = None
   \<or> counted v + 1 < 5 \<and> u_failed w = counted v + 1 \<and> \<not> u_locked w
       \<and> u_locked_until w = (if u_locked v then None else u_locked_until v)
   \<or> 5 \<le> counted v + 1 \<and> u_failed w = counted v + 1 \<and> u_locked w
       \<and> u_locked_until w = Some (now + lock_duration (counted v + 1))"

lemma update_user_ident [simp]: "update_user i (\<lambda>u. u) db = db"
  by (simp add: update_user_def update_where_def)

lemma update_user_users_cong:
  "t_users a = t_users b \<Longrightarrow> t_users (update_user i f a) = t_users (update_user i f b)"
  by (simp add: update_user_def)

definition start_reset :: "time \<Rightarrow> user_row \<Rightarrow> user_row \<Rightarrow> user_row" where
  "start_reset now u = (if u_locked u then (\<lambda>v. v\<lparr>u_failed := 0, u_locked := False, u_locked_until := None, u_updated := now\<rparr>)
     else (\<lambda>v. v))"

lemma login_start_cases:
  obtains (unknown) "login_start now un tn db = (Answered (Unauthorized401 None), db)"
      "List.find (\<lambda>u. u_name u = un \<and> u_tenant u = tn) (t_users db) = None"
  | (active) u where "login_start now un tn db = (Answered (Locked423 (the (u_locked_until u))), db)"
      "List.find (\<lambda>u. u_name u = un \<and> u_tenant u = tn) (t_users db) = Some u" "lock_active now u"
  | (verifying) u where "login_start now un tn db = (Verifying u, update_user (u_id u) (start_reset now u) db)"
      "List.find (\<lambda>u. u_name u = un \<and> u_tenant u = tn) (t_users db) = Some u" "\<not> lock_active now u"
proof (cases "List.find (\<lambda>u. u_name u = un \<and> u_tenant u = tn) (t_users db)")
  case None
  then show ?thesis by (intro unknown) (simp_all add: login_start_def)
next
  case (Some u)
  show ?thesis
  proof (cases "lock_active now u")
    case True
    with Some show ?thesis by (intro active) (simp_all add: login_start_def)
  next
    case False
    with Some show ?thesis
      by (intro verifying) (simp_all add: login_start_def start_reset_def resetFailedAttempts_def)
  qed
qed

lemma answered_case [simp]:
  "(case apfst Answered p of (Answered r, d) \<Rightarrow> (r, d) | (Alerting v k i, d) \<Rightarrow> f v k i d | (Verifying v, d) \<Rightarrow> g v d) = p"
  by (cases p) simp

text \<open>The change of the user's row after the password check; \<open>k\<close> is the new count of failures.\<close>

definition rest_fun :: "time \<Rightarrow> bool option \<Rightarrow> int \<Rightarrow> user_row \<Rightarrow> user_row" where
  "rest_fun now b k v =
     (if b = None then v
      else if b = Some True then
        v\<lparr>u_failed := 0, u_locked := False, u_locked_until := None, u_last_login := Some now, u_updated := now\<rparr>
      else if k < 5 then v\<lparr>u_failed := u_failed v + 1, u_updated := now\<rparr>
      else v\<lparr>u_failed := u_failed v + 1, u_locked := True, u_locked_until := Some (now + lock_duration k),
            u_shadow_until := Some (now + 604800000), u_updated := now\<rparr>)"

lemma rest_fun_keys [simp]:
  "u_id (rest_fun now b k v) = u_id v" "u_name (rest_fun now b k v) = u_name v"
  "u_tenant (rest_fun now b k v) = u_tenant v" "u_email (rest_fun now b k v) = u_email v"
  by (simp_all add: rest_fun_def)

lemma start_reset_keys [simp]:
  "u_id (start_reset now u v) = u_id v" "u_name (start_reset now u v) = u_name v"
  "u_tenant (start_reset now u v) = u_tenant v" "u_email (start_reset now u v) = u_email v"
  by (simp_all add: start_reset_def)

lemma rest_fun_cases:
  "rest_fun now None k = (\<lambda>v. v)"
  "rest_fun now (Some True) k = (\<lambda>v. v\<lparr>u_failed := 0, u_locked := False, u_locked_until := None,
     u_last_login := Some now, u_updated := now\<rparr>)"
  by (simp_all add: rest_fun_def fun_eq_iff)

lemma login_rest_match:
  "verify (u_hash u) pw = Some True \<Longrightarrow>
   login_rest sha verify now aid tid raw pw u db =
     issue sha now tid raw u (update_user (u_id u) (rest_fun now (Some True) k) db)"
  by (simp add: login_rest_def login_check_def resetFailedAttempts_def updateLastLogin_def update_user_twice rest_fun_cases)

lemma login_rest_mismatch:
  assumes v: "verify (u_hash u) pw = Some False" and x: "find_user db (u_id u) = Some x"
  shows "fst (login_rest sha verify now aid tid raw pw u db) =
      (if u_failed x + 1 < 5 then Unauthorized401 (Some (5 - (u_failed x + 1)))
       else Locked423 (now + lock_duration (u_failed x + 1)))"
    and "t_users (snd (login_rest sha verify now aid tid raw pw u db)) =
      t_users (update_user (u_id u) (rest_fun now (Some False) (u_failed x + 1)) db)"
    and "t_tokens (snd (login_rest sha verify now aid tid raw pw u db)) = t_tokens db"
proof -
  let ?k = "u_failed x + 1"
  let ?db1 = "update_user (u_id u) (\<lambda>u. u\<lparr>u_failed := u_failed u + 1, u_updated := now\<rparr>) db"
  let ?db2 = "snd (processAnomaly_log now aid (burst_event (u_id u) (u_tenant u) ?k BURST_WINDOW_MINUTES) ?db1)"
  let ?l = "login_rest sha verify now aid tid raw pw u db"
  have n: "incrementFailedAttempts now (u_id u) db = (Some ?k, ?db1)"
    using x by (simp add: incrementFailedAttempts_def find_user_update)
  have l: "?l = (if ?k < 5 then (Unauthorized401 (Some (5 - ?k)), ?db1) else login_alerted now u ?k aid ?db2)"
    using v n by (simp add: login_rest_def login_check_def MAX_FAILED_ATTEMPTS_def)
  have big: "login_alerted now u ?k aid ?db2 =
      (Locked423 (now + lock_duration ?k), lockUser now (u_id u) (now + lock_duration ?k) (mark_dispatched aid ?db2))"
    if "\<not> ?k < 5" using that by (simp add: login_alerted_def MAX_FAILED_ATTEMPTS_def Let_def)
  have users: "t_users (lockUser now (u_id u) (now + lock_duration ?k) (mark_dispatched aid ?db2)) =
      t_users (update_user (u_id u) (rest_fun now (Some False) ?k) db)" if "\<not> ?k < 5"
  proof -
    have "t_users ?db2 = t_users (update_user (u_id u) (\<lambda>x. x\<lparr>u_shadow_until := Some (now + 604800000), u_locked := False\<rparr>) ?db1)"
      using that by (intro burst_users) simp
    then have "t_users (lockUser now (u_id u) (now + lock_duration ?k) (mark_dispatched aid ?db2)) =
        t_users (lockUser now (u_id u) (now + lock_duration ?k)
          (update_user (u_id u) (\<lambda>x. x\<lparr>u_shadow_until := Some (now + 604800000), u_locked := False\<rparr>) ?db1))"
      unfolding lockUser_def by (intro update_user_users_cong) simp
    then show ?thesis
      using that by (simp add: lockUser_def update_user_twice rest_fun_def update_user_def update_where_def)
  qed
  show "fst ?l = (if ?k < 5 then Unauthorized401 (Some (5 - ?k)) else Locked423 (now + lock_duration ?k))"
    unfolding l using big by simp
  show "t_users (snd ?l) = t_users (update_user (u_id u) (rest_fun now (Some False) ?k) db)"
    unfolding l using big users by (simp add: rest_fun_def update_user_def update_where_def)
  show "t_tokens (snd ?l) = t_tokens db"
    unfolding l using big by (simp add: lockUser_def processAnomaly_log_def mark_dispatched_def Let_def split: option.split)
qed

lemma login_rest_users:
  assumes "find_user db (u_id u) = Some x"
  shows "t_users (snd (login_rest sha verify now aid tid raw pw u db)) =
    t_users (update_user (u_id u) (rest_fun now (verify (u_hash u) pw) (u_failed x + 1)) db)"
proof (cases "verify (u_hash u) pw")
  case None
  then show ?thesis by (simp add: login_rest_def login_check_def rest_fun_cases)
next
  case (Some b)
  with login_rest_mismatch(2) [OF _ assms] show ?thesis 
    by (cases b) (simp_all add: login_rest_match [where k = "u_failed x + 1"])
qed

lemma login_user_effect:
  assumes d: "distinct (map u_id (t_users db))"
  shows "\<exists>i G. t_users (snd (login sha verify now aid tid raw un pw tn db)) = t_users (update_user i G db)
    \<and> (\<forall>v. u_id (G v) = u_id v \<and> u_name (G v) = u_name v \<and> u_tenant (G v) = u_tenant v \<and> u_email (G v) = u_email v)
    \<and> (\<forall>v. find_user db i = Some v \<longrightarrow> login_effect now v (G v))"
proof (cases rule: login_start_cases [of now un tn db])
  case unknown
  then show ?thesis
    by (intro exI [of _ "[]"] exI [of _ "\<lambda>v. v"]) (simp add: login_def login_effect_def)
next
  case (active u)
  then show ?thesis
    by (intro exI [of _ "[]"] exI [of _ "\<lambda>v. v"]) (simp add: login_def login_effect_def)
next
  case (verifying u)
  let ?F = "start_reset now u" and ?b = "verify (u_hash u) pw"
  have u: "find_user db (u_id u) = Some u"
    using find_SomeD [OF verifying(2)] by (simp add: find_user_iff [OF d])
  have x: "find_user (update_user (u_id u) ?F db) (u_id u) = Some (?F u)"
    using u by (simp add: find_user_update)
  have c: "u_failed (?F u) = counted u" by (simp add: start_reset_def counted_def)
  have "login_effect now u (rest_fun now ?b (counted u + 1) (?F u))"
    by (auto simp: login_effect_def start_reset_def counted_def rest_fun_def)
  moreover have "t_users (snd (login sha verify now aid tid raw un pw tn db)) =
      t_users (update_user (u_id u) (\<lambda>v. rest_fun now ?b (counted u + 1) (?F v)) db)"
    by (simp add: login_def verifying(1) login_rest_users [OF x] c update_user_twice)
  ultimately show ?thesis
    using u by (intro exI [of _ "u_id u"] exI [of _ "\<lambda>v. rest_fun now ?b (counted u + 1) (?F v)"]) simp
qed

subsection \<open>Effects on refresh tokens\<close>

text \<open>
  Every operation revokes some tokens and adds at most one, whose id and hash are new and whose
  user exists.
\<close>

definition token_change :: "plat_db \<Rightarrow> plat_db \<Rightarrow> bool" where
  "token_change db db' \<longleftrightarrow>
     (\<exists>p new. t_tokens db' = update_where p (\<lambda>t. t\<lparr>rt_revoked := True\<rparr>) (t_tokens db) @ new
        \<and> (new = [] \<or> (\<exists>t. new = [t] \<and> rt_id t \<notin> rt_id ` set (t_tokens db) \<and> rt_hash t \<notin> rt_hash ` set (t_tokens db)
             \<and> rt_user t \<in> u_id ` set (t_users db') \<and> \<not> rt_revoked t)))"

lemma token_changeI_none: "t_tokens db' = t_tokens db \<Longrightarrow> token_change db db'"
  unfolding token_change_def by (rule exI [of _ "\<lambda>_. False"]) (simp add: update_where_none)

lemma token_change_revoke: "t_tokens db' = t_tokens (revoke_where p db) \<Longrightarrow> token_change db db'"
  unfolding token_change_def by (rule exI [of _ p]) (simp add: revoke_where_def)

lemma storeRefreshToken_Some:
  "storeRefreshToken sha now tid uid raw db = Some db' \<Longrightarrow>
   \<exists>t. db' = db\<lparr>t_tokens := t_tokens db @ [t]\<rparr> \<and> rt_id t = tid \<and> rt_hash t = sha raw \<and> rt_user t = uid \<and> \<not> rt_revoked t
     \<and> tid \<notin> rt_id ` set (t_tokens db) \<and> sha raw \<notin> rt_hash ` set (t_tokens db)
     \<and> uid \<in> u_id ` set (t_users db) \<and> rt_expires t = now + REFRESH_TOKEN_TTL_DAYS * 86400000"
  by (intro exI [of _ "\<lparr>rt_id = tid, rt_user = uid, rt_hash = sha raw,
        rt_expires = now + REFRESH_TOKEN_TTL_DAYS * 86400000, rt_revoked = False, rt_created = now\<rparr>"])
    (auto simp: storeRefreshToken_def list_ex_iff find_user_None_iff split: if_splits)

lemma issue_tokens:
  assumes "t_tokens db1 = t_tokens (revoke_where p db)"
  shows "token_change db (snd (issue sha now tid raw u db1))"
proof (cases "storeRefreshToken sha now tid (u_id u) raw db1")
  case None
  with assms show ?thesis by (intro token_change_revoke [of _ p]) (simp add: issue_def)
next
  case (Some db')
  obtain t where t: "db' = db1\<lparr>t_tokens := t_tokens db1 @ [t]\<rparr>" "rt_id t = tid" "rt_hash t = sha raw" "rt_user t = u_id u" "\<not> rt_revoked t"
      "tid \<notin> rt_id ` set (t_tokens db1)" "sha raw \<notin> rt_hash ` set (t_tokens db1)" "u_id u \<in> u_id ` set (t_users db1)"
    using storeRefreshToken_Some [OF Some] by blast
  have "rt_id ` set (t_tokens db1) = rt_id ` set (t_tokens db)" "rt_hash ` set (t_tokens db1) = rt_hash ` set (t_tokens db)"
    unfolding assms revoke_where_def by (simp_all add: image_update_where)
  with t show ?thesis
    unfolding token_change_def
    by (intro exI [of _ p] exI [of _ "[t]"]) (auto simp: issue_def Some assms revoke_where_def)
qed

lemma revoke_none [simp]: "revoke_where (\<lambda>_. False) db = db"
  by (simp add: revoke_where_def update_where_none)

lemma login_tokens: "token_change db (snd (login sha verify now aid tid raw un pw tn db))"
proof (cases rule: login_start_cases [of now un tn db])
  case (verifying u)
  let ?db1 = "update_user (u_id u) (start_reset now u) db"
  have l: "snd (login sha verify now aid tid raw un pw tn db) = snd (login_rest sha verify now aid tid raw pw u ?db1)"
    by (simp add: login_def verifying(1))
  have m: "u \<in> set (t_users db)" using find_SomeD [OF verifying(2)] by simp
  then obtain x where x: "find_user ?db1 (u_id u) = Some x"
    by (cases "find_user db (u_id u)") (auto simp: find_user_update find_user_None_iff)
  show ?thesis
  proof (cases "verify (u_hash u) pw")
    case None
    then show ?thesis unfolding l by (intro token_changeI_none) (simp add: login_rest_def login_check_def)
  next
    case (Some b)
    show ?thesis
    proof (cases b)
      case True
      with Some show ?thesis
        unfolding l by (simp add: login_rest_match [where k = 0] issue_tokens [where p = "\<lambda>_. False"])
    next
      case False
      with Some login_rest_mismatch(3) [OF _ x] show ?thesis unfolding l by (intro token_changeI_none) simp
    qed
  qed
qed (simp_all add: login_def token_changeI_none)

lemma refresh_cases:
  obtains (none) "live_token sha raw db = None" "refresh sha now tid newRaw raw db = (Unauthorized401 None, db)"
  | (expired) t u where "live_token sha raw db = Some (t, u)" "rt_expires t < now"
      "refresh sha now tid newRaw raw db = (Unauthorized401 None, revoke_where (\<lambda>x. rt_id x = rt_id t) db)"
  | (locked) t u where "live_token sha raw db = Some (t, u)" "\<not> rt_expires t < now" "lock_active now u"
      "refresh sha now tid newRaw raw db = (Locked423 (the (u_locked_until u)), db)"
  | (rotated) t u where "live_token sha raw db = Some (t, u)" "\<not> rt_expires t < now" "\<not> lock_active now u"
      "refresh sha now tid newRaw raw db = issue sha now tid newRaw u (revoke_where (\<lambda>x. rt_id x = rt_id t) db)"
proof (cases "live_token sha raw db")
  case None
  then show ?thesis by (intro none) (simp_all add: refresh_def)
next
  case (Some p)
  obtain t u where p: "p = (t, u)" by fastforce
  consider "rt_expires t < now" | "\<not> rt_expires t < now" "lock_active now u" | "\<not> rt_expires t < now" "\<not> lock_active now u"
    by blast
  then show ?thesis
    using Some p by cases (auto simp: refresh_def intro: expired locked rotated)
qed

lemma refresh_users: "t_users (snd (refresh sha now tid newRaw raw db)) = t_users db"
  by (cases rule: refresh_cases [of sha raw db now tid newRaw]) simp_all

lemma refresh_tokens: "token_change db (snd (refresh sha now tid newRaw raw db))"
proof (cases rule: refresh_cases [of sha raw db now tid newRaw])
  case (expired t u)
  then show ?thesis by (intro token_change_revoke) simp
next
  case (rotated t u)
  then show ?thesis by (simp add: issue_tokens [OF refl])
qed (simp_all add: token_changeI_none)

lemma logout_change: "token_change db (snd (logout c db))" "t_users (snd (logout c db)) = t_users db"
  by (auto simp: logout_def revokeAllUserRefreshTokens_def split: option.split
      intro: token_changeI_none token_change_revoke)

lemma change_cases:
  obtains (rejected) r where "changePassword verify nh now cur new uid tn db = (r, db)" "r \<noteq> Ok200_password"
  | (wrong) u where "validatePasswordStrength new = None" "find_user db uid = Some u" "verify (u_hash u) cur = Some False"
      "changePassword verify nh now cur new uid tn db =
        (Unauthorized401 None, update_user uid (\<lambda>u. u\<lparr>u_failed := u_failed u + 1, u_updated := now\<rparr>) db)"
  | (changed) u h where "validatePasswordStrength new = None" "find_user db uid = Some u" "verify (u_hash u) cur = Some True"
      "verify (u_hash u) new = Some False" "nh = Some h"
      "changePassword verify nh now cur new uid tn db = (Ok200_password, commit_password now uid (case tn of None \<Rightarrow> [] | Some t \<Rightarrow> t) h db)"
proof (cases "change_start new uid db")
  case (Inl r)
  then show ?thesis
    by (intro rejected [of r])
      (auto simp: changePassword_def change_start_def split: option.splits)
next
  case (Inr u)
  then have s: "validatePasswordStrength new = None" "find_user db uid = Some u"
    by (auto simp: change_start_def split: option.splits)
  have f: "fst (incrementFailedAttempts now uid db) \<noteq> None"
    using s by (simp add: incrementFailedAttempts_def find_user_update)
  show ?thesis
  proof (cases "verify (u_hash u) cur")
    case None
    with Inr show ?thesis by (intro rejected) (auto simp: changePassword_def change_finish_def)
  next
    case (Some b)
    show ?thesis
    proof (cases b)
      case False
      with Some Inr s f show ?thesis
        by (intro wrong [of u])
          (auto simp: changePassword_def change_finish_def incrementFailedAttempts_def Let_def find_user_update)
    next
      case True
      show ?thesis
      proof (cases "verify (u_hash u) new = Some False \<and> nh \<noteq> None")
        case ok: True
        then obtain h where "nh = Some h" by blast
        with ok True Some Inr s show ?thesis
          by (intro changed [of u h]) (auto simp: changePassword_def change_finish_def)
      next
        case False
        with True Some Inr show ?thesis
          by (intro rejected [of "fst (changePassword verify nh now cur new uid tn db)"])
            (auto simp: changePassword_def change_finish_def split: option.splits bool.splits)
      qed
    qed
  qed
qed

lemma commit_password_tables:
  "t_users (commit_password now uid tn h db) =
     t_users (update_user uid (\<lambda>u. u\<lparr>u_hash := h, u_failed := 0, u_updated := now\<rparr>) db)"
  "t_tokens (commit_password now uid tn h db) = t_tokens (revokeAllUserRefreshTokens uid db)"
  by (simp_all add: commit_password_def revokeAllUserRefreshTokens_def revoke_where_def auditLog_def update_user_def)

lemma change_tokens: "token_change db (snd (changePassword verify nh now cur new uid tn db))"
  by (cases rule: change_cases [of verify nh now cur new uid tn db])
    (simp_all add: token_changeI_none token_change_revoke commit_password_tables revokeAllUserRefreshTokens_def)

lemma register_cases:
  obtains (rejected) r where "register en nh now uid un em pw rl tn db = (r, db)" "r \<noteq> Registered201 uid"
  | (created) h where "en" "nh = Some h" "validatePasswordStrength pw = None" "uid \<notin> u_id ` set (t_users db)"
      "\<forall>u \<in> set (t_users db). u_tenant u = tn \<longrightarrow> u_name u \<noteq> un \<and> u_email u \<noteq> em"
      "register en nh now uid un em pw rl tn db =
        (Registered201 uid, db\<lparr>t_users := t_users db @ [new_user now uid un em h rl tn]\<rparr>)"
proof -
  let ?dup = "list_ex (\<lambda>u. (u_name u = un \<or> u_email u = em) \<and> u_tenant u = tn) (t_users db)"
  consider h where "en" "nh = Some h" "validatePasswordStrength pw = None" "\<not> ?dup" "find_user db uid = None"
    | "\<not> en \<or> nh = None \<or> validatePasswordStrength pw \<noteq> None \<or> ?dup \<or> find_user db uid \<noteq> None"
    by (cases nh) blast+
  then show ?thesis
  proof cases
    case 1
    then show ?thesis
      by (intro created [of h]) (auto simp: register_def list_ex_iff find_user_None_iff)
  next
    case 2
    then show ?thesis
      by (intro rejected [of "fst (register en nh now uid un em pw rl tn db)"])
        (auto simp: register_def split: option.splits)
  qed
qed

text \<open>The invariant of the tables: keys are unique, tokens belong to users.\<close>

definition auth_wf :: "plat_db \<Rightarrow> bool" where
  "auth_wf db \<longleftrightarrow> distinct (map u_id (t_users db)) \<and> distinct (map rt_id (t_tokens db))
     \<and> distinct (map rt_hash (t_tokens db)) \<and> rt_user ` set (t_tokens db) \<subseteq> u_id ` set (t_users db)
     \<and> distinct (map (\<lambda>u. (u_tenant u, u_name u)) (t_users db))"

lemma token_change_wf:
  assumes "token_change db db'" "auth_wf db" "u_id ` set (t_users db) \<subseteq> u_id ` set (t_users db')"
    "distinct (map u_id (t_users db'))" "distinct (map (\<lambda>u. (u_tenant u, u_name u)) (t_users db'))"
  shows "auth_wf db'"
proof -
  obtain p new where t: "t_tokens db' = update_where p (\<lambda>t. t\<lparr>rt_revoked := True\<rparr>) (t_tokens db) @ new"
    "new = [] \<or> (\<exists>t. new = [t] \<and> rt_id t \<notin> rt_id ` set (t_tokens db) \<and> rt_hash t \<notin> rt_hash ` set (t_tokens db)
       \<and> rt_user t \<in> u_id ` set (t_users db') \<and> \<not> rt_revoked t)"
    using assms(1) unfolding token_change_def by blast
  have "map rt_id (t_tokens db') = map rt_id (t_tokens db) @ map rt_id new"
    "map rt_hash (t_tokens db') = map rt_hash (t_tokens db) @ map rt_hash new"
    "rt_user ` set (t_tokens db') = rt_user ` set (t_tokens db) \<union> rt_user ` set new"
    by (simp_all add: t(1) map_update_where image_Un image_update_where)
  with t(2) assms(2-5) show ?thesis unfolding auth_wf_def by (auto, (metis imageI subsetD)+)
qed

lemma handle_users_all:
  fixes sha verify n q
  assumes "auth_wf db"
  defines "db' \<equiv> snd (auth_handle sha verify n q db)"
  shows "u_id ` set (t_users db) \<subseteq> u_id ` set (t_users db') \<and> distinct (map u_id (t_users db'))
    \<and> distinct (map (\<lambda>u. (u_tenant u, u_name u)) (t_users db'))" (is ?all)
proof -
  have d: "distinct (map u_id (t_users db))" "distinct (map (\<lambda>u. (u_tenant u, u_name u)) (t_users db))"
    using assms(1) by (auto simp: auth_wf_def)
  have keep: ?all if "map u_id (t_users db') = map u_id (t_users db)"
    "map (\<lambda>u. (u_tenant u, u_name u)) (t_users db') = map (\<lambda>u. (u_tenant u, u_name u)) (t_users db)"
    using that d by (metis list.set_map order_refl)
  show ?all
  proof (cases q)
    case (LoginReq un pw tn)
    obtain i G where G: "t_users db' = t_users (update_user i G db)"
      "\<And>v. u_id (G v) = u_id v \<and> u_name (G v) = u_name v \<and> u_tenant (G v) = u_tenant v"
      using login_user_effect [OF d(1), of sha verify "n_now n" "n_aid n" "n_tid n" "n_raw n" un pw tn]
      unfolding db'_def LoginReq by (auto simp: auth_handle_def)
    then show ?thesis using keep by (simp add: update_user_def map_update_where)
  next
    case (ChangeReq cur new uid t)
    show ?thesis
      by (cases rule: change_cases [of verify "n_hash n" "n_now n" cur new uid t db])
        (use keep in \<open>simp_all add: db'_def ChangeReq auth_handle_def commit_password_tables update_user_def map_update_where\<close>)
  next
    case (RegisterReq un em pw rl tn)
    show ?thesis
    proof (cases rule: register_cases [of True "n_hash n" "n_now n" "n_uid n" un em pw rl tn db])
      case (rejected r)
      then show ?thesis using keep by (simp add: db'_def RegisterReq auth_handle_def)
    next
      case (created h)
      then show ?thesis using d
        by (auto simp: db'_def RegisterReq auth_handle_def new_user_def)
    qed
  qed (use keep in \<open>simp_all add: db'_def auth_handle_def refresh_users logout_change\<close>)
qed

lemmas handle_users = handle_users_all [THEN conjunct1] handle_users_all [THEN conjunct2, THEN conjunct1]
  handle_users_all [THEN conjunct2, THEN conjunct2]

lemma handle_tokens: "token_change db (snd (auth_handle sha verify n q db))"
proof (cases q)
  case (RegisterReq un em pw rl tn)
  show ?thesis
    by (cases rule: register_cases [of True "n_hash n" "n_now n" "n_uid n" un em pw rl tn db])
      (simp_all add: RegisterReq auth_handle_def token_changeI_none)
qed (simp_all add: auth_handle_def login_tokens refresh_tokens logout_change change_tokens)

lemma handle_wf: "auth_wf db \<Longrightarrow> auth_wf (snd (auth_handle sha verify n q db))"
  using token_change_wf [OF handle_tokens _ handle_users] by blast

definition auth_init :: "time \<times> plat_db \<Rightarrow> bool" where
  "auth_init s \<longleftrightarrow> auth_wf (snd s) \<and> (\<forall>u \<in> set (t_users (snd s)). u_failed u = 0 \<and> \<not> u_locked u \<and> u_locked_until u = None)"

interpretation auth: invariant_system auth_init "auth_step sha verify allowed" "\<lambda>s. auth_wf (snd s)"
  for sha verify allowed
proof unfold_locales
  show "auth_init s \<Longrightarrow> auth_wf (snd s)" for s by (simp add: auth_init_def)
  show "auth_step sha verify allowed s t \<Longrightarrow> auth_wf (snd s) \<Longrightarrow> auth_wf (snd t)" for s t
    by (erule auth_stepE) (simp add: handle_wf)
qed

subsection \<open>Lockout over sequential requests\<close>

definition not_change :: "auth_request \<Rightarrow> bool" where
  "not_change q = (case q of ChangeReq _ _ _ _ \<Rightarrow> False | _ \<Rightarrow> True)"

definition calm :: "time \<Rightarrow> user_row \<Rightarrow> bool" where
  "calm c u \<longleftrightarrow> 0 \<le> u_failed u \<and> u_failed u \<le> 5 \<and> (u_failed u = 5 \<longrightarrow> u_locked u)
     \<and> (\<forall>t. u_locked_until u = Some t \<longrightarrow> t \<le> c + 900000)"

lemma calm_mono: "calm c u \<Longrightarrow> c \<le> d \<Longrightarrow> calm d u"
  by (fastforce simp: calm_def)

lemma calm_counted: "calm c u \<Longrightarrow> 0 \<le> counted u \<and> counted u \<le> 4"
  by (auto simp: calm_def counted_def)

lemma lock_duration_soft: "k < 10 \<Longrightarrow> lock_duration k = 900000"
  by (simp add: lock_duration_def MAX_FAILED_ATTEMPTS_def SOFT_LOCKOUT_MINUTES_def)

lemma lock_duration_hard: "10 \<le> k \<Longrightarrow> lock_duration k = 86400000"
  by (simp add: lock_duration_def MAX_FAILED_ATTEMPTS_def HARD_LOCKOUT_HOURS_def)

lemma login_effect_calm:
  assumes "login_effect now v w" "calm c v" "c \<le> now"
  shows "calm now w"
proof -
  have "calm now v" using assms(2,3) by (rule calm_mono)
  moreover have "0 \<le> counted v" "counted v \<le> 4" using calm_counted [OF assms(2)] by auto
  ultimately show ?thesis
    using assms(1) unfolding login_effect_def by (auto simp: calm_def lock_duration_soft split: if_splits)
qed

lemma handle_calm:
  assumes wf: "auth_wf db" and c: "\<forall>u \<in> set (t_users db). calm c u" "c \<le> n_now n" and q: "not_change q"
    and u: "u \<in> set (t_users (snd (auth_handle sha verify n q db)))"
  shows "calm (n_now n) u"
proof (cases q)
  case (LoginReq un pw tn)
  have d: "distinct (map u_id (t_users db))" using wf by (simp add: auth_wf_def)
  obtain i G where G: "t_users (snd (auth_handle sha verify n q db)) = t_users (update_user i G db)"
    "\<And>v. find_user db i = Some v \<Longrightarrow> login_effect (n_now n) v (G v)"
    using login_user_effect [OF d, of sha verify "n_now n" "n_aid n" "n_tid n" "n_raw n" un pw tn]
    by (auto simp: LoginReq auth_handle_def)
  from u [unfolded G(1), THEN update_user_set] show ?thesis
  proof
    assume "\<exists>v\<in>set (t_users db). u_id v = i \<and> u = G v"
    then obtain v where v: "v \<in> set (t_users db)" "u_id v = i" "u = G v" by blast
    then have "find_user db i = Some v" by (simp add: find_user_iff [OF d])
    from login_effect_calm [OF G(2) [OF this] _ c(2)] v c(1) show ?thesis by blast
  qed (use c calm_mono in blast)
next
  case (RegisterReq un em pw rl tn)
  show ?thesis
    using u c calm_mono
    by (cases rule: register_cases [of True "n_hash n" "n_now n" "n_uid n" un em pw rl tn db])
      (auto simp: RegisterReq auth_handle_def new_user_def calm_def)
qed (use u c q calm_mono in \<open>auto simp: auth_handle_def refresh_users logout_change not_change_def\<close>)

interpretation lockout: invariant_system auth_init "auth_step sha verify not_change"
  "\<lambda>s. auth_wf (snd s) \<and> (\<forall>u \<in> set (t_users (snd s)). calm (fst s) u)" for sha verify
proof unfold_locales
  show "auth_init s \<Longrightarrow> auth_wf (snd s) \<and> (\<forall>u \<in> set (t_users (snd s)). calm (fst s) u)" for s
    by (auto simp: auth_init_def calm_def)
  show "auth_step sha verify not_change s t \<Longrightarrow> auth_wf (snd s) \<and> (\<forall>u \<in> set (t_users (snd s)). calm (fst s) u) \<Longrightarrow>
      auth_wf (snd t) \<and> (\<forall>u \<in> set (t_users (snd t)). calm (fst t) u)" for s t
    by (erule auth_stepE) (simp add: handle_wf, blast intro: handle_calm)
qed

lemma login_locked:
  assumes "auth_wf db" "\<forall>u \<in> set (t_users db). calm c u" "c \<le> now"
    and "fst (login sha verify now aid tid raw un pw tn db) = Locked423 t"
  shows "t \<le> now + 900000"
proof (cases rule: login_start_cases [of now un tn db])
  case unknown
  with assms(4) show ?thesis by (simp add: login_def)
next
  case (active u)
  then have "t = the (u_locked_until u)" using assms(4) by (simp add: login_def)
  moreover obtain s where "u_locked_until u = Some s" using active(3) by (auto simp: lock_active_def split: option.splits)
  moreover have "calm now u" using assms(2,3) find_SomeD [OF active(2)] calm_mono by blast
  ultimately show ?thesis by (simp add: calm_def)
next
  case (verifying u)
  have d: "distinct (map u_id (t_users db))" using assms(1) by (simp add: auth_wf_def)
  have m: "u \<in> set (t_users db)" using find_SomeD [OF verifying(2)] by simp
  then have "find_user db (u_id u) = Some u" by (simp add: find_user_iff [OF d])
  then have x: "find_user (update_user (u_id u) (start_reset now u) db) (u_id u) = Some (start_reset now u u)"
    by (simp add: find_user_update)
  have c: "u_failed (start_reset now u u) = counted u" by (simp add: start_reset_def counted_def)
  have k: "counted u \<le> 4" using assms(2) m calm_counted by blast
  have r: "fst (login_rest sha verify now aid tid raw pw u (update_user (u_id u) (start_reset now u) db)) = Locked423 t"
    using assms(4) by (simp add: login_def verifying(1))
  have "verify (u_hash u) pw = Some False"
  proof (cases "verify (u_hash u) pw")
    case (Some b)
    then show ?thesis using r
      by (cases b) (auto simp: login_rest_match [where k = 0] issue_def split: option.splits)
  qed (use r in \<open>simp add: login_rest_def login_check_def\<close>)
  from login_rest_mismatch(1) [where verify = verify and pw = pw and u = u, OF this x, of sha now aid tid raw] r c k show ?thesis
    by (simp add: lock_duration_soft split: if_splits)
qed

text \<open>
  The 24-hour lockout is dead code for logins. As long as requests do not overlap and nobody
  fails a password change, the failure counter never exceeds 5, because an expired lock resets it:
  no lock ever ends more than 15 minutes ahead and no login answers with a longer one. The
  documented escalation at ten failures is never reached.\<close>

theorem hard_lockout_unreachable:
  assumes "reach auth_init (auth_step sha verify not_change) (c, db)" "c \<le> now"
  shows "(\<forall>u \<in> set (t_users db). 0 \<le> u_failed u \<and> u_failed u \<le> 5
          \<and> (\<forall>t. u_locked_until u = Some t \<longrightarrow> t \<le> c + 15 * 60000))
    \<and> (\<forall>t. fst (login sha verify now aid tid raw un pw tn db) = Locked423 t \<longrightarrow> t \<le> now + 15 * 60000)"
proof -
  have i: "auth_wf db" "\<forall>u \<in> set (t_users db). calm c u"
    using lockout.reach_inv [OF assms(1)] by auto
  then show ?thesis using login_locked [OF i assms(2)] by (auto simp: calm_def)
qed

subsection \<open>Lockout under concurrency and through password changes\<close>

text \<open>
  Logins that were admitted while the account was not locked, run one after the other: each
  element is the time of its check and its password.
\<close>

fun race :: "(string \<Rightarrow> string) \<Rightarrow> (string \<Rightarrow> string \<Rightarrow> bool option) \<Rightarrow> string \<Rightarrow> user_row \<Rightarrow> (time \<times> string) list \<Rightarrow> plat_db
    \<Rightarrow> auth_resp list \<times> plat_db" where
  "race sha verify raw u [] db = ([], db)"
| "race sha verify raw u ((now, pw) # gs) db =
     (let (r, db1) = login_rest sha verify now raw raw raw pw u db; (rs, db2) = race sha verify raw u gs db1
      in (r # rs, db2))"

lemma find_user_cong_update: "t_users a = t_users (update_user i f b) \<Longrightarrow> (\<And>u. u_id (f u) = u_id u) \<Longrightarrow>
    find_user a i = map_option f (find_user b i)"
  using find_user_tables_cong [of a "update_user i f b" i] by (simp add: find_user_update)

lemma race_wrong:
  "find_user db (u_id u) = Some x \<Longrightarrow> \<forall>g \<in> set gs. verify (u_hash u) (snd g) = Some False \<Longrightarrow>
   \<exists>y. find_user (snd (race sha verify raw u gs db)) (u_id u) = Some y
     \<and> u_failed y = u_failed x + int (length gs)
     \<and> t_tokens (snd (race sha verify raw u gs db)) = t_tokens db"
proof (induction gs arbitrary: db x)
  case (Cons g gs)
  obtain now pw where g: "g = (now, pw)" by fastforce
  have v: "verify (u_hash u) pw = Some False" using Cons.prems(2) g by simp
  let ?db1 = "snd (login_rest sha verify now raw raw raw pw u db)"
  have y: "find_user ?db1 (u_id u) = Some (rest_fun now (Some False) (u_failed x + 1) x)"
    using find_user_cong_update [OF login_rest_mismatch(2) [where verify = verify and pw = pw and u = u, OF v Cons.prems(1)]] Cons.prems(1) by simp
  have "u_failed (rest_fun now (Some False) (u_failed x + 1) x) = u_failed x + 1" by (simp add: rest_fun_def)
  with Cons.IH [OF y] Cons.prems(2) show ?case
    by (auto simp: g case_prod_beta Let_def login_rest_mismatch(3) [where verify = verify and pw = pw and u = u, OF v Cons.prems(1)])
qed simp

text \<open>
  The lock does not hold back logins that are already in flight. Any number of guesses admitted
  while the account was open are all checked, each only raises the counter; the right one among
  them succeeds although the account is locked by then, hands out tokens, and clears the lock and
  the counter.\<close>

theorem in_flight_logins_bypass_lock:
  assumes u: "find_user db (u_id u) = Some x"
    and wrong: "\<forall>g \<in> set gs. verify (u_hash u) (snd g) = Some False" and right: "verify (u_hash u) pw = Some True"
    and fresh: "tid \<notin> rt_id ` set (t_tokens db)" "sha raw \<notin> rt_hash ` set (t_tokens db)"
  shows "\<exists>db' y. snd (race sha verify aid u gs db) = db' \<and> find_user db' (u_id u) = Some y
      \<and> u_failed y = u_failed x + int (length gs)
      \<and> fst (login_rest sha verify now aid tid raw pw u db') = Tokens200 (u_id u) (u_tenant u) (u_role u) raw
      \<and> map_option (\<lambda>z. (u_failed z, u_locked z, u_locked_until z))
          (find_user (snd (login_rest sha verify now aid tid raw pw u db')) (u_id u)) = Some (0, False, None)"
proof -
  let ?db' = "snd (race sha verify aid u gs db)"
  obtain y where y: "find_user ?db' (u_id u) = Some y" "u_failed y = u_failed x + int (length gs)"
      "t_tokens ?db' = t_tokens db"
    using race_wrong [where verify = verify and u = u, OF u wrong] by blast
  let ?db2 = "update_user (u_id u) (rest_fun now (Some True) 0) ?db'"
  have f: "find_user ?db2 (u_id u) = Some (rest_fun now (Some True) 0 y)" using y by (simp add: find_user_update)
  have s: "storeRefreshToken sha now tid (u_id u) raw ?db2 \<noteq> None"
    using f fresh y(3) by (auto simp: storeRefreshToken_def list_ex_iff image_iff)
  then obtain db3 where db3: "storeRefreshToken sha now tid (u_id u) raw ?db2 = Some db3" by blast
  have "login_rest sha verify now aid tid raw pw u ?db' = (Tokens200 (u_id u) (u_tenant u) (u_role u) raw, db3)"
    by (simp add: login_rest_match [where verify = verify and pw = pw and u = u and k = 0, OF right] issue_def db3)
  moreover have "find_user db3 (u_id u) = Some (rest_fun now (Some True) 0 y)"
    using storeRefreshToken_Some [OF db3] f by auto
  ultimately show ?thesis using y by (simp add: rest_fun_def)
qed

text \<open>Failed password changes of one user, one after the other.\<close>

fun failed_changes :: "(string \<Rightarrow> string \<Rightarrow> bool option) \<Rightarrow> string \<Rightarrow> string \<Rightarrow> (time \<times> string) list \<Rightarrow> plat_db
    \<Rightarrow> auth_resp list \<times> plat_db" where
  "failed_changes verify uid new [] db = ([], db)"
| "failed_changes verify uid new ((now, cur) # gs) db =
     (let (r, db1) = changePassword verify None now cur new uid None db; (rs, db2) = failed_changes verify uid new gs db1
      in (r # rs, db2))"

lemma changePassword_wrong:
  assumes "validatePasswordStrength new = None" "find_user db uid = Some u" "verify (u_hash u) cur = Some False"
  shows "changePassword verify nh now cur new uid tn db =
    (Unauthorized401 None, update_user uid (\<lambda>u. u\<lparr>u_failed := u_failed u + 1, u_updated := now\<rparr>) db)"
  using assms
  by (simp add: changePassword_def change_start_def change_finish_def incrementFailedAttempts_def Let_def find_user_update)

lemma failed_changes_effect:
  assumes "validatePasswordStrength new = None"
  shows "find_user db uid = Some x \<Longrightarrow> \<forall>g \<in> set gs. verify (u_hash x) (snd g) = Some False \<Longrightarrow>
   \<exists>ts. failed_changes verify uid new gs db =
     (replicate (length gs) (Unauthorized401 None),
      update_user uid (\<lambda>u. u\<lparr>u_failed := u_failed u + int (length gs), u_updated := ts u\<rparr>) db)"
proof (induction gs arbitrary: db x)
  case Nil
  have "(\<lambda>u. u\<lparr>u_failed := u_failed u, u_updated := u_updated u\<rparr>) = (\<lambda>u :: user_row. u)" by (simp add: fun_eq_iff)
  then show ?case by (auto intro!: exI [of _ u_updated])
next
  case (Cons g gs)
  obtain now cur where g: "g = (now, cur)" by fastforce
  let ?db1 = "update_user uid (\<lambda>u. u\<lparr>u_failed := u_failed u + 1, u_updated := now\<rparr>) db"
  have c: "changePassword verify None now cur new uid None db = (Unauthorized401 None, ?db1)"
    using Cons.prems g assms by (intro changePassword_wrong [where u = x]) simp_all
  have "find_user ?db1 uid = Some (x\<lparr>u_failed := u_failed x + 1, u_updated := now\<rparr>)"
    using Cons.prems(1) by (simp add: find_user_update)
  from Cons.IH [OF this] Cons.prems(2) obtain ts where ts: "failed_changes verify uid new gs ?db1 =
     (replicate (length gs) (Unauthorized401 None),
      update_user uid (\<lambda>u. u\<lparr>u_failed := u_failed u + int (length gs), u_updated := ts u\<rparr>) ?db1)" by auto
  show ?case
    by (intro exI [of _ "\<lambda>u. ts (u\<lparr>u_failed := u_failed u + 1, u_updated := now\<rparr>)"])
      (simp add: g c ts update_user_twice add.assoc)
qed

text \<open>
  Guessing the password through the password change endpoint is not limited. Any number of
  wrong current passwords are all checked and answered 401; the account is not locked and no token
  is revoked, only the counter grows. After nine of them a single failed login locks the
  account for 24 hours.\<close>

theorem change_password_guesses_unlimited:
  assumes "validatePasswordStrength new = None" and x: "find_user db uid = Some x" "\<not> u_locked x"
    and wrong: "\<forall>g \<in> set gs. verify (u_hash x) (snd g) = Some False"
    and name: "List.find (\<lambda>u. u_name u = u_name x \<and> u_tenant u = u_tenant x) (t_users db) = Some x"
    and pw: "verify (u_hash x) pw = Some False" and many: "9 \<le> u_failed x + int (length gs)"
  shows "fst (failed_changes verify uid new gs db) = replicate (length gs) (Unauthorized401 None)
    \<and> t_tokens (snd (failed_changes verify uid new gs db)) = t_tokens db
    \<and> map_option u_locked (find_user (snd (failed_changes verify uid new gs db)) uid) = Some False
    \<and> fst (login sha verify now aid tid raw (u_name x) pw (u_tenant x) (snd (failed_changes verify uid new gs db)))
        = Locked423 (now + 24 * 3600000)"
proof -
  obtain ts where f: "failed_changes verify uid new gs db = (replicate (length gs) (Unauthorized401 None),
      update_user uid (\<lambda>u. u\<lparr>u_failed := u_failed u + int (length gs), u_updated := ts u\<rparr>) db)" (is "_ = (_, ?db')")
    using failed_changes_effect [where verify = verify and x = x, OF assms(1) x(1) wrong] by blast
  let ?x = "x\<lparr>u_failed := u_failed x + int (length gs), u_updated := ts x\<rparr>"
  have i: "u_id x = uid" using x(1) by (rule find_user_id)
  have y: "find_user ?db' uid = Some ?x" using x(1) by (simp add: find_user_update)
  have "List.find (\<lambda>u. u_name u = u_name x \<and> u_tenant u = u_tenant x) (t_users ?db') = Some ?x"
    using name i by (simp add: update_user_def find_update_where_any)
  then have s: "login_start now (u_name x) (u_tenant x) ?db' = (Verifying ?x, ?db')"
    using x(2) by (simp add: login_start_def lock_active_def)
  have "fst (login_rest sha verify now aid tid raw pw ?x ?db') = Locked423 (now + 24 * 3600000)"
    using login_rest_mismatch(1) [where verify = verify and pw = pw and u = ?x and db = ?db' and x = ?x] pw y i many
    by (simp add: lock_duration_hard)
  then show ?thesis using f y x(2) s by (simp add: login_def)
qed

subsection \<open>Refresh tokens refine a map of sessions\<close>

text \<open>
  The specification of the token table: the open sessions, a map from token hash to user and
  expiry. A request changes it according to the answer it got.
\<close>

type_synonym sessions = "string \<rightharpoonup> string \<times> time"

definition sessions :: "plat_db \<Rightarrow> sessions" where
  "sessions db h = map_option (\<lambda>t. (rt_user t, rt_expires t))
     (List.find (\<lambda>t. rt_hash t = h \<and> \<not> rt_revoked t) (t_tokens db))"

definition close_sessions :: "string \<Rightarrow> sessions \<Rightarrow> sessions" where
  "close_sessions u s = (\<lambda>h. case s h of None \<Rightarrow> None | Some (v, e) \<Rightarrow> if v = u then None else Some (v, e))"

definition sess_spec :: "(string \<Rightarrow> string) \<Rightarrow> time \<Rightarrow> auth_request \<Rightarrow> auth_resp \<Rightarrow> sessions \<Rightarrow> sessions" where
  "sess_spec sha now q r s =
     (case q of
        LoginReq _ _ _ \<Rightarrow>
          (case r of Tokens200 u _ _ raw \<Rightarrow> s(sha raw \<mapsto> (u, now + 30 * 86400000)) | _ \<Rightarrow> s)
      | RefreshReq raw \<Rightarrow>
          (case r of Tokens200 u _ _ raw' \<Rightarrow> s(sha raw := None, sha raw' \<mapsto> (u, now + 30 * 86400000))
           | Locked423 _ \<Rightarrow> s | _ \<Rightarrow> s(sha raw := None))
      | LogoutReq (Some u) \<Rightarrow> (case r of NoContent204 \<Rightarrow> close_sessions u s | _ \<Rightarrow> s)
      | ChangeReq _ _ u _ \<Rightarrow> (case r of Ok200_password \<Rightarrow> close_sessions u s | _ \<Rightarrow> s)
      | _ \<Rightarrow> s)"

lemma sessions_alt:
  assumes "distinct (map rt_hash (t_tokens db))"
  shows "sessions db h = (case List.find (\<lambda>t. rt_hash t = h) (t_tokens db) of
      None \<Rightarrow> None | Some t \<Rightarrow> if rt_revoked t then None else Some (rt_user t, rt_expires t))"
proof -
  have "List.find (\<lambda>t. rt_hash t = h \<and> \<not> rt_revoked t) ts =
      (case List.find (\<lambda>t. rt_hash t = h) ts of None \<Rightarrow> None | Some t \<Rightarrow> if rt_revoked t then None else Some t)"
    if "distinct (map rt_hash ts)" for ts using that
  proof (induction ts)
    case (Cons t ts)
    have "List.find (\<lambda>t. rt_hash t = h) ts = None" if "rt_hash t = h"
      using Cons.prems that by (auto simp: find_None_iff image_iff)
    with Cons show ?case by auto
  qed simp
  from this [OF assms] show ?thesis by (simp add: sessions_def split: option.split)
qed

lemma sessions_cong: "t_tokens a = t_tokens b \<Longrightarrow> sessions a = sessions b"
  by (simp add: sessions_def fun_eq_iff)

lemma sessions_users [simp]:
  "sessions (update_user i f db) = sessions db" "sessions (db\<lparr>t_users := us\<rparr>) = sessions db"
  by (simp_all add: sessions_def fun_eq_iff)

lemma distinct_hash_revoke [simp]:
  "map rt_hash (t_tokens (revoke_where p db)) = map rt_hash (t_tokens db)"
  by (simp add: revoke_where_def map_update_where)

lemma sessions_revoke:
  assumes "distinct (map rt_hash (t_tokens db))"
  shows "sessions (revoke_where p db) h = (case List.find (\<lambda>t. rt_hash t = h) (t_tokens db) of
      None \<Rightarrow> None | Some t \<Rightarrow> if rt_revoked t \<or> p t then None else Some (rt_user t, rt_expires t))"
proof -
  have "distinct (map rt_hash (t_tokens (revoke_where p db)))" using assms by simp
  from sessions_alt [OF this] show ?thesis
    by (auto simp: revoke_where_def find_update_where_any split: option.split)
qed

lemma sessions_revoke_all:
  assumes "distinct (map rt_hash (t_tokens db))"
  shows "sessions (revokeAllUserRefreshTokens u db) = close_sessions u (sessions db)"
  by (auto simp: revokeAllUserRefreshTokens_def sessions_revoke [OF assms] sessions_alt [OF assms] close_sessions_def
      fun_eq_iff split: option.split)

lemma sessions_revoke_one:
  assumes "distinct (map rt_hash (t_tokens db))" "distinct (map rt_id (t_tokens db))" "t \<in> set (t_tokens db)"
  shows "sessions (revoke_where (\<lambda>x. rt_id x = rt_id t) db) = (sessions db)(rt_hash t := None)"
proof
  fix h
  have "rt_id x = rt_id t \<longleftrightarrow> h = rt_hash t" if "List.find (\<lambda>t. rt_hash t = h) (t_tokens db) = Some x" for x
  proof -
    have "x \<in> set (t_tokens db)" "rt_hash x = h" using find_SomeD [OF that] by auto
    with assms show ?thesis by (metis (mono_tags, lifting) distinct_map inj_onD)
  qed
  then show "sessions (revoke_where (\<lambda>x. rt_id x = rt_id t) db) h = ((sessions db)(rt_hash t := None)) h"
    by (auto simp: sessions_revoke [OF assms(1)] sessions_alt [OF assms(1)] split: option.split)
qed

lemma sessions_issue:
  assumes "distinct (map rt_hash (t_tokens db))"
  shows "sessions (snd (issue sha now tid raw u db)) =
    (case fst (issue sha now tid raw u db) of Tokens200 _ _ _ _ \<Rightarrow> (sessions db)(sha raw \<mapsto> (u_id u, now + 30 * 86400000))
     | _ \<Rightarrow> sessions db)"
    and "fst (issue sha now tid raw u db) \<in> {Error500, Tokens200 (u_id u) (u_tenant u) (u_role u) raw}"
proof -
  show "sessions (snd (issue sha now tid raw u db)) =
    (case fst (issue sha now tid raw u db) of Tokens200 _ _ _ _ \<Rightarrow> (sessions db)(sha raw \<mapsto> (u_id u, now + 30 * 86400000))
     | _ \<Rightarrow> sessions db)"
  proof (cases "storeRefreshToken sha now tid (u_id u) raw db")
    case (Some db')
    then obtain t where t: "db' = db\<lparr>t_tokens := t_tokens db @ [t]\<rparr>" "rt_hash t = sha raw" "rt_user t = u_id u"
        "\<not> rt_revoked t" "sha raw \<notin> rt_hash ` set (t_tokens db)" "rt_expires t = now + REFRESH_TOKEN_TTL_DAYS * 86400000"
      using storeRefreshToken_Some [OF Some] by blast
    have "List.find (\<lambda>t. rt_hash t = sha raw \<and> \<not> rt_revoked t) (t_tokens db) = None"
      using t(5) by (auto simp: find_None_iff image_iff)
    with t show ?thesis
      by (auto simp: issue_def Some sessions_def fun_eq_iff find_append REFRESH_TOKEN_TTL_DAYS_def split: option.split)
  qed (simp add: issue_def)
  show "fst (issue sha now tid raw u db) \<in> {Error500, Tokens200 (u_id u) (u_tenant u) (u_role u) raw}"
    by (simp add: issue_def split: option.split)
qed

lemma live_token_Some:
  "live_token sha raw db = Some (t, u) \<Longrightarrow>
   t \<in> set (t_tokens db) \<and> rt_hash t = sha raw \<and> \<not> rt_revoked t \<and> find_user db (rt_user t) = Some u"
  by (auto simp: live_token_def split: option.splits dest!: find_SomeD)

lemma live_token_sessions:
  assumes "auth_wf db"
  shows "live_token sha raw db = None \<longleftrightarrow> sessions db (sha raw) = None"
    and "live_token sha raw db = Some (t, u) \<Longrightarrow> sessions db (sha raw) = Some (u_id u, rt_expires t) \<and> rt_user t = u_id u"
proof -
  have own: "find_user db (rt_user t) \<noteq> None" if "t \<in> set (t_tokens db)" for t
    using assms that by (auto simp: auth_wf_def find_user_None_iff)
  have "List.find (\<lambda>t. rt_hash t = sha raw \<and> \<not> rt_revoked t \<and> find_user db (rt_user t) \<noteq> None) (t_tokens db) =
      List.find (\<lambda>t. rt_hash t = sha raw \<and> \<not> rt_revoked t) (t_tokens db)"
    using own by (intro find_cong) auto
  then have l: "live_token sha raw db =
      (case List.find (\<lambda>t. rt_hash t = sha raw \<and> \<not> rt_revoked t) (t_tokens db) of
        None \<Rightarrow> None | Some t \<Rightarrow> map_option (\<lambda>u. (t, u)) (find_user db (rt_user t)))"
    by (simp add: live_token_def)
  show "live_token sha raw db = None \<longleftrightarrow> sessions db (sha raw) = None"
    using own by (auto simp: l sessions_def split: option.splits dest!: find_SomeD)
  show "live_token sha raw db = Some (t, u) \<Longrightarrow> sessions db (sha raw) = Some (u_id u, rt_expires t) \<and> rt_user t = u_id u"
    using find_user_id by (auto simp: l sessions_def split: option.splits)
qed

lemma login_sessions:
  assumes "auth_wf db"
  shows "sessions (snd (login sha verify now aid tid raw un pw tn db)) =
    (case fst (login sha verify now aid tid raw un pw tn db) of
       Tokens200 u _ _ raw \<Rightarrow> (sessions db)(sha raw \<mapsto> (u, now + 30 * 86400000)) | _ \<Rightarrow> sessions db)"
proof (cases rule: login_start_cases [of now un tn db])
  case (verifying u)
  let ?db1 = "update_user (u_id u) (start_reset now u) db"
  have l: "login sha verify now aid tid raw un pw tn db = login_rest sha verify now aid tid raw pw u ?db1"
    by (simp add: login_def verifying(1))
  have "u \<in> set (t_users db)" using find_SomeD [OF verifying(2)] by simp
  then obtain x where x: "find_user ?db1 (u_id u) = Some x"
    by (cases "find_user db (u_id u)") (auto simp: find_user_update find_user_None_iff)
  show ?thesis
  proof (cases "verify (u_hash u) pw")
    case None
    then show ?thesis by (simp add: l login_rest_def login_check_def)
  next
    case (Some b)
    show ?thesis
    proof (cases b)
      case True
      let ?db2 = "update_user (u_id u) (rest_fun now (Some True) 0) ?db1"
      have d: "distinct (map rt_hash (t_tokens ?db2))" using assms by (simp add: auth_wf_def)
      from True Some have "login_rest sha verify now aid tid raw pw u ?db1 = issue sha now tid raw u ?db2"
        by (simp add: login_rest_match [where k = 0])
      with sessions_issue [OF d, of sha now tid raw u] show ?thesis
        by (auto simp: l split: auth_resp.splits)
    next
      case False
      with Some have v: "verify (u_hash u) pw = Some False" by simp
      note m = login_rest_mismatch [where verify = verify and pw = pw and u = u, OF v x, of sha now aid tid raw]
      show ?thesis unfolding l m(1) by (simp add: sessions_cong [OF m(3)])
    qed
  qed
qed (simp_all add: login_def)

lemma refresh_sessions:
  assumes "auth_wf db"
  shows "sessions (snd (refresh sha now tid newRaw raw db)) =
    (case fst (refresh sha now tid newRaw raw db) of
       Tokens200 u _ _ raw' \<Rightarrow> (sessions db)(sha raw := None, sha raw' \<mapsto> (u, now + 30 * 86400000))
     | Locked423 _ \<Rightarrow> sessions db | _ \<Rightarrow> (sessions db)(sha raw := None))"
    and "fst (refresh sha now tid newRaw raw db) = Tokens200 u tn r w \<Longrightarrow>
      \<exists>e. sessions db (sha raw) = Some (u, e) \<and> now \<le> e \<and> w = newRaw"
proof -
  have d: "distinct (map rt_hash (t_tokens db))" "distinct (map rt_id (t_tokens db))" using assms by (auto simp: auth_wf_def)
  have one: "sessions (revoke_where (\<lambda>x. rt_id x = rt_id t) db) = (sessions db)(sha raw := None)"
    if "live_token sha raw db = Some (t, v)" for t v
    using sessions_revoke_one [OF d] live_token_Some [OF that] by fastforce
  show "sessions (snd (refresh sha now tid newRaw raw db)) =
    (case fst (refresh sha now tid newRaw raw db) of
       Tokens200 u _ _ raw' \<Rightarrow> (sessions db)(sha raw := None, sha raw' \<mapsto> (u, now + 30 * 86400000))
     | Locked423 _ \<Rightarrow> sessions db | _ \<Rightarrow> (sessions db)(sha raw := None))"
  proof (cases rule: refresh_cases [of sha raw db now tid newRaw])
    case none
    then show ?thesis using live_token_sessions(1) [OF assms, of sha raw] by (simp add: fun_upd_idem)
  next
    case (expired t u)
    then show ?thesis by (simp add: one)
  next
    case (rotated t u)
    let ?db1 = "revoke_where (\<lambda>x. rt_id x = rt_id t) db"
    have "distinct (map rt_hash (t_tokens ?db1))" using d by simp
    from sessions_issue [OF this, of sha now tid newRaw u] show ?thesis
      by (auto simp: rotated(4) one [OF rotated(1)] split: auth_resp.splits)
  qed simp
  show "fst (refresh sha now tid newRaw raw db) = Tokens200 u tn r w \<Longrightarrow>
      \<exists>e. sessions db (sha raw) = Some (u, e) \<and> now \<le> e \<and> w = newRaw"
  proof (cases rule: refresh_cases [of sha raw db now tid newRaw])
    case (rotated t v)
    assume "fst (refresh sha now tid newRaw raw db) = Tokens200 u tn r w"
    then have "u = u_id v" "w = newRaw" using rotated(4) by (auto simp: issue_def split: option.splits)
    with live_token_sessions(2) [OF assms rotated(1)] rotated(2) show ?thesis by auto
  qed simp_all
qed

text \<open>
  C37: The token table implements the map of open sessions. Whatever request is handled, the
  sessions afterwards are the ones the specification \<open>sess_spec\<close> gives for the request and its
  answer: only an accepted login opens one, a refresh replaces exactly the presented one by one of
  the same user, logout and password change close all of the user's; and a refresh is accepted only
  for an open session that has not expired.\<close>

theorem tokens_refine_sessions:
  assumes "auth_wf db"
  shows "sessions (snd (auth_handle sha verify n q db)) =
      sess_spec sha (n_now n) q (fst (auth_handle sha verify n q db)) (sessions db)
    \<and> (\<forall>raw u t r w. q = RefreshReq raw \<longrightarrow> fst (auth_handle sha verify n q db) = Tokens200 u t r w \<longrightarrow>
        (\<exists>e. sessions db (sha raw) = Some (u, e) \<and> n_now n \<le> e))"
proof -
  have d: "distinct (map rt_hash (t_tokens db))" using assms by (auto simp: auth_wf_def)
  have "sessions (snd (auth_handle sha verify n q db)) =
      sess_spec sha (n_now n) q (fst (auth_handle sha verify n q db)) (sessions db)"
  proof (cases q)
    case (LoginReq un pw tn)
    then show ?thesis using login_sessions [OF assms] by (simp add: auth_handle_def sess_spec_def)
  next
    case (RefreshReq raw)
    then show ?thesis using refresh_sessions(1) [OF assms] by (simp add: auth_handle_def sess_spec_def)
  next
    case (LogoutReq c)
    then show ?thesis
      by (cases c) (simp_all add: auth_handle_def sess_spec_def logout_def sessions_revoke_all [OF d])
  next
    case (ChangeReq cur new uid t)
    show ?thesis
    proof (cases rule: change_cases [of verify "n_hash n" "n_now n" cur new uid t db])
      case (rejected r)
      then show ?thesis by (cases r) (simp_all add: ChangeReq auth_handle_def sess_spec_def)
    next
      case (wrong u)
      then show ?thesis by (simp add: ChangeReq auth_handle_def sess_spec_def)
    next
      case (changed u h)
      then show ?thesis
        using sessions_cong [OF commit_password_tables(2)]
        by (simp add: ChangeReq auth_handle_def sess_spec_def sessions_revoke_all [OF d])
    qed
  next
    case (RegisterReq un em pw rl tn)
    show ?thesis
      by (cases rule: register_cases [of True "n_hash n" "n_now n" "n_uid n" un em pw rl tn db])
        (simp_all add: RegisterReq auth_handle_def sess_spec_def)
  qed
  then show ?thesis using refresh_sessions(2) [OF assms] by (simp add: auth_handle_def) blast
qed

text \<open>
  The session protocol, over the open sessions and the hashes ever used: a step closes sessions
  and may open one under a hash that was never used.
\<close>

inductive sess_step :: "sessions \<times> string set \<Rightarrow> sessions \<times> string set \<Rightarrow> bool" where
  close_some: "s' \<subseteq>\<^sub>m s \<Longrightarrow> sess_step (s, U) (s', U)"
| open_fresh: "s' \<subseteq>\<^sub>m s \<Longrightarrow> h \<notin> U \<Longrightarrow> sess_step (s, U) (s'(h \<mapsto> x), insert h U)"

inductive_cases sess_stepE: "sess_step a b"

definition abs_sessions :: "time \<times> plat_db \<Rightarrow> sessions \<times> string set" where
  "abs_sessions s = (sessions (snd s), rt_hash ` set (t_tokens (snd s)))"

lemma token_change_sess_step:
  assumes "token_change db db'" "auth_wf db"
  shows "sess_step (abs_sessions (c, db)) (abs_sessions (c', db'))"
proof -
  have d: "distinct (map rt_hash (t_tokens db))" using assms(2) by (simp add: auth_wf_def)
  obtain p new where t: "t_tokens db' = t_tokens (revoke_where p db) @ new"
    "new = [] \<or> (\<exists>t. new = [t] \<and> rt_hash t \<notin> rt_hash ` set (t_tokens db) \<and> \<not> rt_revoked t)"
    using assms(1) unfolding token_change_def revoke_where_def by auto
  have sub: "sessions (revoke_where p db) \<subseteq>\<^sub>m sessions db"
    by (auto simp: map_le_def sessions_revoke [OF d] sessions_alt [OF d] split: option.splits if_splits)
  have hs: "rt_hash ` set (t_tokens (revoke_where p db)) = rt_hash ` set (t_tokens db)"
    by (simp add: revoke_where_def image_update_where)
  from t(2) show ?thesis
  proof
    assume "new = []"
    then have tok: "t_tokens db' = t_tokens (revoke_where p db)" using t(1) by simp
    show ?thesis
      unfolding abs_sessions_def snd_conv tok hs sessions_cong [OF tok] using sub by (rule close_some)
  next
    assume "\<exists>t. new = [t] \<and> rt_hash t \<notin> rt_hash ` set (t_tokens db) \<and> \<not> rt_revoked t"
    then obtain t' where n: "new = [t']" "rt_hash t' \<notin> rt_hash ` set (t_tokens db)" "\<not> rt_revoked t'" by blast
    have "List.find (\<lambda>t. rt_hash t = rt_hash t' \<and> \<not> rt_revoked t) (t_tokens (revoke_where p db)) = None"
      using n(2) by (auto simp: find_None_iff image_iff revoke_where_def set_update_where split: if_splits)
    then have "sessions db' = (sessions (revoke_where p db))(rt_hash t' \<mapsto> (rt_user t', rt_expires t'))"
      using t(1) n by (auto simp: sessions_def fun_eq_iff find_append split: option.split)
    then show ?thesis
      using open_fresh [OF sub n(2)] t(1) n(1) hs by (simp add: abs_sessions_def)
  qed
qed

interpretation token_system: forward_simulation "\<lambda>s. s = s0 \<and> auth_wf (snd s)" "auth_step sha verify allowed"
  "\<lambda>s. auth_wf (snd s)" "\<lambda>a. a = abs_sessions s0" sess_step abs_sessions
  for s0 sha verify allowed
proof unfold_locales
  fix s t
  show "auth_step sha verify allowed s t \<Longrightarrow> auth_wf (snd s) \<Longrightarrow> auth_wf (snd t)"
    by (erule auth_stepE) (simp add: handle_wf)
  show "auth_wf (snd s) \<Longrightarrow> auth_step sha verify allowed s t \<Longrightarrow> sess_step (abs_sessions s) (abs_sessions t)"
    by (erule auth_stepE) (simp add: token_change_sess_step handle_tokens)
qed simp_all

lemma dead_hash_stays:
  assumes "reach (\<lambda>a. a = a0) sess_step a" "h \<in> snd a0" "fst a0 h = None"
  shows "h \<in> snd a \<and> fst a h = None"
  using assms
proof (induction rule: reach.induct)
  case (reach_step s t)
  then have s: "h \<in> snd s" "fst s h = None" by auto
  have sub: "f h = None" if "f \<subseteq>\<^sub>m g" "g h = None" for f g :: sessions
    using that by (metis domIff map_le_def)
  from reach_step.hyps(2) show ?case by cases (use s sub in auto)
qed simp

lemma token_change_hashes:
  "token_change db db' \<Longrightarrow> rt_hash ` set (t_tokens db) \<subseteq> rt_hash ` set (t_tokens db')"
  by (auto simp: token_change_def image_Un image_update_where simp del: image_eqI)

lemma sessions_used: "sessions db h = Some x \<Longrightarrow> h \<in> rt_hash ` set (t_tokens db)"
  by (auto simp: sessions_def image_iff dest!: find_SomeD)

text \<open>A token whose hash was used and has no open session is refused for ever.\<close>

lemma dead_token_refused:
  assumes "auth_wf db" "sha raw \<in> rt_hash ` set (t_tokens db)" "sessions db (sha raw) = None"
    and "reach (\<lambda>s. s = (c, db)) (auth_step sha verify allowed) (c', db')"
  shows "refresh sha now tid newRaw raw db' = (Unauthorized401 None, db')"
proof -
  have r: "reach (\<lambda>s. s = (c, db) \<and> auth_wf (snd s)) (auth_step sha verify allowed) (c', db')"
    using assms(4) assms(1) by (induction rule: reach.induct) (auto intro: reach.intros)
  have wf: "auth_wf db'" using token_system.reach_inv [OF r] by simp
  have "reach (\<lambda>a. a = abs_sessions (c, db)) sess_step (abs_sessions (c', db'))"
    using token_system.refines [OF r] .
  from dead_hash_stays [OF this, of "sha raw"] assms(2,3) have "sessions db' (sha raw) = None"
    by (simp add: abs_sessions_def)
  then have "live_token sha raw db' = None" using live_token_sessions(1) [OF wf] by simp
  then show ?thesis by (simp add: refresh_def)
qed

text \<open>
  C39: Refresh tokens are for a single use. Once a refresh token has been exchanged, presenting it
  again is refused in every later state, whatever requests of whatever users come in between; the
  second presentation changes nothing.\<close>

theorem refresh_single_use:
  assumes r: "reach auth_init (auth_step sha verify allowed) (c, db)"
    and ok: "refresh sha now tid newRaw raw db = (Tokens200 u t r w, db1)"
    and later: "reach (\<lambda>s. s = (now, db1)) (auth_step sha verify allowed) (c2, db2)"
  shows "refresh sha now2 tid2 newRaw2 raw db2 = (Unauthorized401 None, db2)"
proof -
  have wf: "auth_wf db" using auth.reach_inv [OF r] by simp
  define n where "n = \<lparr>n_now = now, n_aid = [], n_tid = tid, n_raw = newRaw, n_uid = [], n_hash = None\<rparr>"
  have h: "auth_handle sha verify n (RefreshReq raw) db = (Tokens200 u t r w, db1)"
    using ok by (simp add: n_def auth_handle_def)
  have wf1: "auth_wf db1" using handle_wf [OF wf, of sha verify n "RefreshReq raw"] h by simp
  obtain e where e: "sessions db (sha raw) = Some (u, e)" "w = newRaw"
    using refresh_sessions(2) [OF wf, of sha now tid newRaw raw] ok by auto
  then have used: "sha raw \<in> rt_hash ` set (t_tokens db)"
    by (intro sessions_used)
  have "token_change db db1" using handle_tokens [of db sha verify n "RefreshReq raw"] h by simp
  then have used1: "sha raw \<in> rt_hash ` set (t_tokens db1)"
    using used token_change_hashes by blast
  have "sha newRaw \<notin> rt_hash ` set (t_tokens db)"
    using ok by (cases rule: refresh_cases [of sha raw db now tid newRaw])
      (auto simp: issue_def revoke_where_def image_update_where dest!: storeRefreshToken_Some split: option.splits)
  then have "sha raw \<noteq> sha newRaw" using used by metis
  moreover have "sessions db1 = (sessions db)(sha raw := None, sha newRaw \<mapsto> (u, now + 30 * 86400000))"
    using refresh_sessions(1) [OF wf, of sha now tid newRaw raw] ok e(2) by simp
  ultimately have "sessions db1 (sha raw) = None" by simp
  from dead_token_refused [OF wf1 used1 this later] show ?thesis .
qed

text \<open>
  Logging out, and changing the password, end all sessions of the user for good: every refresh
  token the user held is refused in every later state. (Access tokens already issued are not
  affected: they are checked by signature and expiry only.)\<close>

theorem logout_ends_sessions:
  assumes r: "reach auth_init (auth_step sha verify allowed) (c, db)"
    and q: "q = LogoutReq (Some u) \<and> u \<noteq> [] \<or> (\<exists>cur new tn. q = ChangeReq cur new u tn \<and> fst (auth_handle sha verify n q db) = Ok200_password)"
    and held: "\<exists>t \<in> set (t_tokens db). rt_user t = u \<and> rt_hash t = sha raw"
    and later: "reach (\<lambda>s. s = (n_now n, snd (auth_handle sha verify n q db))) (auth_step sha verify allowed) (c2, db2)"
  shows "refresh sha now tid newRaw raw db2 = (Unauthorized401 None, db2)"
proof -
  have wf: "auth_wf db" using auth.reach_inv [OF r] by simp
  have d: "distinct (map rt_hash (t_tokens db))" using wf by (simp add: auth_wf_def)
  let ?db1 = "snd (auth_handle sha verify n q db)"
  have s: "sessions ?db1 = close_sessions u (sessions db)"
    using tokens_refine_sessions [OF wf, of sha verify n q] q
    by (auto simp: sess_spec_def auth_handle_def logout_def)
  obtain t where t: "t \<in> set (t_tokens db)" "rt_user t = u" "rt_hash t = sha raw" using held by blast
  then have "List.find (\<lambda>t. rt_hash t = sha raw) (t_tokens db) = Some t"
    using find_distinct_key [OF d] by metis
  then have "sessions ?db1 (sha raw) = None"
    using t by (simp add: s close_sessions_def sessions_alt [OF d])
  moreover have "sha raw \<in> rt_hash ` set (t_tokens ?db1)"
    using t(1,3) token_change_hashes [OF handle_tokens [of db sha verify n q]] by (metis imageI subsetD)
  ultimately show ?thesis using dead_token_refused [OF handle_wf [OF wf] _ _ later] by blast
qed

subsection \<open>Outcomes\<close>

text \<open>
  The outcome of a login, in every case. An unknown name gets a plain 401 and a running lock
  the 423, both without effect. Otherwise the count restarts at zero after an expired lock; a wrong
  password raises it and answers with the attempts left, and from the fifth on locks the account;
  the right password clears counter and lock and answers with tokens; if argon2 throws, the answer
  is a 500. Wrong passwords touch no token.\<close>

theorem login_outcome:
  fixes sha verify now aid tid raw un pw tn
  assumes wf: "auth_wf db"
  defines "f \<equiv> List.find (\<lambda>u. u_name u = un \<and> u_tenant u = tn) (t_users db)"
    and "l \<equiv> login sha verify now aid tid raw un pw tn db"
  shows "(f = None \<longrightarrow> l = (Unauthorized401 None, db))
    \<and> (\<forall>x. f = Some x \<longrightarrow> lock_active now x \<longrightarrow> l = (Locked423 (the (u_locked_until x)), db))
    \<and> (\<forall>x. f = Some x \<longrightarrow> \<not> lock_active now x \<longrightarrow> verify (u_hash x) pw = None \<longrightarrow> fst l = Error500)
    \<and> (\<forall>x. f = Some x \<longrightarrow> \<not> lock_active now x \<longrightarrow> verify (u_hash x) pw = Some False \<longrightarrow>
        fst l = (if counted x < 4 then Unauthorized401 (Some (4 - counted x)) else Locked423 (now + lock_duration (counted x + 1)))
        \<and> t_tokens (snd l) = t_tokens db
        \<and> map_option (\<lambda>y. (u_failed y, u_locked y)) (find_user (snd l) (u_id x)) = Some (counted x + 1, 4 \<le> counted x))
    \<and> (\<forall>x. f = Some x \<longrightarrow> \<not> lock_active now x \<longrightarrow> verify (u_hash x) pw = Some True \<longrightarrow>
        tid \<notin> rt_id ` set (t_tokens db) \<longrightarrow> sha raw \<notin> rt_hash ` set (t_tokens db) \<longrightarrow>
        fst l = Tokens200 (u_id x) tn (u_role x) raw
        \<and> map_option (\<lambda>y. (u_failed y, u_locked y, u_last_login y)) (find_user (snd l) (u_id x)) = Some (0, False, Some now))"
proof (cases rule: login_start_cases [of now un tn db])
  case (verifying x)
  let ?F = "start_reset now x"
  let ?db1 = "update_user (u_id x) ?F db"
  have l: "l = login_rest sha verify now aid tid raw pw x ?db1" and f: "f = Some x"
    using verifying by (simp_all add: l_def f_def login_def)
  have x: "find_user db (u_id x) = Some x" "u_tenant x = tn"
    using wf find_SomeD [OF verifying(2)] by (simp_all add: auth_wf_def find_user_iff)
  have y: "find_user ?db1 (u_id x) = Some (?F x)" "u_failed (?F x) = counted x" "u_locked (?F x) = False"
    using x(1) by (simp_all add: find_user_update start_reset_def counted_def)
  have wrong: "fst l = (if counted x < 4 then Unauthorized401 (Some (4 - counted x)) else Locked423 (now + lock_duration (counted x + 1)))
      \<and> t_tokens (snd l) = t_tokens db
      \<and> map_option (\<lambda>y. (u_failed y, u_locked y)) (find_user (snd l) (u_id x)) = Some (counted x + 1, 4 \<le> counted x)"
    if v: "verify (u_hash x) pw = Some False"
  proof -
    note m = login_rest_mismatch [where verify = verify and pw = pw and u = x, OF v y(1), of sha now aid tid raw]
    have "find_user (snd l) (u_id x) = Some (rest_fun now (Some False) (counted x + 1) (?F x))"
      using find_user_cong_update [OF m(2)] y by (simp add: l)
    then show ?thesis using m(1,3) y by (auto simp: l rest_fun_def)
  qed
  have right: "fst l = Tokens200 (u_id x) tn (u_role x) raw
      \<and> map_option (\<lambda>y. (u_failed y, u_locked y, u_last_login y)) (find_user (snd l) (u_id x)) = Some (0, False, Some now)"
    if v: "verify (u_hash x) pw = Some True" "tid \<notin> rt_id ` set (t_tokens db)" "sha raw \<notin> rt_hash ` set (t_tokens db)"
  proof -
    let ?db2 = "update_user (u_id x) (rest_fun now (Some True) 0) ?db1"
    have f2: "find_user ?db2 (u_id x) = Some (rest_fun now (Some True) 0 (?F x))"
      using find_user_update [of "rest_fun now (Some True) 0" "u_id x" ?db1 "u_id x"] y(1) by simp
    then have "storeRefreshToken sha now tid (u_id x) raw ?db2 \<noteq> None"
      using v by (auto simp: storeRefreshToken_def list_ex_iff image_iff)
    then obtain db3 where db3: "storeRefreshToken sha now tid (u_id x) raw ?db2 = Some db3" by blast
    have "l = (Tokens200 (u_id x) (u_tenant x) (u_role x) raw, db3)"
      by (simp add: l login_rest_match [where verify = verify and pw = pw and u = x and k = 0, OF v(1)] issue_def db3)
    moreover have "find_user db3 (u_id x) = Some (rest_fun now (Some True) 0 (?F x))"
      using storeRefreshToken_Some [OF db3] f2 by auto
    ultimately show ?thesis using x(2) by (simp add: rest_fun_def)
  qed
  have "verify (u_hash x) pw = None \<Longrightarrow> fst l = Error500" by (simp add: l login_rest_def login_check_def)
  with wrong right f verifying(3) show ?thesis by auto
qed (simp_all add: l_def f_def login_def)

text \<open>The delay before the password check grows to its cap at the seventh failure.\<close>

lemma bruteForceDelay_bounds: "0 \<le> bruteForceDelay n" "bruteForceDelay n \<le> 10000" "7 \<le> n \<Longrightarrow> bruteForceDelay n = 10000"
proof -
  show "0 \<le> bruteForceDelay n" "bruteForceDelay n \<le> 10000" by (simp_all add: bruteForceDelay_def)
  assume "7 \<le> n"
  then have "(2::int) ^ 6 \<le> 2 ^ nat (n - 1)" by (intro power_increasing) auto
  then show "bruteForceDelay n = 10000" using \<open>7 \<le> n\<close> by (simp add: bruteForceDelay_def)
qed

text \<open>
  Registration creates an account exactly when it is enabled, the password has twelve
  characters of all four kinds, neither the name nor the address is taken in the tenant, and
  hashing works; the new user is the lowest client role, unlocked and without tenant scope, and
  nothing else changes. Every other answer leaves the database alone.\<close>

theorem registration_exact:
  fixes en nh now un em pw rl tn
  assumes "uid \<notin> u_id ` set (t_users db)"
  defines "ok \<equiv> en \<and> nh \<noteq> None \<and> 12 \<le> length pw \<and> (\<exists>c \<in> set pw. 65 \<le> code c \<and> code c \<le> 90) \<and> (\<exists>c \<in> set pw. 97 \<le> code c \<and> code c \<le> 122)
      \<and> (\<exists>c \<in> set pw. is_digit c)
      \<and> (\<exists>c \<in> set pw. \<not> (65 \<le> code c \<and> code c \<le> 90) \<and> \<not> (97 \<le> code c \<and> code c \<le> 122) \<and> \<not> is_digit c)
      \<and> (\<forall>u \<in> set (t_users db). u_tenant u = tn \<longrightarrow> u_name u \<noteq> un \<and> u_email u \<noteq> em)"
    and "r \<equiv> register en nh now uid un em pw rl tn db"
  shows "(fst r = Registered201 uid \<longleftrightarrow> ok)
    \<and> (ok \<longrightarrow> snd r = db\<lparr>t_users := t_users db @ [new_user now uid un em (the nh) rl tn]\<rparr>
        \<and> u_plane (new_user now uid un em (the nh) rl tn) = Client
        \<and> u_plane_role (new_user now uid un em (the nh) rl tn) = ''client_partner''
        \<and> u_scope (new_user now uid un em (the nh) rl tn) = None)
    \<and> (\<not> ok \<longrightarrow> snd r = db)"
proof -
  have strong: "validatePasswordStrength pw = None \<longleftrightarrow> 12 \<le> length pw \<and> (\<exists>c \<in> set pw. 65 \<le> code c \<and> code c \<le> 90)
      \<and> (\<exists>c \<in> set pw. 97 \<le> code c \<and> code c \<le> 122) \<and> (\<exists>c \<in> set pw. is_digit c)
      \<and> (\<exists>c \<in> set pw. \<not> (65 \<le> code c \<and> code c \<le> 90) \<and> \<not> (97 \<le> code c \<and> code c \<le> 122) \<and> \<not> is_digit c)"
    by (simp add: validatePasswordStrength_def list_ex_iff not_less)
  show ?thesis
  proof (cases rule: register_cases [of en nh now uid un em pw rl tn db])
    case (rejected a)
    have "\<not> ok"
      using rejected assms(1) strong
      by (auto simp: ok_def r_def register_def list_ex_iff find_user_None_iff split: option.splits if_splits)
    then show ?thesis using rejected by (simp add: r_def)
  next
    case (created h)
    then have "ok" using strong by (auto simp: ok_def)
    then show ?thesis using created by (simp add: r_def new_user_def)
  qed
qed

subsection \<open>API keys\<close>

text \<open>
  A request is let through as a tenant only with a key whose twelve-character prefix belongs
  to an account that is not suspended and whose hash the key verifies; it then carries that
  account's tenant and tier and never a user. Requests without a key pass unchanged.\<close>

theorem api_key_auth_sound:
  assumes ok: "apiKeyAuthMiddleware verify db req = Inr req'"
  shows "req' = req \<and> (\<forall>a. h_authorization req = Some a \<longrightarrow> \<not> starts_with ''Bearer aitw_'' a)
    \<or> (\<exists>a k. h_authorization req = Some a \<and> k \<in> set (t_accounts db) \<and> ka_status k \<noteq> ''suspended''
        \<and> ka_prefix k = take 12 (trim (drop 7 a)) \<and> verify (ka_hash k) (trim (drop 7 a)) = Some True \<and> 16 \<le> length (trim (drop 7 a))
        \<and> caas_tenant req' = Some (ka_tenant k) \<and> h_tier req' = Some (ka_tier k) \<and> caas_user req' = caas_user req)"
proof (cases "h_authorization req")
  case None
  with ok show ?thesis by (simp add: apiKeyAuthMiddleware_def)
next
  case (Some a)
  let ?key = "trim (drop 7 a)"
  show ?thesis
  proof (cases "starts_with ''Bearer aitw_'' a")
    case False
    with ok Some show ?thesis by (simp add: apiKeyAuthMiddleware_def API_KEY_SENTINEL_def)
  next
    case True
    with ok Some have len: "\<not> length ?key < 16"
      by (auto simp: apiKeyAuthMiddleware_def API_KEY_SENTINEL_def API_KEY_PREFIX_LENGTH_def Let_def)
    with True ok Some obtain k where
      k: "List.find (\<lambda>k. ka_prefix k = take 12 ?key \<and> ka_status k \<noteq> ''suspended'') (t_accounts db) = Some k"
      by (auto simp: apiKeyAuthMiddleware_def API_KEY_SENTINEL_def API_KEY_PREFIX_LENGTH_def Let_def split: option.splits)
    from True ok Some len k find_SomeD [OF k] show ?thesis
      by (auto simp: apiKeyAuthMiddleware_def API_KEY_SENTINEL_def API_KEY_PREFIX_LENGTH_def Let_def
          split: option.splits bool.splits)
  qed
qed

text \<open>
  The documented chain of API key check, access token check and tenant check rejects every API
  key. The token check does not look at what the key check found but verifies the header as a JSON
  Web Token, and a token without a dot is malformed: a request with a valid key ends in a 401.\<close>

theorem api_key_chain_rejects:
  assumes malformed: "\<And>tok. CHR ''.'' \<notin> set tok \<Longrightarrow> jwt tok = JwtInvalid"
    and key: "h_authorization req = Some (''Bearer aitw_'' @ k)" "CHR ''.'' \<notin> set k"
    and ok: "apiKeyAuthMiddleware verify db req = Inr req'"
  shows "requireAccessToken jwt req' = Inl InvalidToken"
proof -
  have "h_authorization req' = h_authorization req"
    using ok by (auto simp: apiKeyAuthMiddleware_def Let_def split: option.splits if_splits bool.splits)
  moreover have "jwt (''aitw_'' @ k) = JwtInvalid" using key(2) by (intro malformed) simp
  ultimately show ?thesis using key(1) by (simp add: requireAccessToken_def starts_with_def)
qed

subsection \<open>Witnesses\<close>

definition demo_verify :: "string \<Rightarrow> string \<Rightarrow> bool option" where
  "demo_verify h p = Some (p = ''pw'')"

definition demo_auth_db :: plat_db where
  "demo_auth_db = demo_plat\<lparr>t_users := [demo_user]\<rparr>"

lemma demo_auth_simps:
  "find_user demo_auth_db ''u1'' = Some demo_user" "t_users demo_auth_db = [demo_user]" "t_tokens demo_auth_db = []"
  "auth_wf demo_auth_db" "auth_init (0, demo_auth_db)"
  by (simp_all add: demo_auth_db_def demo_plat_def demo_user_def find_user_def auth_wf_def auth_init_def)

lemma demo_user_simps:
  "u_id demo_user = ''u1''" "u_failed demo_user = 0" "\<not> u_locked demo_user" "u_name demo_user = ''ann''"
  "u_tenant demo_user = ''t''" "u_role demo_user = ''Partner''" "u_hash demo_user = ''h''"
  by (simp_all add: demo_user_def)

lemma demo_auth_reach: "reach auth_init (auth_step sha verify allowed) (0, demo_auth_db)"
  by (intro reach_init) (simp add: demo_auth_simps)

theorem hard_lockout_unreachable_witness:
  "u_failed demo_user \<le> 5"
  using hard_lockout_unreachable [OF demo_auth_reach order_refl, of id demo_verify]
  by (simp add: demo_auth_simps)

theorem in_flight_logins_bypass_lock_witness:
  "\<exists>db'. snd (race id demo_verify ''x'' demo_user [(1, ''a''), (1, ''b''), (1, ''c''), (1, ''d''), (1, ''e'')] demo_auth_db) = db'
    \<and> fst (login_rest id demo_verify 2 ''x'' ''t1'' ''r1'' ''pw'' demo_user db') = Tokens200 ''u1'' ''t'' ''Partner'' ''r1''"
  using in_flight_logins_bypass_lock [of demo_auth_db demo_user demo_user "[(1, ''a''), (1, ''b''), (1, ''c''), (1, ''d''), (1, ''e'')]"
      demo_verify "''pw''" "''t1''" id "''r1''" "''x''" 2]
  by (simp add: demo_user_simps demo_auth_simps demo_verify_def) blast

theorem change_password_guesses_unlimited_witness:
  "fst (login id demo_verify 2 ''x'' ''t1'' ''r1'' ''ann'' ''wrong'' ''t''
      (snd (failed_changes demo_verify ''u1'' ''Abcdefghij1!'' (replicate 9 (1, ''bad'')) demo_auth_db))) = Locked423 (2 + 86400000)"
  using change_password_guesses_unlimited [of "''Abcdefghij1!''" demo_auth_db "''u1''" demo_user "replicate 9 (1, ''bad'')"
      demo_verify "''wrong''" id 2 "''x''" "''t1''" "''r1''"]
  by (simp add: demo_user_simps demo_auth_simps demo_verify_def validatePasswordStrength_def is_digit_def)

definition demo_nonce :: nonce where
  "demo_nonce = \<lparr>n_now = 1, n_aid = ''x'', n_tid = ''t1'', n_raw = ''r1'', n_uid = ''u9'', n_hash = None\<rparr>"

theorem tokens_refine_sessions_witness:
  "sessions (snd (auth_handle id demo_verify demo_nonce (LogoutReq (Some ''u1'')) demo_auth_db)) = close_sessions ''u1'' (sessions demo_auth_db)"
  using tokens_refine_sessions [OF demo_auth_simps(4), of id demo_verify demo_nonce "LogoutReq (Some ''u1'')"]
  by (simp add: sess_spec_def auth_handle_def logout_def)

definition demo_token :: refresh_token where
  "demo_token = \<lparr>rt_id = ''t0'', rt_user = ''u1'', rt_hash = ''r0'', rt_expires = 100, rt_revoked = False, rt_created = 0\<rparr>"

definition demo_token_db :: plat_db where
  "demo_token_db = demo_auth_db\<lparr>t_tokens := [demo_token]\<rparr>"

lemma demo_token_reach: "reach auth_init (auth_step sha verify allowed) (0, demo_token_db)"
  by (intro reach_init) (simp add: demo_token_db_def demo_auth_db_def demo_plat_def demo_user_def demo_token_def auth_wf_def auth_init_def)

lemma demo_token_simps:
  "t_tokens demo_token_db = [demo_token]" "t_users demo_token_db = [demo_user]" "find_user demo_token_db j = find_user demo_auth_db j"
  by (simp_all add: demo_token_db_def demo_auth_simps)

lemma demo_refresh: "\<exists>db1. refresh id 1 ''t1'' ''r1'' ''r0'' demo_token_db = (Tokens200 ''u1'' ''t'' ''Partner'' ''r1'', db1)"
  by (simp add: refresh_def live_token_def demo_token_simps demo_auth_simps demo_token_def lock_active_def demo_user_simps
      issue_def storeRefreshToken_def revoke_where_def)

theorem refresh_single_use_witness:
  "\<exists>db1. refresh id 1 ''t1'' ''r1'' ''r0'' demo_token_db = (Tokens200 ''u1'' ''t'' ''Partner'' ''r1'', db1)
     \<and> refresh id 2 ''t2'' ''r2'' ''r0'' db1 = (Unauthorized401 None, db1)"
proof -
  obtain db1 where r: "refresh id 1 ''t1'' ''r1'' ''r0'' demo_token_db = (Tokens200 ''u1'' ''t'' ''Partner'' ''r1'', db1)"
    using demo_refresh by blast
  have "reach (\<lambda>s. s = (1, db1)) (auth_step id demo_verify (\<lambda>_. True)) (1, db1)" by (intro reach_init) simp
  from refresh_single_use [OF demo_token_reach r this] r show ?thesis by blast
qed

theorem logout_ends_sessions_witness:
  "fst (refresh id 2 ''t2'' ''r2'' ''r0'' (snd (auth_handle id demo_verify demo_nonce (LogoutReq (Some ''u1'')) demo_token_db))) = Unauthorized401 None"
proof -
  let ?db2 = "snd (auth_handle id demo_verify demo_nonce (LogoutReq (Some ''u1'')) demo_token_db)"
  have later: "reach (\<lambda>s. s = (n_now demo_nonce, ?db2)) (auth_step id demo_verify (\<lambda>_. True)) (1, ?db2)"
    by (intro reach_init) (simp add: demo_nonce_def)
  have "\<exists>t \<in> set (t_tokens demo_token_db). rt_user t = ''u1'' \<and> rt_hash t = id ''r0''"
    by (simp add: demo_token_simps demo_token_def)
  from logout_ends_sessions [OF demo_token_reach _ this later] show ?thesis by simp
qed

theorem login_outcome_witness:
  "fst (login id demo_verify 1 ''x'' ''t1'' ''r1'' ''ann'' ''bad'' ''t'' demo_auth_db) = Unauthorized401 (Some 4)"
  using login_outcome [OF demo_auth_simps(4), of "''ann''" "''t''" id demo_verify 1 "''x''" "''t1''" "''r1''" "''bad''"]
  by (simp add: demo_auth_simps demo_user_simps demo_verify_def lock_active_def counted_def)

theorem registration_exact_witness:
  "fst (register True (Some ''h2'') 1 ''u9'' ''bob'' ''b@x'' ''Abcdefghij1!'' ''Partner'' ''t'' demo_auth_db) = Registered201 ''u9''"
  using registration_exact [where uid = "''u9''" and db = demo_auth_db and en = True and nh = "Some ''h2''"
      and pw = "''Abcdefghij1!''" and tn = "''t''" and un = "''bob''" and em = "''b@x''" and now = 1 and rl = "''Partner''"]
  by (simp add: demo_auth_simps demo_user_simps is_digit_def) (simp add: demo_user_def)

definition demo_request :: request where
  "demo_request = \<lparr>r_method = ''GET'', r_path = ''/'', h_authorization = Some ''Bearer aitw_abcdefghijklm'', h_tenant_id = None,
     h_forwarded_for = None, h_user_agent = None, h_request_id = None, h_tier = None, r_remote = None, caas_user = None,
     caas_tenant = None, caas_role = None, caas_auth_method = None, caas_api_tier = None\<rparr>"

definition demo_key_db :: plat_db where
  "demo_key_db = demo_plat\<lparr>t_accounts := [\<lparr>ka_tenant = ''t'', ka_tier = ''LITE'', ka_status = ''active'',
     ka_hash = ''kh'', ka_prefix = ''aitw_abcdefg''\<rparr>]\<rparr>"

lemma demo_key_ok: "\<exists>r. apiKeyAuthMiddleware (\<lambda>_ _. Some True) demo_key_db demo_request = Inr r \<and> caas_tenant r = Some ''t''"
  by (simp add: apiKeyAuthMiddleware_def demo_key_db_def demo_plat_def demo_request_def API_KEY_SENTINEL_def
      API_KEY_PREFIX_LENGTH_def starts_with_def trim_def is_space_def)

theorem api_key_auth_sound_witness:
  "\<exists>k \<in> set (t_accounts demo_key_db). ka_status k \<noteq> ''suspended'' \<and> ka_prefix k = ''aitw_abcdefg''"
proof -
  obtain r where "apiKeyAuthMiddleware (\<lambda>_ _. Some True) demo_key_db demo_request = Inr r" using demo_key_ok by blast
  from api_key_auth_sound [OF this] show ?thesis
    by (auto simp: demo_request_def starts_with_def trim_def is_space_def)
qed

theorem api_key_chain_rejects_witness:
  "\<exists>r. apiKeyAuthMiddleware (\<lambda>_ _. Some True) demo_key_db demo_request = Inr r
     \<and> requireAccessToken (\<lambda>t. if CHR ''.'' \<in> set t then JwtOk None None None else JwtInvalid) r = Inl InvalidToken"
proof -
  obtain r where r: "apiKeyAuthMiddleware (\<lambda>_ _. Some True) demo_key_db demo_request = Inr r" using demo_key_ok by blast
  have "requireAccessToken (\<lambda>t. if CHR ''.'' \<in> set t then JwtOk None None None else JwtInvalid) r = Inl InvalidToken"
    by (rule api_key_chain_rejects [OF _ _ _ r, of _ "''abcdefghijklm''"]) (simp_all add: demo_request_def)
  with r show ?thesis by blast
qed

end
