(* ===== verification/DualPlane.thy ===== *)
theory DualPlane
  imports Auth JsValue
begin

section \<open>The dual-plane guards\<close>

text \<open>
  The model of src/middleware/dualPlaneAuth.ts with the roles of src/db/migrations/phase12_roles.ts,
  and of the routes that mount the guards (src/app.ts, src/routes/admin.ts,
  src/routes/regulatoryIngest.ts). A guard takes a request and returns what it does with it and the
  new state. The rows the guard writes into \<open>anomaly_logs\<close> are kept apart from those of the
  anomaly engine, in \<open>ps_bursts\<close>: the two statements name different columns. A TypeError in a
  middleware goes to Express and ends in a 500. The dash of one message is written as such.
\<close>

definition BUSINESS_PLANE_ROLES :: "string list" where
  "BUSINESS_PLANE_ROLES = [''global_super_admin'', ''platform_auditor'', ''platform_finance'', ''platform_ops'',
     ''platform_support'']"

definition CLIENT_PLANE_ROLES :: "string list" where
  "CLIENT_PLANE_ROLES = [''client_super_admin'', ''client_executive'', ''client_auditor'', ''client_finance'',
     ''client_partner'']"

record principal =
  pr_user :: string
  pr_name :: string
  pr_plane :: control_plane
  pr_role :: string
  pr_scope :: "string option"
  pr_legacy :: string
  pr_tenant :: "string option"

record requirement =
  rq_plane :: "control_plane option"
  rq_roles :: "string list option"
  rq_business :: "string list option"
  rq_client :: "string list option"
  rq_isolation :: "bool option"
  rq_label :: "string option"

record capabilities =
  can_read_all_tenants :: bool
  can_write_all_tenants :: bool
  can_manage_users :: bool
  can_manage_billing :: bool
  can_trigger_backup :: bool
  can_view_metrics :: bool
  can_manage_platform :: bool
  can_read_own_tenant :: bool
  can_write_own_tenant :: bool
  can_read_own_profile :: bool

definition PLANE_ROLE_CAPABILITIES :: "(string \<times> capabilities) list" where
  "PLANE_ROLE_CAPABILITIES = [
    (''global_super_admin'',
      \<lparr>can_read_all_tenants = True, can_write_all_tenants = True, can_manage_users = True, can_manage_billing = True,
       can_trigger_backup = True, can_view_metrics = True, can_manage_platform = True, can_read_own_tenant = True,
       can_write_own_tenant = True, can_read_own_profile = True\<rparr>),
    (''platform_auditor'',
      \<lparr>can_read_all_tenants = True, can_write_all_tenants = False, can_manage_users = False, can_manage_billing = False,
       can_trigger_backup = False, can_view_metrics = True, can_manage_platform = False, can_read_own_tenant = True,
       can_write_own_tenant = False, can_read_own_profile = True\<rparr>),
    (''platform_finance'',
      \<lparr>can_read_all_tenants = True, can_write_all_tenants = False, can_manage_users = False, can_manage_billing = True,
       can_trigger_backup = False, can_view_metrics = True, can_manage_platform = False, can_read_own_tenant = True,
       can_write_own_tenant = False, can_read_own_profile = True\<rparr>),
    (''platform_ops'',
      \<lparr>can_read_all_tenants = True, can_write_all_tenants = False, can_manage_users = False, can_manage_billing = False,
       can_trigger_backup = True, can_view_metrics = True, can_manage_platform = True, can_read_own_tenant = True,
       can_write_own_tenant = False, can_read_own_profile = True\<rparr>),
    (''platform_support'',
      \<lparr>can_read_all_tenants = True, can_write_all_tenants = False, can_manage_users = False, can_manage_billing = False,
       can_trigger_backup = False, can_view_metrics = False, can_manage_platform = False, can_read_own_tenant = True,
       can_write_own_tenant = False, can_read_own_profile = True\<rparr>),
    (''client_super_admin'',
      \<lparr>can_read_all_tenants = False, can_write_all_tenants = False, can_manage_users = True, can_manage_billing = True,
       can_trigger_backup = False, can_view_metrics = True, can_manage_platform = False, can_read_own_tenant = True,
       can_write_own_tenant = True, can_read_own_profile = True\<rparr>),
    (''client_executive'',
      \<lparr>can_read_all_tenants = False, can_write_all_tenants = False, can_manage_users = False, can_manage_billing = True,
       can_trigger_backup = False, can_view_metrics = True, can_manage_platform = False, can_read_own_tenant = True,
       can_write_own_tenant = True, can_read_own_profile = True\<rparr>),
    (''client_auditor'',
      \<lparr>can_read_all_tenants = False, can_write_all_tenants = False, can_manage_users = False, can_manage_billing = False,
       can_trigger_backup = False, can_view_metrics = True, can_manage_platform = False, can_read_own_tenant = True,
       can_write_own_tenant = False, can_read_own_profile = True\<rparr>),
    (''client_finance'',
      \<lparr>can_read_all_tenants = False, can_write_all_tenants = False, can_manage_users = False, can_manage_billing = True,
       can_trigger_backup = False, can_view_metrics = False, can_manage_platform = False, can_read_own_tenant = True,
       can_write_own_tenant = False, can_read_own_profile = True\<rparr>),
    (''client_partner'',
      \<lparr>can_read_all_tenants = False, can_write_all_tenants = False, can_manage_users = False, can_manage_billing = False,
       can_trigger_backup = False, can_view_metrics = False, can_manage_platform = False, can_read_own_tenant = False,
       can_write_own_tenant = False, can_read_own_profile = True\<rparr>)]"

text \<open>
  \<open>PLANE_ROLE_CAPABILITIES[role]\<close> for a role read from the database, which may be any text. A name
  that plain objects inherit gives a value without these properties, that is with all of them falsy.
\<close>

definition no_capabilities :: capabilities where
  "no_capabilities = \<lparr>can_read_all_tenants = False, can_write_all_tenants = False, can_manage_users = False,
     can_manage_billing = False, can_trigger_backup = False, can_view_metrics = False, can_manage_platform = False,
     can_read_own_tenant = False, can_write_own_tenant = False, can_read_own_profile = False\<rparr>"

definition role_caps :: "string \<Rightarrow> capabilities option" where
  "role_caps r =
     (case map_of PLANE_ROLE_CAPABILITIES r of
        Some c \<Rightarrow> Some c
      | None \<Rightarrow> if object_inherited r = JUndef then None else Some no_capabilities)"

subsection \<open>Access metrics\<close>

record burst_row =
  br_tenant :: string
  br_user :: string
  br_score :: int
  br_count :: int
  br_resource :: string
  br_crossing :: bool
  br_violation :: bool
  br_created :: time

record plane_state =
  ps_db :: plat_db
  ps_bursts :: "burst_row list"

record metric_params =
  mp_principal :: "principal option"
  mp_resource :: string
  mp_plane :: "control_plane option"
  mp_roles :: "string list"
  mp_granted :: bool
  mp_reason :: "string option"
  mp_crossing :: bool
  mp_violation :: bool
  mp_elevation :: bool

text \<open>
  The columns of \<open>anomaly_logs\<close> (migration 6) with whether a value is required, and the columns the
  guard's INSERT names. Preparing an INSERT that names an unknown column throws; \<open>INSERT OR IGNORE\<close>
  skips a row without a required value.
\<close>

definition anomaly_logs_columns :: "(string \<times> bool) list" where
  "anomaly_logs_columns = [(''id'', False), (''entity_id'', True), (''entity_type'', True), (''tenant_id'', True),
     (''event_type'', True), (''observed_value'', True), (''risk_level'', True), (''score'', True),
     (''context_json'', False), (''lockout_applied'', False), (''lockout_until'', False),
     (''alert_dispatched'', False), (''created_at'', True)]"

definition burst_columns :: "string list" where
  "burst_columns = [''id'', ''tenant_id'', ''entity_id'', ''entity_type'', ''event_type'', ''risk_level'', ''score'',
     ''metadata_json'', ''lockout_applied'', ''lockout_until'', ''created_at'']"

datatype insert_outcome = NoSuchColumn | Ignored | Inserted

definition burst_insert :: insert_outcome where
  "burst_insert =
     (if \<not> list_all (\<lambda>c. c \<in> fst ` set anomaly_logs_columns) burst_columns then NoSuchColumn
      else if \<not> list_all (\<lambda>(c, req). req \<longrightarrow> c \<in> set burst_columns) anomaly_logs_columns then Ignored
      else Inserted)"

definition recent_denials :: "time \<Rightarrow> string \<Rightarrow> plat_db \<Rightarrow> nat" where
  "recent_denials now uid db =
     count_where (\<lambda>m. m_user_id m = uid \<and> \<not> m_granted m \<and> m_evaluated_at m \<ge> now - 3600000) (t_metrics db)"

definition plane_str :: "control_plane \<Rightarrow> string" where
  "plane_str p = (case p of Business \<Rightarrow> ''business'' | Client \<Rightarrow> ''client'')"

definition denial_count :: "time \<Rightarrow> metric_params \<Rightarrow> plat_db \<Rightarrow> int" where
  "denial_count now mp db =
     (case mp_principal mp of
        None \<Rightarrow> 0
      | Some p \<Rightarrow> if mp_granted mp then 0 else int (recent_denials now (pr_user p) db) + 1)"

definition metric_row :: "time \<Rightarrow> request \<Rightarrow> metric_params \<Rightarrow> plat_db \<Rightarrow> access_metric_row" where
  "metric_row now req mp db =
     (let p = mp_principal mp in
      \<lparr>m_user_id = (case p of None \<Rightarrow> ''anonymous'' | Some p \<Rightarrow> pr_user p),
       m_username = (case p of None \<Rightarrow> ''anonymous'' | Some p \<Rightarrow> pr_name p),
       m_plane = (case p of None \<Rightarrow> ''unknown'' | Some p \<Rightarrow> plane_str (pr_plane p)),
       m_plane_role = (case p of None \<Rightarrow> ''unknown'' | Some p \<Rightarrow> pr_role p),
       m_tenant = (case p of None \<Rightarrow> None | Some p \<Rightarrow> pr_tenant p),
       m_resource = mp_resource mp, m_method = r_method req, m_required_plane = mp_plane mp,
       m_required_roles = join_with '','' (mp_roles mp), m_granted = mp_granted mp, m_denial_reason = mp_reason mp,
       m_boundary_crossing = mp_crossing mp, m_tenant_violation = mp_violation mp,
       m_elevation_attempt = mp_elevation mp,
       m_ip = (case h_forwarded_for req of None \<Rightarrow> r_remote req | Some f \<Rightarrow> Some f),
       m_user_agent = h_user_agent req, m_request_id = h_request_id req, m_evaluated_at = now,
       m_denial_count_1h = denial_count now mp db\<rparr>)"

definition burst_of :: "time \<Rightarrow> metric_params \<Rightarrow> principal \<Rightarrow> int \<Rightarrow> burst_row" where
  "burst_of now mp p n =
     \<lparr>br_tenant = (case pr_tenant p of None \<Rightarrow> ''platform'' | Some t \<Rightarrow> t), br_user = pr_user p,
      br_score = min (40 + n * 5) 95, br_count = n, br_resource = mp_resource mp, br_crossing = mp_crossing mp,
      br_violation = mp_violation mp, br_created = now\<rparr>"

definition writeAccessMetric :: "time \<Rightarrow> request \<Rightarrow> metric_params \<Rightarrow> plane_state \<Rightarrow> plane_state" where
  "writeAccessMetric now req mp st =
     (let db = ps_db st;
          st1 = st\<lparr>ps_db := db\<lparr>t_metrics := t_metrics db @ [metric_row now req mp db]\<rparr>\<rparr>;
          n = denial_count now mp db
      in case mp_principal mp of
           None \<Rightarrow> st1
         | Some p \<Rightarrow>
             if n \<ge> 5 \<and> burst_insert = Inserted then st1\<lparr>ps_bursts := ps_bursts st @ [burst_of now mp p n]\<rparr>
             else st1)"

subsection \<open>Principal and boundary\<close>

definition principal_of :: "user_row \<Rightarrow> principal" where
  "principal_of u =
     \<lparr>pr_user = u_id u, pr_name = u_name u, pr_plane = u_plane u, pr_role = u_plane_role u, pr_scope = u_scope u,
      pr_legacy = u_role u, pr_tenant = Some (u_tenant u)\<rparr>"

definition resolvePrincipal :: "request \<Rightarrow> plat_db \<Rightarrow> principal option" where
  "resolvePrincipal req db =
     (case caas_user req of
        None \<Rightarrow> None
      | Some uid \<Rightarrow> if uid = [] then None else map_option principal_of (find_user db uid))"

record boundary_result =
  bo_granted :: bool
  bo_reason :: "string option"
  bo_crossing :: bool
  bo_violation :: bool
  bo_elevation :: bool

definition allowed_roles :: "requirement \<Rightarrow> string list" where
  "allowed_roles rq =
     (case rq_plane rq of
        Some _ \<Rightarrow> (case rq_roles rq of None \<Rightarrow> [] | Some rs \<Rightarrow> rs)
      | None \<Rightarrow> (case rq_business rq of None \<Rightarrow> [] | Some rs \<Rightarrow> rs) @ (case rq_client rq of None \<Rightarrow> [] | Some rs \<Rightarrow> rs))"

definition sensitive :: "capabilities \<Rightarrow> bool" where
  "sensitive c \<longleftrightarrow> can_write_all_tenants c \<or> can_manage_platform c \<or> can_trigger_backup c \<or> can_manage_users c"

definition lacks :: "capabilities \<Rightarrow> capabilities \<Rightarrow> bool" where
  "lacks u c \<longleftrightarrow>
     can_write_all_tenants c \<and> \<not> can_write_all_tenants u \<or> can_manage_platform c \<and> \<not> can_manage_platform u
     \<or> can_trigger_backup c \<and> \<not> can_trigger_backup u \<or> can_manage_users c \<and> \<not> can_manage_users u"

text \<open>\<open>userCapabilities\<close> is read only for a required role that has the capability.\<close>

definition is_elevation :: "capabilities option \<Rightarrow> capabilities list \<Rightarrow> bool throwing" where
  "is_elevation u cs =
     (case u of
        Some c \<Rightarrow> Inr (list_ex (lacks c) cs)
      | None \<Rightarrow> if list_ex sensitive cs then Inl TypeError else Inr False)"

definition plane_upper :: "control_plane \<Rightarrow> string" where
  "plane_upper p = to_upper (plane_str p)"

definition deny :: "string \<Rightarrow> bool \<Rightarrow> bool \<Rightarrow> bool \<Rightarrow> boundary_result" where
  "deny s x v e = \<lparr>bo_granted = False, bo_reason = Some s, bo_crossing = x, bo_violation = v, bo_elevation = e\<rparr>"

definition evaluateBoundary ::
  "principal \<Rightarrow> requirement \<Rightarrow> string option \<Rightarrow> boundary_result throwing" where
  "evaluateBoundary p rq requestTenant =
     (let allowed = allowed_roles rq
      in if rq_plane rq \<noteq> None \<and> rq_plane rq \<noteq> Some (pr_plane p) then
           Inr (deny (''Control plane mismatch: resource requires '' @ plane_upper (the (rq_plane rq))
             @ '' plane; user is on '' @ plane_upper (pr_plane p) @ '' plane.'') True False False)
         else if allowed \<noteq> [] \<and> pr_role p \<notin> set allowed then
           bind_t (is_elevation (role_caps (pr_role p)) (List.map_filter role_caps allowed)) (\<lambda>e.
             Inr (deny (''Insufficient role: required one of ['' @ join_with '', '' allowed @ '']; user has ''
               @ pr_role p @ ''.'') False False e))
         else if rq_isolation rq \<noteq> Some False \<and> pr_plane p = Client
             \<and> requestTenant \<noteq> None \<and> pr_scope p \<noteq> None \<and> pr_scope p \<noteq> requestTenant then
           Inr (deny (''Tenant isolation violation: user is scoped to '' @ the (pr_scope p)
             @ ''; request targets '' @ the requestTenant @ ''.'') False True False)
         else Inr \<lparr>bo_granted = True, bo_reason = None, bo_crossing = False, bo_violation = False, bo_elevation = False\<rparr>)"

subsection \<open>The guard\<close>

datatype guard_result =
  Unauthenticated401
| WriteDenied403 principal
| Denied403 principal boundary_result
| GuardError500
| Passed principal

definition required_roles :: "requirement \<Rightarrow> string list" where
  "required_roles rq = or_default [] (rq_roles rq) @ or_default [] (rq_business rq) @ or_default [] (rq_client rq)"

definition resource_label :: "requirement \<Rightarrow> request \<Rightarrow> string" where
  "resource_label rq req = or_default (r_method req @ '' '' @ r_path req) (rq_label rq)"

definition metric_of ::
  "requirement \<Rightarrow> request \<Rightarrow> principal option \<Rightarrow> boundary_result \<Rightarrow> metric_params" where
  "metric_of rq req p b =
     \<lparr>mp_principal = p, mp_resource = resource_label rq req, mp_plane = rq_plane rq, mp_roles = required_roles rq,
      mp_granted = bo_granted b, mp_reason = bo_reason b, mp_crossing = bo_crossing b, mp_violation = bo_violation b,
      mp_elevation = bo_elevation b\<rparr>"

definition mutating :: "string \<Rightarrow> bool" where
  "mutating m \<longleftrightarrow> m \<in> {''POST'', ''PUT'', ''PATCH'', ''DELETE''}"

text \<open>
  The write protection reads the capabilities of the role before it looks at the method: an unknown
  role throws here. None stands for the exception.
\<close>

definition write_blocked :: "principal \<Rightarrow> string \<Rightarrow> bool option" where
  "write_blocked p method =
     (if pr_plane p = Business \<and> pr_role p \<noteq> ''global_super_admin'' then
        (case role_caps (pr_role p) of
           None \<Rightarrow> None
         | Some c \<Rightarrow> Some (\<not> can_write_all_tenants c \<and> mutating method))
      else Some False)"

definition requireDualPlane ::
  "requirement \<Rightarrow> time \<Rightarrow> request \<Rightarrow> plane_state \<Rightarrow> guard_result \<times> plane_state" where
  "requireDualPlane rq now req st =
     (case resolvePrincipal req (ps_db st) of
        None \<Rightarrow>
          (Unauthenticated401, writeAccessMetric now req (metric_of rq req None
             (deny ''No authenticated principal found. JWT may be missing or invalid.'' False False False)) st)
      | Some p \<Rightarrow>
          (case evaluateBoundary p rq (h_tenant_id req) of
             Inl e \<Rightarrow> (GuardError500, st)
           | Inr b \<Rightarrow>
               if \<not> bo_granted b then
                 (Denied403 p b, writeAccessMetric now req (metric_of rq req (Some p) b) st)
               else
                 (case write_blocked p (r_method req) of
                    None \<Rightarrow> (GuardError500, st)
                  | Some True \<Rightarrow>
                      (WriteDenied403 p, writeAccessMetric now req (metric_of rq req (Some p)
                         (deny (''Business plane role '' @ pr_role p @ '' is read-only and cannot perform ''
                           @ r_method req @ '' operations on client data.'') False False True)) st)
                  | Some False \<Rightarrow>
                      (Passed p, writeAccessMetric now req (metric_of rq req (Some p) b) st))))"

subsection \<open>The convenience guards\<close>

definition any_requirement :: requirement where
  "any_requirement = \<lparr>rq_plane = None, rq_roles = None, rq_business = None, rq_client = None, rq_isolation = None, rq_label = None\<rparr>"

definition requireAnyPlane :: requirement where
  "requireAnyPlane = any_requirement\<lparr>rq_business := Some BUSINESS_PLANE_ROLES, rq_client := Some CLIENT_PLANE_ROLES,
     rq_label := Some ''any-plane-resource''\<rparr>"

definition requireBusinessPlane :: "string list option \<Rightarrow> requirement" where
  "requireBusinessPlane roles = any_requirement\<lparr>rq_plane := Some Business, rq_roles := Some (or_default BUSINESS_PLANE_ROLES roles)\<rparr>"

definition requireClientPlane :: "string list option \<Rightarrow> requirement" where
  "requireClientPlane roles = any_requirement\<lparr>rq_plane := Some Client, rq_roles := Some (or_default CLIENT_PLANE_ROLES roles),
     rq_isolation := Some True\<rparr>"

definition requireGlobalSuperAdmin :: requirement where
  "requireGlobalSuperAdmin = any_requirement\<lparr>rq_plane := Some Business, rq_roles := Some [''global_super_admin''],
     rq_label := Some ''global-super-admin-resource''\<rparr>"

definition requirePlatformOps :: requirement where
  "requirePlatformOps = any_requirement\<lparr>rq_plane := Some Business, rq_roles := Some [''global_super_admin'', ''platform_ops''],
     rq_label := Some ''platform-ops-resource''\<rparr>"

definition replicationGuard :: requirement where
  "replicationGuard = any_requirement\<lparr>rq_business := Some [''global_super_admin'', ''platform_ops''], rq_client := Some [],
     rq_label := Some ''db-replication-backup''\<rparr>"

definition injectPlaneContext :: "request \<Rightarrow> plane_state \<Rightarrow> principal option" where
  "injectPlaneContext req st = resolvePrincipal req (ps_db st)"

subsection \<open>Routes behind a guard\<close>

text \<open>
  A request as it arrives carries nothing of what the authentication middlewares attach. Express
  runs the middlewares of a route in order; only \<open>requireAccessToken\<close> sets the user.
\<close>

definition fresh_request :: "request \<Rightarrow> bool" where
  "fresh_request req \<longleftrightarrow> caas_user req = None \<and> caas_tenant req = None \<and> caas_role req = None
     \<and> caas_auth_method req = None \<and> caas_api_tier req = None"

datatype route_result = NoToken401 auth_reject | Guard guard_result

definition regulatory_route :: "time \<Rightarrow> request \<Rightarrow> plane_state \<Rightarrow> route_result \<times> plane_state" where
  "regulatory_route now req st = apfst Guard (requireDualPlane requireGlobalSuperAdmin now req st)"

definition access_metrics_route :: "time \<Rightarrow> request \<Rightarrow> plane_state \<Rightarrow> route_result \<times> plane_state" where
  "access_metrics_route now req st =
     apfst Guard (requireDualPlane (requireBusinessPlane (Some [''global_super_admin'', ''platform_auditor''])) now req st)"

definition recompute_all_route ::
  "(string \<Rightarrow> jwt_result) \<Rightarrow> time \<Rightarrow> request \<Rightarrow> plane_state \<Rightarrow> route_result \<times> plane_state" where
  "recompute_all_route jwt now req st =
     (case requireAccessToken jwt req of
        Inl e \<Rightarrow> (NoToken401 e, st)
      | Inr r \<Rightarrow> apfst Guard (requireDualPlane (requireBusinessPlane (Some [''global_super_admin''])) now r st))"

subsection \<open>The metrics summary\<close>

record metrics_summary =
  ms_total :: nat
  ms_granted :: "nat option"
  ms_denied :: "nat option"
  ms_crossings :: "nat option"
  ms_violations :: "nat option"
  ms_elevations :: "nat option"
  ms_users :: nat

text \<open>\<open>SUM\<close> over no rows is NULL.\<close>

definition sum_case :: "('a \<Rightarrow> bool) \<Rightarrow> 'a list \<Rightarrow> nat option" where
  "sum_case p rows = (if rows = [] then None else Some (count_where p rows))"

definition metrics_since :: "time \<Rightarrow> plat_db \<Rightarrow> access_metric_row list" where
  "metrics_since since db = filter (\<lambda>m. m_evaluated_at m \<ge> since) (t_metrics db)"

definition metrics_summary_of :: "access_metric_row list \<Rightarrow> metrics_summary" where
  "metrics_summary_of rows =
     \<lparr>ms_total = length rows, ms_granted = sum_case m_granted rows, ms_denied = sum_case (\<lambda>m. \<not> m_granted m) rows,
      ms_crossings = sum_case m_boundary_crossing rows, ms_violations = sum_case m_tenant_violation rows,
      ms_elevations = sum_case m_elevation_attempt rows, ms_users = length (remdups (map m_user_id rows))\<rparr>"

text \<open>
  The denials per user, most first, at most ten, with the time of the last one; groups with the
  same count come in the order of their first row here, in no particular order in SQL.
\<close>

definition top_denied :: "access_metric_row list \<Rightarrow> (string \<times> nat \<times> time) list" where
  "top_denied rows =
     (let ds = filter (\<lambda>m. \<not> m_granted m) rows;
          of_user = (\<lambda>u. filter (\<lambda>m. m_user_id m = u) ds)
      in take 10 (sort_key (\<lambda>(u, n, t). - int n)
           (map (\<lambda>u. (u, length (of_user u), Max (m_evaluated_at ` set (of_user u)))) (remdups (map m_user_id ds)))))"

definition plane_breakdown :: "access_metric_row list \<Rightarrow> (string \<times> nat \<times> nat \<times> nat) list" where
  "plane_breakdown rows =
     map (\<lambda>pl. (pl, count_where (\<lambda>m. m_plane m = pl) rows, count_where (\<lambda>m. m_plane m = pl \<and> m_granted m) rows,
        count_where (\<lambda>m. m_plane m = pl \<and> \<not> m_granted m) rows)) (remdups (map m_plane rows))"

definition recent_denial_rows :: "int \<Rightarrow> access_metric_row list \<Rightarrow> access_metric_row list" where
  "recent_denial_rows n rows = sql_limit n 0 (sort_key (\<lambda>m. - m_evaluated_at m) (filter (\<lambda>m. \<not> m_granted m) rows))"

text \<open>A limit that is not a number binds NULL, on which SQLite raises a datatype mismatch: None.\<close>

definition getAccessMetrics ::
  "time \<Rightarrow> time option \<Rightarrow> string option \<Rightarrow> plat_db
   \<Rightarrow> (metrics_summary \<times> (string \<times> nat \<times> nat \<times> nat) list \<times> (string \<times> nat \<times> time) list \<times> access_metric_row list) option" where
  "getAccessMetrics now since limit_str db =
     (let rows = metrics_since (or_default (now - 24 * 3600000) since) db
      in case parse_int10 (or_default ''100'' limit_str) of
           None \<Rightarrow> None
         | Some n \<Rightarrow> Some (metrics_summary_of rows, plane_breakdown rows, top_denied rows, recent_denial_rows (min n 500) rows))"

subsection \<open>Facts about the tables\<close>

lemmas caps_eval = role_caps_def PLANE_ROLE_CAPABILITIES_def

lemma global_writes_all:
  "map_of PLANE_ROLE_CAPABILITIES r = Some c \<Longrightarrow> can_write_all_tenants c \<longleftrightarrow> r = ''global_super_admin''"
  by (auto simp: PLANE_ROLE_CAPABILITIES_def split: if_splits)

lemma role_caps_write: "role_caps r = Some c \<Longrightarrow> can_write_all_tenants c \<longleftrightarrow> r = ''global_super_admin''"
proof (cases "map_of PLANE_ROLE_CAPABILITIES r")
  case (Some d)
  assume "role_caps r = Some c"
  with Some show ?thesis using global_writes_all [OF Some] by (simp add: role_caps_def)
next
  case None
  assume "role_caps r = Some c"
  with None have "c = no_capabilities" by (auto simp: role_caps_def split: if_splits)
  moreover have "r \<noteq> ''global_super_admin''" using None by (auto simp: PLANE_ROLE_CAPABILITIES_def)
  ultimately show ?thesis by (simp add: no_capabilities_def)
qed

lemma burst_insert_fails: "burst_insert = NoSuchColumn"
  by (simp add: burst_insert_def anomaly_logs_columns_def burst_columns_def)

lemma writeAccessMetric_eq:
  "writeAccessMetric now req mp st =
     st\<lparr>ps_db := (ps_db st)\<lparr>t_metrics := t_metrics (ps_db st) @ [metric_row now req mp (ps_db st)]\<rparr>\<rparr>"
  by (simp add: writeAccessMetric_def burst_insert_fails Let_def split: option.split)

lemma write_blocked_cases:
  "write_blocked p m = Some True \<longleftrightarrow> pr_plane p = Business \<and> pr_role p \<noteq> ''global_super_admin'' \<and> role_caps (pr_role p) \<noteq> None \<and> mutating m"
  "write_blocked p m = None \<longleftrightarrow> pr_plane p = Business \<and> pr_role p \<noteq> ''global_super_admin'' \<and> role_caps (pr_role p) = None"
  using role_caps_write by (auto simp: write_blocked_def split: option.splits)

lemma deny_sel [simp]:
  "bo_granted (deny s x v e) = False" "bo_reason (deny s x v e) = Some s" "bo_crossing (deny s x v e) = x"
  "bo_violation (deny s x v e) = v" "bo_elevation (deny s x v e) = e"
  by (simp_all add: deny_def)

lemma boundary_granted:
  "(\<exists>b. evaluateBoundary p rq t = Inr b \<and> bo_granted b) \<longleftrightarrow>
     (rq_plane rq = None \<or> rq_plane rq = Some (pr_plane p))
   \<and> (allowed_roles rq = [] \<or> pr_role p \<in> set (allowed_roles rq))
   \<and> (rq_isolation rq = Some False \<or> pr_plane p = Business \<or> t = None \<or> pr_scope p = None \<or> pr_scope p = t)"
proof -
  let ?A = "rq_plane rq \<noteq> None \<and> rq_plane rq \<noteq> Some (pr_plane p)"
  let ?B = "allowed_roles rq \<noteq> [] \<and> pr_role p \<notin> set (allowed_roles rq)"
  let ?C = "rq_isolation rq \<noteq> Some False \<and> pr_plane p = Client \<and> t \<noteq> None \<and> pr_scope p \<noteq> None \<and> pr_scope p \<noteq> t"
  have "(\<exists>b. evaluateBoundary p rq t = Inr b \<and> bo_granted b) \<longleftrightarrow> \<not> ?A \<and> \<not> ?B \<and> \<not> ?C"
  proof (cases ?A)
    case True
    then show ?thesis unfolding evaluateBoundary_def Let_def if_P [OF True] by simp
  next
    case A: False
    show ?thesis
    proof (cases ?B)
      case True
      with A show ?thesis
        unfolding evaluateBoundary_def Let_def if_not_P [OF A] if_P [OF True] by (auto simp: bind_t_Inr)
    next
      case B: False
      show ?thesis
        unfolding evaluateBoundary_def Let_def if_not_P [OF A] if_not_P [OF B] using A B by (cases ?C) simp_all
    qed
  qed
  moreover have "pr_plane p = Client \<longleftrightarrow> pr_plane p \<noteq> Business" by (cases "pr_plane p") simp_all
  ultimately show ?thesis by blast
qed

text \<open>
  C38: The guard lets a request through exactly when its user exists, is on the required plane, has
  one of the allowed roles (any role when the list is empty), does not leave its tenant scope (an
  absent scope or tenant header is no restriction, and neither is the business plane), and, on
  the business plane, is the global super admin or has a known role and a reading method.\<close>

theorem guard_admits_exactly:
  "fst (requireDualPlane rq now req st) = Passed p \<longleftrightarrow>
     resolvePrincipal req (ps_db st) = Some p
   \<and> (rq_plane rq = None \<or> rq_plane rq = Some (pr_plane p))
   \<and> (allowed_roles rq = [] \<or> pr_role p \<in> set (allowed_roles rq))
   \<and> (rq_isolation rq = Some False \<or> pr_plane p = Business \<or> h_tenant_id req = None \<or> pr_scope p = None
      \<or> pr_scope p = h_tenant_id req)
   \<and> (pr_plane p = Business \<longrightarrow> pr_role p = ''global_super_admin'' \<or> role_caps (pr_role p) \<noteq> None \<and> \<not> mutating (r_method req))"
proof (cases "resolvePrincipal req (ps_db st)")
  case None
  then show ?thesis by (simp add: requireDualPlane_def)
next
  case (Some q)
  have "fst (requireDualPlane rq now req st) = Passed p \<longleftrightarrow>
      p = q \<and> (\<exists>b. evaluateBoundary q rq (h_tenant_id req) = Inr b \<and> bo_granted b) \<and> write_blocked q (r_method req) = Some False"
  proof (cases "evaluateBoundary q rq (h_tenant_id req)")
    case (Inr b)
    with Some show ?thesis
      by (cases "bo_granted b"; cases "write_blocked q (r_method req)"; cases "write_blocked q (r_method req) = Some True")
        (auto simp: requireDualPlane_def)
  qed (simp add: requireDualPlane_def Some)
  moreover have "write_blocked q m = Some False \<longleftrightarrow> write_blocked q m \<noteq> None \<and> write_blocked q m \<noteq> Some True" for m
    by (cases "write_blocked q m") auto
  ultimately show ?thesis using Some unfolding boundary_granted write_blocked_cases
    by (cases "p = q"; cases "role_caps (pr_role q)") auto
qed

text \<open>
  On the business plane only the global super admin can write. Whatever a guard requires, a
  request with a writing method that passes with a business-plane user comes from that role, so
  the roles listed for backup and operations routes, \<open>platform_ops\<close> included, can never run them
  with POST.\<close>

theorem business_writes_need_super_admin:
  assumes "mutating (r_method req)"
  shows "(fst (requireDualPlane rq now req st) = Passed p \<longrightarrow> pr_plane p = Business \<longrightarrow> pr_role p = ''global_super_admin'')
    \<and> (resolvePrincipal req (ps_db st) = Some q \<longrightarrow> pr_plane q = Business \<longrightarrow> pr_role q = ''platform_ops'' \<longrightarrow>
        fst (requireDualPlane replicationGuard now req st) = WriteDenied403 q
        \<and> fst (requireDualPlane requirePlatformOps now req st) = WriteDenied403 q)"
proof -
  have "fst (requireDualPlane rq' now req st) = WriteDenied403 q"
    if "resolvePrincipal req (ps_db st) = Some q" "pr_plane q = Business" "pr_role q = ''platform_ops''"
      and rq': "rq_plane rq' = None \<or> rq_plane rq' = Some Business" "''platform_ops'' \<in> set (allowed_roles rq')" for rq'
  proof -
    have "\<exists>b. evaluateBoundary q rq' (h_tenant_id req) = Inr b \<and> bo_granted b"
      using that by (auto simp: boundary_granted)
    moreover have "write_blocked q (r_method req) = Some True"
      using that assms by (simp add: write_blocked_cases caps_eval)
    ultimately show ?thesis using that by (auto simp: requireDualPlane_def)
  qed
  then show ?thesis
    using assms by (auto simp: guard_admits_exactly replicationGuard_def requirePlatformOps_def any_requirement_def
        allowed_roles_def)
qed

text \<open>
  A client-plane user with a tenant scope never passes a guard with isolation for another
  tenant. But the scope is set by the migration of old users only: a user created by registration
  has none, and passes every client-plane guard open to its role whatever tenant the request
  names.\<close>

theorem tenant_scope_isolation:
  assumes iso: "rq_isolation rq \<noteq> Some False"
  shows "(fst (requireDualPlane rq now req st) = Passed p \<longrightarrow> pr_plane p = Client \<longrightarrow> pr_scope p = Some s \<longrightarrow>
          h_tenant_id req \<in> {None, Some s})
    \<and> (find_user (ps_db st) uid = Some (new_user t0 uid un em h rl tn) \<longrightarrow> uid \<noteq> [] \<longrightarrow> caas_user req = Some uid \<longrightarrow>
        (\<exists>p. \<forall>x. fst (requireDualPlane (requireClientPlane None) now (req\<lparr>h_tenant_id := x\<rparr>) st) = Passed p \<and> pr_tenant p = Some tn))"
proof -
  have "fst (requireDualPlane (requireClientPlane None) now (req\<lparr>h_tenant_id := x\<rparr>) st) = Passed (principal_of (new_user t0 uid un em h rl tn))"
    if "find_user (ps_db st) uid = Some (new_user t0 uid un em h rl tn)" "uid \<noteq> []" "caas_user req = Some uid" for x
    unfolding guard_admits_exactly using that
    by (simp add: resolvePrincipal_def principal_of_def new_user_def requireClientPlane_def any_requirement_def
        allowed_roles_def or_default_def CLIENT_PLANE_ROLES_def)
  moreover have "pr_tenant (principal_of (new_user t0 uid un em h rl tn)) = Some tn"
    by (simp add: principal_of_def new_user_def)
  ultimately show ?thesis using iso by (auto simp: guard_admits_exactly)
qed

subsection \<open>Metering\<close>

lemma guard_row:
  assumes "fst (requireDualPlane rq now req st) \<noteq> GuardError500"
  obtains b where "snd (requireDualPlane rq now req st) =
      writeAccessMetric now req (metric_of rq req (resolvePrincipal req (ps_db st)) b) st"
    "bo_granted b \<longleftrightarrow> (\<exists>p. fst (requireDualPlane rq now req st) = Passed p)"
proof (cases "resolvePrincipal req (ps_db st)")
  case None
  then show ?thesis
    by (intro that [of "deny ''No authenticated principal found. JWT may be missing or invalid.'' False False False"])
      (simp_all add: requireDualPlane_def)
next
  case (Some p)
  show ?thesis
  proof (cases "evaluateBoundary p rq (h_tenant_id req)")
    case (Inl e)
    with Some assms show ?thesis by (simp add: requireDualPlane_def)
  next
    case (Inr b)
    show ?thesis
    proof (cases "bo_granted b")
      case False
      with Some Inr show ?thesis by (intro that [of b]) (simp_all add: requireDualPlane_def)
    next
      case True
      with Some Inr assms show ?thesis
        by (cases "write_blocked p (r_method req)"; cases "write_blocked p (r_method req) = Some True")
          (auto simp: requireDualPlane_def intro: that)
    qed
  qed
qed

lemma guard_error_keeps_state:
  "fst (requireDualPlane rq now req st) = GuardError500 \<Longrightarrow> snd (requireDualPlane rq now req st) = st"
proof (cases "resolvePrincipal req (ps_db st)")
  case (Some p)
  assume e: "fst (requireDualPlane rq now req st) = GuardError500"
  show ?thesis
  proof (cases "evaluateBoundary p rq (h_tenant_id req)")
    case (Inr b)
    with Some e show ?thesis
      by (cases "bo_granted b"; cases "write_blocked p (r_method req)"; cases "write_blocked p (r_method req) = Some True")
        (auto simp: requireDualPlane_def)
  qed (simp add: requireDualPlane_def Some)
qed (simp add: requireDualPlane_def)

text \<open>A run of guarded requests.\<close>

fun guard_run :: "(requirement \<times> time \<times> request) list \<Rightarrow> plane_state \<Rightarrow> guard_result list \<times> plane_state" where
  "guard_run [] st = ([], st)"
| "guard_run ((rq, now, req) # es) st =
     (let (r, st1) = requireDualPlane rq now req st; (rs, st2) = guard_run es st1 in (r # rs, st2))"

text \<open>
  Every evaluation is metered, and only that. A guarded request that does not end in an
  exception appends exactly one row to the access metrics, marked granted exactly when the request
  passed, and for a denied user carrying the number of denials of that user in the last hour, this
  one included; nothing else in the database changes. A run of requests has as many rows as
  evaluations without exception. The anomaly signal for five and more denials is never written:
  its INSERT names the column \<open>metadata_json\<close>, which the table does not have.\<close>

theorem every_access_metered:
  fixes rq now req
  defines "g \<equiv> requireDualPlane rq now req"
  shows "(fst (g st) \<noteq> GuardError500 \<longrightarrow>
       (\<exists>row. snd (g st) = st\<lparr>ps_db := (ps_db st)\<lparr>t_metrics := t_metrics (ps_db st) @ [row]\<rparr>\<rparr>
          \<and> (m_granted row \<longleftrightarrow> (\<exists>p. fst (g st) = Passed p)) \<and> m_evaluated_at row = now
          \<and> m_denial_count_1h row = (case resolvePrincipal req (ps_db st) of None \<Rightarrow> 0 | Some p \<Rightarrow>
              if m_granted row then 0 else int (recent_denials now (pr_user p) (ps_db st)) + 1)))
    \<and> (fst (g st) = GuardError500 \<longrightarrow> snd (g st) = st)
    \<and> ps_bursts (snd (guard_run es st)) = ps_bursts st
    \<and> t_anomalies (ps_db (snd (guard_run es st))) = t_anomalies (ps_db st)
    \<and> length (t_metrics (ps_db (snd (guard_run es st)))) =
        length (t_metrics (ps_db st)) + count_where (\<lambda>r. r \<noteq> GuardError500) (fst (guard_run es st))"
proof -
  have one: "\<exists>row. snd (requireDualPlane rq now req st) = st\<lparr>ps_db := (ps_db st)\<lparr>t_metrics := t_metrics (ps_db st) @ [row]\<rparr>\<rparr>
      \<and> (m_granted row \<longleftrightarrow> (\<exists>p. fst (requireDualPlane rq now req st) = Passed p)) \<and> m_evaluated_at row = now
      \<and> m_denial_count_1h row = (case resolvePrincipal req (ps_db st) of None \<Rightarrow> 0 | Some p \<Rightarrow>
          if m_granted row then 0 else int (recent_denials now (pr_user p) (ps_db st)) + 1)"
    if "fst (requireDualPlane rq now req st) \<noteq> GuardError500" for rq now req st
  proof -
    from guard_row [OF that] obtain b where b: "snd (requireDualPlane rq now req st) =
        writeAccessMetric now req (metric_of rq req (resolvePrincipal req (ps_db st)) b) st"
      "bo_granted b \<longleftrightarrow> (\<exists>p. fst (requireDualPlane rq now req st) = Passed p)" by blast
    then show ?thesis
      by (intro exI [of _ "metric_row now req (metric_of rq req (resolvePrincipal req (ps_db st)) b) (ps_db st)"])
        (simp add: writeAccessMetric_eq metric_row_def metric_of_def denial_count_def Let_def split: option.split)
  qed
  have run: "ps_bursts (snd (guard_run es st)) = ps_bursts st
    \<and> t_anomalies (ps_db (snd (guard_run es st))) = t_anomalies (ps_db st)
    \<and> length (t_metrics (ps_db (snd (guard_run es st)))) =
        length (t_metrics (ps_db st)) + count_where (\<lambda>r. r \<noteq> GuardError500) (fst (guard_run es st))"
  proof (induction es arbitrary: st)
    case (Cons e es)
    obtain rq now req where e: "e = (rq, now, req)" by (cases e)
    show ?case
    proof (cases "fst (requireDualPlane rq now req st) = GuardError500")
      case True
      with guard_error_keeps_state [OF True] Cons [of st] show ?thesis by (simp add: e case_prod_beta Let_def)
    next
      case False
      from one [OF this] obtain row where
        "snd (requireDualPlane rq now req st) = st\<lparr>ps_db := (ps_db st)\<lparr>t_metrics := t_metrics (ps_db st) @ [row]\<rparr>\<rparr>" by blast
      with False Cons show ?thesis by (simp add: e case_prod_beta Let_def)
    qed
  qed simp
  show ?thesis unfolding g_def using one run guard_error_keeps_state by blast
qed

subsection \<open>Mounted routes\<close>

lemma starts_with_drop: "starts_with p a \<longleftrightarrow> a = p @ drop (length p) a"
  by (auto simp: starts_with_def prefix_def)

lemma no_user_unauthenticated:
  "caas_user req = None \<Longrightarrow> fst (requireDualPlane rq now req st) = Unauthenticated401"
  by (simp add: requireDualPlane_def resolvePrincipal_def)

text \<open>
  Two guarded parts of the API cannot be used at all. The regulatory routes and the access
  metrics route are mounted with a guard but without the access token middleware, which alone sets
  the user a guard looks for: every request to them is answered 401, with or without a valid token.
  The recompute route runs both and passes exactly for a token whose subject is a global super
  admin of the business plane.\<close>

theorem guarded_routes:
  assumes "fresh_request req"
  shows "fst (regulatory_route now req st) = Guard Unauthenticated401
    \<and> fst (access_metrics_route now req st) = Guard Unauthenticated401
    \<and> (fst (recompute_all_route jwt now req st) = Guard (Passed p) \<longleftrightarrow>
        (\<exists>tok sub tid role u. h_authorization req = Some (''Bearer '' @ tok) \<and> jwt tok = JwtOk (Some sub) tid role \<and> sub \<noteq> []
           \<and> find_user (ps_db st) sub = Some u \<and> u_plane u = Business \<and> u_plane_role u = ''global_super_admin''
           \<and> p = principal_of u))"
proof -
  have none: "caas_user req = None" using assms by (simp add: fresh_request_def)
  have g: "fst (requireDualPlane (requireBusinessPlane (Some [''global_super_admin''])) now r st) = Passed p \<longleftrightarrow>
      resolvePrincipal r (ps_db st) = Some p \<and> pr_plane p = Business \<and> pr_role p = ''global_super_admin''" for r
    by (auto simp: guard_admits_exactly requireBusinessPlane_def any_requirement_def allowed_roles_def or_default_def)
  have "fst (recompute_all_route jwt now req st) = Guard (Passed p) \<longleftrightarrow>
      (\<exists>r. requireAccessToken jwt req = Inr r \<and> resolvePrincipal r (ps_db st) = Some p
        \<and> pr_plane p = Business \<and> pr_role p = ''global_super_admin'')"
    by (auto simp: recompute_all_route_def g split: sum.split)
  also have "\<dots> \<longleftrightarrow> (\<exists>tok sub tid role u. h_authorization req = Some (''Bearer '' @ tok) \<and> jwt tok = JwtOk (Some sub) tid role \<and> sub \<noteq> []
           \<and> find_user (ps_db st) sub = Some u \<and> u_plane u = Business \<and> u_plane_role u = ''global_super_admin''
           \<and> p = principal_of u)" (is "?L \<longleftrightarrow> ?R")
  proof
    assume ?L
    then obtain r where r: "requireAccessToken jwt req = Inr r" "resolvePrincipal r (ps_db st) = Some p"
      "pr_plane p = Business" "pr_role p = ''global_super_admin''" by blast
    then obtain a sub tid role where a: "h_authorization req = Some a" "starts_with ''Bearer '' a"
        "jwt (drop 7 a) = JwtOk sub tid role" "r = req\<lparr>caas_user := sub, caas_tenant := tid, caas_role := role\<rparr>"
      by (auto simp: requireAccessToken_def split: option.splits if_splits jwt_result.splits)
    from a(2) have "a = ''Bearer '' @ drop 7 a" by (simp add: starts_with_drop eval_nat_numeral)
    with r a show ?R
      by (auto simp: resolvePrincipal_def principal_of_def split: option.splits if_splits)
  next
    assume ?R
    then obtain tok sub tid role u where u: "h_authorization req = Some (''Bearer '' @ tok)" "jwt tok = JwtOk (Some sub) tid role" "sub \<noteq> []"
        "find_user (ps_db st) sub = Some u" "u_plane u = Business" "u_plane_role u = ''global_super_admin''" "p = principal_of u"
      by blast
    have "requireAccessToken jwt req = Inr (req\<lparr>caas_user := Some sub, caas_tenant := tid, caas_role := role\<rparr>)"
      using u(1,2) by (simp add: requireAccessToken_def starts_with_def)
    with u show ?L by (auto simp: resolvePrincipal_def principal_of_def)
  qed
  finally show ?thesis
    using none by (simp add: regulatory_route_def access_metrics_route_def no_user_unauthenticated)
qed

subsection \<open>The summary\<close>

definition denials_of :: "string \<Rightarrow> access_metric_row list \<Rightarrow> access_metric_row list" where
  "denials_of u rows = filter (\<lambda>m. m_user_id m = u) (filter (\<lambda>m. \<not> m_granted m) rows)"

lemma count_split: "count_where p xs = count_where (\<lambda>x. p x \<and> q x) xs + count_where (\<lambda>x. p x \<and> \<not> q x) xs"
  by (induction xs) auto

lemma sorted_take_drop_le:
  "sorted (map k xs) \<Longrightarrow> a \<in> set (take n xs) \<Longrightarrow> b \<in> set (drop n xs) \<Longrightarrow> k a \<le> k b"
proof -
  assume s: "sorted (map k xs)" and ab: "a \<in> set (take n xs)" "b \<in> set (drop n xs)"
  have "sorted (map k (take n xs @ drop n xs))" using s by simp
  then have "\<forall>x \<in> set (map k (take n xs)). \<forall>y \<in> set (map k (drop n xs)). x \<le> y"
    unfolding map_append sorted_append by blast
  with ab show ?thesis by simp
qed

text \<open>
  The access report adds up. Granted and denied evaluations make the total, over all planes and
  per plane; the top list has at most ten users with their exact number of denials in the
  window and the time of the last one, and nobody left out has more denials than anybody
  listed.\<close>

theorem access_report_adds_up:
  "length rows = count_where m_granted rows + count_where (\<lambda>m. \<not> m_granted m) rows
   \<and> sum_list (map (\<lambda>(pl, n, g, d). n) (plane_breakdown rows)) = length rows
   \<and> (\<forall>(pl, n, g, d) \<in> set (plane_breakdown rows). n = g + d)
   \<and> length (top_denied rows) \<le> 10
   \<and> (\<forall>(u, n, t) \<in> set (top_denied rows). n = length (denials_of u rows)
        \<and> (\<exists>m \<in> set (denials_of u rows). m_evaluated_at m = t) \<and> (\<forall>m \<in> set (denials_of u rows). m_evaluated_at m \<le> t)
        \<and> (\<forall>v. v \<notin> fst ` set (top_denied rows) \<longrightarrow> length (denials_of v rows) \<le> n))"
proof -
  let ?ds = "filter (\<lambda>m. \<not> m_granted m) rows"
  let ?e = "\<lambda>u. (u, length (denials_of u rows), Max (m_evaluated_at ` set (denials_of u rows)))"
  let ?us = "remdups (map m_user_id ?ds)"
  let ?k = "\<lambda>(u :: string, n, t :: int). - int n"
  let ?xs = "sort_key ?k (map ?e ?us)"
  have top: "top_denied rows = take 10 ?xs" by (simp add: top_denied_def denials_of_def Let_def)
  have entry: "\<exists>u. u \<in> set ?us \<and> x = ?e u" if "x \<in> set ?xs" for x using that by auto
  have one: "n = length (denials_of u rows) \<and> (\<exists>m \<in> set (denials_of u rows). m_evaluated_at m = t)
      \<and> (\<forall>m \<in> set (denials_of u rows). m_evaluated_at m \<le> t)" if "(u, n, t) \<in> set ?xs" for u n t
  proof -
    from entry [OF that] have u: "u \<in> set ?us" and nt: "n = length (denials_of u rows)" "t = Max (m_evaluated_at ` set (denials_of u rows))"
      by auto
    from u have "m_evaluated_at ` set (denials_of u rows) \<noteq> {}" by (auto simp: denials_of_def)
    from Max_in [OF _ this] have "t \<in> m_evaluated_at ` set (denials_of u rows)" using nt by simp
    then show ?thesis using nt by auto
  qed
  have rest: "length (denials_of v rows) \<le> n" if "(u, n, t) \<in> set (take 10 ?xs)" "v \<notin> fst ` set (take 10 ?xs)" for u n t v
  proof (cases "v \<in> set ?us")
    case True
    then have "?e v \<in> set ?xs" by simp
    then have "?e v \<in> set (take 10 ?xs) \<union> set (drop 10 ?xs)" by (metis append_take_drop_id set_append)
    moreover have "?e v \<notin> set (take 10 ?xs)" using that(2) by force
    ultimately have "?e v \<in> set (drop 10 ?xs)" by blast
    from sorted_take_drop_le [OF sorted_sort_key that(1) this] show ?thesis by simp
  next
    case False
    then have "denials_of v rows = []" by (auto simp: denials_of_def filter_empty_conv)
    then show ?thesis by simp
  qed
  have "length rows = count_where m_granted rows + count_where (\<lambda>m. \<not> m_granted m) rows"
    by (induction rows) auto
  moreover have "sum_list (map (\<lambda>(pl, n, g, d). n) (plane_breakdown rows)) = length rows"
    using count_where_sum_list [of "remdups (map m_plane rows)" rows m_plane]
    by (simp add: plane_breakdown_def comp_def)
  moreover have "\<forall>(pl, n, g, d) \<in> set (plane_breakdown rows). n = g + d"
    using count_split by (auto simp: plane_breakdown_def)
  moreover have "\<forall>(u, n, t) \<in> set (top_denied rows). n = length (denials_of u rows)
        \<and> (\<exists>m \<in> set (denials_of u rows). m_evaluated_at m = t) \<and> (\<forall>m \<in> set (denials_of u rows). m_evaluated_at m \<le> t)
        \<and> (\<forall>v. v \<notin> fst ` set (top_denied rows) \<longrightarrow> length (denials_of v rows) \<le> n)"
    unfolding top
  proof (rule ballI, clarify, intro conjI)
    fix u n t assume m: "(u, n, t) \<in> set (take 10 ?xs)"
    note o = one [OF in_set_takeD [OF m]]
    show "n = length (denials_of u rows)" "\<exists>m \<in> set (denials_of u rows). m_evaluated_at m = t"
      "\<forall>m \<in> set (denials_of u rows). m_evaluated_at m \<le> t" using o by blast+
    show "\<forall>v. v \<notin> fst ` set (take 10 ?xs) \<longrightarrow> length (denials_of v rows) \<le> n" using rest [OF m] by blast
  qed
  moreover have "length (top_denied rows) \<le> 10" by (simp add: top)
  ultimately show ?thesis by blast
qed

subsection \<open>Witnesses\<close>

definition demo_plane :: plane_state where
  "demo_plane = \<lparr>ps_db = demo_plat\<lparr>t_users := [new_user 0 ''u1'' ''ann'' ''a@x'' ''h'' ''Partner'' ''t'',
     (new_user 0 ''u2'' ''ops'' ''o@x'' ''h'' ''Partner'' ''t'')\<lparr>u_plane := Business, u_plane_role := ''platform_ops''\<rparr>]\<rparr>,
     ps_bursts = []\<rparr>"

definition demo_req :: "string \<Rightarrow> request" where
  "demo_req uid = demo_request\<lparr>r_method := ''POST'', caas_user := Some uid\<rparr>"

lemma demo_plane_users:
  "find_user (ps_db demo_plane) ''u1'' = Some (new_user 0 ''u1'' ''ann'' ''a@x'' ''h'' ''Partner'' ''t'')"
  "find_user (ps_db demo_plane) ''u2'' =
     Some ((new_user 0 ''u2'' ''ops'' ''o@x'' ''h'' ''Partner'' ''t'')\<lparr>u_plane := Business, u_plane_role := ''platform_ops''\<rparr>)"
  by (simp_all add: demo_plane_def demo_plat_def find_user_def new_user_def)

theorem guard_admits_exactly_witness:
  "\<exists>p. fst (requireDualPlane (requireClientPlane None) 1 (demo_req ''u1'') demo_plane) = Passed p"
  unfolding guard_admits_exactly
  by (simp add: resolvePrincipal_def demo_req_def demo_plane_users principal_of_def new_user_def requireClientPlane_def
      any_requirement_def allowed_roles_def or_default_def CLIENT_PLANE_ROLES_def demo_request_def)

theorem business_writes_need_super_admin_witness:
  "\<exists>q. fst (requireDualPlane replicationGuard 1 (demo_req ''u2'') demo_plane) = WriteDenied403 q"
  using business_writes_need_super_admin [of "demo_req ''u2''" replicationGuard 1 demo_plane _
      "principal_of ((new_user 0 ''u2'' ''ops'' ''o@x'' ''h'' ''Partner'' ''t'')\<lparr>u_plane := Business, u_plane_role := ''platform_ops''\<rparr>)"]
  by (auto simp: mutating_def demo_req_def resolvePrincipal_def demo_plane_users principal_of_def new_user_def demo_request_def)

theorem tenant_scope_isolation_witness:
  "\<exists>p. fst (requireDualPlane (requireClientPlane None) 1 ((demo_req ''u1'')\<lparr>h_tenant_id := Some ''other''\<rparr>) demo_plane) = Passed p
     \<and> pr_tenant p = Some ''t''"
proof -
  have "rq_isolation (requireClientPlane None) \<noteq> Some False" by (simp add: requireClientPlane_def)
  moreover have "caas_user (demo_req ''u1'') = Some ''u1''" by (simp add: demo_req_def)
  ultimately show ?thesis
    using tenant_scope_isolation [of "requireClientPlane None" 1 "demo_req ''u1''" demo_plane _ _ "''u1''" 0 "''ann''" "''a@x''"
        "''h''" "''Partner''" "''t''"] demo_plane_users(1) by blast
qed

theorem every_access_metered_witness:
  "length (t_metrics (ps_db (snd (guard_run [(requireAnyPlane, 1, demo_request), (requireAnyPlane, 2, demo_request)] demo_plane)))) =
     length (t_metrics (ps_db demo_plane)) + 2"
  using every_access_metered [of requireAnyPlane 1 demo_request demo_plane "[(requireAnyPlane, 1, demo_request), (requireAnyPlane, 2, demo_request)]"]
  by (simp add: case_prod_beta Let_def no_user_unauthenticated demo_request_def)

theorem guarded_routes_witness:
  "fst (regulatory_route 1 demo_request demo_plane) = Guard Unauthenticated401"
  using guarded_routes [of demo_request 1 demo_plane]
  by (simp add: fresh_request_def demo_request_def)

theorem access_report_adds_up_witness:
  "length (top_denied (t_metrics (ps_db demo_plane))) \<le> 10"
  using access_report_adds_up [of "t_metrics (ps_db demo_plane)"] by blast

end
