(* ===== verification/CommercialDb.thy ===== *)
theory CommercialDb
  imports JsValue Anomaly
begin

section \<open>The commercial tables, hashes and signatures\<close>

text \<open>
  The tables of src/db/migrations/phase12_13.ts as one database record, with the platform tables
  that the underwriting score reads (\<open>c_plat\<close>) and the slow query and report logs. Amounts are
  doubles, counts are integers, times are milliseconds. What the engine takes from outside is the
  record \<open>com_env\<close>: the HMAC under the configured secret, SHA-256, the time zone offset of the
  process, the month label of the default locale and the average that SQLite computes.
\<close>

datatype subscription_tier = PAY_AS_YOU_GO | GROWTH | ENTERPRISE | CUSTOM

datatype ledger_status = Draft | Issued | Paid | Overdue | Voided | Disputed

datatype risk_band = GREEN | AMBER | ORANGE | RED

datatype token_status = TIssued | TApplied | TExpired | TRevoked

record subscription =
  sb_id :: string
  sb_tenant :: string
  sb_tier :: subscription_tier
  sb_fee :: rat
  sb_included_runs :: int
  sb_included_monitors :: int
  sb_overage_rate :: rat
  sb_monitor_overage :: rat
  sb_cycle :: string
  sb_currency :: string
  sb_contract :: "string option"
  sb_period_start :: time
  sb_period_end :: time
  sb_runs :: int
  sb_monitors :: int
  sb_hash :: string
  sb_created :: time
  sb_updated :: time

record ledger =
  lg_id :: string
  lg_tenant :: string
  lg_number :: string
  lg_period_start :: time
  lg_period_end :: time
  lg_tier :: subscription_tier
  lg_fee_snapshot :: rat
  lg_runs_snapshot :: int
  lg_rate_snapshot :: rat
  lg_runs :: int
  lg_monitors :: int
  lg_base :: rat
  lg_overage_runs :: rat
  lg_overage_monitors :: rat
  lg_premium :: rat
  lg_discount :: rat
  lg_tax :: rat
  lg_total :: rat
  lg_currency :: string
  lg_fx_rate :: rat
  lg_total_local :: rat
  lg_status :: ledger_status
  lg_issued :: "time option"
  lg_due :: "time option"
  lg_token :: "string option"
  lg_hash :: string
  lg_signature :: string
  lg_created :: time
  lg_updated :: time

record line_item =
  li_id :: string
  li_ledger :: string
  li_tenant :: string
  li_type :: string
  li_description :: string
  li_quantity :: rat
  li_unit_price :: rat
  li_total :: rat
  li_credit :: bool
  li_order :: int
  li_created :: time

record registry =
  ur_id :: string
  ur_tenant :: string
  ur_carrier :: string
  ur_carrier_id :: string
  ur_policy :: string
  ur_coverage :: string
  ur_limit :: rat
  ur_deductible :: rat
  ur_annual :: rat
  ur_score :: int
  ur_band :: risk_band
  ur_pct :: "rat option"
  ur_effective :: rat
  ur_golden :: string
  ur_start_date :: string
  ur_end_date :: string
  ur_last_audit :: time
  ur_next_audit :: time
  ur_clean :: int
  ur_status :: string
  ur_jurisdiction :: string
  ur_created :: time
  ur_updated :: time

record score_inputs =
  in_total :: nat
  in_failed :: nat
  in_duplicate :: nat
  in_high :: nat
  in_critical :: nat
  in_lockouts :: nat
  in_slow :: nat
  in_avg_ms :: rat
  in_breaches :: nat
  in_failovers :: nat
  in_db_ok :: bool

record component_scores =
  sc_operational :: int
  sc_security :: int
  sc_compliance :: int
  sc_financial :: int

record snapshot =
  as_id :: string
  as_registry :: string
  as_tenant :: string
  as_from :: time
  as_to :: time
  as_inputs :: score_inputs
  as_scores :: component_scores
  as_composite :: int
  as_band :: risk_band
  as_pct :: "rat option"
  as_token :: "string option"
  as_hash :: string
  as_chained :: string
  as_audited :: time

record premium_token =
  pt_id :: string
  pt_tenant :: string
  pt_registry :: string
  pt_snapshot :: string
  pt_pct :: rat
  pt_value :: rat
  pt_status :: token_status
  pt_expires :: time
  pt_invoice :: "string option"
  pt_applied :: "time option"
  pt_signature :: string
  pt_issued :: time

record overage_row =
  oc_tenant :: string
  oc_included :: int
  oc_actual :: int
  oc_rate :: rat
  oc_charge :: rat
  oc_recorded :: time

record slow_query =
  sq_label :: string
  sq_duration :: rat
  sq_recorded :: time

datatype com_audit_payload =
  RegisterPayload string string string risk_band rat rat string string
| ApplyPayload string string rat rat

record com_audit_row =
  ca_tenant :: string
  ca_actor :: "string option"
  ca_entity :: string
  ca_entity_id :: string
  ca_action :: string
  ca_payload :: com_audit_payload
  ca_created :: time

record com_db =
  c_subs :: "subscription list"
  c_ledgers :: "ledger list"
  c_lines :: "line_item list"
  c_regs :: "registry list"
  c_snaps :: "snapshot list"
  c_tokens :: "premium_token list"
  c_overage :: "overage_row list"
  c_slow :: "slow_query list"
  c_reports :: "time list"
  c_audit :: "com_audit_row list"
  c_plat :: plat_db

record com_env =
  hm :: "string \<Rightarrow> string"
  sha :: "string \<Rightarrow> string"
  tz :: int
  month_label :: "time \<Rightarrow> string"
  sql_avg :: "rat list \<Rightarrow> rat"
  sql_sum :: "rat list \<Rightarrow> rat"
  uuid_ok :: "string \<Rightarrow> bool"
  parse_day :: "string \<Rightarrow> time option"

text \<open>
  The constraints that the migrations declare on these tables and that the types leave open: primary
  keys, UNIQUE columns, CHECKs over strings and numbers, and the references, which SQLite enforces
  since \<open>openDatabase\<close> turns the foreign keys on. A CHECK on a tier, a band or a status is a datatype;
  \<open>IN (NULL, ...)\<close> is never false, but the code stores only the listed values or NULL. The log of
  overage charges has constants in its constrained columns.
\<close>

definition billing_cycles :: "string list" where
  "billing_cycles = [''monthly'', ''quarterly'', ''annual'']"

definition coverage_checks :: "string list" where
  "coverage_checks = [''cyber_liability'', ''professional_indemnity'', ''fintech_comprehensive'', ''data_breach'',
     ''operational_risk'', ''regulatory_defence'']"

definition registry_statuses :: "string list" where
  "registry_statuses = [''active'', ''under_review'', ''suspended'', ''expired'', ''cancelled'']"

definition line_types :: "string list" where
  "line_types = [''base_fee'', ''overage_runs'', ''overage_monitors'', ''insurance_premium'', ''premium_discount'',
     ''tax'', ''adjustment'', ''credit'']"

definition subscription_constraints :: "com_db \<Rightarrow> bool" where
  "subscription_constraints db \<longleftrightarrow> distinct (map sb_id (c_subs db)) \<and> distinct (map sb_tenant (c_subs db))
     \<and> (\<forall>s \<in> set (c_subs db). sb_cycle s \<in> set billing_cycles)"

definition ledger_constraints :: "com_db \<Rightarrow> bool" where
  "ledger_constraints db \<longleftrightarrow> distinct (map lg_id (c_ledgers db)) \<and> distinct (map lg_number (c_ledgers db))
     \<and> (\<forall>l \<in> set (c_ledgers db). lg_tenant l \<in> sb_tenant ` set (c_subs db))"

definition registry_constraints :: "com_db \<Rightarrow> bool" where
  "registry_constraints db \<longleftrightarrow> distinct (map ur_id (c_regs db)) \<and> distinct (map ur_policy (c_regs db))
     \<and> (\<forall>r \<in> set (c_regs db). ur_coverage r \<in> set coverage_checks \<and> 0 \<le> ur_score r \<and> ur_score r \<le> 100
          \<and> ur_pct r \<in> {None, Some 10, Some 15, Some 20} \<and> ur_status r \<in> set registry_statuses)"

definition snapshot_constraints :: "com_db \<Rightarrow> bool" where
  "snapshot_constraints db \<longleftrightarrow> distinct (map as_id (c_snaps db))
     \<and> (\<forall>s \<in> set (c_snaps db). as_registry s \<in> ur_id ` set (c_regs db))"

definition token_constraints :: "com_db \<Rightarrow> bool" where
  "token_constraints db \<longleftrightarrow> distinct (map pt_id (c_tokens db))
     \<and> (\<forall>t \<in> set (c_tokens db). pt_pct t \<in> {10, 15, 20} \<and> pt_registry t \<in> ur_id ` set (c_regs db)
          \<and> pt_snapshot t \<in> as_id ` set (c_snaps db)
          \<and> (case pt_invoice t of None \<Rightarrow> True | Some i \<Rightarrow> i \<in> lg_id ` set (c_ledgers db)))"

definition line_constraints :: "com_db \<Rightarrow> bool" where
  "line_constraints db \<longleftrightarrow> distinct (map li_id (c_lines db))
     \<and> (\<forall>x \<in> set (c_lines db). li_ledger x \<in> lg_id ` set (c_ledgers db) \<and> li_type x \<in> set line_types)"

lemmas table_constraints = subscription_constraints_def ledger_constraints_def registry_constraints_def
  snapshot_constraints_def token_constraints_def line_constraints_def

text \<open>Every \<open>throw\<close> of the engine, and the constraint violations its statements can meet.\<close>

datatype com_error =
  SubscriptionTampered | SubscriptionExists | NoSubscription | ConstraintViolation
| NoRegistry | LedgerNotFound | LedgerClosed ledger_status | TokenNotFound | TokenUnavailable token_status
| TokenTenantMismatch | TokenExpiredError | TokenTampered

fun tier_str :: "subscription_tier \<Rightarrow> string" where
  "tier_str PAY_AS_YOU_GO = ''PAY_AS_YOU_GO''"
| "tier_str GROWTH = ''GROWTH''"
| "tier_str ENTERPRISE = ''ENTERPRISE''"
| "tier_str CUSTOM = ''CUSTOM''"

fun status_str :: "ledger_status \<Rightarrow> string" where
  "status_str Draft = ''draft''"
| "status_str Issued = ''issued''"
| "status_str Paid = ''paid''"
| "status_str Overdue = ''overdue''"
| "status_str Voided = ''voided''"
| "status_str Disputed = ''disputed''"

fun band_str :: "risk_band \<Rightarrow> string" where
  "band_str GREEN = ''GREEN''"
| "band_str AMBER = ''AMBER''"
| "band_str ORANGE = ''ORANGE''"
| "band_str RED = ''RED''"

subsection \<open>JSON text of flat objects\<close>

definition hex4 :: "nat \<Rightarrow> string" where
  "hex4 n = ''00'' @ map (\<lambda>k. if k < 10 then char_of (48 + k) else char_of (87 + k)) [n div 16, n mod 16]"

definition json_char :: "char \<Rightarrow> string" where
  "json_char c =
     (if c = CHR 0x22 then [CHR 0x5C, CHR 0x22]
      else if c = CHR 0x5C then [CHR 0x5C, CHR 0x5C]
      else if code c = 8 then [CHR 0x5C, CHR ''b'']
      else if code c = 9 then [CHR 0x5C, CHR ''t'']
      else if code c = 10 then [CHR 0x5C, CHR ''n'']
      else if code c = 12 then [CHR 0x5C, CHR ''f'']
      else if code c = 13 then [CHR 0x5C, CHR ''r'']
      else if code c < 32 then [CHR 0x5C, CHR ''u''] @ hex4 (code c)
      else [c])"

definition json_quote :: "string \<Rightarrow> string" where
  "json_quote s = [CHR 0x22] @ concat (map json_char s) @ [CHR 0x22]"

datatype scalar = SStr string | SNum rat | SBool bool | SNull

fun json_scalar :: "scalar \<Rightarrow> string" where
  "json_scalar (SStr s) = json_quote s"
| "json_scalar (SNum q) = num_str (Fin q)"
| "json_scalar (SBool b) = (if b then ''true'' else ''false'')"
| "json_scalar SNull = ''null''"

definition json_object :: "(string \<times> scalar) list \<Rightarrow> string" where
  "json_object kvs = ''{'' @ join_with '','' (map (\<lambda>(k, v). json_quote k @ '':'' @ json_scalar v) kvs) @ ''}''"

definition s_int :: "int \<Rightarrow> scalar" where "s_int n = SNum (of_int n)"
definition s_time :: "time \<Rightarrow> scalar" where "s_time t = SStr (iso_string t)"
definition s_opt :: "('a \<Rightarrow> scalar) \<Rightarrow> 'a option \<Rightarrow> scalar" where
  "s_opt f v = (case v of None \<Rightarrow> SNull | Some x \<Rightarrow> f x)"

subsection \<open>Hashes and signatures\<close>

definition subscriptionIntegrityHash :: "com_env \<Rightarrow> subscription \<Rightarrow> string" where
  "subscriptionIntegrityHash e s =
     hm e (sb_id s @ ''|'' @ sb_tenant s @ ''|'' @ tier_str (sb_tier s) @ ''|'' @ num_str (Fin (sb_fee s))
       @ ''|'' @ iso_string (sb_period_start s))"

definition invoiceSignature :: "com_env \<Rightarrow> string \<Rightarrow> rat \<Rightarrow> time \<Rightarrow> time \<Rightarrow> ledger_status \<Rightarrow> string" where
  "invoiceSignature e number totalUsd pstart pend status =
     hm e (number @ ''|'' @ num_str (Fin totalUsd) @ ''|'' @ iso_string pstart @ ''|'' @ iso_string pend
       @ ''|'' @ status_str status)"

definition tokenSignature :: "com_env \<Rightarrow> string \<Rightarrow> string \<Rightarrow> rat \<Rightarrow> string \<Rightarrow> time \<Rightarrow> string" where
  "tokenSignature e i tenant pct snap expires =
     hm e (i @ ''|'' @ tenant @ ''|'' @ num_str (Fin pct) @ ''|'' @ snap @ ''|'' @ iso_string expires)"

text \<open>\<open>Math.round(x * 100) / 100\<close>.\<close>

definition cents :: "rat \<Rightarrow> rat" where
  "cents x = fdiv (of_int (js_round (fmul x 100))) 100"

text \<open>The SQL \<open>LIKE\<close> of SQLite: \<open>%\<close> any text, \<open>_\<close> any character, letters without case.\<close>

fun sql_like :: "string \<Rightarrow> string \<Rightarrow> bool" where
  "sql_like [] s = (s = [])"
| "sql_like (p # ps) [] = (p = CHR ''%'' \<and> sql_like ps [])"
| "sql_like (p # ps) (c # cs) =
     (if p = CHR ''%'' then sql_like ps (c # cs) \<or> sql_like (p # ps) cs
      else (p = CHR ''_'' \<or> lower_char p = lower_char c) \<and> sql_like ps cs)"

lemma sql_like_percent [simp]: "sql_like ''%'' s"
  by (induction s) auto

lemma sql_like_append: "sql_like (p @ ''%'') (p @ s)"
proof (induction p)
  case (Cons c p)
  then show ?case by (cases "p @ s") auto
qed simp

end
