(* ===== verification/Billing.thy ===== *)
theory Billing
  imports CommercialDb
begin

section \<open>Subscriptions, the monthly commitment, invoices and premium tokens\<close>

text \<open>
  The subscription, invoice and token operations of src/services/commercialEngine.ts. Random ids and
  clock readings are arguments; where a method reads the clock twice with statements in between, it
  takes both readings. A statement that violates a constraint leaves the database as it was: the
  invoice and the token application run in a transaction.
\<close>

definition TAX_RATE :: rat where "TAX_RATE = rnd (75 / 1000)"

record tier_limits =
  tl_fee :: rat
  tl_runs :: int
  tl_monitors :: int
  tl_rate :: rat
  tl_monitor_rate :: rat

fun TIER_CONFIG :: "subscription_tier \<Rightarrow> tier_limits" where
  "TIER_CONFIG PAY_AS_YOU_GO = \<lparr>tl_fee = 0, tl_runs = 100, tl_monitors = 2, tl_rate = rnd (5 / 100), tl_monitor_rate = 10\<rparr>"
| "TIER_CONFIG GROWTH = \<lparr>tl_fee = 299, tl_runs = 5000, tl_monitors = 10, tl_rate = rnd (3 / 100), tl_monitor_rate = 15 / 2\<rparr>"
| "TIER_CONFIG ENTERPRISE = \<lparr>tl_fee = 1499, tl_runs = 0, tl_monitors = 0, tl_rate = 0, tl_monitor_rate = 0\<rparr>"
| "TIER_CONFIG CUSTOM = \<lparr>tl_fee = 0, tl_runs = 0, tl_monitors = 0, tl_rate = 0, tl_monitor_rate = 0\<rparr>"

text \<open>\<open>loadHmacSecret\<close>: an unset or empty variable falls back, except in production.\<close>

definition loadHmacSecret :: "string option \<Rightarrow> string option \<Rightarrow> string option" where
  "loadHmacSecret secret nodeEnv =
     (case secret of
        Some s \<Rightarrow> if s \<noteq> [] then Some s else if nodeEnv = Some ''production'' then None else Some ''dev_hmac_secret''
      | None \<Rightarrow> if nodeEnv = Some ''production'' then None else Some ''dev_hmac_secret'')"

subsection \<open>Subscriptions\<close>

definition find_sub :: "string \<Rightarrow> com_db \<Rightarrow> subscription option" where
  "find_sub tenantId db = List.find (\<lambda>s. sb_tenant s = tenantId) (c_subs db)"

definition getSubscription :: "com_env \<Rightarrow> string \<Rightarrow> com_db \<Rightarrow> com_error + subscription option" where
  "getSubscription e tenantId db =
     (case find_sub tenantId db of
        None \<Rightarrow> Inr None
      | Some s \<Rightarrow> if sb_hash s = subscriptionIntegrityHash e s then Inr (Some s) else Inl SubscriptionTampered)"

text \<open>The start of the UTC day, and the UTC day of the first local midnight of the next month.\<close>

definition day_ms :: int where "day_ms = 86400000"

definition utc_day :: "time \<Rightarrow> time" where
  "utc_day t = t - t mod day_ms"

definition first_of_next_month :: "int \<Rightarrow> int" where
  "first_of_next_month d =
     (case List.find (\<lambda>x. snd (snd (civil_of_days x)) = 1) (map (\<lambda>k. d + k) [1..31]) of
        Some x \<Rightarrow> x | None \<Rightarrow> d + 31)"

definition period_end :: "int \<Rightarrow> time \<Rightarrow> time" where
  "period_end zone now = utc_day (first_of_next_month ((now + zone) div day_ms) * day_ms - zone)"

record sub_params =
  sp_tier :: subscription_tier
  sp_cycle :: "string option"
  sp_contract :: "string option"
  sp_currency :: "string option"
  sp_fee :: "rat option"
  sp_runs :: "int option"
  sp_monitors :: "int option"
  sp_rate :: "rat option"
  sp_monitor_rate :: "rat option"

definition new_subscription :: "com_env \<Rightarrow> time \<Rightarrow> string \<Rightarrow> string \<Rightarrow> sub_params \<Rightarrow> subscription" where
  "new_subscription e now i tenantId p =
     (let c = TIER_CONFIG (sp_tier p);
          s = \<lparr>sb_id = i, sb_tenant = tenantId, sb_tier = sp_tier p,
               sb_fee = or_default (tl_fee c) (sp_fee p),
               sb_included_runs = or_default (tl_runs c) (sp_runs p),
               sb_included_monitors = or_default (tl_monitors c) (sp_monitors p),
               sb_overage_rate = or_default (tl_rate c) (sp_rate p),
               sb_monitor_overage = or_default (tl_monitor_rate c) (sp_monitor_rate p),
               sb_cycle = or_default ''monthly'' (sp_cycle p), sb_currency = or_default ''USD'' (sp_currency p),
               sb_contract = sp_contract p, sb_period_start = utc_day now, sb_period_end = period_end (tz e) now,
               sb_runs = 0, sb_monitors = 0, sb_hash = [], sb_created = now, sb_updated = now\<rparr>
      in s\<lparr>sb_hash := subscriptionIntegrityHash e s\<rparr>)"

definition createSubscription ::
  "com_env \<Rightarrow> time \<Rightarrow> string \<Rightarrow> string \<Rightarrow> sub_params \<Rightarrow> com_db \<Rightarrow> (com_error + subscription) \<times> com_db" where
  "createSubscription e now i tenantId p db =
     (if find_sub tenantId db \<noteq> None then (Inl SubscriptionExists, db)
      else if i \<in> sb_id ` set (c_subs db) \<or> or_default ''monthly'' (sp_cycle p) \<notin> set billing_cycles
        then (Inl ConstraintViolation, db)
      else (let s = new_subscription e now i tenantId p in (Inr s, db\<lparr>c_subs := c_subs db @ [s]\<rparr>)))"

definition recordValidationRun ::
  "com_env \<Rightarrow> time \<Rightarrow> string \<Rightarrow> com_db \<Rightarrow> (com_error + bool \<times> rat) \<times> com_db" where
  "recordValidationRun e now tenantId db =
     (case getSubscription e tenantId db of
        Inl x \<Rightarrow> (Inl x, db)
      | Inr None \<Rightarrow> (Inl NoSubscription, db)
      | Inr (Some s) \<Rightarrow>
          let n = sb_runs s + 1;
              over = (sb_included_runs s > 0 \<and> n > sb_included_runs s);
              charge = (if over then sb_overage_rate s else 0);
              db1 = db\<lparr>c_subs := update_where (\<lambda>x. sb_tenant x = tenantId) (\<lambda>x. x\<lparr>sb_runs := n, sb_updated := now\<rparr>) (c_subs db)\<rparr>
          in (Inr (over, charge),
              if over then db1\<lparr>c_overage := c_overage db1 @
                [\<lparr>oc_tenant = tenantId, oc_included = sb_included_runs s, oc_actual = n,
                  oc_rate = sb_overage_rate s, oc_charge = charge, oc_recorded = now\<rparr>]\<rparr>
              else db1))"

subsection \<open>The monthly commitment\<close>

definition active_registry :: "string \<Rightarrow> com_db \<Rightarrow> registry option" where
  "active_registry tenantId db = List.find (\<lambda>r. ur_tenant r = tenantId \<and> ur_status r = ''active'') (c_regs db)"

definition usable_tokens :: "time \<Rightarrow> string \<Rightarrow> com_db \<Rightarrow> premium_token list" where
  "usable_tokens now tenantId db =
     sort_key (\<lambda>t. - pt_pct t)
       (filter (\<lambda>t. pt_tenant t = tenantId \<and> pt_status t = TIssued \<and> now < pt_expires t) (c_tokens db))"

definition best_token :: "time \<Rightarrow> string \<Rightarrow> com_db \<Rightarrow> premium_token option" where
  "best_token now tenantId db =
     (case usable_tokens now tenantId db of [] \<Rightarrow> None | t # _ \<Rightarrow> Some t)"

record commitment =
  cm_base :: rat
  cm_overage_runs :: int
  cm_overage_runs_usd :: rat
  cm_overage_monitors :: int
  cm_overage_monitors_usd :: rat
  cm_premium :: rat
  cm_discount :: rat
  cm_subtotal :: rat
  cm_tax :: rat
  cm_total :: rat

definition overage :: "int \<Rightarrow> int \<Rightarrow> int" where
  "overage included actual = (if included > 0 then max 0 (actual - included) else 0)"

definition commitment_of :: "subscription \<Rightarrow> rat \<Rightarrow> rat option \<Rightarrow> commitment" where
  "commitment_of s annual tokenValue =
     (let runs = overage (sb_included_runs s) (sb_runs s);
          runsUsd = fmul (of_int runs) (sb_overage_rate s);
          mons = overage (sb_included_monitors s) (sb_monitors s);
          monsUsd = fmul (of_int mons) (sb_monitor_overage s);
          premium = fdiv annual 12;
          discount = (case tokenValue of None \<Rightarrow> 0 | Some v \<Rightarrow> min v premium);
          subtotal = fsub (fadd (fadd (fadd (sb_fee s) runsUsd) monsUsd) premium) discount;
          tax = cents (fmul subtotal TAX_RATE)
      in \<lparr>cm_base = cents (sb_fee s), cm_overage_runs = runs, cm_overage_runs_usd = cents runsUsd,
          cm_overage_monitors = mons, cm_overage_monitors_usd = cents monsUsd,
          cm_premium = cents premium, cm_discount = cents discount, cm_subtotal = cents subtotal,
          cm_tax = tax, cm_total = cents (fadd subtotal tax)\<rparr>)"

definition evaluateMonthlyCommitment ::
  "com_env \<Rightarrow> time \<Rightarrow> string \<Rightarrow> com_db \<Rightarrow> com_error + commitment" where
  "evaluateMonthlyCommitment e now tenantId db =
     (case getSubscription e tenantId db of
        Inl x \<Rightarrow> Inl x
      | Inr None \<Rightarrow> Inl NoSubscription
      | Inr (Some s) \<Rightarrow>
          Inr (commitment_of s (case active_registry tenantId db of None \<Rightarrow> 0 | Some r \<Rightarrow> ur_annual r)
                 (map_option pt_value (best_token now tenantId db))))"

subsection \<open>Invoices\<close>

definition year_of :: "int \<Rightarrow> time \<Rightarrow> int" where
  "year_of zone now = fst (civil_of_days ((now + zone) div day_ms))"

definition invoice_prefix :: "string \<Rightarrow> int \<Rightarrow> string" where
  "invoice_prefix tenantId year = ''INV-'' @ to_upper (take 6 tenantId) @ ''-'' @ int_str year @ ''-''"

definition nextInvoiceNumber :: "com_env \<Rightarrow> time \<Rightarrow> string \<Rightarrow> com_db \<Rightarrow> string" where
  "nextInvoiceNumber e now tenantId db =
     (let p = invoice_prefix tenantId (year_of (tz e) now);
          n = count_where (\<lambda>l. lg_tenant l = tenantId \<and> sql_like (p @ ''%'') (lg_number l)) (c_ledgers db)
      in p @ pad_left 4 (nat_digits (int n + 1)))"

text \<open>
  Two signs of the descriptions lie outside ASCII. The description is only stored, and SQLite stores text
  as UTF-8; they are written by their UTF-8 bytes.
\<close>

definition em_dash :: string where "em_dash = [CHR 0xE2, CHR 0x80, CHR 0x94]"
definition cross_sign :: string where "cross_sign = [CHR 0xC3, CHR 0x97]"

definition line_specs :: "com_env \<Rightarrow> time \<Rightarrow> subscription \<Rightarrow> commitment \<Rightarrow> (string \<times> string \<times> rat \<times> rat \<times> bool \<times> int) list" where
  "line_specs e now s c =
     [(''base_fee'', tier_str (sb_tier s) @ '' plan '' @ em_dash @ '' '' @ month_label e now, 1, cm_base c, False, 10)]
     @ (if cm_overage_runs c > 0 then
          [(''overage_runs'', ''Validation run overages ('' @ int_str (cm_overage_runs c) @ '' '' @ cross_sign @ '' $'' @ to_fixed_str 4 (sb_overage_rate s) @ '')'',
            of_int (cm_overage_runs c), sb_overage_rate s, False, 20)] else [])
     @ (if cm_overage_monitors c > 0 then
          [(''overage_monitors'', ''Monitor overages ('' @ int_str (cm_overage_monitors c) @ '' '' @ cross_sign @ '' $'' @ to_fixed_str 2 (sb_monitor_overage s) @ '')'',
            of_int (cm_overage_monitors c), sb_monitor_overage s, False, 30)] else [])
     @ (if cm_premium c > 0 then [(''insurance_premium'', ''Cyber liability insurance '' @ em_dash @ '' monthly pro-rata'', 1, cm_premium c, False, 40)] else [])
     @ (if cm_discount c > 0 then [(''premium_discount'', ''Underwriting premium reduction token applied'', 1, - cm_discount c, True, 50)] else [])
     @ (if cm_tax c > 0 then [(''tax'', ''VAT / Service tax (7.5%)'', 1, cm_tax c, False, 90)] else [])"

definition line_of :: "time \<Rightarrow> string \<Rightarrow> string \<Rightarrow> string \<Rightarrow> string \<times> string \<times> rat \<times> rat \<times> bool \<times> int \<Rightarrow> line_item" where
  "line_of now lid tenantId i = (\<lambda>(ty, d, q, u, c, k).
     \<lparr>li_id = i, li_ledger = lid, li_tenant = tenantId, li_type = ty, li_description = d, li_quantity = q,
      li_unit_price = u, li_total = cents (fmul q u), li_credit = c, li_order = k, li_created = now\<rparr>)"

fun lines_from :: "time \<Rightarrow> string \<Rightarrow> string \<Rightarrow> (nat \<Rightarrow> string) \<Rightarrow> nat \<Rightarrow>
    (string \<times> string \<times> rat \<times> rat \<times> bool \<times> int) list \<Rightarrow> line_item list" where
  "lines_from now lid t ids k [] = []"
| "lines_from now lid t ids k (x # xs) = line_of now lid t (ids k) x # lines_from now lid t ids (Suc k) xs"

definition new_ledger ::
  "com_env \<Rightarrow> time \<Rightarrow> string \<Rightarrow> string \<Rightarrow> subscription \<Rightarrow> commitment \<Rightarrow> string option \<Rightarrow> rat \<Rightarrow> string \<Rightarrow> ledger" where
  "new_ledger e now lid number s c token fxRate currency =
     \<lparr>lg_id = lid, lg_tenant = sb_tenant s, lg_number = number, lg_period_start = sb_period_start s,
      lg_period_end = sb_period_end s, lg_tier = sb_tier s, lg_fee_snapshot = sb_fee s,
      lg_runs_snapshot = sb_included_runs s, lg_rate_snapshot = sb_overage_rate s, lg_runs = sb_runs s,
      lg_monitors = sb_monitors s, lg_base = cm_base c, lg_overage_runs = cm_overage_runs_usd c,
      lg_overage_monitors = cm_overage_monitors_usd c, lg_premium = cm_premium c, lg_discount = cm_discount c,
      lg_tax = cm_tax c, lg_total = cm_total c, lg_currency = currency, lg_fx_rate = fxRate,
      lg_total_local = cents (fmul (cm_total c) fxRate), lg_status = Issued, lg_issued = Some now,
      lg_due = Some (now + 14 * day_ms), lg_token = token,
      lg_hash = sha e (json_object [(''ledger_id'', SStr lid), (''invoice_number'', SStr number),
        (''tenant_id'', SStr (sb_tenant s)), (''period_start'', s_time (sb_period_start s)),
        (''period_end'', s_time (sb_period_end s)), (''total_usd'', SNum (cm_total c))]),
      lg_signature = invoiceSignature e number (cm_total c) (sb_period_start s) (sb_period_end s) Issued,
      lg_created = now, lg_updated = now\<rparr>"

definition use_token :: "time \<Rightarrow> string \<Rightarrow> string \<Rightarrow> com_db \<Rightarrow> com_db" where
  "use_token now lid i db =
     db\<lparr>c_tokens := update_where (\<lambda>t. pt_id t = i)
          (\<lambda>t. t\<lparr>pt_status := TApplied, pt_invoice := Some lid, pt_applied := Some now\<rparr>) (c_tokens db)\<rparr>"

definition reset_counters :: "time \<Rightarrow> string \<Rightarrow> com_db \<Rightarrow> com_db" where
  "reset_counters now tenantId db =
     db\<lparr>c_subs := update_where (\<lambda>s. sb_tenant s = tenantId) (\<lambda>s. s\<lparr>sb_runs := 0, sb_monitors := 0, sb_updated := now\<rparr>) (c_subs db)\<rparr>"

record invoice_nonce =
  iv_ledger :: string
  iv_lines :: "nat \<Rightarrow> string"
  iv_eval :: time
  iv_now :: time

text \<open>
  \<open>iv_eval\<close> is the reading of the clock in \<open>evaluateMonthlyCommitment\<close>, \<open>iv_now\<close> the later one with
  which the token is looked up again and the rows are stamped.
\<close>

definition generateInvoice ::
  "com_env \<Rightarrow> invoice_nonce \<Rightarrow> string \<Rightarrow> rat \<Rightarrow> string \<Rightarrow> com_db \<Rightarrow> (com_error + ledger \<times> line_item list) \<times> com_db" where
  "generateInvoice e n tenantId fxRate currency db =
     (case evaluateMonthlyCommitment e (iv_eval n) tenantId db of
        Inl x \<Rightarrow> (Inl x, db)
      | Inr c \<Rightarrow>
        (case find_sub tenantId db of
           None \<Rightarrow> (Inl NoSubscription, db)
         | Some s \<Rightarrow>
             let now = iv_now n;
                 number = nextInvoiceNumber e now tenantId db;
                 token = best_token now tenantId db;
                 l = new_ledger e now (iv_ledger n) number s c (map_option pt_id token) fxRate currency;
                 items = lines_from now (iv_ledger n) tenantId (iv_lines n) 0 (line_specs e now s c);
                 db1 = db\<lparr>c_ledgers := c_ledgers db @ [l], c_lines := c_lines db @ items\<rparr>;
                 db2 = (case token of None \<Rightarrow> db1 | Some t \<Rightarrow> use_token now (iv_ledger n) (pt_id t) db1)
             in if iv_ledger n \<in> lg_id ` set (c_ledgers db) \<or> number \<in> lg_number ` set (c_ledgers db)
                  \<or> \<not> distinct (map li_id (c_lines db @ items))
                then (Inl ConstraintViolation, db)
                else (Inr (l, items), reset_counters now tenantId db2)))"

subsection \<open>Applying a token to an invoice\<close>

definition ledger_json :: "ledger \<Rightarrow> string" where
  "ledger_json l = json_object
     [(''id'', SStr (lg_id l)), (''tenant_id'', SStr (lg_tenant l)), (''invoice_number'', SStr (lg_number l)),
      (''period_start'', s_time (lg_period_start l)), (''period_end'', s_time (lg_period_end l)),
      (''tier_snapshot'', SStr (tier_str (lg_tier l))), (''monthly_fee_snapshot'', SNum (lg_fee_snapshot l)),
      (''included_runs_snapshot'', s_int (lg_runs_snapshot l)), (''overage_rate_snapshot'', SNum (lg_rate_snapshot l)),
      (''actual_runs'', s_int (lg_runs l)), (''actual_monitors'', s_int (lg_monitors l)),
      (''base_fee_usd'', SNum (lg_base l)), (''overage_runs_usd'', SNum (lg_overage_runs l)),
      (''overage_monitors_usd'', SNum (lg_overage_monitors l)), (''insurance_premium_usd'', SNum (lg_premium l)),
      (''premium_discount_usd'', SNum (lg_discount l)), (''tax_usd'', SNum (lg_tax l)), (''total_usd'', SNum (lg_total l)),
      (''invoice_currency'', SStr (lg_currency l)), (''fx_rate'', SNum (lg_fx_rate l)), (''total_local'', SNum (lg_total_local l)),
      (''status'', SStr (status_str (lg_status l))), (''issued_at'', s_opt s_time (lg_issued l)),
      (''due_at'', s_opt s_time (lg_due l)), (''paid_at'', SNull), (''payment_reference'', SNull), (''payment_method'', SNull),
      (''applied_token_id'', s_opt SStr (lg_token l)), (''invoice_hash'', SStr (lg_hash l)), (''signature'', SStr (lg_signature l)),
      (''notes'', SNull), (''created_at'', s_time (lg_created l)), (''updated_at'', s_time (lg_updated l))]"

definition find_ledger :: "string \<Rightarrow> com_db \<Rightarrow> ledger option" where
  "find_ledger i db = List.find (\<lambda>l. lg_id l = i) (c_ledgers db)"

definition find_token :: "string \<Rightarrow> com_db \<Rightarrow> premium_token option" where
  "find_token i db = List.find (\<lambda>t. pt_id t = i) (c_tokens db)"

definition token_problem :: "com_env \<Rightarrow> time \<Rightarrow> ledger \<Rightarrow> premium_token \<Rightarrow> com_error option" where
  "token_problem e now l t =
     (if pt_status t \<noteq> TIssued then Some (TokenUnavailable (pt_status t))
      else if pt_tenant t \<noteq> lg_tenant l then Some TokenTenantMismatch
      else if pt_expires t < now then Some TokenExpiredError
      else if pt_signature t \<noteq> tokenSignature e (pt_id t) (pt_tenant t) (pt_pct t) (pt_snapshot t) (pt_expires t)
        then Some TokenTampered
      else None)"

definition discounted :: "com_env \<Rightarrow> time \<Rightarrow> string \<Rightarrow> rat \<Rightarrow> ledger \<Rightarrow> ledger" where
  "discounted e now tokenId d l =
     (let total = cents (fsub (lg_total l) d)
      in l\<lparr>lg_discount := d, lg_total := total, lg_total_local := cents (fmul total (lg_fx_rate l)),
           lg_token := Some tokenId,
           lg_hash := sha e (ledger_json (l\<lparr>lg_total := total, lg_token := Some tokenId\<rparr>)),
           lg_signature := invoiceSignature e (lg_number l) total (lg_period_start l) (lg_period_end l) (lg_status l),
           lg_updated := now\<rparr>)"

definition applyPremiumReductionToken ::
  "com_env \<Rightarrow> time \<Rightarrow> string \<Rightarrow> string \<Rightarrow> string \<Rightarrow> com_db \<Rightarrow> (com_error + ledger) \<times> com_db" where
  "applyPremiumReductionToken e now lineId ledgerId tokenId db =
     (case find_ledger ledgerId db of
        None \<Rightarrow> (Inl LedgerNotFound, db)
      | Some l \<Rightarrow>
          if lg_status l \<noteq> Draft \<and> lg_status l \<noteq> Issued then (Inl (LedgerClosed (lg_status l)), db)
          else
            (case find_token tokenId db of
               None \<Rightarrow> (Inl TokenNotFound, db)
             | Some t \<Rightarrow>
                 (case token_problem e now l t of
                    Some x \<Rightarrow> (Inl x, db)
                  | None \<Rightarrow>
                      let d = min (pt_value t) (lg_premium l);
                          l' = discounted e now tokenId d l;
                          item = \<lparr>li_id = lineId, li_ledger = ledgerId, li_tenant = lg_tenant l, li_type = ''premium_discount'',
                            li_description = ''Premium reduction token applied ('' @ num_str (Fin (pt_pct t)) @ ''% discount)'',
                            li_quantity = 1, li_unit_price = - d, li_total = d, li_credit = True, li_order = 55, li_created = now\<rparr>
                      in if lineId \<in> li_id ` set (c_lines db) then (Inl ConstraintViolation, db)
                         else (Inr l', use_token now ledgerId tokenId
                            (db\<lparr>c_ledgers := update_where (\<lambda>x. lg_id x = ledgerId) (\<lambda>x. l') (c_ledgers db),
                                c_lines := c_lines db @ [item]\<rparr>)))))"

subsection \<open>Retrieval\<close>

definition getLedgerHistory :: "string \<Rightarrow> int \<Rightarrow> com_db \<Rightarrow> ledger list" where
  "getLedgerHistory tenantId n db =
     sql_limit n 0 (sort_key (\<lambda>l. - lg_period_start l) (filter (\<lambda>l. lg_tenant l = tenantId) (c_ledgers db)))"

definition getLineItems :: "string \<Rightarrow> com_db \<Rightarrow> line_item list" where
  "getLineItems ledgerId db = sort_key li_order (filter (\<lambda>x. li_ledger x = ledgerId) (c_lines db))"

definition getActiveTokens :: "time \<Rightarrow> string \<Rightarrow> com_db \<Rightarrow> premium_token list" where
  "getActiveTokens now tenantId db = usable_tokens now tenantId db"

end
