(* ===== verification/Underwriting.thy ===== *)
theory Underwriting
  imports Billing
begin

section \<open>Underwriting: risk score, golden thread, premium tokens\<close>

text \<open>
  The underwriting operations of src/services/commercialEngine.ts: registration of a policy, the audit
  that scores a tenant, chains the snapshot into the golden thread and emits a token, and the
  look-ups. The audit is not a transaction, but no statement of it after the registry look-up can
  fail: the ids are fresh and the references exist. \<open>PRAGMA integrity_check\<close> is an argument.
\<close>

definition AUDIT_WINDOW_DAYS :: int where "AUDIT_WINDOW_DAYS = 30"

definition deriveRiskBand :: "int \<Rightarrow> risk_band" where
  "deriveRiskBand score = (if score \<le> 25 then GREEN else if score \<le> 50 then AMBER else if score \<le> 75 then ORANGE else RED)"

fun discountForBand :: "risk_band \<Rightarrow> rat option" where
  "discountForBand GREEN = Some 20"
| "discountForBand AMBER = Some 15"
| "discountForBand ORANGE = Some 10"
| "discountForBand RED = None"

subsection \<open>The score\<close>

definition collect_inputs :: "com_env \<Rightarrow> bool \<Rightarrow> time \<Rightarrow> string \<Rightarrow> com_db \<Rightarrow> score_inputs" where
  "collect_inputs e dbOk since tenantId db =
     (let ps = filter (\<lambda>p. po_tenant p = tenantId \<and> since \<le> po_created p) (t_payouts (c_plat db));
          an = filter (\<lambda>a. al_tenant a = tenantId \<and> since \<le> al_created a) (t_anomalies (c_plat db));
          sl = filter (\<lambda>q. since \<le> sq_recorded q) (c_slow db)
      in \<lparr>in_total = length ps,
          in_failed = count_where (\<lambda>p. po_status p = ''failed'') ps,
          in_duplicate = count_where (\<lambda>p. po_status p = ''duplicate'') ps,
          in_high = count_where (\<lambda>a. al_risk a = Risk_high) an,
          in_critical = count_where (\<lambda>a. al_risk a = Risk_critical) an,
          in_lockouts = count_where (\<lambda>a. al_lockout a \<noteq> None) an,
          in_slow = length sl,
          in_avg_ms = (if sl = [] then 0 else sql_avg e (map sq_duration sl)),
          in_breaches = count_where (\<lambda>t. since \<le> t) (c_reports db),
          in_failovers = count_where (\<lambda>q. has_sub ''failover'' (to_lower (sq_label q))) sl,
          in_db_ok = dbOk\<rparr>)"

definition failure_rate :: "score_inputs \<Rightarrow> rat" where
  "failure_rate i = (if 0 < in_total i then fdiv (of_nat (in_failed i)) (of_nat (in_total i)) else 0)"

definition score_operational :: "score_inputs \<Rightarrow> int" where
  "score_operational i =
     (let a = (if in_db_ok i then 0 else 40);
          b = (if 0 < in_failovers i then min (int (in_failovers i) * 15) 30 else 0);
          c = (if 50 < in_slow i then 20 else if 20 < in_slow i then 10 else if 5 < in_slow i then 5 else 0);
          d = (if 500 < in_avg_ms i then 10 else if 200 < in_avg_ms i then 5 else 0)
      in min (a + b + c + d) 100)"

definition score_security :: "score_inputs \<Rightarrow> int" where
  "score_security i =
     min (min (int (in_critical i) * 12) 48 + min (int (in_high i) * 4) 24 + min (int (in_lockouts i) * 3) 18) 100"

definition score_compliance :: "score_inputs \<Rightarrow> int" where
  "score_compliance i = min (min (int (in_breaches i) * 20) 60 + min (int (in_duplicate i) * 8) 40) 100"

definition score_financial :: "score_inputs \<Rightarrow> int" where
  "score_financial i =
     (let r = failure_rate i
      in if rnd (25 / 100) < r then 100 else if rnd (15 / 100) < r then 75 else if rnd (8 / 100) < r then 50
         else if rnd (3 / 100) < r then 25 else if rnd (1 / 100) < r then 10 else 0)"

definition component_scores_of :: "score_inputs \<Rightarrow> component_scores" where
  "component_scores_of i = \<lparr>sc_operational = score_operational i, sc_security = score_security i,
     sc_compliance = score_compliance i, sc_financial = score_financial i\<rparr>"

definition composite :: "component_scores \<Rightarrow> int" where
  "composite c =
     js_round (fadd (fadd (fadd (fmul (of_int (sc_operational c)) (rnd (30 / 100))) (fmul (of_int (sc_security c)) (rnd (30 / 100))))
       (fmul (of_int (sc_compliance c)) (rnd (20 / 100)))) (fmul (of_int (sc_financial c)) (rnd (20 / 100))))"

subsection \<open>Registration\<close>

record policy_params =
  pp_carrier :: string
  pp_carrier_id :: string
  pp_number :: string
  pp_coverage :: string
  pp_limit :: rat
  pp_deductible :: rat
  pp_annual :: rat
  pp_start :: string
  pp_end :: string
  pp_jurisdiction :: "string option"

definition golden_seed :: "com_env \<Rightarrow> string \<Rightarrow> string \<Rightarrow> string \<Rightarrow> string \<Rightarrow> string" where
  "golden_seed e i tenantId policyNumber carrier =
     hm e (i @ ''|'' @ tenantId @ ''|'' @ policyNumber @ ''|'' @ carrier)"

definition new_registry :: "com_env \<Rightarrow> time \<Rightarrow> string \<Rightarrow> string \<Rightarrow> policy_params \<Rightarrow> registry" where
  "new_registry e now i tenantId p =
     \<lparr>ur_id = i, ur_tenant = tenantId, ur_carrier = pp_carrier p, ur_carrier_id = pp_carrier_id p, ur_policy = pp_number p,
      ur_coverage = pp_coverage p, ur_limit = pp_limit p, ur_deductible = pp_deductible p, ur_annual = pp_annual p,
      ur_score = 50, ur_band = AMBER, ur_pct = None, ur_effective = pp_annual p,
      ur_golden = golden_seed e i tenantId (pp_number p) (pp_carrier p), ur_start_date = pp_start p, ur_end_date = pp_end p,
      ur_last_audit = now, ur_next_audit = now + AUDIT_WINDOW_DAYS * day_ms, ur_clean = 0, ur_status = ''active'',
      ur_jurisdiction = or_default ''GH'' (pp_jurisdiction p), ur_created = now, ur_updated = now\<rparr>"

definition registerPolicy ::
  "com_env \<Rightarrow> time \<Rightarrow> string \<Rightarrow> string \<Rightarrow> policy_params \<Rightarrow> com_db \<Rightarrow> (com_error + registry) \<times> com_db" where
  "registerPolicy e now i tenantId p db =
     (if i \<in> ur_id ` set (c_regs db) \<or> pp_number p \<in> ur_policy ` set (c_regs db) \<or> pp_coverage p \<notin> set coverage_checks
      then (Inl ConstraintViolation, db)
      else (let r = new_registry e now i tenantId p in (Inr r, db\<lparr>c_regs := c_regs db @ [r]\<rparr>)))"

subsection \<open>The audit\<close>

definition find_registry :: "string \<Rightarrow> string \<Rightarrow> com_db \<Rightarrow> registry option" where
  "find_registry i tenantId db = List.find (\<lambda>r. ur_id r = i \<and> ur_tenant r = tenantId) (c_regs db)"

definition snapshot_json :: "string \<Rightarrow> string \<Rightarrow> string \<Rightarrow> score_inputs \<Rightarrow> string" where
  "snapshot_json sid rid tenantId i =
     (let c = component_scores_of i; n = (\<lambda>k. s_int (int k)); band = deriveRiskBand (composite c)
      in json_object
        [(''snapshotId'', SStr sid), (''registryId'', SStr rid), (''tenantId'', SStr tenantId),
         (''compositeScore'', s_int (composite c)), (''riskBand'', SStr (band_str band)), (''discountPct'', s_opt SNum (discountForBand band)),
         (''scoreOperational'', s_int (sc_operational c)), (''scoreSecurity'', s_int (sc_security c)),
         (''scoreCompliance'', s_int (sc_compliance c)), (''scoreFinancial'', s_int (sc_financial c)),
         (''totalRuns'', n (in_total i)), (''failedRuns'', n (in_failed i)), (''duplicateRuns'', n (in_duplicate i)),
         (''cntHigh'', n (in_high i)), (''cntCritical'', n (in_critical i)), (''cntLockouts'', n (in_lockouts i)),
         (''slowCount'', n (in_slow i)), (''avgQueryMs'', SNum (in_avg_ms i)), (''regulatoryBreaches'', n (in_breaches i)),
         (''failoverEvents'', n (in_failovers i)), (''dbIntegrityOk'', SBool (in_db_ok i))])"

definition chain :: "com_env \<Rightarrow> string \<Rightarrow> string \<Rightarrow> string" where
  "chain e previous h = hm e (previous @ ''||'' @ h)"

definition new_snapshot :: "com_env \<Rightarrow> time \<Rightarrow> time \<Rightarrow> string \<Rightarrow> registry \<Rightarrow> score_inputs \<Rightarrow> snapshot" where
  "new_snapshot e since now sid r i =
     (let c = component_scores_of i; h = sha e (snapshot_json sid (ur_id r) (ur_tenant r) i)
      in \<lparr>as_id = sid, as_registry = ur_id r, as_tenant = ur_tenant r, as_from = since, as_to = now, as_inputs = i,
          as_scores = c, as_composite = composite c, as_band = deriveRiskBand (composite c),
          as_pct = discountForBand (deriveRiskBand (composite c)), as_token = None, as_hash = h,
          as_chained = chain e (ur_golden r) h, as_audited = now\<rparr>)"

definition discount_value :: "rat \<Rightarrow> rat \<Rightarrow> rat" where
  "discount_value annual pct = cents (fmul (fdiv annual 12) (fdiv pct 100))"

definition new_token :: "com_env \<Rightarrow> time \<Rightarrow> string \<Rightarrow> registry \<Rightarrow> string \<Rightarrow> rat \<Rightarrow> premium_token" where
  "new_token e now tid r sid pct =
     \<lparr>pt_id = tid, pt_tenant = ur_tenant r, pt_registry = ur_id r, pt_snapshot = sid, pt_pct = pct,
      pt_value = discount_value (ur_annual r) pct, pt_status = TIssued, pt_expires = now + 60 * day_ms,
      pt_invoice = None, pt_applied = None,
      pt_signature = tokenSignature e tid (ur_tenant r) pct sid (now + 60 * day_ms), pt_issued = now\<rparr>"

definition emit_token :: "com_env \<Rightarrow> time \<Rightarrow> string \<Rightarrow> registry \<Rightarrow> string \<Rightarrow> rat \<Rightarrow> com_db \<Rightarrow> com_db" where
  "emit_token e now tid r sid pct db =
     db\<lparr>c_tokens := update_where (\<lambda>t. pt_tenant t = ur_tenant r \<and> pt_status t = TIssued \<and> pt_id t \<noteq> tid)
            (\<lambda>t. t\<lparr>pt_status := TRevoked\<rparr>) (c_tokens db @ [new_token e now tid r sid pct]),
        c_snaps := update_where (\<lambda>s. as_id s = sid) (\<lambda>s. s\<lparr>as_token := Some tid\<rparr>) (c_snaps db)\<rparr>"

definition effective_premium :: "rat \<Rightarrow> rat option \<Rightarrow> rat" where
  "effective_premium annual pct =
     (case pct of None \<Rightarrow> annual | Some p \<Rightarrow> cents (fmul annual (fsub 1 (fdiv p 100))))"

definition audited :: "time \<Rightarrow> snapshot \<Rightarrow> registry \<Rightarrow> registry" where
  "audited now s r = r\<lparr>ur_score := as_composite s, ur_band := as_band s, ur_pct := as_pct s,
     ur_effective := effective_premium (ur_annual r) (as_pct s), ur_golden := as_chained s,
     ur_last_audit := now, ur_next_audit := now + AUDIT_WINDOW_DAYS * day_ms,
     ur_clean := (if as_band s = RED then 0 else ur_clean r + 1), ur_updated := now\<rparr>"

definition computeUnderwritingRiskScore ::
  "com_env \<Rightarrow> bool \<Rightarrow> time \<Rightarrow> string \<Rightarrow> string \<Rightarrow> string \<Rightarrow> string \<Rightarrow> com_db \<Rightarrow> (com_error + snapshot \<times> string option) \<times> com_db" where
  "computeUnderwritingRiskScore e dbOk now sid tid tenantId registryId db =
     (let since = now - AUDIT_WINDOW_DAYS * day_ms; i = collect_inputs e dbOk since tenantId db
      in case find_registry registryId tenantId db of
           None \<Rightarrow> (Inl NoRegistry, db)
         | Some r \<Rightarrow>
             let s = new_snapshot e since now sid r i;
                 db1 = db\<lparr>c_snaps := c_snaps db @ [s]\<rparr>;
                 db2 = (case as_pct s of None \<Rightarrow> db1 | Some pct \<Rightarrow> emit_token e now tid r sid pct db1)
             in (Inr (s, if as_pct s = None then None else Some tid),
                 db2\<lparr>c_regs := update_where (\<lambda>x. ur_id x = registryId) (\<lambda>x. audited now s r) (c_regs db2)\<rparr>))"

subsection \<open>Look-ups and the certificate\<close>

definition getUnderwritingRegistry :: "string \<Rightarrow> com_db \<Rightarrow> registry option" where
  "getUnderwritingRegistry tenantId db = active_registry tenantId db"

text \<open>Rows with equal \<open>audited_at\<close> come in insertion order: the index on (registry, time) ends in the row id.\<close>

definition getAuditSnapshots :: "string \<Rightarrow> int \<Rightarrow> com_db \<Rightarrow> snapshot list" where
  "getAuditSnapshots registryId n db =
     sql_limit n 0 (sort_key (\<lambda>s. - as_audited s) (filter (\<lambda>s. as_registry s = registryId) (c_snaps db)))"

subsection \<open>Rounding in the weighted score\<close>

lemma near_double:
  assumes "\<bar>x\<bar> \<le> 1000"
  shows "\<bar>rnd x - x\<bar> \<le> 1 / 1000000"
proof -
  have "err_rel * 1000 + err_abs \<le> 1 / 1000000" by (simp add: err_rel_def err_abs_def)
  with rnd_near [OF assms] show ?thesis by linarith
qed

lemma weight_term:
  assumes "0 \<le> k" "k \<le> 100" "0 \<le> q" "q \<le> 1"
  shows "\<bar>fmul (of_int k) (rnd q) - of_int k * q\<bar> \<le> 3 / 10000" and "0 \<le> fmul (of_int k) (rnd q)"
proof -
  have q: "\<bar>rnd q - q\<bar> \<le> 1 / 1000000" using assms by (intro near_double) simp
  have r: "0 \<le> rnd q" "rnd q \<le> 1" using assms js.nonneg js.upper [OF _ js.one] by auto
  have k: "0 \<le> (of_int k :: rat)" "(of_int k :: rat) \<le> 100" using assms by linarith+
  have "\<bar>of_int k * rnd q - of_int k * q\<bar> = of_int k * \<bar>rnd q - q\<bar>"
    using k by (simp add: abs_mult flip: right_diff_distrib)
  also have "\<dots> \<le> 100 * (1 / 1000000)" using k q by (intro mult_mono) simp_all
  finally have a: "\<bar>of_int k * rnd q - of_int k * q\<bar> \<le> 1 / 10000" by simp
  have "0 \<le> of_int k * rnd q" "of_int k * rnd q \<le> 100 * 1" using k r by (simp, intro mult_mono) simp_all
  then have "\<bar>rnd (of_int k * rnd q) - of_int k * rnd q\<bar> \<le> 1 / 1000000" by (intro near_double) simp
  with a show "\<bar>fmul (of_int k) (rnd q) - of_int k * q\<bar> \<le> 3 / 10000" unfolding fmul_def by linarith
  show "0 \<le> fmul (of_int k) (rnd q)" using k r by (intro fmul_nonneg)
qed

lemma fadd_near: "\<bar>a\<bar> \<le> 400 \<Longrightarrow> \<bar>b\<bar> \<le> 400 \<Longrightarrow> \<bar>fadd a b - (a + b)\<bar> \<le> 1 / 1000000"
  unfolding fadd_def by (rule near_double) linarith

definition scores_ok :: "component_scores \<Rightarrow> bool" where
  "scores_ok c \<longleftrightarrow> {sc_operational c, sc_security c, sc_compliance c, sc_financial c} \<subseteq> {0..100}"

lemma composite_near:
  assumes "scores_ok c"
  shows "\<bar>10 * composite c - (3 * sc_operational c + 3 * sc_security c + 2 * sc_compliance c + 2 * sc_financial c)\<bar> \<le> 5"
proof -
  note a = assms [unfolded scores_ok_def, simplified]
  define w where "w k q = fmul (of_int k) (rnd q)" for k :: int and q :: rat
  define N where "N = 3 * sc_operational c + 3 * sc_security c + 2 * sc_compliance c + 2 * sc_financial c"
  let ?o = "w (sc_operational c) (30 / 100)" and ?s = "w (sc_security c) (30 / 100)"
    and ?m = "w (sc_compliance c) (20 / 100)" and ?f = "w (sc_financial c) (20 / 100)"
  let ?v = "of_int (3 * sc_operational c + 3 * sc_security c + 2 * sc_compliance c + 2 * sc_financial c) / 10 :: rat"
  have wt: "\<bar>w k q - of_int k * q\<bar> \<le> 3 / 10000" "0 \<le> w k q" if "0 \<le> k" "k \<le> 100" "0 \<le> q" "q \<le> 1" for k q
    unfolding w_def using weight_term [OF that] by simp_all
  have o: "\<bar>?o - of_int (sc_operational c) * (30 / 100)\<bar> \<le> 3 / 10000" "0 \<le> ?o" by (rule wt; use a in simp)+
  have s: "\<bar>?s - of_int (sc_security c) * (30 / 100)\<bar> \<le> 3 / 10000" "0 \<le> ?s" by (rule wt; use a in simp)+
  have m: "\<bar>?m - of_int (sc_compliance c) * (20 / 100)\<bar> \<le> 3 / 10000" "0 \<le> ?m" by (rule wt; use a in simp)+
  have f: "\<bar>?f - of_int (sc_financial c) * (20 / 100)\<bar> \<le> 3 / 10000" "0 \<le> ?f" by (rule wt; use a in simp)+
  have k: "(of_int (sc_operational c) :: rat) \<le> 100" "(of_int (sc_security c) :: rat) \<le> 100"
    "(of_int (sc_compliance c) :: rat) \<le> 100" "(of_int (sc_financial c) :: rat) \<le> 100" using a by simp_all
  have b: "?o \<le> 31" "?s \<le> 31" "?m \<le> 21" "?f \<le> 21" using o s m f k unfolding abs_le_iff by linarith+
  have 1: "\<bar>fadd ?o ?s - (?o + ?s)\<bar> \<le> 1 / 1000000" using b o(2) s(2) by (intro fadd_near) linarith+
  then have 2: "\<bar>fadd (fadd ?o ?s) ?m - (fadd ?o ?s + ?m)\<bar> \<le> 1 / 1000000" using b o(2) s(2) m(2) by (intro fadd_near) linarith+
  then have 3: "\<bar>fadd (fadd (fadd ?o ?s) ?m) ?f - (fadd (fadd ?o ?s) ?m + ?f)\<bar> \<le> 1 / 1000000"
    using 1 b o(2) s(2) m(2) f(2) by (intro fadd_near) linarith+
  have v: "?v = of_int (sc_operational c) * (30 / 100) + of_int (sc_security c) * (30 / 100)
      + of_int (sc_compliance c) * (20 / 100) + of_int (sc_financial c) * (20 / 100)" by simp
  let ?x = "fadd (fadd (fadd ?o ?s) ?m) ?f"
  have "\<bar>?x - ?v\<bar> \<le> 1 / 100" using 1 2 3 o s m f v unfolding abs_le_iff by (intro conjI; linarith)
  moreover have "\<bar>of_int (composite c) - ?x\<bar> \<le> 1 / 2"
    using js_round_near [of ?x] by (simp add: composite_def w_def)
  ultimately have "\<bar>of_int (composite c) - ?v\<bar> < 6 / 10" by linarith
  then have d: "\<bar>of_int (composite c) - of_int N / 10\<bar> < (6 / 10 :: rat)" unfolding N_def .
  then have "of_int (10 * composite c - N) < (6 :: rat)" "of_int (N - 10 * composite c) < (6 :: rat)"
    by (simp_all only: of_int_diff of_int_mult of_int_numeral abs_less_iff) linarith+
  then have "10 * composite c - N < 6" "N - 10 * composite c < 6" by linarith+
  then show ?thesis unfolding N_def by linarith
qed


subsection \<open>Bounds, monotonicity, integer thresholds\<close>

lemma component_scores_ok:
  "scores_ok (component_scores_of i)" "sc_security (component_scores_of i) \<le> 90"
  by (auto simp: scores_ok_def component_scores_of_def score_operational_def score_security_def
        score_compliance_def score_financial_def Let_def)

fun band_rank :: "risk_band \<Rightarrow> nat" where
  "band_rank GREEN = 0"
| "band_rank AMBER = 1"
| "band_rank ORANGE = 2"
| "band_rank RED = 3"

instantiation risk_band :: linorder
begin

definition less_eq_risk_band :: "risk_band \<Rightarrow> risk_band \<Rightarrow> bool" where
  "less_eq_risk_band a b = (band_rank a \<le> band_rank b)"

definition less_risk_band :: "risk_band \<Rightarrow> risk_band \<Rightarrow> bool" where
  "less_risk_band a b = (band_rank a < band_rank b)"

instance
proof
  fix a b c :: risk_band
  show "(a < b) = (a \<le> b \<and> \<not> b \<le> a)" by (auto simp: less_eq_risk_band_def less_risk_band_def)
  show "a \<le> a" by (simp add: less_eq_risk_band_def)
  show "a \<le> b \<Longrightarrow> b \<le> c \<Longrightarrow> a \<le> c" by (simp add: less_eq_risk_band_def)
  show "a \<le> b \<or> b \<le> a" by (auto simp: less_eq_risk_band_def)
  show "a \<le> b \<Longrightarrow> b \<le> a \<Longrightarrow> a = b" by (cases a; cases b) (simp_all add: less_eq_risk_band_def)
qed

end

lemma band_mono: "a \<le> b \<Longrightarrow> deriveRiskBand a \<le> deriveRiskBand b"
  by (simp add: deriveRiskBand_def less_eq_risk_band_def)

text \<open>The discount as a number; no token counts as no discount.\<close>

definition discount_of :: "risk_band \<Rightarrow> rat" where
  "discount_of b = (case discountForBand b of None \<Rightarrow> 0 | Some p \<Rightarrow> p)"

lemma discount_antimono: "a \<le> b \<Longrightarrow> discount_of b \<le> discount_of a"
  by (cases a; cases b) (simp_all add: discount_of_def less_eq_risk_band_def)

definition no_better :: "score_inputs \<Rightarrow> score_inputs \<Rightarrow> bool" where
  "no_better i j \<longleftrightarrow> (in_db_ok j \<longrightarrow> in_db_ok i) \<and> in_failovers i \<le> in_failovers j \<and> in_slow i \<le> in_slow j
     \<and> in_avg_ms i \<le> in_avg_ms j \<and> in_critical i \<le> in_critical j \<and> in_high i \<le> in_high j
     \<and> in_lockouts i \<le> in_lockouts j \<and> in_breaches i \<le> in_breaches j \<and> in_duplicate i \<le> in_duplicate j
     \<and> failure_rate i \<le> failure_rate j"

lemma components_mono:
  assumes "no_better i j"
  shows "score_operational i \<le> score_operational j" "score_security i \<le> score_security j"
    "score_compliance i \<le> score_compliance j" "score_financial i \<le> score_financial j"
proof -
  note a = assms [unfolded no_better_def]
  have m: "min (int x * k) b \<le> min (int y * k) b" if "x \<le> y" "0 \<le> k" for x y k b
    using that by (intro min.mono mult_right_mono) simp_all
  have "(if in_db_ok i then 0 else 40) \<le> (if in_db_ok j then 0 else 40 :: int)" using a by auto
  moreover have "(if 0 < in_failovers i then min (int (in_failovers i) * 15) 30 else 0)
      \<le> (if 0 < in_failovers j then min (int (in_failovers j) * 15) 30 else 0)" using a by auto
  moreover have "(if 50 < in_slow i then 20 else if 20 < in_slow i then 10 else if 5 < in_slow i then 5 else 0)
      \<le> (if 50 < in_slow j then 20 else if 20 < in_slow j then 10 else if 5 < in_slow j then 5 else 0 :: int)" using a by auto
  moreover have "(if 500 < in_avg_ms i then 10 else if 200 < in_avg_ms i then 5 else 0)
      \<le> (if 500 < in_avg_ms j then 10 else if 200 < in_avg_ms j then 5 else 0 :: int)" using a by auto
  ultimately show "score_operational i \<le> score_operational j"
    unfolding score_operational_def Let_def by (intro min.mono add_mono) simp_all
  show "score_security i \<le> score_security j"
    unfolding score_security_def using a by (intro min.mono add_mono) auto
  show "score_compliance i \<le> score_compliance j"
    unfolding score_compliance_def using a by (intro min.mono add_mono) auto
  have "rnd (1 / 100) \<le> rnd (3 / 100)" "rnd (3 / 100) \<le> rnd (8 / 100)" "rnd (8 / 100) \<le> rnd (15 / 100)"
    "rnd (15 / 100) \<le> rnd (25 / 100)" by (rule rnd_mono, simp)+
  then show "score_financial i \<le> score_financial j" using a unfolding score_financial_def Let_def by auto
qed

lemma composite_mono:
  assumes "scores_ok c" "sc_operational c \<le> sc_operational d" "sc_security c \<le> sc_security d"
    "sc_compliance c \<le> sc_compliance d" "sc_financial c \<le> sc_financial d"
  shows "composite c \<le> composite d"
  unfolding composite_def using assms
  by (intro js_round_mono fadd_mono fmul_mono2) (simp_all add: scores_ok_def js.nonneg)

lemma failure_threshold:
  assumes "in_failed i \<le> in_total i" "q * int (in_total i) \<le> 2 ^ 50" "0 \<le> p" "p \<le> q" "0 < q"
  shows "rnd (of_int p / of_int q) < failure_rate i \<longleftrightarrow> p * int (in_total i) < q * int (in_failed i)"
proof (cases "in_total i = 0")
  case True
  then show ?thesis using assms js.nonneg [of "of_int p / of_int q"] by (simp add: failure_rate_def not_less)
next
  case False
  have "rnd (of_int p / of_int q) < rnd (of_int (int (in_failed i)) / of_int (int (in_total i)))
      \<longleftrightarrow> p * int (in_total i) < q * int (in_failed i)"
    using rnd_frac_less_iff [of p q "int (in_failed i)" "int (in_total i)"] assms False
    by (simp add: mult.commute)
  then show ?thesis using False by (simp add: failure_rate_def fdiv_def)
qed

lemma financial_exact:
  assumes "in_failed i \<le> in_total i" "int (in_total i) \<le> 2 ^ 43"
  shows "score_financial i =
     (let f = 100 * int (in_failed i); n = int (in_total i)
      in if 25 * n < f then 100 else if 15 * n < f then 75 else if 8 * n < f then 50 else if 3 * n < f then 25
         else if n < f then 10 else 0)"
proof -
  have "rnd (of_int p / of_int 100) < failure_rate i \<longleftrightarrow> p * int (in_total i) < 100 * int (in_failed i)"
    if "0 \<le> p" "p \<le> 100" for p using assms that by (intro failure_threshold) simp_all
  from this [of 25] this [of 15] this [of 8] this [of 3] this [of 1] show ?thesis
    by (simp add: score_financial_def Let_def del: rnd_0)
qed

lemma composite_range: "0 \<le> composite (component_scores_of i)" "composite (component_scores_of i) \<le> 97"
proof -
  note ok = component_scores_ok [of i]
  have "0 \<le> sc_operational (component_scores_of i)" "0 \<le> sc_security (component_scores_of i)"
    "0 \<le> sc_compliance (component_scores_of i)" "0 \<le> sc_financial (component_scores_of i)"
    "sc_operational (component_scores_of i) \<le> 100" "sc_compliance (component_scores_of i) \<le> 100"
    "sc_financial (component_scores_of i) \<le> 100" "sc_security (component_scores_of i) \<le> 90"
    using ok by (simp_all add: scores_ok_def)
  with composite_near [OF ok(1)] show "0 \<le> composite (component_scores_of i)" "composite (component_scores_of i) \<le> 97"
    by linarith+
qed

text \<open>
  C15: The composite score is the weighted mean. It is an integer nearest to 0.3, 0.3, 0.2 and
  0.2 of the components although the sum is computed in doubles, it never exceeds 97, and it is
  monotone in what the components are computed from: a tenant with no fewer incidents of any kind, no
  smaller failure rate of its payouts and no faster database never gets a smaller score or a larger
  discount. The rate is a quotient: a duplicate payout adds to the incidents, but as one more row it
  can also lower the rate.\<close>

theorem underwriting_score_sound:
  assumes "no_better i j"
  defines "c \<equiv> component_scores_of i"
  shows "\<bar>10 * composite c - (3 * sc_operational c + 3 * sc_security c + 2 * sc_compliance c + 2 * sc_financial c)\<bar> \<le> 5
    \<and> 0 \<le> composite c \<and> composite c \<le> 97
    \<and> composite c \<le> composite (component_scores_of j)
    \<and> discount_of (deriveRiskBand (composite (component_scores_of j))) \<le> discount_of (deriveRiskBand (composite c))"
proof -
  note ok = component_scores_ok [of i, folded c_def]
  note near = composite_near [OF ok(1)]
  have m: "composite c \<le> composite (component_scores_of j)"
    using components_mono [OF assms(1)] ok(1) by (intro composite_mono) (simp_all add: c_def component_scores_of_def)
  with near m composite_range [of i, folded c_def] show ?thesis using discount_antimono [OF band_mono [OF m]] by blast
qed

theorem underwriting_score_sound_witness:
  "let i = \<lparr>in_total = 0, in_failed = 0, in_duplicate = 0, in_high = 1, in_critical = 0, in_lockouts = 1,
         in_slow = 0, in_avg_ms = 0, in_breaches = 0, in_failovers = 0, in_db_ok = True\<rparr>
   in no_better i (i\<lparr>in_critical := 2, in_db_ok := False\<rparr>)
      \<and> composite (component_scores_of i) \<le> composite (component_scores_of (i\<lparr>in_critical := 2, in_db_ok := False\<rparr>))
      \<and> \<bar>10 * composite (component_scores_of i) - 21\<bar> \<le> 5"
proof -
  define i where "i = \<lparr>in_total = 0, in_failed = 0, in_duplicate = 0, in_high = 1, in_critical = 0, in_lockouts = 1,
         in_slow = 0, in_avg_ms = 0, in_breaches = 0, in_failovers = 0, in_db_ok = True\<rparr>"
  have n: "no_better i (i\<lparr>in_critical := 2, in_db_ok := False\<rparr>)"
    by (simp add: no_better_def failure_rate_def i_def)
  have "score_financial i = 0" by (subst financial_exact) (simp_all add: i_def Let_def)
  then have c: "component_scores_of i = \<lparr>sc_operational = 0, sc_security = 7, sc_compliance = 0, sc_financial = 0\<rparr>"
    by (simp add: component_scores_of_def score_operational_def score_security_def score_compliance_def i_def)
  from underwriting_score_sound [OF n] n show ?thesis unfolding Let_def i_def [symmetric] by (simp add: c)
qed

end
