(* ===== verification/Commercial.thy ===== *)
theory Commercial
  imports Underwriting Auth
begin

section \<open>The commercial routes\<close>

text \<open>
  The handlers and the router of src/routes/commercial.ts. A call is a datatype with one constructor
  per route; its arguments are the body, the query or the path parameter after coercion, and
  \<open>call_ok\<close> is the part of the schemas that constrains them. The router checks the access token,
  then the role, then the schema, then runs the handler; a thrown error goes to the error handler.
\<close>

datatype com_call =
  InvoiceSummary int int "ledger_status option"
| GetInvoice string
| GenerateInvoice rat string
| InsuranceCertificate
| RegisterPolicy policy_params
| UnderwritingAudit string
| GetSubscription
| CreateSubscription sub_params
| ApplyToken string string
| GetTokens

definition coverage_types :: "string list" where
  "coverage_types = [''cyber_liability'', ''professional_indemnity'', ''fintech_comprehensive'', ''data_breach'',
     ''operational_risk'', ''regulatory_defence'']"

definition day_format :: "string \<Rightarrow> bool" where
  "day_format s \<longleftrightarrow> length s = 10 \<and> list_all is_digit (take 4 s) \<and> s ! 4 = CHR ''-''
     \<and> list_all is_digit (take 2 (drop 5 s)) \<and> s ! 7 = CHR ''-'' \<and> list_all is_digit (drop 8 s)"

definition opt_ok :: "('a \<Rightarrow> bool) \<Rightarrow> 'a option \<Rightarrow> bool" where
  "opt_ok f v = (case v of None \<Rightarrow> True | Some x \<Rightarrow> f x)"

fun call_ok :: "com_env \<Rightarrow> com_call \<Rightarrow> bool" where
  "call_ok e (InvoiceSummary n m st) \<longleftrightarrow> 1 \<le> n \<and> n \<le> 50 \<and> 0 \<le> m"
| "call_ok e (GetInvoice i) \<longleftrightarrow> uuid_ok e i"
| "call_ok e (GenerateInvoice fx cur) \<longleftrightarrow> 0 < fx \<and> length cur = 3"
| "call_ok e (RegisterPolicy p) \<longleftrightarrow> pp_carrier p \<noteq> [] \<and> pp_carrier_id p \<noteq> [] \<and> pp_number p \<noteq> []
     \<and> pp_coverage p \<in> set coverage_types \<and> 0 < pp_limit p \<and> 0 \<le> pp_deductible p \<and> 0 < pp_annual p
     \<and> day_format (pp_start p) \<and> day_format (pp_end p) \<and> opt_ok (\<lambda>j. j \<noteq> []) (pp_jurisdiction p)"
| "call_ok e (UnderwritingAudit i) \<longleftrightarrow> uuid_ok e i"
| "call_ok e (CreateSubscription p) \<longleftrightarrow> opt_ok (\<lambda>c. c \<in> {''monthly'', ''quarterly'', ''annual''}) (sp_cycle p)
     \<and> opt_ok (\<lambda>c. length c = 3) (sp_currency p) \<and> opt_ok (\<lambda>c. c \<noteq> []) (sp_contract p)
     \<and> opt_ok (\<lambda>x. 0 \<le> x) (sp_fee p) \<and> opt_ok (\<lambda>x. 0 \<le> x) (sp_runs p) \<and> opt_ok (\<lambda>x. 0 \<le> x) (sp_monitors p)
     \<and> opt_ok (\<lambda>x. 0 \<le> x) (sp_rate p) \<and> opt_ok (\<lambda>x. 0 \<le> x) (sp_monitor_rate p)"
| "call_ok e (ApplyToken l t) \<longleftrightarrow> uuid_ok e l \<and> uuid_ok e t"
| "call_ok e InsuranceCertificate \<longleftrightarrow> True"
| "call_ok e GetSubscription \<longleftrightarrow> True"
| "call_ok e GetTokens \<longleftrightarrow> True"

fun call_roles :: "com_call \<Rightarrow> string list" where
  "call_roles InsuranceCertificate = [''Executive'', ''Auditor'']"
| "call_roles GetSubscription = [''Executive'', ''Auditor'']"
| "call_roles GetTokens = [''Executive'', ''Auditor'']"
| "call_roles _ = [''Executive'']"

subsection \<open>What the handlers answer\<close>

record summary_row =
  sr_ledger :: ledger
  sr_lines :: "line_item list"
  sr_token :: "(string \<times> rat \<times> token_status \<times> time) option"
  sr_signature_valid :: bool
  sr_days_outstanding :: int

record summary_totals =
  tt_paid :: rat
  tt_outstanding :: rat
  tt_overdue :: rat
  tt_discounts :: rat
  tt_invoices :: nat
  tt_average :: rat

record invoice_summary =
  is_total :: nat
  is_has_more :: bool
  is_totals :: summary_totals
  is_subscription :: "subscription option"
  is_preview :: "commitment option"
  is_invoices :: "summary_row list"

record certificate =
  ct_registry :: registry
  ct_digest :: string
  ct_golden_valid :: bool
  ct_days_to_expiry :: "int option"
  ct_days_to_audit :: int
  ct_annual :: rat
  ct_monthly :: rat
  ct_savings :: rat
  ct_snapshots :: "snapshot list"
  ct_tokens :: "(premium_token \<times> int) list"
  ct_subscription :: "subscription option"

datatype com_resp =
  Unauthorized401c auth_reject
| Forbidden403 "string option"
| BadRequest400
| MissingTenant400
| NotFound404c
| OtherTenant403
| Failed500 com_error
| SummaryOk invoice_summary
| InvoiceOk ledger "line_item list"
| Generated201 ledger "line_item list"
| CertificateOk certificate
| Registered201 registry
| AuditOk snapshot "string option"
| SubscriptionOk subscription commitment
| Created201 subscription
| AppliedOk ledger
| TokensOk "premium_token list" "premium_token list"

definition requireRole :: "string list \<Rightarrow> request \<Rightarrow> bool" where
  "requireRole roles req = (case caas_role req of None \<Rightarrow> False | Some r \<Rightarrow> r \<noteq> [] \<and> r \<in> set roles)"

definition getTenantId :: "request \<Rightarrow> string option" where
  "getTenantId req = (case h_tenant_id req of Some t \<Rightarrow> if t \<noteq> [] then Some t else None | None \<Rightarrow> None)"

subsection \<open>Reading handlers\<close>

definition days_between :: "time \<Rightarrow> time \<Rightarrow> int" where
  "days_between a b = max 0 ((b - a) div day_ms)"

definition summary_row_of :: "com_env \<Rightarrow> time \<Rightarrow> com_db \<Rightarrow> ledger \<Rightarrow> summary_row" where
  "summary_row_of e now db l =
     \<lparr>sr_ledger = l, sr_lines = getLineItems (lg_id l) db,
      sr_token = (case lg_token l of
          None \<Rightarrow> None
        | Some i \<Rightarrow> if i = [] then None
            else map_option (\<lambda>t. (pt_id t, pt_pct t, pt_status t, pt_issued t)) (find_token i db)),
      sr_signature_valid = (lg_signature l = invoiceSignature e (lg_number l) (lg_total l) (lg_period_start l) (lg_period_end l) (lg_status l)),
      sr_days_outstanding = (case lg_due l of
          None \<Rightarrow> 0
        | Some d \<Rightarrow> if lg_status l \<noteq> Paid then days_between d now else 0)\<rparr>"

definition totals_of :: "com_env \<Rightarrow> ledger list \<Rightarrow> summary_totals" where
  "totals_of e ls =
     (let sum_if = (\<lambda>st. if ls = [] then 0 else sql_sum e (map (\<lambda>l. if lg_status l = st then lg_total l else 0) ls))
      in \<lparr>tt_paid = sum_if Paid, tt_outstanding = sum_if Issued, tt_overdue = sum_if Overdue,
          tt_discounts = (if ls = [] then 0 else sql_sum e (map lg_discount ls)), tt_invoices = length ls,
          tt_average = (if ls = [] then 0 else sql_avg e (map lg_total ls))\<rparr>)"

definition ok_or_none :: "'e + 'a \<Rightarrow> 'a option" where
  "ok_or_none x = (case x of Inl _ \<Rightarrow> None | Inr v \<Rightarrow> Some v)"

definition subscription_or_null :: "com_env \<Rightarrow> string \<Rightarrow> com_db \<Rightarrow> subscription option" where
  "subscription_or_null e t db = (case getSubscription e t db of Inl _ \<Rightarrow> None | Inr s \<Rightarrow> s)"

definition getInvoiceSummary ::
  "com_env \<Rightarrow> time \<Rightarrow> string \<Rightarrow> int \<Rightarrow> int \<Rightarrow> ledger_status option \<Rightarrow> com_db \<Rightarrow> invoice_summary" where
  "getInvoiceSummary e now t n m st db =
     (let mine = filter (\<lambda>l. lg_tenant l = t) (c_ledgers db);
          sel = filter (\<lambda>l. st = None \<or> st = Some (lg_status l)) mine;
          sub = subscription_or_null e t db
      in \<lparr>is_total = length sel, is_has_more = (n + m < int (length sel)), is_totals = totals_of e mine,
          is_subscription = sub,
          is_preview = (case sub of None \<Rightarrow> None | Some s \<Rightarrow> ok_or_none (evaluateMonthlyCommitment e now t db)),
          is_invoices = map (summary_row_of e now db) (sql_limit n m (sort_key (\<lambda>l. - lg_period_start l) sel))\<rparr>)"

definition certificate_digest :: "com_env \<Rightarrow> registry \<Rightarrow> string" where
  "certificate_digest e r =
     hm e (join_with ''|'' [ur_policy r, ur_tenant r, to_fixed_str 2 (of_int (ur_score r)), band_str (ur_band r),
       ur_golden r, iso_string (ur_last_audit r)])"

definition getInsuranceCertificate :: "com_env \<Rightarrow> time \<Rightarrow> string \<Rightarrow> com_db \<Rightarrow> certificate option" where
  "getInsuranceCertificate e now t db =
     (case getUnderwritingRegistry t db of
        None \<Rightarrow> None
      | Some r \<Rightarrow>
          let ss = getAuditSnapshots (ur_id r) 5 db;
              annual = effective_premium (ur_annual r) (ur_pct r)
          in Some \<lparr>ct_registry = r, ct_digest = certificate_digest e r,
               ct_golden_valid = (case ss of [] \<Rightarrow> True | s # _ \<Rightarrow> as_chained s = ur_golden r),
               ct_days_to_expiry = map_option (days_between now) (parse_day e (ur_end_date r)),
               ct_days_to_audit = days_between now (ur_next_audit r),
               ct_annual = annual, ct_monthly = cents (fdiv annual 12),
               ct_savings = (if ur_pct r = None then 0 else cents (fsub (ur_annual r) annual)),
               ct_snapshots = ss,
               ct_tokens = map (\<lambda>p. (p, days_between now (pt_expires p))) (getActiveTokens now t db),
               ct_subscription = subscription_or_null e t db\<rparr>)"

definition getTokens :: "time \<Rightarrow> string \<Rightarrow> com_db \<Rightarrow> premium_token list \<times> premium_token list" where
  "getTokens now t db =
     (usable_tokens now t db,
      sql_limit 20 0 (sort_key (\<lambda>p. - pt_issued p) (filter (\<lambda>p. pt_tenant p = t) (c_tokens db))))"

subsection \<open>Writing handlers\<close>

record com_nonce =
  nc_id :: string
  nc_token :: string
  nc_lines :: "nat \<Rightarrow> string"
  nc_eval :: time
  nc_now :: time
  nc_db_ok :: bool

definition com_audit_log :: "com_audit_row \<Rightarrow> com_db \<Rightarrow> com_db" where
  "com_audit_log r db = db\<lparr>c_audit := c_audit db @ [r]\<rparr>"

definition applyToken_route ::
  "com_env \<Rightarrow> com_nonce \<Rightarrow> request \<Rightarrow> string \<Rightarrow> string \<Rightarrow> string \<Rightarrow> com_db \<Rightarrow> com_resp \<times> com_db" where
  "applyToken_route e n req t lid tid db =
     (case find_ledger lid db of
        None \<Rightarrow> (NotFound404c, db)
      | Some l \<Rightarrow>
          if lg_tenant l \<noteq> t then (OtherTenant403, db)
          else (case applyPremiumReductionToken e (nc_now n) (nc_id n) lid tid db of
                  (Inl x, db') \<Rightarrow> (Failed500 x, db')
                | (Inr l', db') \<Rightarrow>
                    (AppliedOk l', com_audit_log \<lparr>ca_tenant = t, ca_actor = caas_user req, ca_entity = ''premium_reduction_token'',
                       ca_entity_id = tid, ca_action = ''apply'',
                       ca_payload = ApplyPayload lid (lg_number l') (lg_total l') (lg_discount l'), ca_created = nc_now n\<rparr> db')))"

definition registerPolicy_route ::
  "com_env \<Rightarrow> com_nonce \<Rightarrow> request \<Rightarrow> string \<Rightarrow> policy_params \<Rightarrow> com_db \<Rightarrow> com_resp \<times> com_db" where
  "registerPolicy_route e n req t p db =
     (case registerPolicy e (nc_now n) (nc_id n) t p db of
        (Inl x, db') \<Rightarrow> (Failed500 x, db')
      | (Inr r, db') \<Rightarrow>
          (Registered201 r, com_audit_log \<lparr>ca_tenant = t, ca_actor = caas_user req, ca_entity = ''insurance_policy'',
             ca_entity_id = ur_id r, ca_action = ''register'',
             ca_payload = RegisterPayload (pp_carrier_id p) (pp_number p) (pp_coverage p) (ur_band r) (pp_limit p) (pp_annual p) (pp_start p) (pp_end p),
             ca_created = nc_now n\<rparr> db'))"

definition getInvoice_route :: "string \<Rightarrow> string \<Rightarrow> com_db \<Rightarrow> com_resp" where
  "getInvoice_route t i db =
     (case List.find (\<lambda>l. lg_id l = i \<and> lg_tenant l = t) (c_ledgers db) of
        None \<Rightarrow> NotFound404c
      | Some l \<Rightarrow> InvoiceOk l (getLineItems i db))"

definition generateInvoice_route ::
  "com_env \<Rightarrow> com_nonce \<Rightarrow> string \<Rightarrow> rat \<Rightarrow> string \<Rightarrow> com_db \<Rightarrow> com_resp \<times> com_db" where
  "generateInvoice_route e n t fx cur db =
     (case generateInvoice e \<lparr>iv_ledger = nc_id n, iv_lines = nc_lines n, iv_eval = nc_eval n, iv_now = nc_now n\<rparr> t fx cur db of
        (Inl x, db') \<Rightarrow> (Failed500 x, db')
      | (Inr (l, items), db') \<Rightarrow> (Generated201 l items, db'))"

definition triggerUnderwritingAudit ::
  "com_env \<Rightarrow> com_nonce \<Rightarrow> string \<Rightarrow> string \<Rightarrow> com_db \<Rightarrow> com_resp \<times> com_db" where
  "triggerUnderwritingAudit e n t rid db =
     (case computeUnderwritingRiskScore e (nc_db_ok n) (nc_now n) (nc_id n) (nc_token n) t rid db of
        (Inl x, db') \<Rightarrow> (Failed500 x, db')
      | (Inr (s, tok), db') \<Rightarrow> (AuditOk s tok, db'))"

definition getSubscription_route :: "com_env \<Rightarrow> time \<Rightarrow> string \<Rightarrow> com_db \<Rightarrow> com_resp" where
  "getSubscription_route e now t db =
     (case getSubscription e t db of
        Inl x \<Rightarrow> Failed500 x
      | Inr None \<Rightarrow> NotFound404c
      | Inr (Some s) \<Rightarrow> (case evaluateMonthlyCommitment e now t db of Inl x \<Rightarrow> Failed500 x | Inr c \<Rightarrow> SubscriptionOk s c))"

definition createSubscription_route ::
  "com_env \<Rightarrow> com_nonce \<Rightarrow> string \<Rightarrow> sub_params \<Rightarrow> com_db \<Rightarrow> com_resp \<times> com_db" where
  "createSubscription_route e n t p db =
     (case createSubscription e (nc_now n) (nc_id n) t p db of
        (Inl x, db') \<Rightarrow> (Failed500 x, db')
      | (Inr s, db') \<Rightarrow> (Created201 s, db'))"

fun com_handler :: "com_env \<Rightarrow> com_nonce \<Rightarrow> request \<Rightarrow> string \<Rightarrow> com_call \<Rightarrow> com_db \<Rightarrow> com_resp \<times> com_db" where
  "com_handler e n req t (InvoiceSummary k m st) db = (SummaryOk (getInvoiceSummary e (nc_now n) t k m st db), db)"
| "com_handler e n req t (GetInvoice i) db = (getInvoice_route t i db, db)"
| "com_handler e n req t (GenerateInvoice fx cur) db = generateInvoice_route e n t fx cur db"
| "com_handler e n req t InsuranceCertificate db =
     (case getInsuranceCertificate e (nc_now n) t db of None \<Rightarrow> (NotFound404c, db) | Some c \<Rightarrow> (CertificateOk c, db))"
| "com_handler e n req t (RegisterPolicy p) db = registerPolicy_route e n req t p db"
| "com_handler e n req t (UnderwritingAudit rid) db = triggerUnderwritingAudit e n t rid db"
| "com_handler e n req t GetSubscription db = (getSubscription_route e (nc_now n) t db, db)"
| "com_handler e n req t (CreateSubscription p) db = createSubscription_route e n t p db"
| "com_handler e n req t (ApplyToken lid tid) db = applyToken_route e n req t lid tid db"
| "com_handler e n req t GetTokens db = (case getTokens (nc_now n) t db of (a, h) \<Rightarrow> (TokensOk a h, db))"

definition commercialRouter ::
  "com_env \<Rightarrow> (string \<Rightarrow> jwt_result) \<Rightarrow> com_nonce \<Rightarrow> request \<Rightarrow> com_call \<Rightarrow> com_db \<Rightarrow> com_resp \<times> com_db" where
  "commercialRouter e jwt n req0 c db =
     (case requireAccessToken jwt req0 of
        Inl x \<Rightarrow> (Unauthorized401c x, db)
      | Inr req \<Rightarrow>
          if \<not> requireRole (call_roles c) req then (Forbidden403 (caas_role req), db)
          else if \<not> call_ok e c then (BadRequest400, db)
          else (case getTenantId req of
                  None \<Rightarrow> (MissingTenant400, db)
                | Some t \<Rightarrow> com_handler e n req t c db))"

end
