(* ===== verification/CommercialSystem.thy ===== *)
theory CommercialSystem
  imports Commercial
begin

section \<open>The commercial engine as a system\<close>

text \<open>
  The operations of the engine as steps of a system with a clock, the invariants of its tables, and
  the properties of reachable states. \<open>OpOutside\<close> stands for everything the other components
  write: the platform tables, the slow query and report logs, the audit rows. Ids are fresh where a
  collision would not be caught by the model of the statement itself.
\<close>

datatype com_op =
  OpCreate string sub_params
| OpRun string
| OpInvoice string rat string
| OpRegister string policy_params
| OpAudit string string
| OpApply string string
| OpOutside plat_db "slow_query list" "time list" "com_audit_row list"

definition invoice_nonce_of :: "com_nonce \<Rightarrow> invoice_nonce" where
  "invoice_nonce_of n = \<lparr>iv_ledger = nc_id n, iv_lines = nc_lines n, iv_eval = nc_eval n, iv_now = nc_now n\<rparr>"

fun com_op_db :: "com_env \<Rightarrow> com_nonce \<Rightarrow> com_op \<Rightarrow> com_db \<Rightarrow> com_db" where
  "com_op_db e n (OpCreate t p) db = snd (createSubscription e (nc_now n) (nc_id n) t p db)"
| "com_op_db e n (OpRun t) db = snd (recordValidationRun e (nc_now n) t db)"
| "com_op_db e n (OpInvoice t fx cur) db = snd (generateInvoice e (invoice_nonce_of n) t fx cur db)"
| "com_op_db e n (OpRegister t p) db = snd (registerPolicy e (nc_now n) (nc_id n) t p db)"
| "com_op_db e n (OpAudit t rid) db =
     snd (computeUnderwritingRiskScore e (nc_db_ok n) (nc_now n) (nc_id n) (nc_token n) t rid db)"
| "com_op_db e n (OpApply lid tid) db = snd (applyPremiumReductionToken e (nc_now n) (nc_id n) lid tid db)"
| "com_op_db e n (OpOutside pl sl rp au) db = db\<lparr>c_plat := pl, c_slow := sl, c_reports := rp, c_audit := au\<rparr>"

inductive com_step :: "com_env \<Rightarrow> time \<times> com_db \<Rightarrow> time \<times> com_db \<Rightarrow> bool" for e :: com_env where
  com_step: "c \<le> nc_eval n \<Longrightarrow> nc_eval n \<le> nc_now n \<Longrightarrow> nc_id n \<notin> as_id ` set (c_snaps db) \<Longrightarrow>
    nc_token n \<notin> pt_id ` set (c_tokens db) \<Longrightarrow> com_step e (c, db) (nc_now n, com_op_db e n op db)"

definition com_init :: "time \<times> com_db \<Rightarrow> bool" where
  "com_init s \<longleftrightarrow> c_subs (snd s) = [] \<and> c_ledgers (snd s) = [] \<and> c_lines (snd s) = [] \<and> c_regs (snd s) = []
     \<and> c_snaps (snd s) = [] \<and> c_tokens (snd s) = []"

subsection \<open>What each operation does to each table\<close>

lemma find_sub_SomeD: "find_sub t db = Some s \<Longrightarrow> s \<in> set (c_subs db) \<and> sb_tenant s = t"
  by (auto simp: find_sub_def dest: find_SomeD)

lemma find_sub_NoneD: "find_sub t db = None \<Longrightarrow> t \<notin> sb_tenant ` set (c_subs db)"
  by (auto simp: find_sub_def find_None_iff)

lemma best_token_SomeD:
  "best_token now t db = Some x \<Longrightarrow>
   x \<in> set (c_tokens db) \<and> pt_tenant x = t \<and> pt_status x = TIssued \<and> now < pt_expires x"
proof -
  assume "best_token now t db = Some x"
  then have "x \<in> set (usable_tokens now t db)" by (auto simp: best_token_def split: list.splits)
  then show ?thesis by (auto simp: usable_tokens_def)
qed

lemma getSubscription_Some: "getSubscription e t db = Inr (Some s) \<Longrightarrow> find_sub t db = Some s"
  by (auto simp: getSubscription_def split: option.splits if_splits)

lemma evaluate_Inr: "evaluateMonthlyCommitment e now t db = Inr c \<Longrightarrow> \<exists>s. find_sub t db = Some s
    \<and> c = commitment_of s (case active_registry t db of None \<Rightarrow> 0 | Some r \<Rightarrow> ur_annual r) (map_option pt_value (best_token now t db))"
  by (auto simp: evaluateMonthlyCommitment_def dest: getSubscription_Some split: sum.splits option.splits)

lemma createSubscription_cases:
  obtains (same) "snd (createSubscription e now i t p db) = db"
  | (new) "find_sub t db = None" "i \<notin> sb_id ` set (c_subs db)" "sb_cycle (new_subscription e now i t p) \<in> set billing_cycles"
      "snd (createSubscription e now i t p db) = db\<lparr>c_subs := c_subs db @ [new_subscription e now i t p]\<rparr>"
proof (cases "find_sub t db = None \<and> i \<notin> sb_id ` set (c_subs db) \<and> or_default ''monthly'' (sp_cycle p) \<in> set billing_cycles")
  case True
  then show thesis by (intro new) (auto simp: createSubscription_def new_subscription_def Let_def)
next
  case False
  then show thesis by (intro same) (auto simp: createSubscription_def)
qed

lemma recordRun_cases:
  obtains (same) "snd (recordValidationRun e now t db) = db"
  | (counted) s ov where "find_sub t db = Some s"
      "snd (recordValidationRun e now t db) = db\<lparr>c_subs := update_where (\<lambda>x. sb_tenant x = t)
          (\<lambda>x. x\<lparr>sb_runs := sb_runs s + 1, sb_updated := now\<rparr>) (c_subs db), c_overage := ov\<rparr>"
proof (cases "\<exists>s. getSubscription e t db = Inr (Some s)")
  case True
  then obtain s where s: "getSubscription e t db = Inr (Some s)" by blast
  let ?over = "sb_included_runs s > 0 \<and> sb_runs s + 1 > sb_included_runs s"
  show thesis
  proof (rule counted [OF getSubscription_Some [OF s]])
    show "snd (recordValidationRun e now t db) = db\<lparr>c_subs := update_where (\<lambda>x. sb_tenant x = t)
          (\<lambda>x. x\<lparr>sb_runs := sb_runs s + 1, sb_updated := now\<rparr>) (c_subs db),
        c_overage := c_overage (snd (recordValidationRun e now t db))\<rparr>"
      by (simp add: recordValidationRun_def s Let_def)
  qed
next
  case False
  then have "snd (recordValidationRun e now t db) = db"
    by (auto simp: recordValidationRun_def split: sum.splits option.splits)
  then show thesis by (rule same)
qed

text \<open>The invoice transaction, with what it writes named.\<close>

lemma generateInvoice_cases:
  obtains (failed) x where "generateInvoice e n t fx cur db = (Inl x, db)"
  | (stored) s c token items number db2 where
      "find_sub t db = Some s" "evaluateMonthlyCommitment e (iv_eval n) t db = Inr c"
      "token = best_token (iv_now n) t db" "number = nextInvoiceNumber e (iv_now n) t db"
      "iv_ledger n \<notin> lg_id ` set (c_ledgers db)" "number \<notin> lg_number ` set (c_ledgers db)"
      "db2 = (case token of None \<Rightarrow> db\<lparr>c_ledgers := c_ledgers db @ [new_ledger e (iv_now n) (iv_ledger n) number s c (map_option pt_id token) fx cur], c_lines := c_lines db @ items\<rparr>
         | Some x \<Rightarrow> use_token (iv_now n) (iv_ledger n) (pt_id x) (db\<lparr>c_ledgers := c_ledgers db @ [new_ledger e (iv_now n) (iv_ledger n) number s c (map_option pt_id token) fx cur], c_lines := c_lines db @ items\<rparr>))"
      "items = lines_from (iv_now n) (iv_ledger n) t (iv_lines n) 0 (line_specs e (iv_now n) s c)"
      "distinct (map li_id (c_lines db @ items))"
      "generateInvoice e n t fx cur db =
         (Inr (new_ledger e (iv_now n) (iv_ledger n) number s c (map_option pt_id token) fx cur, items), reset_counters (iv_now n) t db2)"
proof (cases "evaluateMonthlyCommitment e (iv_eval n) t db")
  case (Inl x)
  then show thesis by (intro failed) (simp add: generateInvoice_def)
next
  case (Inr c)
  with evaluate_Inr obtain s where s: "find_sub t db = Some s" by blast
  show thesis
  proof (cases "iv_ledger n \<in> lg_id ` set (c_ledgers db) \<or> nextInvoiceNumber e (iv_now n) t db \<in> lg_number ` set (c_ledgers db)
      \<or> \<not> distinct (map li_id (c_lines db @ lines_from (iv_now n) (iv_ledger n) t (iv_lines n) 0 (line_specs e (iv_now n) s c)))")
    case True
    then show thesis using Inr s by (intro failed) (auto simp: generateInvoice_def Let_def)
  next
    case False
    show thesis
      by (rule stored [OF s Inr refl refl _ _ refl refl]) (use False Inr s in \<open>auto simp: generateInvoice_def Let_def\<close>)
  qed
qed


lemma apply_cases:
  obtains (failed) x where "applyPremiumReductionToken e now k lid tid db = (Inl x, db)"
  | (applied) l p d item where
      "find_ledger lid db = Some l" "lg_status l \<in> {Draft, Issued}" "find_token tid db = Some p" "token_problem e now l p = None"
      "d = min (pt_value p) (lg_premium l)" "k \<notin> li_id ` set (c_lines db)"
      "li_id item = k" "li_ledger item = lid" "li_type item = ''premium_discount''"
      "applyPremiumReductionToken e now k lid tid db = (Inr (discounted e now tid d l),
         use_token now lid tid (db\<lparr>c_ledgers := update_where (\<lambda>x. lg_id x = lid) (\<lambda>x. discounted e now tid d l) (c_ledgers db),
           c_lines := c_lines db @ [item]\<rparr>))"
proof (cases "find_ledger lid db")
  case None
  then show thesis by (intro failed) (simp add: applyPremiumReductionToken_def)
next
  case (Some l)
  note l = this
  show thesis
  proof (cases "lg_status l \<noteq> Draft \<and> lg_status l \<noteq> Issued")
    case True
    with l show thesis by (intro failed) (simp add: applyPremiumReductionToken_def)
  next
    case False
    note st = this
    show thesis
    proof (cases "find_token tid db")
      case None
      with l st show thesis by (intro failed [of TokenNotFound]) (auto simp: applyPremiumReductionToken_def)
    next
      case (Some p)
      note p = this
      show thesis
      proof (cases "token_problem e now l p")
        case (Some x)
        with l st p show thesis by (intro failed [of x]) (auto simp: applyPremiumReductionToken_def)
      next
        case None
        note ok = this
        define item where "item = \<lparr>li_id = k, li_ledger = lid, li_tenant = lg_tenant l, li_type = ''premium_discount'',
          li_description = ''Premium reduction token applied ('' @ num_str (Fin (pt_pct p)) @ ''% discount)'', li_quantity = 1,
          li_unit_price = - min (pt_value p) (lg_premium l), li_total = min (pt_value p) (lg_premium l), li_credit = True,
          li_order = 55, li_created = now\<rparr>"
        show thesis
        proof (cases "k \<in> li_id ` set (c_lines db)")
          case True
          with l st p ok show thesis by (intro failed [of ConstraintViolation]) (auto simp: applyPremiumReductionToken_def Let_def)
        next
          case False
          with l st p ok show thesis
            by (intro applied [OF l _ p ok refl False, of item]) (auto simp: applyPremiumReductionToken_def Let_def item_def)
        qed
      qed
    qed
  qed
qed

lemma find_registry_SomeD: "find_registry i t db = Some r \<Longrightarrow> r \<in> set (c_regs db) \<and> ur_id r = i \<and> ur_tenant r = t"
  by (auto simp: find_registry_def dest: find_SomeD)

lemma audit_cases:
  obtains (failed) "find_registry rid t db = None" "computeUnderwritingRiskScore e ok now sid tid t rid db = (Inl NoRegistry, db)"
  | (scored) r s db2 where
      "find_registry rid t db = Some r"
      "s = new_snapshot e (now - AUDIT_WINDOW_DAYS * day_ms) now sid r (collect_inputs e ok (now - AUDIT_WINDOW_DAYS * day_ms) t db)"
      "db2 = (case as_pct s of None \<Rightarrow> db\<lparr>c_snaps := c_snaps db @ [s]\<rparr> | Some pct \<Rightarrow> emit_token e now tid r sid pct (db\<lparr>c_snaps := c_snaps db @ [s]\<rparr>))"
      "computeUnderwritingRiskScore e ok now sid tid t rid db =
         (Inr (s, if as_pct s = None then None else Some tid),
          db2\<lparr>c_regs := update_where (\<lambda>x. ur_id x = rid) (\<lambda>x. audited now s r) (c_regs db)\<rparr>)"
proof (cases "find_registry rid t db")
  case None
  then show thesis by (intro failed) (simp_all add: computeUnderwritingRiskScore_def)
next
  case (Some r)
  define s where "s = new_snapshot e (now - AUDIT_WINDOW_DAYS * day_ms) now sid r (collect_inputs e ok (now - AUDIT_WINDOW_DAYS * day_ms) t db)"
  define db2 where "db2 = (case as_pct s of None \<Rightarrow> db\<lparr>c_snaps := c_snaps db @ [s]\<rparr> | Some pct \<Rightarrow> emit_token e now tid r sid pct (db\<lparr>c_snaps := c_snaps db @ [s]\<rparr>))"
  have "c_regs db2 = c_regs db" by (simp add: db2_def emit_token_def split: option.split)
  then show thesis
    by (intro scored [OF Some s_def db2_def], unfold computeUnderwritingRiskScore_def Let_def Some option.case,
        fold s_def, fold db2_def) simp
qed

subsection \<open>Subscriptions and ledgers stay authentic\<close>

definition subs_ok :: "com_env \<Rightarrow> com_db \<Rightarrow> bool" where
  "subs_ok e db \<longleftrightarrow> distinct (map sb_id (c_subs db)) \<and> distinct (map sb_tenant (c_subs db))
     \<and> (\<forall>s \<in> set (c_subs db). sb_hash s = subscriptionIntegrityHash e s)"

definition signed :: "com_env \<Rightarrow> ledger \<Rightarrow> bool" where
  "signed e l \<longleftrightarrow> lg_signature l = invoiceSignature e (lg_number l) (lg_total l) (lg_period_start l) (lg_period_end l) (lg_status l)"

definition ledgers_ok :: "com_env \<Rightarrow> com_db \<Rightarrow> bool" where
  "ledgers_ok e db \<longleftrightarrow> distinct (map lg_id (c_ledgers db)) \<and> distinct (map lg_number (c_ledgers db))
     \<and> (\<forall>l \<in> set (c_ledgers db). signed e l \<and> lg_status l = Issued
          \<and> (\<exists>s \<in> set (c_subs db). sb_tenant s = lg_tenant l \<and> lg_period_start l = sb_period_start s \<and> lg_period_end l = sb_period_end s))"

lemma hash_cong: "sb_id s = sb_id s' \<Longrightarrow> sb_tenant s = sb_tenant s' \<Longrightarrow> sb_tier s = sb_tier s' \<Longrightarrow> sb_fee s = sb_fee s' \<Longrightarrow>
    sb_period_start s = sb_period_start s' \<Longrightarrow> subscriptionIntegrityHash e s = subscriptionIntegrityHash e s'"
  by (simp add: subscriptionIntegrityHash_def)

lemma subs_ok_update:
  assumes "subs_ok e db" "\<And>x. sb_id (f x) = sb_id x \<and> sb_tenant (f x) = sb_tenant x \<and> sb_tier (f x) = sb_tier x
      \<and> sb_fee (f x) = sb_fee x \<and> sb_period_start (f x) = sb_period_start x \<and> sb_hash (f x) = sb_hash x"
    "c_subs db' = update_where P f (c_subs db)"
  shows "subs_ok e db'"
  using assms(1) unfolding subs_ok_def assms(3)
  by (auto simp: map_update_where assms(2) set_update_where intro: hash_cong split: if_splits)
     (metis assms(2) hash_cong)+

lemma ledgers_ok_cong: "ledgers_ok e db \<Longrightarrow> c_ledgers db' = c_ledgers db \<Longrightarrow>
    (\<And>s. s \<in> set (c_subs db) \<Longrightarrow> \<exists>s' \<in> set (c_subs db'). sb_tenant s' = sb_tenant s \<and> sb_period_start s' = sb_period_start s \<and> sb_period_end s' = sb_period_end s) \<Longrightarrow>
    ledgers_ok e db'"
  unfolding ledgers_ok_def by (metis (no_types, lifting))

lemma subs_kept_update:
  assumes "\<And>x. sb_tenant (f x) = sb_tenant x \<and> sb_period_start (f x) = sb_period_start x \<and> sb_period_end (f x) = sb_period_end x"
    "s \<in> set (c_subs db)"
  shows "\<exists>s' \<in> set (update_where P f (c_subs db)). sb_tenant s' = sb_tenant s \<and> sb_period_start s' = sb_period_start s \<and> sb_period_end s' = sb_period_end s"
proof (rule bexI)
  show "(if P s then f s else s) \<in> set (update_where P f (c_subs db))" using assms(2) by (auto simp: set_update_where)
qed (use assms(1) in auto)


lemma distinct_append_fresh: "distinct (map k xs) \<Longrightarrow> k x \<notin> k ` set xs \<Longrightarrow> distinct (map k (xs @ [x]))"
  by simp

lemma new_subscription_sel [simp]:
  "sb_id (new_subscription e now i t p) = i" "sb_tenant (new_subscription e now i t p) = t"
  "sb_hash (new_subscription e now i t p) = subscriptionIntegrityHash e (new_subscription e now i t p)"
  by (simp_all add: new_subscription_def Let_def subscriptionIntegrityHash_def)

lemma use_token_tables [simp]:
  "c_subs (use_token now l i db) = c_subs db" "c_ledgers (use_token now l i db) = c_ledgers db"
  "c_regs (use_token now l i db) = c_regs db" "c_snaps (use_token now l i db) = c_snaps db"
  by (simp_all add: use_token_def)

lemma reset_counters_tables [simp]:
  "c_ledgers (reset_counters now t db) = c_ledgers db" "c_regs (reset_counters now t db) = c_regs db"
  "c_snaps (reset_counters now t db) = c_snaps db" "c_tokens (reset_counters now t db) = c_tokens db"
  "c_lines (reset_counters now t db) = c_lines db"
  by (simp_all add: reset_counters_def)

lemma emit_token_tables [simp]:
  "c_subs (emit_token e now i r sid pct db) = c_subs db" "c_ledgers (emit_token e now i r sid pct db) = c_ledgers db"
  "c_regs (emit_token e now i r sid pct db) = c_regs db"
  by (simp_all add: emit_token_def)

text \<open>What each operation leaves of the subscriptions.\<close>

lemma op_subs:
  "(\<exists>P f. c_subs (com_op_db e n op db) = update_where P f (c_subs db)
      \<and> (\<forall>x. sb_id (f x) = sb_id x \<and> sb_tenant (f x) = sb_tenant x \<and> sb_tier (f x) = sb_tier x \<and> sb_fee (f x) = sb_fee x
           \<and> sb_period_start (f x) = sb_period_start x \<and> sb_period_end (f x) = sb_period_end x \<and> sb_hash (f x) = sb_hash x
           \<and> sb_cycle (f x) = sb_cycle x))
   \<or> (\<exists>t p. op = OpCreate t p \<and> t \<notin> sb_tenant ` set (c_subs db) \<and> nc_id n \<notin> sb_id ` set (c_subs db)
      \<and> sb_cycle (new_subscription e (nc_now n) (nc_id n) t p) \<in> set billing_cycles
      \<and> com_op_db e n op db = db\<lparr>c_subs := c_subs db @ [new_subscription e (nc_now n) (nc_id n) t p]\<rparr>)"
  (is "?upd \<or> ?new")
proof -
  have keep: ?upd if "c_subs (com_op_db e n op db) = c_subs db"
    using that by (intro exI [of _ "\<lambda>_. False"] exI [of _ "\<lambda>x. x"]) (simp add: update_where_def)
  show ?thesis
  proof (cases op)
    case (OpCreate t p)
    from createSubscription_cases [of e "nc_now n" "nc_id n" t p db] show ?thesis
    proof cases
      case same
      then show ?thesis using keep OpCreate by simp
    next
      case new
      then show ?thesis using OpCreate find_sub_NoneD by auto
    qed
  next
    case (OpRun t)
    from recordRun_cases [of e "nc_now n" t db] show ?thesis
    proof cases
      case same
      then show ?thesis using keep OpRun by simp
    next
      case (counted s ov)
      then show ?thesis using OpRun
        by (intro disjI1 exI [of _ "\<lambda>x. sb_tenant x = t"] exI [of _ "\<lambda>x. x\<lparr>sb_runs := sb_runs s + 1, sb_updated := nc_now n\<rparr>"]) simp
    qed
  next
    case (OpInvoice t fx cur)
    from generateInvoice_cases [of e "invoice_nonce_of n" t fx cur db] show ?thesis
    proof cases
      case (failed x)
      then show ?thesis using keep OpInvoice by simp
    next
      case (stored s c token items number db2)
      then have "c_subs db2 = c_subs db" by (auto split: option.splits)
      with stored show ?thesis using OpInvoice
        by (intro disjI1 exI [of _ "\<lambda>x. sb_tenant x = t"] exI [of _ "\<lambda>x. x\<lparr>sb_runs := 0, sb_monitors := 0, sb_updated := nc_now n\<rparr>"])
           (simp add: reset_counters_def invoice_nonce_of_def)
    qed
  next
    case (OpRegister t p)
    then show ?thesis using keep by (simp add: registerPolicy_def Let_def)
  next
    case (OpAudit t rid)
    from audit_cases [of rid t db e "nc_db_ok n" "nc_now n" "nc_id n" "nc_token n"] show ?thesis
    proof cases
      case failed
      then show ?thesis using keep OpAudit by simp
    next
      case (scored r s db2)
      then have "c_subs db2 = c_subs db" by (auto split: option.splits)
      with scored show ?thesis using keep OpAudit by simp
    qed
  next
    case (OpApply lid tid)
    from apply_cases [of e "nc_now n" "nc_id n" lid tid db] show ?thesis
    proof cases
      case (failed x)
      then show ?thesis using keep OpApply by simp
    next
      case (applied l p d item)
      then show ?thesis using keep OpApply by simp
    qed
  next
    case (OpOutside pl sl rp au)
    then show ?thesis using keep by simp
  qed
qed

lemma subs_ok_op:
  assumes "subs_ok e db"
  shows "subs_ok e (com_op_db e n op db)"
  using op_subs [of e n op db]
proof
  assume "\<exists>P f. c_subs (com_op_db e n op db) = update_where P f (c_subs db)
      \<and> (\<forall>x. sb_id (f x) = sb_id x \<and> sb_tenant (f x) = sb_tenant x \<and> sb_tier (f x) = sb_tier x \<and> sb_fee (f x) = sb_fee x
           \<and> sb_period_start (f x) = sb_period_start x \<and> sb_period_end (f x) = sb_period_end x \<and> sb_hash (f x) = sb_hash x
           \<and> sb_cycle (f x) = sb_cycle x)"
  then show ?thesis using subs_ok_update [OF assms] by blast
next
  assume "\<exists>t p. op = OpCreate t p \<and> t \<notin> sb_tenant ` set (c_subs db) \<and> nc_id n \<notin> sb_id ` set (c_subs db)
      \<and> sb_cycle (new_subscription e (nc_now n) (nc_id n) t p) \<in> set billing_cycles
      \<and> com_op_db e n op db = db\<lparr>c_subs := c_subs db @ [new_subscription e (nc_now n) (nc_id n) t p]\<rparr>"
  then show ?thesis using assms by (auto simp: subs_ok_def)
qed

lemma subs_kept_op:
  assumes "s \<in> set (c_subs db)"
  shows "\<exists>s' \<in> set (c_subs (com_op_db e n op db)). sb_tenant s' = sb_tenant s \<and> sb_period_start s' = sb_period_start s \<and> sb_period_end s' = sb_period_end s"
  using op_subs [of e n op db]
proof
  assume "\<exists>P f. c_subs (com_op_db e n op db) = update_where P f (c_subs db)
      \<and> (\<forall>x. sb_id (f x) = sb_id x \<and> sb_tenant (f x) = sb_tenant x \<and> sb_tier (f x) = sb_tier x \<and> sb_fee (f x) = sb_fee x
           \<and> sb_period_start (f x) = sb_period_start x \<and> sb_period_end (f x) = sb_period_end x \<and> sb_hash (f x) = sb_hash x
           \<and> sb_cycle (f x) = sb_cycle x)"
  then obtain P f where c: "c_subs (com_op_db e n op db) = update_where P f (c_subs db)"
    and f: "\<And>x. sb_tenant (f x) = sb_tenant x \<and> sb_period_start (f x) = sb_period_start x \<and> sb_period_end (f x) = sb_period_end x" by blast
  show ?thesis unfolding c by (rule subs_kept_update [OF f assms])
qed (use assms in auto)


lemma new_ledger_sel [simp]:
  "lg_id (new_ledger e now i nr s c tk fx cur) = i" "lg_number (new_ledger e now i nr s c tk fx cur) = nr"
  "lg_tenant (new_ledger e now i nr s c tk fx cur) = sb_tenant s" "lg_status (new_ledger e now i nr s c tk fx cur) = Issued"
  "lg_period_start (new_ledger e now i nr s c tk fx cur) = sb_period_start s"
  "lg_period_end (new_ledger e now i nr s c tk fx cur) = sb_period_end s"
  "lg_token (new_ledger e now i nr s c tk fx cur) = tk" "lg_total (new_ledger e now i nr s c tk fx cur) = cm_total c"
  "signed e (new_ledger e now i nr s c tk fx cur)"
  by (simp_all add: new_ledger_def signed_def)

lemma discounted_sel [simp]:
  "lg_id (discounted e now tid d l) = lg_id l" "lg_number (discounted e now tid d l) = lg_number l"
  "lg_tenant (discounted e now tid d l) = lg_tenant l" "lg_status (discounted e now tid d l) = lg_status l"
  "lg_period_start (discounted e now tid d l) = lg_period_start l" "lg_period_end (discounted e now tid d l) = lg_period_end l"
  "lg_token (discounted e now tid d l) = Some tid" "signed e (discounted e now tid d l)"
  "lg_total (discounted e now tid d l) = cents (fsub (lg_total l) d)" "lg_discount (discounted e now tid d l) = d"
  "lg_premium (discounted e now tid d l) = lg_premium l"
  by (simp_all add: discounted_def signed_def Let_def)

lemma find_ledger_SomeD: "find_ledger i db = Some l \<Longrightarrow> l \<in> set (c_ledgers db) \<and> lg_id l = i"
  by (auto simp: find_ledger_def dest: find_SomeD)

lemma find_token_SomeD: "find_token i db = Some p \<Longrightarrow> p \<in> set (c_tokens db) \<and> pt_id p = i"
  by (auto simp: find_token_def dest: find_SomeD)

lemma new_snapshot_sel [simp]:
  "as_id (new_snapshot e f now i r k) = i" "as_registry (new_snapshot e f now i r k) = ur_id r" "as_audited (new_snapshot e f now i r k) = now"
  "as_chained (new_snapshot e f now i r k) = chain e (ur_golden r) (as_hash (new_snapshot e f now i r k))"
  "as_pct (new_snapshot e f now i r k) = discountForBand (deriveRiskBand (composite (component_scores_of k)))"
  by (simp_all add: new_snapshot_def Let_def)

lemma discount_levels: "discountForBand b = Some pct \<Longrightarrow> pct \<in> {10, 15, 20}"
  by (cases b) auto

text \<open>What each operation does to ledgers and tokens, in one place.\<close>

lemma op_ledgers:
  obtains (same) "c_ledgers (com_op_db e n op db) = c_ledgers db" "c_tokens (com_op_db e n op db) = c_tokens db"
  | (emitted) t rid r pct where "op = OpAudit t rid" "find_registry rid t db = Some r" "c_ledgers (com_op_db e n op db) = c_ledgers db"
      "pct \<in> {10, 15, 20}" "nc_id n \<in> as_id ` set (c_snaps (com_op_db e n op db))"
      "c_tokens (com_op_db e n op db) = c_tokens (emit_token e (nc_now n) (nc_token n) r (nc_id n) pct db)"
  | (invoiced) t fx cur s c token number where "op = OpInvoice t fx cur" "find_sub t db = Some s" "token = best_token (nc_now n) t db"
      "number = nextInvoiceNumber e (nc_now n) t db" "evaluateMonthlyCommitment e (nc_eval n) t db = Inr c"
      "nc_id n \<notin> lg_id ` set (c_ledgers db)" "number \<notin> lg_number ` set (c_ledgers db)"
      "c_ledgers (com_op_db e n op db) = c_ledgers db @ [new_ledger e (nc_now n) (nc_id n) number s c (map_option pt_id token) fx cur]"
      "c_tokens (com_op_db e n op db) = (case token of None \<Rightarrow> c_tokens db
          | Some x \<Rightarrow> c_tokens (use_token (nc_now n) (nc_id n) (pt_id x) db))"
  | (applied) lid tid l p where "op = OpApply lid tid" "find_ledger lid db = Some l" "find_token tid db = Some p"
      "token_problem e (nc_now n) l p = None"
      "c_ledgers (com_op_db e n op db) = update_where (\<lambda>x. lg_id x = lid)
          (\<lambda>x. discounted e (nc_now n) tid (min (pt_value p) (lg_premium l)) l) (c_ledgers db)"
      "c_tokens (com_op_db e n op db) = c_tokens (use_token (nc_now n) lid tid db)"
proof (cases op)
  case (OpCreate t p)
  then show thesis
    by (intro same; cases rule: createSubscription_cases [of e "nc_now n" "nc_id n" t p db]) simp_all
next
  case (OpRun t)
  then show thesis by (intro same; cases rule: recordRun_cases [of e "nc_now n" t db]) simp_all
next
  case (OpInvoice t fx cur)
  from generateInvoice_cases [of e "invoice_nonce_of n" t fx cur db] show thesis
  proof cases
    case (failed x)
    then show thesis using OpInvoice by (intro same) simp_all
  next
    case (stored s c token items number db2)
    show thesis
      by (rule invoiced [where t = t and fx = fx and cur = cur and s = s and c = c and token = token and number = number];
          use stored OpInvoice in
          \<open>auto simp: invoice_nonce_of_def use_token_def split: option.splits\<close>)
  qed
next
  case (OpRegister t p)
  then show thesis by (intro same) (simp_all add: registerPolicy_def Let_def)
next
  case (OpAudit t rid)
  from audit_cases [of rid t db e "nc_db_ok n" "nc_now n" "nc_id n" "nc_token n"] show thesis
  proof cases
    case failed
    then show thesis using OpAudit by (intro same) simp_all
  next
    case (scored r s db2)
    show thesis
    proof (cases "as_pct s")
      case None
      then show thesis using scored OpAudit by (intro same) simp_all
    next
      case (Some pct)
      then have "pct \<in> {10, 15, 20}" using scored(2) by (intro discount_levels) simp
      then show thesis using scored OpAudit Some by (intro emitted [OF OpAudit scored(1), of pct]) (simp_all add: emit_token_def image_update_where)
    qed
  qed
next
  case (OpApply lid tid)
  from apply_cases [of e "nc_now n" "nc_id n" lid tid db] show thesis
  proof cases
    case (failed x)
    then show thesis using OpApply by (intro same) simp_all
  next
    case (applied l p d item)
    then show thesis using OpApply by (intro that(4) [of lid tid l p]) (simp_all add: use_token_def)
  qed
next
  case (OpOutside pl sl rp au)
  then show thesis by (intro same) simp_all
qed

lemma ledgers_ok_op:
  assumes "ledgers_ok e db"
  shows "ledgers_ok e (com_op_db e n op db)"
  using op_ledgers [of e n op db]
proof cases
  case same
  then show ?thesis using ledgers_ok_cong [OF assms] subs_kept_op by blast
next
  case (emitted t rid r pct)
  then show ?thesis using ledgers_ok_cong [OF assms emitted(3)] subs_kept_op by blast
next
  case (invoiced t fx cur s c token number)
  have s: "s \<in> set (c_subs db)" "sb_tenant s = t" using find_sub_SomeD [OF invoiced(2)] by auto
  from invoiced(6,7) assms have "distinct (map lg_id (c_ledgers (com_op_db e n op db)))"
    "distinct (map lg_number (c_ledgers (com_op_db e n op db)))"
    unfolding invoiced(8) ledgers_ok_def by simp_all
  moreover have "signed e l \<and> lg_status l = Issued
      \<and> (\<exists>s \<in> set (c_subs (com_op_db e n op db)). sb_tenant s = lg_tenant l \<and> lg_period_start l = sb_period_start s \<and> lg_period_end l = sb_period_end s)"
    if l: "l \<in> set (c_ledgers (com_op_db e n op db))" for l
  proof (cases "l \<in> set (c_ledgers db)")
    case True
    then obtain s' where "signed e l" "lg_status l = Issued" "s' \<in> set (c_subs db)" "sb_tenant s' = lg_tenant l"
      "lg_period_start l = sb_period_start s'" "lg_period_end l = sb_period_end s'"
      using assms unfolding ledgers_ok_def by blast
    then show ?thesis using subs_kept_op [of s' db e n op] by auto
  next
    case False
    with l have "l = new_ledger e (nc_now n) (nc_id n) number s c (map_option pt_id token) fx cur" unfolding invoiced(8) by simp
    then show ?thesis using subs_kept_op [OF s(1), of e n op] by auto
  qed
  ultimately show ?thesis unfolding ledgers_ok_def by blast
next
  case (applied lid tid l p)
  have l: "l \<in> set (c_ledgers db)" "lg_id l = lid" using find_ledger_SomeD [OF applied(2)] by auto
  let ?f = "\<lambda>x. discounted e (nc_now n) tid (min (pt_value p) (lg_premium l)) l"
  have d: "distinct (map lg_id (c_ledgers db))" using assms by (simp add: ledgers_ok_def)
  have eq: "x = l" if "x \<in> set (c_ledgers db)" "lg_id x = lid" for x
    using that l d inj_onD [of lg_id "set (c_ledgers db)" x l] by (simp add: distinct_map)
  have keys: "map k (update_where (\<lambda>x. lg_id x = lid) ?f (c_ledgers db)) = map k (c_ledgers db)" if "k (?f l) = k l" for k :: "ledger \<Rightarrow> string"
    unfolding update_where_def map_map by (rule map_cong [OF refl], unfold comp_def, split if_split) (metis eq that)
  have "map lg_id (update_where (\<lambda>x. lg_id x = lid) ?f (c_ledgers db)) = map lg_id (c_ledgers db)"
    "map lg_number (update_where (\<lambda>x. lg_id x = lid) ?f (c_ledgers db)) = map lg_number (c_ledgers db)"
    by (rule keys, simp)+
  moreover have "signed e x \<and> lg_status x = Issued
      \<and> (\<exists>s \<in> set (c_subs (com_op_db e n op db)). sb_tenant s = lg_tenant x \<and> lg_period_start x = sb_period_start s \<and> lg_period_end x = sb_period_end s)"
    if x: "x \<in> set (c_ledgers (com_op_db e n op db))" for x
  proof -
    obtain y where y: "y \<in> set (c_ledgers db)" "lg_status x = lg_status y" "lg_tenant x = lg_tenant y"
        "lg_period_start x = lg_period_start y" "lg_period_end x = lg_period_end y" "signed e y \<longrightarrow> signed e x"
      using x l unfolding applied(5) set_update_where by (auto split: if_splits)
    with assms obtain s' where "signed e y" "lg_status y = Issued" "s' \<in> set (c_subs db)" "sb_tenant s' = lg_tenant y"
      "lg_period_start y = sb_period_start s'" "lg_period_end y = sb_period_end s'"
      unfolding ledgers_ok_def by blast
    then show ?thesis using y subs_kept_op [of s' db e n op] by auto
  qed
  ultimately show ?thesis using assms unfolding ledgers_ok_def applied(5) by (simp add: applied(5))
qed


subsection \<open>Tokens are used once\<close>

definition token_ok :: "com_env \<Rightarrow> ledger list \<Rightarrow> premium_token \<Rightarrow> bool" where
  "token_ok e ls t \<longleftrightarrow> pt_signature t = tokenSignature e (pt_id t) (pt_tenant t) (pt_pct t) (pt_snapshot t) (pt_expires t)
     \<and> pt_status t \<noteq> TExpired \<and> (pt_status t = TApplied \<longleftrightarrow> pt_invoice t \<noteq> None)
     \<and> (\<forall>i. pt_invoice t = Some i \<longrightarrow> (\<exists>l \<in> set ls. lg_id l = i \<and> lg_tenant l = pt_tenant t))"

definition tokens_ok :: "com_env \<Rightarrow> com_db \<Rightarrow> bool" where
  "tokens_ok e db \<longleftrightarrow> distinct (map pt_id (c_tokens db)) \<and> (\<forall>t \<in> set (c_tokens db). token_ok e (c_ledgers db) t)
     \<and> (\<forall>t \<in> set (c_tokens db). \<forall>t' \<in> set (c_tokens db). pt_status t = TIssued \<longrightarrow> pt_status t' = TIssued \<longrightarrow> pt_tenant t = pt_tenant t' \<longrightarrow> t = t')
     \<and> (\<forall>l \<in> set (c_ledgers db). \<forall>i. lg_token l = Some i \<longrightarrow> (\<exists>t \<in> set (c_tokens db). pt_id t = i \<and> pt_invoice t = Some (lg_id l)))"

definition spent :: "time \<Rightarrow> string \<Rightarrow> premium_token \<Rightarrow> premium_token" where
  "spent now lid t = t\<lparr>pt_status := TApplied, pt_invoice := Some lid, pt_applied := Some now\<rparr>"

lemma spent_sel [simp]:
  "pt_id (spent now lid t) = pt_id t" "pt_tenant (spent now lid t) = pt_tenant t" "pt_status (spent now lid t) = TApplied"
  "pt_invoice (spent now lid t) = Some lid" "pt_pct (spent now lid t) = pt_pct t" "pt_value (spent now lid t) = pt_value t"
  "pt_snapshot (spent now lid t) = pt_snapshot t" "pt_expires (spent now lid t) = pt_expires t"
  "pt_signature (spent now lid t) = pt_signature t" "pt_registry (spent now lid t) = pt_registry t"
  by (simp_all add: spent_def)

lemma use_token_eq: "c_tokens (use_token now lid i db) = update_where (\<lambda>t. pt_id t = i) (spent now lid) (c_tokens db)"
  by (simp add: use_token_def spent_def [abs_def])

lemma token_ok_mono: "token_ok e ls t \<Longrightarrow>
    (\<And>l. l \<in> set ls \<Longrightarrow> \<exists>l' \<in> set ls'. lg_id l' = lg_id l \<and> lg_tenant l' = lg_tenant l) \<Longrightarrow> token_ok e ls' t"
  unfolding token_ok_def by metis

text \<open>Spending an issued token on an invoice of its tenant, as both operations do.\<close>

lemma tokens_ok_spend:
  assumes ok: "tokens_ok e db" and p: "p \<in> set (c_tokens db)" "pt_status p = TIssued"
    and toks: "c_tokens db' = update_where (\<lambda>t. pt_id t = pt_id p) (spent now lid) (c_tokens db)"
    and kept: "\<And>l. l \<in> set (c_ledgers db) \<Longrightarrow> \<exists>l' \<in> set (c_ledgers db'). lg_id l' = lg_id l \<and> lg_tenant l' = lg_tenant l"
    and lid: "\<exists>l' \<in> set (c_ledgers db'). lg_id l' = lid \<and> lg_tenant l' = pt_tenant p"
    and led: "\<And>l'. l' \<in> set (c_ledgers db') \<Longrightarrow> (lg_id l' = lid \<and> lg_token l' = Some (pt_id p)) \<or> l' \<in> set (c_ledgers db)"
  shows "tokens_ok e db'"
proof -
  have d: "distinct (map pt_id (c_tokens db))" using ok by (simp add: tokens_ok_def)
  have mem: "t \<in> set (c_tokens db') \<longleftrightarrow> (t = spent now lid p \<or> (t \<in> set (c_tokens db) \<and> pt_id t \<noteq> pt_id p))" for t
  proof -
    have "x = p" if "x \<in> set (c_tokens db)" "pt_id x = pt_id p" for x
      using that p(1) d inj_onD [of pt_id "set (c_tokens db)" x p] by (simp add: distinct_map)
    then show ?thesis using p(1) unfolding toks set_update_where by (auto simp: image_iff)
  qed
  have "distinct (map pt_id (c_tokens db'))" using d unfolding toks by (simp add: map_update_where)
  moreover have "token_ok e (c_ledgers db') t" if "t \<in> set (c_tokens db')" for t
    using that unfolding mem
  proof
    assume "t = spent now lid p"
    moreover have "token_ok e (c_ledgers db) p" using ok p(1) by (simp add: tokens_ok_def)
    ultimately show ?thesis using lid by (auto simp: token_ok_def)
  next
    assume "t \<in> set (c_tokens db) \<and> pt_id t \<noteq> pt_id p"
    then show ?thesis using ok token_ok_mono [OF _ kept] by (auto simp: tokens_ok_def)
  qed
  moreover have "t = t'" if "t \<in> set (c_tokens db')" "t' \<in> set (c_tokens db')" "pt_status t = TIssued" "pt_status t' = TIssued"
      "pt_tenant t = pt_tenant t'" for t t'
    using that ok unfolding mem tokens_ok_def by auto
  moreover have "\<exists>t \<in> set (c_tokens db'). pt_id t = i \<and> pt_invoice t = Some (lg_id l)" if "l \<in> set (c_ledgers db')" "lg_token l = Some i" for l i
    using led [OF that(1)]
  proof
    assume "lg_id l = lid \<and> lg_token l = Some (pt_id p)"
    then show ?thesis using that mem [of "spent now lid p"] by (intro bexI [of _ "spent now lid p"]) auto
  next
    assume "l \<in> set (c_ledgers db)"
    with ok that(2) obtain t where t: "t \<in> set (c_tokens db)" "pt_id t = i" "pt_invoice t = Some (lg_id l)" unfolding tokens_ok_def by blast
    have "token_ok e (c_ledgers db) p" using ok p(1) by (simp add: tokens_ok_def)
    then have "pt_invoice p = None" using p(2) by (simp add: token_ok_def)
    then have "t \<noteq> p" using t by auto
    then have "pt_id t \<noteq> pt_id p" using t(1) p(1) d inj_onD [of pt_id "set (c_tokens db)" t p] by (auto simp: distinct_map)
    with t mem show ?thesis by blast
  qed
  ultimately show ?thesis unfolding tokens_ok_def by blast
qed

definition revoked :: "premium_token \<Rightarrow> premium_token" where
  "revoked t = t\<lparr>pt_status := TRevoked\<rparr>"

lemma revoked_sel [simp]:
  "pt_id (revoked t) = pt_id t" "pt_tenant (revoked t) = pt_tenant t" "pt_status (revoked t) = TRevoked"
  "pt_invoice (revoked t) = pt_invoice t" "pt_pct (revoked t) = pt_pct t" "pt_snapshot (revoked t) = pt_snapshot t"
  "pt_expires (revoked t) = pt_expires t" "pt_signature (revoked t) = pt_signature t"
  by (simp_all add: revoked_def)

lemma new_token_sel [simp]:
  "pt_id (new_token e now i r sid pct) = i" "pt_tenant (new_token e now i r sid pct) = ur_tenant r"
  "pt_status (new_token e now i r sid pct) = TIssued" "pt_invoice (new_token e now i r sid pct) = None"
  "pt_expires (new_token e now i r sid pct) = now + 60 * day_ms"
  "pt_value (new_token e now i r sid pct) = discount_value (ur_annual r) pct" "pt_pct (new_token e now i r sid pct) = pct"
  "token_ok e ls (new_token e now i r sid pct)"
  by (simp_all add: new_token_def token_ok_def)

lemma emit_token_eq:
  assumes "i \<notin> pt_id ` set (c_tokens db)"
  shows "c_tokens (emit_token e now i r sid pct db) =
    update_where (\<lambda>t. pt_tenant t = ur_tenant r \<and> pt_status t = TIssued) revoked (c_tokens db) @ [new_token e now i r sid pct]"
  using assms by (auto simp: emit_token_def revoked_def update_where_def)

lemma tokens_ok_emit:
  assumes ok: "tokens_ok e db" and i: "i \<notin> pt_id ` set (c_tokens db)"
    and toks: "c_tokens db' = c_tokens (emit_token e now i r sid pct db)" and led: "c_ledgers db' = c_ledgers db"
  shows "tokens_ok e db'"
proof -
  let ?n = "new_token e now i r sid pct" and ?P = "\<lambda>t. pt_tenant t = ur_tenant r \<and> pt_status t = TIssued"
  have mem: "t \<in> set (c_tokens db') \<longleftrightarrow> t = ?n \<or> (\<exists>x \<in> set (c_tokens db). t = (if ?P x then revoked x else x))" for t
    unfolding toks emit_token_eq [OF i] by (auto simp: set_update_where)
  have "distinct (map pt_id (c_tokens db'))"
    using ok i unfolding toks emit_token_eq [OF i] by (simp add: tokens_ok_def map_update_where image_update_where)
  moreover have "token_ok e (c_ledgers db') t" if t: "t \<in> set (c_tokens db')" for t
  proof (cases "t = ?n")
    case False
    with t obtain x where x: "x \<in> set (c_tokens db)" "t = (if ?P x then revoked x else x)" unfolding mem by blast
    then have "token_ok e (c_ledgers db) x" using ok by (simp add: tokens_ok_def)
    then show ?thesis using x(2) by (auto simp: led token_ok_def)
  qed simp
  moreover have "t = t'" if t: "t \<in> set (c_tokens db')" "t' \<in> set (c_tokens db')" "pt_status t = TIssued" "pt_status t' = TIssued"
      "pt_tenant t = pt_tenant t'" for t t'
  proof -
    have cl: "x = ?n \<or> (x \<in> set (c_tokens db) \<and> pt_tenant x \<noteq> ur_tenant r)" if "x \<in> set (c_tokens db')" "pt_status x = TIssued" for x
      using that unfolding mem by (auto split: if_splits dest: arg_cong [of _ _ pt_status])
    have "t = t'" if "t \<in> set (c_tokens db)" "t' \<in> set (c_tokens db)" using ok t(3-5) that unfolding tokens_ok_def by blast
    then show ?thesis using cl [OF t(1,3)] cl [OF t(2,4)] t(5) by auto
  qed
  moreover have "\<exists>t \<in> set (c_tokens db'). pt_id t = k \<and> pt_invoice t = Some (lg_id l)" if "l \<in> set (c_ledgers db')" "lg_token l = Some k" for l k
  proof -
    from that ok obtain t where t: "t \<in> set (c_tokens db)" "pt_id t = k" "pt_invoice t = Some (lg_id l)"
      unfolding tokens_ok_def led by blast
    then show ?thesis using mem [of "if ?P t then revoked t else t"] by (intro bexI [of _ "if ?P t then revoked t else t"]) auto
  qed
  ultimately show ?thesis unfolding tokens_ok_def by blast
qed


lemma ledger_kept_op:
  assumes "l \<in> set (c_ledgers db)" "distinct (map lg_id (c_ledgers db))"
  shows "\<exists>l' \<in> set (c_ledgers (com_op_db e n op db)). lg_id l' = lg_id l \<and> lg_tenant l' = lg_tenant l"
  using op_ledgers [of e n op db]
proof cases
  case (applied lid tid m p)
  let ?f = "\<lambda>x. discounted e (nc_now n) tid (min (pt_value p) (lg_premium m)) m"
  have "(if lg_id l = lid then ?f l else l) \<in> set (c_ledgers (com_op_db e n op db))"
    using assms(1) unfolding applied(5) set_update_where by auto
  moreover have "l = m" if "lg_id l = lid"
    using that find_ledger_SomeD [OF applied(2)] assms inj_onD [of lg_id "set (c_ledgers db)" l m] by (auto simp: distinct_map)
  ultimately show ?thesis by (intro bexI) auto
qed (use assms in auto)

lemma tokens_ok_op:
  assumes ok: "tokens_ok e db" and led: "ledgers_ok e db" and fresh: "nc_token n \<notin> pt_id ` set (c_tokens db)"
  shows "tokens_ok e (com_op_db e n op db)"
proof -
  have dl: "distinct (map lg_id (c_ledgers db))" using led by (simp add: ledgers_ok_def)
  have dt: "distinct (map pt_id (c_tokens db))" using ok by (simp add: tokens_ok_def)
  note kept = ledger_kept_op [OF _ dl, of _ e n op]
  from op_ledgers [of e n op db] show ?thesis
  proof cases
    case same
    then show ?thesis using ok by (simp add: tokens_ok_def)
  next
    case (emitted t rid r pct)
    then show ?thesis using tokens_ok_emit [OF ok fresh] by blast
  next
    case (invoiced t fx cur s c token number)
    let ?l = "new_ledger e (nc_now n) (nc_id n) number s c (map_option pt_id token) fx cur"
    show ?thesis
    proof (cases token)
      case None
      then have toks: "c_tokens (com_op_db e n op db) = c_tokens db" using invoiced(9) by simp
      have "token_ok e (c_ledgers (com_op_db e n op db)) x" if "x \<in> set (c_tokens db)" for x
        using ok that token_ok_mono [OF _ kept] by (auto simp: tokens_ok_def)
      moreover have "\<exists>x \<in> set (c_tokens db). pt_id x = i \<and> pt_invoice x = Some (lg_id l)"
        if "l \<in> set (c_ledgers (com_op_db e n op db))" "lg_token l = Some i" for l i
        using that ok None unfolding invoiced(8) tokens_ok_def by auto
      ultimately show ?thesis using ok unfolding tokens_ok_def toks by blast
    next
      case (Some p)
      from best_token_SomeD [of "nc_now n" t db p] invoiced(3) Some
      have p: "p \<in> set (c_tokens db)" "pt_status p = TIssued" "pt_tenant p = t" by auto
      show ?thesis
      proof (rule tokens_ok_spend [OF ok p(1,2), where lid = "nc_id n"])
        show "c_tokens (com_op_db e n op db) = update_where (\<lambda>t. pt_id t = pt_id p) (spent (nc_now n) (nc_id n)) (c_tokens db)"
          using invoiced(9) Some by (simp add: use_token_eq)
        show "\<exists>l' \<in> set (c_ledgers (com_op_db e n op db)). lg_id l' = nc_id n \<and> lg_tenant l' = pt_tenant p"
          using find_sub_SomeD [OF invoiced(2)] p(3) unfolding invoiced(8) by auto
        show "(lg_id l' = nc_id n \<and> lg_token l' = Some (pt_id p)) \<or> l' \<in> set (c_ledgers db)"
          if "l' \<in> set (c_ledgers (com_op_db e n op db))" for l' using that Some unfolding invoiced(8) by auto
      qed (rule kept)
    qed
  next
    case (applied lid tid l p)
    have p: "p \<in> set (c_tokens db)" "pt_id p = tid" using find_token_SomeD [OF applied(3)] by auto
    have st: "pt_status p = TIssued" "pt_tenant p = lg_tenant l"
      using applied(4) by (auto simp: token_problem_def split: if_splits)
    have l: "l \<in> set (c_ledgers db)" "lg_id l = lid" using find_ledger_SomeD [OF applied(2)] by auto
    show ?thesis
    proof (rule tokens_ok_spend [OF ok p(1) st(1), where lid = lid])
      show "c_tokens (com_op_db e n op db) = update_where (\<lambda>t. pt_id t = pt_id p) (spent (nc_now n) lid) (c_tokens db)"
        using applied(6) p(2) by (simp add: use_token_eq)
      show "\<exists>l' \<in> set (c_ledgers (com_op_db e n op db)). lg_id l' = lid \<and> lg_tenant l' = pt_tenant p"
        using kept [OF l(1)] l(2) st(2) by auto
      show "(lg_id l' = lid \<and> lg_token l' = Some (pt_id p)) \<or> l' \<in> set (c_ledgers db)"
        if "l' \<in> set (c_ledgers (com_op_db e n op db))" for l'
        using that p(2) l unfolding applied(5) set_update_where by (auto split: if_splits)
    qed (rule kept)
  qed
qed


subsection \<open>The golden thread\<close>

definition snaps_of :: "string \<Rightarrow> com_db \<Rightarrow> snapshot list" where
  "snaps_of rid db = filter (\<lambda>s. as_registry s = rid) (c_snaps db)"

definition tip :: "string \<Rightarrow> snapshot list \<Rightarrow> string" where
  "tip g ss = (if ss = [] then g else as_chained (last ss))"

fun linked :: "com_env \<Rightarrow> string \<Rightarrow> snapshot list \<Rightarrow> bool" where
  "linked e g [] \<longleftrightarrow> True"
| "linked e g (s # ss) \<longleftrightarrow> as_chained s = chain e g (as_hash s) \<and> linked e (as_chained s) ss"

lemma linked_snoc: "linked e g (ss @ [s]) \<longleftrightarrow> linked e g ss \<and> as_chained s = chain e (tip g ss) (as_hash s)"
  by (induction ss arbitrary: g) (auto simp: tip_def)

lemma linked_fold: "linked e g ss \<Longrightarrow> tip g ss = foldl (\<lambda>h s. chain e h (as_hash s)) g ss"
proof (induction ss rule: rev_induct)
  case (snoc s ss)
  then show ?case by (simp add: linked_snoc) (simp add: tip_def)
qed (simp add: tip_def)

definition seed_of :: "com_env \<Rightarrow> registry \<Rightarrow> string" where
  "seed_of e r = golden_seed e (ur_id r) (ur_tenant r) (ur_policy r) (ur_carrier r)"

definition threads_ok :: "com_env \<Rightarrow> time \<Rightarrow> com_db \<Rightarrow> bool" where
  "threads_ok e c db \<longleftrightarrow> distinct (map ur_id (c_regs db)) \<and> distinct (map ur_policy (c_regs db))
     \<and> (\<forall>s \<in> set (c_snaps db). as_registry s \<in> ur_id ` set (c_regs db) \<and> as_audited s \<le> c)
     \<and> sorted (map as_audited (c_snaps db))
     \<and> (\<forall>r \<in> set (c_regs db). linked e (seed_of e r) (snaps_of (ur_id r) db) \<and> ur_golden r = tip (seed_of e r) (snaps_of (ur_id r) db))"

lemma op_threads:
  obtains (same) "c_regs (com_op_db e n op db) = c_regs db" "c_snaps (com_op_db e n op db) = c_snaps db"
  | (registered) t p where "nc_id n \<notin> ur_id ` set (c_regs db)" "pp_number p \<notin> ur_policy ` set (c_regs db)"
      "pp_coverage p \<in> set coverage_checks"
      "c_regs (com_op_db e n op db) = c_regs db @ [new_registry e (nc_now n) (nc_id n) t p]" "c_snaps (com_op_db e n op db) = c_snaps db"
  | (scored) t rid r s f where "op = OpAudit t rid" "find_registry rid t db = Some r"
      "s = new_snapshot e (nc_now n - AUDIT_WINDOW_DAYS * day_ms) (nc_now n) (nc_id n) r
             (collect_inputs e (nc_db_ok n) (nc_now n - AUDIT_WINDOW_DAYS * day_ms) t db)"
      "\<And>x. as_id (f x) = as_id x \<and> as_registry (f x) = as_registry x \<and> as_hash (f x) = as_hash x \<and> as_chained (f x) = as_chained x \<and> as_audited (f x) = as_audited x"
      "c_snaps (com_op_db e n op db) = map f (c_snaps db @ [s])"
      "c_regs (com_op_db e n op db) = update_where (\<lambda>x. ur_id x = rid) (\<lambda>x. audited (nc_now n) s r) (c_regs db)"
proof (cases op)
  case (OpCreate t p)
  then show thesis by (intro same; cases rule: createSubscription_cases [of e "nc_now n" "nc_id n" t p db]) simp_all
next
  case (OpRun t)
  then show thesis by (intro same; cases rule: recordRun_cases [of e "nc_now n" t db]) simp_all
next
  case (OpInvoice t fx cur)
  then show thesis
    by (intro same; cases rule: generateInvoice_cases [of e "invoice_nonce_of n" t fx cur db]) (simp_all split: option.splits)
next
  case (OpRegister t p)
  then show thesis
    by (cases "nc_id n \<in> ur_id ` set (c_regs db) \<or> pp_number p \<in> ur_policy ` set (c_regs db) \<or> pp_coverage p \<notin> set coverage_checks")
       (auto simp: registerPolicy_def Let_def intro: same registered)
next
  case (OpAudit t rid)
  from audit_cases [of rid t db e "nc_db_ok n" "nc_now n" "nc_id n" "nc_token n"] show thesis
  proof cases
    case failed
    then show thesis using OpAudit by (intro same) simp_all
  next
    case (scored r s db2)
    show thesis
    proof (cases "as_pct s")
      case None
      show thesis
        by (rule that(3) [of t rid r s "\<lambda>x. x"]; use scored OpAudit None in simp)
    next
      case (Some pct)
      show thesis
        by (rule that(3) [of t rid r s "\<lambda>x. if as_id x = nc_id n then x\<lparr>as_token := Some (nc_token n)\<rparr> else x"];
            use scored OpAudit Some in \<open>simp add: emit_token_def update_where_def\<close>)
    qed
  qed
next
  case (OpApply lid tid)
  then show thesis by (intro same; cases rule: apply_cases [of e "nc_now n" "nc_id n" lid tid db]) simp_all
next
  case (OpOutside pl sl rp au)
  then show thesis by (intro same) simp_all
qed

lemma linked_cong:
  "map as_hash ss = map as_hash ts \<Longrightarrow> map as_chained ss = map as_chained ts \<Longrightarrow> linked e g ss = linked e g ts"
proof (induction ss arbitrary: g ts)
  case (Cons s ss)
  from Cons.prems(1) obtain t tt where ts: "ts = t # tt" by (cases ts) simp_all
  have "linked e (as_chained t) ss = linked e (as_chained t) tt"
    using Cons.prems by (intro Cons.IH) (simp_all add: ts)
  then show ?case using Cons.prems by (simp add: ts)
qed simp

lemma tip_cong:
  assumes "map as_chained ss = map as_chained ts"
  shows "tip g ss = tip g ts"
proof (cases "ss = []")
  case True
  with assms show ?thesis by (simp add: tip_def)
next
  case False
  then have "ts \<noteq> []" using assms by auto
  have "as_chained (last ss) = last (map as_chained ss)" using False by (simp add: last_map)
  also have "\<dots> = as_chained (last ts)" unfolding assms using \<open>ts \<noteq> []\<close> by (simp add: last_map)
  finally show ?thesis using False \<open>ts \<noteq> []\<close> by (simp add: tip_def)
qed

lemma audited_sel [simp]:
  "ur_id (audited now s r) = ur_id r" "ur_tenant (audited now s r) = ur_tenant r" "ur_policy (audited now s r) = ur_policy r"
  "ur_carrier (audited now s r) = ur_carrier r" "ur_golden (audited now s r) = as_chained s" "seed_of e (audited now s r) = seed_of e r"
  "ur_annual (audited now s r) = ur_annual r" "ur_pct (audited now s r) = as_pct s" "ur_status (audited now s r) = ur_status r"
  by (simp_all add: audited_def seed_of_def)

lemma new_registry_sel [simp]:
  "ur_id (new_registry e now i t p) = i" "ur_policy (new_registry e now i t p) = pp_number p"
  "ur_golden (new_registry e now i t p) = seed_of e (new_registry e now i t p)"
  by (simp_all add: new_registry_def seed_of_def)

lemma threads_ok_op:
  assumes ok: "threads_ok e c db" and time: "c \<le> nc_now n"
  shows "threads_ok e (nc_now n) (com_op_db e n op db)"
  using op_threads [of e n op db]
proof cases
  case same
  then show ?thesis using ok time by (fastforce simp: threads_ok_def snaps_of_def)
next
  case (registered t p)
  let ?r = "new_registry e (nc_now n) (nc_id n) t p"
  have "snaps_of (nc_id n) (com_op_db e n op db) = []"
    using ok registered(1) unfolding snaps_of_def registered(5) filter_empty_conv threads_ok_def by metis
  then show ?thesis using ok registered time by (fastforce simp: threads_ok_def snaps_of_def tip_def)
next
  case (scored t rid r s f)
  have r: "r \<in> set (c_regs db)" "ur_id r = rid" using find_registry_SomeD [OF scored(2)] by auto
  have d: "distinct (map ur_id (c_regs db))" using ok by (simp add: threads_ok_def)
  have eq: "x = r" if "x \<in> set (c_regs db)" "ur_id x = rid" for x
    using that r d inj_onD [of ur_id "set (c_regs db)" x r] by (simp add: distinct_map)
  have "map k (update_where (\<lambda>x. ur_id x = rid) (\<lambda>x. audited (nc_now n) s r) (c_regs db)) = map k (c_regs db)"
    if "k (audited (nc_now n) s r) = k r" for k :: "registry \<Rightarrow> string"
    unfolding update_where_def map_map by (rule map_cong [OF refl], unfold comp_def, split if_split) (metis eq that)
  then have keys: "map ur_id (c_regs (com_op_db e n op db)) = map ur_id (c_regs db)"
    "map ur_policy (c_regs (com_op_db e n op db)) = map ur_policy (c_regs db)" unfolding scored(6) by simp_all
  have sn: "map as_hash (snaps_of i (com_op_db e n op db)) = map as_hash (snaps_of i db @ (if i = rid then [s] else []))"
    "map as_chained (snaps_of i (com_op_db e n op db)) = map as_chained (snaps_of i db @ (if i = rid then [s] else []))" for i
    using scored(3,4) r(2) by (simp_all add: snaps_of_def scored(5) filter_map comp_def)
  have thread: "linked e (seed_of e r) (snaps_of rid db)" "ur_golden r = tip (seed_of e r) (snaps_of rid db)"
    using ok r by (auto simp: threads_ok_def)
  have "linked e (seed_of e x) (snaps_of (ur_id x) (com_op_db e n op db))
      \<and> ur_golden x = tip (seed_of e x) (snaps_of (ur_id x) (com_op_db e n op db))" if x: "x \<in> set (c_regs (com_op_db e n op db))" for x
  proof (cases "ur_id x = rid")
    case True
    with x have "x = audited (nc_now n) s r" unfolding scored(6) set_update_where by auto
    moreover have "linked e (seed_of e r) (snaps_of rid db @ [s])" using thread scored(3) by (simp add: linked_snoc)
    moreover have "tip (seed_of e r) (snaps_of rid db @ [s]) = as_chained s" by (simp add: tip_def)
    ultimately show ?thesis using linked_cong [OF sn] tip_cong [OF sn(2)] r(2) by simp
  next
    case False
    with x r have "x \<in> set (c_regs db)" unfolding scored(6) set_update_where by (auto split: if_splits)
    then have "linked e (seed_of e x) (snaps_of (ur_id x) db)" "ur_golden x = tip (seed_of e x) (snaps_of (ur_id x) db)"
      using ok by (auto simp: threads_ok_def)
    then show ?thesis using linked_cong [OF sn] tip_cong [OF sn(2)] False by simp
  qed
  moreover have "as_registry y \<in> ur_id ` set (c_regs (com_op_db e n op db)) \<and> as_audited y \<le> nc_now n"
    if y: "y \<in> set (c_snaps (com_op_db e n op db))" for y
  proof -
    have "ur_id ` set (c_regs (com_op_db e n op db)) = ur_id ` set (c_regs db)" using keys(1) by (metis list.set_map)
    moreover obtain z where z: "z = s \<or> z \<in> set (c_snaps db)" "as_registry y = as_registry z" "as_audited y = as_audited z"
      using y scored(4) unfolding scored(5) by auto
    moreover have "as_registry s \<in> ur_id ` set (c_regs db)" "as_audited s = nc_now n" using r scored(3) by auto
    ultimately show ?thesis using ok time unfolding threads_ok_def by fastforce
  qed
  moreover have "sorted (map as_audited (c_snaps (com_op_db e n op db)))"
  proof -
    have "map as_audited (c_snaps (com_op_db e n op db)) = map as_audited (c_snaps db) @ [nc_now n]"
      using scored(3,4) unfolding scored(5) by simp
    then show ?thesis using ok time by (fastforce simp: threads_ok_def sorted_append)
  qed
  ultimately show ?thesis using ok keys unfolding threads_ok_def by simp
qed


subsection \<open>The commercial system\<close>

text \<open>
  The rest of the constraints of the tables, beyond keys and ownership: what no type expresses and the
  other invariants do not cover.
\<close>

definition registry_ok :: "registry \<Rightarrow> bool" where
  "registry_ok r \<longleftrightarrow> ur_coverage r \<in> set coverage_checks \<and> 0 \<le> ur_score r \<and> ur_score r \<le> 100
     \<and> ur_pct r \<in> {None, Some 10, Some 15, Some 20} \<and> ur_status r \<in> set registry_statuses"

definition checks_ok :: "com_db \<Rightarrow> bool" where
  "checks_ok db \<longleftrightarrow> (\<forall>s \<in> set (c_subs db). sb_cycle s \<in> set billing_cycles)
     \<and> (\<forall>t \<in> set (c_tokens db). pt_pct t \<in> {10, 15, 20} \<and> pt_registry t \<in> ur_id ` set (c_regs db)
          \<and> pt_snapshot t \<in> as_id ` set (c_snaps db))
     \<and> (\<forall>r \<in> set (c_regs db). registry_ok r)
     \<and> distinct (map as_id (c_snaps db)) \<and> line_constraints db"

fun com_inv :: "com_env \<Rightarrow> time \<times> com_db \<Rightarrow> bool" where
  "com_inv e (c, db) \<longleftrightarrow> subs_ok e db \<and> ledgers_ok e db \<and> tokens_ok e db \<and> threads_ok e c db \<and> checks_ok db"

lemma cycles_op:
  assumes "\<forall>s \<in> set (c_subs db). sb_cycle s \<in> set billing_cycles" "s \<in> set (c_subs (com_op_db e n op db))"
  shows "sb_cycle s \<in> set billing_cycles"
  using op_subs [of e n op db] assms by (auto simp: set_update_where split: if_splits)

text \<open>No operation deletes a policy, a snapshot or an invoice.\<close>

lemma keys_kept_op:
  assumes "threads_ok e c db" "ledgers_ok e db"
  shows "ur_id ` set (c_regs db) \<subseteq> ur_id ` set (c_regs (com_op_db e n op db))"
    "as_id ` set (c_snaps db) \<subseteq> as_id ` set (c_snaps (com_op_db e n op db))"
    "lg_id ` set (c_ledgers db) \<subseteq> lg_id ` set (c_ledgers (com_op_db e n op db))"
proof -
  have ids: "ur_id ` set (c_regs (com_op_db e n op db)) = ur_id ` set (c_regs db)
    \<and> as_id ` set (c_snaps (com_op_db e n op db)) = insert (as_id s) (as_id ` set (c_snaps db))"
    if sc: "find_registry rid t db = Some r" "\<And>x. as_id (f x) = as_id x" "c_snaps (com_op_db e n op db) = map f (c_snaps db @ [s])"
      "c_regs (com_op_db e n op db) = update_where (\<lambda>x. ur_id x = rid) (\<lambda>x. audited (nc_now n) s r) (c_regs db)" for t rid r s f
  proof -
    have "ur_id r = rid" using find_registry_SomeD [OF sc(1)] by simp
    then have "map ur_id (c_regs (com_op_db e n op db)) = map ur_id (c_regs db)"
      unfolding sc(4) update_where_def map_map by (intro map_cong) auto
    then have "ur_id ` set (c_regs (com_op_db e n op db)) = ur_id ` set (c_regs db)" by (metis list.set_map)
    then show ?thesis using sc(2) by (simp add: sc(3) image_image)
  qed
  have "ur_id ` set (c_regs db) \<subseteq> ur_id ` set (c_regs (com_op_db e n op db))
      \<and> as_id ` set (c_snaps db) \<subseteq> as_id ` set (c_snaps (com_op_db e n op db))"
    using op_threads [of e n op db]
  proof cases
    case (registered t p)
    then show ?thesis by auto
  next
    case (scored t rid r s f)
    then show ?thesis using ids [OF scored(2) _ scored(5,6)] by blast
  qed simp
  then show "ur_id ` set (c_regs db) \<subseteq> ur_id ` set (c_regs (com_op_db e n op db))"
    "as_id ` set (c_snaps db) \<subseteq> as_id ` set (c_snaps (com_op_db e n op db))" by auto
  show "lg_id ` set (c_ledgers db) \<subseteq> lg_id ` set (c_ledgers (com_op_db e n op db))"
  proof
    fix i assume "i \<in> lg_id ` set (c_ledgers db)"
    then obtain l where "l \<in> set (c_ledgers db)" "i = lg_id l" by blast
    moreover have "distinct (map lg_id (c_ledgers db))" using assms(2) by (simp add: ledgers_ok_def)
    ultimately show "i \<in> lg_id ` set (c_ledgers (com_op_db e n op db))"
      using ledger_kept_op [of l db e n op] by (auto simp: image_iff) metis
  qed
qed

lemma tokens_checked_op:
  assumes ok: "checks_ok db" and inv: "threads_ok e c db" "ledgers_ok e db" and fresh: "nc_token n \<notin> pt_id ` set (c_tokens db)"
    and t: "t \<in> set (c_tokens (com_op_db e n op db))"
  shows "pt_pct t \<in> {10, 15, 20} \<and> pt_registry t \<in> ur_id ` set (c_regs (com_op_db e n op db))
    \<and> pt_snapshot t \<in> as_id ` set (c_snaps (com_op_db e n op db))"
proof -
  note kept = keys_kept_op [OF inv, of n op]
  have old: ?thesis if "x \<in> set (c_tokens db)" "pt_pct t = pt_pct x" "pt_registry t = pt_registry x" "pt_snapshot t = pt_snapshot x" for x
    using that ok kept unfolding checks_ok_def by auto
  from op_ledgers [of e n op db] show ?thesis
  proof cases
    case same
    with t show ?thesis by (intro old [of t]) simp_all
  next
    case (emitted tn rid r pct)
    have "ur_id r \<in> ur_id ` set (c_regs db)" using find_registry_SomeD [OF emitted(2)] by blast
    with kept(1) have new: ?thesis if "t = new_token e (nc_now n) (nc_token n) r (nc_id n) pct"
      using emitted(4,5) unfolding that by (auto simp: new_token_def)
    from t consider "t = new_token e (nc_now n) (nc_token n) r (nc_id n) pct"
      | x where "x \<in> set (c_tokens db)" "t = x \<or> t = revoked x"
      unfolding emitted(6) emit_token_eq [OF fresh] set_append set_update_where by (auto split: if_splits)
    then show ?thesis
    proof cases
      case 2
      then show ?thesis by (intro old [of x]) (auto simp: revoked_def)
    qed (rule new)
  next
    case (invoiced tn fx cur s cm token number)
    from t invoiced(9) obtain x k where "x \<in> set (c_tokens db)" "t = x \<or> t = spent (nc_now n) k x"
      by (auto simp: use_token_eq set_update_where split: option.splits if_splits)
    then show ?thesis by (intro old [of x]) auto
  next
    case (applied lid tid l p)
    from t obtain x where "x \<in> set (c_tokens db)" "t = x \<or> t = spent (nc_now n) lid x"
      unfolding applied(6) by (auto simp: use_token_eq set_update_where split: if_splits)
    then show ?thesis by (intro old [of x]) auto
  qed
qed

lemma registries_checked_op:
  assumes ok: "\<forall>r \<in> set (c_regs db). registry_ok r" and x: "x \<in> set (c_regs (com_op_db e n op db))"
  shows "registry_ok x"
  using op_threads [of e n op db]
proof cases
  case (registered t p)
  then show ?thesis using x ok by (auto simp: registry_ok_def new_registry_def registry_statuses_def)
next
  case (scored t rid r s f)
  have r: "registry_ok r" using ok find_registry_SomeD [OF scored(2)] by simp
  let ?i = "collect_inputs e (nc_db_ok n) (nc_now n - AUDIT_WINDOW_DAYS * day_ms) t db"
  have "ur_pct (audited (nc_now n) s r) \<in> {None, Some 10, Some 15, Some 20}"
    using discount_levels [of "deriveRiskBand (composite (component_scores_of ?i))"] scored(3) by (cases "as_pct s") auto
  then have "registry_ok (audited (nc_now n) s r)"
    using r composite_range [of ?i] scored(3) by (simp add: registry_ok_def audited_def new_snapshot_def Let_def)
  then show ?thesis using x ok unfolding scored(6) set_update_where by (auto split: if_splits)
qed (use ok x in auto)

lemma snapshots_checked_op:
  assumes "distinct (map as_id (c_snaps db))" "nc_id n \<notin> as_id ` set (c_snaps db)"
  shows "distinct (map as_id (c_snaps (com_op_db e n op db)))"
  using op_threads [of e n op db]
proof cases
  case (scored t rid r s f)
  have "map as_id (c_snaps (com_op_db e n op db)) = map as_id (c_snaps db) @ [nc_id n]"
    using scored(3,4) by (simp add: scored(5))
  then show ?thesis using assms by simp
qed (use assms in simp_all)

subsection \<open>Line items\<close>

lemma lines_from_ids: "map li_id (lines_from now lid t ids k xs) = map ids [k..<k + length xs]"
proof (induction xs arbitrary: k)
  case (Cons a xs)
  have "li_id (line_of now lid t (ids k) a) = ids k" by (cases a) (simp add: line_of_def)
  then show ?case using Cons.IH [of "Suc k"] by (simp add: upt_conv_Cons del: upt_Suc)
qed simp

lemma lines_from_fields: "x \<in> set (lines_from now lid t ids k xs) \<Longrightarrow> li_ledger x = lid \<and> li_type x \<in> fst ` set xs"
proof (induction xs arbitrary: k)
  case (Cons a xs)
  have "li_ledger (line_of now lid t (ids k) a) = lid \<and> li_type (line_of now lid t (ids k) a) = fst a"
    by (cases a) (simp add: line_of_def)
  then show ?case using Cons by auto
qed simp

lemma line_specs_types: "fst ` set (line_specs e now s c) \<subseteq> set line_types"
  by (auto simp: line_specs_def line_types_def)

lemma op_lines:
  obtains (same) "c_lines (com_op_db e n op db) = c_lines db"
  | (added) items where "c_lines (com_op_db e n op db) = c_lines db @ items" "distinct (map li_id items)"
      "li_id ` set (c_lines db) \<inter> li_id ` set items = {}"
      "\<And>x. x \<in> set items \<Longrightarrow> li_ledger x \<in> lg_id ` set (c_ledgers (com_op_db e n op db)) \<and> li_type x \<in> set line_types"
proof (cases op)
  case (OpCreate t p)
  then show thesis by (intro same; cases rule: createSubscription_cases [of e "nc_now n" "nc_id n" t p db]) simp_all
next
  case (OpRun t)
  then show thesis by (intro same; cases rule: recordRun_cases [of e "nc_now n" t db]) simp_all
next
  case (OpInvoice t fx cur)
  from generateInvoice_cases [of e "invoice_nonce_of n" t fx cur db] show thesis
  proof cases
    case (failed x)
    then show thesis using OpInvoice by (intro same) simp_all
  next
    case (stored s c token items number db2)
    have op: "com_op_db e n op db = reset_counters (nc_now n) t db2"
      using stored(10) OpInvoice by (simp add: invoice_nonce_of_def)
    have led: "nc_id n \<in> lg_id ` set (c_ledgers db2)" and lines: "c_lines db2 = c_lines db @ items"
      unfolding stored(7) by (simp_all add: use_token_def invoice_nonce_of_def split: option.split)
    have "li_ledger x = nc_id n \<and> li_type x \<in> set line_types" if "x \<in> set items" for x
      using that lines_from_fields line_specs_types unfolding stored(8) by (fastforce simp: invoice_nonce_of_def)
    then show thesis using led lines stored(9) by (intro added [of items]) (auto simp: op)
  qed
next
  case (OpRegister t p)
  then show thesis by (intro same) (simp_all add: registerPolicy_def Let_def)
next
  case (OpAudit t rid)
  from audit_cases [of rid t db e "nc_db_ok n" "nc_now n" "nc_id n" "nc_token n"] show thesis
  proof cases
    case (scored r s db2)
    then show thesis using OpAudit by (intro same) (auto simp: emit_token_def split: option.splits)
  qed (use OpAudit same in simp)
next
  case (OpApply lid tid)
  from apply_cases [of e "nc_now n" "nc_id n" lid tid db] show thesis
  proof cases
    case (failed x)
    then show thesis using OpApply by (intro same) simp_all
  next
    case (applied l p d item)
    have l: "l \<in> set (c_ledgers db)" "lg_id l = lid" using find_ledger_SomeD [OF applied(1)] by auto
    have op: "c_ledgers (com_op_db e n op db) = update_where (\<lambda>x. lg_id x = lid) (\<lambda>x. discounted e (nc_now n) tid d l) (c_ledgers db)"
      "c_lines (com_op_db e n op db) = c_lines db @ [item]"
      using applied(10) OpApply by (simp_all add: use_token_def)
    have "(if lg_id l = lid then discounted e (nc_now n) tid d l else l) \<in> set (c_ledgers (com_op_db e n op db))"
      using l(1) unfolding op(1) set_update_where by auto
    then have "lid \<in> lg_id ` set (c_ledgers (com_op_db e n op db))" using l(2) by (metis discounted_sel(1) imageI)
    then show thesis using applied(6-9) op(2) by (intro added [of "[item]"]) (auto simp: line_types_def)
  qed
next
  case (OpOutside pl sl rp au)
  then show thesis by (intro same) simp_all
qed

lemma checks_ok_op:
  assumes ok: "checks_ok db" and inv: "threads_ok e c db" "ledgers_ok e db"
    and fresh: "nc_token n \<notin> pt_id ` set (c_tokens db)" "nc_id n \<notin> as_id ` set (c_snaps db)"
  shows "checks_ok (com_op_db e n op db)"
proof -
  note kept = keys_kept_op(3) [OF inv, of n op]
  have lines: "line_constraints (com_op_db e n op db)"
    using op_lines [of e n op db]
  proof cases
    case same
    then show ?thesis using ok kept by (auto simp: checks_ok_def line_constraints_def)
  next
    case (added items)
    then show ?thesis using ok kept by (auto simp: checks_ok_def line_constraints_def)
  qed
  note a = ok [unfolded checks_ok_def]
  show ?thesis unfolding checks_ok_def
    using cycles_op [of db _ e n op] a tokens_checked_op [OF ok inv fresh(1), of _ op]
      registries_checked_op [of db _ e n op] snapshots_checked_op [OF _ fresh(2), of e op] lines
    by blast
qed

interpretation com: invariant_system com_init "com_step e" "com_inv e" for e
proof unfold_locales
  fix s assume "com_init s"
  then show "com_inv e s"
    by (cases s) (simp add: com_init_def subs_ok_def ledgers_ok_def tokens_ok_def threads_ok_def checks_ok_def line_constraints_def)
next
  fix s t assume "com_step e s t" and inv: "com_inv e s"
  then show "com_inv e t"
  proof cases
    case (com_step c n db op)
    with inv show ?thesis
      by (auto intro: subs_ok_op ledgers_ok_op tokens_ok_op threads_ok_op checks_ok_op)
  qed
qed


subsection \<open>Properties of reachable states\<close>

lemma com_reachD:
  "reach com_init (com_step e) (c, db) \<Longrightarrow> subs_ok e db \<and> ledgers_ok e db \<and> tokens_ok e db \<and> threads_ok e c db \<and> checks_ok db"
  using com.reach_inv [of e "(c, db)"] by simp

lemma authentic_subscription: "subs_ok e db \<Longrightarrow> getSubscription e t db = Inr (find_sub t db)"
  by (auto simp: getSubscription_def subs_ok_def dest!: find_sub_SomeD split: option.split)

text \<open>
  C5: What the engine wrote always verifies. In every reachable state each invoice passes the
  signature check of the invoice summary, no subscription fails its integrity check, so billing never
  stops on it, and no token fails its signature check. The signature of an invoice follows every
  change of its total.\<close>

theorem signatures_always_verify:
  assumes "reach com_init (com_step e) (c, db)"
  shows "(\<forall>l \<in> set (c_ledgers db). sr_signature_valid (summary_row_of e now db l))
    \<and> getSubscription e t db = Inr (find_sub t db)
    \<and> (\<forall>p \<in> set (c_tokens db). \<forall>l. token_problem e now l p \<noteq> Some TokenTampered)"
proof (intro conjI ballI allI)
  note inv = com_reachD [OF assms]
  show "sr_signature_valid (summary_row_of e now db l)" if "l \<in> set (c_ledgers db)" for l
    using inv that by (simp add: ledgers_ok_def summary_row_of_def signed_def)
  show "getSubscription e t db = Inr (find_sub t db)" using inv authentic_subscription by blast
  show "token_problem e now l p \<noteq> Some TokenTampered" if "p \<in> set (c_tokens db)" for p l
    using inv that by (auto simp: tokens_ok_def token_ok_def token_problem_def)
qed

text \<open>
  C13: Every constraint of the tables holds. In every reachable state the rows of the six tables
  satisfy each primary key, each UNIQUE column, each CHECK and each reference that the migrations
  declare; the tables name them one by one in \<open>subscription_constraints\<close> to \<open>line_constraints\<close>.
  Beyond them, a token and the invoice it was applied to belong to the same tenant, and every
  invoice is in the state issued: no operation ever marks one paid, overdue or voided.\<close>

theorem commercial_tables_typed:
  assumes "reach com_init (com_step e) (c, db)"
  shows "subscription_constraints db \<and> ledger_constraints db \<and> registry_constraints db
    \<and> snapshot_constraints db \<and> token_constraints db \<and> line_constraints db
    \<and> (\<forall>p \<in> set (c_tokens db). \<forall>l \<in> set (c_ledgers db). pt_invoice p = Some (lg_id l) \<longrightarrow> lg_tenant l = pt_tenant p)
    \<and> (\<forall>p \<in> set (c_tokens db). pt_status p \<noteq> TExpired) \<and> (\<forall>l \<in> set (c_ledgers db). lg_status l = Issued)"
proof -
  note inv = com_reachD [OF assms]
  have d: "distinct (map lg_id (c_ledgers db))" using inv by (simp add: ledgers_ok_def)
  have own: "lg_tenant l = pt_tenant p"
    if p: "p \<in> set (c_tokens db)" "l \<in> set (c_ledgers db)" "pt_invoice p = Some (lg_id l)" for p l
  proof -
    have "token_ok e (c_ledgers db) p" using inv p(1) by (simp add: tokens_ok_def)
    then obtain k where "k \<in> set (c_ledgers db)" "lg_id k = lg_id l" "lg_tenant k = pt_tenant p"
      using p(3) by (auto simp: token_ok_def)
    then show ?thesis using p(2) d inj_onD [of lg_id "set (c_ledgers db)" k l] by (simp add: distinct_map)
  qed
  have "subscription_constraints db" using inv by (simp add: subscription_constraints_def subs_ok_def checks_ok_def)
  moreover have "ledger_constraints db" using inv by (force simp: ledger_constraints_def ledgers_ok_def)
  moreover have "registry_constraints db"
    using inv by (simp add: registry_constraints_def threads_ok_def checks_ok_def registry_ok_def)
  moreover have "snapshot_constraints db" using inv by (simp add: snapshot_constraints_def threads_ok_def checks_ok_def)
  moreover have "token_constraints db"
    using inv by (auto simp: token_constraints_def tokens_ok_def checks_ok_def token_ok_def split: option.split)
  moreover have "line_constraints db" using inv by (simp add: checks_ok_def)
  moreover have "\<forall>p \<in> set (c_tokens db). pt_status p \<noteq> TExpired" using inv by (simp add: tokens_ok_def token_ok_def)
  moreover have "\<forall>l \<in> set (c_ledgers db). lg_status l = Issued" using inv by (simp add: ledgers_ok_def)
  ultimately show ?thesis using own by blast
qed

text \<open>
  The billing period never advances. An invoice resets the run counters but not the period: all
  invoices of a tenant, whenever they are issued, carry the period of the month in which the
  subscription was created, and each charges the base fee again.\<close>

theorem billing_period_never_advances:
  assumes "reach com_init (com_step e) (c, db)" "l \<in> set (c_ledgers db)" "find_sub (lg_tenant l) db = Some s"
  shows "lg_period_start l = sb_period_start s \<and> lg_period_end l = sb_period_end s
    \<and> (reach (\<lambda>x. x = (c, db)) (com_step e) (c', db') \<longrightarrow> l' \<in> set (c_ledgers db') \<longrightarrow> lg_tenant l' = lg_tenant l \<longrightarrow>
        lg_period_start l' = lg_period_start l \<and> lg_period_end l' = lg_period_end l)"
proof -
  have period: "lg_period_start x = sb_period_start y \<and> lg_period_end x = sb_period_end y"
    if p: "subs_ok e d" "ledgers_ok e d" "x \<in> set (c_ledgers d)" "y \<in> set (c_subs d)" "sb_tenant y = lg_tenant x" for d x y
  proof -
    obtain z where "z \<in> set (c_subs d)" "sb_tenant z = lg_tenant x" "lg_period_start x = sb_period_start z" "lg_period_end x = sb_period_end z"
      using p(2,3) unfolding ledgers_ok_def by blast
    moreover from this have "z = y" using p inj_onD [of sb_tenant "set (c_subs d)" z y] by (simp add: subs_ok_def distinct_map)
    ultimately show ?thesis by simp
  qed
  have s: "s \<in> set (c_subs db)" "sb_tenant s = lg_tenant l" using find_sub_SomeD [OF assms(3)] by auto
  note now = com_reachD [OF assms(1)]
  have 1: "lg_period_start l = sb_period_start s \<and> lg_period_end l = sb_period_end s"
    using now s assms(2) by (intro period [of db]) simp_all
  moreover have "lg_period_start l' = lg_period_start l \<and> lg_period_end l' = lg_period_end l"
    if later: "reach (\<lambda>x. x = (c, db)) (com_step e) (c', db')" and l': "l' \<in> set (c_ledgers db')" "lg_tenant l' = lg_tenant l"
  proof -
    have "com_inv e (c', db') \<and> (\<exists>s' \<in> set (c_subs db'). sb_tenant s' = sb_tenant s \<and> sb_period_start s' = sb_period_start s \<and> sb_period_end s' = sb_period_end s)"
      using later
    proof (induction "(c', db')" arbitrary: c' db' rule: reach.induct)
      case reach_init
      then show ?case using now s by auto
    next
      case (reach_step x)
      obtain cx dx where x: "x = (cx, dx)" by (cases x)
      from reach_step.hyps(2) [OF x] obtain s' where s': "s' \<in> set (c_subs dx)" "sb_tenant s' = sb_tenant s"
        "sb_period_start s' = sb_period_start s" "sb_period_end s' = sb_period_end s" and inv: "com_inv e x" using x by auto
      have "com_inv e (c', db')" using com.step_inv [OF reach_step.hyps(3) inv] .
      moreover from reach_step.hyps(3) obtain n op where "db' = com_op_db e n op dx" unfolding x by cases auto
      ultimately show ?case using subs_kept_op [OF s'(1), of e n op] s' by auto
    qed
    then obtain s' where "com_inv e (c', db')" "s' \<in> set (c_subs db')" "sb_tenant s' = sb_tenant s"
      "sb_period_start s' = sb_period_start s" "sb_period_end s' = sb_period_end s" by blast
    then show ?thesis using period [of db' l' s'] l' s 1 by simp
  qed
  ultimately show ?thesis by blast
qed


lemma spent_stays:
  assumes ok: "tokens_ok e db" and t: "find_token i db = Some t" "pt_status t \<noteq> TIssued" and fresh: "nc_token n \<notin> pt_id ` set (c_tokens db)"
  shows "find_token i (com_op_db e n op db) = Some t"
proof -
  have d: "distinct (map pt_id (c_tokens db))" using ok by (simp add: tokens_ok_def)
  have keep: "List.find (\<lambda>x. pt_id x = i) (update_where P f (c_tokens db)) = Some t"
    if "\<And>x. pt_id (f x) = pt_id x" "\<not> P t" for P f
    using t(1) that by (subst find_update_where_any) (simp_all add: find_token_def)
  have other: "pt_id p \<noteq> i" if "p \<in> set (c_tokens db)" "pt_status p = TIssued" for p
    using that t find_token_SomeD [OF t(1)] inj_onD [of pt_id "set (c_tokens db)" p t] d by (auto simp: distinct_map)
  from op_ledgers [of e n op db] show ?thesis
  proof cases
    case same
    then show ?thesis using t(1) by (simp add: find_token_def)
  next
    case (emitted tn rid r pct)
    then show ?thesis using t(2) by (simp add: find_token_def emit_token_eq [OF fresh] find_append keep)
  next
    case (invoiced tn fx cur s c token number)
    show ?thesis
    proof (cases token)
      case None
      then show ?thesis using t(1) invoiced(9) by (simp add: find_token_def)
    next
      case (Some p)
      then have "pt_id p \<noteq> i" using best_token_SomeD [of "nc_now n" tn db p] invoiced(3) other by auto
      then show ?thesis using Some invoiced(9) find_token_SomeD [OF t(1)] by (simp add: find_token_def use_token_eq keep)
    qed
  next
    case (applied lid tid l p)
    have "pt_status p = TIssued" using applied(4) by (auto simp: token_problem_def split: if_splits)
    then have "tid \<noteq> i" using find_token_SomeD [OF applied(3)] other by auto
    then show ?thesis using applied(6) find_token_SomeD [OF t(1)] by (simp add: find_token_def use_token_eq keep)
  qed
qed

lemma all_equal_length:
  assumes "distinct us" "\<And>x y. x \<in> set us \<Longrightarrow> y \<in> set us \<Longrightarrow> x = y"
  shows "length us \<le> 1"
proof (cases us)
  case (Cons x xs)
  then have "xs = []" using assms(1) assms(2) [of x "hd xs"] by (cases xs) auto
  with Cons show ?thesis by simp
qed simp

lemma usable_le_one:
  assumes "tokens_ok e db"
  shows "length (usable_tokens now t db) \<le> 1"
proof -
  let ?us = "filter (\<lambda>x. pt_tenant x = t \<and> pt_status x = TIssued \<and> now < pt_expires x) (c_tokens db)"
  have "distinct ?us" using assms by (simp add: tokens_ok_def distinct_map)
  moreover have "x = y" if "x \<in> set ?us" "y \<in> set ?us" for x y using that assms by (auto simp: tokens_ok_def)
  ultimately have "length ?us \<le> 1" by (rule all_equal_length)
  then show ?thesis by (simp add: usable_tokens_def)
qed

text \<open>
  C6: A premium token is used at most once. Once it is applied or revoked it never changes again:
  in every later state it cannot be applied to any invoice and no invoice picks it up. An applied
  token belongs to an invoice of its own tenant, and at no time has a tenant two usable tokens.\<close>

theorem token_single_use:
  assumes r: "reach com_init (com_step e) (c, db)" and p: "find_token i db = Some p" "pt_status p \<noteq> TIssued"
    and later: "reach (\<lambda>x. x = (c, db)) (com_step e) (c2, db2)"
  shows "find_token i db2 = Some p
    \<and> (\<exists>x. applyPremiumReductionToken e now k lid i db2 = (Inl x, db2))
    \<and> best_token now t db2 \<noteq> Some p
    \<and> length (usable_tokens now t db2) \<le> 1
    \<and> (pt_status p = TApplied \<longrightarrow> (\<exists>l \<in> set (c_ledgers db2). pt_invoice p = Some (lg_id l) \<and> lg_tenant l = pt_tenant p))"
proof -
  have "com_inv e (c2, db2) \<and> find_token i db2 = Some p"
    using later
  proof (induction "(c2, db2)" arbitrary: c2 db2 rule: reach.induct)
    case reach_init
    then show ?case using com_reachD [OF r] p by simp
  next
    case (reach_step x)
    obtain cx dx where x: "x = (cx, dx)" by (cases x)
    from reach_step.hyps(2) [OF x] have inv: "com_inv e x" and f: "find_token i dx = Some p" using x by auto
    from reach_step.hyps(3) obtain n op where "db2 = com_op_db e n op dx" "nc_token n \<notin> pt_id ` set (c_tokens dx)"
      unfolding x by cases auto
    then show ?case using com.step_inv [OF reach_step.hyps(3) inv] spent_stays [OF _ f p(2)] inv x by simp
  qed
  then have ok: "tokens_ok e db2" and f: "find_token i db2 = Some p" by simp_all
  have "token_ok e (c_ledgers db2) p" using ok find_token_SomeD [OF f] by (simp add: tokens_ok_def)
  moreover have "\<exists>x. applyPremiumReductionToken e now k lid i db2 = (Inl x, db2)"
    by (cases rule: apply_cases [of e now k lid i db2]) (use f p(2) in \<open>auto simp: token_problem_def\<close>)
  moreover have "best_token now t db2 \<noteq> Some p" using best_token_SomeD p(2) by blast
  ultimately show ?thesis using f usable_le_one [OF ok] by (fastforce simp: token_ok_def)
qed

subsection \<open>The certificate\<close>

lemma hd_sort_key:
  assumes "xs \<noteq> []"
  shows "hd (sort_key f xs) = hd (filter (\<lambda>y. f y = Min (f ` set xs)) xs)"
proof -
  let ?h = "hd (sort_key f xs)"
  have ne: "sort_key f xs \<noteq> []" using assms by (metis length_0_conv length_sort)
  have mem: "?h \<in> set xs" using ne by (metis list.set_sel(1) set_sort)
  have min: "f ?h \<le> f y" if "y \<in> set xs" for y
  proof -
    have "y \<in> set (sort_key f xs)" using that by simp
    moreover have "sorted (map f (sort_key f xs))" by simp
    ultimately show ?thesis using ne by (cases "sort_key f xs") auto
  qed
  have m: "Min (f ` set xs) = f ?h" using mem min by (intro Min_eqI) auto
  have "filter (\<lambda>y. f y = f ?h) (sort_key f xs) = ?h # tl (filter (\<lambda>y. f y = f ?h) (sort_key f xs))"
    using ne by (cases "sort_key f xs") auto
  then have "hd (filter (\<lambda>y. f y = f ?h) (sort_key f xs)) = ?h" by (metis list.sel(1))
  then show ?thesis unfolding m sort_key_stable by (rule sym)
qed

lemma filter_unique:
  assumes "distinct xs" "x \<in> set xs" "\<And>y. y \<in> set xs \<Longrightarrow> P y \<longleftrightarrow> y = x"
  shows "filter P xs = [x]"
  using assms
proof (induction xs)
  case (Cons a xs)
  show ?case
  proof (cases "a = x")
    case True
    then have "filter P xs = []" using Cons.prems by (auto simp: filter_empty_conv)
    with True Cons.prems show ?thesis by simp
  next
    case False
    with Cons show ?thesis by auto
  qed
qed simp

lemma sorted_map_filter: "sorted (map f xs) \<Longrightarrow> sorted (map f (filter P xs))"
  by (rule sorted_filter)

lemma newest_snapshot:
  assumes "sorted (map as_audited ss)" "ss \<noteq> []"
  shows "hd (sort_key (\<lambda>s. - as_audited s) ss) = hd (filter (\<lambda>s. as_audited s = as_audited (last ss)) ss)"
proof -
  have "as_audited s \<le> as_audited (last ss)" if "s \<in> set ss" for s
    using assms that by (induction ss) (auto split: if_splits)
  then have "Min ((\<lambda>s. - as_audited s) ` set ss) = - as_audited (last ss)" using assms(2) by (intro Min_eqI) auto
  then show ?thesis by (simp add: hd_sort_key [OF assms(2)])
qed


lemma certificate_golden:
  "getInsuranceCertificate e now t db = Some ct \<Longrightarrow> ct_golden_valid ct \<longleftrightarrow>
     (case getAuditSnapshots (ur_id (ct_registry ct)) 5 db of [] \<Rightarrow> True | s # _ \<Rightarrow> as_chained s = ur_golden (ct_registry ct))"
  by (auto simp: getInsuranceCertificate_def Let_def split: option.splits list.splits)

text \<open>
  C7: The golden thread is the hash chain of the audits. In every reachable state the hash stored
  with a policy is the seed of the policy chained with the hashes of all its snapshots, in order. But the
  certificate compares it with one snapshot only, the first among those with the latest time: it
  says valid whenever the audit times differ, and two audits in the same millisecond make it
  compare the older one.\<close>

theorem golden_thread_chains:
  assumes "reach com_init (com_step e) (c, db)" "r \<in> set (c_regs db)"
  defines "ss \<equiv> snaps_of (ur_id r) db"
  shows "ur_golden r = foldl (\<lambda>h s. chain e h (as_hash s)) (seed_of e r) ss
    \<and> (getInsuranceCertificate e now t db = Some ct \<longrightarrow> ct_registry ct = r \<longrightarrow>
         (distinct (map as_audited ss) \<longrightarrow> ct_golden_valid ct)
       \<and> (ss \<noteq> [] \<longrightarrow> ct_golden_valid ct \<longleftrightarrow>
            as_chained (hd (filter (\<lambda>s. as_audited s = as_audited (last ss)) ss)) = ur_golden r))"
proof -
  note inv = com_reachD [OF assms(1)]
  have link: "linked e (seed_of e r) ss" "ur_golden r = tip (seed_of e r) ss" and sorted: "sorted (map as_audited ss)"
    using inv assms(2) by (auto simp: threads_ok_def ss_def snaps_of_def sorted_map_filter sorted_filter)
  have valid: "ct_golden_valid ct \<longleftrightarrow> as_chained (hd (filter (\<lambda>s. as_audited s = as_audited (last ss)) ss)) = ur_golden r"
    if ct: "getInsuranceCertificate e now t db = Some ct" "ct_registry ct = r" and ne: "ss \<noteq> []"
  proof -
    let ?k = "sort_key (\<lambda>s. - as_audited s) ss"
    have "?k \<noteq> []" using ne by (metis length_0_conv length_sort)
    then obtain h rest where k: "?k = h # rest" by (cases ?k) simp_all
    have "getAuditSnapshots (ur_id r) 5 db = take 5 ?k"
      by (simp add: getAuditSnapshots_def sql_limit_def snaps_of_def ss_def)
    then have "getAuditSnapshots (ur_id r) 5 db = h # take 4 rest" unfolding k by simp
    then have "ct_golden_valid ct \<longleftrightarrow> as_chained (hd ?k) = ur_golden r"
      unfolding certificate_golden [OF ct(1)] ct(2) k by simp
    then show ?thesis by (simp add: newest_snapshot [OF sorted ne])
  qed
  moreover have "ct_golden_valid ct"
    if ct: "getInsuranceCertificate e now t db = Some ct" "ct_registry ct = r" and d: "distinct (map as_audited ss)"
  proof (cases "ss = []")
    case True
    then have "getAuditSnapshots (ur_id r) 5 db = []" by (simp add: getAuditSnapshots_def sql_limit_def snaps_of_def ss_def)
    then show ?thesis unfolding certificate_golden [OF ct(1)] ct(2) by simp
  next
    case False
    then have "last ss \<in> set ss" by simp
    then have "filter (\<lambda>s. as_audited s = as_audited (last ss)) ss = [last ss]"
      using d inj_onD [of as_audited "set ss"] False
      by (intro filter_unique) (auto simp: distinct_map)
    then show ?thesis using valid [OF ct False] link False by (simp add: tip_def)
  qed
  ultimately show ?thesis using linked_fold [OF link(1)] link(2) by auto
qed


subsection \<open>Audits and tokens\<close>

lemma update_where_cong:
  "(\<And>x. x \<in> set xs \<Longrightarrow> P x \<Longrightarrow> f x = g x) \<Longrightarrow> update_where P f xs = update_where P g xs"
  by (auto simp: update_where_def)

lemma active_registry_audited:
  assumes "distinct (map ur_id (c_regs db))" "find_registry rid t0 db = Some r"
    and "c_regs db' = update_where (\<lambda>x. ur_id x = rid) (\<lambda>x. audited now s r) (c_regs db)"
  shows "active_registry t db' = map_option (\<lambda>x. if ur_id x = rid then audited now s x else x) (active_registry t db)"
proof -
  have r: "r \<in> set (c_regs db)" "ur_id r = rid" using find_registry_SomeD [OF assms(2)] by auto
  have "c_regs db' = update_where (\<lambda>x. ur_id x = rid) (audited now s) (c_regs db)"
    unfolding assms(3)
  proof (rule update_where_cong)
    fix x assume "x \<in> set (c_regs db)" "ur_id x = rid"
    then have "x = r" using r assms(1) inj_onD [of ur_id "set (c_regs db)" x r] by (simp add: distinct_map)
    then show "audited now s r = audited now s x" by simp
  qed
  then show ?thesis by (simp add: active_registry_def find_update_where_any)
qed

text \<open>
  C14: What an audit does to the discount. In every reachable state an audit of a registered policy
  succeeds. Its score is the composite of the tenant's last thirty days, and the band it answers and
  stores with the policy is GREEN up to 25, AMBER up to 50, ORANGE up to 75 and RED above. Unless the
  band is RED, the tenant has exactly one usable token afterwards, the new one, worth 20, 15 or 10 per
  cent, by band, of a month's premium. A RED audit emits none, as documented, but it changes no token:
  those of earlier audits stay usable, and the next invoice is discounted as if the audit had not
  happened. No audit touches a token of another tenant, usable or not.\<close>

theorem audit_outcome:
  fixes ok now sid
  assumes r: "reach com_init (com_step e) (c, db)" "find_registry rid t db = Some r" "tid \<notin> pt_id ` set (c_tokens db)"
  defines "db' \<equiv> snd (computeUnderwritingRiskScore e ok now sid tid t rid db)"
  shows "\<exists>s. fst (computeUnderwritingRiskScore e ok now sid tid t rid db) = Inr (s, if as_band s = RED then None else Some tid)
    \<and> as_composite s = composite (component_scores_of (collect_inputs e ok (now - 30 * day_ms) t db))
    \<and> as_band s = (if as_composite s \<le> 25 then GREEN else if as_composite s \<le> 50 then AMBER
        else if as_composite s \<le> 75 then ORANGE else RED)
    \<and> (\<exists>r'. find_registry rid t db' = Some r' \<and> ur_band r' = as_band s \<and> ur_score r' = as_composite s)
    \<and> (as_band s = RED \<longrightarrow> c_tokens db' = c_tokens db
         \<and> (\<forall>now'. evaluateMonthlyCommitment e now' t db' = evaluateMonthlyCommitment e now' t db))
    \<and> (as_band s \<noteq> RED \<longrightarrow>
         (\<exists>p. usable_tokens now t db' = [p] \<and> pt_id p = tid
            \<and> pt_pct p = (case as_band s of GREEN \<Rightarrow> 20 | AMBER \<Rightarrow> 15 | ORANGE \<Rightarrow> 10 | RED \<Rightarrow> 0)
            \<and> pt_value p = discount_value (ur_annual r) (pt_pct p)))
    \<and> filter (\<lambda>p. pt_tenant p \<noteq> t) (c_tokens db') = filter (\<lambda>p. pt_tenant p \<noteq> t) (c_tokens db)"
proof -
  have d: "distinct (map ur_id (c_regs db))" using com_reachD [OF r(1)] by (simp add: threads_ok_def)
  have rt: "ur_tenant r = t" "ur_id r = rid" using find_registry_SomeD [OF r(2)] by simp_all
  from audit_cases [of rid t db e ok now sid tid] show ?thesis
  proof cases
    case failed
    then show ?thesis using r(2) by simp
  next
    case (scored r' s db2)
    then have r': "r' = r" using r(2) by simp
    let ?db' = "db2\<lparr>c_regs := update_where (\<lambda>x. ur_id x = rid) (\<lambda>x. audited now s r') (c_regs db)\<rparr>"
    have db': "db' = ?db'" unfolding db'_def scored(4) by simp
    have pct: "as_pct s = discountForBand (as_band s)" unfolding scored(2) by (simp add: new_snapshot_def Let_def)
    have comp: "as_composite s = composite (component_scores_of (collect_inputs e ok (now - 30 * day_ms) t db))"
      unfolding scored(2) by (simp add: new_snapshot_def Let_def AUDIT_WINDOW_DAYS_def)
    have band: "as_band s = (if as_composite s \<le> 25 then GREEN else if as_composite s \<le> 50 then AMBER
        else if as_composite s \<le> 75 then ORANGE else RED)"
      unfolding scored(2) by (simp add: new_snapshot_def Let_def deriveRiskBand_def)
    have "List.find (\<lambda>x. ur_id x = rid \<and> ur_tenant x = t) (update_where (\<lambda>x. ur_id x = rid) (\<lambda>x. audited now s r) xs)
        = Some (audited now s r)" if "List.find (\<lambda>x. ur_id x = rid \<and> ur_tenant x = t) xs = Some r" for xs
      using that rt by (induction xs) (auto split: if_splits)
    then have reg: "\<exists>r'. find_registry rid t ?db' = Some r' \<and> ur_band r' = as_band s \<and> ur_score r' = as_composite s"
      using r(2) r' by (simp add: find_registry_def audited_def)
    show ?thesis
    proof (cases "as_pct s")
      case None
      then have red: "as_band s = RED" using pct by (cases "as_band s") simp_all
      have tabs: "c_tokens ?db' = c_tokens db" "c_subs ?db' = c_subs db" using None scored(3) by simp_all
      have "evaluateMonthlyCommitment e k t ?db' = evaluateMonthlyCommitment e k t db" for k
      proof -
        have a: "active_registry t ?db' = map_option (\<lambda>x. if ur_id x = rid then audited now s x else x) (active_registry t db)"
          using r' by (intro active_registry_audited [OF d r(2)]) simp
        have "getSubscription e t ?db' = getSubscription e t db" "best_token k t ?db' = best_token k t db"
          using tabs by (simp_all add: getSubscription_def find_sub_def best_token_def usable_tokens_def)
        then show ?thesis unfolding evaluateMonthlyCommitment_def a by (auto split: sum.split option.split)
      qed
      then show ?thesis unfolding db' using scored(4) None red tabs comp band reg by (intro exI [of _ s]) simp
    next
      case (Some pct')
      then have amber: "as_band s \<noteq> RED" "pct' = (case as_band s of GREEN \<Rightarrow> 20 | AMBER \<Rightarrow> 15 | ORANGE \<Rightarrow> 10 | RED \<Rightarrow> 0)"
        using pct by (cases "as_band s"; simp)+
      have toks: "c_tokens ?db' = update_where (\<lambda>x. pt_tenant x = t \<and> pt_status x = TIssued) revoked (c_tokens db)
          @ [new_token e now tid r sid pct']"
        using Some scored(3) r' rt emit_token_eq [of tid "db\<lparr>c_snaps := c_snaps db @ [s]\<rparr>" e now r sid pct'] r(3) by simp
      have old: "filter (\<lambda>x. pt_tenant x = t \<and> pt_status x = TIssued \<and> now < pt_expires x)
            (update_where (\<lambda>x. pt_tenant x = t \<and> pt_status x = TIssued) revoked xs) = []"
        "filter (\<lambda>x. pt_tenant x \<noteq> t) (update_where (\<lambda>x. pt_tenant x = t \<and> pt_status x = TIssued) revoked xs)
          = filter (\<lambda>x. pt_tenant x \<noteq> t) xs" for xs
        by (induction xs) auto
      have "usable_tokens now t ?db' = [new_token e now tid r sid pct']"
        unfolding usable_tokens_def toks filter_append old by (simp add: rt day_ms_def)
      moreover have "filter (\<lambda>p. pt_tenant p \<noteq> t) (c_tokens ?db') = filter (\<lambda>p. pt_tenant p \<noteq> t) (c_tokens db)"
        unfolding toks filter_append old by (simp add: rt)
      ultimately show ?thesis unfolding db' using scored(4) Some amber comp band reg by (intro exI [of _ s]) simp
    qed
  qed
qed

text \<open>
  What applying a token does. It succeeds exactly when the invoice exists and is open, the id of
  the new line item is fresh, and the token exists, is issued, belongs to the tenant of the invoice, has not expired and verifies. The
  total is then reduced by the value of the token, at most by the premium; the tax is not
  recomputed, and an earlier discount of the same invoice is neither undone nor remembered: the
  recorded discount is the last one, while the total has lost all of them.\<close>

theorem token_application:
  fixes e now k lid tid db
  defines "res \<equiv> applyPremiumReductionToken e now k lid tid db"
  shows "((\<exists>x. fst res = Inr x) \<longleftrightarrow> k \<notin> li_id ` set (c_lines db) \<and>
      (\<exists>l p. find_ledger lid db = Some l \<and> lg_status l \<in> {Draft, Issued} \<and> find_token tid db = Some p \<and> pt_status p = TIssued
         \<and> pt_tenant p = lg_tenant l \<and> now \<le> pt_expires p
         \<and> pt_signature p = tokenSignature e (pt_id p) (pt_tenant p) (pt_pct p) (pt_snapshot p) (pt_expires p)))
    \<and> (\<forall>l l' p. find_ledger lid db = Some l \<longrightarrow> find_token tid db = Some p \<longrightarrow> fst res = Inr l' \<longrightarrow>
         lg_total l' = cents (fsub (lg_total l) (min (pt_value p) (lg_premium l)))
       \<and> lg_discount l' = min (pt_value p) (lg_premium l) \<and> lg_tax l' = lg_tax l \<and> lg_token l' = Some tid
       \<and> find_ledger lid (snd res) = Some l' \<and> find_token tid (snd res) = Some (spent now lid p))
    \<and> (\<forall>x. fst res = Inl x \<longrightarrow> snd res = db)"
proof -
  from apply_cases [of e now k lid tid db] show ?thesis
  proof cases
    case (failed x)
    moreover have "\<not> (k \<notin> li_id ` set (c_lines db) \<and> (\<exists>l p. find_ledger lid db = Some l \<and> lg_status l \<in> {Draft, Issued} \<and> find_token tid db = Some p \<and> pt_status p = TIssued
         \<and> pt_tenant p = lg_tenant l \<and> now \<le> pt_expires p
         \<and> pt_signature p = tokenSignature e (pt_id p) (pt_tenant p) (pt_pct p) (pt_snapshot p) (pt_expires p)))"
      using failed by (auto simp: applyPremiumReductionToken_def Let_def token_problem_def)
    ultimately show ?thesis by (simp add: res_def)
  next
    case (applied l p d item)
    let ?ls = "update_where (\<lambda>x. lg_id x = lid) (\<lambda>x. discounted e now tid d l) (c_ledgers db)"
    have l: "lg_id l = lid" using find_ledger_SomeD [OF applied(1)] by simp
    have led: "List.find (\<lambda>x. lg_id x = lid) ?ls = Some (discounted e now tid d l)"
    proof -
      have "List.find (\<lambda>x. lg_id x = lid) (update_where (\<lambda>x. lg_id x = lid) (\<lambda>x. discounted e now tid d l) ls)
          = map_option (\<lambda>x. discounted e now tid d l) (List.find (\<lambda>x. lg_id x = lid) ls)" for ls
        using l by (induction ls) auto
      then show ?thesis using applied(1) by (simp add: find_ledger_def)
    qed
    have tok: "List.find (\<lambda>x. pt_id x = tid) (update_where (\<lambda>t. pt_id t = tid) (spent now lid) (c_tokens db)) = Some (spent now lid p)"
      using applied(3) by (simp add: find_update_where find_token_def)
    have tax: "lg_tax (discounted e now tid d l) = lg_tax l" by (simp add: discounted_def Let_def)
    have "pt_status p = TIssued" "pt_tenant p = lg_tenant l" "now \<le> pt_expires p"
      "pt_signature p = tokenSignature e (pt_id p) (pt_tenant p) (pt_pct p) (pt_snapshot p) (pt_expires p)"
      using applied(4) by (auto simp: token_problem_def not_less split: if_splits)
    then show ?thesis using applied led tok tax
      by (simp add: res_def find_ledger_def use_token_eq find_token_def)
  qed
qed


subsection \<open>Who may act for whom\<close>

lemma com_handler_actor:
  assumes "caas_user req = caas_user req'"
  shows "com_handler e n req t call db = com_handler e n req' t call db"
proof (cases call)
  case (RegisterPolicy p)
  show ?thesis unfolding RegisterPolicy com_handler.simps registerPolicy_route_def assms by (rule refl)
next
  case (ApplyToken l i)
  show ?thesis unfolding ApplyToken com_handler.simps applyToken_route_def assms by (rule refl)
qed simp_all

text \<open>
  The commercial routes take the tenant from the header and never compare it with the tenant of
  the access token. Two tokens of the same user and role but of different tenants get the same
  answer and the same effect; an Executive of any tenant reads, bills and insures the tenant that the
  request names.\<close>

theorem tenant_header_decides:
  assumes "h_authorization req = Some a" "starts_with ''Bearer '' a"
    and "jwt (drop 7 a) = JwtOk sub own (Some role)" "jwt' (drop 7 a) = JwtOk sub other (Some role)"
  shows "commercialRouter e jwt n req call db = commercialRouter e jwt' n req call db
    \<and> (role = ''Executive'' \<longrightarrow> call_ok e call \<longrightarrow> h_tenant_id req = Some t \<longrightarrow> t \<noteq> [] \<longrightarrow>
         commercialRouter e jwt n req call db
           = com_handler e n (req\<lparr>caas_user := sub, caas_tenant := own, caas_role := Some role\<rparr>) t call db)"
proof -
  have h: "com_handler e n (req\<lparr>caas_user := sub, caas_tenant := own, caas_role := Some role\<rparr>) t call db
      = com_handler e n (req\<lparr>caas_user := sub, caas_tenant := other, caas_role := Some role\<rparr>) t call db" for t
    by (rule com_handler_actor) simp
  have "''Executive'' \<in> set (call_roles call)" by (cases call) simp_all
  moreover have "requireAccessToken jwt req = Inr (req\<lparr>caas_user := sub, caas_tenant := own, caas_role := Some role\<rparr>)"
    "requireAccessToken jwt' req = Inr (req\<lparr>caas_user := sub, caas_tenant := other, caas_role := Some role\<rparr>)"
    using assms by (simp_all add: requireAccessToken_def)
  ultimately show ?thesis
    by (auto simp: commercialRouter_def requireRole_def getTenantId_def h split: option.splits)
qed

subsection \<open>Invoice numbers\<close>

text \<open>
  Tenants share invoice numbers. A number is made of the first six letters of the tenant id and a
  count of the tenant's own invoices, but the column is unique over all tenants: if a tenant whose id
  begins with the same six letters has been invoiced in the year, the first invoice of the other
  violates the constraint, and since it leaves no invoice behind, so does every further attempt.\<close>

theorem invoice_numbers_collide:
  assumes "evaluateMonthlyCommitment e (iv_eval n) t db = Inr c"
    and "to_upper (take 6 t) = to_upper (take 6 u)" and "\<forall>l \<in> set (c_ledgers db). lg_tenant l \<noteq> t"
    and "\<exists>l \<in> set (c_ledgers db). lg_number l = invoice_prefix u (year_of (tz e) (iv_now n)) @ ''0001''"
  shows "generateInvoice e n t fx cur db = (Inl ConstraintViolation, db)"
proof -
  have "count_where (\<lambda>l. lg_tenant l = t \<and> q l) (c_ledgers db) = 0" for q
    using assms(3) by (auto simp: count_where_def filter_empty_conv)
  then have "nextInvoiceNumber e (iv_now n) t db = invoice_prefix t (year_of (tz e) (iv_now n)) @ pad_left 4 (nat_digits 1)"
    by (simp add: nextInvoiceNumber_def Let_def)
  also have "pad_left 4 (nat_digits 1) = ''0001''" by code_simp
  also have "invoice_prefix t y = invoice_prefix u y" for y using assms(2) by (simp add: invoice_prefix_def)
  finally have "nextInvoiceNumber e (iv_now n) t db \<in> lg_number ` set (c_ledgers db)" using assms(4) by force
  moreover obtain s where "find_sub t db = Some s" using evaluate_Inr [OF assms(1)] by blast
  ultimately show ?thesis using assms(1) by (simp add: generateInvoice_def Let_def)
qed

subsection \<open>The overage log\<close>

fun record_runs :: "com_env \<Rightarrow> time list \<Rightarrow> string \<Rightarrow> com_db \<Rightarrow> com_db" where
  "record_runs e [] t db = db"
| "record_runs e (now # ts) t db = record_runs e ts t (snd (recordValidationRun e now t db))"

lemma record_one:
  assumes "getSubscription e t db = Inr (Some s)"
  shows "\<exists>row. let db' = snd (recordValidationRun e now t db) in
    getSubscription e t db' = Inr (Some (s\<lparr>sb_runs := sb_runs s + 1, sb_updated := now\<rparr>))
    \<and> c_overage db' = c_overage db @ (if 0 < sb_included_runs s \<and> sb_included_runs s < sb_runs s + 1 then [row] else [])
    \<and> oc_charge row = sb_overage_rate s \<and> oc_tenant row = t"
proof -
  have f: "find_sub t db = Some s" and h: "sb_hash s = subscriptionIntegrityHash e s"
    using assms by (auto simp: getSubscription_def split: option.splits if_splits)
  let ?g = "\<lambda>x. x\<lparr>sb_runs := sb_runs s + 1, sb_updated := now\<rparr>"
  let ?db' = "snd (recordValidationRun e now t db)"
  have "c_subs ?db' = update_where (\<lambda>x. sb_tenant x = t) ?g (c_subs db)"
    by (simp add: recordValidationRun_def assms Let_def)
  then have "find_sub t ?db' = Some (?g s)" using f by (simp add: find_sub_def find_update_where)
  moreover have "subscriptionIntegrityHash e (?g s) = subscriptionIntegrityHash e s" by (rule hash_cong) simp_all
  ultimately have "getSubscription e t ?db' = Inr (Some (?g s))" using h by (simp add: getSubscription_def)
  then show ?thesis
    by (intro exI [of _ "\<lparr>oc_tenant = t, oc_included = sb_included_runs s, oc_actual = sb_runs s + 1,
          oc_rate = sb_overage_rate s, oc_charge = sb_overage_rate s, oc_recorded = now\<rparr>"])
       (simp add: Let_def recordValidationRun_def assms)
qed

text \<open>
  C12: The overage log agrees with the bill. However many validation runs are recorded, the counter
  advances by their number, the log gets exactly one row per run beyond the included ones, each at the
  rate of the subscription, and the monthly commitment bills as many overage runs as the log has
  rows since the counter was zero. With no included runs nothing is ever logged or billed.\<close>

theorem overage_log_matches_bill:
  assumes "getSubscription e t db = Inr (Some s)"
  shows "\<exists>s' rows c. find_sub t (record_runs e ts t db) = Some s' \<and> sb_runs s' = sb_runs s + int (length ts)
    \<and> c_overage (record_runs e ts t db) = c_overage db @ rows
    \<and> int (length rows) = overage (sb_included_runs s) (sb_runs s + int (length ts)) - overage (sb_included_runs s) (sb_runs s)
    \<and> (\<forall>r \<in> set rows. oc_charge r = sb_overage_rate s \<and> oc_tenant r = t)
    \<and> evaluateMonthlyCommitment e now t (record_runs e ts t db) = Inr c
    \<and> cm_overage_runs c = overage (sb_included_runs s) (sb_runs s + int (length ts))"
  using assms
proof (induction ts arbitrary: s db)
  case Nil
  then have "find_sub t db = Some s" by (rule getSubscription_Some)
  then show ?case using Nil by (simp add: evaluateMonthlyCommitment_def commitment_of_def Let_def)
next
  case (Cons a ts)
  let ?db' = "snd (recordValidationRun e a t db)"
  let ?s' = "s\<lparr>sb_runs := sb_runs s + 1, sb_updated := a\<rparr>"
  obtain row where g: "getSubscription e t ?db' = Inr (Some ?s')"
    and o: "c_overage ?db' = c_overage db @ (if 0 < sb_included_runs s \<and> sb_included_runs s < sb_runs s + 1 then [row] else [])"
    and row: "oc_charge row = sb_overage_rate s" "oc_tenant row = t"
    using record_one [OF Cons.prems, of a] unfolding Let_def by blast
  from Cons.IH [OF g] obtain s2 rows c where ih: "find_sub t (record_runs e ts t ?db') = Some s2" "sb_runs s2 = sb_runs s + 1 + int (length ts)"
    "c_overage (record_runs e ts t ?db') = c_overage ?db' @ rows"
    "int (length rows) = overage (sb_included_runs s) (sb_runs s + 1 + int (length ts)) - overage (sb_included_runs s) (sb_runs s + 1)"
    "\<forall>r \<in> set rows. oc_charge r = sb_overage_rate s \<and> oc_tenant r = t"
    "evaluateMonthlyCommitment e now t (record_runs e ts t ?db') = Inr c"
    "cm_overage_runs c = overage (sb_included_runs s) (sb_runs s + 1 + int (length ts))"
    by auto
  show ?case
    by (rule exI [of _ s2], rule exI [of _ "(if 0 < sb_included_runs s \<and> sb_included_runs s < sb_runs s + 1 then [row] else []) @ rows"],
        rule exI [of _ c])
       (use ih row o in \<open>auto simp: overage_def algebra_simps\<close>)
qed


section \<open>A concrete run\<close>

text \<open>
  A tenant subscribes, registers a policy and is invoiced; the audit of a clean month then emits a
  token, which the last step applies to the invoice. The hash functions are the identity, so that
  hashes show what they cover.
\<close>

definition run_env :: com_env where
  "run_env = \<lparr>hm = (\<lambda>s. s), sha = (\<lambda>s. s), tz = 0, month_label = (\<lambda>t. []), sql_avg = (\<lambda>xs. 0), sql_sum = (\<lambda>xs. 0),
     uuid_ok = (\<lambda>s. s \<noteq> []), parse_day = (\<lambda>s. None)\<rparr>"

definition run_nonce :: "time \<Rightarrow> string \<Rightarrow> com_nonce" where
  "run_nonce k i = \<lparr>nc_id = i, nc_token = ''t1'', nc_lines = (\<lambda>k. replicate (Suc k) CHR ''.''), nc_eval = k, nc_now = k, nc_db_ok = True\<rparr>"

definition run_params :: sub_params where
  "run_params = \<lparr>sp_tier = GROWTH, sp_cycle = None, sp_contract = None, sp_currency = None, sp_fee = None, sp_runs = Some 1,
     sp_monitors = None, sp_rate = None, sp_monitor_rate = None\<rparr>"

definition run_policy :: policy_params where
  "run_policy = \<lparr>pp_carrier = ''Carrier'', pp_carrier_id = ''C1'', pp_number = ''P1'', pp_coverage = ''cyber_liability'',
     pp_limit = 1000, pp_deductible = 0, pp_annual = 1200, pp_start = ''2025-01-01'', pp_end = ''2026-01-01'', pp_jurisdiction = None\<rparr>"

definition run_empty :: com_db where
  "run_empty = \<lparr>c_subs = [], c_ledgers = [], c_lines = [], c_regs = [], c_snaps = [], c_tokens = [], c_overage = [],
     c_slow = [], c_reports = [], c_audit = [], c_plat = demo_plat\<rparr>"

definition run_subscribed :: com_db where
  "run_subscribed = com_op_db run_env (run_nonce 1 ''s1'') (OpCreate ''acme'' run_params) run_empty"
definition run_registered :: com_db where
  "run_registered = com_op_db run_env (run_nonce 2 ''r1'') (OpRegister ''acme'' run_policy) run_subscribed"
definition run_invoiced :: com_db where
  "run_invoiced = com_op_db run_env (run_nonce 3 ''l1'') (OpInvoice ''acme'' 1 ''USD'') run_registered"
definition run_audited :: com_db where
  "run_audited = com_op_db run_env (run_nonce 4 ''a1'') (OpAudit ''acme'' ''r1'') run_invoiced"
definition run_applied :: com_db where
  "run_applied = com_op_db run_env (run_nonce 5 ''i1''\<lparr>nc_token := ''t2''\<rparr>) (OpApply ''l1'' ''t1'') run_audited"

lemma run_subscribed_eq:
  "run_subscribed = run_empty\<lparr>c_subs := [new_subscription run_env 1 ''s1'' ''acme'' run_params]\<rparr>"
  by (simp add: run_subscribed_def run_nonce_def createSubscription_def find_sub_def run_empty_def Let_def
      run_params_def billing_cycles_def or_default_def)

lemma run_registered_eq:
  "run_registered = run_subscribed\<lparr>c_regs := [new_registry run_env 2 ''r1'' ''acme'' run_policy]\<rparr>"
  by (simp add: run_registered_def run_nonce_def registerPolicy_def run_subscribed_eq run_empty_def Let_def
      run_policy_def coverage_checks_def)

lemma run_registered_tables:
  "c_subs run_registered = [new_subscription run_env 1 ''s1'' ''acme'' run_params]"
  "c_regs run_registered = [new_registry run_env 2 ''r1'' ''acme'' run_policy]"
  "c_ledgers run_registered = []" "c_tokens run_registered = []" "c_snaps run_registered = []"
  "c_plat run_registered = demo_plat" "c_slow run_registered = []" "c_reports run_registered = []" "c_lines run_registered = []"
  by (simp_all add: run_registered_eq run_subscribed_eq run_empty_def)

lemma run_get: "getSubscription run_env ''acme'' run_registered = Inr (Some (new_subscription run_env 1 ''s1'' ''acme'' run_params))"
  by (simp add: getSubscription_def find_sub_def run_registered_tables)

definition run_ledger :: ledger where
  "run_ledger = new_ledger run_env 3 ''l1'' (nextInvoiceNumber run_env 3 ''acme'' run_registered)
     (new_subscription run_env 1 ''s1'' ''acme'' run_params)
     (commitment_of (new_subscription run_env 1 ''s1'' ''acme'' run_params) 1200 None) None 1 ''USD''"

lemma run_invoiced_tables:
  "c_ledgers run_invoiced = [run_ledger]" "c_regs run_invoiced = c_regs run_registered"
  "c_tokens run_invoiced = []" "c_snaps run_invoiced = []" "c_plat run_invoiced = demo_plat"
  "c_slow run_invoiced = []" "c_reports run_invoiced = []" "''i1'' \<notin> li_id ` set (c_lines run_invoiced)"
  "c_subs run_invoiced = [new_subscription run_env 1 ''s1'' ''acme'' run_params\<lparr>sb_runs := 0, sb_monitors := 0, sb_updated := 3\<rparr>]"
proof -
  have b: "best_token k ''acme'' run_registered = None" for k
    by (simp add: best_token_def usable_tokens_def run_registered_tables)
  have f: "find_sub ''acme'' run_registered = Some (new_subscription run_env 1 ''s1'' ''acme'' run_params)"
    by (rule getSubscription_Some [OF run_get])
  have c: "evaluateMonthlyCommitment run_env 3 ''acme'' run_registered
      = Inr (commitment_of (new_subscription run_env 1 ''s1'' ''acme'' run_params) 1200 None)"
    by (simp add: evaluateMonthlyCommitment_def run_get active_registry_def run_registered_tables b
          new_registry_def run_policy_def)
  have dl: "distinct (map li_id (lines_from k l t (\<lambda>k. x # replicate k x) 0 xs))" for k l t x xs
    unfolding lines_from_ids by (simp add: distinct_map inj_on_def)
  have g: "run_invoiced = reset_counters 3 ''acme'' (run_registered\<lparr>c_ledgers := [run_ledger],
      c_lines := c_lines run_registered @ lines_from 3 ''l1'' ''acme'' (\<lambda>k. replicate (Suc k) CHR ''.'') 0 (line_specs run_env 3
        (new_subscription run_env 1 ''s1'' ''acme'' run_params) (commitment_of (new_subscription run_env 1 ''s1'' ''acme'' run_params) 1200 None))\<rparr>)"
    by (simp add: run_invoiced_def run_nonce_def invoice_nonce_of_def generateInvoice_def c f b Let_def
          run_registered_tables run_ledger_def dl)
  show "c_ledgers run_invoiced = [run_ledger]" "c_regs run_invoiced = c_regs run_registered"
    "c_tokens run_invoiced = []" "c_snaps run_invoiced = []" "c_plat run_invoiced = demo_plat"
    "c_slow run_invoiced = []" "c_reports run_invoiced = []"
    "c_subs run_invoiced = [new_subscription run_env 1 ''s1'' ''acme'' run_params\<lparr>sb_runs := 0, sb_monitors := 0, sb_updated := 3\<rparr>]"
    unfolding g by (simp_all add: reset_counters_def run_registered_tables)
  have "li_id ` set (c_lines run_invoiced) \<subseteq> range (\<lambda>k. replicate (Suc k) CHR ''.'')"
    unfolding g by (simp add: reset_counters_def run_registered_tables lines_from_ids flip: list.set_map) blast
  then show "''i1'' \<notin> li_id ` set (c_lines run_invoiced)" by auto
qed

definition run_snapshot :: snapshot where
  "run_snapshot = new_snapshot run_env (4 - 30 * day_ms) 4 ''a1'' (new_registry run_env 2 ''r1'' ''acme'' run_policy)
     (collect_inputs run_env True (4 - 30 * day_ms) ''acme'' run_invoiced)"

lemma clean_month_composite:
  assumes "i = \<lparr>in_total = 0, in_failed = 0, in_duplicate = 0, in_high = 0, in_critical = 0, in_lockouts = 0, in_slow = 0,
      in_avg_ms = 0, in_breaches = 0, in_failovers = 0, in_db_ok = True\<rparr>"
  shows "composite (component_scores_of i) = 0"
proof -
  have "score_financial i = 0" by (subst financial_exact) (simp_all add: assms Let_def)
  then have "component_scores_of i = \<lparr>sc_operational = 0, sc_security = 0, sc_compliance = 0, sc_financial = 0\<rparr>"
    by (simp add: component_scores_of_def score_operational_def score_security_def score_compliance_def assms)
  then show ?thesis using composite_near [of "component_scores_of i"] by (simp add: scores_ok_def)
qed

lemma run_snapshot_band: "as_band run_snapshot = GREEN"
  unfolding run_snapshot_def new_snapshot_def Let_def snapshot.select_convs
  by (subst clean_month_composite)
     (simp_all add: collect_inputs_def run_invoiced_tables demo_plat_def count_where_def deriveRiskBand_def)

lemma run_snapshot_pct: "as_pct run_snapshot = Some 20"
  using run_snapshot_band by (simp add: run_snapshot_def new_snapshot_def Let_def)

lemma run_audited_tables:
  "c_ledgers run_audited = [run_ledger]" "c_tokens run_audited = [new_token run_env 4 ''t1'' (new_registry run_env 2 ''r1'' ''acme'' run_policy) ''a1'' 20]"
  "c_regs run_audited = [audited 4 run_snapshot (new_registry run_env 2 ''r1'' ''acme'' run_policy)]"
  "c_snaps run_audited = [run_snapshot\<lparr>as_token := Some ''t1''\<rparr>]" "c_subs run_audited = c_subs run_invoiced"
  "c_lines run_audited = c_lines run_invoiced"
proof -
  have r: "find_registry ''r1'' ''acme'' run_invoiced = Some (new_registry run_env 2 ''r1'' ''acme'' run_policy)"
    by (simp add: find_registry_def run_invoiced_tables run_registered_tables new_registry_def)
  have "ur_tenant (new_registry run_env 2 ''r1'' ''acme'' run_policy) = ''acme''"
    "ur_id (new_registry run_env 2 ''r1'' ''acme'' run_policy) = ''r1''" "as_id run_snapshot = ''a1''"
    by (simp_all add: new_registry_def run_snapshot_def)
  note sel = this
  have g: "run_audited = (let db2 = emit_token run_env 4 ''t1'' (new_registry run_env 2 ''r1'' ''acme'' run_policy) ''a1'' 20
        (run_invoiced\<lparr>c_snaps := [run_snapshot]\<rparr>)
      in db2\<lparr>c_regs := update_where (\<lambda>x. ur_id x = ''r1'') (\<lambda>x. audited 4 run_snapshot (new_registry run_env 2 ''r1'' ''acme'' run_policy)) (c_regs db2)\<rparr>)"
    unfolding run_audited_def com_op_db.simps run_nonce_def com_nonce.select_convs computeUnderwritingRiskScore_def Let_def r
      option.case AUDIT_WINDOW_DAYS_def run_snapshot_def [symmetric] run_snapshot_pct
    by (simp add: run_invoiced_tables)
  show "c_ledgers run_audited = [run_ledger]" "c_tokens run_audited = [new_token run_env 4 ''t1'' (new_registry run_env 2 ''r1'' ''acme'' run_policy) ''a1'' 20]"
    "c_regs run_audited = [audited 4 run_snapshot (new_registry run_env 2 ''r1'' ''acme'' run_policy)]"
    "c_snaps run_audited = [run_snapshot\<lparr>as_token := Some ''t1''\<rparr>]" "c_subs run_audited = c_subs run_invoiced"
  "c_lines run_audited = c_lines run_invoiced"
    unfolding g Let_def by (simp_all add: emit_token_def run_invoiced_tables run_registered_tables sel)
qed

abbreviation run_token :: premium_token where
  "run_token \<equiv> new_token run_env 4 ''t1'' (new_registry run_env 2 ''r1'' ''acme'' run_policy) ''a1'' 20"

lemma run_finds:
  "find_ledger ''l1'' run_audited = Some run_ledger" "find_token ''t1'' run_audited = Some run_token"
  "lg_status run_ledger = Issued" "lg_tenant run_ledger = ''acme''" "lg_id run_ledger = ''l1''" "pt_tenant run_token = ''acme''"
  by (simp_all add: find_ledger_def find_token_def run_audited_tables run_ledger_def new_registry_def)

lemma run_step:
  assumes "reach com_init (com_step run_env) (c, db)" "c \<le> k" "i \<notin> as_id ` set (c_snaps db)" "''t1'' \<notin> pt_id ` set (c_tokens db)"
  shows "reach com_init (com_step run_env) (k, com_op_db run_env (run_nonce k i) op db)"
proof -
  have "com_step run_env (c, db) (nc_now (run_nonce k i), com_op_db run_env (run_nonce k i) op db)"
    using assms by (intro com_step.intros) (simp_all add: run_nonce_def)
  with assms(1) show ?thesis by (auto simp: run_nonce_def intro: reach_step)
qed

lemma run_reach:
  "reach com_init (com_step run_env) (3, run_invoiced)" "reach com_init (com_step run_env) (4, run_audited)"
proof -
  have "reach com_init (com_step run_env) (0, run_empty)"
    by (rule reach_init) (simp add: com_init_def run_empty_def)
  then have "reach com_init (com_step run_env) (1, run_subscribed)"
    unfolding run_subscribed_def by (rule run_step) (simp_all add: run_empty_def)
  then have "reach com_init (com_step run_env) (2, run_registered)"
    unfolding run_registered_def by (rule run_step) (simp_all add: run_subscribed_eq run_empty_def)
  then show i: "reach com_init (com_step run_env) (3, run_invoiced)"
    unfolding run_invoiced_def by (rule run_step) (simp_all add: run_registered_tables)
  then show "reach com_init (com_step run_env) (4, run_audited)"
    unfolding run_audited_def by (rule run_step) (simp_all add: run_invoiced_tables)
qed

theorem signatures_always_verify_witness:
  "sr_signature_valid (summary_row_of run_env 9 run_audited run_ledger) \<and> getSubscription run_env ''acme'' run_audited = Inr (find_sub ''acme'' run_audited)"
  using signatures_always_verify [OF run_reach(2), of 9 "''acme''"] by (simp add: run_audited_tables)

theorem commercial_tables_typed_witness:
  "token_constraints run_audited \<and> pt_snapshot run_token \<in> as_id ` set (c_snaps run_audited)
   \<and> line_constraints run_audited \<and> lg_tenant run_ledger \<in> sb_tenant ` set (c_subs run_audited)"
  using commercial_tables_typed [OF run_reach(2)]
  by (simp add: token_constraints_def ledger_constraints_def run_audited_tables)

theorem billing_period_never_advances_witness:
  "lg_period_start run_ledger = sb_period_start (new_subscription run_env 1 ''s1'' ''acme'' run_params)"
  using billing_period_never_advances [OF run_reach(2), of run_ledger
      "new_subscription run_env 1 ''s1'' ''acme'' run_params\<lparr>sb_runs := 0, sb_monitors := 0, sb_updated := 3\<rparr>"]
  by (simp add: run_audited_tables run_invoiced_tables run_finds find_sub_def)

theorem token_application_witness:
  "\<exists>l. fst (applyPremiumReductionToken run_env 5 ''i1'' ''l1'' ''t1'' run_audited) = Inr l
     \<and> lg_tax l = lg_tax run_ledger \<and> lg_token l = Some ''t1''"
proof -
  note a = token_application [of run_env 5 "''i1''" "''l1''" "''t1''" run_audited]
  have "\<exists>l. fst (applyPremiumReductionToken run_env 5 ''i1'' ''l1'' ''t1'' run_audited) = Inr l"
    by (subst a [THEN conjunct1]) (simp add: run_finds run_audited_tables run_invoiced_tables new_token_def new_registry_def day_ms_def)
  with a show ?thesis by (auto simp: run_finds)
qed

lemma run_applied_spent: "find_token ''t1'' run_applied = Some (spent 5 ''l1'' run_token)"
  by (simp add: run_applied_def run_nonce_def applyPremiumReductionToken_def run_finds token_problem_def Let_def
      find_token_def use_token_eq run_audited_tables run_invoiced_tables)
     (simp add: new_token_def new_registry_def day_ms_def spent_def)

lemma run_applied_reach: "reach com_init (com_step run_env) (5, run_applied)"
proof -
  have "com_step run_env (4, run_audited) (nc_now (run_nonce 5 ''i1''\<lparr>nc_token := ''t2''\<rparr>), run_applied)"
    unfolding run_applied_def
    by (rule com_step.intros) (simp_all add: run_nonce_def run_audited_tables run_snapshot_def)
  then show ?thesis using run_reach(2) by (auto simp: run_nonce_def intro: reach_step)
qed

theorem token_single_use_witness:
  "(\<exists>x. applyPremiumReductionToken run_env 6 ''i2'' ''l1'' ''t1'' run_applied = (Inl x, run_applied))
   \<and> best_token 6 ''acme'' run_applied \<noteq> Some (spent 5 ''l1'' run_token)"
  using token_single_use [OF run_applied_reach run_applied_spent _ reach_init,
      where ?now = 6 and ?k = "''i2''" and ?lid = "''l1''" and ?t = "''acme''" and ?c2.0 = 5 and ?db2.0 = run_applied]
  by (simp add: spent_def)

theorem golden_thread_chains_witness:
  "ur_golden (audited 4 run_snapshot (new_registry run_env 2 ''r1'' ''acme'' run_policy))
     = foldl (\<lambda>h s. chain run_env h (as_hash s)) (seed_of run_env (audited 4 run_snapshot (new_registry run_env 2 ''r1'' ''acme'' run_policy)))
         (snaps_of ''r1'' run_audited)"
  using golden_thread_chains [OF run_reach(2), of "audited 4 run_snapshot (new_registry run_env 2 ''r1'' ''acme'' run_policy)"]
  by (simp add: run_audited_tables audited_def new_registry_def)

lemma run_clean_month: "composite (component_scores_of (collect_inputs run_env True (4 - 30 * day_ms) ''acme'' run_invoiced)) = 0"
  by (subst clean_month_composite)
     (simp_all add: collect_inputs_def run_invoiced_tables demo_plat_def count_where_def)

theorem audit_outcome_witness:
  "\<exists>p. usable_tokens 4 ''acme'' (snd (computeUnderwritingRiskScore run_env True 4 ''a1'' ''t1'' ''acme'' ''r1'' run_invoiced)) = [p]
     \<and> pt_id p = ''t1'' \<and> pt_pct p = 20 \<and> pt_value p = discount_value 1200 20"
proof -
  have "find_registry ''r1'' ''acme'' run_invoiced = Some (new_registry run_env 2 ''r1'' ''acme'' run_policy)"
    "''t1'' \<notin> pt_id ` set (c_tokens run_invoiced)"
    by (simp_all add: find_registry_def run_invoiced_tables run_registered_tables new_registry_def)
  from audit_outcome [OF run_reach(1) this, where ok = True and now = 4 and sid = "''a1''"] show ?thesis
    unfolding run_clean_month by (auto simp: new_registry_def run_policy_def)
qed

definition run_request :: request where
  "run_request = \<lparr>r_method = ''GET'', r_path = ''/'', h_authorization = Some ''Bearer tok'', h_tenant_id = Some ''acme'',
     h_forwarded_for = None, h_user_agent = None, h_request_id = None, h_tier = None, r_remote = None, caas_user = None,
     caas_tenant = None, caas_role = None, caas_auth_method = None, caas_api_tier = None\<rparr>"

theorem tenant_header_decides_witness:
  "commercialRouter run_env (\<lambda>a. JwtOk (Some ''u'') (Some ''other'') (Some ''Executive'')) (run_nonce 9 ''x'') run_request GetSubscription run_audited
   = commercialRouter run_env (\<lambda>a. JwtOk (Some ''u'') (Some ''acme'') (Some ''Executive'')) (run_nonce 9 ''x'') run_request GetSubscription run_audited"
  using tenant_header_decides [where req = run_request and a = "''Bearer tok''"
      and jwt = "\<lambda>a. JwtOk (Some ''u'') (Some ''other'') (Some ''Executive'')"
      and jwt' = "\<lambda>a. JwtOk (Some ''u'') (Some ''acme'') (Some ''Executive'')"
      and sub = "Some ''u''" and own = "Some ''other''" and other = "Some ''acme''" and role = "''Executive''"
      and e = run_env and n = "run_nonce 9 ''x''" and call = GetSubscription and db = run_audited]
  by (simp add: run_request_def starts_with_def)

theorem overage_log_matches_bill_witness:
  "\<exists>s rows. find_sub ''acme'' (record_runs run_env [3, 4, 5] ''acme'' run_registered) = Some s \<and> sb_runs s = 3
     \<and> c_overage (record_runs run_env [3, 4, 5] ''acme'' run_registered) = c_overage run_registered @ rows \<and> length rows = 2"
  using overage_log_matches_bill [OF run_get, of "[3, 4, 5]" 6]
  by (auto simp: new_subscription_def Let_def run_params_def overage_def or_default_def)

text \<open>A second tenant whose id begins with the same six letters.\<close>

definition run_twin :: com_db where
  "run_twin = run_empty\<lparr>c_subs := [new_subscription run_env 1 ''s1'' ''globex-a'' run_params],
     c_ledgers := [new_ledger run_env 3 ''l1'' (invoice_prefix ''globex-b'' (year_of 0 4) @ ''0001'')
       (new_subscription run_env 1 ''s2'' ''globex-b'' run_params)
       (commitment_of (new_subscription run_env 1 ''s2'' ''globex-b'' run_params) 0 None) None 1 ''USD'']\<rparr>"

theorem invoice_numbers_collide_witness:
  "generateInvoice run_env (invoice_nonce_of (run_nonce 4 ''l2'')) ''globex-a'' 1 ''USD'' run_twin = (Inl ConstraintViolation, run_twin)"
proof -
  have "\<exists>c. evaluateMonthlyCommitment run_env 4 ''globex-a'' run_twin = Inr c"
    by (simp add: evaluateMonthlyCommitment_def getSubscription_def find_sub_def run_twin_def)
  then show ?thesis
    using invoice_numbers_collide [of run_env "invoice_nonce_of (run_nonce 4 ''l2'')" "''globex-a''" run_twin _ "''globex-b''"]
    by (auto simp: run_nonce_def invoice_nonce_of_def run_env_def run_twin_def to_upper_def)
qed

end
