(* ===== verification/CountryRequirements.thy ===== *)
theory CountryRequirements
  imports JsNumber JsString
begin

section \<open>Country requirements\<close>

text \<open>
  The table of src/config/countryRequirements.ts, one definition per country, and its look-ups. Rates
  are doubles, amounts in local currency. Characters of Latin-1 are written by their code; the two
  kinds of dash beyond it are written as a hyphen. The table is a JavaScript object looked up by an
  upper-cased code: no property that an object inherits is written in capitals.
\<close>

datatype payout_method = Momo | Card

datatype kyc_tier = Basic | Standard | Enhanced

record reporting_threshold =
  th_amount :: rat
  th_authority :: string
  th_hours :: int
  th_ref :: string

record method_config =
  pm_method :: payout_method
  pm_gateway :: string
  pm_min :: rat
  pm_max :: rat
  pm_fields :: "string list"

record country_requirement =
  cr_code :: string
  cr_name :: string
  cr_currency :: string
  cr_accepted :: "string list"
  cr_methods :: "method_config list"
  cr_kyc :: kyc_tier
  cr_wht :: rat
  cr_receipt :: bool
  cr_thresholds :: "reporting_threshold list"
  cr_regulator :: string
  cr_timezone :: string
  cr_fatf :: bool

subsection \<open>The table\<close>

text \<open>The double that a literal such as \<open>0.05\<close> denotes.\<close>

definition percent :: "nat \<Rightarrow> rat" where
  "percent k = rnd (of_nat k / 100)"

definition requirement_GH :: country_requirement where
  "requirement_GH = \<lparr>cr_code = ''GH'', cr_name = ''Ghana'', cr_currency = ''GHS'',
     cr_accepted = [''GHS'', ''USD''],
     cr_methods =
        [\<lparr>pm_method = Momo, pm_gateway = ''mtn_momo'', pm_min = 1, pm_max = 10000, pm_fields = [''momo_number'', ''momo_provider'']\<rparr>,
         \<lparr>pm_method = Card, pm_gateway = ''paystack'', pm_min = 5, pm_max = 50000, pm_fields = [''card_token'']\<rparr>],
     cr_kyc = Standard, cr_wht = 0, cr_receipt = False,
     cr_thresholds =
        [\<lparr>th_amount = 10000, th_authority = ''Financial Intelligence Centre (FIC)'',
            th_hours = 24, th_ref = ''Anti-Money Laundering Act 2020 (Act 1044) '' @ [CHR 0xA7] @ ''41''\<rparr>],
     cr_regulator = ''Bank of Ghana (BoG)'',
     cr_timezone = ''Africa/Accra'', cr_fatf = False\<rparr>"

definition requirement_NG :: country_requirement where
  "requirement_NG = \<lparr>cr_code = ''NG'', cr_name = ''Nigeria'', cr_currency = ''NGN'',
     cr_accepted = [''NGN'', ''USD''],
     cr_methods =
        [\<lparr>pm_method = Momo, pm_gateway = ''mtn_momo_ng'', pm_min = 100, pm_max = 1000000, pm_fields = [''momo_number'']\<rparr>,
         \<lparr>pm_method = Card, pm_gateway = ''paystack'', pm_min = 500, pm_max = 5000000, pm_fields = [''card_token'']\<rparr>],
     cr_kyc = Standard, cr_wht = percent 10, cr_receipt = False,
     cr_thresholds =
        [\<lparr>th_amount = 5000000, th_authority = ''Nigerian Financial Intelligence Unit (NFIU)'',
            th_hours = 24, th_ref = ''Money Laundering (Prevention and Prohibition) Act 2022 '' @ [CHR 0xA7] @ ''10''\<rparr>],
     cr_regulator = ''Central Bank of Nigeria (CBN)'',
     cr_timezone = ''Africa/Lagos'', cr_fatf = False\<rparr>"

definition requirement_KE :: country_requirement where
  "requirement_KE = \<lparr>cr_code = ''KE'', cr_name = ''Kenya'', cr_currency = ''KES'',
     cr_accepted = [''KES'', ''USD''],
     cr_methods =
        [\<lparr>pm_method = Momo, pm_gateway = ''mpesa'', pm_min = 10, pm_max = 150000, pm_fields = [''momo_number'']\<rparr>,
         \<lparr>pm_method = Card, pm_gateway = ''paystack'', pm_min = 50, pm_max = 500000, pm_fields = [''card_token'']\<rparr>],
     cr_kyc = Standard, cr_wht = percent 5, cr_receipt = False,
     cr_thresholds =
        [\<lparr>th_amount = 1000000, th_authority = ''Financial Reporting Centre (FRC)'',
            th_hours = 24, th_ref = ''Proceeds of Crime and Anti-Money Laundering Act (POCAMLA) '' @ [CHR 0xA7] @ ''44''\<rparr>],
     cr_regulator = ''Central Bank of Kenya (CBK)'',
     cr_timezone = ''Africa/Nairobi'', cr_fatf = False\<rparr>"

definition requirement_ZA :: country_requirement where
  "requirement_ZA = \<lparr>cr_code = ''ZA'', cr_name = ''South Africa'', cr_currency = ''ZAR'',
     cr_accepted = [''ZAR'', ''USD''],
     cr_methods =
        [\<lparr>pm_method = Card, pm_gateway = ''peach_payments'', pm_min = 10, pm_max = 500000, pm_fields = [''card_token'']\<rparr>],
     cr_kyc = Standard, cr_wht = 0, cr_receipt = True,
     cr_thresholds =
        [\<lparr>th_amount = 24999, th_authority = ''Financial Intelligence Centre (FIC)'',
            th_hours = 120, th_ref = ''Financial Intelligence Centre Act 38 of 2001 '' @ [CHR 0xA7] @ ''28''\<rparr>],
     cr_regulator = ''South African Reserve Bank (SARB)'',
     cr_timezone = ''Africa/Johannesburg'', cr_fatf = False\<rparr>"

definition requirement_UG :: country_requirement where
  "requirement_UG = \<lparr>cr_code = ''UG'', cr_name = ''Uganda'', cr_currency = ''UGX'',
     cr_accepted = [''UGX'', ''USD''],
     cr_methods =
        [\<lparr>pm_method = Momo, pm_gateway = ''mtn_momo'', pm_min = 500, pm_max = 5000000, pm_fields = [''momo_number'']\<rparr>],
     cr_kyc = Basic, cr_wht = 0, cr_receipt = False,
     cr_thresholds =
        [\<lparr>th_amount = 20000000, th_authority = ''Financial Intelligence Authority (FIA)'',
            th_hours = 24, th_ref = ''Anti-Money Laundering (Amendment) Act 2022 '' @ [CHR 0xA7] @ ''6''\<rparr>],
     cr_regulator = ''Bank of Uganda (BoU)'',
     cr_timezone = ''Africa/Kampala'', cr_fatf = False\<rparr>"

definition requirement_TZ :: country_requirement where
  "requirement_TZ = \<lparr>cr_code = ''TZ'', cr_name = ''Tanzania'', cr_currency = ''TZS'',
     cr_accepted = [''TZS'', ''USD''],
     cr_methods =
        [\<lparr>pm_method = Momo, pm_gateway = ''vodacom_mpesa_tz'', pm_min = 500, pm_max = 10000000, pm_fields = [''momo_number'']\<rparr>],
     cr_kyc = Basic, cr_wht = 0, cr_receipt = False,
     cr_thresholds =
        [\<lparr>th_amount = 10000000, th_authority = ''Financial Intelligence Unit (FIU)'',
            th_hours = 48, th_ref = ''Anti-Money Laundering Act 2006 (Cap 423) '' @ [CHR 0xA7] @ ''16''\<rparr>],
     cr_regulator = ''Bank of Tanzania (BoT)'',
     cr_timezone = ''Africa/Dar_es_Salaam'', cr_fatf = False\<rparr>"

definition requirement_RW :: country_requirement where
  "requirement_RW = \<lparr>cr_code = ''RW'', cr_name = ''Rwanda'', cr_currency = ''RWF'',
     cr_accepted = [''RWF'', ''USD''],
     cr_methods =
        [\<lparr>pm_method = Momo, pm_gateway = ''mtn_momo'', pm_min = 100, pm_max = 3000000, pm_fields = [''momo_number'']\<rparr>],
     cr_kyc = Basic, cr_wht = percent 15, cr_receipt = False,
     cr_thresholds =
        [\<lparr>th_amount = 5000000, th_authority = ''Financial Intelligence Unit (FIU Rwanda)'',
            th_hours = 24, th_ref = ''Law No 47/2008 Relating to Prevention and Penalisation of Money Laundering '' @ [CHR 0xA7] @ ''14''\<rparr>],
     cr_regulator = ''National Bank of Rwanda (BNR)'',
     cr_timezone = ''Africa/Kigali'', cr_fatf = False\<rparr>"

definition requirement_SN :: country_requirement where
  "requirement_SN = \<lparr>cr_code = ''SN'', cr_name = ''Senegal'', cr_currency = ''XOF'',
     cr_accepted = [''XOF'', ''EUR'', ''USD''],
     cr_methods =
        [\<lparr>pm_method = Momo, pm_gateway = ''orange_money'', pm_min = 100, pm_max = 1500000, pm_fields = [''momo_number'']\<rparr>],
     cr_kyc = Standard, cr_wht = 0, cr_receipt = False,
     cr_thresholds =
        [\<lparr>th_amount = 5000000, th_authority = ''Cellule Nationale de Traitement des Informations Financi'' @ [CHR 0xE8] @ ''res (CENTIF)'',
            th_hours = 24, th_ref = ''UEMOA Directive No 02/2015/CM/UEMOA''\<rparr>],
     cr_regulator = ''Banque Centrale des '' @ [CHR 0xC9] @ ''tats de l'' @ [CHR 0x27] @ ''Afrique de l'' @ [CHR 0x27] @ ''Ouest (BCEAO)'',
     cr_timezone = ''Africa/Dakar'', cr_fatf = False\<rparr>"

definition requirement_ZM :: country_requirement where
  "requirement_ZM = \<lparr>cr_code = ''ZM'', cr_name = ''Zambia'', cr_currency = ''ZMW'',
     cr_accepted = [''ZMW'', ''USD''],
     cr_methods =
        [\<lparr>pm_method = Momo, pm_gateway = ''mtn_momo'', pm_min = 5, pm_max = 50000, pm_fields = [''momo_number'']\<rparr>],
     cr_kyc = Basic, cr_wht = 0, cr_receipt = False,
     cr_thresholds =
        [\<lparr>th_amount = 100000, th_authority = ''Financial Intelligence Centre (FIC Zambia)'',
            th_hours = 48, th_ref = ''Financial Intelligence Centre Act 2010 '' @ [CHR 0xA7] @ ''38''\<rparr>],
     cr_regulator = ''Bank of Zambia (BoZ)'',
     cr_timezone = ''Africa/Lusaka'', cr_fatf = False\<rparr>"

definition requirement_EG :: country_requirement where
  "requirement_EG = \<lparr>cr_code = ''EG'', cr_name = ''Egypt'', cr_currency = ''EGP'',
     cr_accepted = [''EGP'', ''USD''],
     cr_methods =
        [\<lparr>pm_method = Card, pm_gateway = ''paymob'', pm_min = 10, pm_max = 500000, pm_fields = [''card_token'']\<rparr>],
     cr_kyc = Enhanced, cr_wht = 0, cr_receipt = True,
     cr_thresholds =
        [\<lparr>th_amount = 200000, th_authority = ''Egyptian Money Laundering and Terrorist Financing Combating Unit (EMLCU)'',
            th_hours = 24, th_ref = ''AML Law No 80 of 2002 (as amended 2014) '' @ [CHR 0xA7] @ ''12''\<rparr>],
     cr_regulator = ''Central Bank of Egypt (CBE)'',
     cr_timezone = ''Africa/Cairo'', cr_fatf = False\<rparr>"

definition requirement_GB :: country_requirement where
  "requirement_GB = \<lparr>cr_code = ''GB'', cr_name = ''United Kingdom'', cr_currency = ''GBP'',
     cr_accepted = [''GBP'', ''EUR'', ''USD''],
     cr_methods =
        [\<lparr>pm_method = Card, pm_gateway = ''stripe'', pm_min = 1, pm_max = 250000, pm_fields = [''card_token'']\<rparr>],
     cr_kyc = Standard, cr_wht = 0, cr_receipt = False,
     cr_thresholds =
        [\<lparr>th_amount = 10000, th_authority = ''National Crime Agency (NCA) - Suspicious Activity Report'',
            th_hours = 168, th_ref = ''Proceeds of Crime Act 2002 (POCA) '' @ [CHR 0xA7] @ ''330''\<rparr>],
     cr_regulator = ''Financial Conduct Authority (FCA)'',
     cr_timezone = ''Europe/London'', cr_fatf = False\<rparr>"

definition requirement_DE :: country_requirement where
  "requirement_DE = \<lparr>cr_code = ''DE'', cr_name = ''Germany'', cr_currency = ''EUR'',
     cr_accepted = [''EUR'', ''USD''],
     cr_methods =
        [\<lparr>pm_method = Card, pm_gateway = ''stripe'', pm_min = 1, pm_max = 250000, pm_fields = [''card_token'']\<rparr>],
     cr_kyc = Standard, cr_wht = 0, cr_receipt = False,
     cr_thresholds =
        [\<lparr>th_amount = 10000, th_authority = ''Financial Intelligence Unit Germany (FIU)'',
            th_hours = 24, th_ref = ''Geldw'' @ [CHR 0xE4] @ ''schegesetz (GwG) '' @ [CHR 0xA7] @ ''43''\<rparr>],
     cr_regulator = ''Bundesanstalt f'' @ [CHR 0xFC] @ ''r Finanzdienstleistungsaufsicht (BaFin)'',
     cr_timezone = ''Europe/Berlin'', cr_fatf = False\<rparr>"

definition requirement_FR :: country_requirement where
  "requirement_FR = \<lparr>cr_code = ''FR'', cr_name = ''France'', cr_currency = ''EUR'',
     cr_accepted = [''EUR'', ''USD''],
     cr_methods =
        [\<lparr>pm_method = Card, pm_gateway = ''stripe'', pm_min = 1, pm_max = 250000, pm_fields = [''card_token'']\<rparr>],
     cr_kyc = Standard, cr_wht = 0, cr_receipt = False,
     cr_thresholds =
        [\<lparr>th_amount = 10000, th_authority = ''Traitement du Renseignement et Action Contre les Circuits Financiers Clandestins (TRACFIN)'',
            th_hours = 24, th_ref = ''Code Mon'' @ [CHR 0xE9] @ ''taire et Financier L561-15''\<rparr>],
     cr_regulator = ''Autorit'' @ [CHR 0xE9] @ '' de Contr'' @ [CHR 0xF4] @ ''le Prudentiel et de R'' @ [CHR 0xE9] @ ''solution (ACPR)'',
     cr_timezone = ''Europe/Paris'', cr_fatf = False\<rparr>"

definition requirement_US :: country_requirement where
  "requirement_US = \<lparr>cr_code = ''US'', cr_name = ''United States'', cr_currency = ''USD'',
     cr_accepted = [''USD''],
     cr_methods =
        [\<lparr>pm_method = Card, pm_gateway = ''stripe'', pm_min = 1, pm_max = 50000, pm_fields = [''card_token'']\<rparr>],
     cr_kyc = Enhanced, cr_wht = percent 28, cr_receipt = False,
     cr_thresholds =
        [\<lparr>th_amount = 10000, th_authority = ''Financial Crimes Enforcement Network (FinCEN)'',
            th_hours = 360, th_ref = ''Bank Secrecy Act 31 USC '' @ [CHR 0xA7] @ ''5313 - Currency Transaction Report (CTR)''\<rparr>],
     cr_regulator = ''Consumer Financial Protection Bureau (CFPB) / FinCEN'',
     cr_timezone = ''America/New_York'', cr_fatf = False\<rparr>"

definition requirement_CA :: country_requirement where
  "requirement_CA = \<lparr>cr_code = ''CA'', cr_name = ''Canada'', cr_currency = ''CAD'',
     cr_accepted = [''CAD'', ''USD''],
     cr_methods =
        [\<lparr>pm_method = Card, pm_gateway = ''stripe'', pm_min = 1, pm_max = 50000, pm_fields = [''card_token'']\<rparr>],
     cr_kyc = Standard, cr_wht = 0, cr_receipt = False,
     cr_thresholds =
        [\<lparr>th_amount = 10000, th_authority = ''Financial Transactions and Reports Analysis Centre of Canada (FINTRAC)'',
            th_hours = 24, th_ref = ''Proceeds of Crime (Money Laundering) and Terrorist Financing Act '' @ [CHR 0xA7] @ ''7''\<rparr>],
     cr_regulator = ''Financial Consumer Agency of Canada (FCAC) / FINTRAC'',
     cr_timezone = ''America/Toronto'', cr_fatf = False\<rparr>"

definition requirement_MX :: country_requirement where
  "requirement_MX = \<lparr>cr_code = ''MX'', cr_name = ''Mexico'', cr_currency = ''MXN'',
     cr_accepted = [''MXN'', ''USD''],
     cr_methods =
        [\<lparr>pm_method = Card, pm_gateway = ''conekta'', pm_min = 10, pm_max = 100000, pm_fields = [''card_token'']\<rparr>],
     cr_kyc = Standard, cr_wht = 0, cr_receipt = False,
     cr_thresholds =
        [\<lparr>th_amount = 100000, th_authority = ''Unidad de Inteligencia Financiera (UIF)'',
            th_hours = 24, th_ref = ''Ley Federal para la Prevenci'' @ [CHR 0xF3] @ ''n e Identificaci'' @ [CHR 0xF3] @ ''n de Operaciones con Recursos de Procedencia Il'' @ [CHR 0xED] @ ''cita '' @ [CHR 0xA7] @ ''17''\<rparr>],
     cr_regulator = ''Comisi'' @ [CHR 0xF3] @ ''n Nacional Bancaria y de Valores (CNBV)'',
     cr_timezone = ''America/Mexico_City'', cr_fatf = False\<rparr>"

definition requirement_BR :: country_requirement where
  "requirement_BR = \<lparr>cr_code = ''BR'', cr_name = ''Brazil'', cr_currency = ''BRL'',
     cr_accepted = [''BRL'', ''USD''],
     cr_methods =
        [\<lparr>pm_method = Card, pm_gateway = ''pagar_me'', pm_min = 1, pm_max = 50000, pm_fields = [''card_token'']\<rparr>],
     cr_kyc = Standard, cr_wht = percent 15, cr_receipt = False,
     cr_thresholds =
        [\<lparr>th_amount = 10000, th_authority = ''Conselho de Controle de Atividades Financeiras (COAF)'',
            th_hours = 24, th_ref = ''Lei 9.613/1998 (Lei de Lavagem de Dinheiro) '' @ [CHR 0xA7] @ ''11''\<rparr>],
     cr_regulator = ''Banco Central do Brasil (BCB)'',
     cr_timezone = ''America/Sao_Paulo'', cr_fatf = False\<rparr>"

definition requirement_CO :: country_requirement where
  "requirement_CO = \<lparr>cr_code = ''CO'', cr_name = ''Colombia'', cr_currency = ''COP'',
     cr_accepted = [''COP'', ''USD''],
     cr_methods =
        [\<lparr>pm_method = Card, pm_gateway = ''wompi'', pm_min = 1000, pm_max = 30000000, pm_fields = [''card_token'']\<rparr>],
     cr_kyc = Standard, cr_wht = 0, cr_receipt = False,
     cr_thresholds =
        [\<lparr>th_amount = 10000000, th_authority = ''Unidad de Informaci'' @ [CHR 0xF3] @ ''n y An'' @ [CHR 0xE1] @ ''lisis Financiero (UIAF)'',
            th_hours = 24, th_ref = ''Ley 526 de 1999 '' @ [CHR 0xA7] @ ''16''\<rparr>],
     cr_regulator = ''Superintendencia Financiera de Colombia (SFC)'',
     cr_timezone = ''America/Bogota'', cr_fatf = False\<rparr>"

definition requirement_IN :: country_requirement where
  "requirement_IN = \<lparr>cr_code = ''IN'', cr_name = ''India'', cr_currency = ''INR'',
     cr_accepted = [''INR'', ''USD''],
     cr_methods =
        [\<lparr>pm_method = Card, pm_gateway = ''razorpay'', pm_min = 100, pm_max = 500000, pm_fields = [''card_token'']\<rparr>],
     cr_kyc = Standard, cr_wht = percent 10, cr_receipt = False,
     cr_thresholds =
        [\<lparr>th_amount = 1000000, th_authority = ''Financial Intelligence Unit - India (FIU-IND)'',
            th_hours = 168, th_ref = ''Prevention of Money Laundering Act 2002 '' @ [CHR 0xA7] @ ''12''\<rparr>],
     cr_regulator = ''Reserve Bank of India (RBI)'',
     cr_timezone = ''Asia/Kolkata'', cr_fatf = False\<rparr>"

definition requirement_PH :: country_requirement where
  "requirement_PH = \<lparr>cr_code = ''PH'', cr_name = ''Philippines'', cr_currency = ''PHP'',
     cr_accepted = [''PHP'', ''USD''],
     cr_methods =
        [\<lparr>pm_method = Momo, pm_gateway = ''gcash'', pm_min = 50, pm_max = 100000, pm_fields = [''momo_number'']\<rparr>,
         \<lparr>pm_method = Card, pm_gateway = ''paymongo'', pm_min = 100, pm_max = 500000, pm_fields = [''card_token'']\<rparr>],
     cr_kyc = Standard, cr_wht = 0, cr_receipt = False,
     cr_thresholds =
        [\<lparr>th_amount = 500000, th_authority = ''Anti-Money Laundering Council (AMLC)'',
            th_hours = 120, th_ref = ''Republic Act 9160 (AMLA) '' @ [CHR 0xA7] @ ''9''\<rparr>],
     cr_regulator = ''Bangko Sentral ng Pilipinas (BSP)'',
     cr_timezone = ''Asia/Manila'', cr_fatf = False\<rparr>"

definition requirement_ID :: country_requirement where
  "requirement_ID = \<lparr>cr_code = ''ID'', cr_name = ''Indonesia'', cr_currency = ''IDR'',
     cr_accepted = [''IDR'', ''USD''],
     cr_methods =
        [\<lparr>pm_method = Card, pm_gateway = ''midtrans'', pm_min = 10000, pm_max = 500000000, pm_fields = [''card_token'']\<rparr>],
     cr_kyc = Standard, cr_wht = 0, cr_receipt = False,
     cr_thresholds =
        [\<lparr>th_amount = 500000000, th_authority = ''Pusat Pelaporan dan Analisis Transaksi Keuangan (PPATK)'',
            th_hours = 24, th_ref = ''UU No 8 Tahun 2010 Tentang Pencegahan dan Pemberantasan TPPU '' @ [CHR 0xA7] @ ''23''\<rparr>],
     cr_regulator = ''Otoritas Jasa Keuangan (OJK) / Bank Indonesia'',
     cr_timezone = ''Asia/Jakarta'', cr_fatf = False\<rparr>"

definition requirement_SG :: country_requirement where
  "requirement_SG = \<lparr>cr_code = ''SG'', cr_name = ''Singapore'', cr_currency = ''SGD'',
     cr_accepted = [''SGD'', ''USD''],
     cr_methods =
        [\<lparr>pm_method = Card, pm_gateway = ''stripe'', pm_min = 1, pm_max = 100000, pm_fields = [''card_token'']\<rparr>],
     cr_kyc = Enhanced, cr_wht = 0, cr_receipt = False,
     cr_thresholds =
        [\<lparr>th_amount = 20000, th_authority = ''Suspicious Transaction Reporting Office (STRO) / Commercial Affairs Department'',
            th_hours = 72, th_ref = ''Corruption, Drug Trafficking and Other Serious Crimes (Confiscation of Benefits) Act '' @ [CHR 0xA7] @ ''39''\<rparr>],
     cr_regulator = ''Monetary Authority of Singapore (MAS)'',
     cr_timezone = ''Asia/Singapore'', cr_fatf = False\<rparr>"

definition requirement_AU :: country_requirement where
  "requirement_AU = \<lparr>cr_code = ''AU'', cr_name = ''Australia'', cr_currency = ''AUD'',
     cr_accepted = [''AUD'', ''USD''],
     cr_methods =
        [\<lparr>pm_method = Card, pm_gateway = ''stripe'', pm_min = 1, pm_max = 100000, pm_fields = [''card_token'']\<rparr>],
     cr_kyc = Standard, cr_wht = 0, cr_receipt = False,
     cr_thresholds =
        [\<lparr>th_amount = 10000, th_authority = ''Australian Transaction Reports and Analysis Centre (AUSTRAC)'',
            th_hours = 240, th_ref = ''Anti-Money Laundering and Counter-Terrorism Financing Act 2006 '' @ [CHR 0xA7] @ ''43''\<rparr>],
     cr_regulator = ''Australian Prudential Regulation Authority (APRA) / AUSTRAC'',
     cr_timezone = ''Australia/Sydney'', cr_fatf = False\<rparr>"

definition requirement_AE :: country_requirement where
  "requirement_AE = \<lparr>cr_code = ''AE'', cr_name = ''United Arab Emirates'', cr_currency = ''AED'',
     cr_accepted = [''AED'', ''USD''],
     cr_methods =
        [\<lparr>pm_method = Card, pm_gateway = ''network_international'', pm_min = 10, pm_max = 200000, pm_fields = [''card_token'']\<rparr>],
     cr_kyc = Enhanced, cr_wht = 0, cr_receipt = True,
     cr_thresholds =
        [\<lparr>th_amount = 55000, th_authority = ''Financial Intelligence Unit (FIU UAE) / CBUAE'',
            th_hours = 48, th_ref = ''Federal Decree-Law No 20 of 2018 on AML '' @ [CHR 0xA7] @ ''15''\<rparr>],
     cr_regulator = ''Central Bank of the UAE (CBUAE)'',
     cr_timezone = ''Asia/Dubai'', cr_fatf = False\<rparr>"

definition COUNTRY_REQUIREMENTS :: "(string \<times> country_requirement) list" where
  "COUNTRY_REQUIREMENTS =
     [(''GH'', requirement_GH), (''NG'', requirement_NG), (''KE'', requirement_KE), (''ZA'', requirement_ZA),
      (''UG'', requirement_UG), (''TZ'', requirement_TZ), (''RW'', requirement_RW), (''SN'', requirement_SN),
      (''ZM'', requirement_ZM), (''EG'', requirement_EG), (''GB'', requirement_GB), (''DE'', requirement_DE),
      (''FR'', requirement_FR), (''US'', requirement_US), (''CA'', requirement_CA), (''MX'', requirement_MX),
      (''BR'', requirement_BR), (''CO'', requirement_CO), (''IN'', requirement_IN), (''PH'', requirement_PH),
      (''ID'', requirement_ID), (''SG'', requirement_SG), (''AU'', requirement_AU), (''AE'', requirement_AE)]"

lemmas requirement_defs =
  requirement_GH_def requirement_NG_def requirement_KE_def requirement_ZA_def
  requirement_UG_def requirement_TZ_def requirement_RW_def requirement_SN_def
  requirement_ZM_def requirement_EG_def requirement_GB_def requirement_DE_def
  requirement_FR_def requirement_US_def requirement_CA_def requirement_MX_def
  requirement_BR_def requirement_CO_def requirement_IN_def requirement_PH_def
  requirement_ID_def requirement_SG_def requirement_AU_def requirement_AE_def

subsection \<open>Look-ups\<close>

datatype country_error = UnsupportedCountry string | UnsupportedMethod payout_method string

definition getCountryRequirement :: "string \<Rightarrow> country_error + country_requirement" where
  "getCountryRequirement c =
     (case map_of COUNTRY_REQUIREMENTS (to_upper c) of None \<Rightarrow> Inl (UnsupportedCountry c) | Some r \<Rightarrow> Inr r)"

definition getMethodConfig :: "string \<Rightarrow> payout_method \<Rightarrow> country_error + method_config" where
  "getMethodConfig c m =
     (case getCountryRequirement c of
        Inl e \<Rightarrow> Inl e
      | Inr r \<Rightarrow> (case List.find (\<lambda>x. pm_method x = m) (cr_methods r) of
                    None \<Rightarrow> Inl (UnsupportedMethod m c) | Some x \<Rightarrow> Inr x))"

definition listSupportedCountries :: "string list" where
  "listSupportedCountries = map fst COUNTRY_REQUIREMENTS"

definition getBreachedThresholds :: "string \<Rightarrow> rat \<Rightarrow> country_error + reporting_threshold list" where
  "getBreachedThresholds c amount =
     (case getCountryRequirement c of Inl e \<Rightarrow> Inl e | Inr r \<Rightarrow> Inr (filter (\<lambda>t. th_amount t \<le> amount) (cr_thresholds r)))"

fun kyc_order :: "kyc_tier \<Rightarrow> nat" where
  "kyc_order Basic = 0"
| "kyc_order Standard = 1"
| "kyc_order Enhanced = 2"

instantiation kyc_tier :: linorder
begin

definition less_eq_kyc_tier :: "kyc_tier \<Rightarrow> kyc_tier \<Rightarrow> bool" where
  "less_eq_kyc_tier a b = (kyc_order a \<le> kyc_order b)"

definition less_kyc_tier :: "kyc_tier \<Rightarrow> kyc_tier \<Rightarrow> bool" where
  "less_kyc_tier a b = (kyc_order a < kyc_order b)"

instance
proof
  fix a b c :: kyc_tier
  show "(a < b) = (a \<le> b \<and> \<not> b \<le> a)" by (auto simp: less_eq_kyc_tier_def less_kyc_tier_def)
  show "a \<le> a" by (simp add: less_eq_kyc_tier_def)
  show "a \<le> b \<Longrightarrow> b \<le> c \<Longrightarrow> a \<le> c" by (simp add: less_eq_kyc_tier_def)
  show "a \<le> b \<or> b \<le> a" by (auto simp: less_eq_kyc_tier_def)
  show "a \<le> b \<Longrightarrow> b \<le> a \<Longrightarrow> a = b" by (cases a; cases b) (simp_all add: less_eq_kyc_tier_def)
qed

end

definition meetsKycRequirement :: "kyc_tier \<Rightarrow> string \<Rightarrow> country_error + bool" where
  "meetsKycRequirement k c =
     (case getCountryRequirement c of Inl e \<Rightarrow> Inl e | Inr r \<Rightarrow> Inr (kyc_order (cr_kyc r) \<le> kyc_order k))"

subsection \<open>What every entry satisfies\<close>

definition requirement_ok :: "string \<times> country_requirement \<Rightarrow> bool" where
  "requirement_ok kr \<longleftrightarrow> (case kr of (k, r) \<Rightarrow>
     cr_code r = k \<and> cr_methods r \<noteq> [] \<and> distinct (map pm_method (cr_methods r))
     \<and> list_all (\<lambda>m. 1 \<le> pm_min m \<and> pm_min m < pm_max m \<and> pm_max m \<le> 500000000) (cr_methods r)
     \<and> cr_currency r \<in> set (cr_accepted r) \<and> ''USD'' \<in> set (cr_accepted r) \<and> 0 \<le> cr_wht r \<and> cr_wht r \<le> 3 / 10
     \<and> cr_thresholds r \<noteq> [] \<and> list_all (\<lambda>t. 0 < th_amount t \<and> 0 < th_hours t) (cr_thresholds r))"

lemma percent_bound: "k \<le> 28 \<Longrightarrow> 0 \<le> percent k \<and> percent k \<le> 3 / 10"
proof -
  assume k: "k \<le> 28"
  define q :: rat where "q = of_nat k / 100"
  have q: "0 \<le> q" "q \<le> 28 / 100" using k by (simp_all add: q_def)
  then have "\<bar>rnd q - q\<bar> \<le> err_rel * 1 + err_abs" by (intro rnd_near) simp
  moreover have "err_rel * 1 + err_abs \<le> 1 / 100" by (simp add: err_rel_def err_abs_def)
  ultimately show ?thesis unfolding percent_def q_def [symmetric] using q js.nonneg [of q] by linarith
qed

lemma percent_scaled: "k \<le> 28 \<Longrightarrow> percent k * 10 \<le> 3"
  using percent_bound [of k] by linarith

lemma table_ok: "list_all requirement_ok COUNTRY_REQUIREMENTS"
  by (simp add: COUNTRY_REQUIREMENTS_def requirement_ok_def requirement_defs percent_bound percent_scaled)

lemma table_codes: "distinct (map fst COUNTRY_REQUIREMENTS)" "list_all (\<lambda>c. length c = 2 \<and> to_upper c = c) (map fst COUNTRY_REQUIREMENTS)"
  by (simp_all add: COUNTRY_REQUIREMENTS_def str_eval)

lemma requirement_found:
  assumes "getCountryRequirement c = Inr r"
  shows "cr_code r = to_upper c" "requirement_ok (to_upper c, r)" "(to_upper c, r) \<in> set COUNTRY_REQUIREMENTS"
proof -
  have m: "map_of COUNTRY_REQUIREMENTS (to_upper c) = Some r"
    using assms by (auto simp: getCountryRequirement_def split: option.splits)
  then show e: "(to_upper c, r) \<in> set COUNTRY_REQUIREMENTS" by (rule map_of_SomeD)
  then show "requirement_ok (to_upper c, r)" using table_ok by (simp add: list_all_iff)
  then show "cr_code r = to_upper c" by (simp add: requirement_ok_def)
qed

lemma method_found:
  assumes "getMethodConfig c m = Inr x"
  shows "pm_method x = m" "1 \<le> pm_min x" "pm_min x < pm_max x" "pm_max x \<le> 500000000"
proof -
  obtain r where r: "getCountryRequirement c = Inr r" "List.find (\<lambda>x. pm_method x = m) (cr_methods r) = Some x"
    using assms by (auto simp: getMethodConfig_def split: sum.splits option.splits)
  show "pm_method x = m" using find_SomeD [OF r(2)] by simp
  show "1 \<le> pm_min x" "pm_min x < pm_max x" "pm_max x \<le> 500000000"
    using find_SomeD [OF r(2)] requirement_found(2) [OF r(1)] by (simp_all add: requirement_ok_def list_all_iff)
qed

text \<open>The only country that settles in dollars.\<close>

lemma usd_country: "getCountryRequirement c = Inr r \<Longrightarrow> cr_currency r = ''USD'' \<longleftrightarrow> to_upper c = ''US''"
  using requirement_found(3) [of c r] by (auto simp: COUNTRY_REQUIREMENTS_def requirement_defs)

end
