(* ===== verification/Fx.thy ===== *)
theory Fx
  imports JsString
begin

section \<open>Foreign exchange\<close>

text \<open>
  The model of src/services/fx.ts with the two tables of src/db/migrate.ts it writes
  (\<open>fx_rate_cache\<close>, and \<open>fx_conversion_log\<close> with its foreign keys, which the connection enforces).
  What a provider answers is the parameter \<open>net\<close>; random ids are arguments and the clock
  readings of one call are \<open>now\<close>. An operation returns its result or error with the new state,
  since the caches keep what was written before a failure.
\<close>

datatype provider_name = Open_exchange_rates | Fixer | Exchangerate_api | Manual_override

record fx_rate =
  rate_id :: string
  target :: string
  mid_rate :: rat
  spread_fraction :: rat
  effective_rate :: rat
  provider :: provider_name
  fetched_at :: time
  expires_at :: time

record fx_conversion =
  c_rate_id :: string
  amount_usd :: rat
  local_amount :: rat
  local_currency :: string
  c_mid_rate :: rat
  c_effective_rate :: rat
  c_spread_fraction :: rat
  c_provider :: provider_name
  converted_at :: time

record conversion_row =
  log_id :: string
  log_rate_id :: string
  payout_log_id :: "string option"
  conversion :: fx_conversion

record fx_config =
  RATE_TTL_MINUTES :: int
  DEFAULT_SPREAD :: rat
  OXR_APP_ID :: string
  FIXER_API_KEY :: string
  EXCHANGERATE_API_KEY :: string

record fx_state =
  memoryCache :: "(string \<times> (fx_rate \<times> time)) list"
  fx_rate_cache :: "fx_rate list"
  fx_conversion_log :: "conversion_row list"
  payout_ids :: "string list"

datatype fx_error =
    NotConfigured | HttpError | NonSuccess | NoUsdRate | NoRate
  | AllProvidersFailed | ForeignKeyError | BadMidRate | BadExpiry

subsection \<open>Providers\<close>

text \<open>
  The parsed answers: \<open>None\<close> is a failed request or a status that is not ok, else the rates by
  currency, with the success flag of the providers that have one.
\<close>

record network =
  oxr_answer :: "(string \<times> rat) list option"
  fixer_answer :: "(bool \<times> (string \<times> rat) list) option"
  era_answer :: "(bool \<times> (string \<times> rat) list) option"

definition oxr_rates :: "fx_config \<Rightarrow> network \<Rightarrow> string list \<Rightarrow> fx_error + (string \<times> rat) list" where
  "oxr_rates cfg net targets =
     (if OXR_APP_ID cfg = [] then Inl NotConfigured
      else case oxr_answer net of None \<Rightarrow> Inl HttpError | Some rs \<Rightarrow> Inr rs)"

text \<open>Fixer quotes against the euro: the rate is the quotient of two of its rates.\<close>

definition fixer_rates :: "fx_config \<Rightarrow> network \<Rightarrow> string list \<Rightarrow> fx_error + (string \<times> rat) list" where
  "fixer_rates cfg net targets =
     (if FIXER_API_KEY cfg = [] then Inl NotConfigured
      else case fixer_answer net of
             None \<Rightarrow> Inl HttpError
           | Some (success, rs) \<Rightarrow>
               if \<not> success then Inl NonSuccess
               else case map_of rs ''USD'' of
                      None \<Rightarrow> Inl NoUsdRate
                    | Some eurUsd \<Rightarrow>
                        if eurUsd = 0 then Inl NoUsdRate
                        else Inr (List.map_filter
                               (\<lambda>c. map_option (\<lambda>eurLocal. (c, fdiv eurLocal eurUsd)) (map_of rs c)) targets))"

definition era_rates :: "fx_config \<Rightarrow> network \<Rightarrow> string list \<Rightarrow> fx_error + (string \<times> rat) list" where
  "era_rates cfg net targets =
     (if EXCHANGERATE_API_KEY cfg = [] then Inl NotConfigured
      else case era_answer net of
             None \<Rightarrow> Inl HttpError
           | Some (success, rs) \<Rightarrow>
               if \<not> success then Inl NonSuccess
               else Inr (List.map_filter (\<lambda>c. map_option (\<lambda>r. (c, r)) (map_of rs c)) targets))"

definition PROVIDERS ::
  "(provider_name \<times> (fx_config \<Rightarrow> network \<Rightarrow> string list \<Rightarrow> fx_error + (string \<times> rat) list)) list" where
  "PROVIDERS = [(Open_exchange_rates, oxr_rates), (Fixer, fixer_rates), (Exchangerate_api, era_rates)]"

subsection \<open>Caches\<close>

definition getCachedRate :: "string \<Rightarrow> time \<Rightarrow> fx_state \<Rightarrow> fx_rate option \<times> fx_state" where
  "getCachedRate currency now s =
     (case map_of (memoryCache s) currency of
        None \<Rightarrow> (None, s)
      | Some (r, e) \<Rightarrow>
          if e < now then (None, s\<lparr>memoryCache := AList.delete currency (memoryCache s)\<rparr>) else (Some r, s))"

definition setCachedRate :: "fx_rate \<Rightarrow> fx_state \<Rightarrow> fx_state" where
  "setCachedRate r s = s\<lparr>memoryCache := AList.update (target r) (r, expires_at r) (memoryCache s)\<rparr>"

text \<open>\<open>ORDER BY fetched_at DESC LIMIT 1\<close>.\<close>

definition loadRateFromDb :: "string \<Rightarrow> time \<Rightarrow> fx_state \<Rightarrow> fx_rate option" where
  "loadRateFromDb currency now s =
     (case sort_key (\<lambda>r. - fetched_at r)
             (filter (\<lambda>r. target r = currency \<and> now < expires_at r) (fx_rate_cache s)) of
        [] \<Rightarrow> None | r # _ \<Rightarrow> Some r)"

definition persistRateToDb :: "fx_rate \<Rightarrow> fx_state \<Rightarrow> fx_state" where
  "persistRateToDb r s =
     s\<lparr>fx_rate_cache := filter (\<lambda>x. rate_id x \<noteq> rate_id r) (fx_rate_cache s) @ [r]\<rparr>"

subsection \<open>Rates\<close>

definition effective :: "rat \<Rightarrow> rat \<Rightarrow> rat" where
  "effective mid spread = parse_fixed 6 (fmul mid (fadd 1 spread))"

definition new_rate ::
  "string \<Rightarrow> string \<Rightarrow> rat \<Rightarrow> rat \<Rightarrow> provider_name \<Rightarrow> time \<Rightarrow> time \<Rightarrow> fx_rate" where
  "new_rate uuid currency mid spread p now expiry =
     \<lparr>rate_id = uuid, target = currency, mid_rate = mid, spread_fraction = spread,
      effective_rate = effective mid spread, provider = p, fetched_at = now, expires_at = expiry\<rparr>"

text \<open>The first provider that gives a positive rate.\<close>

fun try_providers ::
  "fx_config \<Rightarrow> network \<Rightarrow> string
   \<Rightarrow> (provider_name \<times> (fx_config \<Rightarrow> network \<Rightarrow> string list \<Rightarrow> fx_error + (string \<times> rat) list)) list
   \<Rightarrow> (provider_name \<times> rat) option" where
  "try_providers cfg net currency [] = None"
| "try_providers cfg net currency ((name, fetchRates) # ps) =
     (case fetchRates cfg net [currency] of
        Inl _ \<Rightarrow> try_providers cfg net currency ps
      | Inr rates \<Rightarrow>
          (case map_of rates currency of
             None \<Rightarrow> try_providers cfg net currency ps
           | Some mid \<Rightarrow> if mid \<le> 0 then try_providers cfg net currency ps else Some (name, mid)))"

definition fetchLiveRate ::
  "fx_config \<Rightarrow> network \<Rightarrow> string \<Rightarrow> time \<Rightarrow> string \<Rightarrow> rat \<Rightarrow> fx_state \<Rightarrow> (fx_error + fx_rate) \<times> fx_state" where
  "fetchLiveRate cfg net uuid now currency spread s =
     (case try_providers cfg net currency PROVIDERS of
        None \<Rightarrow> (Inl AllProvidersFailed, s)
      | Some (name, mid) \<Rightarrow>
          (let r = new_rate uuid currency mid spread name now (now + RATE_TTL_MINUTES cfg * 60000)
           in (Inr r, persistRateToDb r (setCachedRate r s))))"

definition getRate ::
  "fx_config \<Rightarrow> network \<Rightarrow> string \<Rightarrow> time \<Rightarrow> string \<Rightarrow> rat \<Rightarrow> fx_state \<Rightarrow> (fx_error + fx_rate) \<times> fx_state" where
  "getRate cfg net uuid now currency spread s =
     (case getCachedRate currency now s of
        (Some r, s1) \<Rightarrow> (Inr r, s1)
      | (None, s1) \<Rightarrow>
          (case loadRateFromDb currency now s1 of
             Some r \<Rightarrow> (Inr r, setCachedRate r s1)
           | None \<Rightarrow> fetchLiveRate cfg net uuid now currency spread s1))"

subsection \<open>Conversion\<close>

definition zeroDp :: "string list" where
  "zeroDp = [''BIF'', ''CLP'', ''DJF'', ''GNF'', ''ISK'', ''JPY'', ''KMF'', ''KRW'', ''MGA'',
     ''PYG'', ''RWF'', ''UGX'', ''VND'', ''VUV'', ''XAF'', ''XOF'', ''XPF'']"

definition threeDp :: "string list" where
  "threeDp = [''BHD'', ''IQD'', ''JOD'', ''KWD'', ''LYD'', ''MRU'', ''OMR'', ''TND'']"

definition roundLocalAmount :: "rat \<Rightarrow> string \<Rightarrow> rat" where
  "roundLocalAmount amount currency =
     (if currency \<in> set zeroDp then of_int (js_round amount)
      else if currency \<in> set threeDp then parse_fixed 3 amount
      else parse_fixed 2 amount)"

definition writeConversionLog ::
  "string \<Rightarrow> fx_conversion \<Rightarrow> string option \<Rightarrow> fx_state \<Rightarrow> fx_error + fx_state" where
  "writeConversionLog uuid c payout s =
     (if c_rate_id c \<notin> set (map rate_id (fx_rate_cache s)) then Inl ForeignKeyError
      else if (case payout of None \<Rightarrow> False | Some p \<Rightarrow> p \<notin> set (payout_ids s)) then Inl ForeignKeyError
      else Inr (s\<lparr>fx_conversion_log := fx_conversion_log s @
             [\<lparr>log_id = uuid, log_rate_id = c_rate_id c, payout_log_id = payout, conversion = c\<rparr>]\<rparr>))"

definition conversion_of :: "fx_rate \<Rightarrow> rat \<Rightarrow> string \<Rightarrow> time \<Rightarrow> fx_conversion" where
  "conversion_of r amount currency now =
     \<lparr>c_rate_id = rate_id r, amount_usd = amount,
      local_amount = roundLocalAmount (fmul amount (effective_rate r)) currency, local_currency = currency,
      c_mid_rate = mid_rate r, c_effective_rate = effective_rate r, c_spread_fraction = spread_fraction r,
      c_provider = provider r, converted_at = now\<rparr>"

definition usd_conversion :: "string \<Rightarrow> rat \<Rightarrow> time \<Rightarrow> fx_conversion" where
  "usd_conversion uuid amount now =
     \<lparr>c_rate_id = uuid, amount_usd = amount, local_amount = amount, local_currency = ''USD'', c_mid_rate = 1,
      c_effective_rate = 1, c_spread_fraction = 0, c_provider = Manual_override, converted_at = now\<rparr>"

definition convertUsd ::
  "fx_config \<Rightarrow> network \<Rightarrow> string \<Rightarrow> string \<Rightarrow> time \<Rightarrow> rat \<Rightarrow> string \<Rightarrow> string option \<Rightarrow> fx_state
   \<Rightarrow> (fx_error + fx_conversion) \<times> fx_state" where
  "convertUsd cfg net rateUuid logUuid now amount currency payout s =
     (if currency = ''USD'' then
        (case writeConversionLog logUuid (usd_conversion rateUuid amount now) payout s of
           Inl e \<Rightarrow> (Inl e, s)
         | Inr s' \<Rightarrow> (Inr (usd_conversion rateUuid amount now), s'))
      else
        (case getRate cfg net rateUuid now currency (DEFAULT_SPREAD cfg) s of
           (Inl e, s1) \<Rightarrow> (Inl e, s1)
         | (Inr r, s1) \<Rightarrow>
             (case writeConversionLog logUuid (conversion_of r amount currency now) payout s1 of
                Inl e \<Rightarrow> (Inl e, s1)
              | Inr s2 \<Rightarrow> (Inr (conversion_of r amount currency now), s2))))"

subsection \<open>Operator functions\<close>

definition setManualRate ::
  "string \<Rightarrow> time \<Rightarrow> string \<Rightarrow> rat \<Rightarrow> time \<Rightarrow> rat \<Rightarrow> fx_state \<Rightarrow> (fx_error + fx_rate) \<times> fx_state" where
  "setManualRate uuid now currency mid expiry spread s =
     (if mid \<le> 0 then (Inl BadMidRate, s)
      else if expiry \<le> now then (Inl BadExpiry, s)
      else (let r = new_rate uuid currency mid spread Manual_override now expiry
            in (Inr r, persistRateToDb r (setCachedRate r s))))"

definition getConversionsForPayout :: "string \<Rightarrow> fx_state \<Rightarrow> conversion_row list" where
  "getConversionsForPayout p s = filter (\<lambda>r. payout_log_id r = Some p) (fx_conversion_log s)"

definition getRateHistory :: "string \<Rightarrow> nat \<Rightarrow> fx_state \<Rightarrow> fx_rate list" where
  "getRateHistory currency k s =
     take k (sort_key (\<lambda>r. - fetched_at r) (filter (\<lambda>r. target r = currency) (fx_rate_cache s)))"

text \<open>One DELETE statement: it fails as a whole when a row it deletes is referenced by the log.\<close>

definition purgeExpiredRates :: "int \<Rightarrow> time \<Rightarrow> fx_state \<Rightarrow> (fx_error + nat) \<times> fx_state" where
  "purgeExpiredRates hours now s =
     (let old = (\<lambda>r. expires_at r < now - hours * 3600000);
          doomed = filter old (fx_rate_cache s)
      in if \<exists>r \<in> set doomed. rate_id r \<in> set (map log_rate_id (fx_conversion_log s)) then (Inl ForeignKeyError, s)
         else (Inr (length doomed), s\<lparr>fx_rate_cache := filter (\<lambda>r. \<not> old r) (fx_rate_cache s)\<rparr>))"

subsection \<open>Steps and the invariant\<close>

text \<open>
  The state with the time of the last operation; clocks do not run backwards, and ids of new rates
  are fresh.
\<close>

definition fresh :: "string \<Rightarrow> fx_state \<Rightarrow> bool" where
  "fresh uuid s \<longleftrightarrow> uuid \<notin> set (map rate_id (fx_rate_cache s))"

inductive fx_step :: "fx_state \<times> time \<Rightarrow> fx_state \<times> time \<Rightarrow> bool" where
  fx_get: "t \<le> now \<Longrightarrow> fresh uuid s \<Longrightarrow> getRate cfg net uuid now currency spread s = (out, s') \<Longrightarrow>
    fx_step (s, t) (s', now)"
| fx_convert: "t \<le> now \<Longrightarrow> fresh uuid s \<Longrightarrow>
    convertUsd cfg net uuid logUuid now amount currency payout s = (res, s') \<Longrightarrow> fx_step (s, t) (s', now)"
| fx_manual: "t \<le> now \<Longrightarrow> fresh uuid s \<Longrightarrow> setManualRate uuid now currency mid expiry spread s = (out, s') \<Longrightarrow>
    fx_step (s, t) (s', now)"
| fx_purge: "t \<le> now \<Longrightarrow> 0 \<le> hours \<Longrightarrow> purgeExpiredRates hours now s = (cnt, s') \<Longrightarrow> fx_step (s, t) (s', now)"
| fx_payout: "fx_step (s, t) (s\<lparr>payout_ids := p # payout_ids s\<rparr>, t)"
| fx_restart: "fx_step (s, t) (s\<lparr>memoryCache := []\<rparr>, t)"

definition fx_init :: "fx_state \<times> time \<Rightarrow> bool" where
  "fx_init p \<longleftrightarrow> memoryCache (fst p) = [] \<and> fx_rate_cache (fst p) = [] \<and> fx_conversion_log (fst p) = []"

definition good_rate :: "fx_rate \<Rightarrow> bool" where
  "good_rate r \<longleftrightarrow> 0 < mid_rate r \<and> effective_rate r = effective (mid_rate r) (spread_fraction r)"

definition mem_ok :: "fx_state \<Rightarrow> time \<Rightarrow> bool" where
  "mem_ok s t \<longleftrightarrow> (\<forall>c r e. map_of (memoryCache s) c = Some (r, e) \<longrightarrow>
     target r = c \<and> e = expires_at r \<and> (t \<le> e \<longrightarrow> r \<in> set (fx_rate_cache s)))"

text \<open>A log row says exactly what its rate row says.\<close>

definition row_ok :: "fx_state \<Rightarrow> conversion_row \<Rightarrow> bool" where
  "row_ok s row \<longleftrightarrow> (\<exists>r \<in> set (fx_rate_cache s). rate_id r = log_rate_id row
     \<and> conversion row = conversion_of r (amount_usd (conversion row)) (target r) (converted_at (conversion row)))"

definition fx_inv :: "fx_state \<times> time \<Rightarrow> bool" where
  "fx_inv p \<longleftrightarrow> (case p of (s, t) \<Rightarrow>
     distinct (map rate_id (fx_rate_cache s)) \<and> (\<forall>r \<in> set (fx_rate_cache s). good_rate r)
     \<and> mem_ok s t \<and> (\<forall>row \<in> set (fx_conversion_log s). row_ok s row))"

lemma mem_ok_later: "mem_ok s t \<Longrightarrow> t \<le> now \<Longrightarrow> mem_ok s now"
  unfolding mem_ok_def by (meson order_trans)

lemma inv_later: "fx_inv (s, t) \<Longrightarrow> t \<le> now \<Longrightarrow> fx_inv (s, now)"
  by (auto simp: fx_inv_def intro: mem_ok_later)

lemma getCachedRate_cases:
  assumes "getCachedRate currency now s = (out, s1)"
  obtains r e where "out = Some r" "s1 = s" "map_of (memoryCache s) currency = Some (r, e)" "now \<le> e"
  | "out = None" "s1 = s\<lparr>memoryCache := AList.delete currency (memoryCache s)\<rparr> \<or> s1 = s"
  using assms by (auto simp: getCachedRate_def split: option.splits prod.splits if_splits)

lemma inv_forget: "fx_inv (s, t) \<Longrightarrow> fx_inv (s\<lparr>memoryCache := AList.delete c (memoryCache s)\<rparr>, t)"
  by (auto simp: fx_inv_def mem_ok_def row_ok_def)

lemma inv_set:
  assumes "fx_inv (s, t)" "r \<in> set (fx_rate_cache s)"
  shows "fx_inv (setCachedRate r s, t)"
  using assms by (auto simp: fx_inv_def mem_ok_def row_ok_def setCachedRate_def)

lemma inv_new:
  assumes "fx_inv (s, t)" "fresh (rate_id r) s" "good_rate r"
  shows "fx_inv (persistRateToDb r (setCachedRate r s), t)"
    and "r \<in> set (fx_rate_cache (persistRateToDb r (setCachedRate r s)))"
    and "fx_conversion_log (persistRateToDb r (setCachedRate r s)) = fx_conversion_log s"
proof -
  have f: "filter (\<lambda>x. rate_id x \<noteq> rate_id r) (fx_rate_cache s) = fx_rate_cache s"
  proof (rule filter_True, rule ballI)
    fix x
    assume "x \<in> set (fx_rate_cache s)"
    then have "rate_id x \<in> rate_id ` set (fx_rate_cache s)" by (rule imageI)
    then show "rate_id x \<noteq> rate_id r" using assms(2) by (auto simp: fresh_def)
  qed
  have c: "fx_rate_cache (persistRateToDb r (setCachedRate r s)) = fx_rate_cache s @ [r]"
    by (simp add: persistRateToDb_def setCachedRate_def f)
  have m: "memoryCache (persistRateToDb r (setCachedRate r s)) =
      AList.update (target r) (r, expires_at r) (memoryCache s)"
    by (simp add: persistRateToDb_def setCachedRate_def)
  have l: "fx_conversion_log (persistRateToDb r (setCachedRate r s)) = fx_conversion_log s"
    by (simp add: persistRateToDb_def setCachedRate_def)
  show "r \<in> set (fx_rate_cache (persistRateToDb r (setCachedRate r s)))" by (simp add: c)
  show "fx_conversion_log (persistRateToDb r (setCachedRate r s)) = fx_conversion_log s" by (rule l)
  show "fx_inv (persistRateToDb r (setCachedRate r s), t)"
    using assms by (auto simp: fx_inv_def mem_ok_def row_ok_def c m l fresh_def)
qed

lemma loadRateFromDb_Some:
  "loadRateFromDb currency now s = Some r \<Longrightarrow> r \<in> set (fx_rate_cache s) \<and> target r = currency \<and> now < expires_at r"
proof -
  let ?xs = "sort_key (\<lambda>r. - fetched_at r) (filter (\<lambda>r. target r = currency \<and> now < expires_at r) (fx_rate_cache s))"
  assume "loadRateFromDb currency now s = Some r"
  then obtain ys where "?xs = r # ys" by (auto simp: loadRateFromDb_def split: list.splits)
  then have "set ?xs = insert r (set ys)" by simp
  then show ?thesis by (auto simp: set_eq_iff)
qed

lemma loadRateFromDb_None:
  "loadRateFromDb currency now s = None \<Longrightarrow> r \<in> set (fx_rate_cache s) \<Longrightarrow> target r = currency \<Longrightarrow> expires_at r \<le> now"
proof -
  let ?xs = "sort_key (\<lambda>r. - fetched_at r) (filter (\<lambda>r. target r = currency \<and> now < expires_at r) (fx_rate_cache s))"
  assume a: "loadRateFromDb currency now s = None" "r \<in> set (fx_rate_cache s)" "target r = currency"
  then have "?xs = []" by (auto simp: loadRateFromDb_def split: list.splits)
  then have "set ?xs = {}" by simp
  then show ?thesis using a(2,3) by auto
qed

lemma try_providers_pos: "try_providers cfg net c ps = Some (n, mid) \<Longrightarrow> 0 < mid"
  by (induction ps) (auto split: sum.splits option.splits if_splits)

text \<open>What a call of \<open>getRate\<close> does.\<close>

lemma getRate_cases:
  assumes "getRate cfg net uuid now currency spread s = (res, s')" "fx_inv (s, now)" "fresh uuid s"
  shows "fx_inv (s', now) \<and> fx_conversion_log s' = fx_conversion_log s \<and> payout_ids s' = payout_ids s
    \<and> (case res of
         Inr r \<Rightarrow> r \<in> set (fx_rate_cache s') \<and> target r = currency
           \<and> (0 \<le> RATE_TTL_MINUTES cfg \<longrightarrow> now \<le> expires_at r)
           \<and> map_of (memoryCache s') currency = Some (r, expires_at r)
       | Inl e \<Rightarrow> e = AllProvidersFailed \<and> fx_rate_cache s' = fx_rate_cache s
           \<and> try_providers cfg net currency PROVIDERS = None
           \<and> (\<forall>r \<in> set (fx_rate_cache s). target r = currency \<longrightarrow> expires_at r \<le> now))"
proof -
  obtain mem s1 where g: "getCachedRate currency now s = (mem, s1)" by fastforce
  from g show ?thesis
  proof (cases rule: getCachedRate_cases)
    case (1 r e)
    then have "res = Inr r" "s' = s" using assms(1) g by (simp_all add: getRate_def)
    then show ?thesis using assms(2) 1 by (auto simp: fx_inv_def mem_ok_def)
  next
    case 2
    have i1: "fx_inv (s1, now)" using 2 assms(2) by (auto intro: inv_forget)
    have same: "fx_rate_cache s1 = fx_rate_cache s" "fx_conversion_log s1 = fx_conversion_log s"
      "payout_ids s1 = payout_ids s" using 2 by auto
    show ?thesis
    proof (cases "loadRateFromDb currency now s1")
      case (Some r)
      note ld = loadRateFromDb_Some [OF Some]
      have "res = Inr r" "s' = setCachedRate r s1" using assms(1) g 2 Some by (simp_all add: getRate_def)
      moreover have "fx_inv (setCachedRate r s1, now)" using inv_set [OF i1] ld same by simp
      ultimately show ?thesis using ld same by (simp add: setCachedRate_def)
    next
      case None
      then have live: "fetchLiveRate cfg net uuid now currency spread s1 = (res, s')"
        using assms(1) g 2 by (simp add: getRate_def)
      show ?thesis
      proof (cases "try_providers cfg net currency PROVIDERS")
        case no: None
        then have "res = Inl AllProvidersFailed" "s' = s1" using live by (simp_all add: fetchLiveRate_def)
        then show ?thesis using i1 same no loadRateFromDb_None [OF None] by auto
      next
        case (Some p)
        obtain n mid where p: "p = (n, mid)" by fastforce
        define r where "r = new_rate uuid currency mid spread n now (now + RATE_TTL_MINUTES cfg * 60000)"
        have s': "res = Inr r" "s' = persistRateToDb r (setCachedRate r s1)"
          using live Some p by (simp_all add: fetchLiveRate_def r_def Let_def)
        have r: "good_rate r" "rate_id r = uuid" "target r = currency"
          "expires_at r = now + RATE_TTL_MINUTES cfg * 60000"
          using try_providers_pos [OF Some [unfolded p]] by (simp_all add: r_def new_rate_def good_rate_def)
        have "fresh (rate_id r) s1" using assms(3) same r(2) by (simp add: fresh_def)
        note new = inv_new [OF i1 this r(1)]
        show ?thesis using new r same
          by (simp add: s') (simp add: persistRateToDb_def setCachedRate_def)
      qed
    qed
  qed
qed

lemma inv_log:
  assumes "fx_inv (s, t)" "r \<in> set (fx_rate_cache s)" "writeConversionLog uuid (conversion_of r amount (target r) t') payout s = Inr s'"
  shows "fx_inv (s', t)"
proof -
  define row where "row = \<lparr>log_id = uuid, log_rate_id = rate_id r, payout_log_id = payout,
    conversion = conversion_of r amount (target r) t'\<rparr>"
  have s': "s' = s\<lparr>fx_conversion_log := fx_conversion_log s @ [row]\<rparr>"
    using assms(3) by (auto simp: writeConversionLog_def row_def conversion_of_def split: if_splits)
  have "row_ok s row" using assms(2) by (auto simp: row_ok_def row_def conversion_of_def)
  then show ?thesis using assms(1) by (auto simp: fx_inv_def s' mem_ok_def row_ok_def)
qed

lemma usd_unknown: "fresh uuid s \<Longrightarrow> writeConversionLog logUuid (usd_conversion uuid amount now) payout s = Inl ForeignKeyError"
  by (simp add: writeConversionLog_def usd_conversion_def fresh_def)

lemma inv_convert:
  assumes "convertUsd cfg net uuid logUuid now amount currency payout s = (res, s')" "fx_inv (s, now)" "fresh uuid s"
  shows "fx_inv (s', now)"
proof (cases "currency = ''USD''")
  case True
  then have "s' = s" using assms(1) usd_unknown [OF assms(3)] by (simp add: convertUsd_def)
  then show ?thesis using assms(2) by simp
next
  case False
  obtain rres s1 where g: "getRate cfg net uuid now currency (DEFAULT_SPREAD cfg) s = (rres, s1)" by fastforce
  note gc = getRate_cases [OF g assms(2,3)]
  show ?thesis
  proof (cases rres)
    case (Inl e)
    then show ?thesis using assms(1) g False gc by (simp add: convertUsd_def)
  next
    case (Inr r)
    then have r: "r \<in> set (fx_rate_cache s1)" "target r = currency" "fx_inv (s1, now)" using gc by simp_all
    then show ?thesis using assms(1) g False Inr inv_log [OF r(3,1)]
      by (auto simp: convertUsd_def split: sum.splits)
  qed
qed

lemma purge_keeps_inv:
  assumes "purgeExpiredRates hours now s = (n, s')" "fx_inv (s, now)" "0 \<le> hours"
  shows "fx_inv (s', now)"
proof (cases "s' = s")
  case True
  then show ?thesis using assms(2) by simp
next
  case False
  let ?old = "\<lambda>r. expires_at r < now - hours * 3600000"
  have s': "s' = s\<lparr>fx_rate_cache := filter (\<lambda>r. \<not> ?old r) (fx_rate_cache s)\<rparr>"
    and ref: "\<forall>r \<in> set (fx_rate_cache s). ?old r \<longrightarrow> rate_id r \<notin> set (map log_rate_id (fx_conversion_log s))"
    using assms(1) False by (auto simp: purgeExpiredRates_def Let_def split: if_splits)
  have h: "0 \<le> hours * 3600000" using assms(3) by simp
  have "distinct (map rate_id (fx_rate_cache s'))"
    using assms(2) by (simp add: fx_inv_def s' distinct_map_filter)
  moreover have "mem_ok s' now" using assms(2) h by (auto simp: fx_inv_def mem_ok_def s')
  moreover have "row_ok s' row" if "row \<in> set (fx_conversion_log s)" for row
  proof -
    have "row_ok s row" using that assms(2) by (simp add: fx_inv_def)
    then obtain r where r: "r \<in> set (fx_rate_cache s)" "rate_id r = log_rate_id row"
      "conversion row = conversion_of r (amount_usd (conversion row)) (target r) (converted_at (conversion row))"
      unfolding row_ok_def by blast
    have "\<not> ?old r" using ref r(1,2) that by auto
    then show ?thesis using r by (auto simp: row_ok_def s')
  qed
  ultimately show ?thesis using assms(2) by (auto simp: fx_inv_def s')
qed

interpretation fx: invariant_system fx_init fx_step fx_inv
proof unfold_locales
  show "fx_init p \<Longrightarrow> fx_inv p" for p by (cases p) (simp add: fx_init_def fx_inv_def mem_ok_def)
  show "fx_step p q \<Longrightarrow> fx_inv p \<Longrightarrow> fx_inv q" for p q
  proof (induction rule: fx_step.induct)
    case (fx_get t now uuid s cfg net currency spread out s')
    then show ?case using getRate_cases [OF fx_get(3)] inv_later by blast
  next
    case (fx_manual t now uuid s currency mid expiry spread out s')
    then show ?case using inv_new(1) [of s now "new_rate uuid currency mid spread Manual_override now expiry"] inv_later [of s t now]
      by (auto simp: setManualRate_def Let_def new_rate_def good_rate_def split: if_splits)
  next
    case (fx_payout s t p)
    then show ?case by (simp add: fx_inv_def mem_ok_def row_ok_def)
  next
    case (fx_restart s t)
    then show ?case by (simp add: fx_inv_def mem_ok_def row_ok_def)
  qed (blast intro: inv_later inv_convert purge_keeps_inv)+
qed

subsection \<open>Properties\<close>

text \<open>C32: In every reachable state a conversion to another currency either fails because no rate exists (every
  cached row is expired and every provider fails), logging nothing, or returns exactly the amount
  times the effective rate of one unexpired rate of that currency, rounded to the currency's
  decimals; the rate has a positive mid rate, its effective rate carries the spread, it is a row of
  the rate table, and exactly one log row with these numbers is added.\<close>

theorem conversion_exact:
  assumes "reach fx_init fx_step (s, t)" "t \<le> now" "fresh rateUuid s" "currency \<noteq> ''USD''"
    "0 \<le> RATE_TTL_MINUTES cfg" "payout = None \<or> (\<exists>p \<in> set (payout_ids s). payout = Some p)"
  shows "case convertUsd cfg net rateUuid logUuid now amount currency payout s of
      (Inr c, s') \<Rightarrow> (\<exists>r \<in> set (fx_rate_cache s'). target r = currency \<and> now \<le> expires_at r \<and> 0 < mid_rate r
          \<and> effective_rate r = effective (mid_rate r) (spread_fraction r)
          \<and> c = conversion_of r amount currency now
          \<and> local_amount c = roundLocalAmount (fmul amount (effective_rate r)) currency)
        \<and> fx_conversion_log s' = fx_conversion_log s @
            [\<lparr>log_id = logUuid, log_rate_id = c_rate_id c, payout_log_id = payout, conversion = c\<rparr>]
    | (Inl e, s') \<Rightarrow> e = AllProvidersFailed \<and> fx_conversion_log s' = fx_conversion_log s
        \<and> try_providers cfg net currency PROVIDERS = None
        \<and> (\<forall>r \<in> set (fx_rate_cache s). target r = currency \<longrightarrow> expires_at r \<le> now)"
proof -
  have inv: "fx_inv (s, now)" using fx.reach_inv [OF assms(1)] assms(2) by (rule inv_later)
  obtain rres s1 where g: "getRate cfg net rateUuid now currency (DEFAULT_SPREAD cfg) s = (rres, s1)" by fastforce
  note gc = getRate_cases [OF g inv assms(3)]
  show ?thesis
  proof (cases rres)
    case (Inl e)
    then show ?thesis using g gc assms(4) by (simp add: convertUsd_def)
  next
    case (Inr r)
    then have r: "r \<in> set (fx_rate_cache s1)" "target r = currency" "now \<le> expires_at r" "fx_inv (s1, now)"
      "fx_conversion_log s1 = fx_conversion_log s" "payout_ids s1 = payout_ids s"
      using gc assms(5) by simp_all
    have good: "good_rate r" using r(1,4) by (simp add: fx_inv_def)
    have w: "writeConversionLog logUuid (conversion_of r amount currency now) payout s1 =
        Inr (s1\<lparr>fx_conversion_log := fx_conversion_log s1 @ [\<lparr>log_id = logUuid, log_rate_id = rate_id r,
          payout_log_id = payout, conversion = conversion_of r amount currency now\<rparr>]\<rparr>)"
      using r(1,6) assms(6) by (auto simp: writeConversionLog_def conversion_of_def)
    have c: "c_rate_id (conversion_of r amount currency now) = rate_id r"
      "local_amount (conversion_of r amount currency now) = roundLocalAmount (fmul amount (effective_rate r)) currency"
      by (simp_all add: conversion_of_def)
    have v: "convertUsd cfg net rateUuid logUuid now amount currency payout s =
        (Inr (conversion_of r amount currency now), s1\<lparr>fx_conversion_log := fx_conversion_log s1 @
          [\<lparr>log_id = logUuid, log_rate_id = rate_id r, payout_log_id = payout,
            conversion = conversion_of r amount currency now\<rparr>]\<rparr>)"
      by (simp add: convertUsd_def assms(4) g Inr w)
    have "r \<in> set (fx_rate_cache s1) \<and> target r = currency \<and> now \<le> expires_at r \<and> 0 < mid_rate r
        \<and> effective_rate r = effective (mid_rate r) (spread_fraction r)"
      using r good by (simp add: good_rate_def)
    then show ?thesis by (auto simp: v c r(5) intro!: bexI [of _ r])
  qed
qed

text \<open>A conversion to USD never succeeds: its log row refers to a fresh rate id that no row of the rate
  table has, the foreign key rejects it, and nothing is logged.\<close>

theorem usd_conversion_fails:
  assumes "fresh rateUuid s"
  shows "convertUsd cfg net rateUuid logUuid now amount ''USD'' payout s = (Inl ForeignKeyError, s)"
  using usd_unknown [OF assms] by (simp add: convertUsd_def)

text \<open>A rate once returned is returned unchanged until it expires, whatever the providers answer by then,
  whatever new id is offered, and even when the caller asks for a different spread, with no
  change of state.\<close>

theorem rate_is_pinned_until_expiry:
  assumes "reach fx_init fx_step (s, t)" "t \<le> now" "fresh uuid s"
    "getRate cfg net uuid now currency spread s = (Inr r, s1)" "later \<le> expires_at r"
  shows "getRate cfg2 net2 uuid2 later currency spread2 s1 = (Inr r, s1)"
proof -
  have "fx_inv (s, now)" using fx.reach_inv [OF assms(1)] assms(2) by (rule inv_later)
  from getRate_cases [OF assms(4) this assms(3)] have "map_of (memoryCache s1) currency = Some (r, expires_at r)"
    by simp
  then show ?thesis using assms(5) by (simp add: getRate_def getCachedRate_def)
qed

text \<open>The conversion log is auditable: in every reachable state every log row refers to a rate row that
  still exists, and its numbers are the ones that rate row gives for its amount; purging expired rates
  never breaks this.\<close>

theorem conversion_log_auditable:
  assumes "reach fx_init fx_step (s, t)" "row \<in> set (fx_conversion_log s)"
  shows "\<exists>r \<in> set (fx_rate_cache s). rate_id r = log_rate_id row
    \<and> local_amount (conversion row) =
        roundLocalAmount (fmul (amount_usd (conversion row)) (effective_rate r)) (local_currency (conversion row))
    \<and> local_currency (conversion row) = target r \<and> c_mid_rate (conversion row) = mid_rate r
    \<and> c_effective_rate (conversion row) = effective (mid_rate r) (spread_fraction r) \<and> 0 < mid_rate r"
proof -
  have inv: "fx_inv (s, t)" using assms(1) by (rule fx.reach_inv)
  then have "row_ok s row" using assms(2) by (simp add: fx_inv_def)
  then obtain r where r: "r \<in> set (fx_rate_cache s)" "rate_id r = log_rate_id row"
    "conversion row = conversion_of r (amount_usd (conversion row)) (target r) (converted_at (conversion row))"
    unfolding row_ok_def by blast
  have good: "good_rate r" using inv r(1) by (simp add: fx_inv_def)
  have "local_amount (conversion row) = roundLocalAmount (fmul (amount_usd (conversion row)) (effective_rate r)) (target r)
    \<and> local_currency (conversion row) = target r \<and> c_mid_rate (conversion row) = mid_rate r
    \<and> c_effective_rate (conversion row) = effective_rate r"
    by (subst r(3), subst (2) r(3), subst (3) r(3), subst (4) r(3)) (simp add: conversion_of_def)
  then show ?thesis using r(1,2) good by (auto simp: good_rate_def)
qed

subsection \<open>Witnesses\<close>

definition demo_config :: fx_config where
  "demo_config = \<lparr>RATE_TTL_MINUTES = 15, DEFAULT_SPREAD = rnd (5 / 1000), OXR_APP_ID = ''k'',
     FIXER_API_KEY = [], EXCHANGERATE_API_KEY = []\<rparr>"

definition demo_net :: network where
  "demo_net = \<lparr>oxr_answer = Some [(''KES'', 129)], fixer_answer = None, era_answer = None\<rparr>"

definition demo_empty :: fx_state where
  "demo_empty = \<lparr>memoryCache = [], fx_rate_cache = [], fx_conversion_log = [], payout_ids = []\<rparr>"

definition demo_rate :: fx_rate where
  "demo_rate = new_rate ''r'' ''KES'' 129 (rnd (5 / 1000)) Open_exchange_rates 7 (7 + 15 * 60000)"

lemma demo_try: "try_providers demo_config demo_net ''KES'' PROVIDERS = Some (Open_exchange_rates, 129)"
  by (simp add: PROVIDERS_def oxr_rates_def demo_config_def demo_net_def)

definition demo_fetched :: fx_state where
  "demo_fetched = persistRateToDb demo_rate (setCachedRate demo_rate demo_empty)"

lemma demo_get:
  "getRate demo_config demo_net ''r'' 7 ''KES'' (rnd (5 / 1000)) demo_empty = (Inr demo_rate, demo_fetched)"
proof -
  have "getCachedRate ''KES'' 7 demo_empty = (None, demo_empty)" "loadRateFromDb ''KES'' 7 demo_empty = None"
    by (simp_all add: getCachedRate_def loadRateFromDb_def demo_empty_def)
  then show ?thesis
    by (simp add: getRate_def fetchLiveRate_def demo_try demo_rate_def demo_fetched_def Let_def)
      (simp add: demo_config_def)
qed

lemma demo_empty_reach: "reach fx_init fx_step (demo_empty, 0)"
  by (rule reach_init) (simp add: fx_init_def demo_empty_def)

lemma demo_fresh: "fresh uuid demo_empty"
  by (simp add: fresh_def demo_empty_def)

lemma demo_convert:
  "\<exists>c s'. convertUsd demo_config demo_net ''r'' ''l'' 7 10 ''KES'' None demo_empty = (Inr c, s')
     \<and> fx_conversion_log s' = [\<lparr>log_id = ''l'', log_rate_id = ''r'', payout_log_id = None, conversion = c\<rparr>]"
proof -
  have d: "DEFAULT_SPREAD demo_config = rnd (5 / 1000)" by (simp add: demo_config_def)
  show ?thesis unfolding convertUsd_def d demo_get
    by (simp add: writeConversionLog_def conversion_of_def demo_fetched_def persistRateToDb_def setCachedRate_def
        demo_empty_def demo_rate_def new_rate_def)
qed

theorem conversion_exact_witness:
  "\<exists>c s' r. convertUsd demo_config demo_net ''r'' ''l'' 7 10 ''KES'' None demo_empty = (Inr c, s')
     \<and> r \<in> set (fx_rate_cache s') \<and> local_amount c = roundLocalAmount (fmul 10 (effective_rate r)) ''KES''"
proof -
  have ttl: "0 \<le> RATE_TTL_MINUTES demo_config" by (simp add: demo_config_def)
  obtain c s' where c: "convertUsd demo_config demo_net ''r'' ''l'' 7 10 ''KES'' None demo_empty = (Inr c, s')"
    using demo_convert by blast
  show ?thesis
    using conversion_exact [OF demo_empty_reach _ demo_fresh [of "''r''"] _ ttl, where now = 7 and currency = "''KES''" and
        payout = None and net = demo_net and logUuid = "''l''" and amount = 10] c by auto
qed

theorem usd_conversion_fails_witness:
  "fst (convertUsd demo_config demo_net ''r'' ''l'' 7 10 ''USD'' None demo_empty) = Inl ForeignKeyError"
  using usd_conversion_fails [OF demo_fresh] by simp

theorem rate_is_pinned_until_expiry_witness:
  "getRate demo_config demo_net ''q'' 9 ''KES'' (1 / 2) demo_fetched = (Inr demo_rate, demo_fetched)"
  by (rule rate_is_pinned_until_expiry [OF demo_empty_reach _ demo_fresh demo_get])
    (simp_all add: demo_rate_def new_rate_def)

theorem conversion_log_auditable_witness:
  "\<exists>s :: fx_state. \<exists>row :: conversion_row. row \<in> set (fx_conversion_log s)
     \<and> (\<exists>r \<in> set (fx_rate_cache s). rate_id r = log_rate_id row \<and> 0 < mid_rate r)"
proof -
  obtain c s' where c: "convertUsd demo_config demo_net ''r'' ''l'' 7 10 ''KES'' None demo_empty = (Inr c, s')"
    "fx_conversion_log s' = [\<lparr>log_id = ''l'', log_rate_id = ''r'', payout_log_id = None, conversion = c\<rparr>]"
    using demo_convert by blast
  have "fx_step (demo_empty, 0) (s', 7)" using fx_convert [OF _ demo_fresh c(1), of 0] by simp
  then have "reach fx_init fx_step (s', 7)" by (rule reach_step [OF demo_empty_reach])
  from conversion_log_auditable [OF this, of "\<lparr>log_id = ''l'', log_rate_id = ''r'', payout_log_id = None, conversion = c\<rparr>"]
  have "\<exists>r \<in> set (fx_rate_cache s'). rate_id r = ''r'' \<and> 0 < mid_rate r" using c(2) by auto
  then show ?thesis using c(2)
    by (intro exI [of _ s'] exI [of _ "\<lparr>log_id = ''l'', log_rate_id = ''r'', payout_log_id = None, conversion = c\<rparr>"]) simp
qed

end
