(* ===== verification/JsHex.thy ===== *)
theory JsHex
  imports JsValue
begin

section \<open>Hexadecimal text\<close>

text \<open>
  \<open>Buffer.from(s, "hex")\<close>, which the code uses to compare digests as bytes, and the fact that two
  digests in lower-case hexadecimal are equal when their bytes are.
\<close>

text \<open>\<open>Buffer.from(s, "hex")\<close>: the bytes of the digit pairs up to the first that is not one.\<close>

definition hex_value :: "char \<Rightarrow> int option" where
  "hex_value c = (case hex_digit c of Some d \<Rightarrow> if d < 16 then Some d else None | None \<Rightarrow> None)"

fun hex_bytes :: "string \<Rightarrow> int list" where
  "hex_bytes (a # b # s) =
     (case (hex_value a, hex_value b) of (Some x, Some y) \<Rightarrow> (16 * x + y) # hex_bytes s | _ \<Rightarrow> [])"
| "hex_bytes s = []"

definition hex_chars :: "char set" where "hex_chars = set ''0123456789abcdef''"

lemma hex_value_table:
  "map hex_value ''0123456789abcdef'' = map Some [0, 1, 2, 3, 4, 5, 6, 7, 8, 9, 10, 11, 12, 13, 14, 15]"
  by (simp add: hex_value_def hex_digit_def is_digit_def digit_val_def lower_char_def)

lemma hex_value_inj: "inj_on hex_value (hex_chars)"
  "c \<in> hex_chars \<Longrightarrow> \<exists>v. hex_value c = Some v \<and> 0 \<le> v \<and> v < 16"
proof -
  have "distinct (map hex_value ''0123456789abcdef'')" unfolding hex_value_table by simp
  then show "inj_on hex_value (hex_chars)" by (simp only: distinct_map hex_chars_def)
  assume "c \<in> hex_chars"
  then have "hex_value c \<in> set (map hex_value ''0123456789abcdef'')" by (simp only: list.set_map imageI hex_chars_def)
  then show "\<exists>v. hex_value c = Some v \<and> 0 \<le> v \<and> v < 16" unfolding hex_value_table by auto
qed

lemma hex_bytes_inj:
  assumes "length s = length t" "even (length s)" "set s \<subseteq> hex_chars" "set t \<subseteq> hex_chars"
    and "hex_bytes s = hex_bytes t"
  shows "s = t"
  using assms
proof (induction s arbitrary: t rule: hex_bytes.induct)
  case (1 a b s)
  then have "length t = Suc (Suc (length s))" by simp
  then obtain c d u where t: "t = c # d # u" by (auto simp: length_Suc_conv)
  have mem: "a \<in> hex_chars" "b \<in> hex_chars" "c \<in> hex_chars" "d \<in> hex_chars"
    using "1.prems"(3,4) t by simp_all
  obtain va vb vc vd where v: "hex_value a = Some va" "hex_value b = Some vb" "hex_value c = Some vc" "hex_value d = Some vd"
    and r: "0 \<le> va" "va < 16" "0 \<le> vb" "vb < 16" "0 \<le> vc" "vc < 16" "0 \<le> vd" "vd < 16"
    using hex_value_inj(2) [OF mem(1)] hex_value_inj(2) [OF mem(2)] hex_value_inj(2) [OF mem(3)] hex_value_inj(2) [OF mem(4)] by blast
  have e: "16 * va + vb = 16 * vc + vd" and "hex_bytes s = hex_bytes u" using "1.prems"(5) t v by simp_all
  have "(16 * va + vb) div 16 = va" "(16 * vc + vd) div 16 = vc" "(16 * va + vb) mod 16 = vb" "(16 * vc + vd) mod 16 = vd"
    using r by simp_all
  then have "va = vc" "vb = vd" using e by simp_all
  then have "a = c" "b = d" using inj_onD [OF hex_value_inj(1), of a c] inj_onD [OF hex_value_inj(1), of b d] mem v by simp_all
  moreover have "s = u"
    by (rule "1.IH" [OF refl v(1,2)]) (use "1.prems"(1-4) t \<open>hex_bytes s = hex_bytes u\<close> in simp_all)
  ultimately show ?case by (simp add: t)
qed (simp, auto dest!: sym [of "Suc 0"])

end
