(* ===== verification/Payout.thy ===== *)
theory Payout
  imports CountryRequirements Fx JsHex Anomaly
begin

section \<open>Payouts\<close>

text \<open>
  The model of src/services/payout.ts: the sweep that pays the agents of a tenant in their local
  currency, the settlement, the history and the integrity audit of the log. A payout of one agent has
  three parts, separated by the awaits of the code: \<open>pay_quote\<close> (checks and conversion), \<open>pay_lock\<close>
  (idempotency check, log row and debit, without an await) and \<open>pay_finish\<close> after the provider has
  answered. The answers of the payment providers are the parameter \<open>providers\<close>, the HMAC under
  the configured secret is \<open>ph\<close>; the currency conversion is the model of services/fx.ts, with its
  state as a part of the database. The agents table has the columns that the sweep selects.
\<close>

datatype payout_status = P_pending | P_processing | P_success | P_failed | P_duplicate

fun payout_status_str :: "payout_status \<Rightarrow> string" where
  "payout_status_str P_pending = ''pending''"
| "payout_status_str P_processing = ''processing''"
| "payout_status_str P_success = ''success''"
| "payout_status_str P_failed = ''failed''"
| "payout_status_str P_duplicate = ''duplicate''"

fun method_str :: "payout_method \<Rightarrow> string" where
  "method_str Momo = ''momo''"
| "method_str Card = ''card''"

definition method_of :: "string \<Rightarrow> payout_method option" where
  "method_of s = (if s = ''momo'' then Some Momo else if s = ''card'' then Some Card else None)"

definition kyc_of :: "string \<Rightarrow> kyc_tier option" where
  "kyc_of s = (if s = ''basic'' then Some Basic else if s = ''standard'' then Some Standard
     else if s = ''enhanced'' then Some Enhanced else None)"

record pay_agent =
  pa_id :: string
  pa_tenant :: string
  pa_name :: string
  pa_balance :: rat
  pa_method :: "string option"
  pa_card :: "string option"
  pa_threshold :: rat
  pa_locked :: bool
  pa_momo :: "string option"
  pa_country :: "string option"
  pa_kyc :: string

datatype dispatch_error =
  NoMomoNumber | MomoToken | MomoInitiation | MomoPoll | NoCardToken | CardRecipient | CardPayout

datatype pay_reason =
  R_country country_error | R_kyc | R_method | R_nothing | R_cap | R_fx fx_error | R_below | R_above
| R_unique | R_balance | R_dispatch dispatch_error | R_provider string

record payout_row =
  pl_id :: string
  pl_agent :: string
  pl_tenant :: string
  pl_amount :: rat
  pl_local :: rat
  pl_currency :: string
  pl_mid :: rat
  pl_effective :: rat
  pl_rate :: string
  pl_method :: payout_method
  pl_key :: string
  pl_signature :: string
  pl_status :: payout_status
  pl_reference :: "string option"
  pl_reason :: "pay_reason option"
  pl_wht :: rat
  pl_filed :: bool
  pl_created :: time
  pl_settled :: "time option"

record payout_result =
  rs_key :: string
  rs_agent :: string
  rs_status :: payout_status
  rs_amount :: rat
  rs_local :: rat
  rs_currency :: string
  rs_mid :: rat
  rs_effective :: rat
  rs_wht :: rat
  rs_reference :: "string option"
  rs_reason :: "pay_reason option"

record pay_db =
  pd_agents :: "pay_agent list"
  pd_logs :: "payout_row list"
  pd_fx :: fx_state

record pay_env =
  ph :: "string \<Rightarrow> string"
  pcfg :: fx_config

subsection \<open>Constants, keys and signatures\<close>

definition RESERVE_FRACTION :: rat where "RESERVE_FRACTION = rnd (15 / 100)"
definition SWEEP_HARD_CAP_USD :: rat where "SWEEP_HARD_CAP_USD = 50000"

definition ZERO_DECIMAL_CURRENCIES :: "string list" where
  "ZERO_DECIMAL_CURRENCIES = [''BIF'', ''CLP'', ''DJF'', ''GNF'', ''ISK'', ''JPY'', ''KMF'', ''KRW'', ''MGA'',
     ''PYG'', ''RWF'', ''UGX'', ''VND'', ''VUV'', ''XAF'', ''XOF'', ''XPF'']"

definition THREE_DECIMAL_CURRENCIES :: "string list" where
  "THREE_DECIMAL_CURRENCIES = [''BHD'', ''IQD'', ''JOD'', ''KWD'', ''LYD'', ''MRU'', ''OMR'', ''TND'']"

definition toSubunit :: "rat \<Rightarrow> string \<Rightarrow> int" where
  "toSubunit amount currency =
     (if currency \<in> set ZERO_DECIMAL_CURRENCIES then js_round amount
      else if currency \<in> set THREE_DECIMAL_CURRENCIES then js_round (fmul amount 1000)
      else js_round (fmul amount 100))"

definition deriveIdempotencyKey :: "pay_env \<Rightarrow> string \<Rightarrow> rat \<Rightarrow> payout_method \<Rightarrow> string \<Rightarrow> time \<Rightarrow> string" where
  "deriveIdempotencyKey e agentId amountUsd m countryCode day =
     ph e (agentId @ '':'' @ to_fixed_str 2 amountUsd @ '':'' @ method_str m @ '':'' @ countryCode @ '':'' @ take 10 (iso_string day))"

definition sign_payload :: "string \<Rightarrow> string \<Rightarrow> rat \<Rightarrow> rat \<Rightarrow> string \<Rightarrow> rat \<Rightarrow> payout_status \<Rightarrow> time \<Rightarrow> string" where
  "sign_payload key agentId amountUsd localAmount currency rate st created =
     join_with ''|'' [key, agentId, to_fixed_str 2 amountUsd, to_fixed_str 6 localAmount, currency,
       to_fixed_str 6 rate, payout_status_str st, iso_string created]"

definition signPayoutEntry ::
  "pay_env \<Rightarrow> string \<Rightarrow> string \<Rightarrow> rat \<Rightarrow> rat \<Rightarrow> string \<Rightarrow> rat \<Rightarrow> payout_status \<Rightarrow> time \<Rightarrow> string" where
  "signPayoutEntry e key agentId amountUsd localAmount currency rate st created =
     ph e (sign_payload key agentId amountUsd localAmount currency rate st created)"

text \<open>\<open>timingSafeEqual\<close> throws for different lengths, and the catch block answers false.\<close>

definition verifyPayoutSignature :: "pay_env \<Rightarrow> payout_row \<Rightarrow> bool" where
  "verifyPayoutSignature e r =
     (hex_bytes (pl_signature r) = hex_bytes (signPayoutEntry e (pl_key r) (pl_agent r) (pl_amount r) (pl_local r)
        (pl_currency r) (pl_effective r) (pl_status r) (pl_created r)))"

subsection \<open>Quote: checks and conversion\<close>

record pay_nonce =
  pn_rate :: string
  pn_conv :: string
  pn_log :: string
  pn_ref :: string
  pn_quoted :: time
  pn_created :: time
  pn_settled :: time

record quote =
  q_req :: country_requirement
  q_method :: payout_method
  q_usd :: rat
  q_conv :: fx_conversion
  q_wht :: rat
  q_net :: rat

definition failResult :: "pay_agent \<Rightarrow> rat \<Rightarrow> string \<Rightarrow> rat \<Rightarrow> rat \<Rightarrow> rat \<Rightarrow> pay_reason \<Rightarrow> payout_result" where
  "failResult a usd currency mid eff wht why =
     \<lparr>rs_key = [], rs_agent = pa_id a, rs_status = P_failed, rs_amount = usd, rs_local = 0, rs_currency = currency,
      rs_mid = mid, rs_effective = eff, rs_wht = wht, rs_reference = None, rs_reason = Some why\<rparr>"

definition disbursable :: "rat \<Rightarrow> rat" where
  "disbursable balance = parse_fixed 2 (fmul balance (fsub 1 RESERVE_FRACTION))"

definition agent_country :: "pay_agent \<Rightarrow> string" where
  "agent_country a = (case pa_country a of Some c \<Rightarrow> c | None \<Rightarrow> [])"

definition pay_quote ::
  "pay_env \<Rightarrow> network \<Rightarrow> pay_nonce \<Rightarrow> pay_agent \<Rightarrow> fx_state \<Rightarrow> (payout_result + quote) \<times> fx_state" where
  "pay_quote e net n a fx =
     (case getCountryRequirement (agent_country a) of
        Inl x \<Rightarrow> (Inl (failResult a 0 ''USD'' 0 1 0 (R_country x)), fx)
      | Inr r \<Rightarrow>
        if (case kyc_of (pa_kyc a) of None \<Rightarrow> True | Some k \<Rightarrow> meetsKycRequirement k (agent_country a) \<noteq> Inr True)
        then (Inl (failResult a 0 (cr_currency r) 0 1 0 R_kyc), fx)
        else
          (case Option.bind (pa_method a) method_of of
             None \<Rightarrow> (Inl (failResult a 0 (cr_currency r) 0 1 0 R_method), fx)
           | Some m \<Rightarrow>
             (case getMethodConfig (agent_country a) m of
                Inl _ \<Rightarrow> (Inl (failResult a 0 (cr_currency r) 0 1 0 R_method), fx)
              | Inr c \<Rightarrow>
                let usd = disbursable (pa_balance a) in
                if usd \<le> 0 then (Inl (failResult a 0 (cr_currency r) 0 1 0 R_nothing), fx)
                else if usd > SWEEP_HARD_CAP_USD then (Inl (failResult a usd (cr_currency r) 0 1 0 R_cap), fx)
                else
                  (case convertUsd (pcfg e) net (pn_rate n) (pn_conv n) (pn_quoted n) usd (cr_currency r) None fx of
                     (Inl x, fx') \<Rightarrow> (Inl (failResult a usd (cr_currency r) 0 1 0 (R_fx x)), fx')
                   | (Inr v, fx') \<Rightarrow>
                     let wht = parse_fixed 2 (fmul (local_amount v) (cr_wht r));
                         net = parse_fixed 2 (fsub (local_amount v) wht)
                     in if net < pm_min c
                        then (Inl (failResult a usd (cr_currency r) (c_mid_rate v) (c_effective_rate v) wht R_below), fx')
                        else if net > pm_max c
                        then (Inl (failResult a usd (cr_currency r) (c_mid_rate v) (c_effective_rate v) wht R_above), fx')
                        else (Inr \<lparr>q_req = r, q_method = m, q_usd = usd, q_conv = v, q_wht = wht, q_net = net\<rparr>, fx')))))"

subsection \<open>Lock: log row and debit\<close>

definition quote_key :: "pay_env \<Rightarrow> pay_agent \<Rightarrow> time \<Rightarrow> quote \<Rightarrow> string" where
  "quote_key e a day q = deriveIdempotencyKey e (pa_id a) (q_usd q) (q_method q) (agent_country a) day"

definition new_payout_row :: "pay_env \<Rightarrow> pay_nonce \<Rightarrow> pay_agent \<Rightarrow> time \<Rightarrow> quote \<Rightarrow> payout_row" where
  "new_payout_row e n a day q =
     \<lparr>pl_id = pn_log n, pl_agent = pa_id a, pl_tenant = pa_tenant a, pl_amount = q_usd q, pl_local = q_net q,
      pl_currency = cr_currency (q_req q), pl_mid = c_mid_rate (q_conv q), pl_effective = c_effective_rate (q_conv q),
      pl_rate = c_rate_id (q_conv q), pl_method = q_method q, pl_key = quote_key e a day q,
      pl_signature = signPayoutEntry e (quote_key e a day q) (pa_id a) (q_usd q) (q_net q) (cr_currency (q_req q))
        (c_effective_rate (q_conv q)) P_pending (pn_created n),
      pl_status = P_pending, pl_reference = None, pl_reason = None, pl_wht = q_wht q, pl_filed = False,
      pl_created = pn_created n, pl_settled = None\<rparr>"

definition find_log :: "string \<Rightarrow> pay_db \<Rightarrow> payout_row option" where
  "find_log key db = List.find (\<lambda>r. pl_key r = key) (pd_logs db)"

definition can_debit :: "string \<Rightarrow> rat \<Rightarrow> pay_agent \<Rightarrow> bool" where
  "can_debit i amount a \<longleftrightarrow> pa_id a = i \<and> amount \<le> pa_balance a"

definition debit :: "string \<Rightarrow> rat \<Rightarrow> pay_db \<Rightarrow> pay_db" where
  "debit i amount db =
     db\<lparr>pd_agents := update_where (can_debit i amount) (\<lambda>a. a\<lparr>pa_balance := fsub (pa_balance a) amount\<rparr>) (pd_agents db)\<rparr>"

definition restore :: "string \<Rightarrow> rat \<Rightarrow> pay_db \<Rightarrow> pay_db" where
  "restore i amount db =
     db\<lparr>pd_agents := update_where (\<lambda>a. pa_id a = i) (\<lambda>a. a\<lparr>pa_balance := fadd (pa_balance a) amount\<rparr>) (pd_agents db)\<rparr>"

definition lock_failed :: "pay_env \<Rightarrow> pay_agent \<Rightarrow> time \<Rightarrow> quote \<Rightarrow> pay_reason \<Rightarrow> payout_result" where
  "lock_failed e a day q why =
     \<lparr>rs_key = quote_key e a day q, rs_agent = pa_id a, rs_status = P_failed, rs_amount = q_usd q, rs_local = q_net q,
      rs_currency = cr_currency (q_req q), rs_mid = c_mid_rate (q_conv q), rs_effective = c_effective_rate (q_conv q),
      rs_wht = q_wht q, rs_reference = None, rs_reason = Some why\<rparr>"

definition pay_lock ::
  "pay_env \<Rightarrow> pay_nonce \<Rightarrow> pay_agent \<Rightarrow> time \<Rightarrow> quote \<Rightarrow> pay_db \<Rightarrow> (payout_result + payout_row) \<times> pay_db" where
  "pay_lock e n a day q db =
     (case find_log (quote_key e a day q) db of
        Some x \<Rightarrow>
          (Inl \<lparr>rs_key = quote_key e a day q, rs_agent = pa_id a, rs_status = P_duplicate, rs_amount = q_usd q,
             rs_local = pl_local x, rs_currency = pl_currency x, rs_mid = pl_mid x, rs_effective = pl_effective x,
             rs_wht = pl_wht x, rs_reference = pl_reference x, rs_reason = None\<rparr>, db)
      | None \<Rightarrow>
          let r = new_payout_row e n a day q in
          if pl_id r \<in> pl_id ` set (pd_logs db) then (Inl (lock_failed e a day q R_unique), db)
          else if \<not> list_ex (can_debit (pa_id a) (q_usd q)) (pd_agents db) then (Inl (lock_failed e a day q R_balance), db)
          else (Inr r, (debit (pa_id a) (q_usd q) db)\<lparr>pd_logs := pd_logs db @ [r],
                  pd_fx := (pd_fx db)\<lparr>payout_ids := pl_id r # payout_ids (pd_fx db)\<rparr>\<rparr>))"

subsection \<open>The providers\<close>

datatype momo_status = Momo_successful | Momo_failed | Momo_pending

text \<open>
  What the providers answer. The reference and the reason are fields of a JSON body and may be missing; a
  missing reference is stored as NULL.
\<close>

datatype poll_answer = PollHttp | PollAnswer momo_status "string option" "string option"

record providers =
  pv_token :: bool
  pv_transfer :: bool
  pv_poll :: "nat \<Rightarrow> poll_answer"
  pv_recipient :: bool
  pv_payout :: "string option option"

datatype provider_call =
  MomoTransfer string string string string string
| CardTransfer string int string string

text \<open>The polling loop with the number of attempts left; a status that is neither terminal word counts as pending.\<close>

fun pollMoMoTransferStatus ::
  "(nat \<Rightarrow> poll_answer) \<Rightarrow> string \<Rightarrow> nat \<Rightarrow> nat \<Rightarrow> dispatch_error + string option \<times> momo_status \<times> string option" where
  "pollMoMoTransferStatus ask ref i 0 = Inr (Some ref, Momo_pending, None)"
| "pollMoMoTransferStatus ask ref i (Suc k) =
     (case ask i of
        PollHttp \<Rightarrow> Inl MomoPoll
      | PollAnswer st r why \<Rightarrow>
          if st = Momo_pending then pollMoMoTransferStatus ask ref (Suc i) k else Inr (r, st, why))"

fun final_status :: "momo_status \<Rightarrow> payout_status" where
  "final_status Momo_successful = P_success"
| "final_status Momo_pending = P_processing"
| "final_status Momo_failed = P_failed"

definition non_empty :: "string option \<Rightarrow> string option" where
  "non_empty s = (case s of None \<Rightarrow> None | Some x \<Rightarrow> if x = [] then None else Some x)"

text \<open>
  The transfers: an error, or nothing in the case of mobile money (the poll finds out) and the reference
  of the payout in the case of cards, with the requests for money that were sent.
\<close>

definition initiateMoMoTransfer ::
  "providers \<Rightarrow> string \<Rightarrow> rat \<Rightarrow> string \<Rightarrow> string \<Rightarrow> string \<Rightarrow> (dispatch_error + unit) \<times> provider_call list" where
  "initiateMoMoTransfer pv ref localAmount currency number key =
     (if pv_transfer pv then Inr () else Inl MomoInitiation, [MomoTransfer ref (to_fixed_str 2 localAmount) currency number key])"

definition initiateCardTransfer ::
  "providers \<Rightarrow> string \<Rightarrow> int \<Rightarrow> string \<Rightarrow> string \<Rightarrow> (dispatch_error + string option) \<times> provider_call list" where
  "initiateCardTransfer pv token subunit currency key =
     (if \<not> pv_recipient pv then (Inl CardRecipient, [])
      else (case pv_payout pv of None \<Rightarrow> Inl CardPayout | Some ref \<Rightarrow> Inr ref, [CardTransfer token subunit (to_lower currency) key]))"

definition dispatch ::
  "pay_nonce \<Rightarrow> providers \<Rightarrow> pay_agent \<Rightarrow> quote \<Rightarrow> string
   \<Rightarrow> (dispatch_error + string option \<times> payout_status \<times> pay_reason option) \<times> provider_call list" where
  "dispatch n pv a q key =
     (case q_method q of
        Momo \<Rightarrow>
          (case non_empty (pa_momo a) of
             None \<Rightarrow> (Inl NoMomoNumber, [])
           | Some number \<Rightarrow>
               if \<not> pv_token pv then (Inl MomoToken, [])
               else
                 (case initiateMoMoTransfer pv (pn_ref n) (q_net q) (cr_currency (q_req q)) number key of
                    (Inl x, calls) \<Rightarrow> (Inl x, calls)
                  | (Inr _, calls) \<Rightarrow>
                      (case pollMoMoTransferStatus (pv_poll pv) (pn_ref n) 0 6 of
                         Inl x \<Rightarrow> (Inl x, calls)
                       | Inr (r, st, why) \<Rightarrow>
                           (Inr (r, final_status st,
                              if st = Momo_failed then Some (R_provider (or_default ''MoMo provider returned FAILED'' why)) else None), calls))))
      | Card \<Rightarrow>
          (case non_empty (pa_card a) of
             None \<Rightarrow> (Inl NoCardToken, [])
           | Some token \<Rightarrow>
               (case initiateCardTransfer pv token (toSubunit (q_net q) (cr_currency (q_req q))) (cr_currency (q_req q)) key of
                  (Inl x, calls) \<Rightarrow> (Inl x, calls)
                | (Inr ref, calls) \<Rightarrow> (Inr (ref, P_processing, None), calls))))"

lemmas dispatch_defs = dispatch_def initiateMoMoTransfer_def initiateCardTransfer_def

subsection \<open>Finish: settlement of the log row, reports\<close>

definition update_log :: "string \<Rightarrow> payout_status \<Rightarrow> string option \<Rightarrow> pay_reason option \<Rightarrow> time \<Rightarrow> pay_db \<Rightarrow> pay_db" where
  "update_log key st ref why now db =
     db\<lparr>pd_logs := update_where (\<lambda>r. pl_key r = key)
          (\<lambda>r. r\<lparr>pl_status := st, pl_reference := ref, pl_reason := why,
                 pl_settled := (if st = P_success then Some now else None)\<rparr>) (pd_logs db)\<rparr>"

record report =
  rp_log :: string
  rp_threshold :: reporting_threshold
  rp_amount :: rat
  rp_due :: time

text \<open>\<open>fileRegulatoryReports\<close>: one report per threshold that the net local amount reaches.\<close>

definition fileRegulatoryReports :: "string \<Rightarrow> string \<Rightarrow> rat \<Rightarrow> time \<Rightarrow> country_error + report list" where
  "fileRegulatoryReports logId country localAmount created =
     (case getBreachedThresholds country localAmount of
        Inl x \<Rightarrow> Inl x
      | Inr ts \<Rightarrow> Inr (map (\<lambda>t. \<lparr>rp_log = logId, rp_threshold = t, rp_amount = localAmount,
                                 rp_due = created + th_hours t * 3600000\<rparr>) ts))"

definition mark_filed :: "string \<Rightarrow> pay_db \<Rightarrow> pay_db" where
  "mark_filed i db = db\<lparr>pd_logs := update_where (\<lambda>r. pl_id r = i) (\<lambda>r. r\<lparr>pl_filed := True\<rparr>) (pd_logs db)\<rparr>"

definition pay_finish ::
  "pay_agent \<Rightarrow> quote \<Rightarrow> payout_row \<Rightarrow> time \<Rightarrow> dispatch_error + string option \<times> payout_status \<times> pay_reason option \<Rightarrow> pay_db
   \<Rightarrow> payout_result \<times> report list \<times> pay_db" where
  "pay_finish a q r now out db =
     (let (ref, st, why, db1) = (case out of
            Inl x \<Rightarrow> (None, P_failed, Some (R_dispatch x), restore (pa_id a) (q_usd q) db)
          | Inr (ref, st, why) \<Rightarrow> (ref, st, why, db));
          db2 = update_log (pl_key r) st ref why now db1;
          (reps, db3) = (if st = P_success \<or> st = P_processing
            then (case fileRegulatoryReports (pl_id r) (agent_country a) (q_net q) (pl_created r) of
                    Inl _ \<Rightarrow> ([], db2) | Inr rs \<Rightarrow> (rs, mark_filed (pl_id r) db2))
            else ([], db2))
      in (\<lparr>rs_key = pl_key r, rs_agent = pa_id a, rs_status = st, rs_amount = q_usd q, rs_local = q_net q,
           rs_currency = cr_currency (q_req q), rs_mid = c_mid_rate (q_conv q), rs_effective = c_effective_rate (q_conv q),
           rs_wht = q_wht q, rs_reference = ref, rs_reason = why\<rparr>, reps, db3))"

subsection \<open>One agent, the sweep\<close>

definition processAgentPayout ::
  "pay_env \<Rightarrow> network \<Rightarrow> pay_nonce \<Rightarrow> providers \<Rightarrow> pay_agent \<Rightarrow> time \<Rightarrow> pay_db \<Rightarrow> payout_result \<times> report list \<times> pay_db" where
  "processAgentPayout e net n pv a day db =
     (case pay_quote e net n a (pd_fx db) of
        (Inl res, fx) \<Rightarrow> (res, [], db\<lparr>pd_fx := fx\<rparr>)
      | (Inr q, fx) \<Rightarrow>
          (case pay_lock e n a day q (db\<lparr>pd_fx := fx\<rparr>) of
             (Inl res, db1) \<Rightarrow> (res, [], db1)
           | (Inr r, db1) \<Rightarrow> pay_finish a q r (pn_settled n) (fst (dispatch n pv a q (pl_key r))) db1))"

definition eligible :: "string \<Rightarrow> pay_agent \<Rightarrow> bool" where
  "eligible tenantId a \<longleftrightarrow> pa_tenant a = tenantId \<and> \<not> pa_locked a \<and> pa_threshold a \<le> pa_balance a
     \<and> pa_method a \<noteq> None \<and> pa_country a \<noteq> None"

record sweep_round =
  sw_net :: network
  sw_nonce :: pay_nonce
  sw_providers :: providers

fun sweep_loop ::
  "pay_env \<Rightarrow> (nat \<Rightarrow> sweep_round) \<Rightarrow> time \<Rightarrow> nat \<Rightarrow> pay_agent list \<Rightarrow> pay_db \<Rightarrow> payout_result list \<times> report list \<times> pay_db" where
  "sweep_loop e w day k [] db = ([], [], db)"
| "sweep_loop e w day k (a # as) db =
     (case processAgentPayout e (sw_net (w k)) (sw_nonce (w k)) (sw_providers (w k)) a day db of
        (res, reps, db1) \<Rightarrow>
          (case sweep_loop e w day (Suc k) as db1 of (rs, reps', db2) \<Rightarrow> (res # rs, reps @ reps', db2)))"

record sweep_summary =
  sm_evaluated :: nat
  sm_initiated :: nat
  sm_duplicates :: nat
  sm_failed :: nat
  sm_amount :: rat
  sm_results :: "payout_result list"

definition initiated :: "payout_result \<Rightarrow> bool" where
  "initiated r \<longleftrightarrow> rs_status r = P_success \<or> rs_status r = P_processing"

definition runPayoutSweep ::
  "pay_env \<Rightarrow> (nat \<Rightarrow> sweep_round) \<Rightarrow> string \<Rightarrow> time \<Rightarrow> pay_db \<Rightarrow> sweep_summary \<times> report list \<times> pay_db" where
  "runPayoutSweep e w tenantId day db =
     (let agents = filter (eligible tenantId) (pd_agents db);
          (rs, reps, db') = sweep_loop e w day 0 agents db
      in (\<lparr>sm_evaluated = length agents, sm_initiated = count_where initiated rs,
           sm_duplicates = count_where (\<lambda>r. \<not> initiated r \<and> rs_status r = P_duplicate) rs,
           sm_failed = count_where (\<lambda>r. \<not> initiated r \<and> rs_status r \<noteq> P_duplicate) rs,
           sm_amount = parse_fixed 2 (foldl (\<lambda>s r. if initiated r then fadd s (rs_amount r) else s) 0 rs),
           sm_results = rs\<rparr>, reps, db'))"

subsection \<open>Settlement, history, audit\<close>

definition settlePayout ::
  "string \<Rightarrow> bool \<Rightarrow> string option \<Rightarrow> pay_reason option \<Rightarrow> time \<Rightarrow> pay_db \<Rightarrow> pay_db" where
  "settlePayout key good ref why now db =
     (let db1 = update_log key (if good then P_success else P_failed) ref why now db
      in if good then db1
         else (case find_log key db1 of None \<Rightarrow> db1 | Some r \<Rightarrow> restore (pl_agent r) (pl_amount r) db1))"

definition getPayoutHistory :: "string \<Rightarrow> int \<Rightarrow> int \<Rightarrow> pay_db \<Rightarrow> payout_row list" where
  "getPayoutHistory tenantId n m db =
     sql_limit n m (sort_key (\<lambda>r. - pl_created r) (filter (\<lambda>r. pl_tenant r = tenantId) (pd_logs db)))"

definition auditPayoutLogIntegrity :: "pay_env \<Rightarrow> string \<Rightarrow> pay_db \<Rightarrow> payout_row list" where
  "auditPayoutLogIntegrity e tenantId db =
     filter (\<lambda>r. \<not> verifyPayoutSignature e r) (filter (\<lambda>r. pl_tenant r = tenantId) (pd_logs db))"

end
