(* ===== verification/PayoutSystem.thy ===== *)
theory PayoutSystem
  imports Payout
begin

section \<open>Payouts as a system of overlapping sweeps\<close>

text \<open>
  Sweeps overlap: an HTTP request and a queue job may sweep the same tenant, and each holds agent
  records it read before. A step of the system is one part of a payout between two awaits: an
  attempt takes any agent record, however stale, through quote and lock; a dispatch takes any payout
  in flight through the provider and the finish. In between, payouts are settled, agents are
  edited and topped up, and the exchange module works. The clock does not run backwards, and the id
  of a new rate is fresh.
\<close>

record pay_sys =
  py_db :: pay_db
  py_clock :: time
  py_flight :: "(pay_agent \<times> quote \<times> payout_row) list"
  py_calls :: "provider_call list"
  py_reports :: "report list"

inductive pay_step :: "pay_env \<Rightarrow> pay_sys \<Rightarrow> pay_sys \<Rightarrow> bool" for e :: pay_env where
  attempt_refused: "py_clock s \<le> pn_quoted n \<Longrightarrow> fresh (pn_rate n) (pd_fx (py_db s)) \<Longrightarrow>
    pay_quote e net n a (pd_fx (py_db s)) = (Inl res, fx) \<Longrightarrow>
    pay_step e s (s\<lparr>py_db := (py_db s)\<lparr>pd_fx := fx\<rparr>, py_clock := pn_quoted n\<rparr>)"
| attempt_not_locked: "py_clock s \<le> pn_quoted n \<Longrightarrow> fresh (pn_rate n) (pd_fx (py_db s)) \<Longrightarrow>
    pay_quote e net n a (pd_fx (py_db s)) = (Inr q, fx) \<Longrightarrow>
    pay_lock e n a day q ((py_db s)\<lparr>pd_fx := fx\<rparr>) = (Inl res, db) \<Longrightarrow>
    pay_step e s (s\<lparr>py_db := db, py_clock := pn_quoted n\<rparr>)"
| attempt_locked: "py_clock s \<le> pn_quoted n \<Longrightarrow> fresh (pn_rate n) (pd_fx (py_db s)) \<Longrightarrow>
    pay_quote e net n a (pd_fx (py_db s)) = (Inr q, fx) \<Longrightarrow>
    pay_lock e n a day q ((py_db s)\<lparr>pd_fx := fx\<rparr>) = (Inr r, db) \<Longrightarrow>
    pay_step e s (s\<lparr>py_db := db, py_clock := pn_quoted n, py_flight := py_flight s @ [(a, q, r)]\<rparr>)"
| dispatched: "py_flight s = xs @ (a, q, r) # ys \<Longrightarrow> dispatch n pv a q (pl_key r) = (out, calls) \<Longrightarrow>
    pay_finish a q r now out (py_db s) = (res, reps, db) \<Longrightarrow>
    pay_step e s (s\<lparr>py_db := db, py_flight := xs @ ys, py_calls := py_calls s @ calls, py_reports := py_reports s @ reps\<rparr>)"
| settled: "pay_step e s (s\<lparr>py_db := settlePayout key good ref why now (py_db s)\<rparr>)"
| agents_edited: "\<forall>a \<in> set as. 0 \<le> pa_balance a \<Longrightarrow> pay_step e s (s\<lparr>py_db := (py_db s)\<lparr>pd_agents := as\<rparr>\<rparr>)"
| exchanged: "fx_step (pd_fx (py_db s), py_clock s) (fx, now) \<Longrightarrow>
    pay_step e s (s\<lparr>py_db := (py_db s)\<lparr>pd_fx := fx\<rparr>, py_clock := now\<rparr>)"

definition pay_init :: "pay_sys \<Rightarrow> bool" where
  "pay_init s \<longleftrightarrow> fx_init (pd_fx (py_db s), py_clock s) \<and> pd_logs (py_db s) = [] \<and> py_flight s = [] \<and> py_calls s = []
     \<and> py_reports s = [] \<and> (\<forall>a \<in> set (pd_agents (py_db s)). 0 \<le> pa_balance a)"

fun call_key :: "provider_call \<Rightarrow> string" where
  "call_key (MomoTransfer ref amount currency number key) = key"
| "call_key (CardTransfer token amount currency key) = key"

subsection \<open>What the parts of a payout do\<close>

lemma quote_cases:
  obtains (refused) res where "pay_quote e net n a fx = (Inl res, fx)" "rs_status res = P_failed"
  | (no_rate) r x fx' where "getCountryRequirement (agent_country a) = Inr r"
      "convertUsd (pcfg e) net (pn_rate n) (pn_conv n) (pn_quoted n) (disbursable (pa_balance a)) (cr_currency r) None fx = (Inl x, fx')"
      "pay_quote e net n a fx = (Inl (failResult a (disbursable (pa_balance a)) (cr_currency r) 0 1 0 (R_fx x)), fx')"
  | (converted) r m c v fx' wht where "getCountryRequirement (agent_country a) = Inr r"
      "Option.bind (pa_method a) method_of = Some m" "getMethodConfig (agent_country a) m = Inr c"
      "0 < disbursable (pa_balance a)" "disbursable (pa_balance a) \<le> SWEEP_HARD_CAP_USD"
      "\<exists>k. kyc_of (pa_kyc a) = Some k \<and> cr_kyc r \<le> k"
      "convertUsd (pcfg e) net (pn_rate n) (pn_conv n) (pn_quoted n) (disbursable (pa_balance a)) (cr_currency r) None fx = (Inr v, fx')"
      "wht = parse_fixed 2 (fmul (local_amount v) (cr_wht r))"
      "pay_quote e net n a fx =
        (if parse_fixed 2 (fsub (local_amount v) wht) < pm_min c
         then Inl (failResult a (disbursable (pa_balance a)) (cr_currency r) (c_mid_rate v) (c_effective_rate v) wht R_below)
         else if parse_fixed 2 (fsub (local_amount v) wht) > pm_max c
         then Inl (failResult a (disbursable (pa_balance a)) (cr_currency r) (c_mid_rate v) (c_effective_rate v) wht R_above)
         else Inr \<lparr>q_req = r, q_method = m, q_usd = disbursable (pa_balance a), q_conv = v, q_wht = wht,
                q_net = parse_fixed 2 (fsub (local_amount v) wht)\<rparr>, fx')"
proof (cases "\<exists>r m c k. getCountryRequirement (agent_country a) = Inr r \<and> Option.bind (pa_method a) method_of = Some m
    \<and> getMethodConfig (agent_country a) m = Inr c \<and> kyc_of (pa_kyc a) = Some k \<and> meetsKycRequirement k (agent_country a) = Inr True
    \<and> 0 < disbursable (pa_balance a) \<and> disbursable (pa_balance a) \<le> SWEEP_HARD_CAP_USD")
  case True
  then obtain r m c k where q: "getCountryRequirement (agent_country a) = Inr r" "Option.bind (pa_method a) method_of = Some m"
    "getMethodConfig (agent_country a) m = Inr c" "kyc_of (pa_kyc a) = Some k" "meetsKycRequirement k (agent_country a) = Inr True"
    "0 < disbursable (pa_balance a)" "disbursable (pa_balance a) \<le> SWEEP_HARD_CAP_USD" by blast
  have k: "cr_kyc r \<le> k" using q(1,5) by (simp add: meetsKycRequirement_def less_eq_kyc_tier_def)
  obtain out fx' where c: "convertUsd (pcfg e) net (pn_rate n) (pn_conv n) (pn_quoted n) (disbursable (pa_balance a)) (cr_currency r) None fx = (out, fx')"
    by fastforce
  show thesis
  proof (cases out)
    case (Inl x)
    show thesis by (rule no_rate [OF q(1)]) (use c Inl q in \<open>simp_all add: pay_quote_def Let_def not_le not_less\<close>)
  next
    case (Inr v)
    show thesis
      by (rule converted [OF q(1-3) q(6,7) _ _ refl])
        (use c Inr q k in \<open>auto simp: pay_quote_def Let_def not_le not_less\<close>)
  qed
next
  case False
  show thesis
  proof (rule refused)
    show "pay_quote e net n a fx = (Inl (case pay_quote e net n a fx of (Inl res, _) \<Rightarrow> res), fx)"
      using False by (auto simp: pay_quote_def Let_def not_le not_less split: sum.splits option.splits prod.splits)
    show "rs_status (case pay_quote e net n a fx of (Inl res, _) \<Rightarrow> res) = P_failed"
      using False by (auto simp: pay_quote_def Let_def failResult_def not_le not_less split: sum.splits option.splits prod.splits)
  qed
qed

lemma lock_cases:
  obtains (duplicate) x res where "find_log (quote_key e a day q) db = Some x" "pay_lock e n a day q db = (Inl res, db)"
      "rs_status res = P_duplicate" "rs_local res = pl_local x"
  | (refused) res where "pay_lock e n a day q db = (Inl res, db)" "rs_status res = P_failed"
  | (locked) b where "find_log (quote_key e a day q) db = None" "pn_log n \<notin> pl_id ` set (pd_logs db)"
      "b \<in> set (pd_agents db)" "can_debit (pa_id a) (q_usd q) b"
      "pay_lock e n a day q db = (Inr (new_payout_row e n a day q), (debit (pa_id a) (q_usd q) db)
         \<lparr>pd_logs := pd_logs db @ [new_payout_row e n a day q], pd_fx := (pd_fx db)\<lparr>payout_ids := pn_log n # payout_ids (pd_fx db)\<rparr>\<rparr>)"
proof -
  have [simp]: "pl_id (new_payout_row e n a day q) = pn_log n" by (simp add: new_payout_row_def)
  consider x where "find_log (quote_key e a day q) db = Some x"
    | "find_log (quote_key e a day q) db = None" "pn_log n \<in> pl_id ` set (pd_logs db)"
    | "find_log (quote_key e a day q) db = None" "pn_log n \<notin> pl_id ` set (pd_logs db)" "\<not> list_ex (can_debit (pa_id a) (q_usd q)) (pd_agents db)"
    | b where "find_log (quote_key e a day q) db = None" "pn_log n \<notin> pl_id ` set (pd_logs db)" "b \<in> set (pd_agents db)" "can_debit (pa_id a) (q_usd q) b"
    by (cases "find_log (quote_key e a day q) db") (auto simp: list_ex_iff)
  then show thesis
  proof cases
    case 1
    show thesis using duplicate [OF 1] by (simp add: pay_lock_def 1)
  next
    case 2
    show thesis using refused by (simp add: pay_lock_def 2 Let_def lock_failed_def)
  next
    case 3
    show thesis using refused by (simp add: pay_lock_def 3 Let_def lock_failed_def)
  next
    case 4
    show thesis by (rule locked [OF 4]) (use 4 in \<open>auto simp: pay_lock_def Let_def list_ex_iff\<close>)
  qed
qed

definition call_matches :: "provider_call \<Rightarrow> payout_row \<Rightarrow> bool" where
  "call_matches c r \<longleftrightarrow> (case c of
     MomoTransfer ref amount currency number key \<Rightarrow>
       key = pl_key r \<and> pl_method r = Momo \<and> amount = to_fixed_str 2 (pl_local r) \<and> currency = pl_currency r
   | CardTransfer token amount currency key \<Rightarrow>
       key = pl_key r \<and> pl_method r = Card \<and> amount = toSubunit (pl_local r) (pl_currency r) \<and> currency = to_lower (pl_currency r))"

lemma call_matches_key: "call_matches c r \<Longrightarrow> call_key c = pl_key r"
  by (cases c) (simp_all add: call_matches_def)

definition of_quote :: "pay_agent \<Rightarrow> quote \<Rightarrow> payout_row \<Rightarrow> bool" where
  "of_quote a q r \<longleftrightarrow> pl_agent r = pa_id a \<and> pl_tenant r = pa_tenant a \<and> pl_amount r = q_usd q \<and> pl_local r = q_net q
     \<and> pl_currency r = cr_currency (q_req q) \<and> pl_method r = q_method q \<and> pl_wht r = q_wht q
     \<and> pl_effective r = c_effective_rate (q_conv q) \<and> pl_rate r = c_rate_id (q_conv q)"

lemma dispatch_calls:
  assumes "dispatch n pv a q (pl_key r) = (out, calls)" "of_quote a q r"
  shows "calls = [] \<and> (\<exists>x. out = Inl x) \<or> (\<exists>c. calls = [c] \<and> call_matches c r)"
proof -
  have cm: "call_matches (MomoTransfer ref (to_fixed_str 2 (q_net q)) (cr_currency (q_req q)) number (pl_key r)) r" if "q_method q = Momo" for ref number
    using assms(2) that by (simp add: call_matches_def of_quote_def)
  have cc: "call_matches (CardTransfer tok (toSubunit (q_net q) (cr_currency (q_req q))) (to_lower (cr_currency (q_req q))) (pl_key r)) r" if "q_method q = Card" for tok
    using assms(2) that by (simp add: call_matches_def of_quote_def)
  show ?thesis
    using assms(1) cm cc unfolding dispatch_defs Let_def
    by (auto split: payout_method.splits option.splits if_splits sum.splits prod.splits)
qed

text \<open>What a provider can answer: never \<open>pending\<close> or \<open>duplicate\<close>.\<close>

lemma final_status_range: "final_status st \<in> {P_processing, P_success, P_failed}"
  by (cases st) simp_all

lemma dispatch_status:
  "dispatch n pv a q k = (Inr (ref, st, why), calls) \<Longrightarrow> st \<in> {P_processing, P_success, P_failed} \<and> calls \<noteq> []"
  unfolding dispatch_defs Let_def using final_status_range
  by (auto split: payout_method.splits option.splits if_splits sum.splits prod.splits)

definition frozen :: "payout_row \<Rightarrow> payout_row" where
  "frozen r = r\<lparr>pl_status := P_pending, pl_reference := None, pl_reason := None, pl_filed := False, pl_settled := None\<rparr>"

lemma frozen_sel [simp]:
  "pl_id (frozen r) = pl_id r" "pl_key (frozen r) = pl_key r" "pl_agent (frozen r) = pl_agent r" "pl_tenant (frozen r) = pl_tenant r"
  "pl_amount (frozen r) = pl_amount r" "pl_local (frozen r) = pl_local r" "pl_currency (frozen r) = pl_currency r"
  "pl_method (frozen r) = pl_method r" "pl_signature (frozen r) = pl_signature r" "pl_created (frozen r) = pl_created r"
  "pl_effective (frozen r) = pl_effective r" "pl_wht (frozen r) = pl_wht r" "pl_rate (frozen r) = pl_rate r" "pl_status (frozen r) = P_pending"
  by (simp_all add: frozen_def)

lemma of_quote_frozen [simp]: "of_quote a q (frozen r) = of_quote a q r"
  by (simp add: of_quote_def)

lemma frozen_new [simp]: "frozen (new_payout_row e n a day q) = new_payout_row e n a day q"
  by (simp add: frozen_def new_payout_row_def)

lemma of_quote_new [simp]: "of_quote a q (new_payout_row e n a day q)"
  by (simp add: of_quote_def new_payout_row_def)

lemma frozen_update_log [simp]: "map frozen (pd_logs (update_log k st ref why now db)) = map frozen (pd_logs db)"
  by (simp add: update_log_def update_where_def frozen_def)

lemma frozen_mark [simp]: "map frozen (pd_logs (mark_filed i db)) = map frozen (pd_logs db)"
  by (simp add: mark_filed_def update_where_def frozen_def)

lemma restore_tables [simp]: "pd_logs (restore i x db) = pd_logs db" "pd_fx (restore i x db) = pd_fx db"
  by (simp_all add: restore_def)

lemma update_log_tables [simp]: "pd_agents (update_log k st ref why now db) = pd_agents db" "pd_fx (update_log k st ref why now db) = pd_fx db"
  by (simp_all add: update_log_def)

lemma mark_tables [simp]: "pd_agents (mark_filed i db) = pd_agents db" "pd_fx (mark_filed i db) = pd_fx db"
  by (simp_all add: mark_filed_def)

lemma finish_db:
  assumes "pay_finish a q r now out db = (res, reps, db')"
  shows "map frozen (pd_logs db') = map frozen (pd_logs db)" "pd_fx db' = pd_fx db"
    "pd_agents db' = pd_agents db \<or> pd_agents db' = pd_agents (restore (pa_id a) (q_usd q) db)"
  using assms by (auto simp: pay_finish_def Let_def split: sum.splits prod.splits if_splits)

lemma settle_db:
  shows "map frozen (pd_logs (settlePayout k g ref why now db)) = map frozen (pd_logs db)"
    "pd_fx (settlePayout k g ref why now db) = pd_fx db"
    "pd_agents (settlePayout k g ref why now db) = pd_agents db
      \<or> (\<exists>r \<in> set (pd_logs (settlePayout k g ref why now db)).
            pd_agents (settlePayout k g ref why now db) = pd_agents (restore (pl_agent r) (pl_amount r) db))"
  by (auto simp: settlePayout_def Let_def restore_def find_log_def dest!: find_SomeD split: option.split)

subsection \<open>The exchange module inside\<close>

lemma convert_log:
  assumes "convertUsd cfg net u l now amount cur None fx = (res, fx')" "fx_inv (fx, now)" "fresh u fx"
  shows "case res of
      Inr v \<Rightarrow> fx_conversion_log fx' = fx_conversion_log fx @ [\<lparr>log_id = l, log_rate_id = c_rate_id v, payout_log_id = None, conversion = v\<rparr>]
        \<and> amount_usd v = amount \<and> local_currency v = cur \<and> cur \<noteq> ''USD''
    | Inl _ \<Rightarrow> fx_conversion_log fx' = fx_conversion_log fx"
proof (cases "cur = ''USD''")
  case True
  then have "res = Inl ForeignKeyError" "fx' = fx"
    using usd_conversion_fails [OF assms(3), of cfg net l now amount None] assms(1) by simp_all
  then show ?thesis by simp
next
  case False
  obtain rres s1 where g: "getRate cfg net u now cur (DEFAULT_SPREAD cfg) fx = (rres, s1)" by fastforce
  note gc = getRate_cases [OF g assms(2,3)]
  then have same: "fx_conversion_log s1 = fx_conversion_log fx" by simp
  show ?thesis
  proof (cases rres)
    case (Inl x)
    then show ?thesis using assms(1) False g same by (auto simp: convertUsd_def)
  next
    case (Inr r)
    then show ?thesis using assms(1) False g same
      by (auto simp: convertUsd_def writeConversionLog_def conversion_of_def split: sum.splits if_splits)
  qed
qed

lemma fx_step_log:
  assumes "fx_step (s, t) (s', t')" "fx_inv (s, t)"
  shows "set (fx_conversion_log s) \<subseteq> set (fx_conversion_log s')"
  using assms(1)
proof cases
  case (fx_get uuid cfg net currency spread out)
  then show ?thesis using getRate_cases [OF fx_get(3)] inv_later [OF assms(2)] by fastforce
next
  case (fx_convert uuid cfg net logUuid amount currency payout res)
  obtain rres s1 where g: "getRate cfg net uuid t' currency (DEFAULT_SPREAD cfg) s = (rres, s1)" by fastforce
  then have "fx_conversion_log s1 = fx_conversion_log s"
    using getRate_cases [OF g inv_later [OF assms(2)]] fx_convert by simp
  then show ?thesis using fx_convert(3) g
    by (auto simp: convertUsd_def writeConversionLog_def split: sum.splits if_splits option.splits)
next
  case (fx_manual uuid currency mid expiry spread out)
  then show ?thesis by (auto simp: setManualRate_def persistRateToDb_def setCachedRate_def Let_def split: if_splits)
next
  case (fx_purge hours cnt)
  then show ?thesis by (auto simp: purgeExpiredRates_def Let_def split: if_splits)
next
  case (fx_payout p)
  then show ?thesis by simp
next
  case fx_restart
  then show ?thesis by simp
qed

lemma fx_clock: "t \<le> now \<Longrightarrow> fresh u s \<Longrightarrow> fx_step (s, t) (s, now)"
  by (rule fx_manual [of t now u s _ 0 _ _ "Inl BadMidRate"]) (simp_all add: setManualRate_def)

lemma quote_fx:
  assumes "pay_quote e net n a fx = (out, fx')" "t \<le> pn_quoted n" "fresh (pn_rate n) fx"
  shows "fx_step (fx, t) (fx', pn_quoted n)"
proof (cases rule: quote_cases [of e net n a fx])
  case (refused res)
  then have "fx' = fx" using assms(1) by simp
  with fx_clock [OF assms(2,3)] show ?thesis by simp
next
  case (no_rate r x fx2)
  then show ?thesis using fx_convert [OF assms(2,3) no_rate(2)] assms(1) by simp
next
  case (converted r m c v fx2 wht)
  then show ?thesis using fx_convert [OF assms(2,3) converted(7)] assms(1) by simp
qed

subsection \<open>The invariant\<close>

definition signed_row :: "pay_env \<Rightarrow> payout_row \<Rightarrow> bool" where
  "signed_row e r \<longleftrightarrow> pl_signature r = signPayoutEntry e (pl_key r) (pl_agent r) (pl_amount r) (pl_local r) (pl_currency r)
     (pl_effective r) P_pending (pl_created r)"

text \<open>A row goes back to a logged conversion: its amount, rate and net amount after tax.\<close>

definition traced :: "fx_state \<Rightarrow> payout_row \<Rightarrow> bool" where
  "traced fx r \<longleftrightarrow> (\<exists>w \<in> set (fx_conversion_log fx). log_rate_id w = pl_rate r \<and> c_rate_id (conversion w) = pl_rate r
     \<and> amount_usd (conversion w) = pl_amount r \<and> local_currency (conversion w) = pl_currency r
     \<and> c_effective_rate (conversion w) = pl_effective r
     \<and> pl_local r = parse_fixed 2 (fsub (local_amount (conversion w)) (pl_wht r)))"

definition row_good :: "pay_env \<Rightarrow> fx_state \<Rightarrow> payout_row \<Rightarrow> bool" where
  "row_good e fx r \<longleftrightarrow> signed_row e r \<and> traced fx r \<and> 0 < pl_amount r \<and> pl_amount r \<le> SWEEP_HARD_CAP_USD \<and> 1 \<le> pl_local r
     \<and> pl_currency r \<noteq> ''USD''"

lemma row_good_frozen [simp]: "row_good e fx (frozen r) = row_good e fx r"
  by (simp add: row_good_def signed_row_def traced_def)

definition logs_good :: "pay_env \<Rightarrow> fx_state \<Rightarrow> payout_row list \<Rightarrow> bool" where
  "logs_good e fx L \<longleftrightarrow> distinct (map pl_key L) \<and> distinct (map pl_id L) \<and> (\<forall>r \<in> set L. row_good e fx r)"

definition flight_good :: "payout_row list \<Rightarrow> (pay_agent \<times> quote \<times> payout_row) list \<Rightarrow> provider_call list \<Rightarrow> bool" where
  "flight_good L F C \<longleftrightarrow> distinct (map (\<lambda>(a, q, r). pl_key r) F @ map call_key C)
     \<and> (\<forall>(a, q, r) \<in> set F. r \<in> set L \<and> of_quote a q r) \<and> (\<forall>c \<in> set C. \<exists>r \<in> set L. call_matches c r)"

definition solvent :: "pay_agent list \<Rightarrow> bool" where
  "solvent as \<longleftrightarrow> (\<forall>a \<in> set as. 0 \<le> pa_balance a)"

definition pay_inv :: "pay_env \<Rightarrow> pay_sys \<Rightarrow> bool" where
  "pay_inv e s \<longleftrightarrow> fx_inv (pd_fx (py_db s), py_clock s)
     \<and> logs_good e (pd_fx (py_db s)) (map frozen (pd_logs (py_db s)))
     \<and> flight_good (map frozen (pd_logs (py_db s))) (py_flight s) (py_calls s) \<and> solvent (pd_agents (py_db s))"

lemma logs_good_mono:
  assumes "logs_good e fx L" "set (fx_conversion_log fx) \<subseteq> set (fx_conversion_log fx')"
  shows "logs_good e fx' L"
  using assms unfolding logs_good_def row_good_def traced_def by blast

lemma logs_good_snoc:
  "logs_good e fx L \<Longrightarrow> row_good e fx r \<Longrightarrow> pl_key r \<notin> pl_key ` set L \<Longrightarrow> pl_id r \<notin> pl_id ` set L \<Longrightarrow> logs_good e fx (L @ [r])"
  by (auto simp: logs_good_def)

lemma restore_solvent:
  assumes "solvent (pd_agents db)" "0 \<le> x"
  shows "solvent (pd_agents (restore i x db))"
  using assms by (auto simp: solvent_def restore_def set_update_where fadd_nonneg)

lemma debit_solvent:
  assumes "solvent (pd_agents db)"
  shows "solvent (pd_agents (debit i x db))"
proof -
  have "0 \<le> fsub b x" if "x \<le> b" for b :: rat using that js.nonneg [of "b - x"] by (simp add: fsub_def)
  then show ?thesis using assms by (auto simp: solvent_def debit_def set_update_where can_debit_def)
qed

lemma quote_good:
  assumes "pay_quote e net n a fx = (Inr q, fx')" "fx_inv (fx, pn_quoted n)" "fresh (pn_rate n) fx"
  obtains m c where "getCountryRequirement (agent_country a) = Inr (q_req q)" "getMethodConfig (agent_country a) (q_method q) = Inr c"
    "Option.bind (pa_method a) method_of = Some (q_method q)" "\<exists>k. kyc_of (pa_kyc a) = Some k \<and> cr_kyc (q_req q) \<le> k"
    "q_usd q = disbursable (pa_balance a)" "0 < q_usd q" "q_usd q \<le> SWEEP_HARD_CAP_USD"
    "pm_min c \<le> q_net q" "q_net q \<le> pm_max c" "q_wht q = parse_fixed 2 (fmul (local_amount (q_conv q)) (cr_wht (q_req q)))"
    "q_net q = parse_fixed 2 (fsub (local_amount (q_conv q)) (q_wht q))"
    "fx_conversion_log fx' = fx_conversion_log fx @
       [\<lparr>log_id = pn_conv n, log_rate_id = c_rate_id (q_conv q), payout_log_id = None, conversion = q_conv q\<rparr>]"
    "amount_usd (q_conv q) = q_usd q" "local_currency (q_conv q) = cr_currency (q_req q)" "cr_currency (q_req q) \<noteq> ''USD''"
proof (cases rule: quote_cases [of e net n a fx])
  case (converted r m c v fx2 wht)
  note log = convert_log [OF converted(7) assms(2,3)]
  have q: "q = \<lparr>q_req = r, q_method = m, q_usd = disbursable (pa_balance a), q_conv = v, q_wht = wht,
      q_net = parse_fixed 2 (fsub (local_amount v) wht)\<rparr>" and fx: "fx2 = fx'"
    and lim: "\<not> parse_fixed 2 (fsub (local_amount v) wht) < pm_min c" "\<not> parse_fixed 2 (fsub (local_amount v) wht) > pm_max c"
    using converted(9) assms(1) by (auto split: if_splits)
  show thesis by (rule that [of c]) (use converted log q fx lim in \<open>simp_all add: not_less\<close>)
qed (use assms(1) in simp_all)

lemma new_row_good:
  assumes "pay_quote e net n a fx = (Inr q, fx')" "fx_inv (fx, pn_quoted n)" "fresh (pn_rate n) fx"
  shows "row_good e fx' (new_payout_row e n a day q)"
proof (rule quote_good [OF assms])
  fix c
  assume c: "getMethodConfig (agent_country a) (q_method q) = Inr c" "pm_min c \<le> q_net q"
    and usd: "0 < q_usd q" "q_usd q \<le> SWEEP_HARD_CAP_USD"
    and net: "q_net q = parse_fixed 2 (fsub (local_amount (q_conv q)) (q_wht q))"
    and log: "fx_conversion_log fx' = fx_conversion_log fx @
       [\<lparr>log_id = pn_conv n, log_rate_id = c_rate_id (q_conv q), payout_log_id = None, conversion = q_conv q\<rparr>]"
    and v: "amount_usd (q_conv q) = q_usd q" "local_currency (q_conv q) = cr_currency (q_req q)" "cr_currency (q_req q) \<noteq> ''USD''"
  have "1 \<le> q_net q" using method_found(2) [OF c(1)] c(2) by linarith
  then show ?thesis using usd net log v
    by (simp add: row_good_def signed_row_def traced_def new_payout_row_def)
qed

lemma locked_inv:
  assumes inv: "pay_inv e s" and step: "py_clock s \<le> pn_quoted n" "fresh (pn_rate n) (pd_fx (py_db s))"
    "pay_quote e net n a (pd_fx (py_db s)) = (Inr q, fx)"
    "pay_lock e n a day q ((py_db s)\<lparr>pd_fx := fx\<rparr>) = (Inr r, db)"
  shows "pay_inv e (s\<lparr>py_db := db, py_clock := pn_quoted n, py_flight := py_flight s @ [(a, q, r)]\<rparr>)"
proof -
  let ?L = "map frozen (pd_logs (py_db s))"
  have fx0: "fx_inv (pd_fx (py_db s), pn_quoted n)" using inv step(1) inv_later by (auto simp: pay_inv_def)
  have fx: "fx_step (pd_fx (py_db s), py_clock s) (fx, pn_quoted n)" by (rule quote_fx [OF step(3,1,2)])
  then have fxi: "fx_inv (fx, pn_quoted n)" using inv fx.step_inv by (auto simp: pay_inv_def)
  have mono: "set (fx_conversion_log (pd_fx (py_db s))) \<subseteq> set (fx_conversion_log fx)"
    using fx_step_log [OF fx] inv by (simp add: pay_inv_def)
  from lock_cases [of e a day q "(py_db s)\<lparr>pd_fx := fx\<rparr>" n] show ?thesis
  proof cases
    case (locked b)
    have r: "r = new_payout_row e n a day q" and db: "db = (debit (pa_id a) (q_usd q) ((py_db s)\<lparr>pd_fx := fx\<rparr>))
        \<lparr>pd_logs := pd_logs (py_db s) @ [r], pd_fx := fx\<lparr>payout_ids := pn_log n # payout_ids fx\<rparr>\<rparr>"
      using locked(5) step(4) by simp_all
    have key: "pl_key r = quote_key e a day q" "pl_id r = pn_log n" by (simp_all add: r new_payout_row_def)
    have "fx_step (fx, pn_quoted n) (pd_fx db, pn_quoted n)" unfolding db by (simp add: fx_payout)
    then have 1: "fx_inv (pd_fx db, pn_quoted n)" using fx.step_inv fxi by blast
    have L: "map frozen (pd_logs db) = ?L @ [r]" by (simp add: db r)
    have fresh_key: "pl_key r \<notin> pl_key ` set ?L"
      using locked(1) by (auto simp: find_log_def find_None_iff key)
    have fresh_id: "pl_id r \<notin> pl_id ` set ?L" using locked(2) by (auto simp: key)
    have "logs_good e fx ?L" using inv mono logs_good_mono by (auto simp: pay_inv_def)
    moreover have "row_good e fx r" unfolding r by (rule new_row_good [OF step(3) fx0 step(2)])
    ultimately have "logs_good e fx (?L @ [r])" using fresh_key fresh_id by (intro logs_good_snoc)
    then have 2: "logs_good e (pd_fx db) (?L @ [r])" by (rule logs_good_mono) (simp add: db)
    have f: "flight_good ?L (py_flight s) (py_calls s)" using inv by (simp add: pay_inv_def)
    then have keys: "pl_key x \<in> pl_key ` set ?L" if "(a', q', x) \<in> set (py_flight s)" for a' q' x
      using that by (auto simp: flight_good_def)
    have ckeys: "call_key c \<in> pl_key ` set ?L" if "c \<in> set (py_calls s)" for c
      using that f call_matches_key unfolding flight_good_def by fastforce
    have 3: "flight_good (?L @ [r]) (py_flight s @ [(a, q, r)]) (py_calls s)"
      using f fresh_key keys ckeys unfolding flight_good_def by (auto simp: r)
    have 4: "solvent (pd_agents db)" using inv debit_solvent by (auto simp: db pay_inv_def debit_def)
    show ?thesis using 1 2 3 4 L by (simp add: pay_inv_def)
  qed (use step(4) in simp_all)
qed

lemma moved_distinct: "distinct ((as @ x # bs) @ cs) \<Longrightarrow> zs = [] \<or> zs = [x] \<Longrightarrow> distinct ((as @ bs) @ cs @ zs)"
  by auto

lemma dispatched_inv:
  assumes inv: "pay_inv e s" and step: "py_flight s = xs @ (a, q, r) # ys" "dispatch n pv a q (pl_key r) = (out, calls)"
    "pay_finish a q r now out (py_db s) = (res, reps, db)"
  shows "pay_inv e (s\<lparr>py_db := db, py_flight := xs @ ys, py_calls := py_calls s @ calls, py_reports := py_reports s @ reps\<rparr>)"
proof -
  let ?L = "map frozen (pd_logs (py_db s))"
  note fin = finish_db [OF step(3)]
  have f: "flight_good ?L (xs @ (a, q, r) # ys) (py_calls s)" using inv step(1) by (simp add: pay_inv_def)
  then have r: "r \<in> set ?L" "of_quote a q r" by (auto simp: flight_good_def)
  have c: "calls = [] \<or> (\<exists>c. calls = [c] \<and> call_matches c r)" using dispatch_calls [OF step(2) r(2)] by blast
  have "flight_good ?L (xs @ ys) (py_calls s @ calls)"
    unfolding flight_good_def
  proof (intro conjI)
    have "map call_key calls = [] \<or> map call_key calls = [pl_key r]" using c call_matches_key by auto
    from moved_distinct [OF _ this, of "map (\<lambda>(a, q, r). pl_key r) xs" "map (\<lambda>(a, q, r). pl_key r) ys" "map call_key (py_calls s)"]
    show "distinct (map (\<lambda>(a, q, r). pl_key r) (xs @ ys) @ map call_key (py_calls s @ calls))"
      using f by (simp add: flight_good_def)
    show "\<forall>(a, q, r) \<in> set (xs @ ys). r \<in> set ?L \<and> of_quote a q r" using f unfolding flight_good_def by simp
    have "\<forall>c \<in> set (py_calls s). \<exists>r \<in> set ?L. call_matches c r" using f unfolding flight_good_def by blast
    then show "\<forall>c \<in> set (py_calls s @ calls). \<exists>r \<in> set ?L. call_matches c r" using c r(1) by auto
  qed
  moreover have "0 < q_usd q" using inv r by (auto simp: pay_inv_def logs_good_def row_good_def of_quote_def)
  then have "solvent (pd_agents db)"
    using fin(3) inv restore_solvent [of "py_db s" "q_usd q" "pa_id a"] by (auto simp: pay_inv_def)
  ultimately show ?thesis using inv fin(1,2) by (simp add: pay_inv_def)
qed

lemma fx_moved_inv:
  assumes "pay_inv e s" "fx_step (pd_fx (py_db s), py_clock s) (fx, now)"
  shows "pay_inv e (s\<lparr>py_db := (py_db s)\<lparr>pd_fx := fx\<rparr>, py_clock := now\<rparr>)"
  using assms fx.step_inv [OF assms(2)] logs_good_mono fx_step_log [OF assms(2)] by (auto simp: pay_inv_def)

lemma settled_inv:
  assumes "pay_inv e s"
  shows "pay_inv e (s\<lparr>py_db := settlePayout k g ref why now (py_db s)\<rparr>)"
proof -
  let ?db = "settlePayout k g ref why now (py_db s)"
  note st = settle_db [of k g ref why now "py_db s"]
  have pos: "0 \<le> pl_amount r" if "r \<in> set (pd_logs ?db)" for r
  proof -
    have "frozen r \<in> set (map frozen (pd_logs ?db))" using that by simp
    then have "frozen r \<in> set (map frozen (pd_logs (py_db s)))" unfolding st(1) .
    then have "row_good e (pd_fx (py_db s)) (frozen r)" using assms unfolding pay_inv_def logs_good_def by blast
    then show ?thesis by (simp add: row_good_def)
  qed
  have "solvent (pd_agents ?db)"
    using st(3) assms restore_solvent [of "py_db s"] pos unfolding pay_inv_def by fastforce
  then show ?thesis using assms st(1,2) by (simp add: pay_inv_def)
qed

lemma quote_same_or_moved:
  assumes "pay_lock e n a day q ((py_db s)\<lparr>pd_fx := fx\<rparr>) = (Inl res, db)"
  shows "db = (py_db s)\<lparr>pd_fx := fx\<rparr>"
  using assms by (cases rule: lock_cases [of e a day q "(py_db s)\<lparr>pd_fx := fx\<rparr>" n]) simp_all

interpretation pay: forward_simulation pay_init "pay_step e" "pay_inv e" fx_init "fx_step\<^sup>*\<^sup>*"
  "\<lambda>s. (pd_fx (py_db s), py_clock s)" for e
proof unfold_locales
  fix s assume i: "pay_init s"
  then have "fx_inv (pd_fx (py_db s), py_clock s)" using fx.init_inv by (simp add: pay_init_def)
  with i show "pay_inv e s" by (simp add: pay_init_def pay_inv_def logs_good_def flight_good_def solvent_def)
  show "fx_init (pd_fx (py_db s), py_clock s)" using i by (simp add: pay_init_def)
next
  fix s t assume "pay_step e s t" and inv: "pay_inv e s"
  then show "pay_inv e t"
  proof cases
    case (attempt_refused n net a res fx)
    then show ?thesis using fx_moved_inv [OF inv quote_fx] by simp
  next
    case (attempt_not_locked n net a q fx day res db)
    show ?thesis unfolding attempt_not_locked(1) quote_same_or_moved [OF attempt_not_locked(5)]
      by (rule fx_moved_inv [OF inv quote_fx [OF attempt_not_locked(4,2,3)]])
  next
    case (attempt_locked n net a q fx day r db)
    then show ?thesis using locked_inv [OF inv] by simp
  next
    case (dispatched xs a q r ys n pv out calls now res reps db)
    then show ?thesis using dispatched_inv [OF inv] by simp
  next
    case (settled key good ref why now)
    then show ?thesis using settled_inv [OF inv] by simp
  next
    case (agents_edited as)
    then show ?thesis using inv by (simp add: pay_inv_def solvent_def)
  next
    case (exchanged fx now)
    then show ?thesis using fx_moved_inv [OF inv] by simp
  qed
next
  fix s t assume "pay_inv e s" and "pay_step e s t"
  from this(2) show "fx_step\<^sup>*\<^sup>* (pd_fx (py_db s), py_clock s) (pd_fx (py_db t), py_clock t)"
  proof cases
    case (attempt_refused n net a res fx)
    then show ?thesis using quote_fx [OF attempt_refused(4,2,3)] by simp
  next
    case (attempt_not_locked n net a q fx day res db)
    then show ?thesis using quote_fx [OF attempt_not_locked(4,2,3)] by (simp add: quote_same_or_moved [OF attempt_not_locked(5)])
  next
    case (attempt_locked n net a q fx day r db)
    have "pd_fx db = fx\<lparr>payout_ids := pn_log n # payout_ids fx\<rparr>"
      using attempt_locked(5) by (cases rule: lock_cases [of e a day q "(py_db s)\<lparr>pd_fx := fx\<rparr>" n]) auto
    then have "fx_step (fx, pn_quoted n) (pd_fx db, pn_quoted n)" by (simp add: fx_payout)
    with quote_fx [OF attempt_locked(4,2,3)] show ?thesis
      by (simp add: attempt_locked(1))
  next
    case (dispatched xs a q r ys n pv out calls now res reps db)
    then show ?thesis using finish_db(2) [OF dispatched(4)] by simp
  next
    case (settled key good ref why now)
    then show ?thesis by (simp add: settle_db(2))
  next
    case (agents_edited as)
    then show ?thesis by simp
  next
    case (exchanged fx now)
    then show ?thesis by simp
  qed
qed

subsection \<open>A sweep is a run of the system\<close>

lemma process_is_a_run:
  assumes "py_clock s \<le> pn_quoted n" "fresh (pn_rate n) (pd_fx (py_db s))" "py_flight s = []"
    and "processAgentPayout e net n pv a day (py_db s) = (res, reps, db)"
  shows "\<exists>calls. (pay_step e)\<^sup>*\<^sup>* s (s\<lparr>py_db := db, py_clock := pn_quoted n, py_calls := py_calls s @ calls, py_reports := py_reports s @ reps\<rparr>)"
proof -
  have quiet: "s\<lparr>py_db := db, py_clock := t, py_calls := py_calls s @ [], py_reports := py_reports s @ []\<rparr> = s\<lparr>py_db := db, py_clock := t\<rparr>" for db t
    by simp
  obtain out fx where q: "pay_quote e net n a (pd_fx (py_db s)) = (out, fx)" by fastforce
  show ?thesis
  proof (cases out)
    case (Inl x)
    then have "db = (py_db s)\<lparr>pd_fx := fx\<rparr>" "reps = []" using assms(4) q by (simp_all add: processAgentPayout_def)
    then show ?thesis using attempt_refused [OF assms(1,2) q [unfolded Inl]] quiet by (metis r_into_rtranclp)
  next
    case (Inr q')
    obtain lk db1 where l: "pay_lock e n a day q' ((py_db s)\<lparr>pd_fx := fx\<rparr>) = (lk, db1)" by fastforce
    show ?thesis
    proof (cases lk)
      case (Inl x)
      then have "db = db1" "reps = []" using assms(4) q Inr l by (simp_all add: processAgentPayout_def)
      then show ?thesis using attempt_not_locked [OF assms(1,2) q [unfolded Inr] l [unfolded Inl]] quiet by (metis r_into_rtranclp)
    next
      case locked: (Inr r)
      obtain o2 calls where d: "dispatch n pv a q' (pl_key r) = (o2, calls)" by fastforce
      have f: "pay_finish a q' r (pn_settled n) o2 db1 = (res, reps, db)"
        using assms(4) q Inr l locked d by (simp add: processAgentPayout_def)
      let ?s = "s\<lparr>py_db := db1, py_clock := pn_quoted n, py_flight := [(a, q', r)]\<rparr>"
      have 1: "pay_step e s ?s"
        using attempt_locked [OF assms(1,2) q [unfolded Inr] l [unfolded locked]] assms(3) by simp
      have "pay_step e ?s (?s\<lparr>py_db := db, py_flight := [] @ [], py_calls := py_calls ?s @ calls, py_reports := py_reports ?s @ reps\<rparr>)"
        by (rule dispatched [OF _ d, where now = "pn_settled n" and res = res]) (simp_all add: f)
      moreover have "?s\<lparr>py_db := db, py_flight := [] @ [], py_calls := py_calls ?s @ calls, py_reports := py_reports ?s @ reps\<rparr>
          = s\<lparr>py_db := db, py_clock := pn_quoted n, py_calls := py_calls s @ calls, py_reports := py_reports s @ reps\<rparr>"
        using assms(3) by (cases s) simp
      ultimately show ?thesis using 1 by (metis converse_rtranclp_into_rtranclp r_into_rtranclp)
    qed
  qed
qed

text \<open>The rounds of a sweep: the clock does not run backwards, and the id of a new rate is fresh when the round uses it.\<close>

fun rounds_ok :: "pay_env \<Rightarrow> (nat \<Rightarrow> sweep_round) \<Rightarrow> time \<Rightarrow> nat \<Rightarrow> pay_agent list \<Rightarrow> pay_db \<Rightarrow> time \<Rightarrow> bool" where
  "rounds_ok e w day k [] db t \<longleftrightarrow> True"
| "rounds_ok e w day k (a # as) db t \<longleftrightarrow> t \<le> pn_quoted (sw_nonce (w k)) \<and> fresh (pn_rate (sw_nonce (w k))) (pd_fx db)
     \<and> rounds_ok e w day (Suc k) as (snd (snd (processAgentPayout e (sw_net (w k)) (sw_nonce (w k)) (sw_providers (w k)) a day db)))
         (pn_quoted (sw_nonce (w k)))"

lemma sweep_is_a_run:
  "sweep_loop e w day k as (py_db s) = (rs, reps, db) \<Longrightarrow> rounds_ok e w day k as (py_db s) (py_clock s) \<Longrightarrow> py_flight s = [] \<Longrightarrow>
   length rs = length as
   \<and> (\<exists>calls t. (pay_step e)\<^sup>*\<^sup>* s (s\<lparr>py_db := db, py_clock := t, py_calls := py_calls s @ calls, py_reports := py_reports s @ reps\<rparr>))"
proof (induction as arbitrary: k s rs reps db)
  case Nil
  have "s\<lparr>py_db := py_db s, py_clock := py_clock s, py_calls := py_calls s @ [], py_reports := py_reports s @ []\<rparr> = s" by simp
  then show ?case using Nil by (metis Pair_inject list.size(3) rtranclp.rtrancl_refl sweep_loop.simps(1))
next
  case (Cons a as)
  obtain res rp db1 where p: "processAgentPayout e (sw_net (w k)) (sw_nonce (w k)) (sw_providers (w k)) a day (py_db s) = (res, rp, db1)"
    by (cases "processAgentPayout e (sw_net (w k)) (sw_nonce (w k)) (sw_providers (w k)) a day (py_db s)") auto
  obtain rs' rp' where l: "sweep_loop e w day (Suc k) as db1 = (rs', rp', db)" "rs = res # rs'" "reps = rp @ rp'"
    using Cons.prems(1) p by (auto split: prod.splits)
  obtain calls where c: "(pay_step e)\<^sup>*\<^sup>* s (s\<lparr>py_db := db1, py_clock := pn_quoted (sw_nonce (w k)), py_calls := py_calls s @ calls, py_reports := py_reports s @ rp\<rparr>)"
    using process_is_a_run [OF _ _ Cons.prems(3) p] Cons.prems(2) by auto
  let ?s = "s\<lparr>py_db := db1, py_clock := pn_quoted (sw_nonce (w k)), py_calls := py_calls s @ calls, py_reports := py_reports s @ rp\<rparr>"
  have "length rs' = length as \<and> (\<exists>calls t. (pay_step e)\<^sup>*\<^sup>* ?s (?s\<lparr>py_db := db, py_clock := t, py_calls := py_calls ?s @ calls, py_reports := py_reports ?s @ rp'\<rparr>))"
    by (rule Cons.IH [of "Suc k"]) (use l Cons.prems p in simp_all)
  then obtain calls' t where r: "length rs' = length as"
    "(pay_step e)\<^sup>*\<^sup>* ?s (?s\<lparr>py_db := db, py_clock := t, py_calls := py_calls ?s @ calls', py_reports := py_reports ?s @ rp'\<rparr>)" by blast
  have "?s\<lparr>py_db := db, py_clock := t, py_calls := py_calls ?s @ calls', py_reports := py_reports ?s @ rp'\<rparr>
      = s\<lparr>py_db := db, py_clock := t, py_calls := py_calls s @ (calls @ calls'), py_reports := py_reports s @ reps\<rparr>" by (simp add: l)
  then have "(pay_step e)\<^sup>*\<^sup>* s (s\<lparr>py_db := db, py_clock := t, py_calls := py_calls s @ (calls @ calls'), py_reports := py_reports s @ reps\<rparr>)"
    using rtranclp_trans [OF c r(2)] by simp
  then show ?case using r(1) l by auto
qed

lemma count_where_split: "count_where p xs + count_where (\<lambda>x. \<not> p x \<and> q x) xs + count_where (\<lambda>x. \<not> p x \<and> \<not> q x) xs = length xs"
  by (induction xs) (simp_all add: count_where_def)

end
