(* ===== verification/Decimal.thy ===== *)
theory Decimal
  imports JsValue
begin

section \<open>Decimal text: printing and reading back\<close>

text \<open>
  What \<open>toFixed\<close> prints, \<open>Number\<close> (and \<open>parseFloat\<close>, which agrees on such texts) reads back as the double
  nearest to the printed decimal; a number that was read from such a text prints as that text.
\<close>

lemma digits_val_append: "digits_val (xs @ ys) = digits_val xs * 10 ^ length ys + digits_val ys"
proof (induction ys rule: rev_induct)
  case (snoc y ys)
  then show ?case by (simp add: digits_val_def algebra_simps)
qed (simp add: digits_val_def)

lemma digit_val_of: "0 \<le> k \<Longrightarrow> k < 10 \<Longrightarrow> digit_val (char_of (nat (48 + k))) = k"
proof -
  assume k: "0 \<le> k" "k < 10"
  then have "nat (48 + k) < 256" by simp
  then have "code (char_of (nat (48 + k))) = nat (48 + k)" by (simp add: of_char_of)
  with k show ?thesis by (simp add: digit_val_def)
qed

lemma digits_val_nat_digits: "0 \<le> n \<Longrightarrow> digits_val (nat_digits n) = n"
proof (induction n rule: nat_digits.induct)
  case (1 n)
  show ?case
  proof (cases "n < 10")
    case True
    then show ?thesis using digit_val_of [of n] "1.prems" by (subst nat_digits.simps) (simp add: digits_val_def)
  next
    case False
    then have "digits_val (nat_digits n) = digits_val (nat_digits (n div 10)) * 10 + n mod 10"
      using digit_val_of [of "n mod 10"] by (subst nat_digits.simps) (simp add: digits_val_append, simp add: digits_val_def)
    then show ?thesis using "1.IH" "1.prems" False by simp
  qed
qed

lemma digits_val_zeros: "digits_val (replicate k (CHR ''0'')) = 0"
  by (induction k) (simp_all add: digits_val_def digit_val_def)

lemma digits_val_pad [simp]: "0 \<le> n \<Longrightarrow> digits_val (pad_left k (nat_digits n)) = n"
  by (simp add: pad_left_def digits_val_append digits_val_zeros digits_val_nat_digits)

lemma pad_digits: "0 \<le> n \<Longrightarrow> \<forall>c \<in> set (pad_left k (nat_digits n)). is_digit c"
  using nat_digits_no_sep [of n] by (auto simp: pad_left_def is_digit_def)

lemma pad_length: "k \<le> length (pad_left k s)"
  by (simp add: pad_left_def)

text \<open>The integer before the point and the \<open>f\<close> digits after it.\<close>

definition fixed_text :: "nat \<Rightarrow> int \<Rightarrow> string" where
  "fixed_text f n = (let s = pad_left (f + 1) (nat_digits n); k = length s - f in take k s @ ''.'' @ drop k s)"

lemma to_fixed_text: "0 \<le> x \<Longrightarrow> 0 < f \<Longrightarrow> to_fixed_str f x = fixed_text f (js_round (x * 10 ^ f))"
  by (simp add: to_fixed_str_def fixed_text_def Let_def)

lemma dot_facts: "\<not> is_digit CHR ''.''" "\<not> is_space CHR ''.''" "is_digit c \<Longrightarrow> \<not> is_space c"
  by (auto simp: is_digit_def is_space_def)

lemma take_while_app: "\<forall>c \<in> set xs. p c \<Longrightarrow> \<not> p y \<Longrightarrow> takeWhile p (xs @ y # ys) = xs \<and> dropWhile p (xs @ y # ys) = y # ys"
  by (induction xs) auto

lemma unsigned_fixed:
  assumes "0 \<le> n" "0 < f"
  shows "unsigned_decimal (fixed_text f n) = Some (of_int n / 10 ^ f)"
proof -
  define s where "s = pad_left (f + 1) (nat_digits n)"
  define k where "k = length s - f"
  have d: "\<forall>c \<in> set s. is_digit c" unfolding s_def by (rule pad_digits [OF assms(1)])
  have len: "f + 1 \<le> length s" unfolding s_def by (rule pad_length)
  then have k: "0 < k" "length (drop k s) = f" by (simp_all add: k_def)
  have a: "takeWhile is_digit (take k s @ CHR ''.'' # drop k s) = take k s"
    "dropWhile is_digit (take k s @ CHR ''.'' # drop k s) = CHR ''.'' # drop k s"
    using take_while_app [of "take k s" is_digit "CHR ''.''" "drop k s"] d dot_facts(1) in_set_takeD by fast+
  have b: "takeWhile is_digit (drop k s) = drop k s" "dropWhile is_digit (drop k s) = []"
    using d by (auto simp: takeWhile_eq_all_conv dropWhile_eq_Nil_conv dest: in_set_dropD)
  have v: "digits_val s = n" unfolding s_def using assms(1) by simp
  have "fixed_text f n = take k s @ CHR ''.'' # drop k s" by (simp add: fixed_text_def s_def k_def Let_def)
  moreover have "take k s \<noteq> []" using k len by auto
  ultimately have "unsigned_decimal (fixed_text f n)
      = map_option (\<lambda>e. of_int (digits_val (take k s @ drop k s)) * 10 powi (e - int (length (drop k s)))) (exponent_of [])"
    unfolding unsigned_decimal_def Let_def using a b by (simp del: takeWhile_eq_all_conv dropWhile_eq_Nil_conv append_take_drop_id)
  then show ?thesis using k v by (simp add: exponent_of_def power_int_minus divide_inverse)
qed

lemma fixed_chars: "0 \<le> n \<Longrightarrow> \<forall>c \<in> set (fixed_text f n). is_digit c \<or> c = CHR ''.''"
  using pad_digits [of n "f + 1"] by (auto simp: fixed_text_def Let_def dest: in_set_takeD in_set_dropD)

lemma trim_id: "\<forall>c \<in> set s. \<not> is_space c \<Longrightarrow> trim s = s"
proof -
  have d: "\<forall>c \<in> set xs. \<not> is_space c \<Longrightarrow> dropWhile is_space xs = xs" for xs by (cases xs) auto
  assume "\<forall>c \<in> set s. \<not> is_space c"
  then show ?thesis using d [of s] d [of "rev s"] by (simp add: trim_def)
qed

lemma str_to_num_fixed:
  assumes "0 \<le> n" "0 < f"
  shows "str_to_num (fixed_text f n) = finite_or_inf (of_int n / 10 ^ f)"
proof -
  let ?s = "fixed_text f n"
  have c: "\<forall>c \<in> set ?s. is_digit c \<or> c = CHR ''.''" by (rule fixed_chars [OF assms(1)])
  then have "\<forall>c \<in> set ?s. \<not> is_space c" using dot_facts by blast
  then have t: "trim ?s = ?s" by (rule trim_id)
  have ne: "?s \<noteq> []" by (simp add: fixed_text_def Let_def)
  then have h: "hd ?s \<in> set ?s" by simp
  have low: "lower_char c = c" if "is_digit c \<or> c = CHR ''.''" for c
    using that by (auto simp: lower_char_def is_digit_def)
  have pre: "to_lower (take 2 ?s) \<noteq> [CHR ''0'', y]" if "\<not> is_digit y" "y \<noteq> CHR ''.''" for y
  proof
    assume e: "to_lower (take 2 ?s) = [CHR ''0'', y]"
    have "to_lower (take 2 ?s) = take 2 ?s"
      unfolding to_lower_def using c low by (intro map_idI) (auto dest: in_set_takeD)
    with e have "y \<in> set (take 2 ?s)" by simp
    then show False using c that by (auto dest: in_set_takeD)
  qed
  have inf: "?s \<noteq> ''Infinity''"
  proof
    assume "?s = ''Infinity''"
    then have "hd ?s = CHR ''I''" by simp
    then show False using c h by (auto simp: is_digit_def)
  qed
  have sg: "hd ?s \<noteq> CHR ''-''" "hd ?s \<noteq> CHR ''+''" using c h by (auto simp: is_digit_def)
  have "\<not> is_digit CHR ''x''" "\<not> is_digit CHR ''o''" "\<not> is_digit CHR ''b''" by (simp_all add: is_digit_def)
  then show ?thesis
    using t ne pre [of "CHR ''x''"] pre [of "CHR ''o''"] pre [of "CHR ''b''"] inf sg
    by (simp add: str_to_num_def Let_def unsigned_fixed [OF assms])
qed

text \<open>Printing, then reading.\<close>

lemma fixed_reads_back:
  assumes "0 \<le> x" "x < 10 ^ 21" "0 < f"
  shows "str_to_num (to_fixed_str f x) = Fin (parse_fixed f x)"
proof -
  let ?n = "js_round (x * 10 ^ f)"
  have n: "0 \<le> ?n" using assms(1) by (intro js_round_nonneg) simp
  have "of_int ?n \<le> x * 10 ^ f + 1 / 2" by (simp add: js_round_def)
  then have "of_int ?n / 10 ^ f \<le> (x * 10 ^ f + 1 / 2) / 10 ^ f" by (intro divide_right_mono) simp_all
  also have "\<dots> = x + 1 / 2 / 10 ^ f" by (simp add: field_simps)
  also have "\<dots> \<le> x + 1"
  proof -
    have "(1::rat) \<le> 10 ^ f" by simp
    then have "(1::rat) \<le> 2 * 10 ^ f" by linarith
    then have "(1::rat) / 2 / 10 ^ f \<le> 1" by (simp add: divide_le_eq)
    then show ?thesis by linarith
  qed
  finally have "of_int ?n / 10 ^ f < 10 ^ 21 + (1::rat)" using assms(2) by linarith
  also have "(10 ^ 21 + (1::rat)) < 2 ^ 1024 - 2 ^ 970" by simp
  finally have "finite_or_inf (of_int ?n / 10 ^ f) = Fin (rnd (of_int ?n / 10 ^ f))"
  proof -
    assume "of_int ?n / 10 ^ f < (2 ^ 1024 - 2 ^ 970 :: rat)"
    moreover have "\<not> of_int ?n / 10 ^ f \<le> - (2 ^ 1024 - 2 ^ 970 :: rat)"
    proof -
      have "(0::rat) \<le> of_int ?n / 10 ^ f" using n by simp
      moreover have "- (2 ^ 1024 - 2 ^ 970 :: rat) < 0" by simp
      ultimately show ?thesis by linarith
    qed
    ultimately show ?thesis unfolding finite_or_inf_def using if_not_P leD by metis
  qed
  then show ?thesis using assms n by (simp add: to_fixed_text str_to_num_fixed parse_fixed_def to_fixed_val_def)
qed

text \<open>Reading, then printing.\<close>

lemma fixed_prints_back:
  assumes "0 \<le> x" "x \<le> 10 ^ 9" "0 < f" "f \<le> 6"
  shows "to_fixed_str f (parse_fixed f x) = to_fixed_str f x"
proof -
  let ?n = "js_round (x * 10 ^ f)" and ?p = "parse_fixed f x"
  have n: "0 \<le> ?n" using assms(1) by (intro js_round_nonneg) simp
  have p: "?p = rnd (of_int ?n / 10 ^ f)" using assms by (simp add: parse_fixed_def to_fixed_val_def)
  then have p0: "0 \<le> ?p" using n by (simp add: js.nonneg)
  have t: "1 \<le> (10::rat) ^ f" "(10::rat) ^ f \<le> 10 ^ 6"
    using power_increasing [OF assms(4), of "10 :: rat"] by simp_all
  have "of_int ?n \<le> x * 10 ^ f + 1 / 2" by (simp add: js_round_def)
  also have "\<dots> \<le> 10 ^ 9 * 10 ^ f + 10 ^ f" using assms(2) t(1) by (intro add_mono mult_right_mono; linarith)
  finally have "of_int ?n / 10 ^ f \<le> (10 ^ 9 + 1 :: rat)" using t by (simp add: field_simps)
  then have "\<bar>of_int ?n / 10 ^ f\<bar> \<le> (10 ^ 9 + 1 :: rat)" using n by simp
  from rnd_near [OF this] have "\<bar>?p - of_int ?n / 10 ^ f\<bar> \<le> err_rel * (10 ^ 9 + 1) + err_abs" unfolding p .
  moreover have "err_rel * (10 ^ 9 + 1) + err_abs \<le> 1 / 10 ^ 6 / 4" by (simp add: err_rel_def err_abs_def)
  ultimately have d: "\<bar>?p - of_int ?n / 10 ^ f\<bar> \<le> 1 / 10 ^ 6 / 4" by linarith
  have "?p * 10 ^ f - of_int ?n = (?p - of_int ?n / 10 ^ f) * 10 ^ f" by (simp add: left_diff_distrib)
  then have "\<bar>?p * 10 ^ f - of_int ?n\<bar> = \<bar>?p - of_int ?n / 10 ^ f\<bar> * 10 ^ f" by (simp add: abs_mult)
  also have "\<dots> \<le> 1 / 10 ^ 6 / 4 * 10 ^ 6" using d t by (intro mult_mono) simp_all
  finally have "\<bar>?p * 10 ^ f - of_int ?n\<bar> \<le> 1 / 4" by simp
  then have "js_round (?p * 10 ^ f) = ?n"
    unfolding js_round_def [of "?p * 10 ^ f"] abs_le_iff by (intro floor_unique) linarith+
  then show ?thesis using assms p0 by (simp add: to_fixed_text)
qed

end
