(* ===== verification/PayoutDemo.thy ===== *)
theory PayoutDemo
  imports PayoutSystem
begin

section \<open>A run of the payout system\<close>

text \<open>
  A concrete run in which the properties of the payouts are evaluated: an agent in Kenya with a
  balance of 100 dollars is quoted, locked and paid by mobile money, and a second sweep of the same
  day quotes what remains. The rate, the network and the empty exchange state are those of the
  evaluation in the theory on foreign exchange.
\<close>

definition demo_agent :: pay_agent where
  "demo_agent = \<lparr>pa_id = ''a'', pa_tenant = ''t'', pa_name = ''n'', pa_balance = 100, pa_method = Some ''momo'', pa_card = None,
     pa_threshold = 10, pa_locked = False, pa_momo = Some ''254'', pa_country = Some ''ke'', pa_kyc = ''standard''\<rparr>"

definition demo_nonce :: pay_nonce where
  "demo_nonce = \<lparr>pn_rate = ''r'', pn_conv = ''c'', pn_log = ''l'', pn_ref = ''x'', pn_quoted = 7, pn_created = 0, pn_settled = 9\<rparr>"

definition demo_env :: "(string \<Rightarrow> string) \<Rightarrow> pay_env" where
  "demo_env h = \<lparr>ph = h, pcfg = demo_config\<rparr>"

definition demo_conversion :: fx_conversion where "demo_conversion = conversion_of demo_rate 85 ''KES'' 7"

definition demo_wht :: rat where "demo_wht = parse_fixed 2 (fmul (local_amount demo_conversion) (percent 5))"
definition demo_net_amount :: rat where "demo_net_amount = parse_fixed 2 (fsub (local_amount demo_conversion) demo_wht)"

definition demo_quote :: quote where
  "demo_quote = \<lparr>q_req = requirement_KE, q_method = Momo, q_usd = 85, q_conv = demo_conversion, q_wht = demo_wht, q_net = demo_net_amount\<rparr>"

definition demo_quoted :: fx_state where
  "demo_quoted = demo_fetched\<lparr>fx_conversion_log := [\<lparr>log_id = ''c'', log_rate_id = ''r'', payout_log_id = None, conversion = demo_conversion\<rparr>]\<rparr>"

definition demo_fixer :: providers where
  "demo_fixer = \<lparr>pv_token = True, pv_transfer = True, pv_poll = (\<lambda>i. if i < 2 then PollAnswer Momo_pending None None else PollAnswer Momo_successful (Some ''y'') None),
     pv_recipient = True, pv_payout = None\<rparr>"

definition demo_db :: pay_db where
  "demo_db = \<lparr>pd_agents = [demo_agent], pd_logs = [], pd_fx = demo_empty\<rparr>"

lemma demo_amount: "disbursable 100 = 85" by code_simp

lemma demo_country: "getCountryRequirement ''ke'' = Inr requirement_KE"
proof -
  have "to_upper ''ke'' = ''KE''" by code_simp
  then show ?thesis by (simp add: getCountryRequirement_def COUNTRY_REQUIREMENTS_def)
qed

definition in_limits :: "rat \<Rightarrow> bool" where "in_limits x \<longleftrightarrow> 10 \<le> x \<and> x \<le> 150000"

lemma demo_bounds: "10 \<le> demo_net_amount \<and> demo_net_amount \<le> 150000"
proof -
  have "in_limits demo_net_amount" by code_simp
  then show ?thesis by (simp add: in_limits_def)
qed

lemma demo_converted:
  "convertUsd demo_config demo_net ''r'' ''c'' 7 85 ''KES'' None demo_empty = (Inr demo_conversion, demo_quoted)"
proof -
  have d: "DEFAULT_SPREAD demo_config = rnd (5 / 1000)" by (simp add: demo_config_def)
  show ?thesis unfolding convertUsd_def d demo_get
    by (simp add: writeConversionLog_def conversion_of_def demo_fetched_def persistRateToDb_def setCachedRate_def
        demo_empty_def demo_rate_def new_rate_def demo_conversion_def demo_quoted_def)
qed

lemma demo_pays: "pay_quote (demo_env h) demo_net demo_nonce demo_agent demo_empty = (Inr demo_quote, demo_quoted)"
proof -
  have sel: "agent_country demo_agent = ''ke''" "pa_kyc demo_agent = ''standard''" "pa_method demo_agent = Some ''momo''"
    "pa_balance demo_agent = 100" "pcfg (demo_env h) = demo_config" "pn_rate demo_nonce = ''r''" "pn_conv demo_nonce = ''c''"
    "pn_quoted demo_nonce = 7"
    by (simp_all add: demo_agent_def agent_country_def demo_env_def demo_nonce_def)
  have ke: "cr_currency requirement_KE = ''KES''" "cr_wht requirement_KE = percent 5" "cr_kyc requirement_KE = Standard"
    "getMethodConfig ''ke'' Momo = Inr \<lparr>pm_method = Momo, pm_gateway = ''mpesa'', pm_min = 10, pm_max = 150000, pm_fields = [''momo_number'']\<rparr>"
    by (simp_all add: getMethodConfig_def demo_country requirement_KE_def)
  show ?thesis
    unfolding pay_quote_def sel demo_country sum.case
    using demo_bounds
    by (simp add: kyc_of_def meetsKycRequirement_def demo_country ke method_of_def demo_amount demo_converted SWEEP_HARD_CAP_USD_def
        demo_quote_def demo_net_amount_def demo_wht_def Let_def)
qed

definition demo_row :: "(string \<Rightarrow> string) \<Rightarrow> payout_row" where
  "demo_row h = new_payout_row (demo_env h) demo_nonce demo_agent 0 demo_quote"

definition demo_locked :: "(string \<Rightarrow> string) \<Rightarrow> pay_db" where
  "demo_locked h = \<lparr>pd_agents = [demo_agent\<lparr>pa_balance := 15\<rparr>], pd_logs = [demo_row h], pd_fx = demo_quoted\<lparr>payout_ids := [''l'']\<rparr>\<rparr>"

lemma demo_left: "fsub 100 85 = 15" by code_simp

lemma demo_lock: "pay_lock (demo_env h) demo_nonce demo_agent 0 demo_quote (demo_db\<lparr>pd_fx := demo_quoted\<rparr>) = (Inr (demo_row h), demo_locked h)"
proof -
  have id: "pl_id (demo_row h) = ''l''" by (simp add: demo_row_def new_payout_row_def demo_nonce_def)
  have fx: "payout_ids demo_quoted = []" by (simp add: demo_quoted_def demo_fetched_def persistRateToDb_def setCachedRate_def demo_empty_def)
  have sel: "pd_logs demo_db = []" "pd_agents demo_db = [demo_agent]" "pa_id demo_agent = ''a''" "pa_balance demo_agent = 100"
    "q_usd demo_quote = 85" by (simp_all add: demo_db_def demo_agent_def demo_quote_def)
  show ?thesis
    by (subst pay_lock_def, subst demo_row_def [symmetric])
      (simp add: id fx find_log_def can_debit_def sel debit_def demo_locked_def demo_left Let_def)
qed

definition demo_start :: pay_sys where
  "demo_start = \<lparr>py_db = demo_db, py_clock = 0, py_flight = [], py_calls = [], py_reports = []\<rparr>"

definition demo_middle :: "(string \<Rightarrow> string) \<Rightarrow> pay_sys" where
  "demo_middle h = \<lparr>py_db = demo_locked h, py_clock = 7, py_flight = [(demo_agent, demo_quote, demo_row h)], py_calls = [], py_reports = []\<rparr>"

lemma demo_start_reach: "reach pay_init (pay_step e) demo_start"
  by (rule reach_init) (simp add: pay_init_def demo_start_def demo_db_def fx_init_def demo_empty_def demo_agent_def)

lemma demo_middle_reach: "reach pay_init (pay_step (demo_env h)) (demo_middle h)"
proof (rule reach_step [OF demo_start_reach])
  have sel: "py_db demo_start = demo_db" "py_clock demo_start = 0" "pd_fx demo_db = demo_empty"
    "pn_quoted demo_nonce = 7" "py_flight demo_start = []" by (simp_all add: demo_start_def demo_db_def demo_nonce_def)
  have "pay_step (demo_env h) demo_start (demo_start\<lparr>py_db := demo_locked h, py_clock := pn_quoted demo_nonce,
      py_flight := py_flight demo_start @ [(demo_agent, demo_quote, demo_row h)]\<rparr>)"
  proof (rule attempt_locked)
    show "py_clock demo_start \<le> pn_quoted demo_nonce" "fresh (pn_rate demo_nonce) (pd_fx (py_db demo_start))"
      by (simp_all add: sel demo_fresh)
    show "pay_quote (demo_env h) demo_net demo_nonce demo_agent (pd_fx (py_db demo_start)) = (Inr demo_quote, demo_quoted)"
      by (simp only: sel demo_pays)
    show "pay_lock (demo_env h) demo_nonce demo_agent 0 demo_quote ((py_db demo_start)\<lparr>pd_fx := demo_quoted\<rparr>) = (Inr (demo_row h), demo_locked h)"
      by (simp only: sel demo_lock)
  qed
  then show "pay_step (demo_env h) demo_start (demo_middle h)" by (simp add: sel demo_middle_def demo_start_def)
qed

lemma demo_dispatch:
  "dispatch demo_nonce demo_fixer demo_agent demo_quote key
     = (Inr (Some ''y'', P_success, None), [MomoTransfer ''x'' (to_fixed_str 2 demo_net_amount) ''KES'' ''254'' key])"
proof -
  have six: "(6::nat) = Suc (Suc (Suc (Suc (Suc (Suc 0)))))" by simp
  show ?thesis
    by (simp add: dispatch_defs demo_quote_def demo_agent_def demo_fixer_def demo_nonce_def non_empty_def six requirement_KE_def)
qed

definition demo_settled :: "(string \<Rightarrow> string) \<Rightarrow> payout_row" where
  "demo_settled h = (demo_row h)\<lparr>pl_status := P_success, pl_reference := Some ''y'', pl_settled := Some 9, pl_filed := True\<rparr>"

definition demo_end :: "(string \<Rightarrow> string) \<Rightarrow> pay_sys" where
  "demo_end h = \<lparr>py_db = (demo_locked h)\<lparr>pd_logs := [demo_settled h]\<rparr>, py_clock = 7, py_flight = [],
     py_calls = [MomoTransfer ''x'' (to_fixed_str 2 demo_net_amount) ''KES'' ''254'' (pl_key (demo_row h))], py_reports = []\<rparr>"

lemma demo_breached: "getBreachedThresholds ''ke'' demo_net_amount = Inr []"
  using demo_bounds by (simp add: getBreachedThresholds_def demo_country) (simp add: requirement_KE_def)

lemma demo_finish:
  "\<exists>res. pay_finish demo_agent demo_quote (demo_row h) 9 (Inr (Some ''y'', P_success, None)) (demo_locked h)
     = (res, [], py_db (demo_end h)) \<and> rs_status res = P_success"
proof -
  have sel: "agent_country demo_agent = ''ke''" "q_net demo_quote = demo_net_amount"
    by (simp_all add: agent_country_def demo_agent_def demo_quote_def)
  have r: "pl_status (demo_row h) = P_pending" "pl_filed (demo_row h) = False" "pl_reason (demo_row h) = None"
    "pl_id (demo_row h) = ''l''" by (simp_all add: demo_row_def new_payout_row_def demo_nonce_def)
  show ?thesis
    by (simp add: pay_finish_def sel fileRegulatoryReports_def demo_breached mark_filed_def update_log_def demo_end_def demo_locked_def
        demo_settled_def r)
qed

lemma demo_end_reach: "reach pay_init (pay_step (demo_env h)) (demo_end h)"
proof (rule reach_step [OF demo_middle_reach])
  obtain res where fin: "pay_finish demo_agent demo_quote (demo_row h) 9 (Inr (Some ''y'', P_success, None)) (demo_locked h)
      = (res, [], py_db (demo_end h))" using demo_finish by blast
  have "pay_step (demo_env h) (demo_middle h) ((demo_middle h)\<lparr>py_db := py_db (demo_end h), py_flight := [] @ [],
      py_calls := py_calls (demo_middle h) @ [MomoTransfer ''x'' (to_fixed_str 2 demo_net_amount) ''KES'' ''254'' (pl_key (demo_row h))],
      py_reports := py_reports (demo_middle h) @ []\<rparr>)"
    by (rule dispatched [OF _ demo_dispatch, where now = 9 and res = res]) (simp_all add: demo_middle_def fin)
  then show "pay_step (demo_env h) (demo_middle h) (demo_end h)" by (simp add: demo_middle_def demo_end_def)
qed

text \<open>A digest that looks at the first letter of the status only.\<close>

definition demo_digest :: "string \<Rightarrow> string" where
  "demo_digest m = replicate 64 (if ''|gnidnep|'' = take 9 (drop 24 (rev m)) then CHR ''0'' else CHR ''f'')"

lemma demo_created: "iso_string 0 = ''1970-01-01T00:00:00.000Z''" by code_simp

lemma demo_at_start:
  "py_clock demo_start \<le> pn_quoted demo_nonce" "fresh (pn_rate demo_nonce) (pd_fx (py_db demo_start))"
  "pay_quote (demo_env h) demo_net demo_nonce demo_agent (pd_fx (py_db demo_start)) = (Inr demo_quote, demo_quoted)"
  by (simp_all add: demo_start_def demo_nonce_def demo_db_def demo_fresh demo_pays [unfolded demo_nonce_def])

definition demo_poorer :: pay_agent where "demo_poorer = demo_agent\<lparr>pa_balance := fsub (pa_balance demo_agent) (q_usd demo_quote)\<rparr>"
definition demo_nonce2 :: pay_nonce where "demo_nonce2 = demo_nonce\<lparr>pn_rate := ''r2'', pn_conv := ''c2'', pn_log := ''l2'', pn_quoted := 8\<rparr>"

definition demo_net_amount2 :: rat where
  "demo_net_amount2 = (let x = local_amount (conversion_of demo_rate (disbursable 15) ''KES'' 8) in parse_fixed 2 (fsub x (parse_fixed 2 (fmul x (percent 5)))))"

lemma demo_amount2: "disbursable 15 = 51 / 4" by code_simp

lemma demo_bounds2: "10 \<le> demo_net_amount2 \<and> demo_net_amount2 \<le> 150000 \<and> 0 < disbursable 15 \<and> disbursable 15 < 85"
proof -
  have "in_limits demo_net_amount2" by code_simp
  then show ?thesis by (simp add: in_limits_def demo_amount2)
qed

lemma demo_pays_again:
  "\<exists>q fx. pay_quote (demo_env id) demo_net demo_nonce2 demo_poorer (pd_fx (demo_locked id)) = (Inr q, fx) \<and> q_usd q = disbursable 15 \<and> q_method q = Momo"
proof -
  have sel: "agent_country demo_poorer = ''ke''" "pa_kyc demo_poorer = ''standard''" "pa_method demo_poorer = Some ''momo''"
    "pa_balance demo_poorer = 15" "pcfg (demo_env id) = demo_config" "pn_rate demo_nonce2 = ''r2''" "pn_conv demo_nonce2 = ''c2''"
    "pn_quoted demo_nonce2 = 8"
    by (simp_all add: demo_agent_def agent_country_def demo_env_def demo_nonce2_def demo_poorer_def demo_quote_def demo_left)
  have ke: "cr_currency requirement_KE = ''KES''" "cr_wht requirement_KE = percent 5" "cr_kyc requirement_KE = Standard"
    "getMethodConfig ''ke'' Momo = Inr \<lparr>pm_method = Momo, pm_gateway = ''mpesa'', pm_min = 10, pm_max = 150000, pm_fields = [''momo_number'']\<rparr>"
    by (simp_all add: getMethodConfig_def demo_country requirement_KE_def)
  have "getRate demo_config demo_net ''r2'' 8 ''KES'' x (pd_fx (demo_locked id)) = (Inr demo_rate, pd_fx (demo_locked id))" for x
    by (simp add: getRate_def getCachedRate_def demo_locked_def demo_quoted_def demo_fetched_def persistRateToDb_def setCachedRate_def
        demo_empty_def demo_rate_def new_rate_def)
  moreover obtain fx where "writeConversionLog ''c2'' (conversion_of demo_rate (disbursable 15) ''KES'' 8) None (pd_fx (demo_locked id)) = Inr fx"
    by (simp add: writeConversionLog_def conversion_of_def demo_locked_def demo_quoted_def demo_fetched_def persistRateToDb_def setCachedRate_def
        demo_empty_def demo_rate_def new_rate_def)
  ultimately have c: "convertUsd demo_config demo_net ''r2'' ''c2'' 8 (disbursable 15) ''KES'' None (pd_fx (demo_locked id))
      = (Inr (conversion_of demo_rate (disbursable 15) ''KES'' 8), fx)"
    by (simp add: convertUsd_def)
  show ?thesis
    unfolding pay_quote_def sel demo_country sum.case
    using demo_bounds2
    by (simp add: kyc_of_def meetsKycRequirement_def demo_country ke method_of_def c SWEEP_HARD_CAP_USD_def demo_net_amount2_def Let_def)
qed

end
