(* ===== verification/PayoutProps.thy ===== *)
theory PayoutProps
  imports PayoutSystem Decimal PayoutDemo
begin

section \<open>What the payouts guarantee, and what they do not\<close>

subsection \<open>Rounding of amounts\<close>

lemma near: "\<bar>x\<bar> \<le> 1000000 \<Longrightarrow> \<bar>rnd x - x\<bar> \<le> 1 / 1000000"
proof -
  assume "\<bar>x\<bar> \<le> 1000000"
  then have "\<bar>rnd x - x\<bar> \<le> err_rel * 1000000 + err_abs" by (rule rnd_near)
  moreover have "err_rel * 1000000 + err_abs \<le> 1 / 1000000" by (simp add: err_rel_def err_abs_def)
  ultimately show ?thesis by linarith
qed

lemma near_one: "\<bar>x\<bar> \<le> 1 \<Longrightarrow> \<bar>rnd x - x\<bar> \<le> 1 / 1000000000000"
proof -
  assume "\<bar>x\<bar> \<le> 1"
  then have "\<bar>rnd x - x\<bar> \<le> err_rel * 1 + err_abs" by (rule rnd_near)
  moreover have "err_rel * 1 + err_abs \<le> 1 / 1000000000000" by (simp add: err_rel_def err_abs_def)
  ultimately show ?thesis by linarith
qed

lemma cents_near:
  assumes "0 \<le> y" "y \<le> 100000"
  shows "\<bar>parse_fixed 2 y - y\<bar> \<le> 5001 / 1000000"
proof -
  let ?v = "of_int (js_round (y * 10 ^ 2)) / 10 ^ 2 :: rat"
  have p: "parse_fixed 2 y = rnd ?v" using assms by (simp add: parse_fixed_def to_fixed_val_def)
  have "of_int (js_round (y * 10 ^ 2)) \<le> y * 10 ^ 2 + 1 / 2" "y * 10 ^ 2 - 1 / 2 \<le> of_int (js_round (y * 10 ^ 2))"
    unfolding js_round_def by linarith+
  then have v: "?v \<le> y + 1 / 200" "y - 1 / 200 \<le> ?v" by (simp_all add: field_simps)
  then have "\<bar>?v\<bar> \<le> 1000000" using assms unfolding abs_le_iff by (intro conjI; linarith)
  from near [OF this] v show ?thesis unfolding p abs_le_iff by (intro conjI; linarith)
qed

lemma kept_share: "\<bar>fsub 1 RESERVE_FRACTION - 85 / 100\<bar> \<le> 2 / 1000000000000"
proof -
  have r: "\<bar>RESERVE_FRACTION - 15 / 100\<bar> \<le> 1 / 1000000000000" unfolding RESERVE_FRACTION_def by (rule near_one) simp
  then have "\<bar>1 - RESERVE_FRACTION\<bar> \<le> 1" unfolding abs_le_iff by (intro conjI; linarith)
  from near_one [OF this] r show ?thesis unfolding fsub_def abs_le_iff by (intro conjI; linarith)
qed

lemma disbursable_near:
  assumes "0 \<le> b" "b \<le> 60000"
  shows "\<bar>disbursable b - b * (85 / 100)\<bar> \<le> 6 / 1000"
proof -
  let ?c = "fsub 1 RESERVE_FRACTION"
  have "b * \<bar>?c - 85 / 100\<bar> \<le> 60000 * (2 / 1000000000000)" using assms kept_share by (intro mult_mono) simp_all
  moreover have "\<bar>b * ?c - b * (85 / 100)\<bar> = b * \<bar>?c - 85 / 100\<bar>"
    unfolding right_diff_distrib [symmetric] abs_mult using assms(1) by simp
  ultimately have a: "\<bar>b * ?c - b * (85 / 100)\<bar> \<le> 2 / 10000000" by simp
  have m: "0 \<le> b * (85 / 100)" "b * (85 / 100) \<le> 51000" using assms by simp_all
  then have "\<bar>b * ?c\<bar> \<le> 1000000" using a unfolding abs_le_iff by (intro conjI; linarith)
  from near [OF this] have f: "\<bar>fmul b ?c - b * ?c\<bar> \<le> 1 / 1000000" by (simp add: fmul_def)
  have "0 \<le> ?c" using kept_share unfolding abs_le_iff by linarith
  then have "0 \<le> fmul b ?c" using assms(1) by (intro fmul_nonneg)
  moreover have "fmul b ?c \<le> 100000" using f a m unfolding abs_le_iff by linarith
  ultimately have "\<bar>disbursable b - fmul b ?c\<bar> \<le> 5001 / 1000000" unfolding disbursable_def by (rule cents_near)
  with f a show ?thesis unfolding abs_le_iff by (intro conjI; linarith)
qed

text \<open>What remains after a payout gives a smaller amount.\<close>

lemma disbursable_shrinks:
  assumes "1 \<le> b" "b \<le> 60000"
  shows "disbursable (fsub b (disbursable b)) < disbursable b"
proof -
  have d: "\<bar>disbursable b - b * (85 / 100)\<bar> \<le> 6 / 1000" using assms by (intro disbursable_near) simp_all
  let ?x = "b - disbursable b"
  have x: "b * (15 / 100) - 6 / 1000 \<le> ?x" "?x \<le> b * (15 / 100) + 6 / 1000" using d unfolding abs_le_iff by linarith+
  have "\<bar>?x\<bar> \<le> 1000000" using x assms unfolding abs_le_iff by (intro conjI; linarith)
  from near [OF this] have r: "\<bar>fsub b (disbursable b) - ?x\<bar> \<le> 1 / 1000000" by (simp add: fsub_def)
  have "0 \<le> fsub b (disbursable b)" using r x assms unfolding abs_le_iff by linarith
  moreover have "fsub b (disbursable b) \<le> 60000" using r x assms unfolding abs_le_iff by linarith
  ultimately have "\<bar>disbursable (fsub b (disbursable b)) - fsub b (disbursable b) * (85 / 100)\<bar> \<le> 6 / 1000"
    by (rule disbursable_near)
  with d r x assms show ?thesis unfolding abs_le_iff by linarith
qed

lemma parse_fixed_large: "10 ^ 9 \<le> y \<Longrightarrow> (10 ^ 9 :: rat) \<le> parse_fixed 2 y"
proof -
  assume y: "10 ^ 9 \<le> y"
  have t: "rnd (10 ^ 9) = 10 ^ 9" using rnd_of_int [of "10 ^ 9"] by simp
  have "(10 ^ 9 :: rat) \<le> to_fixed_val 2 y"
  proof (cases "10 ^ 21 \<le> y")
    case True
    then show ?thesis using y by (simp add: to_fixed_val_def)
  next
    case False
    have "js_round (10 ^ 11) \<le> js_round (y * 10 ^ 2)" using y by (intro js_round_mono) simp
    moreover have "js_round (10 ^ 11) = 10 ^ 11" unfolding js_round_def by (rule floor_unique) simp_all
    ultimately have "(of_int (10 ^ 11) :: rat) \<le> of_int (js_round (y * 10 ^ 2))" by (simp only: of_int_le_iff)
    then show ?thesis using y False by (simp add: to_fixed_val_def abs_if)
  qed
  from rnd_mono [OF this] t show ?thesis by (simp add: parse_fixed_def)
qed

lemma amount_prints:
  assumes "q = parse_fixed 2 y" "0 < q" "q < 10 ^ 9"
  shows "str_to_num (to_fixed_str 2 q) = Fin q"
proof -
  have "0 \<le> y"
  proof (rule ccontr)
    assume neg: "\<not> 0 \<le> y"
    have "to_fixed_val 2 y \<le> 0" using neg js_round_nonneg [of "- y * 10 ^ 2"] by (auto simp: to_fixed_val_def abs_if not_le)
    then have "parse_fixed 2 y \<le> 0" using rnd_mono [of "to_fixed_val 2 y" 0] by (simp add: parse_fixed_def)
    with assms show False by simp
  qed
  moreover have "y < 10 ^ 9" using parse_fixed_large [of y] assms by (intro not_le_imp_less notI) simp
  ultimately show ?thesis
    using fixed_prints_back [of y 2] fixed_reads_back [of y 2] assms(1) by simp
qed

subsection \<open>Hexadecimal digests\<close>

text \<open>What \<open>digest("hex")\<close> promises: 64 lower-case hexadecimal digits.\<close>

definition hex_digests :: "pay_env \<Rightarrow> bool" where
  "hex_digests e \<longleftrightarrow> (\<forall>m. length (ph e m) = 64 \<and> set (ph e m) \<subseteq> hex_chars)"

subsection \<open>The properties\<close>

text \<open>
  C8: No payout is sent twice, however sweeps overlap. In every reachable state of any number of
  interleaved sweeps, with stale agent records, settlements and edits in between, every request for
  money that reached a provider carries a key of its own and matches a log row in amount, currency
  and method; keys and ids are unique; and no balance is negative.\<close>

theorem payout_at_most_once:
  assumes "reach pay_init (pay_step e) s"
  shows "distinct (map call_key (py_calls s))
    \<and> (\<forall>c \<in> set (py_calls s). \<exists>r \<in> set (pd_logs (py_db s)). call_matches c r \<and> 0 < pl_amount r \<and> pl_amount r \<le> SWEEP_HARD_CAP_USD)
    \<and> distinct (map pl_key (pd_logs (py_db s))) \<and> distinct (map pl_id (pd_logs (py_db s)))
    \<and> (\<forall>a \<in> set (pd_agents (py_db s)). 0 \<le> pa_balance a)"
proof -
  have inv: "pay_inv e s" by (rule pay.reach_inv [OF assms])
  then have f: "flight_good (map frozen (pd_logs (py_db s))) (py_flight s) (py_calls s)"
    and l: "logs_good e (pd_fx (py_db s)) (map frozen (pd_logs (py_db s)))" and a: "solvent (pd_agents (py_db s))"
    by (simp_all add: pay_inv_def)
  have m: "call_matches c (frozen r) = call_matches c r" for c r by (cases c) (simp_all add: call_matches_def)
  have "\<exists>r \<in> set (pd_logs (py_db s)). call_matches c r \<and> 0 < pl_amount r \<and> pl_amount r \<le> SWEEP_HARD_CAP_USD"
    if "c \<in> set (py_calls s)" for c
  proof -
    from f that have "\<exists>r \<in> set (map frozen (pd_logs (py_db s))). call_matches c r" unfolding flight_good_def by blast
    then obtain r where r: "r \<in> set (pd_logs (py_db s))" "call_matches c (frozen r)" by auto
    moreover have "row_good e (pd_fx (py_db s)) (frozen r)" using l r(1) by (simp add: logs_good_def)
    ultimately show ?thesis using m by (auto simp: row_good_def)
  qed
  moreover have "map pl_key (pd_logs (py_db s)) = map pl_key (map frozen (pd_logs (py_db s)))"
    "map pl_id (pd_logs (py_db s)) = map pl_id (map frozen (pd_logs (py_db s)))" by simp_all
  ultimately show ?thesis using f l a by (simp only: flight_good_def logs_good_def solvent_def distinct_append) blast
qed

theorem payout_at_most_once_witness:
  "\<exists>e s r. reach pay_init (pay_step e) s \<and> pd_logs (py_db s) = [r] \<and> map call_key (py_calls s) = [pl_key r] \<and> 0 < pl_amount r"
proof -
  from payout_at_most_once [OF demo_end_reach [of id]]
  have "\<exists>r \<in> set (pd_logs (py_db (demo_end id))). 0 < pl_amount r" by (simp add: demo_end_def)
  then have "0 < pl_amount (demo_settled id)" by (simp add: demo_end_def demo_locked_def)
  then show ?thesis using demo_end_reach [of id]
    by (intro exI [of _ "demo_env id"] exI [of _ "demo_end id"] exI [of _ "demo_settled id"])
      (simp add: demo_end_def demo_locked_def demo_settled_def)
qed

text \<open>
  The integrity audit flags every payout that made progress. The signature of a row covers the
  status pending and is never renewed, so in every reachable state the audit of a tenant returns
  exactly its rows whose status is no longer pending, settled ones included, provided the digest
  tells the two payloads of a row apart; the documentation says that an empty list means no
  tampering.\<close>

theorem audit_flags_progress:
  assumes "reach pay_init (pay_step e) s" "hex_digests e"
    and "\<And>r. r \<in> set (pd_logs (py_db s)) \<Longrightarrow> pl_status r \<noteq> P_pending \<Longrightarrow>
      signPayoutEntry e (pl_key r) (pl_agent r) (pl_amount r) (pl_local r) (pl_currency r) (pl_effective r) (pl_status r) (pl_created r)
      \<noteq> signPayoutEntry e (pl_key r) (pl_agent r) (pl_amount r) (pl_local r) (pl_currency r) (pl_effective r) P_pending (pl_created r)"
  shows "auditPayoutLogIntegrity e t (py_db s) = filter (\<lambda>r. pl_tenant r = t \<and> pl_status r \<noteq> P_pending) (pd_logs (py_db s))"
proof -
  have "pay_inv e s" by (rule pay.reach_inv [OF assms(1)])
  then have good: "signed_row e r" if "r \<in> set (pd_logs (py_db s))" for r
  proof -
    have "row_good e (pd_fx (py_db s)) (frozen r)" using \<open>pay_inv e s\<close> that by (simp add: pay_inv_def logs_good_def)
    then show ?thesis by (simp add: row_good_def signed_row_def)
  qed
  have "verifyPayoutSignature e r \<longleftrightarrow> pl_status r = P_pending" if r: "r \<in> set (pd_logs (py_db s))" for r
  proof (cases "pl_status r = P_pending")
    case True
    then show ?thesis using good [OF r] by (simp add: verifyPayoutSignature_def signed_row_def)
  next
    case False
    have "hex_bytes (ph e x) = hex_bytes (ph e y) \<Longrightarrow> ph e x = ph e y" for x y
      by (rule hex_bytes_inj) (use assms(2) in \<open>auto simp: hex_digests_def\<close>)
    then show ?thesis using False assms(3) [OF r False] good [OF r]
      by (auto simp: verifyPayoutSignature_def signed_row_def signPayoutEntry_def)
  qed
  then show ?thesis unfolding auditPayoutLogIntegrity_def filter_filter by (intro filter_cong) auto
qed

theorem audit_flags_progress_witness:
  "\<exists>e s. reach pay_init (pay_step e) s \<and> hex_digests e \<and> map pl_status (auditPayoutLogIntegrity e ''t'' (py_db s)) = [P_success]"
proof (intro exI conjI)
  show "reach pay_init (pay_step (demo_env demo_digest)) (demo_end demo_digest)" by (rule demo_end_reach)
  show hex: "hex_digests (demo_env demo_digest)"
    by (simp add: hex_digests_def demo_env_def demo_digest_def hex_chars_def)
  have sel: "pd_logs (py_db (demo_end demo_digest)) = [demo_settled demo_digest]" "pl_status (demo_settled demo_digest) = P_success"
    "pl_tenant (demo_settled demo_digest) = ''t''" "pl_created (demo_settled demo_digest) = 0"
    by (simp_all add: demo_end_def demo_locked_def demo_settled_def demo_row_def new_payout_row_def demo_agent_def demo_nonce_def)
  have digest: "signPayoutEntry (demo_env demo_digest) k i a l c r P_success 0 \<noteq> signPayoutEntry (demo_env demo_digest) k i a l c r P_pending 0" for k i a l c r
    by (simp add: signPayoutEntry_def sign_payload_def demo_env_def demo_digest_def demo_created)
  have "auditPayoutLogIntegrity (demo_env demo_digest) ''t'' (py_db (demo_end demo_digest))
      = filter (\<lambda>r. pl_tenant r = ''t'' \<and> pl_status r \<noteq> P_pending) (pd_logs (py_db (demo_end demo_digest)))"
    by (rule audit_flags_progress [OF demo_end_reach hex]) (use digest in \<open>simp add: sel\<close>)
  then show "map pl_status (auditPayoutLogIntegrity (demo_env demo_digest) ''t'' (py_db (demo_end demo_digest))) = [P_success]"
    by (simp add: sel)
qed

text \<open>
  C9: Every payout row goes back to a stored exchange rate: the payouts drive the exchange module only
  through its own operations, and in every reachable state the net amount of a row is the recorded
  dollar amount at the effective rate of the stored rate it names, rounded, less the recorded
  tax; no row is in dollars, since a conversion to dollars always fails.\<close>

theorem payouts_traceable:
  assumes "reach pay_init (pay_step e) s" "r \<in> set (pd_logs (py_db s))"
  shows "reach fx_init fx_step\<^sup>*\<^sup>* (pd_fx (py_db s), py_clock s)
    \<and> pl_currency r \<noteq> ''USD''
    \<and> (\<exists>x \<in> set (fx_rate_cache (pd_fx (py_db s))). rate_id x = pl_rate r \<and> target x = pl_currency r
        \<and> pl_effective r = effective (mid_rate x) (spread_fraction x) \<and> 0 < mid_rate x
        \<and> pl_local r = parse_fixed 2 (fsub (roundLocalAmount (fmul (pl_amount r) (pl_effective r)) (pl_currency r)) (pl_wht r)))"
proof -
  have "pay_inv e s" by (rule pay.reach_inv [OF assms(1)])
  then have fxi: "fx_inv (pd_fx (py_db s), py_clock s)" and good: "row_good e (pd_fx (py_db s)) (frozen r)"
    using assms(2) by (simp_all add: pay_inv_def logs_good_def)
  then obtain w where w: "w \<in> set (fx_conversion_log (pd_fx (py_db s)))" "log_rate_id w = pl_rate r"
    "amount_usd (conversion w) = pl_amount r" "local_currency (conversion w) = pl_currency r" "c_effective_rate (conversion w) = pl_effective r"
    "pl_local r = parse_fixed 2 (fsub (local_amount (conversion w)) (pl_wht r))" "pl_currency r \<noteq> ''USD''"
    by (auto simp: row_good_def traced_def)
  obtain x where x: "x \<in> set (fx_rate_cache (pd_fx (py_db s)))" "rate_id x = log_rate_id w"
    "conversion w = conversion_of x (amount_usd (conversion w)) (target x) (converted_at (conversion w))"
    using fxi w(1) by (auto simp: fx_inv_def row_ok_def)
  have "good_rate x" using fxi x(1) by (simp add: fx_inv_def)
  moreover have "local_amount (conversion w) = roundLocalAmount (fmul (amount_usd (conversion w)) (effective_rate x)) (target x)"
    "local_currency (conversion w) = target x" "c_effective_rate (conversion w) = effective_rate x"
    by (subst x(3), simp add: conversion_of_def)+
  ultimately show ?thesis using w x(1,2) pay.refines [OF assms(1)] by (auto simp: good_rate_def)
qed

theorem payouts_traceable_witness:
  "\<exists>e s r. reach pay_init (pay_step e) s \<and> pd_logs (py_db s) = [r] \<and> pl_currency r = ''KES''
    \<and> (\<exists>x \<in> set (fx_rate_cache (pd_fx (py_db s))). rate_id x = pl_rate r \<and> 0 < mid_rate x)"
proof -
  have "demo_row id \<in> set (pd_logs (py_db (demo_middle id)))" by (simp add: demo_middle_def demo_locked_def)
  from payouts_traceable [OF demo_middle_reach this]
  have "\<exists>x \<in> set (fx_rate_cache (pd_fx (py_db (demo_middle id)))). rate_id x = pl_rate (demo_row id) \<and> 0 < mid_rate x" by blast
  moreover have "pl_currency (demo_row id) = ''KES''" by (simp add: demo_row_def new_payout_row_def demo_quote_def requirement_KE_def)
  ultimately show ?thesis using demo_middle_reach [of id]
    by (intro exI [of _ "demo_env id"] exI [of _ "demo_middle id"] exI [of _ "demo_row id"]) (simp add: demo_middle_def demo_locked_def)
qed

lemma parse_fixed_floor:
  assumes "of_int m \<le> y" "0 \<le> m" "m \<le> 2 ^ 53"
  shows "of_int m \<le> parse_fixed 2 y"
proof -
  have "of_int m \<le> to_fixed_val 2 y"
  proof (cases "10 ^ 21 \<le> y")
    case True
    then show ?thesis using assms by (simp add: to_fixed_val_def)
  next
    case False
    have "(of_int m :: rat) * 10 ^ 2 \<le> y * 10 ^ 2" using assms(1) by (intro mult_right_mono) simp_all
    then have "js_round (of_int m * 10 ^ 2) \<le> js_round (y * 10 ^ 2)" by (rule js_round_mono)
    moreover have "js_round (of_int m * 10 ^ 2) = m * 10 ^ 2" unfolding js_round_def by (rule floor_unique) simp_all
    ultimately have "(of_int (m * 10 ^ 2) :: rat) \<le> of_int (js_round (y * 10 ^ 2))" by (simp only: of_int_le_iff)
    moreover have "0 \<le> y" using assms(1,2) by (meson of_int_0_le_iff order_trans)
    ultimately show ?thesis using False by (simp add: to_fixed_val_def abs_if)
  qed
  from rnd_mono [OF this] show ?thesis using rnd_of_int [of m] assms(2,3) by (simp add: parse_fixed_def)
qed

lemma cap_bounds_balance: "disbursable b \<le> SWEEP_HARD_CAP_USD \<Longrightarrow> b < 60000"
proof (rule ccontr)
  assume cap: "disbursable b \<le> SWEEP_HARD_CAP_USD" and "\<not> b < 60000"
  then have b: "60000 \<le> b" by simp
  let ?c = "fsub 1 RESERVE_FRACTION"
  have c: "84 / 100 \<le> ?c" using kept_share unfolding abs_le_iff by linarith
  have "60000 * (84 / 100) \<le> b * ?c" using b c by (intro mult_mono) simp_all
  then have "rnd (of_int 50400) \<le> fmul b ?c" unfolding fmul_def by (intro rnd_mono) simp
  then have "of_int 50400 \<le> fmul b ?c" using rnd_of_int [of 50400] by simp
  then have "of_int 50400 \<le> disbursable b" unfolding disbursable_def by (rule parse_fixed_floor) simp_all
  with cap show False by (simp add: SWEEP_HARD_CAP_USD_def)
qed

text \<open>
  C11: What the sweep is willing to pay. A quote exists only for a supported country and method and a
  sufficient KYC tier; its amount is positive, at most the cap and within six tenths of a cent of
  85 per cent of the balance, so the reserve stays; the net local amount is the converted amount
  less tax and lies within the limits of the method; the currency is never the dollar.\<close>

theorem quote_within_limits:
  assumes "reach pay_init (pay_step e) s" "py_clock s \<le> pn_quoted n" "fresh (pn_rate n) (pd_fx (py_db s))"
    and "pay_quote e net n a (pd_fx (py_db s)) = (Inr q, fx)" "0 \<le> pa_balance a"
  shows "0 < q_usd q \<and> q_usd q \<le> 50000 \<and> \<bar>q_usd q - pa_balance a * (85 / 100)\<bar> \<le> 6 / 1000
    \<and> (\<exists>c k. getCountryRequirement (agent_country a) = Inr (q_req q) \<and> getMethodConfig (agent_country a) (q_method q) = Inr c
        \<and> kyc_of (pa_kyc a) = Some k \<and> cr_kyc (q_req q) \<le> k \<and> pm_min c \<le> q_net q \<and> q_net q \<le> pm_max c)
    \<and> q_net q = parse_fixed 2 (fsub (local_amount (q_conv q)) (parse_fixed 2 (fmul (local_amount (q_conv q)) (cr_wht (q_req q)))))
    \<and> cr_currency (q_req q) \<noteq> ''USD''"
proof -
  have "fx_inv (pd_fx (py_db s), pn_quoted n)"
    using pay.reach_inv [OF assms(1)] inv_later assms(2) by (auto simp: pay_inv_def)
  from assms(4) this assms(3) show ?thesis
  proof (rule quote_good)
    fix c
    assume q: "q_usd q = disbursable (pa_balance a)" "0 < q_usd q" "q_usd q \<le> SWEEP_HARD_CAP_USD"
      and rest: "getCountryRequirement (agent_country a) = Inr (q_req q)" "getMethodConfig (agent_country a) (q_method q) = Inr c"
        "\<exists>k. kyc_of (pa_kyc a) = Some k \<and> cr_kyc (q_req q) \<le> k" "pm_min c \<le> q_net q" "q_net q \<le> pm_max c"
        "q_wht q = parse_fixed 2 (fmul (local_amount (q_conv q)) (cr_wht (q_req q)))"
        "q_net q = parse_fixed 2 (fsub (local_amount (q_conv q)) (q_wht q))" "cr_currency (q_req q) \<noteq> ''USD''"
    have "pa_balance a < 60000" using q by (intro cap_bounds_balance) simp
    then have "\<bar>q_usd q - pa_balance a * (85 / 100)\<bar> \<le> 6 / 1000"
      unfolding q(1) using assms(5) by (intro disbursable_near) simp_all
    with q rest show ?thesis by (simp add: SWEEP_HARD_CAP_USD_def)
  qed
qed

theorem quote_within_limits_witness:
  "q_usd demo_quote \<le> 50000 \<and> \<bar>q_usd demo_quote - 100 * (85 / 100)\<bar> \<le> 6 / 1000 \<and> cr_currency (q_req demo_quote) \<noteq> ''USD''"
  using quote_within_limits [OF demo_start_reach demo_at_start] by (simp add: demo_agent_def)

text \<open>
  C26: The amounts that leave the system as text come back unchanged: reading the decimal text of the dollar
  amount (in the idempotency key and the signature) or of the net local amount (in the request to
  the mobile money provider) gives the very double that the log row stores.\<close>

theorem amounts_read_back:
  assumes "reach pay_init (pay_step e) s" "py_clock s \<le> pn_quoted n" "fresh (pn_rate n) (pd_fx (py_db s))"
    and "pay_quote e net n a (pd_fx (py_db s)) = (Inr q, fx)"
  shows "str_to_num (to_fixed_str 2 (q_usd q)) = Fin (q_usd q) \<and> str_to_num (to_fixed_str 2 (q_net q)) = Fin (q_net q)"
proof -
  have "fx_inv (pd_fx (py_db s), pn_quoted n)"
    using pay.reach_inv [OF assms(1)] inv_later assms(2) by (auto simp: pay_inv_def)
  from assms(4) this assms(3) show ?thesis
  proof (rule quote_good)
    fix c
    assume usd: "q_usd q = disbursable (pa_balance a)" "0 < q_usd q" "q_usd q \<le> SWEEP_HARD_CAP_USD"
      and c: "getMethodConfig (agent_country a) (q_method q) = Inr c" "pm_min c \<le> q_net q" "q_net q \<le> pm_max c"
      and net: "q_net q = parse_fixed 2 (fsub (local_amount (q_conv q)) (q_wht q))"
    have "str_to_num (to_fixed_str 2 (q_usd q)) = Fin (q_usd q)"
      by (rule amount_prints [OF usd(1) [unfolded disbursable_def]]) (use usd in \<open>simp_all add: SWEEP_HARD_CAP_USD_def\<close>)
    moreover have "str_to_num (to_fixed_str 2 (q_net q)) = Fin (q_net q)"
    proof (rule amount_prints [OF net])
      show "0 < q_net q" using c method_found(2) [OF c(1)] by linarith
      have "q_net q < 1000000000" using c method_found(4) [OF c(1)] by linarith
      then show "q_net q < 10 ^ 9" by simp
    qed
    ultimately show ?thesis ..
  qed
qed

theorem amounts_read_back_witness:
  "str_to_num (to_fixed_str 2 (q_usd demo_quote)) = Fin 85 \<and> str_to_num (to_fixed_str 2 (q_net demo_quote)) = Fin demo_net_amount"
  using amounts_read_back [OF demo_start_reach demo_at_start] by (simp add: demo_quote_def)

text \<open>
  Agents in the United States are never paid. The only country that settles in dollars needs a
  conversion from dollars to dollars, which always fails, so every sweep reports these agents
  as failed.\<close>

theorem us_agents_never_paid:
  assumes "reach pay_init (pay_step e) s" "py_clock s \<le> pn_quoted n" "fresh (pn_rate n) (pd_fx (py_db s))"
    and "to_upper (agent_country a) = ''US''"
  shows "\<exists>res. fst (processAgentPayout e net n pv a day (py_db s)) = res \<and> rs_status res = P_failed
    \<and> pd_agents (snd (snd (processAgentPayout e net n pv a day (py_db s)))) = pd_agents (py_db s)
    \<and> pd_logs (snd (snd (processAgentPayout e net n pv a day (py_db s)))) = pd_logs (py_db s)"
proof -
  have inv: "fx_inv (pd_fx (py_db s), pn_quoted n)"
    using pay.reach_inv [OF assms(1)] inv_later assms(2) by (auto simp: pay_inv_def)
  obtain out fx where q: "pay_quote e net n a (pd_fx (py_db s)) = (out, fx)" by fastforce
  have "\<exists>res. out = Inl res \<and> rs_status res = P_failed"
  proof (cases out)
    case (Inr q')
    have False
      using q [unfolded Inr] inv assms(3)
    proof (rule quote_good)
      assume "getCountryRequirement (agent_country a) = Inr (q_req q')" "cr_currency (q_req q') \<noteq> ''USD''"
      then show False using usd_country assms(4) by blast
    qed
    then show ?thesis ..
  next
    case (Inl res)
    have "rs_status res = P_failed"
      by (cases rule: quote_cases [of e net n a "pd_fx (py_db s)"]) (use q Inl in \<open>auto simp: failResult_def split: if_splits\<close>)
    then show ?thesis using Inl by blast
  qed
  then show ?thesis using q by (auto simp: processAgentPayout_def)
qed

theorem us_agents_never_paid_witness:
  "rs_status (fst (processAgentPayout (demo_env id) demo_net demo_nonce demo_fixer (demo_agent\<lparr>pa_country := Some ''us''\<rparr>) 0 demo_db)) = P_failed"
proof -
  have "to_upper (agent_country (demo_agent\<lparr>pa_country := Some ''us''\<rparr>)) = ''US''" by (simp add: agent_country_def) code_simp
  from us_agents_never_paid [OF demo_start_reach demo_at_start(1,2) this, of "demo_env id"]
  show ?thesis by (simp add: demo_start_def)
qed

lemma find_log_mark: "find_log k (mark_filed i d) = map_option (\<lambda>x. if pl_id x = i then x\<lparr>pl_filed := True\<rparr> else x) (find_log k d)"
  unfolding find_log_def mark_filed_def by (simp add: find_update_where_any)

text \<open>
  C10: What becomes of the money. Once the row is locked, an exception on the way to the provider gives
  the amount back to the agent, although the provider may have accepted the transfer; but a transfer
  that mobile money reports as failed does not: the row says failed, the agent stays debited and no
  code returns the amount. Reports are made for exactly the thresholds that the net amount
  reaches, and the row is marked as reported even when there is none.\<close>

theorem payout_outcome:
  assumes "pay_quote e net n a (pd_fx db) = (Inr q, fx)" "pay_lock e n a day q (db\<lparr>pd_fx := fx\<rparr>) = (Inr r, db1)"
    and "getCountryRequirement (agent_country a) = Inr (q_req q)"
    and "dispatch n pv a q (pl_key r) = (out, calls)" "processAgentPayout e net n pv a day db = (res, reps, db2)"
  shows "rs_status res = (case out of Inl x \<Rightarrow> P_failed | Inr (ref, st, why) \<Rightarrow> st)
    \<and> pd_agents db2 = (case out of
          Inl x \<Rightarrow> pd_agents (restore (pa_id a) (q_usd q) (debit (pa_id a) (q_usd q) db))
        | Inr _ \<Rightarrow> pd_agents (debit (pa_id a) (q_usd q) db))
    \<and> (\<exists>x. find_log (pl_key r) db2 = Some x \<and> pl_status x = rs_status res \<and> pl_filed x = initiated res)
    \<and> map rp_threshold reps = (if initiated res then filter (\<lambda>t. th_amount t \<le> q_net q) (cr_thresholds (q_req q)) else [])"
proof (cases rule: lock_cases [of e a day q "db\<lparr>pd_fx := fx\<rparr>" n])
  case (locked b)
  then have r: "r = new_payout_row e n a day q" and db1: "pd_agents db1 = pd_agents (debit (pa_id a) (q_usd q) db)"
    "pd_logs db1 = pd_logs db @ [r]"
    using assms(2) by (auto simp: debit_def)
  have sel: "pl_status r = P_pending" "pl_filed r = False" "pl_key r = quote_key e a day q" "pl_id r = pn_log n" "pl_created r = pn_created n"
    by (simp_all add: r new_payout_row_def)
  have nokey: "List.find (\<lambda>x. pl_key x = pl_key r) (pd_logs db) = None"
    using locked(1) by (simp add: find_log_def sel)
  have upd: "find_log (pl_key r) (update_log (pl_key r) st ref why now d)
      = Some (r\<lparr>pl_status := st, pl_reference := ref, pl_reason := why, pl_settled := (if st = P_success then Some now else None)\<rparr>)"
    if "pd_logs d = pd_logs db @ [r]" for st ref why now d
  proof -
    have "List.find (\<lambda>x. pl_key x = pl_key r) (pd_logs db @ [r]) = Some r" using nokey by (simp add: find_append)
    then show ?thesis using that
      by (simp add: find_log_def update_log_def find_update_where del: update_where_simps)
  qed
  have fin: "pay_finish a q r (pn_settled n) out db1 = (res, reps, db2)"
    using assms(5) by (simp add: processAgentPayout_def assms(1,2,4))
  have rep: "getBreachedThresholds (agent_country a) x = Inr (filter (\<lambda>t. th_amount t \<le> x) (cr_thresholds (q_req q)))" for x
    using assms(3) by (simp add: getBreachedThresholds_def)
  show ?thesis
  proof (cases out)
    case (Inl x)
    then have "res = res\<lparr>rs_status := P_failed\<rparr>" "reps = []" "db2 = update_log (pl_key r) P_failed None (Some (R_dispatch x)) (pn_settled n) (restore (pa_id a) (q_usd q) db1)"
      using fin by (auto simp: pay_finish_def Let_def)
    moreover have "rs_status res = P_failed" using fin Inl by (auto simp: pay_finish_def Let_def)
    ultimately show ?thesis using Inl db1 upd sel(1,2) by (simp add: restore_def initiated_def)
  next
    case (Inr y)
    obtain ref st why where y: "y = (ref, st, why)" by (cases y)
    have st: "st \<in> {P_processing, P_success, P_failed}" using dispatch_status assms(4) Inr y by blast
    have res: "rs_status res = st" using fin Inr y by (auto simp: pay_finish_def Let_def split: prod.splits)
    show ?thesis
    proof (cases "st = P_failed")
      case True
      then have "reps = []" "db2 = update_log (pl_key r) st ref why (pn_settled n) db1"
        using fin Inr y by (auto simp: pay_finish_def Let_def)
      then show ?thesis using Inr y res True db1 upd sel(1,2) by (simp add: initiated_def)
    next
      case False
      then have ok: "st = P_success \<or> st = P_processing" using st by blast
      then have "reps = map (\<lambda>t. \<lparr>rp_log = pl_id r, rp_threshold = t, rp_amount = q_net q, rp_due = pl_created r + th_hours t * 3600000\<rparr>)
            (filter (\<lambda>t. th_amount t \<le> q_net q) (cr_thresholds (q_req q)))"
        and db2: "db2 = mark_filed (pl_id r) (update_log (pl_key r) st ref why (pn_settled n) db1)"
        using fin Inr y by (auto simp: pay_finish_def Let_def fileRegulatoryReports_def rep)
      then have "map rp_threshold reps = filter (\<lambda>t. th_amount t \<le> q_net q) (cr_thresholds (q_req q))" by (simp add: comp_def)
      then show ?thesis using Inr y res ok db1 upd sel(1,2) unfolding db2
        by (simp add: find_log_mark initiated_def)
    qed
  qed
qed (use assms(2) in simp_all)

theorem payout_outcome_witness:
  "\<exists>res reps db. processAgentPayout (demo_env id) demo_net demo_nonce demo_fixer demo_agent 0 demo_db = (res, reps, db)
    \<and> rs_status res = P_success \<and> reps = [] \<and> pd_agents db = pd_agents (debit ''a'' 85 demo_db)"
proof -
  obtain res reps db where p: "processAgentPayout (demo_env id) demo_net demo_nonce demo_fixer demo_agent 0 demo_db = (res, reps, db)"
    by (cases "processAgentPayout (demo_env id) demo_net demo_nonce demo_fixer demo_agent 0 demo_db") auto
  have fx: "pd_fx demo_db = demo_empty" by (simp add: demo_db_def)
  have c: "getCountryRequirement (agent_country demo_agent) = Inr (q_req demo_quote)"
    by (simp add: agent_country_def demo_agent_def demo_country demo_quote_def)
  from payout_outcome [OF demo_pays [of id, folded fx] demo_lock c demo_dispatch p]
  have "rs_status res = P_success" "pd_agents db = pd_agents (debit (pa_id demo_agent) (q_usd demo_quote) demo_db)"
    "map rp_threshold reps = filter (\<lambda>t. th_amount t \<le> q_net demo_quote) (cr_thresholds (q_req demo_quote))"
    by (simp_all add: initiated_def)
  moreover have "filter (\<lambda>t. th_amount t \<le> q_net demo_quote) (cr_thresholds (q_req demo_quote)) = []"
    using demo_bounds by (simp add: demo_quote_def requirement_KE_def)
  ultimately show ?thesis using p by (simp add: demo_agent_def demo_quote_def)
qed

text \<open>
  Settling as failed is not guarded. Each call credits the agent again, whatever the state of the row:
  after k calls for the same key, a pending, failed or even successful payout has been
  returned k times.\<close>

theorem settle_credits_repeatedly:
  assumes "find_log key db = Some r"
  shows "pd_agents (((settlePayout key False ref why now) ^^ k) db)
    = update_where (\<lambda>a. pa_id a = pl_agent r) (\<lambda>a. a\<lparr>pa_balance := ((\<lambda>b. fadd b (pl_amount r)) ^^ k) (pa_balance a)\<rparr>) (pd_agents db)"
proof -
  have one: "find_log key (settlePayout key False ref why now d)
      = Some (x\<lparr>pl_status := P_failed, pl_reference := ref, pl_reason := why, pl_settled := None\<rparr>)
      \<and> pd_agents (settlePayout key False ref why now d)
        = update_where (\<lambda>a. pa_id a = pl_agent x) (\<lambda>a. a\<lparr>pa_balance := fadd (pa_balance a) (pl_amount x)\<rparr>) (pd_agents d)"
    if "find_log key d = Some x" for d x
  proof -
    let ?f = "\<lambda>r. r\<lparr>pl_status := P_failed, pl_reference := ref, pl_reason := why, pl_settled := None\<rparr>"
    have "List.find (\<lambda>r. pl_key r = key) (update_where (\<lambda>r. pl_key r = key) ?f (pd_logs d)) = Some (?f x)"
      using that by (simp add: find_log_def find_update_where)
    then show ?thesis by (simp add: settlePayout_def Let_def update_log_def find_log_def restore_def)
  qed
  have "\<exists>x. find_log key (((settlePayout key False ref why now) ^^ k) db) = Some x \<and> pl_agent x = pl_agent r \<and> pl_amount x = pl_amount r
    \<and> pd_agents (((settlePayout key False ref why now) ^^ k) db)
      = update_where (\<lambda>a. pa_id a = pl_agent r) (\<lambda>a. a\<lparr>pa_balance := ((\<lambda>b. fadd b (pl_amount r)) ^^ k) (pa_balance a)\<rparr>) (pd_agents db)"
  proof (induction k)
    case 0
    then show ?case using assms by (auto simp: update_where_def)
  next
    case (Suc k)
    then obtain x where x: "find_log key (((settlePayout key False ref why now) ^^ k) db) = Some x" "pl_agent x = pl_agent r" "pl_amount x = pl_amount r"
      "pd_agents (((settlePayout key False ref why now) ^^ k) db)
        = update_where (\<lambda>a. pa_id a = pl_agent r) (\<lambda>a. a\<lparr>pa_balance := ((\<lambda>b. fadd b (pl_amount r)) ^^ k) (pa_balance a)\<rparr>) (pd_agents db)" by blast
    from one [OF x(1)] x(2-4) show ?case by (simp add: update_where_def)
  qed
  then show ?thesis by blast
qed

theorem settle_credits_repeatedly_witness:
  "map pa_balance (pd_agents (((settlePayout (pl_key (demo_row id)) False None None 9) ^^ 2) (demo_locked id))) = [fadd (fadd 15 85) 85]"
proof -
  have "find_log (pl_key (demo_row id)) (demo_locked id) = Some (demo_row id)" by (simp add: find_log_def demo_locked_def)
  from settle_credits_repeatedly [OF this, where k = 2] show ?thesis
    by (simp add: demo_locked_def update_where_def demo_row_def new_payout_row_def demo_quote_def demo_agent_def numeral_2_eq_2)
qed

text \<open>
  A second sweep on the same day pays again. The idempotency key contains the amount, and the amount is a
  share of the balance: after a payout, the same agent with the remaining balance gets another
  key on the same day, so the lock succeeds and 85 per cent of the reserve is paid out, although the
  documentation says that payouts within a day are idempotent.\<close>

theorem second_sweep_pays_again:
  assumes "reach pay_init (pay_step e) s" "py_clock s \<le> pn_quoted n" "fresh (pn_rate n) (pd_fx (py_db s))"
    and quoted: "pay_quote e net n a (pd_fx (py_db s)) = (Inr q, fx)" "pay_lock e n a day q ((py_db s)\<lparr>pd_fx := fx\<rparr>) = (Inr r, db1)"
    and later: "a' = a\<lparr>pa_balance := fsub (pa_balance a) (q_usd q)\<rparr>" "a' \<in> set (pd_agents db1)" "1 \<le> pa_balance a"
    and again: "pay_quote e net' n' a' (pd_fx db1) = (Inr q', fx')" "fx_inv (pd_fx db1, pn_quoted n')" "fresh (pn_rate n') (pd_fx db1)"
      "pn_log n' \<notin> pl_id ` set (pd_logs db1)"
    and no_collision: "inj_on (ph e) {k. \<exists>amount. k = pa_id a @ '':'' @ to_fixed_str 2 amount @ '':'' @ method_str (q_method q) @ '':''
        @ agent_country a @ '':'' @ take 10 (iso_string day) \<and> (amount = q_usd q \<or> amount = q_usd q')}"
      "quote_key e a' day q' \<notin> pl_key ` set (pd_logs (py_db s))"
  shows "q_usd q' < q_usd q \<and> quote_key e a' day q' \<noteq> quote_key e a day q
    \<and> (\<exists>db2. pay_lock e n' a' day q' (db1\<lparr>pd_fx := fx'\<rparr>) = (Inr (new_payout_row e n' a' day q'), db2))"
proof -
  have inv: "fx_inv (pd_fx (py_db s), pn_quoted n)"
    using pay.reach_inv [OF assms(1)] inv_later assms(2) by (auto simp: pay_inv_def)
  have q: "q_usd q = disbursable (pa_balance a)" "0 < q_usd q" "q_usd q \<le> SWEEP_HARD_CAP_USD"
    "Option.bind (pa_method a) method_of = Some (q_method q)"
    by (rule quote_good [OF quoted(1) inv assms(3)], assumption)+
  have q': "q_usd q' = disbursable (pa_balance a')" "0 < q_usd q'" "q_usd q' \<le> SWEEP_HARD_CAP_USD"
    "Option.bind (pa_method a') method_of = Some (q_method q')"
    by (rule quote_good [OF again(1-3)], assumption)+
  have m: "q_method q' = q_method q" using q(4) q'(4) later(1) by simp
  have "pa_balance a < 60000" using q by (intro cap_bounds_balance) simp
  then have less: "q_usd q' < q_usd q" using disbursable_shrinks [of "pa_balance a"] later(1,3) q(1) q'(1) by simp
  have "Fin (q_usd q) = str_to_num (to_fixed_str 2 (q_usd q))" "Fin (q_usd q') = str_to_num (to_fixed_str 2 (q_usd q'))"
    using amount_prints [OF q(1) [unfolded disbursable_def]] amount_prints [OF q'(1) [unfolded disbursable_def]] q q'
    by (simp_all add: SWEEP_HARD_CAP_USD_def)
  then have strs: "to_fixed_str 2 (q_usd q') \<noteq> to_fixed_str 2 (q_usd q)" using less by (metis jnum.inject less_irrefl)
  have key: "quote_key e a' day q' \<noteq> quote_key e a day q"
  proof
    assume same: "quote_key e a' day q' = quote_key e a day q"
    let ?P = "\<lambda>x. pa_id a @ '':'' @ to_fixed_str 2 x @ '':'' @ method_str (q_method q) @ '':'' @ agent_country a @ '':'' @ take 10 (iso_string day)"
    have same_agent: "pa_id a' = pa_id a" "agent_country a' = agent_country a" by (simp_all add: later(1) agent_country_def)
    have "ph e (?P (q_usd q')) = ph e (?P (q_usd q))"
      using same by (simp only: quote_key_def deriveIdempotencyKey_def same_agent m)
    from no_collision(1) this have "?P (q_usd q') = ?P (q_usd q)" by (rule inj_onD) blast+
    then show False using strs by simp
  qed
  have "pd_logs db1 = pd_logs (py_db s) @ [new_payout_row e n a day q]"
    by (cases rule: lock_cases [of e a day q "(py_db s)\<lparr>pd_fx := fx\<rparr>" n]) (use quoted(2) in auto)
  then have "quote_key e a' day q' \<notin> pl_key ` set (pd_logs db1)"
    using key no_collision(2) by (auto simp: new_payout_row_def)
  then have none: "find_log (quote_key e a' day q') (db1\<lparr>pd_fx := fx'\<rparr>) = None"
    by (simp add: find_log_def find_None_iff image_iff) metis
  have "pa_balance a' \<ge> 0"
  proof -
    have "\<bar>disbursable (pa_balance a) - pa_balance a * (85 / 100)\<bar> \<le> 6 / 1000"
      using later(3) \<open>pa_balance a < 60000\<close> by (intro disbursable_near) simp_all
    then have "q_usd q \<le> pa_balance a" using later(3) unfolding q(1) abs_le_iff by linarith
    then show ?thesis using later(1) by (simp add: fsub_nonneg)
  qed
  have "can_debit (pa_id a') (q_usd q') a'"
  proof -
    have "pa_balance a' < 60000" using q' by (intro cap_bounds_balance) simp
    then have d: "\<bar>q_usd q' - pa_balance a' * (85 / 100)\<bar> \<le> 6 / 1000" unfolding q'(1) using \<open>pa_balance a' \<ge> 0\<close> by (intro disbursable_near) simp_all
    have "\<bar>disbursable (pa_balance a) - pa_balance a * (85 / 100)\<bar> \<le> 6 / 1000"
      using later(3) \<open>pa_balance a < 60000\<close> by (intro disbursable_near) simp_all
    then have x: "pa_balance a * (15 / 100) - 6 / 1000 \<le> pa_balance a - q_usd q" "pa_balance a - q_usd q \<le> 60000"
      using \<open>pa_balance a < 60000\<close> later(3) unfolding q(1) abs_le_iff by linarith+
    then have "\<bar>pa_balance a - q_usd q\<bar> \<le> 1000000" using later(3) unfolding abs_le_iff by (intro conjI; linarith)
    from near [OF this] have "\<bar>pa_balance a' - (pa_balance a - q_usd q)\<bar> \<le> 1 / 1000000" by (simp add: later(1) fsub_def)
    with d x later(3) have "q_usd q' \<le> pa_balance a'" unfolding abs_le_iff by linarith
    then show ?thesis by (simp add: can_debit_def)
  qed
  then have "list_ex (can_debit (pa_id a') (q_usd q')) (pd_agents (db1\<lparr>pd_fx := fx'\<rparr>))"
    using later(2) by (auto simp: list_ex_iff)
  then show ?thesis using less key none again(4) by (simp add: pay_lock_def Let_def) (simp add: new_payout_row_def)
qed

theorem second_sweep_pays_again_witness:
  "\<exists>q fx r db. pay_quote (demo_env id) demo_net demo_nonce2 demo_poorer (pd_fx (demo_locked id)) = (Inr q, fx)
    \<and> pay_lock (demo_env id) demo_nonce2 demo_poorer 0 q ((demo_locked id)\<lparr>pd_fx := fx\<rparr>) = (Inr r, db) \<and> q_usd q < 85"
proof -
  obtain q fx where q: "pay_quote (demo_env id) demo_net demo_nonce2 demo_poorer (pd_fx (demo_locked id)) = (Inr q, fx)"
    "q_usd q = disbursable 15" "q_method q = Momo" using demo_pays_again by blast
  have db: "py_db demo_start = demo_db" "pd_logs demo_db = []" by (simp_all add: demo_start_def demo_db_def)
  have lock: "pay_lock (demo_env id) demo_nonce demo_agent 0 demo_quote ((py_db demo_start)\<lparr>pd_fx := demo_quoted\<rparr>) = (Inr (demo_row id), demo_locked id)"
    unfolding db by (rule demo_lock)
  have "pay_inv (demo_env id) (demo_middle id)" by (rule pay.reach_inv [OF demo_middle_reach])
  then have fx: "fx_inv (pd_fx (demo_locked id), pn_quoted demo_nonce2)"
    using inv_later [of "pd_fx (demo_locked id)" 7 8] by (simp add: pay_inv_def demo_middle_def demo_nonce2_def)
  have agents: "demo_poorer \<in> set (pd_agents (demo_locked id))" "1 \<le> pa_balance demo_agent"
    by (simp_all add: demo_locked_def demo_poorer_def demo_agent_def demo_quote_def demo_left)
  have new: "fresh (pn_rate demo_nonce2) (pd_fx (demo_locked id))" "pn_log demo_nonce2 \<notin> pl_id ` set (pd_logs (demo_locked id))"
    by (simp_all add: fresh_def demo_nonce2_def demo_nonce_def demo_locked_def demo_quoted_def demo_fetched_def persistRateToDb_def setCachedRate_def
        demo_empty_def demo_rate_def new_rate_def demo_row_def new_payout_row_def)
  have inj: "inj_on (ph (demo_env id)) A" for A by (simp add: demo_env_def)
  have none: "quote_key (demo_env id) demo_poorer 0 q \<notin> pl_key ` set (pd_logs (py_db demo_start))" by (simp add: db)
  from second_sweep_pays_again [OF demo_start_reach demo_at_start lock demo_poorer_def agents q(1) fx new inj none]
  show ?thesis using q demo_bounds2 by auto
qed

text \<open>
  C27: The poll of a mobile money transfer ends. It asks at most six times: its result depends on the first
  six answers only, it is an error only if an answer was one, and when every answer is
  inconclusive it reports the transfer as pending under its own reference.\<close>

theorem poll_terminates:
  shows "(\<forall>ask'. (\<forall>i<6. ask' i = ask i) \<longrightarrow> pollMoMoTransferStatus ask' ref 0 6 = pollMoMoTransferStatus ask ref 0 6)
    \<and> (\<forall>x. pollMoMoTransferStatus ask ref 0 6 = Inl x \<longrightarrow> x = MomoPoll \<and> (\<exists>i<6. ask i = PollHttp))
    \<and> (\<forall>r st why. pollMoMoTransferStatus ask ref 0 6 = Inr (r, st, why) \<longrightarrow>
         (if st = Momo_pending then r = Some ref \<and> (\<forall>i<6. \<exists>r' w'. ask i = PollAnswer Momo_pending r' w')
          else \<exists>i<6. ask i = PollAnswer st r why))"
proof -
  have local: "(\<forall>i. j \<le> i \<and> i < j + k \<longrightarrow> ask' i = ask i) \<Longrightarrow> pollMoMoTransferStatus ask' ref j k = pollMoMoTransferStatus ask ref j k" for ask' j k
    by (induction k arbitrary: j) (auto split: poll_answer.split)
  have err: "pollMoMoTransferStatus ask ref j k = Inl x \<Longrightarrow> x = MomoPoll \<and> (\<exists>i. j \<le> i \<and> i < j + k \<and> ask i = PollHttp)" for j k x
  proof (induction k arbitrary: j)
    case (Suc k)
    show ?case
    proof (cases "ask j")
      case PollHttp
      then show ?thesis using Suc.prems by auto
    next
      case (PollAnswer s r' w')
      then have "pollMoMoTransferStatus ask ref (Suc j) k = Inl x" using Suc.prems by (simp split: if_splits)
      from Suc.IH [OF this] show ?thesis by (auto intro: Suc_leD)
    qed
  qed simp
  have ok: "pollMoMoTransferStatus ask ref j k = Inr (r, st, why) \<Longrightarrow>
      (if st = Momo_pending then r = Some ref \<and> (\<forall>i. j \<le> i \<and> i < j + k \<longrightarrow> (\<exists>r' w'. ask i = PollAnswer Momo_pending r' w'))
       else \<exists>i. j \<le> i \<and> i < j + k \<and> ask i = PollAnswer st r why)" for j k r st why
  proof (induction k arbitrary: j)
    case (Suc k)
    show ?case
    proof (cases "ask j")
      case (PollAnswer s r' w')
      show ?thesis
      proof (cases "s = Momo_pending")
        case True
        with Suc.prems PollAnswer have "pollMoMoTransferStatus ask ref (Suc j) k = Inr (r, st, why)" by simp
        note ih = Suc.IH [OF this]
        show ?thesis
        proof (cases "st = Momo_pending")
          case pending: True
          have "\<exists>r' w'. ask i = PollAnswer Momo_pending r' w'" if "j \<le> i" "i < j + Suc k" for i
            using ih pending True PollAnswer that by (cases "i = j") simp_all
          then show ?thesis using ih pending by simp
        next
          case other: False
          then obtain i where "Suc j \<le> i" "i < Suc j + k" "ask i = PollAnswer st r why" using ih by auto
          then have "j \<le> i \<and> i < j + Suc k \<and> ask i = PollAnswer st r why" by simp
          then show ?thesis using other by auto
        qed
      next
        case False
        then show ?thesis using Suc.prems PollAnswer by auto
      qed
    qed (use Suc.prems in simp)
  qed (auto split: if_splits)
  show ?thesis
  proof (intro conjI allI impI)
    fix ask' :: "nat \<Rightarrow> poll_answer"
    assume "\<forall>i<6. ask' i = ask i"
    then show "pollMoMoTransferStatus ask' ref 0 6 = pollMoMoTransferStatus ask ref 0 6" by (intro local) simp
  next
    fix x
    assume "pollMoMoTransferStatus ask ref 0 6 = Inl x"
    from err [OF this] show "x = MomoPoll" "\<exists>i<6. ask i = PollHttp" by simp_all
  next
    fix r st why
    assume "pollMoMoTransferStatus ask ref 0 6 = Inr (r, st, why)"
    from ok [OF this] show "if st = Momo_pending then r = Some ref \<and> (\<forall>i<6. \<exists>r' w'. ask i = PollAnswer Momo_pending r' w')
        else \<exists>i<6. ask i = PollAnswer st r why" by (simp only: le0 simp_thms add_0)
  qed
qed

theorem poll_terminates_witness:
  "pollMoMoTransferStatus (\<lambda>i. if i < 6 then PollAnswer Momo_pending None None else PollHttp) ''x'' 0 6
     = pollMoMoTransferStatus (\<lambda>i. PollAnswer Momo_pending None None) ''x'' 0 6"
proof -
  let ?ask = "\<lambda>i::nat. PollAnswer Momo_pending None None" and ?cut = "\<lambda>i::nat. if i < 6 then PollAnswer Momo_pending None None else PollHttp"
  have "\<forall>i<6. ?cut i = ?ask i" by simp
  with conjunct1 [OF poll_terminates [of ?ask "''x''"]] show ?thesis by (elim allE [of _ ?cut] impE)
qed

text \<open>
  C25: A sweep is a run of the system of overlapping sweeps and its summary adds up. Every agent evaluated
  has one result and is counted exactly once, as initiated, duplicate or failed, and the database
  the sweep leaves is reached by steps of the system, with no payout left in flight.\<close>

theorem sweep_summary_exact:
  assumes "reach pay_init (pay_step e) s" "py_flight s = []"
    and "rounds_ok e w day 0 (filter (eligible t) (pd_agents (py_db s))) (py_db s) (py_clock s)"
    and "runPayoutSweep e w t day (py_db s) = (sm, reps, db)"
  shows "sm_evaluated sm = length (sm_results sm)
    \<and> sm_evaluated sm = sm_initiated sm + sm_duplicates sm + sm_failed sm
    \<and> (\<exists>s'. reach pay_init (pay_step e) s' \<and> py_db s' = db \<and> py_flight s' = [] \<and> py_reports s' = py_reports s @ reps)"
proof -
  obtain rs rp db' where l: "sweep_loop e w day 0 (filter (eligible t) (pd_agents (py_db s))) (py_db s) = (rs, rp, db')"
    by (cases "sweep_loop e w day 0 (filter (eligible t) (pd_agents (py_db s))) (py_db s)") auto
  have sm: "sm_results sm = rs" "sm_evaluated sm = length (filter (eligible t) (pd_agents (py_db s)))" "sm_initiated sm = count_where initiated rs"
    "sm_duplicates sm = count_where (\<lambda>r. \<not> initiated r \<and> rs_status r = P_duplicate) rs"
    "sm_failed sm = count_where (\<lambda>r. \<not> initiated r \<and> rs_status r \<noteq> P_duplicate) rs" "reps = rp" "db = db'"
    using assms(4) l by (auto simp: runPayoutSweep_def Let_def)
  from sweep_is_a_run [OF l assms(3,2)] obtain calls u where r: "length rs = length (filter (eligible t) (pd_agents (py_db s)))"
    "(pay_step e)\<^sup>*\<^sup>* s (s\<lparr>py_db := db', py_clock := u, py_calls := py_calls s @ calls, py_reports := py_reports s @ rp\<rparr>)" by blast
  from r(2) have "reach pay_init (pay_step e) (s\<lparr>py_db := db', py_clock := u, py_calls := py_calls s @ calls, py_reports := py_reports s @ rp\<rparr>)"
    by (induction rule: rtranclp_induct) (auto intro: assms(1) reach_step)
  moreover have "count_where initiated rs + count_where (\<lambda>r. \<not> initiated r \<and> rs_status r = P_duplicate) rs
      + count_where (\<lambda>r. \<not> initiated r \<and> rs_status r \<noteq> P_duplicate) rs = length rs"
    by (rule count_where_split)
  ultimately show ?thesis using sm r(1) assms(2) by (intro conjI) (simp_all, force)
qed

theorem sweep_summary_exact_witness:
  "\<exists>sm reps db. runPayoutSweep (demo_env id) (\<lambda>_. \<lparr>sw_net = demo_net, sw_nonce = demo_nonce, sw_providers = demo_fixer\<rparr>) ''t'' 0 demo_db = (sm, reps, db)
    \<and> sm_evaluated sm = 1 \<and> sm_initiated sm + sm_duplicates sm + sm_failed sm = 1"
proof -
  let ?w = "\<lambda>_ :: nat. \<lparr>sw_net = demo_net, sw_nonce = demo_nonce, sw_providers = demo_fixer\<rparr>"
  obtain sm reps db where r: "runPayoutSweep (demo_env id) ?w ''t'' 0 demo_db = (sm, reps, db)"
    by (cases "runPayoutSweep (demo_env id) ?w ''t'' 0 demo_db") auto
  have sel: "py_db demo_start = demo_db" "py_clock demo_start = 0" "py_flight demo_start = []" "pd_fx demo_db = demo_empty" "pn_quoted demo_nonce = 7"
    by (simp_all add: demo_start_def demo_db_def demo_nonce_def)
  have one: "filter (eligible ''t'') (pd_agents demo_db) = [demo_agent]" by (simp add: demo_db_def demo_agent_def eligible_def)
  have ok: "rounds_ok (demo_env id) ?w 0 0 [demo_agent] demo_db 0" by (simp add: sel demo_fresh)
  from sweep_summary_exact [OF demo_start_reach _ _ r [folded sel(1)], unfolded sel one, OF refl ok]
  have "sm_evaluated sm = sm_initiated sm + sm_duplicates sm + sm_failed sm" by blast
  moreover have "sm_evaluated sm = 1" using r one by (auto simp: runPayoutSweep_def Let_def split: prod.splits)
  ultimately show ?thesis using r by auto
qed

end
