(* ===== verification/Webhook.thy ===== *)
theory Webhook
  imports Verification Decimal JsHex
begin

section \<open>The webhook receiver\<close>

text \<open>
  The model of src/webhook/receiver.ts: the signed inbound edge that hands events to the
  verification engine. A request arrives as the list of its body chunks; the HMAC under the
  webhook secret, the decoding of UTF-8 and \<open>JSON.parse\<close> are parameters. The state is the store of
  seen ids in insertion order, the time at which the pruning timer fires, and the payloads handed
  to the engine so far. Times are in milliseconds.
\<close>

record wh_env =
  mac :: "string \<Rightarrow> string"
  decode :: "string \<Rightarrow> string"
  parse_json :: "string \<Rightarrow> js option"

definition MAX_BODY_BYTES :: nat where "MAX_BODY_BYTES = 1048576"
definition TIMESTAMP_TOLERANCE_SECONDS :: int where "TIMESTAMP_TOLERANCE_SECONDS = 300"
definition DEDUP_TTL_MS :: int where "DEDUP_TTL_MS = 10 * 60 * 1000"

subsection \<open>The store of seen ids\<close>

record receiver =
  seen :: "(string \<times> time) list"
  pruneTimer :: "time option"
  handed :: "(js \<times> time) list"

definition new_receiver :: receiver where
  "new_receiver = \<lparr>seen = [], pruneTimer = None, handed = []\<rparr>"

definition schedulePrune :: "time \<Rightarrow> receiver \<Rightarrow> receiver" where
  "schedulePrune now s = (case pruneTimer s of Some _ \<Rightarrow> s | None \<Rightarrow> s\<lparr>pruneTimer := Some (now + DEDUP_TTL_MS)\<rparr>)"

definition checkAndMark :: "string \<Rightarrow> time \<Rightarrow> receiver \<Rightarrow> bool \<times> receiver" where
  "checkAndMark i now s =
     (if i \<in> fst ` set (seen s) then (False, s)
      else (True, schedulePrune now (s\<lparr>seen := seen s @ [(i, now)]\<rparr>)))"

text \<open>The callback of the timer.\<close>

definition prune :: "time \<Rightarrow> receiver \<Rightarrow> receiver" where
  "prune now s = s\<lparr>seen := filter (\<lambda>(i, t). \<not> t < now - DEDUP_TTL_MS) (seen s), pruneTimer := None\<rparr>"

subsection \<open>Payloads\<close>

datatype payload_error =
  NoObject | NoId | NoType | NoOccurredAt | NoSource | NoActor | NoActorId | NoActorName | NoActorKind

fun str_of :: "js \<Rightarrow> string option" where
  "str_of (JStr s) = Some s"
| "str_of _ = None"

definition filled :: "js \<Rightarrow> bool" where
  "filled v \<longleftrightarrow> (case str_of v of None \<Rightarrow> False | Some s \<Rightarrow> trim s \<noteq> [])"

definition actor_kinds :: "string list" where
  "actor_kinds = [''human'', ''service'', ''system'']"

definition validatePayload :: "js \<Rightarrow> payload_error + js" where
  "validatePayload p =
     (if \<not> is_object p then Inl NoObject
      else if \<not> filled (get_prop p ''id'') then Inl NoId
      else if \<not> filled (get_prop p ''type'') then Inl NoType
      else if str_of (get_prop p ''occurredAt'') = None then Inl NoOccurredAt
      else if \<not> filled (get_prop p ''source'') then Inl NoSource
      else if \<not> is_object (get_prop p ''actor'') then Inl NoActor
      else if str_of (get_prop (get_prop p ''actor'') ''id'') = None then Inl NoActorId
      else if str_of (get_prop (get_prop p ''actor'') ''name'') = None then Inl NoActorName
      else if (case str_of (get_prop (get_prop p ''actor'') ''kind'') of None \<Rightarrow> True | Some k \<Rightarrow> k \<notin> set actor_kinds)
        then Inl NoActorKind
      else Inr p)"

definition js_text :: "js \<Rightarrow> string" where
  "js_text v = (case str_of v of Some s \<Rightarrow> s | None \<Rightarrow> [])"

text \<open>
  The payload as an event. The optional fields are not validated; the event exists as a value of the
  declared type when they have their declared types (a text, an object, a text), and \<open>None\<close> is a
  payload for which they have not.
\<close>

definition toDomainEvent :: "js \<Rightarrow> time \<Rightarrow> event option" where
  "toDomainEvent p received =
     (let a = get_prop p ''actor''; ip = get_prop a ''ipAddress''; m = get_prop p ''metadata''; en = get_prop p ''environment'';
          ipo = (if nullish ip then Some None else map_option (\<lambda>s. if s = [] then None else Some s) (str_of ip));
          mo = (if nullish m then Some [] else (case m of JObj kvs \<Rightarrow> Some kvs | _ \<Rightarrow> None));
          eo = (if nullish en then Some ''production'' else str_of en)
      in case (ipo, mo, eo) of
           (Some i, Some kvs, Some e) \<Rightarrow> Some
             \<lparr>event_id = js_text (get_prop p ''id''), event_type = js_text (get_prop p ''type''),
              occurredAt = js_text (get_prop p ''occurredAt''), receivedAt = iso_string received,
              source = js_text (get_prop p ''source''),
              ev_actor = \<lparr>actor_id = js_text (get_prop a ''id''), actor_name = js_text (get_prop a ''name''),
                          kind = js_text (get_prop a ''kind''), ipAddress = i\<rparr>,
              metadata = kvs, environment = e\<rparr>
         | _ \<Rightarrow> None)"

subsection \<open>Headers and body\<close>

datatype header = Absent | One string | Many "string list"

definition header_text :: "header \<Rightarrow> string option" where
  "header_text h = (case h of Absent \<Rightarrow> None | One s \<Rightarrow> Some s | Many [] \<Rightarrow> None | Many (s # _) \<Rightarrow> Some s)"

datatype timestamp_error = MissingTimestamp | NotEpoch | Drift int

definition verifyTimestamp :: "header \<Rightarrow> time \<Rightarrow> timestamp_error + int" where
  "verifyTimestamp h now =
     (case header_text h of
        None \<Rightarrow> Inl MissingTimestamp
      | Some raw \<Rightarrow>
          if raw = [] then Inl MissingTimestamp
          else
            (case parse_int10 raw of
               None \<Rightarrow> Inl NotEpoch
             | Some ts \<Rightarrow>
                 let drift = \<bar>now div 1000 - ts\<bar>
                 in if drift > TIMESTAMP_TOLERANCE_SECONDS then Inl (Drift drift) else Inr ts))"

datatype signature_error = MissingSignature | BadFormat | Mismatch

definition verifySignature :: "wh_env \<Rightarrow> string \<Rightarrow> header \<Rightarrow> signature_error option" where
  "verifySignature e body h =
     (case header_text h of
        None \<Rightarrow> Some MissingSignature
      | Some raw \<Rightarrow>
          if raw = [] then Some MissingSignature
          else
            (case split_on (CHR ''='') raw of
               algo # provided # _ \<Rightarrow>
                 if algo \<noteq> ''sha256'' \<or> provided = [] then Some BadFormat
                 else if hex_bytes (mac e body) \<noteq> hex_bytes provided then Some Mismatch else None
             | _ \<Rightarrow> Some BadFormat))"

text \<open>The chunks of the body, and whether the stream ends with an error.\<close>

datatype body_error = TooLarge | StreamError

fun readBody :: "nat \<Rightarrow> string list \<Rightarrow> bool \<Rightarrow> body_error + string" where
  "readBody n [] failed = (if failed then Inl StreamError else Inr [])"
| "readBody n (c # cs) failed =
     (if n + length c > MAX_BODY_BYTES then Inl TooLarge
      else map_sum (\<lambda>x. x) (\<lambda>b. c @ b) (readBody (n + length c) cs failed))"

record wh_request =
  wq_method :: string
  wq_url :: string
  wq_chunks :: "string list"
  wq_failed :: bool
  wq_timestamp :: header
  wq_signature :: header

datatype wh_response =
  WH_not_found | WH_body body_error | WH_timestamp timestamp_error | WH_unsigned | WH_bad_json
| WH_invalid payload_error | WH_duplicate | WH_accepted string

text \<open>\<open>t0\<close> is the time when the request arrives, \<open>t\<close> the time after its body was read.\<close>

definition handleRequest :: "wh_env \<Rightarrow> time \<Rightarrow> time \<Rightarrow> wh_request \<Rightarrow> receiver \<Rightarrow> wh_response \<times> receiver" where
  "handleRequest e t0 t q s =
     (if wq_method q \<noteq> ''POST'' \<or> wq_url q \<noteq> ''/webhook'' then (WH_not_found, s)
      else
        (case readBody 0 (wq_chunks q) (wq_failed q) of
           Inl x \<Rightarrow> (WH_body x, s)
         | Inr bytes \<Rightarrow>
             let body = decode e bytes in
             (case verifyTimestamp (wq_timestamp q) t of
                Inl x \<Rightarrow> (WH_timestamp x, s)
              | Inr _ \<Rightarrow>
                  if verifySignature e body (wq_signature q) \<noteq> None then (WH_unsigned, s)
                  else
                    (case parse_json e body of
                       None \<Rightarrow> (WH_bad_json, s)
                     | Some v \<Rightarrow>
                         (case validatePayload v of
                            Inl x \<Rightarrow> (WH_invalid x, s)
                          | Inr p \<Rightarrow>
                              (case checkAndMark (js_text (get_prop p ''id'')) t s of
                                 (False, s1) \<Rightarrow> (WH_duplicate, s1)
                               | (True, s1) \<Rightarrow> (WH_accepted (js_text (get_prop p ''id'')), s1\<lparr>handed := handed s1 @ [(p, t0)]\<rparr>)))))))"

text \<open>
  What becomes of a payload that was handed over: an exception of the engine is not caught (the call
  is \<open>void this.dispatch(event)\<close>), otherwise the callback gets the batch.
\<close>

definition dispatch_event :: "(string \<Rightarrow> string \<Rightarrow> bool option) \<Rightarrow> engine \<Rightarrow> time \<Rightarrow> js \<times> time \<Rightarrow> batch throwing option" where
  "dispatch_event regex eng now h = map_option (verify regex eng now) (toDomainEvent (fst h) (snd h))"

subsection \<open>The receiver as a state machine\<close>

inductive wh_step :: "wh_env \<Rightarrow> receiver \<times> time \<Rightarrow> receiver \<times> time \<Rightarrow> bool" for e :: wh_env where
  request: "now \<le> t \<Longrightarrow> t0 \<le> t \<Longrightarrow> handleRequest e t0 t q s = (r, s') \<Longrightarrow> wh_step e (s, now) (s', t)"
| timer: "now \<le> t \<Longrightarrow> pruneTimer s = Some due \<Longrightarrow> due \<le> t \<Longrightarrow> wh_step e (s, now) (prune t s, t)"

subsection \<open>The parts of the gate\<close>

lemma readBody_iff:
  "n \<le> MAX_BODY_BYTES \<Longrightarrow> readBody n cs failed = Inr b \<longleftrightarrow> \<not> failed \<and> n + length (concat cs) \<le> MAX_BODY_BYTES \<and> b = concat cs"
proof (induction cs arbitrary: n b)
  case (Cons c cs)
  show ?case
  proof (cases "n + length c > MAX_BODY_BYTES")
    case False
    then have "readBody n (c # cs) failed = Inr b \<longleftrightarrow> (\<exists>b'. readBody (n + length c) cs failed = Inr b' \<and> b = c @ b')"
      by (cases "readBody (n + length c) cs failed") auto
    then show ?thesis using Cons.IH [of "n + length c"] False by (auto simp: add.assoc)
  qed auto
qed auto

definition fresh_timestamp :: "header \<Rightarrow> time \<Rightarrow> bool" where
  "fresh_timestamp h now \<longleftrightarrow> (\<exists>raw ts. header_text h = Some raw \<and> parse_int10 raw = Some ts \<and> \<bar>now div 1000 - ts\<bar> \<le> 300)"

definition signed_body :: "wh_env \<Rightarrow> string \<Rightarrow> header \<Rightarrow> bool" where
  "signed_body e body h \<longleftrightarrow> (\<exists>raw provided rest. header_text h = Some raw \<and> split_on (CHR ''='') raw = ''sha256'' # provided # rest
     \<and> provided \<noteq> [] \<and> hex_bytes provided = hex_bytes (mac e body))"

definition valid_payload :: "js \<Rightarrow> bool" where
  "valid_payload p \<longleftrightarrow> is_object p \<and> filled (get_prop p ''id'') \<and> filled (get_prop p ''type'') \<and> filled (get_prop p ''source'')
     \<and> (\<exists>s. get_prop p ''occurredAt'' = JStr s) \<and> is_object (get_prop p ''actor'')
     \<and> (\<exists>s. get_prop (get_prop p ''actor'') ''id'' = JStr s) \<and> (\<exists>s. get_prop (get_prop p ''actor'') ''name'' = JStr s)
     \<and> (\<exists>k. get_prop (get_prop p ''actor'') ''kind'' = JStr k \<and> k \<in> {''human'', ''service'', ''system''})"

lemma str_of_Some: "str_of v = Some s \<longleftrightarrow> v = JStr s" by (cases v) auto

lemma str_of_None: "str_of v = None \<longleftrightarrow> \<not> (\<exists>s. v = JStr s)" by (cases v) auto

lemma verifyTimestamp_iff: "(\<exists>ts. verifyTimestamp h now = Inr ts) \<longleftrightarrow> fresh_timestamp h now"
proof -
  have "parse_int10 [] = None" by (simp add: parse_int10_def)
  then show ?thesis
    by (auto simp: verifyTimestamp_def fresh_timestamp_def TIMESTAMP_TOLERANCE_SECONDS_def Let_def not_less split: option.splits)
qed

lemma verifySignature_iff: "verifySignature e body h = None \<longleftrightarrow> signed_body e body h"
proof (cases "header_text h")
  case (Some raw)
  show ?thesis
  proof (cases "raw = []")
    case False
    then show ?thesis using Some by (auto simp: verifySignature_def signed_body_def split: list.splits)
  qed (simp add: Some verifySignature_def signed_body_def)
qed (simp add: verifySignature_def signed_body_def)

lemma validatePayload_iff: "validatePayload p = Inr p' \<longleftrightarrow> valid_payload p \<and> p' = p"
  by (auto simp: validatePayload_def valid_payload_def actor_kinds_def str_of_None str_of_Some split: option.splits if_splits)

lemma checkAndMark_cases:
  "checkAndMark i now s = (if i \<in> fst ` set (seen s) then (False, s) else (True, schedulePrune now (s\<lparr>seen := seen s @ [(i, now)]\<rparr>)))"
  by (simp add: checkAndMark_def)

lemma schedule_sel [simp]: "seen (schedulePrune now s) = seen s" "handed (schedulePrune now s) = handed s"
  by (simp_all add: schedulePrune_def split: option.splits)

definition admits :: "wh_env \<Rightarrow> time \<Rightarrow> wh_request \<Rightarrow> js \<Rightarrow> bool" where
  "admits e t q p \<longleftrightarrow> wq_method q = ''POST'' \<and> wq_url q = ''/webhook'' \<and> \<not> wq_failed q \<and> length (concat (wq_chunks q)) \<le> MAX_BODY_BYTES
     \<and> fresh_timestamp (wq_timestamp q) t \<and> signed_body e (decode e (concat (wq_chunks q))) (wq_signature q)
     \<and> parse_json e (decode e (concat (wq_chunks q))) = Some p \<and> valid_payload p"

definition payload_id :: "js \<Rightarrow> string" where "payload_id p = js_text (get_prop p ''id'')"

lemma handle_admitted:
  assumes "admits e t q p"
  shows "handleRequest e t0 t q s =
    (if payload_id p \<in> fst ` set (seen s) then (WH_duplicate, s)
     else (WH_accepted (payload_id p), (schedulePrune t (s\<lparr>seen := seen s @ [(payload_id p, t)]\<rparr>))\<lparr>handed := handed s @ [(p, t0)]\<rparr>))"
proof -
  from assms have b: "readBody 0 (wq_chunks q) False = Inr (concat (wq_chunks q))"
    by (simp add: admits_def readBody_iff)
  from assms obtain ts where t: "verifyTimestamp (wq_timestamp q) t = Inr ts"
    using verifyTimestamp_iff unfolding admits_def by blast
  from assms have g: "verifySignature e (decode e (concat (wq_chunks q))) (wq_signature q) = None" "validatePayload p = Inr p"
    by (simp_all add: admits_def verifySignature_iff validatePayload_iff)
  show ?thesis using assms by (simp add: admits_def handleRequest_def b t g checkAndMark_def payload_id_def Let_def)
qed

lemma handle_refused:
  assumes "\<nexists>p. admits e t q p" "handleRequest e t0 t q s = (r, s')"
  shows "s' = s \<and> r \<noteq> WH_duplicate \<and> (\<forall>i. r \<noteq> WH_accepted i)"
proof (cases "wq_method q = ''POST'' \<and> wq_url q = ''/webhook''")
  case True
  show ?thesis
  proof (cases "readBody 0 (wq_chunks q) (wq_failed q)")
    case (Inl x)
    then show ?thesis using True assms(2) by (simp add: handleRequest_def) blast
  next
    case (Inr b)
    then have b: "b = concat (wq_chunks q)" "\<not> wq_failed q" "length (concat (wq_chunks q)) \<le> MAX_BODY_BYTES"
      by (simp_all add: readBody_iff)
    have "\<not> (fresh_timestamp (wq_timestamp q) t \<and> signed_body e (decode e b) (wq_signature q)
        \<and> (\<exists>p. parse_json e (decode e b) = Some p \<and> valid_payload p))"
      using assms(1) True b unfolding admits_def by blast
    then have n: "(\<nexists>ts. verifyTimestamp (wq_timestamp q) t = Inr ts) \<or> verifySignature e (decode e b) (wq_signature q) \<noteq> None
        \<or> (\<forall>p p'. parse_json e (decode e b) = Some p \<longrightarrow> validatePayload p \<noteq> Inr p')"
      unfolding verifyTimestamp_iff verifySignature_iff validatePayload_iff by blast
    show ?thesis using assms(2) True Inr n
      by (auto simp: handleRequest_def Let_def split: sum.splits option.splits if_splits)
  qed
qed (use assms(2) in \<open>auto simp: handleRequest_def\<close>)

lemma handle_accepted:
  assumes "handleRequest e t0 t q s = (WH_accepted i, s')"
  obtains p where "admits e t q p" "i = payload_id p" "i \<notin> fst ` set (seen s)" "seen s' = seen s @ [(i, t)]" "handed s' = handed s @ [(p, t0)]"
proof -
  obtain p where p: "admits e t q p" using handle_refused [OF _ assms] by blast
  show thesis by (rule that [OF p]) (use assms p in \<open>auto simp: handle_admitted split: if_splits\<close>)
qed

text \<open>An id stays in the store for the whole window.\<close>

lemma id_kept:
  assumes "(wh_step e)\<^sup>*\<^sup>* (s, now) (s', now')" "(i, t) \<in> set (seen s)" "now' \<le> t + DEDUP_TTL_MS"
  shows "(i, t) \<in> set (seen s')"
proof -
  have mono: "wh_step e x y \<Longrightarrow> snd x \<le> snd y" for x y by (induction rule: wh_step.induct) simp_all
  have "(wh_step e)\<^sup>*\<^sup>* x y \<Longrightarrow> snd y \<le> t + DEDUP_TTL_MS \<Longrightarrow> (i, t) \<in> set (seen (fst x)) \<Longrightarrow> (i, t) \<in> set (seen (fst y))" for x y
  proof (induction rule: rtranclp_induct)
    case (step y z)
    then have kept: "(i, t) \<in> set (seen (fst y))" using mono by fastforce
    from step(2) show ?case
    proof cases
      case (request now u u0 q s r s')
      show ?thesis
      proof (cases "\<exists>p. admits e u q p")
        case True
        then obtain p where "admits e u q p" by blast
        from handle_admitted [OF this] show ?thesis using request kept by (auto split: if_splits)
      next
        case False
        then have "s' = s" using handle_refused [of e u q u0 s r s'] request(5) by blast
        then show ?thesis using request kept by simp
      qed
    next
      case (timer now u s due)
      then show ?thesis using kept step(4) by (auto simp: prune_def)
    qed
  qed simp
  from this [OF assms(1)] assms(2,3) show ?thesis by simp
qed

subsection \<open>The properties\<close>

text \<open>
  C28: The gate admits exactly the signed, fresh, valid and new events. A request is accepted, and its
  payload handed to the verification engine, exactly if it is a POST to /webhook whose body arrives
  whole and within 1 MiB, its timestamp is within 300 seconds, its signature has the bytes of the
  HMAC of the body, the body parses to a valid payload and the id is not in the store; a duplicate
  changes nothing, and neither does any other answer.\<close>

theorem receiver_gate:
  assumes "handleRequest e t0 t q s = (r, s')"
  shows "if \<exists>p. admits e t q p
    then \<exists>p. admits e t q p \<and>
      (if payload_id p \<in> fst ` set (seen s) then r = WH_duplicate \<and> s' = s
       else r = WH_accepted (payload_id p) \<and> handed s' = handed s @ [(p, t0)] \<and> seen s' = seen s @ [(payload_id p, t)])
    else s' = s \<and> r \<noteq> WH_duplicate \<and> (\<forall>i. r \<noteq> WH_accepted i)"
proof (cases "\<exists>p. admits e t q p")
  case True
  then obtain p where p: "admits e t q p" by blast
  have "if payload_id p \<in> fst ` set (seen s) then r = WH_duplicate \<and> s' = s
       else r = WH_accepted (payload_id p) \<and> handed s' = handed s @ [(p, t0)] \<and> seen s' = seen s @ [(payload_id p, t)]"
    using assms handle_admitted [OF p] by (auto split: if_splits)
  then show ?thesis unfolding if_P [OF True] by (intro exI [of _ p] conjI p)
next
  case False
  then show ?thesis using handle_refused [OF False assms] by simp
qed

text \<open>
  C29: An event is handed over at most once in ten minutes. Whatever requests and timer callbacks come
  between two acceptances of the same id, and whatever the content of the store at the first, more
  than the ten minutes of the deduplication window lie between them.\<close>

theorem accepted_once_per_window:
  assumes "handleRequest e t0 t q s = (WH_accepted i, s1)" "(wh_step e)\<^sup>*\<^sup>* (s1, t) (s2, t2)" "t2 \<le> t'"
    and "handleRequest e t0' t' q' s2 = (WH_accepted i, s3)"
  shows "DEDUP_TTL_MS < t' - t"
proof (rule ccontr)
  assume "\<not> DEDUP_TTL_MS < t' - t"
  then have "t2 \<le> t + DEDUP_TTL_MS" using assms(3) by simp
  moreover have "(i, t) \<in> set (seen s1)" by (rule handle_accepted [OF assms(1)]) simp
  ultimately have "(i, t) \<in> set (seen s2)" using id_kept [OF assms(2)] by simp
  then have "i \<in> fst ` set (seen s2)" by force
  then show False by (metis handle_accepted [OF assms(4)])
qed

lemma epoch_fresh: "0 \<le> t \<Longrightarrow> fresh_timestamp (One (nat_digits (t div 1000))) t"
proof -
  assume "0 \<le> t"
  then have n: "0 \<le> t div 1000" by simp
  have ne: "nat_digits (t div 1000) \<noteq> []" by (subst nat_digits.simps) simp
  have d: "\<forall>c \<in> set (nat_digits (t div 1000)). is_digit c" by (rule nat_digits_no_sep [OF n])
  then have hd: "is_digit (hd (nat_digits (t div 1000)))" using ne by simp
  have "\<not> is_space c \<and> c \<noteq> CHR ''-'' \<and> c \<noteq> CHR ''+''" if "is_digit c" for c
    using that by (auto simp: is_digit_def is_space_def)
  with hd have h: "\<not> is_space (hd (nat_digits (t div 1000)))" "hd (nat_digits (t div 1000)) \<noteq> CHR ''-''" "hd (nat_digits (t div 1000)) \<noteq> CHR ''+''"
    by blast+
  then have "dropWhile is_space (nat_digits (t div 1000)) = nat_digits (t div 1000)"
    by (cases "nat_digits (t div 1000)") simp_all
  moreover have "takeWhile is_digit (nat_digits (t div 1000)) = nat_digits (t div 1000)" using d by (simp add: takeWhile_eq_all_conv)
  ultimately have "parse_int10 (nat_digits (t div 1000)) = Some (t div 1000)"
    using h ne digits_val_nat_digits [OF n] by (simp add: parse_int10_def Let_def del: takeWhile_eq_all_conv)
  then show ?thesis by (auto simp: fresh_timestamp_def header_text_def)
qed

text \<open>
  The timestamp does not protect against replay. The signature covers the body only, so whoever has
  seen one accepted request can send its body and signature again with a timestamp of his own: once
  the store has been pruned after the deduplication window, the event is accepted and
  handed to the engine again, although the timestamp is documented as replay protection.\<close>

theorem replay_accepted:
  assumes "handleRequest e t0 t q s = (WH_accepted i, s1)" "t + DEDUP_TTL_MS < u" "u \<le> t'" "0 \<le> t"
  shows "\<exists>p s2. handleRequest e t0' t' (q\<lparr>wq_timestamp := One (nat_digits (t' div 1000))\<rparr>) (prune u s1) = (WH_accepted i, s2)
    \<and> handed s2 = handed s @ [(p, t0), (p, t0')]"
proof -
  obtain p where p: "admits e t q p" "i = payload_id p" "i \<notin> fst ` set (seen s)" "seen s1 = seen s @ [(i, t)]" "handed s1 = handed s @ [(p, t0)]"
    by (rule handle_accepted [OF assms(1)])
  have "0 \<le> t'" using assms(2-4) by (simp add: DEDUP_TTL_MS_def)
  then have a: "admits e t' (q\<lparr>wq_timestamp := One (nat_digits (t' div 1000))\<rparr>) p"
    using p(1) epoch_fresh by (simp add: admits_def)
  have "i \<notin> fst ` set (seen (prune u s1))" using p(3,4) assms(2) by (auto simp: prune_def)
  moreover have "handed (prune u s1) = handed s @ [(p, t0)]" using p(5) by (simp add: prune_def)
  ultimately show ?thesis using handle_admitted [OF a] p(2) by simp
qed

text \<open>
  What the policies see is what was signed. The event built from a payload shows under id, type,
  occurredAt, source and the fields of the actor exactly the values of the payload, and a condition on a
  metadata field sees the payload's metadata.\<close>

theorem event_reflects_payload:
  assumes "valid_payload p" "toDomainEvent p received = Some ev"
  shows "event_id ev = payload_id p
    \<and> (\<forall>k \<in> {''id'', ''type'', ''occurredAt'', ''source''}. get_prop (event_js ev) k = get_prop p k)
    \<and> (\<forall>k \<in> {''id'', ''name'', ''kind''}. get_prop (get_prop (event_js ev) ''actor'') k = get_prop (get_prop p ''actor'') k)
    \<and> (\<forall>kvs. get_prop p ''metadata'' = JObj kvs \<longrightarrow> get_prop (event_js ev) ''metadata'' = get_prop p ''metadata'')"
proof -
  have s: "filled v \<Longrightarrow> v = JStr (js_text v)" for v by (cases v) (simp_all add: filled_def js_text_def)
  have o: "get_prop p ''id'' = JStr (js_text (get_prop p ''id''))" "get_prop p ''type'' = JStr (js_text (get_prop p ''type''))"
    "get_prop p ''source'' = JStr (js_text (get_prop p ''source''))"
    by (rule s; use assms(1) in \<open>simp add: valid_payload_def\<close>)+
  have w: "get_prop p ''occurredAt'' = JStr (js_text (get_prop p ''occurredAt''))"
    using assms(1) by (auto simp: valid_payload_def js_text_def)
  have a: "get_prop (get_prop p ''actor'') ''id'' = JStr (js_text (get_prop (get_prop p ''actor'') ''id''))"
    "get_prop (get_prop p ''actor'') ''name'' = JStr (js_text (get_prop (get_prop p ''actor'') ''name''))"
    "get_prop (get_prop p ''actor'') ''kind'' = JStr (js_text (get_prop (get_prop p ''actor'') ''kind''))"
    using assms(1) by (auto simp: valid_payload_def js_text_def)
  obtain i kvs' en where ev: "ev = \<lparr>event_id = js_text (get_prop p ''id''), event_type = js_text (get_prop p ''type''),
      occurredAt = js_text (get_prop p ''occurredAt''), receivedAt = iso_string received, source = js_text (get_prop p ''source''),
      ev_actor = \<lparr>actor_id = js_text (get_prop (get_prop p ''actor'') ''id''), actor_name = js_text (get_prop (get_prop p ''actor'') ''name''),
                  kind = js_text (get_prop (get_prop p ''actor'') ''kind''), ipAddress = i\<rparr>,
      metadata = kvs', environment = en\<rparr>"
    and m: "\<forall>kvs. get_prop p ''metadata'' = JObj kvs \<longrightarrow> JObj kvs' = get_prop p ''metadata''"
    using assms(2) by (auto simp: toDomainEvent_def nullish_def Let_def split: option.splits if_splits js.splits)
  have me: "get_prop (event_js ev) ''metadata'' = JObj kvs'" by (simp add: event_js_def ev)
  have top: "\<forall>k \<in> {''id'', ''type'', ''occurredAt'', ''source''}. get_prop (event_js ev) k = get_prop p k"
    using o w by (simp add: event_js_def ev)
  have act: "\<forall>k \<in> {''id'', ''name'', ''kind''}. get_prop (get_prop (event_js ev) ''actor'') k = get_prop (get_prop p ''actor'') k"
    using a by (simp add: event_js_def actor_js_def ev)
  have "event_id ev = payload_id p" by (simp add: ev payload_id_def)
  moreover have "\<forall>kvs. get_prop p ''metadata'' = JObj kvs \<longrightarrow> get_prop (event_js ev) ''metadata'' = get_prop p ''metadata''"
    using m unfolding me .
  ultimately show ?thesis using top act by (intro conjI)
qed

subsection \<open>A request\<close>

definition demo_payload :: js where
  "demo_payload = JObj [(''id'', JStr ''e1''), (''type'', JStr ''deploy''), (''occurredAt'', JStr ''2026-01-01''), (''source'', JStr ''ci''),
     (''actor'', JObj [(''id'', JStr ''u''), (''name'', JStr ''U''), (''kind'', JStr ''human'')]), (''metadata'', JObj [(''a'', JBool True)])]"

definition demo_wh :: wh_env where
  "demo_wh = \<lparr>mac = (\<lambda>s. ''ab''), decode = (\<lambda>s. s), parse_json = (\<lambda>s. if s = ''{}'' then Some demo_payload else None)\<rparr>"

definition demo_request :: wh_request where
  "demo_request = \<lparr>wq_method = ''POST'', wq_url = ''/webhook'', wq_chunks = [''{'', ''}''], wq_failed = False,
     wq_timestamp = One ''0'', wq_signature = One ''sha256=AB''\<rparr>"

lemma demo_valid: "valid_payload demo_payload" "payload_id demo_payload = ''e1''"
  by (simp_all add: valid_payload_def demo_payload_def filled_def trim_def is_space_def payload_id_def js_text_def)

lemma demo_hex_bytes: "hex_bytes ''AB'' = hex_bytes ''ab''" by code_simp

lemma demo_admits: "admits demo_wh 0 demo_request demo_payload"
proof -
  have "parse_int10 ''0'' = Some 0" by code_simp
  then have "fresh_timestamp (wq_timestamp demo_request) 0" by (simp add: fresh_timestamp_def demo_request_def header_text_def)
  moreover have "signed_body demo_wh ''{}'' (wq_signature demo_request)"
    using demo_hex_bytes by (simp add: signed_body_def demo_request_def header_text_def demo_wh_def del: hex_bytes.simps)
  ultimately show ?thesis using demo_valid(1) by (simp add: admits_def demo_request_def demo_wh_def MAX_BODY_BYTES_def)
qed

lemma demo_first:
  "handleRequest demo_wh 0 0 demo_request new_receiver
     = (WH_accepted ''e1'', \<lparr>seen = [(''e1'', 0)], pruneTimer = Some DEDUP_TTL_MS, handed = [(demo_payload, 0)]\<rparr>)"
  using handle_admitted [OF demo_admits] by (simp add: demo_valid new_receiver_def schedulePrune_def)

theorem receiver_gate_witness:
  "\<exists>r s'. handleRequest demo_wh 0 0 demo_request new_receiver = (r, s') \<and> r \<noteq> WH_duplicate \<and> handed s' = [(demo_payload, 0)]"
  using receiver_gate [OF demo_first] demo_first by auto

lemma demo_later:
  "\<exists>s2. handleRequest demo_wh 600001 600001 (demo_request\<lparr>wq_timestamp := One (nat_digits (600001 div 1000))\<rparr>)
     (prune 600001 \<lparr>seen = [(''e1'', 0)], pruneTimer = Some DEDUP_TTL_MS, handed = [(demo_payload, 0)]\<rparr>) = (WH_accepted ''e1'', s2)"
proof -
  have "admits demo_wh 600001 (demo_request\<lparr>wq_timestamp := One (nat_digits (600001 div 1000))\<rparr>) demo_payload"
    using demo_admits epoch_fresh [of 600001] by (simp add: admits_def)
  from handle_admitted [OF this] show ?thesis by (simp add: demo_valid prune_def DEDUP_TTL_MS_def)
qed

theorem accepted_once_per_window_witness:
  "\<exists>s1 s2 q. handleRequest demo_wh 0 0 demo_request new_receiver = (WH_accepted ''e1'', s1)
    \<and> fst (handleRequest demo_wh 600001 600001 q s2) = WH_accepted ''e1'' \<and> DEDUP_TTL_MS < 600001 - 0"
proof -
  let ?s = "\<lparr>seen = [(''e1'', 0)], pruneTimer = Some DEDUP_TTL_MS, handed = [(demo_payload, 0)]\<rparr>"
  let ?q = "demo_request\<lparr>wq_timestamp := One (nat_digits (600001 div 1000))\<rparr>"
  obtain s2 where s2: "handleRequest demo_wh 600001 600001 ?q (prune 600001 ?s) = (WH_accepted ''e1'', s2)" using demo_later by blast
  have "wh_step demo_wh (?s, 0) (prune 600001 ?s, 600001)" by (rule timer [where due = DEDUP_TTL_MS]) (simp_all add: DEDUP_TTL_MS_def)
  then have "(wh_step demo_wh)\<^sup>*\<^sup>* (?s, 0) (prune 600001 ?s, 600001)" by simp
  from accepted_once_per_window [OF demo_first this _ s2] have "DEDUP_TTL_MS < 600001 - 0" by simp
  then show ?thesis using demo_first s2 by (intro exI [of _ ?s] exI [of _ "prune 600001 ?s"] exI [of _ ?q]) simp
qed

theorem replay_accepted_witness:
  "\<exists>s1 s2. handleRequest demo_wh 0 0 demo_request new_receiver = (WH_accepted ''e1'', s1)
    \<and> handleRequest demo_wh 700000 700000 (demo_request\<lparr>wq_timestamp := One (nat_digits (700000 div 1000))\<rparr>) (prune 600001 s1) = (WH_accepted ''e1'', s2)
    \<and> length (handed s2) = 2"
proof -
  let ?s = "\<lparr>seen = [(''e1'', 0)], pruneTimer = Some DEDUP_TTL_MS, handed = [(demo_payload, 0)]\<rparr>"
  obtain p s2 where "handleRequest demo_wh 700000 700000 (demo_request\<lparr>wq_timestamp := One (nat_digits (700000 div 1000))\<rparr>) (prune 600001 ?s) = (WH_accepted ''e1'', s2)"
    "handed s2 = handed new_receiver @ [(p, 0), (p, 700000)]"
    using replay_accepted [OF demo_first, of 600001 700000 700000] by (auto simp: DEDUP_TTL_MS_def)
  then show ?thesis using demo_first by (simp add: new_receiver_def)
qed

theorem event_reflects_payload_witness:
  "\<exists>ev. toDomainEvent demo_payload 0 = Some ev \<and> event_id ev = ''e1'' \<and> get_prop (event_js ev) ''type'' = JStr ''deploy''"
proof -
  obtain ev where ev: "toDomainEvent demo_payload 0 = Some ev" by (simp add: toDomainEvent_def demo_payload_def nullish_def object_inherited_def object_methods_def)
  from event_reflects_payload [OF demo_valid(1) ev] have "event_id ev = payload_id demo_payload" "get_prop (event_js ev) ''type'' = get_prop demo_payload ''type''" by auto
  then show ?thesis using ev demo_valid(2) by (simp add: demo_payload_def)
qed

end
