(* ===== verification/Users.thy ===== *)
theory Users
  imports Auth Payout
begin

section \<open>User administration\<close>

text \<open>
  The model of src/routes/users.ts: profiles, roles, KYC tiers, freelancers, API keys, the
  permission test and the audit log. The database is the platform tables, the table user_profiles
  (its primary key is the user id, which references users; agent_id references agents) and the
  agents as the payouts read them. SHA-256, the random key and id, the UUID check and the text of
  the profile audit are parameters. The requests are given after parsing: \<open>call_ok\<close> is what the
  schemas still check. An exception inside a transaction rolls it back and answers 500.
\<close>

datatype profile_status = Active | Suspended | Pending_kyc | Pending_review

record user_profile =
  up_user :: string
  up_tenant :: string
  up_name :: "string option"
  up_phone :: "string option"
  up_country :: "string option"
  up_currency :: "string option"
  up_kyc :: kyc_tier
  up_status :: profile_status
  up_freelancer :: bool
  up_agent :: "string option"
  up_bio :: "string option"
  up_key_hash :: "string option"
  up_key_prefix :: "string option"
  up_created :: time
  up_updated :: time

record usr_db =
  us_plat :: plat_db
  us_profiles :: "user_profile list"
  us_agents :: "pay_agent list"

record usr_env =
  u_sha :: "string \<Rightarrow> string"
  is_uuid :: "string \<Rightarrow> bool"
  u_json :: "string option \<times> string option \<times> kyc_tier option \<Rightarrow> string"

record usr_nonce =
  un_now :: time
  un_uuid :: string
  un_key :: string

record profile_body =
  pb_name :: "string option"
  pb_phone :: "string option"
  pb_country :: "string option"
  pb_currency :: "string option"
  pb_bio :: "string option"
  pb_kyc :: "kyc_tier option"
  pb_status :: "profile_status option"

record freelancer_body =
  fb_name :: string
  fb_country :: string
  fb_method :: payout_method
  fb_momo :: "string option"
  fb_provider :: "string option"
  fb_card :: "string option"
  fb_threshold :: rat
  fb_currency :: string

datatype usr_call =
  ListUsers | GetAuditLog int | GetUser string | UpsertProfile string profile_body
| AssignRole string string "string option" | ElevateKyc string kyc_tier "string option"
| RegisterFreelancer string freelancer_body | GenerateApiKey string | TestPermissions string

fun kyc_str :: "kyc_tier \<Rightarrow> string" where
  "kyc_str Basic = ''basic''"
| "kyc_str Standard = ''standard''"
| "kyc_str Enhanced = ''enhanced''"

subsection \<open>Permission tests\<close>

definition ROLE_PERMISSIONS :: "string \<Rightarrow> string list option" where
  "ROLE_PERMISSIONS r =
     (if r = ''Executive'' then Some [''read:all'', ''write:all'', ''delete:all'', ''manage:users'', ''manage:roles'',
          ''view:reports'', ''trigger:sweep'', ''manage:agents'']
      else if r = ''Auditor'' then Some [''read:all'', ''view:reports'', ''read:anomalies'', ''read:payouts'']
      else if r = ''Partner'' then Some [''read:own'', ''view:own_payouts'', ''manage:own_profile'']
      else None)"

record permission_test =
  pt_name :: string
  pt_expected :: bool
  pt_actual :: bool
  pt_passed :: bool

definition check :: "string \<Rightarrow> bool \<Rightarrow> bool \<Rightarrow> permission_test" where
  "check name expected actual = \<lparr>pt_name = name, pt_expected = expected, pt_actual = actual, pt_passed = (expected = actual)\<rparr>"

definition role_tests :: "string \<Rightarrow> string list \<Rightarrow> permission_test list" where
  "role_tests role perms =
     [check ''Executive can manage users'' (role = ''Executive'') (''manage:users'' \<in> set perms),
      check ''Auditor cannot write'' (role = ''Auditor'') (''write:all'' \<notin> set perms),
      check ''Partner read limited to own'' (role = ''Partner'') (''read:own'' \<in> set perms \<and> ''read:all'' \<notin> set perms),
      check ''Executive can trigger sweep'' (role = ''Executive'') (''trigger:sweep'' \<in> set perms),
      check ''Auditor can view reports'' (role = ''Auditor'') (''view:reports'' \<in> set perms)]"

definition country_tests :: "string option \<Rightarrow> kyc_tier \<Rightarrow> permission_test list" where
  "country_tests country k =
     (case non_empty country of
        None \<Rightarrow> []
      | Some c \<Rightarrow>
          (case getCountryRequirement c of
             Inl _ \<Rightarrow> []
           | Inr r \<Rightarrow>
               [check (''KYC tier '' @ [CHR 0x22] @ kyc_str k @ [CHR 0x22] @ '' meets '' @ c @ '' minimum '' @ [CHR 0x22]
                    @ kyc_str (cr_kyc r) @ [CHR 0x22]) True (meetsKycRequirement k c = Inr True),
                check (c @ '' has supported payout methods'') True (cr_methods r \<noteq> [])]))"

definition dropTests :: "(string \<times> string \<times> string) list" where
  "dropTests =
     [(''Partner cannot delete'', ''Partner'', ''delete:all''),
      (''Partner cannot manage users'', ''Partner'', ''manage:users''),
      (''Auditor cannot manage agents'', ''Auditor'', ''manage:agents''),
      (''Auditor cannot trigger sweep'', ''Auditor'', ''trigger:sweep'')]"

definition runPermissionTests :: "string \<Rightarrow> string option \<Rightarrow> kyc_tier \<Rightarrow> permission_test list option" where
  "runPermissionTests role country k =
     (case ROLE_PERMISSIONS role of
        None \<Rightarrow> None
      | Some perms \<Rightarrow> Some (role_tests role perms @ country_tests country k
          @ map (\<lambda>(name, _, perm). check name False (perm \<in> set perms)) (filter (\<lambda>(_, r, _). r = role) dropTests)))"

subsection \<open>Schemas\<close>

definition filled_opt :: "string option \<Rightarrow> bool" where "filled_opt s \<longleftrightarrow> s \<noteq> Some []"

definition has_length :: "nat \<Rightarrow> string option \<Rightarrow> bool" where
  "has_length n s \<longleftrightarrow> (case s of None \<Rightarrow> True | Some x \<Rightarrow> length x = n)"

fun usr_call_ok :: "usr_env \<Rightarrow> usr_call \<Rightarrow> bool" where
  "usr_call_ok e ListUsers \<longleftrightarrow> True"
| "usr_call_ok e (GetAuditLog n) \<longleftrightarrow> 1 \<le> n \<and> n \<le> 500"
| "usr_call_ok e (GetUser i) \<longleftrightarrow> is_uuid e i"
| "usr_call_ok e (UpsertProfile i b) \<longleftrightarrow> is_uuid e i \<and> filled_opt (pb_name b) \<and> filled_opt (pb_phone b)
     \<and> has_length 2 (pb_country b) \<and> has_length 3 (pb_currency b)"
| "usr_call_ok e (AssignRole i role reason) \<longleftrightarrow> is_uuid e i \<and> role \<in> {''Executive'', ''Auditor'', ''Partner''} \<and> filled_opt reason"
| "usr_call_ok e (ElevateKyc i k ref) \<longleftrightarrow> is_uuid e i \<and> filled_opt ref"
| "usr_call_ok e (RegisterFreelancer i b) \<longleftrightarrow> is_uuid e i \<and> fb_name b \<noteq> [] \<and> length (fb_country b) = 2 \<and> filled_opt (fb_momo b)
     \<and> filled_opt (fb_provider b) \<and> filled_opt (fb_card b) \<and> 0 \<le> fb_threshold b \<and> length (fb_currency b) = 3"
| "usr_call_ok e (GenerateApiKey i) \<longleftrightarrow> is_uuid e i"
| "usr_call_ok e (TestPermissions i) \<longleftrightarrow> is_uuid e i"

subsection \<open>Handlers\<close>

datatype usr_resp =
  U_unauthorized auth_reject | U_forbidden "string option" | U_bad_request
| U_list "(user_row \<times> user_profile option) list" | U_audit "role_audit_row list" | U_user user_row "user_profile option"
| U_not_found | U_unprocessable | U_conflict string | U_error
| U_profile time | U_role_unchanged string | U_role string string | U_kyc kyc_tier kyc_tier
| U_freelancer string country_requirement | U_key string string | U_tests "permission_test list"

definition find_profile :: "string \<Rightarrow> usr_db \<Rightarrow> user_profile option" where
  "find_profile i db = List.find (\<lambda>p. up_user p = i) (us_profiles db)"

definition tenant_profile :: "string \<Rightarrow> string \<Rightarrow> usr_db \<Rightarrow> user_profile option" where
  "tenant_profile i t db = List.find (\<lambda>p. up_user p = i \<and> up_tenant p = t) (us_profiles db)"

definition tenant_user :: "string \<Rightarrow> string \<Rightarrow> usr_db \<Rightarrow> user_row option" where
  "tenant_user i t db = List.find (\<lambda>u. u_id u = i \<and> u_tenant u = t) (t_users (us_plat db))"

definition audit :: "usr_nonce \<Rightarrow> string \<Rightarrow> string \<Rightarrow> string \<Rightarrow> string \<Rightarrow> string option \<Rightarrow> string option \<Rightarrow> string option \<Rightarrow> usr_db \<Rightarrow> usr_db" where
  "audit n t i actor action old new reason db =
     db\<lparr>us_plat := auditLog (un_now n) t i actor action old new reason (us_plat db)\<rparr>"

definition insert_profile :: "user_profile \<Rightarrow> usr_db \<Rightarrow> usr_db option" where
  "insert_profile p db =
     (if up_user p \<notin> u_id ` set (t_users (us_plat db)) \<or> up_user p \<in> up_user ` set (us_profiles db) then None
      else Some (db\<lparr>us_profiles := us_profiles db @ [p]\<rparr>))"

definition blank_profile :: "string \<Rightarrow> string \<Rightarrow> time \<Rightarrow> user_profile" where
  "blank_profile i t now =
     \<lparr>up_user = i, up_tenant = t, up_name = None, up_phone = None, up_country = None, up_currency = None, up_kyc = Basic,
      up_status = Active, up_freelancer = False, up_agent = None, up_bio = None, up_key_hash = None, up_key_prefix = None,
      up_created = now, up_updated = now\<rparr>"

definition coalesce :: "'a option \<Rightarrow> 'a option \<Rightarrow> 'a option" where
  "coalesce a b = (case a of None \<Rightarrow> b | Some _ \<Rightarrow> a)"

definition merge_profile :: "profile_body \<Rightarrow> time \<Rightarrow> user_profile \<Rightarrow> user_profile" where
  "merge_profile b now p =
     p\<lparr>up_name := coalesce (pb_name b) (up_name p), up_phone := coalesce (pb_phone b) (up_phone p),
       up_country := coalesce (pb_country b) (up_country p), up_currency := coalesce (pb_currency b) (up_currency p),
       up_bio := coalesce (pb_bio b) (up_bio p), up_kyc := (case pb_kyc b of Some k \<Rightarrow> k | None \<Rightarrow> up_kyc p),
       up_status := (case pb_status b of Some s \<Rightarrow> s | None \<Rightarrow> up_status p), up_updated := now\<rparr>"

definition country_refused :: "profile_body \<Rightarrow> bool" where
  "country_refused b =
     (case non_empty (pb_country b) of
        None \<Rightarrow> False
      | Some c \<Rightarrow>
          (case getCountryRequirement c of
             Inl _ \<Rightarrow> True
           | Inr r \<Rightarrow> (case non_empty (pb_currency b) of None \<Rightarrow> False | Some cur \<Rightarrow> cur \<notin> set (cr_accepted r))))"

definition upsertProfile ::
  "usr_env \<Rightarrow> usr_nonce \<Rightarrow> string \<Rightarrow> string \<Rightarrow> string \<Rightarrow> profile_body \<Rightarrow> usr_db \<Rightarrow> usr_resp \<times> usr_db" where
  "upsertProfile e n t actor i b db =
     (if country_refused b then (U_unprocessable, db)
      else
        let aud = audit n t i actor ''profile_update'' None (Some (u_json e (pb_name b, pb_country b, pb_kyc b))) None
        in case tenant_profile i t db of
             Some _ \<Rightarrow> (U_profile (un_now n), aud (db\<lparr>us_profiles :=
               update_where (\<lambda>p. up_user p = i \<and> up_tenant p = t) (merge_profile b (un_now n)) (us_profiles db)\<rparr>))
           | None \<Rightarrow>
               (case insert_profile (merge_profile b (un_now n) (blank_profile i t (un_now n))) db of
                  None \<Rightarrow> (U_error, db)
                | Some db' \<Rightarrow> (U_profile (un_now n), aud db')))"

definition assignRole ::
  "usr_nonce \<Rightarrow> string \<Rightarrow> string \<Rightarrow> string \<Rightarrow> string \<Rightarrow> string option \<Rightarrow> usr_db \<Rightarrow> usr_resp \<times> usr_db" where
  "assignRole n t actor i role reason db =
     (case tenant_user i t db of
        None \<Rightarrow> (U_not_found, db)
      | Some u \<Rightarrow>
          if u_role u = role then (U_role_unchanged role, db)
          else (U_role (u_role u) role,
            audit n t i actor ''role_change'' (Some (u_role u)) (Some role) reason
              (db\<lparr>us_plat := (us_plat db)\<lparr>t_users := update_where (\<lambda>u. u_id u = i \<and> u_tenant u = t)
                 (\<lambda>u. u\<lparr>u_role := role, u_updated := un_now n\<rparr>) (t_users (us_plat db))\<rparr>\<rparr>)))"

definition elevateKyc ::
  "usr_nonce \<Rightarrow> string \<Rightarrow> string \<Rightarrow> string \<Rightarrow> kyc_tier \<Rightarrow> string option \<Rightarrow> usr_db \<Rightarrow> usr_resp \<times> usr_db" where
  "elevateKyc n t actor i k ref db =
     (let old = (case tenant_profile i t db of Some p \<Rightarrow> up_kyc p | None \<Rightarrow> Basic);
          agent = Option.bind (tenant_profile i t db) up_agent
      in (U_kyc old k,
          audit n t i actor ''kyc_elevation'' (Some (kyc_str old)) (Some (kyc_str k)) ref
            (db\<lparr>us_profiles := update_where (\<lambda>p. up_user p = i \<and> up_tenant p = t) (\<lambda>p. p\<lparr>up_kyc := k, up_updated := un_now n\<rparr>) (us_profiles db),
                us_agents := (case agent of None \<Rightarrow> us_agents db
                  | Some g \<Rightarrow> update_where (\<lambda>a. pa_id a = g) (\<lambda>a. a\<lparr>pa_kyc := kyc_str k\<rparr>) (us_agents db))\<rparr>)))"

definition new_agent :: "usr_nonce \<Rightarrow> string \<Rightarrow> freelancer_body \<Rightarrow> pay_agent" where
  "new_agent n t b =
     \<lparr>pa_id = un_uuid n, pa_tenant = t, pa_name = fb_name b, pa_balance = 0, pa_method = Some (method_str (fb_method b)),
      pa_card = fb_card b, pa_threshold = fb_threshold b, pa_locked = False, pa_momo = fb_momo b,
      pa_country = Some (fb_country b), pa_kyc = ''basic''\<rparr>"

definition freelancer_profile :: "usr_nonce \<Rightarrow> string \<Rightarrow> string \<Rightarrow> freelancer_body \<Rightarrow> user_profile" where
  "freelancer_profile n t i b =
     (blank_profile i t (un_now n))\<lparr>up_name := Some (fb_name b), up_country := Some (fb_country b), up_currency := Some (fb_currency b),
       up_freelancer := True, up_agent := Some (un_uuid n), up_status := Pending_kyc\<rparr>"

text \<open>\<open>ON CONFLICT(user_id) DO UPDATE\<close>: the conflicting row is updated whatever its tenant.\<close>

definition upsert_by_user :: "user_profile \<Rightarrow> (user_profile \<Rightarrow> user_profile) \<Rightarrow> usr_db \<Rightarrow> usr_db option" where
  "upsert_by_user p f db =
     (if up_user p \<in> up_user ` set (us_profiles db)
      then Some (db\<lparr>us_profiles := update_where (\<lambda>q. up_user q = up_user p) f (us_profiles db)\<rparr>)
      else insert_profile p db)"

definition registerFreelancer ::
  "usr_nonce \<Rightarrow> string \<Rightarrow> string \<Rightarrow> string \<Rightarrow> freelancer_body \<Rightarrow> usr_db \<Rightarrow> usr_resp \<times> usr_db" where
  "registerFreelancer n t actor i b db =
     (case tenant_user i t db of
        None \<Rightarrow> (U_not_found, db)
      | Some _ \<Rightarrow>
          (case getCountryRequirement (fb_country b) of
             Inl _ \<Rightarrow> (U_unprocessable, db)
           | Inr r \<Rightarrow>
               if fb_method b \<notin> pm_method ` set (cr_methods r) then (U_unprocessable, db)
               else
                 (case Option.bind (find_profile i db) up_agent of
                    Some g \<Rightarrow> (U_conflict g, db)
                  | None \<Rightarrow>
                      if un_uuid n \<in> pa_id ` set (us_agents db) then (U_error, db)
                      else
                        (case upsert_by_user (freelancer_profile n t i b)
                                (\<lambda>q. q\<lparr>up_freelancer := True, up_agent := Some (un_uuid n), up_country := Some (fb_country b),
                                       up_currency := Some (fb_currency b), up_updated := un_now n\<rparr>)
                                (db\<lparr>us_agents := us_agents db @ [new_agent n t b]\<rparr>) of
                           None \<Rightarrow> (U_error, db)
                         | Some db' \<Rightarrow> (U_freelancer (un_uuid n) r,
                             audit n t i actor ''freelancer_registered'' None (Some (un_uuid n)) (Some (fb_country b)) db')))))"

definition generateApiKey :: "usr_env \<Rightarrow> usr_nonce \<Rightarrow> string \<Rightarrow> string \<Rightarrow> string \<Rightarrow> usr_db \<Rightarrow> usr_resp \<times> usr_db" where
  "generateApiKey e n t actor i db =
     (let raw = ''caas_'' @ un_key n; pre = take 12 raw; h = u_sha e raw
      in case upsert_by_user ((blank_profile i t (un_now n))\<lparr>up_key_hash := Some h, up_key_prefix := Some pre\<rparr>)
                (\<lambda>q. q\<lparr>up_key_hash := Some h, up_key_prefix := Some pre, up_updated := un_now n\<rparr>) db of
           None \<Rightarrow> (U_error, db)
         | Some db' \<Rightarrow> (U_key raw pre, audit n t i actor ''api_key_generated'' None (Some pre) None db'))"

definition testPermissions :: "string \<Rightarrow> string \<Rightarrow> usr_db \<Rightarrow> usr_resp" where
  "testPermissions t i db =
     (case tenant_user i t db of
        None \<Rightarrow> U_not_found
      | Some u \<Rightarrow>
          let p = find_profile i db in
          (case runPermissionTests (u_role u) (Option.bind p up_country) (case p of Some q \<Rightarrow> up_kyc q | None \<Rightarrow> Basic) of
             None \<Rightarrow> U_error | Some ts \<Rightarrow> U_tests ts))"

definition listUsers :: "string \<Rightarrow> usr_db \<Rightarrow> usr_resp" where
  "listUsers t db = U_list (map (\<lambda>u. (u, find_profile (u_id u) db))
     (sort_key (\<lambda>u. - u_created u) (filter (\<lambda>u. u_tenant u = t) (t_users (us_plat db)))))"

definition getUser :: "string \<Rightarrow> string \<Rightarrow> usr_db \<Rightarrow> usr_resp" where
  "getUser t i db = (case tenant_user i t db of None \<Rightarrow> U_not_found | Some u \<Rightarrow> U_user u (find_profile i db))"

definition getAuditLog :: "string \<Rightarrow> int \<Rightarrow> usr_db \<Rightarrow> usr_resp" where
  "getAuditLog t n db = U_audit (take (nat n)
     (sort_key (\<lambda>a. - ra_created a) (filter (\<lambda>a. ra_tenant a = t) (t_role_audit (us_plat db)))))"

subsection \<open>The router\<close>

definition getTenantId_u :: "request \<Rightarrow> string" where
  "getTenantId_u req = (case h_tenant_id req of Some t \<Rightarrow> t | None \<Rightarrow> ''unknown'')"

definition getActorId :: "request \<Rightarrow> string" where
  "getActorId req = (case caas_user req of Some u \<Rightarrow> u | None \<Rightarrow> ''system'')"

fun usr_roles :: "usr_call \<Rightarrow> string list option" where
  "usr_roles ListUsers = Some [''Executive'', ''Auditor'']"
| "usr_roles (GetAuditLog _) = Some [''Executive'', ''Auditor'']"
| "usr_roles (AssignRole _ _ _) = Some [''Executive'']"
| "usr_roles (ElevateKyc _ _ _) = Some [''Executive'']"
| "usr_roles _ = None"

definition requireRole_u :: "string list option \<Rightarrow> request \<Rightarrow> bool" where
  "requireRole_u roles req =
     (case roles of None \<Rightarrow> True
      | Some rs \<Rightarrow> (case caas_role req of None \<Rightarrow> False | Some r \<Rightarrow> r \<noteq> [] \<and> r \<in> set rs))"

fun usr_handler :: "usr_env \<Rightarrow> usr_nonce \<Rightarrow> string \<Rightarrow> string \<Rightarrow> usr_call \<Rightarrow> usr_db \<Rightarrow> usr_resp \<times> usr_db" where
  "usr_handler e n t actor ListUsers db = (listUsers t db, db)"
| "usr_handler e n t actor (GetAuditLog k) db = (getAuditLog t k db, db)"
| "usr_handler e n t actor (GetUser i) db = (getUser t i db, db)"
| "usr_handler e n t actor (UpsertProfile i b) db = upsertProfile e n t actor i b db"
| "usr_handler e n t actor (AssignRole i role reason) db = assignRole n t actor i role reason db"
| "usr_handler e n t actor (ElevateKyc i k ref) db = elevateKyc n t actor i k ref db"
| "usr_handler e n t actor (RegisterFreelancer i b) db = registerFreelancer n t actor i b db"
| "usr_handler e n t actor (GenerateApiKey i) db = generateApiKey e n t actor i db"
| "usr_handler e n t actor (TestPermissions i) db = (testPermissions t i db, db)"

definition usersRouter ::
  "usr_env \<Rightarrow> (string \<Rightarrow> jwt_result) \<Rightarrow> usr_nonce \<Rightarrow> request \<Rightarrow> usr_call \<Rightarrow> usr_db \<Rightarrow> usr_resp \<times> usr_db" where
  "usersRouter e jwt n req0 c db =
     (case requireAccessToken jwt req0 of
        Inl x \<Rightarrow> (U_unauthorized x, db)
      | Inr req \<Rightarrow>
          if \<not> requireRole_u (usr_roles c) req then (U_forbidden (caas_role req), db)
          else if \<not> usr_call_ok e c then (U_bad_request, db)
          else usr_handler e n (getTenantId_u req) (getActorId req) c db)"

end
