(* ===== verification/UsersProps.thy ===== *)
theory UsersProps
  imports Users
begin

section \<open>User administration as a system\<close>

text \<open>
  The steps: any request through the router, the registration of a user, the audit row of a password
  change, and what the payouts and the anomaly engine do to agents (balances and locks, never ids or tiers).
\<close>

inductive usr_step :: "usr_env \<Rightarrow> (string \<Rightarrow> jwt_result) \<Rightarrow> usr_db \<Rightarrow> usr_db \<Rightarrow> bool" for e :: usr_env and jwt :: "string \<Rightarrow> jwt_result" where
  routed: "usersRouter e jwt n req c db = (r, db') \<Longrightarrow> usr_step e jwt db db'"
| joined: "u_id u \<notin> u_id ` set (t_users (us_plat db)) \<Longrightarrow>
    usr_step e jwt db (db\<lparr>us_plat := (us_plat db)\<lparr>t_users := t_users (us_plat db) @ [u]\<rparr>\<rparr>)"
| password_changed: "usr_step e jwt db (db\<lparr>us_plat := auditLog now t i i ''password_change'' None None None (us_plat db)\<rparr>)"
| agents_moved: "map (\<lambda>a. (pa_id a, pa_kyc a)) as = map (\<lambda>a. (pa_id a, pa_kyc a)) (us_agents db) \<Longrightarrow> usr_step e jwt db (db\<lparr>us_agents := as\<rparr>)"

definition usr_init :: "usr_db \<Rightarrow> bool" where
  "usr_init db \<longleftrightarrow> us_profiles db = [] \<and> t_role_audit (us_plat db) = [] \<and> distinct (map u_id (t_users (us_plat db)))
     \<and> distinct (map pa_id (us_agents db))"

subsection \<open>The operations, case by case\<close>

lemma insert_profile_Some:
  "insert_profile p db = Some db' \<longleftrightarrow> up_user p \<in> u_id ` set (t_users (us_plat db)) \<and> up_user p \<notin> up_user ` set (us_profiles db)
     \<and> db' = db\<lparr>us_profiles := us_profiles db @ [p]\<rparr>"
  by (auto simp: insert_profile_def)

lemma upsert_by_user_cases:
  assumes "upsert_by_user p f db = Some db'"
  obtains (found) "up_user p \<in> up_user ` set (us_profiles db)" "db' = db\<lparr>us_profiles := update_where (\<lambda>q. up_user q = up_user p) f (us_profiles db)\<rparr>"
  | (inserted) "up_user p \<in> u_id ` set (t_users (us_plat db))" "up_user p \<notin> up_user ` set (us_profiles db)" "db' = db\<lparr>us_profiles := us_profiles db @ [p]\<rparr>"
  using assms by (auto simp: upsert_by_user_def insert_profile_Some split: if_splits)

lemma audit_sel [simp]:
  "us_profiles (audit n t i actor ac old new reason db) = us_profiles db" "us_agents (audit n t i actor ac old new reason db) = us_agents db"
  "t_users (us_plat (audit n t i actor ac old new reason db)) = t_users (us_plat db)"
  "t_role_audit (us_plat (audit n t i actor ac old new reason db)) = t_role_audit (us_plat db) @
     [\<lparr>ra_tenant = t, ra_target = i, ra_actor = actor, ra_action = ac, ra_old = old, ra_new = new, ra_reason = reason, ra_created = un_now n\<rparr>]"
  by (simp_all add: audit_def auditLog_def)

lemma find_exists: "List.find P xs = Some x \<Longrightarrow> x \<in> set xs \<and> P x" by (auto dest: find_SomeD)

lemma tenant_profile_None: "tenant_profile i t db = None \<longleftrightarrow> (\<forall>p \<in> set (us_profiles db). \<not> (up_user p = i \<and> up_tenant p = t))"
  by (auto simp: tenant_profile_def find_None_iff)

lemma merge_sel [simp]:
  "up_user (merge_profile b now p) = up_user p" "up_tenant (merge_profile b now p) = up_tenant p"
  "up_agent (merge_profile b now p) = up_agent p" "up_freelancer (merge_profile b now p) = up_freelancer p"
  by (simp_all add: merge_profile_def)

lemma blank_sel [simp]:
  "up_user (blank_profile i t now) = i" "up_tenant (blank_profile i t now) = t" "up_agent (blank_profile i t now) = None"
  "up_freelancer (blank_profile i t now) = False" "up_kyc (blank_profile i t now) = Basic"
  by (simp_all add: blank_profile_def)

lemma upsertProfile_cases:
  assumes "upsertProfile e n t actor i b db = (r, db')"
  obtains (same) "db' = db" "r = U_unprocessable \<or> r = U_error"
  | (merged) aud where "\<exists>p \<in> set (us_profiles db). up_user p = i \<and> up_tenant p = t" "\<not> country_refused b" "r = U_profile (un_now n)"
      "db' = audit n t i actor ''profile_update'' None aud None (db\<lparr>us_profiles :=
        update_where (\<lambda>p. up_user p = i \<and> up_tenant p = t) (merge_profile b (un_now n)) (us_profiles db)\<rparr>)"
  | (inserted) aud where "i \<in> u_id ` set (t_users (us_plat db))" "i \<notin> up_user ` set (us_profiles db)" "r = U_profile (un_now n)"
      "db' = audit n t i actor ''profile_update'' None aud None (db\<lparr>us_profiles := us_profiles db @ [merge_profile b (un_now n) (blank_profile i t (un_now n))]\<rparr>)"
proof (cases "country_refused b")
  case True
  then show thesis using same assms by (simp add: upsertProfile_def)
next
  case False
  show thesis
  proof (cases "tenant_profile i t db")
    case None
    show thesis
    proof (cases "insert_profile (merge_profile b (un_now n) (blank_profile i t (un_now n))) db")
      case None': None
      then show thesis using same assms False None by (simp add: upsertProfile_def)
    next
      case (Some db1)
      have "r = U_profile (un_now n)" "db' = audit n t i actor ''profile_update'' None (Some (u_json e (pb_name b, pb_country b, pb_kyc b))) None db1"
        using assms False None Some by (simp_all add: upsertProfile_def)
      moreover have "i \<in> u_id ` set (t_users (us_plat db))" "i \<notin> up_user ` set (us_profiles db)"
        "db1 = db\<lparr>us_profiles := us_profiles db @ [merge_profile b (un_now n) (blank_profile i t (un_now n))]\<rparr>"
        using Some unfolding insert_profile_Some by simp_all
      ultimately show thesis using inserted by blast
    qed
  next
    case (Some p)
    then have "p \<in> set (us_profiles db)" "up_user p = i" "up_tenant p = t" by (auto simp: tenant_profile_def dest: find_exists)
    then show thesis using merged assms False Some by (auto simp: upsertProfile_def)
  qed
qed

lemma assignRole_cases:
  assumes "assignRole n t actor i role reason db = (r, db')"
  obtains (same) "db' = db"
  | (changed) u where "u \<in> set (t_users (us_plat db))" "u_id u = i" "u_tenant u = t" "u_role u \<noteq> role" "r = U_role (u_role u) role"
      "db' = audit n t i actor ''role_change'' (Some (u_role u)) (Some role) reason
        (db\<lparr>us_plat := (us_plat db)\<lparr>t_users := update_where (\<lambda>u. u_id u = i \<and> u_tenant u = t)
           (\<lambda>u. u\<lparr>u_role := role, u_updated := un_now n\<rparr>) (t_users (us_plat db))\<rparr>\<rparr>)"
proof (cases "tenant_user i t db")
  case None
  then show thesis using same assms by (simp add: assignRole_def)
next
  case (Some u)
  then have "u \<in> set (t_users (us_plat db))" "u_id u = i" "u_tenant u = t" by (auto simp: tenant_user_def dest: find_exists)
  note u = this
  show thesis
  proof (cases "u_role u = role")
    case True
    then have "db' = db" using assms Some by (simp add: assignRole_def)
    then show thesis by (rule same)
  next
    case False
    then show thesis using assms Some by (intro changed [OF u]) (simp_all add: assignRole_def)
  qed
qed

lemma registerFreelancer_cases:
  assumes "registerFreelancer n t actor i b db = (r, db')"
  obtains (same) "db' = db" "\<And>g c. r \<noteq> U_freelancer g c"
  | (created) c db1 where "getCountryRequirement (fb_country b) = Inr c" "r = U_freelancer (un_uuid n) c" "un_uuid n \<notin> pa_id ` set (us_agents db)"
      "Option.bind (find_profile i db) up_agent = None"
      "upsert_by_user (freelancer_profile n t i b) (\<lambda>q. q\<lparr>up_freelancer := True, up_agent := Some (un_uuid n), up_country := Some (fb_country b),
          up_currency := Some (fb_currency b), up_updated := un_now n\<rparr>) (db\<lparr>us_agents := us_agents db @ [new_agent n t b]\<rparr>) = Some db1"
      "db' = audit n t i actor ''freelancer_registered'' None (Some (un_uuid n)) (Some (fb_country b)) db1"
proof -
  let ?f = "\<lambda>q. q\<lparr>up_freelancer := True, up_agent := Some (un_uuid n), up_country := Some (fb_country b), up_currency := Some (fb_currency b), up_updated := un_now n\<rparr>"
  let ?up = "upsert_by_user (freelancer_profile n t i b) ?f (db\<lparr>us_agents := us_agents db @ [new_agent n t b]\<rparr>)"
  show thesis
  proof (cases "\<exists>u c db1. tenant_user i t db = Some u \<and> getCountryRequirement (fb_country b) = Inr c \<and> fb_method b \<in> pm_method ` set (cr_methods c)
      \<and> Option.bind (find_profile i db) up_agent = None \<and> un_uuid n \<notin> pa_id ` set (us_agents db) \<and> ?up = Some db1")
    case True
    then obtain u c db1 where u: "tenant_user i t db = Some u" "getCountryRequirement (fb_country b) = Inr c" "fb_method b \<in> pm_method ` set (cr_methods c)"
      "Option.bind (find_profile i db) up_agent = None" "un_uuid n \<notin> pa_id ` set (us_agents db)" "?up = Some db1" by blast
    then have "(r, db') = (U_freelancer (un_uuid n) c, audit n t i actor ''freelancer_registered'' None (Some (un_uuid n)) (Some (fb_country b)) db1)"
      using assms by (simp add: registerFreelancer_def)
    then show thesis using created u by blast
  next
    case False
    have "db' = db \<and> (\<forall>g c. r \<noteq> U_freelancer g c)"
    proof (cases "tenant_user i t db")
      case (Some u)
      show ?thesis
      proof (cases "getCountryRequirement (fb_country b)")
        case c: (Inr c)
        show ?thesis
        proof (cases "Option.bind (find_profile i db) up_agent")
          case None
          show ?thesis
          proof (cases ?up)
            case None': None
            then show ?thesis using assms Some c None by (auto simp: registerFreelancer_def split: if_splits)
          next
            case (Some db1)
            then show ?thesis using assms False c None \<open>tenant_user i t db = Some u\<close> by (auto simp: registerFreelancer_def split: if_splits)
          qed
        qed (use assms Some c in \<open>auto simp: registerFreelancer_def split: if_splits\<close>)
      qed (use assms Some in \<open>auto simp: registerFreelancer_def\<close>)
    qed (use assms in \<open>auto simp: registerFreelancer_def\<close>)
    then show thesis using same by blast
  qed
qed

subsection \<open>The tables stay consistent\<close>

type_synonym profile_key = "string \<times> bool \<times> string option"

definition pkey :: "user_profile \<Rightarrow> profile_key" where
  "pkey p = (up_user p, up_freelancer p, up_agent p)"

definition agents_of :: "profile_key list \<Rightarrow> string list" where
  "agents_of ks = List.map_filter (\<lambda>k. snd (snd k)) ks"

definition keys_ok :: "string list \<Rightarrow> profile_key list \<Rightarrow> string list \<Rightarrow> bool" where
  "keys_ok us ks gs \<longleftrightarrow> distinct us \<and> distinct (map fst ks) \<and> fst ` set ks \<subseteq> set us \<and> distinct gs
     \<and> (\<forall>k \<in> set ks. fst (snd k) = (snd (snd k) \<noteq> None)) \<and> distinct (agents_of ks) \<and> set (agents_of ks) \<subseteq> set gs"

definition profiles_ok :: "usr_db \<Rightarrow> bool" where
  "profiles_ok db \<longleftrightarrow> keys_ok (map u_id (t_users (us_plat db))) (map pkey (us_profiles db)) (map pa_id (us_agents db))"

lemma agents_of_simps [simp]: "agents_of [] = []" "agents_of (k # ks) = (case snd (snd k) of None \<Rightarrow> agents_of ks | Some g \<Rightarrow> g # agents_of ks)"
  "agents_of (ks @ ls) = agents_of ks @ agents_of ls"
  by (simp_all add: agents_of_def List.map_filter_def split: option.splits)

lemma keys_ok_append: "keys_ok us ks gs \<Longrightarrow> i \<in> set us \<Longrightarrow> i \<notin> fst ` set ks \<Longrightarrow> keys_ok us (ks @ [(i, False, None)]) gs"
  by (auto simp: keys_ok_def)

lemma keys_ok_freelancer:
  "keys_ok us ks gs \<Longrightarrow> i \<in> set us \<Longrightarrow> i \<notin> fst ` set ks \<Longrightarrow> g \<notin> set gs \<Longrightarrow> keys_ok us (ks @ [(i, True, Some g)]) (gs @ [g])"
  by (auto simp: keys_ok_def)

lemma agents_of_update:
  "(\<forall>k \<in> set ks. fst k = i \<longrightarrow> snd (snd k) = None) \<Longrightarrow> distinct (map fst ks) \<Longrightarrow> distinct (agents_of ks) \<Longrightarrow> g \<notin> set (agents_of ks) \<Longrightarrow>
   distinct (agents_of (map (\<lambda>k. if fst k = i then (i, True, Some g) else k) ks))
   \<and> set (agents_of (map (\<lambda>k. if fst k = i then (i, True, Some g) else k) ks)) \<subseteq> insert g (set (agents_of ks))"
proof (induction ks)
  case (Cons k ks)
  show ?case
  proof (cases "fst k = i")
    case True
    then have "map (\<lambda>k. if fst k = i then (i, True, Some g) else k) ks = map (\<lambda>k. k) ks"
      using Cons.prems(2) by (intro map_cong refl) (metis distinct.simps(2) list.simps(9) list.set_map image_eqI)
    then show ?thesis using Cons.prems True by simp
  next
    case False
    with Cons show ?thesis by (cases "snd (snd k)") auto
  qed
qed simp

lemma keys_ok_promote:
  assumes "keys_ok us ks gs" "\<forall>k \<in> set ks. fst k = i \<longrightarrow> snd (snd k) = None" "g \<notin> set gs"
  shows "keys_ok us (map (\<lambda>k. if fst k = i then (i, True, Some g) else k) ks) (gs @ [g])"
proof -
  have f: "map fst (map (\<lambda>k. if fst k = i then (i, True, Some g) else k) ks) = map fst ks" by auto
  have a: "distinct (agents_of (map (\<lambda>k. if fst k = i then (i, True, Some g) else k) ks))
     \<and> set (agents_of (map (\<lambda>k. if fst k = i then (i, True, Some g) else k) ks)) \<subseteq> insert g (set (agents_of ks))"
    by (rule agents_of_update) (use assms in \<open>auto simp: keys_ok_def\<close>)
  have "fst ` set (map (\<lambda>k. if fst k = i then (i, True, Some g) else k) ks) = fst ` set ks" by (metis f list.set_map)
  then show ?thesis using assms(1,3) a unfolding keys_ok_def f by auto
qed

lemma pkey_merged [simp]: "pkey (merge_profile b now p) = pkey p" by (simp add: pkey_def)

lemma pkey_blank [simp]: "pkey (blank_profile i t now) = (i, False, None)" by (simp add: pkey_def)

lemma image_pkey: "fst ` pkey ` A = up_user ` A" by (auto simp: pkey_def image_iff)

lemma ok_upsert:
  assumes "profiles_ok db" "upsertProfile e n t actor i b db = (r, db')"
  shows "profiles_ok db'"
proof (cases rule: upsertProfile_cases [OF assms(2)])
  case 1
  then show ?thesis using assms(1) by simp
next
  case (2 aud)
  then show ?thesis using assms(1) by (simp add: profiles_ok_def map_update_where)
next
  case (3 aud)
  then show ?thesis using assms(1) by (simp add: profiles_ok_def keys_ok_append image_pkey)
qed

lemma ok_freelancer:
  assumes "profiles_ok db" "registerFreelancer n t actor i b db = (r, db')"
  shows "profiles_ok db'"
proof (cases rule: registerFreelancer_cases [OF assms(2)])
  case 1
  then show ?thesis using assms(1) by simp
next
  case (2 c db1)
  have none: "p \<in> set (us_profiles db) \<Longrightarrow> up_user p = i \<Longrightarrow> up_agent p = None" for p
  proof -
    assume p: "p \<in> set (us_profiles db)" "up_user p = i"
    have "distinct (map up_user (us_profiles db))" using assms(1) by (simp add: profiles_ok_def keys_ok_def comp_def pkey_def)
    from find_distinct_key [OF this p(1)] p(2) have "find_profile i db = Some p" by (simp add: find_profile_def)
    then show "up_agent p = None" using 2(4) by simp
  qed
  let ?u = "\<lambda>k. if fst k = i then (i, True, Some (un_uuid n)) else k"
  let ?f = "\<lambda>q. q\<lparr>up_freelancer := True, up_agent := Some (un_uuid n), up_country := Some (fb_country b), up_currency := Some (fb_currency b), up_updated := un_now n\<rparr>"
  have new: "pkey (freelancer_profile n t i b) = (i, True, Some (un_uuid n))" "up_user (freelancer_profile n t i b) = i"
    "pa_id (new_agent n t b) = un_uuid n"
    by (simp_all add: pkey_def freelancer_profile_def new_agent_def)
  have upd: "map pkey (update_where (\<lambda>q. up_user q = i) ?f ps) = map ?u (map pkey ps)" for ps
    by (simp add: update_where_def pkey_def)
  have "profiles_ok db1"
  proof (cases rule: upsert_by_user_cases [OF 2(5)])
    case 1
    have "keys_ok (map u_id (t_users (us_plat db))) (map ?u (map pkey (us_profiles db))) (map pa_id (us_agents db) @ [un_uuid n])"
      by (rule keys_ok_promote) (use assms(1) none 2(3) in \<open>auto simp: profiles_ok_def pkey_def\<close>)
    then show ?thesis using 1 new upd by (simp add: profiles_ok_def del: map_map)
  next
    case 2
    then show ?thesis using assms(1) new \<open>un_uuid n \<notin> pa_id ` set (us_agents db)\<close>
      by (simp add: profiles_ok_def keys_ok_freelancer image_pkey)
  qed
  then show ?thesis using 2(6) by (simp add: profiles_ok_def)
qed

lemma ok_key:
  assumes "profiles_ok db" "generateApiKey e n t actor i db = (r, db')"
  shows "profiles_ok db'"
proof -
  let ?h = "u_sha e (''caas_'' @ un_key n)" and ?pre = "take 12 (''caas_'' @ un_key n)"
  let ?up = "upsert_by_user ((blank_profile i t (un_now n))\<lparr>up_key_hash := Some ?h, up_key_prefix := Some ?pre\<rparr>)
    (\<lambda>q. q\<lparr>up_key_hash := Some ?h, up_key_prefix := Some ?pre, up_updated := un_now n\<rparr>) db"
  show ?thesis
  proof (cases ?up)
    case None
    then show ?thesis using assms by (simp add: generateApiKey_def Let_def)
  next
    case (Some db1)
    then have db': "db' = audit n t i actor ''api_key_generated'' None (Some ?pre) None db1"
      using assms(2) by (simp add: generateApiKey_def Let_def)
    have k: "pkey ((blank_profile i t (un_now n))\<lparr>up_key_hash := Some ?h, up_key_prefix := Some ?pre\<rparr>) = (i, False, None)"
      "pkey (q\<lparr>up_key_hash := Some ?h, up_key_prefix := Some ?pre, up_updated := un_now n\<rparr>) = pkey q" for q
      by (simp_all add: pkey_def)
    have "profiles_ok db1"
    proof (cases rule: upsert_by_user_cases [OF Some])
      case 1
      then show ?thesis using assms(1) k(2) by (simp add: profiles_ok_def map_update_where)
    next
      case 2
      then show ?thesis using assms(1) k(1) by (simp add: profiles_ok_def keys_ok_append image_pkey)
    qed
    then show ?thesis by (simp add: db' profiles_ok_def)
  qed
qed

lemma ok_role:
  assumes "profiles_ok db" "assignRole n t actor i role reason db = (r, db')"
  shows "profiles_ok db'"
  by (cases rule: assignRole_cases [OF assms(2)]) (use assms(1) in \<open>simp_all add: profiles_ok_def map_update_where\<close>)

lemma ok_kyc:
  assumes "profiles_ok db" "elevateKyc n t actor i k ref db = (r, db')"
  shows "profiles_ok db'"
proof -
  have "map pa_id (case g of None \<Rightarrow> us_agents db | Some g \<Rightarrow> update_where (\<lambda>a. pa_id a = g) (\<lambda>a. a\<lparr>pa_kyc := kyc_str k\<rparr>) (us_agents db)) = map pa_id (us_agents db)" for g
    by (simp add: map_update_where split: option.split)
  then show ?thesis using assms by (auto simp: elevateKyc_def Let_def profiles_ok_def map_update_where pkey_def)
qed

lemma routed_cases:
  assumes "usersRouter e jwt n req0 c db = (r, db')"
  obtains (same) "db' = db" | (handled) req where "requireAccessToken jwt req0 = Inr req" "requireRole_u (usr_roles c) req" "usr_call_ok e c"
    "usr_handler e n (getTenantId_u req) (getActorId req) c db = (r, db')"
  using assms by (auto simp: usersRouter_def split: sum.splits if_splits)

lemma ok_routed:
  assumes "profiles_ok db" "usersRouter e jwt n req0 c db = (r, db')"
  shows "profiles_ok db'"
proof (cases rule: routed_cases [OF assms(2)])
  case (2 req)
  then show ?thesis using assms(1)
    by (cases c) (auto intro: ok_upsert ok_role ok_kyc ok_freelancer ok_key)
qed (use assms(1) in simp)

subsection \<open>The audit log replays the roles\<close>

definition role_changes :: "string \<Rightarrow> role_audit_row list \<Rightarrow> (string \<times> string) list" where
  "role_changes i rows = map (\<lambda>a. (the (ra_old a), the (ra_new a))) (filter (\<lambda>a. ra_action a = ''role_change'' \<and> ra_target a = i) rows)"

fun role_chain :: "string \<Rightarrow> (string \<times> string) list \<Rightarrow> string \<Rightarrow> bool" where
  "role_chain r [] r' \<longleftrightarrow> r = r'"
| "role_chain r ((a, b) # xs) r' \<longleftrightarrow> a = r \<and> a \<noteq> b \<and> role_chain b xs r'"

text \<open>From one state to a later one: every user is still there, and the role changes recorded since lead from the old role to the new one.\<close>

definition replays :: "usr_db \<Rightarrow> usr_db \<Rightarrow> bool" where
  "replays db db' \<longleftrightarrow> (\<forall>u \<in> set (t_users (us_plat db)). \<exists>v \<in> set (t_users (us_plat db')). u_id v = u_id u
     \<and> (\<exists>ys. role_changes (u_id u) (t_role_audit (us_plat db')) = role_changes (u_id u) (t_role_audit (us_plat db)) @ ys
          \<and> role_chain (u_role u) ys (u_role v)))"

lemma role_chain_append: "role_chain r xs a \<Longrightarrow> role_chain a ys b \<Longrightarrow> role_chain r (xs @ ys) b"
  by (induction r xs a rule: role_chain.induct) auto

lemma role_changes_append:
  "role_changes i (rows @ [a]) = role_changes i rows @ (if ra_action a = ''role_change'' \<and> ra_target a = i then [(the (ra_old a), the (ra_new a))] else [])"
  by (simp add: role_changes_def)

lemma replays_trans:
  assumes "replays a b" "replays b c"
  shows "replays a c"
  unfolding replays_def
proof
  fix u
  assume "u \<in> set (t_users (us_plat a))"
  then obtain v ys where v: "v \<in> set (t_users (us_plat b))" "u_id v = u_id u" "role_chain (u_role u) ys (u_role v)"
    "role_changes (u_id u) (t_role_audit (us_plat b)) = role_changes (u_id u) (t_role_audit (us_plat a)) @ ys"
    using assms(1) unfolding replays_def by blast
  obtain w zs where w: "w \<in> set (t_users (us_plat c))" "u_id w = u_id u" "role_chain (u_role v) zs (u_role w)"
    "role_changes (u_id u) (t_role_audit (us_plat c)) = role_changes (u_id u) (t_role_audit (us_plat b)) @ zs"
    using assms(2) v(1,2) unfolding replays_def by metis
  show "\<exists>w \<in> set (t_users (us_plat c)). u_id w = u_id u
     \<and> (\<exists>ys. role_changes (u_id u) (t_role_audit (us_plat c)) = role_changes (u_id u) (t_role_audit (us_plat a)) @ ys \<and> role_chain (u_role u) ys (u_role w))"
    using v(4) w role_chain_append [OF v(3) w(3)] by (intro bexI [of _ w] conjI exI [of _ "ys @ zs"]) simp_all
qed

lemma replays_same:
  "set (t_users (us_plat db)) \<subseteq> set (t_users (us_plat db')) \<Longrightarrow> t_role_audit (us_plat db') = t_role_audit (us_plat db) \<Longrightarrow> replays db db'"
  by (force simp: replays_def)

lemma replays_other:
  "ac \<noteq> ''role_change'' \<Longrightarrow> t_users (us_plat db') = t_users (us_plat db) \<Longrightarrow> t_role_audit (us_plat db') = t_role_audit (us_plat db) \<Longrightarrow>
   replays db (audit n t i actor ac old new reason db')"
  by (force simp: replays_def role_changes_append)

lemma replays_routed:
  assumes "profiles_ok db" "usersRouter e jwt n req0 c db = (r, db')"
  shows "replays db db'"
proof (cases rule: routed_cases [OF assms(2)])
  case (2 req)
  let ?t = "getTenantId_u req" and ?a = "getActorId req"
  have refl: "replays db db" by (rule replays_same) simp_all
  show ?thesis
  proof (cases c)
    case (UpsertProfile i b)
    with 2(4) have "upsertProfile e n ?t ?a i b db = (r, db')" by simp
    then show ?thesis by (cases rule: upsertProfile_cases) (use refl in \<open>auto intro: replays_other\<close>)
  next
    case (RegisterFreelancer i b)
    with 2(4) have "registerFreelancer n ?t ?a i b db = (r, db')" by simp
    then show ?thesis
    proof (cases rule: registerFreelancer_cases)
      case (created c db1)
      have "us_plat db1 = us_plat db" by (cases rule: upsert_by_user_cases [OF created(5)]) simp_all
      then show ?thesis using created(6) by (auto intro: replays_other)
    qed (use refl in simp)
  next
    case (GenerateApiKey i)
    with 2(4) have g: "generateApiKey e n ?t ?a i db = (r, db')" by simp
    show ?thesis
    proof (cases "r = U_error")
      case True
      then show ?thesis using g refl by (auto simp: generateApiKey_def Let_def split: option.splits)
    next
      case False
      then obtain p f db1 pre where u: "upsert_by_user p f db = Some db1" "db' = audit n ?t ?a i ''api_key_generated'' None pre None db1 \<or> db' = audit n ?t i ?a ''api_key_generated'' None pre None db1"
        using g by (auto simp: generateApiKey_def Let_def split: option.splits)
      have "us_plat db1 = us_plat db" by (cases rule: upsert_by_user_cases [OF u(1)]) simp_all
      then show ?thesis using u(2) by (auto intro: replays_other)
    qed
  next
    case (ElevateKyc i k ref)
    with 2(4) show ?thesis by (auto simp: elevateKyc_def Let_def intro!: replays_other)
  next
    case (AssignRole i role reason)
    with 2(4) have "assignRole n ?t ?a i role reason db = (r, db')" by simp
    then show ?thesis
    proof (cases rule: assignRole_cases)
      case (changed u)
      let ?us = "update_where (\<lambda>u. u_id u = i \<and> u_tenant u = ?t) (\<lambda>u. u\<lparr>u_role := role, u_updated := un_now n\<rparr>) (t_users (us_plat db))"
      have d: "distinct (map u_id (t_users (us_plat db)))" using assms(1) by (simp add: profiles_ok_def keys_ok_def)
      have tabs: "t_users (us_plat db') = ?us" "t_role_audit (us_plat db') = t_role_audit (us_plat db) @
          [\<lparr>ra_tenant = ?t, ra_target = i, ra_actor = ?a, ra_action = ''role_change'', ra_old = Some (u_role u), ra_new = Some role, ra_reason = reason, ra_created = un_now n\<rparr>]"
        using changed(6) by simp_all
      show ?thesis
        unfolding replays_def tabs
      proof
        fix w
        assume w: "w \<in> set (t_users (us_plat db))"
        let ?v = "if u_id w = i \<and> u_tenant w = ?t then w\<lparr>u_role := role, u_updated := un_now n\<rparr> else w"
        have v: "?v \<in> set ?us" using w unfolding set_update_where by (rule imageI)
        have step: "\<exists>ys. role_changes (u_id w) (t_role_audit (us_plat db) @ [r]) = role_changes (u_id w) (t_role_audit (us_plat db)) @ ys
            \<and> role_chain (u_role w) ys (u_role ?v)"
          if r: "r = \<lparr>ra_tenant = ?t, ra_target = i, ra_actor = ?a, ra_action = ''role_change'', ra_old = Some (u_role u), ra_new = Some role,
            ra_reason = reason, ra_created = un_now n\<rparr>" for r
        proof (cases "u_id w = i")
          case True
          then have "w = u" using d w changed(1,2) by (metis distinct_map inj_onD)
          then have "u_id w = i" "u_tenant w = ?t" "u_role w = u_role u" "u_role u \<noteq> role" using changed(2-4) by simp_all
          then show ?thesis by (intro exI [of _ "[(u_role u, role)]"]) (simp add: r role_changes_append)
        next
          case False
          then show ?thesis by (intro exI [of _ "[]"]) (simp add: r role_changes_append)
        qed
        have "u_id ?v = u_id w" by simp
        with v step [OF HOL.refl] show "\<exists>v \<in> set ?us. u_id v = u_id w \<and> (\<exists>ys. role_changes (u_id w) (t_role_audit (us_plat db) @
            [\<lparr>ra_tenant = ?t, ra_target = i, ra_actor = ?a, ra_action = ''role_change'', ra_old = Some (u_role u), ra_new = Some role, ra_reason = reason, ra_created = un_now n\<rparr>])
            = role_changes (u_id w) (t_role_audit (us_plat db)) @ ys \<and> role_chain (u_role w) ys (u_role v))"
          by (intro bexI [of _ ?v] conjI)
      qed
    qed (use refl in simp)
  qed (use 2(4) refl in simp_all)
qed (simp add: replays_same)

lemma replays_step:
  assumes "profiles_ok s" "usr_step e jwt s t"
  shows "replays s t"
  using assms(2)
proof cases
  case (routed n req c r)
  then show ?thesis using replays_routed assms(1) by blast
next
  case (joined u)
  then show ?thesis by (intro replays_same) auto
next
  case (password_changed now t' i)
  then show ?thesis by (force simp: replays_def auditLog_def role_changes_append)
next
  case (agents_moved as)
  then show ?thesis by (intro replays_same) simp_all
qed

interpretation usr: invariant_system usr_init "usr_step e jwt" profiles_ok for e jwt
proof unfold_locales
  fix s
  assume "usr_init s"
  then show "profiles_ok s" by (simp add: usr_init_def profiles_ok_def keys_ok_def)
next
  fix s t
  assume "usr_step e jwt s t" "profiles_ok s"
  then show "profiles_ok t"
  proof cases
    case (routed n req c r)
    then show ?thesis using \<open>profiles_ok s\<close> ok_routed by blast
  next
    case (joined u)
    have "keys_ok (us @ [u_id u]) ks gs" if "keys_ok us ks gs" "u_id u \<notin> set us" for us ks gs
      using that unfolding keys_ok_def by (intro conjI) auto
    then show ?thesis using joined \<open>profiles_ok s\<close> by (simp add: profiles_ok_def)
  next
    case (password_changed now t i)
    then show ?thesis using \<open>profiles_ok s\<close> by (simp add: profiles_ok_def auditLog_def)
  next
    case (agents_moved as)
    have "map pa_id as = map pa_id (us_agents s)" using arg_cong [OF agents_moved(2), of "map fst"] by (simp add: comp_def)
    then show ?thesis using agents_moved \<open>profiles_ok s\<close> by (simp add: profiles_ok_def)
  qed
qed

lemma later_states:
  assumes "(usr_step e jwt)\<^sup>*\<^sup>* db db'" "reach usr_init (usr_step e jwt) db"
  shows "reach usr_init (usr_step e jwt) db' \<and> replays db db'"
  using assms(1)
proof induction
  case base
  then show ?case using assms(2) by (simp add: replays_same)
next
  case (step x y)
  then show ?case using usr.reach_inv replays_step replays_trans reach_step by metis
qed

subsection \<open>The properties\<close>

text \<open>
  C24: Profiles, users and agents stay consistent. In every reachable state, whatever requests were
  made, user ids, profile owners and agent ids are unique, every profile belongs to a user, a profile
  names an agent exactly if its user is a freelancer, and then one that exists and no other profile names.\<close>

theorem profiles_consistent:
  assumes "reach usr_init (usr_step e jwt) db"
  shows "distinct (map u_id (t_users (us_plat db))) \<and> distinct (map up_user (us_profiles db)) \<and> distinct (map pa_id (us_agents db))
    \<and> (\<forall>p \<in> set (us_profiles db). up_user p \<in> u_id ` set (t_users (us_plat db))
        \<and> (up_freelancer p \<longleftrightarrow> (\<exists>a \<in> set (us_agents db). up_agent p = Some (pa_id a)))
        \<and> (\<forall>q \<in> set (us_profiles db). up_agent q = up_agent p \<and> up_freelancer p \<longrightarrow> q = p))"
proof -
  have inv: "keys_ok (map u_id (t_users (us_plat db))) (map pkey (us_profiles db)) (map pa_id (us_agents db))"
    using usr.reach_inv [OF assms] by (simp add: profiles_ok_def)
  have ag: "agents_of (map pkey ps) = List.map_filter up_agent ps" for ps
    by (simp add: agents_of_def List.map_filter_def filter_map comp_def pkey_def)
  have inj: "p \<in> set ps \<Longrightarrow> q \<in> set ps \<Longrightarrow> up_agent p = Some g \<Longrightarrow> up_agent q = Some g \<Longrightarrow> distinct (List.map_filter up_agent ps) \<Longrightarrow> q = p" for p q g ps
  proof (induction ps)
    case (Cons x ps)
    have mem: "y \<in> set ps \<Longrightarrow> up_agent y = Some g \<Longrightarrow> g \<in> set (List.map_filter up_agent ps)" for y
      by (force simp: List.map_filter_def)
    from Cons mem show ?case by (cases "up_agent x") (auto simp: List.map_filter_simps)
  qed simp
  have d: "distinct (List.map_filter up_agent (us_profiles db))" "set (List.map_filter up_agent (us_profiles db)) \<subseteq> pa_id ` set (us_agents db)"
    and f: "p \<in> set (us_profiles db) \<Longrightarrow> up_freelancer p \<longleftrightarrow> up_agent p \<noteq> None" for p
    using inv ag by (auto simp: keys_ok_def pkey_def)
  have u: "up_user ` set (us_profiles db) \<subseteq> u_id ` set (t_users (us_plat db))" using inv by (simp add: keys_ok_def image_pkey)
  have ex: "\<exists>a \<in> set (us_agents db). g = pa_id a" if "p \<in> set (us_profiles db)" "up_agent p = Some g" for p g
    using that d(2) by (force simp: List.map_filter_def)
  show ?thesis
  proof (intro conjI ballI impI)
    show "distinct (map u_id (t_users (us_plat db)))" "distinct (map up_user (us_profiles db))" "distinct (map pa_id (us_agents db))"
      using inv by (simp_all add: keys_ok_def comp_def pkey_def)
  next
    fix p assume p: "p \<in> set (us_profiles db)"
    show "up_user p \<in> u_id ` set (t_users (us_plat db))" using u p by blast
    show "up_freelancer p \<longleftrightarrow> (\<exists>a \<in> set (us_agents db). up_agent p = Some (pa_id a))"
      using f [OF p] ex [OF p] by (cases "up_agent p") auto
    fix q assume q: "q \<in> set (us_profiles db)" "up_agent q = up_agent p \<and> up_freelancer p"
    then obtain g where "up_agent p = Some g" "up_agent q = Some g" using f [OF p] by auto
    then show "q = p" using inj [OF p q(1) _ _ d(1)] by blast
  qed
qed

text \<open>
  C23: The audit log replays the roles. From any reachable state to any later one, whatever requests come
  between, the role changes recorded for a user since then form a chain that starts with the role the user
  had, each change starting with the role the one before ended with, and ends with the role the user has
  now: no role changes without its row, and no row is written, altered or deleted without a change.\<close>

theorem role_audit_replays:
  assumes "reach usr_init (usr_step e jwt) db" "(usr_step e jwt)\<^sup>*\<^sup>* db db'"
    and "u \<in> set (t_users (us_plat db))" "v \<in> set (t_users (us_plat db'))" "u_id v = u_id u"
  shows "\<exists>ys. role_changes (u_id u) (t_role_audit (us_plat db')) = role_changes (u_id u) (t_role_audit (us_plat db)) @ ys
    \<and> role_chain (u_role u) ys (u_role v)"
proof -
  have l: "reach usr_init (usr_step e jwt) db'" "replays db db'" using later_states [OF assms(2,1)] by simp_all
  then have "distinct (map u_id (t_users (us_plat db')))"
    using usr.reach_inv by (simp add: profiles_ok_def keys_ok_def)
  then have "v = w" if "w \<in> set (t_users (us_plat db'))" "u_id w = u_id u" for w
    using that assms(4,5) by (metis distinct_map inj_onD)
  then show ?thesis using l(2) assms(3) unfolding replays_def by blast
qed

text \<open>
  C22: Only an Executive changes the tier that the payouts check. If a request changes the KYC tier of an
  existing agent, then it was the elevation route, called with a token of the role Executive, and the
  new tier is the one it names.\<close>

theorem agent_tier_protected:
  assumes "reach usr_init (usr_step e jwt) db" "usersRouter e jwt n req0 c db = (r, db')"
    and "a \<in> set (us_agents db)" "a' \<in> set (us_agents db')" "pa_id a' = pa_id a" "pa_kyc a' \<noteq> pa_kyc a"
  shows "\<exists>i k ref req. c = ElevateKyc i k ref \<and> requireAccessToken jwt req0 = Inr req \<and> caas_role req = Some ''Executive'' \<and> pa_kyc a' = kyc_str k"
proof -
  have d: "distinct (map pa_id (us_agents db))"
    using usr.reach_inv [OF assms(1)] by (simp add: profiles_ok_def keys_ok_def)
  have same: "us_agents db' \<noteq> us_agents db"
    using d assms(3-6) by (metis distinct_map inj_onD)
  show ?thesis
  proof (cases rule: routed_cases [OF assms(2)])
    case 1
    then show ?thesis using same by simp
  next
    case (2 req)
    show ?thesis
    proof (cases c)
      case (ElevateKyc i k ref)
      with 2(4) have u: "us_agents db' = (case Option.bind (tenant_profile i (getTenantId_u req) db) up_agent of None \<Rightarrow> us_agents db
          | Some g \<Rightarrow> update_where (\<lambda>a. pa_id a = g) (\<lambda>a. a\<lparr>pa_kyc := kyc_str k\<rparr>) (us_agents db))"
        by (auto simp: elevateKyc_def Let_def)
      with same obtain g where g: "us_agents db' = update_where (\<lambda>a. pa_id a = g) (\<lambda>a. a\<lparr>pa_kyc := kyc_str k\<rparr>) (us_agents db)"
        by (auto split: option.splits)
      then obtain b where b: "b \<in> set (us_agents db)" "a' = (if pa_id b = g then b\<lparr>pa_kyc := kyc_str k\<rparr> else b)"
        using assms(4) unfolding g set_update_where image_iff by blast
      then have "pa_id b = pa_id a" using assms(5) by (auto split: if_splits)
      then have "b = a" using d b(1) assms(3) by (metis distinct_map inj_onD)
      then have "pa_kyc a' = kyc_str k" using b(2) assms(6) by (auto split: if_splits)
      moreover have "caas_role req = Some ''Executive''" using 2(2) ElevateKyc by (auto simp: requireRole_u_def split: option.splits)
      ultimately show ?thesis using ElevateKyc 2(1) by blast
    next
      case (UpsertProfile i b)
      with 2(4) have "upsertProfile e n (getTenantId_u req) (getActorId req) i b db = (r, db')" by simp
      then show ?thesis using same by (cases rule: upsertProfile_cases) simp_all
    next
      case (RegisterFreelancer i b)
      with 2(4) have "registerFreelancer n (getTenantId_u req) (getActorId req) i b db = (r, db')" by simp
      then show ?thesis
      proof (cases rule: registerFreelancer_cases)
        case (created c' db1)
        have "us_agents db' = us_agents db @ [new_agent n (getTenantId_u req) b]"
          using created(6) by (cases rule: upsert_by_user_cases [OF created(5)]) simp_all
        then have "a' \<in> set (us_agents db) \<or> pa_id a' = un_uuid n" using assms(4) by (auto simp: new_agent_def)
        then have "a' \<in> set (us_agents db)" using created(3) assms(3,5) by (metis image_eqI)
        then have "a' = a" using d assms(3,5) by (metis distinct_map inj_onD)
        then show ?thesis using assms(6) by simp
      qed (use same in simp)
    next
      case (GenerateApiKey i)
      with 2(4) have "us_agents db' = us_agents db"
        by (auto simp: generateApiKey_def Let_def upsert_by_user_def insert_profile_def split: option.splits if_splits)
      then show ?thesis using same by simp
    next
      case (AssignRole i role reason)
      with 2(4) have "assignRole n (getTenantId_u req) (getActorId req) i role reason db = (r, db')" by simp
      then show ?thesis using same by (cases rule: assignRole_cases) simp_all
    qed (use 2(4) same in simp_all)
  qed
qed

text \<open>
  A new freelancer cannot be paid before an elevation. The agent that a registration creates has the
  basic tier even if the profile has a higher one, so in every country that requires more, whatever
  balance it reaches, the payout is refused for its KYC tier and nothing is converted.\<close>

theorem freelancer_needs_elevation:
  assumes "registerFreelancer n t actor i b db = (U_freelancer g c, db')" "cr_kyc c \<noteq> Basic"
    and "a \<in> set (us_agents db')" "pa_id a = g"
    and "g \<notin> pa_id ` set (us_agents db)"
  shows "\<exists>res. pay_quote pe net pn (a\<lparr>pa_balance := x\<rparr>) fx = (Inl res, fx) \<and> rs_reason res = Some R_kyc"
  using assms(1)
proof (cases rule: registerFreelancer_cases)
  case (created c' db1)
  have ags: "us_agents db' = us_agents db @ [new_agent n t b]"
    using created(6) by (cases rule: upsert_by_user_cases [OF created(5)]) simp_all
  have a: "a = new_agent n t b" using assms(3-5) ags by auto
  have c: "getCountryRequirement (fb_country b) = Inr c" using created(1,2) by simp
  have "\<not> cr_kyc c \<le> Basic" using assms(2) by (cases "cr_kyc c") (simp_all add: less_eq_kyc_tier_def)
  then have m: "meetsKycRequirement Basic (fb_country b) \<noteq> Inr True" by (simp add: meetsKycRequirement_def c less_eq_kyc_tier_def)
  have "agent_country (a\<lparr>pa_balance := x\<rparr>) = fb_country b" "pa_kyc (a\<lparr>pa_balance := x\<rparr>) = ''basic''"
    by (simp_all add: a new_agent_def agent_country_def)
  then show ?thesis using m by (simp add: pay_quote_def c kyc_of_def failResult_def)
next
  case same
  from same(2) show ?thesis by blast
qed

text \<open>
  Any user can rewrite any profile. The profile route asks for a token but for no role and compares
  the caller neither with the user nor with the tenant: a Partner of any tenant sets the KYC tier and
  the status of another user's profile, although changing the tier is reserved to Executives.\<close>

theorem any_user_rewrites_profiles:
  assumes "requireAccessToken jwt req0 = Inr req" "h_tenant_id req = Some t" "usr_call_ok e (UpsertProfile i b)" "\<not> country_refused b"
    and "distinct (map up_user (us_profiles db))" "p \<in> set (us_profiles db)" "up_user p = i" "up_tenant p = t"
    and "pb_kyc b = Some k" "pb_status b = Some st"
  shows "\<exists>db' q. usersRouter e jwt n req0 (UpsertProfile i b) db = (U_profile (un_now n), db')
    \<and> find_profile i db' = Some q \<and> up_kyc q = k \<and> up_status q = st \<and> up_tenant q = t"
proof -
  have f: "find_profile i db = Some p" using find_distinct_key [OF assms(5,6)] assms(7) by (simp add: find_profile_def)
  have "tenant_profile i t db \<noteq> None" using assms(6-8) by (auto simp: tenant_profile_None)
  then obtain db' aud where db': "usersRouter e jwt n req0 (UpsertProfile i b) db = (U_profile (un_now n), db')"
    "us_profiles db' = update_where (\<lambda>p. up_user p = i \<and> up_tenant p = t) (merge_profile b (un_now n)) (us_profiles db)"
    using assms(1-4) by (auto simp: usersRouter_def requireRole_u_def getTenantId_u_def upsertProfile_def)
  have "find_profile i db' = map_option (\<lambda>x. if up_user x = i \<and> up_tenant x = t then merge_profile b (un_now n) x else x) (find_profile i db)"
    unfolding find_profile_def db'(2) by (rule find_update_where_any) simp
  then show ?thesis using db'(1) f assms(7-10) by (simp add: merge_profile_def)
qed

text \<open>
  The permission test reports failures where there are none. Without a country, the failed tests are
  exactly one for an Executive and one for a Partner, and none for an Auditor: the tests
  named after another role expect the opposite of what that role's permissions are.\<close>

theorem permission_test_verdicts:
  "map_option (map pt_name \<circ> filter (\<lambda>t. \<not> pt_passed t)) (runPermissionTests role None k)
    = (if role = ''Executive'' then Some [''Auditor can view reports'']
       else if role = ''Partner'' then Some [''Auditor cannot write'']
       else if role = ''Auditor'' then Some [] else None)"
  by (simp add: runPermissionTests_def ROLE_PERMISSIONS_def role_tests_def check_def country_tests_def non_empty_def dropTests_def)

subsection \<open>A run\<close>

definition demo_usr_env :: usr_env where "demo_usr_env = \<lparr>u_sha = id, is_uuid = (\<lambda>_. True), u_json = (\<lambda>_. [])\<rparr>"

definition demo_jwt :: "string \<Rightarrow> jwt_result" where
  "demo_jwt t = (if t = ''E'' then JwtOk (Some ''u0'') (Some ''t'') (Some ''Executive'') else JwtOk (Some ''u1'') (Some ''other'') (Some ''Partner''))"

definition demo_call :: "string \<Rightarrow> request" where
  "demo_call tok = demo_request\<lparr>h_authorization := Some (''Bearer '' @ tok), h_tenant_id := Some ''t''\<rparr>"

definition demo_un :: usr_nonce where "demo_un = \<lparr>un_now = 5, un_uuid = ''g'', un_key = ''k''\<rparr>"

definition demo_freelancer :: freelancer_body where
  "demo_freelancer = \<lparr>fb_name = ''ann'', fb_country = ''KE'', fb_method = Momo, fb_momo = None, fb_provider = None, fb_card = None, fb_threshold = 1, fb_currency = ''KES''\<rparr>"

definition demo_usr :: usr_db where "demo_usr = \<lparr>us_plat = demo_auth_db, us_profiles = [], us_agents = []\<rparr>"

definition demo_usr2 :: usr_db where
  "demo_usr2 = snd (usersRouter demo_usr_env demo_jwt demo_un (demo_call ''P'') (RegisterFreelancer ''u1'' demo_freelancer) demo_usr)"
definition demo_usr3 :: usr_db where
  "demo_usr3 = snd (usersRouter demo_usr_env demo_jwt demo_un (demo_call ''E'') (AssignRole ''u1'' ''Auditor'' None) demo_usr2)"
definition demo_usr4 :: usr_db where
  "demo_usr4 = snd (usersRouter demo_usr_env demo_jwt demo_un (demo_call ''E'') (ElevateKyc ''u1'' Standard None) demo_usr3)"

lemma demo_token:
  "\<exists>req. requireAccessToken demo_jwt (demo_call ''P'') = Inr req \<and> caas_role req = Some ''Partner'' \<and> h_tenant_id req = Some ''t'' \<and> caas_user req = Some ''u1''"
  "\<exists>req. requireAccessToken demo_jwt (demo_call ''E'') = Inr req \<and> caas_role req = Some ''Executive'' \<and> h_tenant_id req = Some ''t'' \<and> caas_user req = Some ''u0''"
  by (simp_all add: requireAccessToken_def demo_call_def starts_with_def demo_jwt_def demo_request_def)

lemma demo_ke: "getCountryRequirement ''KE'' = Inr requirement_KE"
proof -
  have "to_upper ''KE'' = ''KE''" by code_simp
  then show ?thesis by (simp add: getCountryRequirement_def COUNTRY_REQUIREMENTS_def)
qed

lemma demo_usr_users: "t_users (us_plat demo_usr) = [demo_user]" "us_profiles demo_usr = []" "us_agents demo_usr = []" "t_role_audit (us_plat demo_usr) = []"
  by (simp_all add: demo_usr_def demo_auth_db_def demo_plat_def)

lemma demo_registered:
  "\<exists>db. registerFreelancer demo_un ''t'' ''u1'' ''u1'' demo_freelancer demo_usr = (U_freelancer ''g'' requirement_KE, db)
     \<and> us_agents db = [new_agent demo_un ''t'' demo_freelancer] \<and> us_profiles db = [freelancer_profile demo_un ''t'' ''u1'' demo_freelancer]
     \<and> t_users (us_plat db) = [demo_user]"
proof -
  have "tenant_user ''u1'' ''t'' demo_usr = Some demo_user" by (simp add: tenant_user_def demo_usr_users demo_user_simps)
  moreover have "Momo \<in> pm_method ` set (cr_methods requirement_KE)" by (simp add: requirement_KE_def)
  moreover have "fb_country demo_freelancer = ''KE''" "fb_method demo_freelancer = Momo" "un_uuid demo_un = ''g''"
    by (simp_all add: demo_freelancer_def demo_un_def)
  moreover have "find_profile ''u1'' demo_usr = None" by (simp add: find_profile_def demo_usr_users)
  moreover have "up_user (freelancer_profile demo_un ''t'' ''u1'' demo_freelancer) = ''u1''" by (simp add: freelancer_profile_def)
  ultimately show ?thesis
    by (simp add: registerFreelancer_def demo_ke upsert_by_user_def insert_profile_def demo_usr_users demo_user_simps)
qed

lemma demo_registered_routed:
  "registerFreelancer demo_un ''t'' ''u1'' ''u1'' demo_freelancer demo_usr = (U_freelancer ''g'' requirement_KE, demo_usr2)"
proof -
  obtain db where db: "registerFreelancer demo_un ''t'' ''u1'' ''u1'' demo_freelancer demo_usr = (U_freelancer ''g'' requirement_KE, db)" using demo_registered by blast
  have ok: "usr_call_ok demo_usr_env (RegisterFreelancer ''u1'' demo_freelancer)"
    by (simp add: demo_usr_env_def demo_freelancer_def filled_opt_def)
  obtain req where "requireAccessToken demo_jwt (demo_call ''P'') = Inr req" "h_tenant_id req = Some ''t''" "caas_user req = Some ''u1''" using demo_token(1) by blast
  then show ?thesis using db ok by (simp add: demo_usr2_def usersRouter_def requireRole_u_def getTenantId_u_def getActorId_def)
qed

lemma demo_usr2_tables:
  "us_agents demo_usr2 = [new_agent demo_un ''t'' demo_freelancer]" "us_profiles demo_usr2 = [freelancer_profile demo_un ''t'' ''u1'' demo_freelancer]"
  "t_users (us_plat demo_usr2) = [demo_user]"
  using demo_registered demo_registered_routed by simp_all

lemma demo_usr_reach: "reach usr_init (usr_step demo_usr_env demo_jwt) demo_usr"
  by (rule reach_init) (simp add: usr_init_def demo_usr_users)

lemma demo_usr2_reach: "reach usr_init (usr_step demo_usr_env demo_jwt) demo_usr2"
  by (rule reach_step [OF demo_usr_reach], rule routed [of _ _ demo_un "demo_call ''P''" "RegisterFreelancer ''u1'' demo_freelancer"])
    (simp add: demo_usr2_def prod_eq_iff)

lemma demo_usr3_tables:
  "t_users (us_plat demo_usr3) = [demo_user\<lparr>u_role := ''Auditor'', u_updated := 5\<rparr>]" "us_agents demo_usr3 = us_agents demo_usr2" "us_profiles demo_usr3 = us_profiles demo_usr2"
proof -
  obtain req where r: "requireAccessToken demo_jwt (demo_call ''E'') = Inr req" "h_tenant_id req = Some ''t''" "caas_role req = Some ''Executive''" using demo_token(2) by blast
  have "tenant_user ''u1'' ''t'' demo_usr2 = Some demo_user" by (simp add: tenant_user_def demo_usr2_tables demo_user_simps)
  then show "t_users (us_plat demo_usr3) = [demo_user\<lparr>u_role := ''Auditor'', u_updated := 5\<rparr>]" "us_agents demo_usr3 = us_agents demo_usr2" "us_profiles demo_usr3 = us_profiles demo_usr2"
    using r by (simp_all add: demo_usr3_def usersRouter_def requireRole_u_def getTenantId_u_def assignRole_def demo_usr_env_def filled_opt_def
        demo_user_simps demo_usr2_tables update_where_def demo_un_def)
qed

lemma demo_usr3_step: "usr_step demo_usr_env demo_jwt demo_usr2 demo_usr3"
  by (rule routed [of _ _ demo_un "demo_call ''E''" "AssignRole ''u1'' ''Auditor'' None"]) (simp add: demo_usr3_def prod_eq_iff)

lemma demo_usr3_reach: "reach usr_init (usr_step demo_usr_env demo_jwt) demo_usr3"
  by (rule reach_step [OF demo_usr2_reach demo_usr3_step])

theorem profiles_consistent_witness:
  "\<exists>db p a. reach usr_init (usr_step demo_usr_env demo_jwt) db \<and> us_profiles db = [p] \<and> us_agents db = [a] \<and> up_agent p = Some (pa_id a)"
proof -
  let ?p = "freelancer_profile demo_un ''t'' ''u1'' demo_freelancer"
  have "up_freelancer ?p" by (simp add: freelancer_profile_def)
  moreover have "\<forall>p \<in> set (us_profiles demo_usr2). up_freelancer p \<longleftrightarrow> (\<exists>a \<in> set (us_agents demo_usr2). up_agent p = Some (pa_id a))"
    using profiles_consistent [OF demo_usr2_reach] by blast
  ultimately have "up_agent ?p = Some (pa_id (new_agent demo_un ''t'' demo_freelancer))" by (simp add: demo_usr2_tables)
  then show ?thesis using demo_usr2_reach demo_usr2_tables by blast
qed

theorem role_audit_replays_witness:
  "\<exists>ys. role_changes ''u1'' (t_role_audit (us_plat demo_usr3)) = role_changes ''u1'' (t_role_audit (us_plat demo_usr2)) @ ys
    \<and> role_chain ''Partner'' ys ''Auditor''"
proof -
  let ?u = "demo_user\<lparr>u_role := ''Auditor'', u_updated := 5\<rparr>"
  have "(usr_step demo_usr_env demo_jwt)\<^sup>*\<^sup>* demo_usr2 demo_usr3" using demo_usr3_step by blast
  from role_audit_replays [OF demo_usr2_reach this, of demo_user ?u] show ?thesis
    by (simp add: demo_usr2_tables demo_usr3_tables demo_user_simps)
qed

theorem agent_tier_protected_witness:
  "\<exists>a. us_agents demo_usr4 = [a] \<and> pa_kyc a = ''standard'' \<and> (\<exists>req. requireAccessToken demo_jwt (demo_call ''E'') = Inr req \<and> caas_role req = Some ''Executive'')"
proof -
  let ?a = "new_agent demo_un ''t'' demo_freelancer"
  obtain req where r: "requireAccessToken demo_jwt (demo_call ''E'') = Inr req" "h_tenant_id req = Some ''t''" "caas_role req = Some ''Executive''" using demo_token(2) by blast
  have a: "pa_id ?a = ''g''" "pa_kyc ?a = ''basic''" by (simp_all add: new_agent_def demo_un_def)
  have p: "tenant_profile ''u1'' ''t'' demo_usr3 = Some (freelancer_profile demo_un ''t'' ''u1'' demo_freelancer)"
    by (simp add: tenant_profile_def demo_usr3_tables demo_usr2_tables freelancer_profile_def)
  have g: "up_agent (freelancer_profile demo_un ''t'' ''u1'' demo_freelancer) = Some ''g''" by (simp add: freelancer_profile_def demo_un_def)
  have s: "us_agents demo_usr4 = [?a\<lparr>pa_kyc := ''standard''\<rparr>]"
    using r a by (simp add: demo_usr4_def usersRouter_def requireRole_u_def getTenantId_u_def elevateKyc_def Let_def p g demo_usr_env_def filled_opt_def
        demo_usr3_tables demo_usr2_tables update_where_def)
  have call: "usersRouter demo_usr_env demo_jwt demo_un (demo_call ''E'') (ElevateKyc ''u1'' Standard None) demo_usr3
      = (fst (usersRouter demo_usr_env demo_jwt demo_un (demo_call ''E'') (ElevateKyc ''u1'' Standard None) demo_usr3), demo_usr4)"
    by (simp add: demo_usr4_def)
  from agent_tier_protected [OF demo_usr3_reach call, of ?a "?a\<lparr>pa_kyc := ''standard''\<rparr>"] a s show ?thesis
    by (auto simp: demo_usr3_tables demo_usr2_tables)
qed

theorem freelancer_needs_elevation_witness:
  "\<forall>pe net pn fx. \<exists>res. pay_quote pe net pn ((new_agent demo_un ''t'' demo_freelancer)\<lparr>pa_balance := 100\<rparr>) fx = (Inl res, fx) \<and> rs_reason res = Some R_kyc"
  by (intro allI, rule freelancer_needs_elevation [OF demo_registered_routed])
    (simp_all add: demo_usr2_tables demo_usr_users requirement_KE_def, simp add: new_agent_def demo_un_def)

theorem any_user_rewrites_profiles_witness:
  "\<exists>db' q. usersRouter demo_usr_env demo_jwt demo_un (demo_call ''P'') (UpsertProfile ''u1'' \<lparr>pb_name = None, pb_phone = None, pb_country = None,
      pb_currency = None, pb_bio = None, pb_kyc = Some Enhanced, pb_status = Some Active\<rparr>) demo_usr2 = (U_profile 5, db')
    \<and> find_profile ''u1'' db' = Some q \<and> up_kyc q = Enhanced"
proof -
  let ?b = "\<lparr>pb_name = None, pb_phone = None, pb_country = None, pb_currency = None, pb_bio = None, pb_kyc = Some Enhanced, pb_status = Some Active\<rparr>"
  obtain req where r: "requireAccessToken demo_jwt (demo_call ''P'') = Inr req" "h_tenant_id req = Some ''t''" using demo_token(1) by blast
  have ok: "usr_call_ok demo_usr_env (UpsertProfile ''u1'' ?b)" "\<not> country_refused ?b" "pb_kyc ?b = Some Enhanced" "pb_status ?b = Some Active"
    by (simp_all add: demo_usr_env_def filled_opt_def has_length_def country_refused_def non_empty_def)
  have p: "freelancer_profile demo_un ''t'' ''u1'' demo_freelancer \<in> set (us_profiles demo_usr2)" "distinct (map up_user (us_profiles demo_usr2))"
    "up_user (freelancer_profile demo_un ''t'' ''u1'' demo_freelancer) = ''u1''" "up_tenant (freelancer_profile demo_un ''t'' ''u1'' demo_freelancer) = ''t''"
    by (simp_all add: demo_usr2_tables freelancer_profile_def)
  from any_user_rewrites_profiles [OF r ok(1,2) p(2,1,3,4) ok(3,4), of demo_un] show ?thesis by (auto simp: demo_un_def)
qed

end
