(* ===== verification/Accounts.thy ===== *)
theory Accounts
  imports DualPlane Badge
begin

section \<open>Tenant accounts, their API keys and the decisions they send\<close>

text \<open>
  The model of src/routes/provisioning.ts (accounts) and src/routes/pilot-ingest.ts (decisions sent
  with an API key). The database is the accounts and pilot_decisions tables, the account rows of the
  commercial audit log, the governance tables that hold the badges, and the tables the guards use.
  SHA-256 in hexadecimal, the HMAC and secrets of the badges, the random key and id, and the three
  patterns of the schemas (UUID, e-mail, RFC 3339) are parameters; \<open>cn_now\<close> is the clock during one
  handler, which does not wait for anything. An exception inside a transaction rolls it back.
\<close>

datatype acct_tier = LITE | GROWTH | ENTERPRISE

datatype acct_status = Pilot | Active | Suspended | Churned

fun tier_text :: "acct_tier \<Rightarrow> string" where
  "tier_text LITE = ''LITE''"
| "tier_text GROWTH = ''GROWTH''"
| "tier_text ENTERPRISE = ''ENTERPRISE''"

fun status_text :: "acct_status \<Rightarrow> string" where
  "status_text Pilot = ''pilot''"
| "status_text Active = ''active''"
| "status_text Suspended = ''suspended''"
| "status_text Churned = ''churned''"

record acct_row =
  ac_id :: string
  ac_tenant :: string
  ac_tier :: acct_tier
  ac_status :: acct_status
  ac_hash :: string
  ac_prefix :: string
  ac_rotated :: "time option"
  ac_pilot_start :: "time option"
  ac_pilot_end :: "time option"
  ac_name :: string
  ac_email :: "string option"
  ac_created :: time
  ac_updated :: time

record decision_row =
  dr_id :: string
  dr_tenant :: string
  dr_account :: string
  dr_client :: "string option"
  dr_class :: "string option"
  dr_risk :: "jnum option"
  dr_payload :: ustring
  dr_hash :: string
  dr_ip :: "string option"
  dr_agent :: "string option"
  dr_received :: time

record acct_audit_row =
  aa_tenant :: string
  aa_actor :: string
  aa_entity :: string
  aa_action :: string
  aa_old :: "string option"
  aa_new :: "string option"
  aa_meta :: string
  aa_created :: time

record acct_db =
  ad_accounts :: "acct_row list"
  ad_decisions :: "decision_row list"
  ad_audit :: "acct_audit_row list"
  ad_gov :: gov_db
  ad_plane :: plane_state

record acct_env =
  ae_sha :: "ustring \<Rightarrow> string"
  ae_hmac :: "string \<Rightarrow> string \<Rightarrow> ustring"
  ae_sec :: resolved_secrets
  ae_uuid :: "string \<Rightarrow> bool"
  ae_email :: "string \<Rightarrow> bool"
  ae_datetime :: "string \<Rightarrow> bool"

record acct_nonce =
  cn_now :: time
  cn_id :: string
  cn_random :: string
  cn_ids :: "string list"

subsection \<open>Provisioning (provisioning.ts)\<close>

record create_body =
  cb_tenant :: string
  cb_name :: string
  cb_tier :: acct_tier
  cb_email :: "string option"
  cb_days :: int

record api_key =
  key_raw :: string
  key_hash :: string
  key_prefix :: string

definition generateApiKey :: "acct_env \<Rightarrow> acct_nonce \<Rightarrow> api_key" where
  "generateApiKey e n = (let raw = ''caas_'' @ cn_random n in \<lparr>key_raw = raw, key_hash = ae_sha e (units raw), key_prefix = take 12 raw\<rparr>)"

text \<open>\<open>getActorId\<close> reads \<open>req.userId\<close>, a property that no code under src/ sets.\<close>

definition acct_actor :: "request \<Rightarrow> string" where "acct_actor req = ''system''"

text \<open>The greatest time value of a \<open>Date\<close>; \<open>toISOString\<close> throws beyond it.\<close>

definition max_time :: time where "max_time = 8640000000000000"

definition quoted :: "string \<Rightarrow> string" where "quoted s = [CHR 0x22] @ s @ [CHR 0x22]"

definition acct_audit :: "acct_nonce \<Rightarrow> string \<Rightarrow> string \<Rightarrow> string \<Rightarrow> string \<Rightarrow> string option \<Rightarrow> string option \<Rightarrow> string \<Rightarrow> acct_db \<Rightarrow> acct_db" where
  "acct_audit n t actor i act old new meta db =
     db\<lparr>ad_audit := ad_audit db @ [\<lparr>aa_tenant = t, aa_actor = actor, aa_entity = i, aa_action = act, aa_old = old, aa_new = new,
        aa_meta = meta, aa_created = cn_now n\<rparr>]\<rparr>"

definition new_account :: "acct_env \<Rightarrow> acct_nonce \<Rightarrow> create_body \<Rightarrow> acct_row" where
  "new_account e n b =
     \<lparr>ac_id = cn_id n, ac_tenant = cb_tenant b, ac_tier = cb_tier b, ac_status = Pilot, ac_hash = key_hash (generateApiKey e n),
      ac_prefix = key_prefix (generateApiKey e n), ac_rotated = None, ac_pilot_start = Some (cn_now n),
      ac_pilot_end = Some (cn_now n + cb_days b * 86400000), ac_name = cb_name b, ac_email = cb_email b,
      ac_created = cn_now n, ac_updated = cn_now n\<rparr>"

definition created_new_value :: "create_body \<Rightarrow> string" where
  "created_new_value b = ''{'' @ quoted ''tier'' @ '':'' @ quoted (tier_text (cb_tier b)) @ '','' @ quoted ''status'' @ '':'' @ quoted ''pilot'' @ ''}''"

definition created_meta :: "acct_env \<Rightarrow> acct_nonce \<Rightarrow> create_body \<Rightarrow> string" where
  "created_meta e n b = ''{'' @ quoted ''api_key_prefix'' @ '':'' @ quoted (key_prefix (generateApiKey e n)) @ '',''
     @ quoted ''pilot_days'' @ '':'' @ num_str (Fin (of_int (cb_days b))) @ ''}''"

text \<open>The governance tables see an account by its id and tenant.\<close>

definition gov_of :: "acct_row list \<Rightarrow> gov_db \<Rightarrow> gov_db" where
  "gov_of as g = g\<lparr>accounts := map (\<lambda>a. \<lparr>acc_id = ac_id a, acc_tenant = ac_tenant a\<rparr>) as\<rparr>"

datatype acct_resp =
  A_unauthorized auth_reject | A_guard guard_result | A_bad_request | A_exists string | A_error | A_not_found
| A_created acct_row string ustring | A_view acct_row | A_same_tier acct_tier | A_tier acct_tier acct_tier time | A_rotated string string time

definition find_account :: "string \<Rightarrow> acct_db \<Rightarrow> acct_row option" where
  "find_account i db = List.find (\<lambda>a. ac_id a = i) (ad_accounts db)"

definition createAccount :: "acct_env \<Rightarrow> acct_nonce \<Rightarrow> string \<Rightarrow> create_body \<Rightarrow> acct_db \<Rightarrow> acct_resp \<times> acct_db" where
  "createAccount e n actor b db =
     (case List.find (\<lambda>a. ac_tenant a = cb_tenant b) (ad_accounts db) of
        Some a \<Rightarrow> (A_exists (ac_id a), db)
      | None \<Rightarrow>
          if cn_now n + cb_days b * 86400000 > max_time \<or> cn_id n \<in> ac_id ` set (ad_accounts db) then (A_error, db)
          else
            let row = new_account e n b; as = ad_accounts db @ [row]
            in case syncBadge (ae_hmac e) (ae_sec e) (cn_now n) (cb_tenant b) (cn_id n)
                      \<lparr>in_policy_state = None, in_evidence = None\<rparr> (gov_of as (ad_gov db)) of
                 Inl _ \<Rightarrow> (A_error, db)
               | Inr (s, g) \<Rightarrow>
                   (A_created row (key_raw (generateApiKey e n)) (sr_signature s),
                    acct_audit n (cb_tenant b) actor (cn_id n) ''create'' None (Some (created_new_value b)) (created_meta e n b)
                      (db\<lparr>ad_accounts := as, ad_gov := g\<rparr>)))"

definition getAccount :: "string \<Rightarrow> acct_db \<Rightarrow> acct_resp" where
  "getAccount i db = (case find_account i db of None \<Rightarrow> A_not_found | Some a \<Rightarrow> A_view a)"

definition changeTier :: "acct_nonce \<Rightarrow> string \<Rightarrow> string \<Rightarrow> acct_tier \<Rightarrow> acct_db \<Rightarrow> acct_resp \<times> acct_db" where
  "changeTier n actor i tier db =
     (case find_account i db of
        None \<Rightarrow> (A_not_found, db)
      | Some a \<Rightarrow>
          if ac_tier a = tier then (A_same_tier tier, db)
          else (A_tier tier (ac_tier a) (cn_now n),
            acct_audit n (ac_tenant a) actor i ''tier_change'' (Some (tier_text (ac_tier a))) (Some (tier_text tier)) ''{}''
              (db\<lparr>ad_accounts := update_where (\<lambda>x. ac_id x = i \<and> ac_tenant x = ac_tenant a)
                 (\<lambda>x. x\<lparr>ac_tier := tier, ac_updated := cn_now n\<rparr>) (ad_accounts db)\<rparr>)))"

definition rotateApiKey :: "acct_env \<Rightarrow> acct_nonce \<Rightarrow> string \<Rightarrow> string \<Rightarrow> acct_db \<Rightarrow> acct_resp \<times> acct_db" where
  "rotateApiKey e n actor i db =
     (case find_account i db of
        None \<Rightarrow> (A_not_found, db)
      | Some a \<Rightarrow>
          let k = generateApiKey e n
          in (A_rotated (key_raw k) (key_prefix k) (cn_now n),
              acct_audit n (ac_tenant a) actor i ''key_rotation'' (Some (ac_prefix a)) (Some (key_prefix k)) ''{}''
                (db\<lparr>ad_accounts := update_where (\<lambda>x. ac_id x = i \<and> ac_tenant x = ac_tenant a)
                   (\<lambda>x. x\<lparr>ac_hash := key_hash k, ac_prefix := key_prefix k, ac_rotated := Some (cn_now n), ac_updated := cn_now n\<rparr>)
                   (ad_accounts db)\<rparr>)))"

datatype acct_call = CreateAccount create_body | RotateKey string | ChangeTier string acct_tier | GetAccount string

fun acct_call_ok :: "acct_env \<Rightarrow> acct_call \<Rightarrow> bool" where
  "acct_call_ok e (CreateAccount b) \<longleftrightarrow> cb_tenant b \<noteq> [] \<and> cb_name b \<noteq> []
     \<and> (case cb_email b of None \<Rightarrow> True | Some m \<Rightarrow> ae_email e m) \<and> 0 < cb_days b"
| "acct_call_ok e (RotateKey i) \<longleftrightarrow> ae_uuid e i"
| "acct_call_ok e (ChangeTier i _) \<longleftrightarrow> ae_uuid e i"
| "acct_call_ok e (GetAccount i) \<longleftrightarrow> ae_uuid e i"

fun acct_guard :: "acct_call \<Rightarrow> requirement option" where
  "acct_guard (GetAccount _) = None"
| "acct_guard _ = Some (requireBusinessPlane (Some [''global_super_admin'']))"

fun acct_handler :: "acct_env \<Rightarrow> acct_nonce \<Rightarrow> string \<Rightarrow> acct_call \<Rightarrow> acct_db \<Rightarrow> acct_resp \<times> acct_db" where
  "acct_handler e n actor (CreateAccount b) db = createAccount e n actor b db"
| "acct_handler e n actor (RotateKey i) db = rotateApiKey e n actor i db"
| "acct_handler e n actor (ChangeTier i tier) db = changeTier n actor i tier db"
| "acct_handler e n actor (GetAccount i) db = (getAccount i db, db)"

definition provisioningRouter ::
  "acct_env \<Rightarrow> (string \<Rightarrow> jwt_result) \<Rightarrow> acct_nonce \<Rightarrow> request \<Rightarrow> acct_call \<Rightarrow> acct_db \<Rightarrow> acct_resp \<times> acct_db" where
  "provisioningRouter e jwt n req0 c db =
     (case requireAccessToken jwt req0 of
        Inl x \<Rightarrow> (A_unauthorized x, db)
      | Inr req \<Rightarrow>
          (case acct_guard c of
             None \<Rightarrow> if acct_call_ok e c then acct_handler e n (acct_actor req) c db else (A_bad_request, db)
           | Some rq \<Rightarrow>
               let (g, pl) = requireDualPlane rq (cn_now n) req (ad_plane db); db1 = db\<lparr>ad_plane := pl\<rparr>
               in case g of
                    Passed _ \<Rightarrow> if acct_call_ok e c then acct_handler e n (acct_actor req) c db1 else (A_bad_request, db1)
                  | _ \<Rightarrow> (A_guard g, db1)))"

subsection \<open>Decisions (pilot-ingest.ts)\<close>

definition MAX_PAYLOAD_BYTES :: nat where "MAX_PAYLOAD_BYTES = 8192"
definition MAX_BATCH_SIZE :: nat where "MAX_BATCH_SIZE = 50"

text \<open>The regular expression of the header: \<open>Bearer\<close>, white space, \<open>caas_\<close> and 64 hexadecimal digits, in any case.\<close>

definition re_space :: "char \<Rightarrow> bool" where "re_space c \<longleftrightarrow> is_space c \<or> code c = 160"

definition re_hex :: "char \<Rightarrow> bool" where
  "re_hex c \<longleftrightarrow> is_digit c \<or> (97 \<le> code (lower_char c) \<and> code (lower_char c) \<le> 102)"

definition match_key :: "string \<Rightarrow> string option" where
  "match_key h =
     (let k = dropWhile re_space (drop 6 h)
      in if to_lower (take 6 h) = ''bearer'' \<and> drop 6 h \<noteq> k \<and> to_lower (take 5 k) = ''caas_'' \<and> length k = 69 \<and> list_all re_hex (drop 5 k)
         then Some k else None)"

datatype pilot_reject = PMalformed401 | PInvalid401 | PInactive403 acct_status | PError500

definition requireApiKey :: "acct_env \<Rightarrow> acct_db \<Rightarrow> request \<Rightarrow> pilot_reject + acct_row" where
  "requireApiKey e db req =
     (case match_key (or_default [] (h_authorization req)) of
        None \<Rightarrow> Inl PMalformed401
      | Some k \<Rightarrow>
          (case List.find (\<lambda>a. ac_prefix a = take API_KEY_PREFIX_LENGTH k) (ad_accounts db) of
             None \<Rightarrow> Inl PInvalid401
           | Some a \<Rightarrow>
               (case safeEqual (units (ac_hash a)) (units (ae_sha e (units k))) of
                  Inl _ \<Rightarrow> Inl PError500
                | Inr False \<Rightarrow> Inl PInvalid401
                | Inr True \<Rightarrow> if ac_status a \<in> {Suspended, Churned} then Inl (PInactive403 (ac_status a)) else Inr a)))"

text \<open>A decision after parsing; \<open>dp_payload\<close> is what \<open>JSON.stringify\<close> prints for its payload.\<close>

record decision_payload =
  dp_client :: "string option"
  dp_class :: "string option"
  dp_risk :: "jnum option"
  dp_payload :: "ustring option"

datatype ingest_body = Single decision_payload | Batch "decision_payload list" | Malformed

definition decision_ok :: "decision_payload \<Rightarrow> bool" where
  "decision_ok d \<longleftrightarrow> dp_client d \<noteq> Some [] \<and> dp_class d \<noteq> Some [] \<and> dp_risk d \<notin> {Some PosInf, Some NegInf, Some NaN}"

fun ingest_ok :: "ingest_body \<Rightarrow> bool" where
  "ingest_ok (Single d) \<longleftrightarrow> decision_ok d"
| "ingest_ok (Batch ds) \<longleftrightarrow> ds \<noteq> [] \<and> list_all decision_ok ds"
| "ingest_ok Malformed \<longleftrightarrow> False"

fun decisions_of :: "ingest_body \<Rightarrow> decision_payload list" where
  "decisions_of (Single d) = [d]"
| "decisions_of (Batch ds) = ds"
| "decisions_of Malformed = []"

definition payload_text :: "decision_payload \<Rightarrow> ustring" where
  "payload_text d = or_default (units ''{}'') (dp_payload d)"

definition oversized :: "decision_payload \<Rightarrow> bool" where
  "oversized d \<longleftrightarrow> length (utf8 (payload_text d)) > MAX_PAYLOAD_BYTES"

definition decision_row_of :: "acct_env \<Rightarrow> acct_nonce \<Rightarrow> acct_row \<Rightarrow> request \<Rightarrow> string \<Rightarrow> decision_payload \<Rightarrow> decision_row" where
  "decision_row_of e n a req i d =
     \<lparr>dr_id = i, dr_tenant = ac_tenant a, dr_account = ac_id a, dr_client = dp_client d, dr_class = dp_class d, dr_risk = dp_risk d,
      dr_payload = payload_text d, dr_hash = ae_sha e (units (ac_tenant a) @ payload_text d), dr_ip = r_remote req,
      dr_agent = h_user_agent req, dr_received = cn_now n\<rparr>"

text \<open>The inserts of a transaction: an id that is taken, or an account that is not there, rolls all of them back.\<close>

fun insert_decisions :: "decision_row list \<Rightarrow> acct_db \<Rightarrow> acct_db option" where
  "insert_decisions [] db = Some db"
| "insert_decisions (r # rs) db =
     (if dr_id r \<in> dr_id ` set (ad_decisions db) \<or> dr_account r \<notin> ac_id ` set (ad_accounts db) then None
      else insert_decisions rs (db\<lparr>ad_decisions := ad_decisions db @ [r]\<rparr>))"

datatype pilot_resp =
  P_rejected pilot_reject | P_bad_request | P_batch_too_large nat | P_payload_too_large nat | P_error
| P_accepted "string list" time | P_list "decision_row list"

fun first_index :: "('a \<Rightarrow> bool) \<Rightarrow> 'a list \<Rightarrow> nat option" where
  "first_index p [] = None"
| "first_index p (x # xs) = (if p x then Some 0 else map_option Suc (first_index p xs))"

definition ingestDecisions :: "acct_env \<Rightarrow> acct_nonce \<Rightarrow> acct_row \<Rightarrow> request \<Rightarrow> ingest_body \<Rightarrow> acct_db \<Rightarrow> pilot_resp \<times> acct_db" where
  "ingestDecisions e n a req body db =
     (let ds = decisions_of body
      in if length ds > MAX_BATCH_SIZE then (P_batch_too_large (length ds), db)
         else case first_index oversized ds of
                Some i \<Rightarrow> (P_payload_too_large i, db)
              | None \<Rightarrow>
                  (case insert_decisions (map2 (decision_row_of e n a req) (cn_ids n) ds) db of
                     None \<Rightarrow> (P_error, db)
                   | Some db' \<Rightarrow> (P_accepted (take (length ds) (cn_ids n)) (cn_now n), db')))"

text \<open>\<open>received_at > ?\<close> compares texts.\<close>

fun text_less :: "string \<Rightarrow> string \<Rightarrow> bool" where
  "text_less _ [] \<longleftrightarrow> False"
| "text_less [] (_ # _) \<longleftrightarrow> True"
| "text_less (a # s) (b # t) \<longleftrightarrow> code a < code b \<or> (a = b \<and> text_less s t)"

definition listDecisions :: "acct_row \<Rightarrow> int \<Rightarrow> string option \<Rightarrow> acct_db \<Rightarrow> pilot_resp" where
  "listDecisions a limit since db =
     P_list (take (nat limit) (sort_key (\<lambda>d. - dr_received d)
       (filter (\<lambda>d. dr_account d = ac_id a \<and> (case since of None \<Rightarrow> True | Some s \<Rightarrow> text_less s (iso_string (dr_received d))))
         (ad_decisions db))))"

datatype pilot_call = Ingest ingest_body | ListDecisions int "string option"

fun pilot_call_ok :: "acct_env \<Rightarrow> pilot_call \<Rightarrow> bool" where
  "pilot_call_ok e (Ingest b) \<longleftrightarrow> ingest_ok b"
| "pilot_call_ok e (ListDecisions limit since) \<longleftrightarrow> 1 \<le> limit \<and> limit \<le> 500 \<and> (case since of None \<Rightarrow> True | Some s \<Rightarrow> ae_datetime e s)"

fun pilot_handler :: "acct_env \<Rightarrow> acct_nonce \<Rightarrow> acct_row \<Rightarrow> request \<Rightarrow> pilot_call \<Rightarrow> acct_db \<Rightarrow> pilot_resp \<times> acct_db" where
  "pilot_handler e n a req (Ingest b) db = ingestDecisions e n a req b db"
| "pilot_handler e n a req (ListDecisions limit since) db = (listDecisions a limit since db, db)"

definition pilotIngestRouter :: "acct_env \<Rightarrow> acct_nonce \<Rightarrow> request \<Rightarrow> pilot_call \<Rightarrow> acct_db \<Rightarrow> pilot_resp \<times> acct_db" where
  "pilotIngestRouter e n req c db =
     (case requireApiKey e db req of
        Inl x \<Rightarrow> (P_rejected x, db)
      | Inr a \<Rightarrow> if pilot_call_ok e c then pilot_handler e n a req c db else (P_bad_request, db))"

end
