(* ===== verification/Pov.thy ===== *)
theory Pov
  imports Accounts
begin

section \<open>Proof-of-value statements (pov-billing.ts)\<close>

text \<open>
  The model of src/routes/pov-billing.ts: the statement of an account over a window of days, computed
  from the access metrics in doubles, its rendering as text, and the two routes. A line of the text is
  the list of its UTF-16 units, since the rules are drawn with characters outside ASCII. The sign of
  a zero is not modelled.
\<close>

fun PENALTY_BASELINE_USD :: "acct_tier \<Rightarrow> rat" where
  "PENALTY_BASELINE_USD LITE = 5000"
| "PENALTY_BASELINE_USD GROWTH = 25000"
| "PENALTY_BASELINE_USD ENTERPRISE = 100000"

fun TIER_MONTHLY_COST_USD :: "acct_tier \<Rightarrow> rat" where
  "TIER_MONTHLY_COST_USD LITE = 500"
| "TIER_MONTHLY_COST_USD GROWTH = 2500"
| "TIER_MONTHLY_COST_USD ENTERPRISE = 12000"

definition CROSSING_MULTIPLIER :: rat where "CROSSING_MULTIPLIER = 3"

record statement_metrics =
  sm_risks :: nat
  sm_crossings :: nat
  sm_total :: nat
  sm_days :: int
  sm_start :: time
  sm_end :: time

record statement_economics =
  se_baseline :: rat
  se_multiplier :: rat
  se_value :: int
  se_cost :: int
  se_roi :: rat
  se_net :: int

record statement =
  st_account :: acct_row
  st_metrics :: statement_metrics
  st_economics :: statement_economics
  st_generated :: time

definition daysAgo :: "time \<Rightarrow> int \<Rightarrow> time" where "daysAgo now days = now - days * 86400000"

definition window_rows :: "time \<Rightarrow> int \<Rightarrow> string \<Rightarrow> plat_db \<Rightarrow> access_metric_row list" where
  "window_rows now days t db = filter (\<lambda>m. m_tenant m = Some t \<and> daysAgo now days < m_evaluated_at m) (t_metrics db)"

text \<open>\<open>SUM\<close> over no rows is NULL, which JavaScript's arithmetic reads as 0 and \<open>??\<close> replaces by 0.\<close>

definition risks_blocked :: "access_metric_row list \<Rightarrow> nat" where
  "risks_blocked ms = or_default 0 (sum_case (\<lambda>m. \<not> m_granted m) ms)"

definition crossings_blocked :: "access_metric_row list \<Rightarrow> nat" where
  "crossings_blocked ms = or_default 0 (sum_case (\<lambda>m. m_boundary_crossing m \<and> \<not> m_granted m) ms)"

definition value_delivered :: "acct_tier \<Rightarrow> nat \<Rightarrow> nat \<Rightarrow> rat" where
  "value_delivered tier risks crossings =
     (let baseline = PENALTY_BASELINE_USD tier;
          ordinary = fmul (fsub (of_nat risks) (of_nat crossings)) baseline;
          crossing = fmul (fmul (of_nat crossings) baseline) CROSSING_MULTIPLIER
      in fadd (max 0 ordinary) crossing)"

definition platform_cost :: "acct_tier \<Rightarrow> int \<Rightarrow> rat" where
  "platform_cost tier days = fmul (TIER_MONTHLY_COST_USD tier) (fdiv (of_int days) 30)"

definition roi_ratio :: "rat \<Rightarrow> rat \<Rightarrow> rat" where
  "roi_ratio v c = (if c > 0 then fdiv v c else 0)"

definition economics_of :: "acct_tier \<Rightarrow> int \<Rightarrow> nat \<Rightarrow> nat \<Rightarrow> statement_economics" where
  "economics_of tier days risks crossings =
     (let v = value_delivered tier risks crossings; c = platform_cost tier days
      in \<lparr>se_baseline = PENALTY_BASELINE_USD tier, se_multiplier = CROSSING_MULTIPLIER, se_value = js_round v, se_cost = js_round c,
          se_roi = fdiv (of_int (js_round (fmul (roi_ratio v c) 100))) 100, se_net = js_round (fsub v c)\<rparr>)"

definition buildStatement :: "time \<Rightarrow> string \<Rightarrow> int \<Rightarrow> acct_db \<Rightarrow> statement option" where
  "buildStatement now i days db =
     (case find_account i db of
        None \<Rightarrow> None
      | Some a \<Rightarrow>
          let ms = window_rows now days (ac_tenant a) (ps_db (ad_plane db))
          in Some \<lparr>st_account = a,
               st_metrics = \<lparr>sm_risks = risks_blocked ms, sm_crossings = crossings_blocked ms, sm_total = length ms, sm_days = days,
                 sm_start = daysAgo now days, sm_end = now\<rparr>,
               st_economics = economics_of (ac_tier a) days (risks_blocked ms) (crossings_blocked ms), st_generated = now\<rparr>)"

subsection \<open>The text\<close>

definition W :: nat where "W = 64"

definition hr :: "nat \<Rightarrow> ustring" where "hr c = replicate W c"

definition thin :: nat where "thin = 9472"
definition double :: nat where "double = 9552"

definition pad :: "string \<Rightarrow> string \<Rightarrow> ustring" where
  "pad left right = units (left @ replicate (if length left + length right < W then W - length left - length right else 1) (CHR '' '') @ right)"

text \<open>\<open>n.toLocaleString("en-US")\<close> of an integer: a comma before every group of three digits.\<close>

fun group_rev :: "string \<Rightarrow> string" where
  "group_rev (a # b # c # d # s) = a # b # c # CHR '','' # group_rev (d # s)"
| "group_rev s = s"

definition locale_string :: "int \<Rightarrow> string" where
  "locale_string n = (if n < 0 then ''-'' else []) @ rev (group_rev (rev (nat_digits \<bar>n\<bar>)))"

definition usd :: "int \<Rightarrow> string" where "usd n = ''$'' @ locale_string n"

definition times_sign :: string where "times_sign = [char_of (215 :: nat)]"

definition statement_lines :: "statement \<Rightarrow> ustring list" where
  "statement_lines s =
     [hr double, pad ''CaaS PROOF-OF-VALUE STATEMENT'' (tier_text (ac_tier (st_account s))), hr double, [],
      pad ''Account:'' (ac_name (st_account s)), pad ''Account ID:'' (ac_id (st_account s)), pad ''Tenant:'' (ac_tenant (st_account s)),
      pad ''Window:'' (int_str (sm_days (st_metrics s)) @ '' days''), pad ''Generated:'' (iso_string (st_generated s)), [],
      hr thin, units ''EVIDENCE (Phase 12 role_access_metrics)'', hr thin,
      pad ''Total requests evaluated:'' (int_str (int (sm_total (st_metrics s)))),
      pad ''Risks blocked (denials):'' (int_str (int (sm_risks (st_metrics s)))),
      pad ''  of which boundary crossings:'' (int_str (int (sm_crossings (st_metrics s)))), [],
      hr thin, units ''ECONOMICS'', hr thin,
      pad ''Per-incident penalty baseline:'' (usd \<lfloor>se_baseline (st_economics s)\<rfloor>),
      pad ''Crossing severity multiplier:'' (num_str (Fin (se_multiplier (st_economics s))) @ times_sign), [],
      pad ''Value delivered:'' (usd (se_value (st_economics s))), pad ''Platform cost:'' (usd (se_cost (st_economics s))),
      pad ''Net value to you:'' (usd (se_net (st_economics s))),
      pad ''ROI multiple:'' (num_str (Fin (se_roi (st_economics s))) @ times_sign), [],
      hr double, units ''This statement is auto-generated from logged evidence.'',
      units ''It is not a binding invoice. Confirm with your account team.'', hr double]"

definition renderTextStatement :: "statement \<Rightarrow> ustring" where
  "renderTextStatement s = concat (map (\<lambda>l. l @ [10]) (statement_lines s))"

subsection \<open>The routes\<close>

datatype pov_call = JsonStatement string int | TextStatement string int

datatype pov_resp = V_unauthorized auth_reject | V_bad_request | V_not_found | V_json statement | V_text ustring

fun pov_call_ok :: "acct_env \<Rightarrow> pov_call \<Rightarrow> bool" where
  "pov_call_ok e (JsonStatement i days) \<longleftrightarrow> ae_uuid e i \<and> 1 \<le> days \<and> days \<le> 365"
| "pov_call_ok e (TextStatement i days) \<longleftrightarrow> ae_uuid e i \<and> 1 \<le> days \<and> days \<le> 365"

fun pov_handler :: "time \<Rightarrow> pov_call \<Rightarrow> acct_db \<Rightarrow> pov_resp" where
  "pov_handler now (JsonStatement i days) db = (case buildStatement now i days db of None \<Rightarrow> V_not_found | Some s \<Rightarrow> V_json s)"
| "pov_handler now (TextStatement i days) db = (case buildStatement now i days db of None \<Rightarrow> V_not_found | Some s \<Rightarrow> V_text (renderTextStatement s))"

definition povBillingRouter :: "acct_env \<Rightarrow> (string \<Rightarrow> jwt_result) \<Rightarrow> time \<Rightarrow> request \<Rightarrow> pov_call \<Rightarrow> acct_db \<Rightarrow> pov_resp" where
  "povBillingRouter e jwt now req c db =
     (case requireAccessToken jwt req of
        Inl x \<Rightarrow> V_unauthorized x
      | Inr _ \<Rightarrow> if pov_call_ok e c then pov_handler now c db else V_bad_request)"

end
