(* ===== verification/AccountsProps.thy ===== *)
theory AccountsProps
  imports Pov
begin

section \<open>Accounts as a system\<close>

text \<open>
  The steps: any request to the provisioning router, whose random part of a key is drawn from \<open>K\<close>; any
  request to the ingest router; a change of an account's status, which no code makes; and whatever the
  other components do to the governance tables and the plane tables, badges for new tenants excepted.
\<close>

inductive acct_step :: "acct_env \<Rightarrow> (string \<Rightarrow> jwt_result) \<Rightarrow> string set \<Rightarrow> acct_db \<Rightarrow> acct_db \<Rightarrow> bool"
  for e :: acct_env and jwt :: "string \<Rightarrow> jwt_result" and K :: "string set" where
  provisioning: "provisioningRouter e jwt n req c db = (r, db') \<Longrightarrow> cn_random n \<in> K \<Longrightarrow> acct_step e jwt K db db'"
| pilot: "pilotIngestRouter e n req c db = (r, db') \<Longrightarrow> acct_step e jwt K db db'"
| status_set: "acct_step e jwt K db (db\<lparr>ad_accounts := update_where (\<lambda>a. ac_id a = i) (\<lambda>a. a\<lparr>ac_status := s\<rparr>) (ad_accounts db)\<rparr>)"
| outside: "b_tenant ` set (badges g) \<subseteq> b_tenant ` set (badges (ad_gov db)) \<Longrightarrow> acct_step e jwt K db (db\<lparr>ad_gov := g, ad_plane := pl\<rparr>)"

definition acct_init :: "acct_db \<Rightarrow> bool" where
  "acct_init db \<longleftrightarrow> ad_accounts db = [] \<and> ad_decisions db = [] \<and> badges (ad_gov db) = []"

subsection \<open>The operations, case by case\<close>

lemma find_fresh: "k \<notin> f ` set xs \<Longrightarrow> List.find (\<lambda>x. f x = k) xs = None"
  unfolding find_None_iff by (metis imageI)

lemma acct_audit_sel [simp]:
  "ad_accounts (acct_audit n t actor i act old new meta db) = ad_accounts db"
  "ad_decisions (acct_audit n t actor i act old new meta db) = ad_decisions db"
  "ad_gov (acct_audit n t actor i act old new meta db) = ad_gov db"
  "ad_plane (acct_audit n t actor i act old new meta db) = ad_plane db"
  by (simp_all add: acct_audit_def)

lemma gov_of_sel [simp]: "badges (gov_of as g) = badges g" "find_badge (gov_of as g) = find_badge g"
  "account_exists (gov_of as g) i \<longleftrightarrow> i \<in> ac_id ` set as"
  by (auto simp: gov_of_def find_badge_def account_exists_def list_ex_iff fun_eq_iff)

lemma createAccount_cases:
  assumes "createAccount e n actor b db = (r, db')"
  obtains (refused) "db' = db" "(\<exists>i. r = A_exists i) \<or> r = A_error"
  | (created) s g where "cb_tenant b \<notin> ac_tenant ` set (ad_accounts db)" "cn_id n \<notin> ac_id ` set (ad_accounts db)"
      "cn_now n + cb_days b * 86400000 \<le> max_time"
      "syncBadge (ae_hmac e) (ae_sec e) (cn_now n) (cb_tenant b) (cn_id n) \<lparr>in_policy_state = None, in_evidence = None\<rparr>
         (gov_of (ad_accounts db @ [new_account e n b]) (ad_gov db)) = Inr (s, g)"
      "r = A_created (new_account e n b) (key_raw (generateApiKey e n)) (sr_signature s)"
      "db' = acct_audit n (cb_tenant b) actor (cn_id n) ''create'' None (Some (created_new_value b)) (created_meta e n b)
         (db\<lparr>ad_accounts := ad_accounts db @ [new_account e n b], ad_gov := g\<rparr>)"
proof (cases "List.find (\<lambda>a. ac_tenant a = cb_tenant b) (ad_accounts db)")
  case (Some a)
  then have "db' = db" "r = A_exists (ac_id a)" using assms by (simp_all add: createAccount_def)
  then show ?thesis using refused by blast
next
  case None
  then have t: "cb_tenant b \<notin> ac_tenant ` set (ad_accounts db)" by (auto simp: find_None_iff)
  show ?thesis
  proof (cases "cn_now n + cb_days b * 86400000 > max_time \<or> cn_id n \<in> ac_id ` set (ad_accounts db)")
    case True
    with None have "db' = db" "r = A_error" using assms by (simp_all add: createAccount_def)
    then show ?thesis using refused by blast
  next
    case False
    then show ?thesis
    proof (cases "syncBadge (ae_hmac e) (ae_sec e) (cn_now n) (cb_tenant b) (cn_id n) \<lparr>in_policy_state = None, in_evidence = None\<rparr>
         (gov_of (ad_accounts db @ [new_account e n b]) (ad_gov db))")
      case (Inl x)
      with None False have "db' = db" "r = A_error" using assms by (simp_all add: createAccount_def Let_def)
      then show ?thesis using refused by blast
    next
      case (Inr sg)
      obtain s g where sg: "sg = (s, g)" by (cases sg)
      show ?thesis by (rule created [OF t _ _ Inr [unfolded sg]])
          (use None False Inr sg assms in \<open>simp_all add: createAccount_def Let_def\<close>)
    qed
  qed
qed

lemma changeTier_cases:
  assumes "changeTier n actor i tier db = (r, db')"
  obtains (same) "db' = db" "r = A_not_found \<or> r = A_same_tier tier"
  | (changed) a where "a \<in> set (ad_accounts db)" "ac_id a = i" "ac_tier a \<noteq> tier" "r = A_tier tier (ac_tier a) (cn_now n)"
      "db' = acct_audit n (ac_tenant a) actor i ''tier_change'' (Some (tier_text (ac_tier a))) (Some (tier_text tier)) ''{}''
         (db\<lparr>ad_accounts := update_where (\<lambda>x. ac_id x = i \<and> ac_tenant x = ac_tenant a)
            (\<lambda>x. x\<lparr>ac_tier := tier, ac_updated := cn_now n\<rparr>) (ad_accounts db)\<rparr>)"
proof (cases "find_account i db")
  case None
  then show ?thesis using assms same by (simp add: changeTier_def)
next
  case (Some a)
  then have a: "a \<in> set (ad_accounts db)" "ac_id a = i" by (auto simp: find_account_def dest!: find_SomeD)
  show ?thesis
  proof (cases "ac_tier a = tier")
    case True
    then show ?thesis using Some assms same by (simp add: changeTier_def)
  next
    case False
    show ?thesis by (rule changed [OF a False]) (use Some False assms in \<open>simp_all add: changeTier_def\<close>)
  qed
qed

lemma rotateApiKey_cases:
  assumes "rotateApiKey e n actor i db = (r, db')"
  obtains (missing) "db' = db" "r = A_not_found"
  | (rotated) a where "a \<in> set (ad_accounts db)" "ac_id a = i" "find_account i db = Some a"
      "r = A_rotated (''caas_'' @ cn_random n) (take 12 (''caas_'' @ cn_random n)) (cn_now n)"
      "ad_accounts db' = update_where (\<lambda>x. ac_id x = i \<and> ac_tenant x = ac_tenant a)
         (\<lambda>x. x\<lparr>ac_hash := ae_sha e (units (''caas_'' @ cn_random n)), ac_prefix := take 12 (''caas_'' @ cn_random n),
            ac_rotated := Some (cn_now n), ac_updated := cn_now n\<rparr>) (ad_accounts db)"
      "ad_decisions db' = ad_decisions db" "ad_gov db' = ad_gov db" "ad_plane db' = ad_plane db"
proof (cases "find_account i db")
  case None
  then show ?thesis using assms missing by (simp add: rotateApiKey_def)
next
  case (Some a)
  then have "a \<in> set (ad_accounts db)" "ac_id a = i" by (auto simp: find_account_def dest!: find_SomeD)
  then show ?thesis using Some assms by (intro rotated [of a]) (auto simp: rotateApiKey_def Let_def generateApiKey_def)
qed

lemma provisioned_cases:
  assumes "provisioningRouter e jwt n req0 c db = (r, db')"
  obtains (stopped) pl where "db' = db\<lparr>ad_plane := pl\<rparr>" "(\<exists>x. r = A_unauthorized x) \<or> (\<exists>g. r = A_guard g) \<or> r = A_bad_request"
  | (handled) req pl where "requireAccessToken jwt req0 = Inr req" "acct_call_ok e c"
      "acct_handler e n ''system'' c (db\<lparr>ad_plane := pl\<rparr>) = (r, db')"
proof (cases "requireAccessToken jwt req0")
  case (Inl x)
  then have "db' = db\<lparr>ad_plane := ad_plane db\<rparr>" "r = A_unauthorized x" using assms by (simp_all add: provisioningRouter_def)
  then show ?thesis using stopped by blast
next
  case (Inr req)
  show ?thesis
  proof (cases "acct_guard c")
    case None
    show ?thesis
    proof (cases "acct_call_ok e c")
      case True
      show ?thesis by (rule handled [OF Inr True, of "ad_plane db"]) (use assms Inr None True in \<open>simp add: provisioningRouter_def acct_actor_def\<close>)
    next
      case False
      then have "db' = db\<lparr>ad_plane := ad_plane db\<rparr>" "r = A_bad_request" using assms Inr None by (simp_all add: provisioningRouter_def)
      then show ?thesis using stopped by blast
    qed
  next
    case (Some rq)
    obtain g pl where g: "requireDualPlane rq (cn_now n) req (ad_plane db) = (g, pl)" by fastforce
    show ?thesis
    proof (cases "acct_call_ok e c \<and> (\<exists>p. g = Passed p)")
      case True
      then show ?thesis using assms Inr Some g
        by (intro handled [OF Inr, of pl]) (auto simp: provisioningRouter_def acct_actor_def)
    next
      case False
      then have "db' = db\<lparr>ad_plane := pl\<rparr> \<and> (r = A_guard g \<or> r = A_bad_request)"
        using assms Inr Some g by (cases g) (simp_all add: provisioningRouter_def)
      then show ?thesis using stopped by blast
    qed
  qed
qed

lemma ingested_cases:
  assumes "pilotIngestRouter e n req c db = (r, db')"
  obtains (same) "db' = db"
  | (ingested) a ds where "requireApiKey e db req = Inr a" "length ds \<le> 50" "first_index oversized ds = None"
      "insert_decisions (map2 (decision_row_of e n a req) (cn_ids n) ds) db = Some db'"
proof (cases "requireApiKey e db req")
  case (Inl x)
  then show ?thesis using assms same by (simp add: pilotIngestRouter_def)
next
  case (Inr a)
  show ?thesis
  proof (cases c)
    case (Ingest b)
    then show ?thesis using assms Inr same ingested [OF Inr, of "decisions_of b"]
      by (auto simp: pilotIngestRouter_def ingestDecisions_def Let_def MAX_BATCH_SIZE_def split: if_splits option.splits)
  next
    case (ListDecisions l s)
    then show ?thesis using assms Inr same by (auto simp: pilotIngestRouter_def split: if_splits)
  qed
qed

subsection \<open>The inserts of a batch\<close>

lemma first_index_None: "first_index p xs = None \<longleftrightarrow> (\<forall>x \<in> set xs. \<not> p x)"
  by (induction xs) auto

lemma first_index_Some: "first_index p xs = Some i \<longleftrightarrow> i < length xs \<and> p (xs ! i) \<and> (\<forall>j < i. \<not> p (xs ! j))"
proof (induction xs arbitrary: i)
  case (Cons x xs)
  show ?case
  proof (cases i)
    case 0
    then show ?thesis by (simp add: map_option_case split: option.splits)
  next
    case (Suc k)
    have "(\<forall>j < Suc k. \<not> p ((x # xs) ! j)) \<longleftrightarrow> \<not> p x \<and> (\<forall>j < k. \<not> p (xs ! j))" by (simp add: All_less_Suc2)
    then show ?thesis using Suc Cons.IH [of k] by auto
  qed
qed simp

lemma insert_decisions_Some:
  "insert_decisions rs db = Some db' \<longleftrightarrow> distinct (map dr_id rs) \<and> dr_id ` set rs \<inter> dr_id ` set (ad_decisions db) = {}
     \<and> dr_account ` set rs \<subseteq> ac_id ` set (ad_accounts db) \<and> db' = db\<lparr>ad_decisions := ad_decisions db @ rs\<rparr>"
proof (induction rs db rule: insert_decisions.induct)
  case (2 r rs db)
  show ?case
  proof (cases "dr_id r \<in> dr_id ` set (ad_decisions db) \<or> dr_account r \<notin> ac_id ` set (ad_accounts db)")
    case True
    then show ?thesis by auto
  next
    case False
    with 2 [OF False] show ?thesis by (auto simp: image_iff)
  qed
qed auto

subsection \<open>The invariant\<close>

definition acct_keys :: "acct_row list \<Rightarrow> (string \<times> string) list" where
  "acct_keys as = map (\<lambda>a. (ac_id a, ac_tenant a)) as"

definition keyed_from :: "acct_env \<Rightarrow> string set \<Rightarrow> acct_row \<Rightarrow> bool" where
  "keyed_from e K a \<longleftrightarrow> (\<exists>x \<in> K. ac_hash a = ae_sha e (units (''caas_'' @ x)) \<and> ac_prefix a = take 12 (''caas_'' @ x))"

definition decision_stored :: "acct_env \<Rightarrow> (string \<times> string) set \<Rightarrow> decision_row \<Rightarrow> bool" where
  "decision_stored e ks d \<longleftrightarrow> (dr_account d, dr_tenant d) \<in> ks \<and> length (utf8 (dr_payload d)) \<le> 8192
     \<and> dr_hash d = ae_sha e (units (dr_tenant d) @ dr_payload d)"

definition acct_inv :: "acct_env \<Rightarrow> string set \<Rightarrow> acct_db \<Rightarrow> bool" where
  "acct_inv e K db \<longleftrightarrow> distinct (map fst (acct_keys (ad_accounts db))) \<and> distinct (map snd (acct_keys (ad_accounts db)))
     \<and> (\<forall>a \<in> set (ad_accounts db). keyed_from e K a)
     \<and> distinct (map dr_id (ad_decisions db)) \<and> (\<forall>d \<in> set (ad_decisions db). decision_stored e (set (acct_keys (ad_accounts db))) d)
     \<and> b_tenant ` set (badges (ad_gov db)) \<subseteq> snd ` set (acct_keys (ad_accounts db))"

lemma acct_keys_simps [simp]:
  "acct_keys (as @ [a]) = acct_keys as @ [(ac_id a, ac_tenant a)]"
  "fst ` set (acct_keys as) = ac_id ` set as" "snd ` set (acct_keys as) = ac_tenant ` set as"
  by (force simp: acct_keys_def)+

lemma acct_keys_update: "(\<And>a. ac_id (f a) = ac_id a \<and> ac_tenant (f a) = ac_tenant a) \<Longrightarrow> acct_keys (update_where p f as) = acct_keys as"
  unfolding acct_keys_def by (rule map_update_where) simp

text \<open>What keeps the ids and tenants of the accounts, gives keys from \<open>K\<close> only and adds no decision keeps the invariant.\<close>

lemma acct_inv_update:
  assumes "acct_inv e K db" "ad_accounts db' = update_where p f (ad_accounts db)" "\<And>a. ac_id (f a) = ac_id a \<and> ac_tenant (f a) = ac_tenant a"
    and "\<And>a. keyed_from e K a \<Longrightarrow> keyed_from e K (f a)"
    and "ad_decisions db' = ad_decisions db" "b_tenant ` set (badges (ad_gov db')) \<subseteq> b_tenant ` set (badges (ad_gov db))"
  shows "acct_inv e K db'"
proof -
  have "keyed_from e K a" if "a \<in> set (ad_accounts db')" for a
    using that assms(1,4) unfolding assms(2) set_update_where acct_inv_def by auto
  then show ?thesis using assms(1) subset_trans [OF assms(6)] unfolding acct_inv_def assms(5) unfolding assms(2) acct_keys_update [OF assms(3)] by blast
qed

lemma acct_inv_same:
  "acct_inv e K db \<Longrightarrow> ad_accounts db' = ad_accounts db \<Longrightarrow> ad_decisions db' = ad_decisions db \<Longrightarrow>
   b_tenant ` set (badges (ad_gov db')) \<subseteq> b_tenant ` set (badges (ad_gov db)) \<Longrightarrow> acct_inv e K db'"
  unfolding acct_inv_def by (metis (no_types, lifting) subset_trans)

lemma badge_tenants_sync:
  assumes "syncBadge h s now t a inp db = Inr (x, db')"
  shows "b_tenant ` set (badges db') \<subseteq> insert t (b_tenant ` set (badges db))"
  using assms
proof (cases rule: syncBadge_cases)
  case (written st reason sig r db1)
  then show ?thesis by (auto simp: set_update_where split: option.splits)
qed auto

lemma inv_create:
  assumes "acct_inv e K db" "createAccount e n actor b db = (r, db')" "cn_random n \<in> K"
  shows "acct_inv e K db'"
  using assms(2)
proof (cases rule: createAccount_cases)
  case (created s g)
  let ?a = "new_account e n b"
  have id: "ac_id ?a = cn_id n" "ac_tenant ?a = cb_tenant b" by (simp_all add: new_account_def)
  have "keyed_from e K ?a" using assms(3) by (auto simp: keyed_from_def new_account_def generateApiKey_def Let_def)
  moreover have "b_tenant ` set (badges g) \<subseteq> insert (cb_tenant b) (b_tenant ` set (badges (ad_gov db)))"
    using badge_tenants_sync [OF created(4)] by simp
  moreover have "decision_stored e (set (acct_keys (ad_accounts db @ [?a]))) d" if "decision_stored e (set (acct_keys (ad_accounts db))) d" for d
    using that by (simp add: decision_stored_def)
  moreover have acc: "ad_accounts db' = ad_accounts db @ [?a]" "ad_decisions db' = ad_decisions db" "ad_gov db' = g" using created(6) by simp_all
  moreover have "acct_keys (ad_accounts db @ [?a]) = acct_keys (ad_accounts db) @ [(cn_id n, cb_tenant b)]" by (simp add: id)
  moreover have "distinct (map fst (acct_keys (ad_accounts db)))" "distinct (map snd (acct_keys (ad_accounts db)))"
    "\<forall>a \<in> set (ad_accounts db). keyed_from e K a" "distinct (map dr_id (ad_decisions db))"
    "\<forall>d \<in> set (ad_decisions db). decision_stored e (set (acct_keys (ad_accounts db))) d"
    "b_tenant ` set (badges (ad_gov db)) \<subseteq> ac_tenant ` set (ad_accounts db)"
    using assms(1) by (simp_all add: acct_inv_def)
  moreover have "cn_id n \<notin> fst ` set (acct_keys (ad_accounts db))" "cb_tenant b \<notin> snd ` set (acct_keys (ad_accounts db))"
    using created(1,2) by simp_all
  ultimately show ?thesis unfolding acct_inv_def acc
    by (intro conjI) (simp_all, blast+)
qed (use assms(1) in simp)

lemma inv_routed:
  assumes "acct_inv e K db" "provisioningRouter e jwt n req0 c db = (r, db')" "cn_random n \<in> K"
  shows "acct_inv e K db'"
  using assms(2)
proof (cases rule: provisioned_cases)
  case (stopped pl)
  then show ?thesis using assms(1) acct_inv_same by simp
next
  case (handled req pl)
  let ?db = "db\<lparr>ad_plane := pl\<rparr>"
  have inv: "acct_inv e K ?db" using assms(1) by (rule acct_inv_same) simp_all
  show ?thesis
  proof (cases c)
    case (CreateAccount b)
    then show ?thesis using handled(3) inv_create [OF inv _ assms(3)] by simp
  next
    case (RotateKey i)
    with handled(3) have "rotateApiKey e n ''system'' i ?db = (r, db')" by simp
    then show ?thesis
    proof (cases rule: rotateApiKey_cases)
      case (rotated a)
      show ?thesis by (rule acct_inv_update [OF inv rotated(5)]) (use rotated(6,7) assms(3) in \<open>auto simp: keyed_from_def\<close>)
    qed (use inv in simp)
  next
    case (ChangeTier i tier)
    with handled(3) have "changeTier n ''system'' i tier ?db = (r, db')" by simp
    then show ?thesis
    proof (cases rule: changeTier_cases)
      case (changed a)
      have "ad_accounts db' = update_where (\<lambda>x. ac_id x = i \<and> ac_tenant x = ac_tenant a)
          (\<lambda>x. x\<lparr>ac_tier := tier, ac_updated := cn_now n\<rparr>) (ad_accounts ?db)" using changed(5) by simp
      from acct_inv_update [OF inv this] show ?thesis using changed(5) by (simp add: keyed_from_def)
    qed (use inv in simp)
  next
    case (GetAccount i)
    then show ?thesis using handled(3) inv by simp
  qed
qed

lemma requireApiKey_mem: "requireApiKey e db req = Inr a \<Longrightarrow> a \<in> set (ad_accounts db)"
  by (auto simp: requireApiKey_def split: option.splits sum.splits bool.splits if_splits dest: find_SomeD)

lemma inv_pilot:
  assumes "acct_inv e K db" "pilotIngestRouter e n req c db = (r, db')"
  shows "acct_inv e K db'"
  using assms(2)
proof (cases rule: ingested_cases)
  case (ingested a ds)
  let ?rs = "map2 (decision_row_of e n a req) (cn_ids n) ds"
  have a: "(ac_id a, ac_tenant a) \<in> set (acct_keys (ad_accounts db))"
    using requireApiKey_mem [OF ingested(1)] by (auto simp: acct_keys_def)
  have "decision_stored e (set (acct_keys (ad_accounts db))) r" if "r \<in> set ?rs" for r
  proof -
    obtain p where p: "p \<in> set (zip (cn_ids n) ds)" "r = (case p of (i, d) \<Rightarrow> decision_row_of e n a req i d)"
      using \<open>r \<in> set ?rs\<close> by auto
    obtain i d where "p = (i, d)" by (cases p)
    with p have d: "d \<in> set ds" "r = decision_row_of e n a req i d" by (auto dest: set_zip_rightD)
    have "\<not> oversized d" using ingested(3) d(1) by (simp add: first_index_None)
    then show ?thesis using a d(2) by (simp add: decision_row_of_def decision_stored_def oversized_def MAX_PAYLOAD_BYTES_def)
  qed
  then show ?thesis using assms(1) ingested(4) unfolding insert_decisions_Some acct_inv_def by auto
qed (use assms(1) in simp)

interpretation acct: invariant_system acct_init "acct_step e jwt K" "acct_inv e K" for e jwt K
proof unfold_locales
  fix db
  assume "acct_init db"
  then show "acct_inv e K db" by (simp add: acct_init_def acct_inv_def acct_keys_def)
next
  fix db db'
  assume "acct_step e jwt K db db'" "acct_inv e K db"
  then show "acct_inv e K db'"
  proof cases
    case (provisioning n req c r)
    then show ?thesis using inv_routed \<open>acct_inv e K db\<close> by blast
  next
    case (pilot n req c r)
    then show ?thesis using inv_pilot \<open>acct_inv e K db\<close> by blast
  next
    case (status_set i s)
    have "ad_accounts db' = update_where (\<lambda>a. ac_id a = i) (\<lambda>a. a\<lparr>ac_status := s\<rparr>) (ad_accounts db)" using status_set by simp
    from acct_inv_update [OF \<open>acct_inv e K db\<close> this] show ?thesis using status_set by (simp add: keyed_from_def)
  next
    case (outside g pl)
    show ?thesis by (rule acct_inv_same [OF \<open>acct_inv e K db\<close>]) (use outside in simp_all)
  qed
qed

subsection \<open>Keys\<close>

text \<open>The columns of an account that src/middleware/apiKeyAuth.ts reads.\<close>

definition key_account_of :: "acct_row \<Rightarrow> key_account" where
  "key_account_of a = \<lparr>ka_tenant = ac_tenant a, ka_tier = tier_text (ac_tier a), ka_status = status_text (ac_status a),
     ka_hash = ac_hash a, ka_prefix = ac_prefix a\<rparr>"

lemma trim_sentinel: "trim (''aitw_'' @ s) = ''aitw_'' @ rev (dropWhile is_space (rev s))"
  by (simp add: trim_def dropWhile_append is_space_def)

text \<open>
  C18: No issued key is known to the API key middleware. Provisioning issues keys that begin with
  \<open>caas_\<close>; src/middleware/apiKeyAuth.ts looks only at keys that begin with \<open>aitw_\<close>. In every reachable
  state, whatever the hash verification answers, that middleware lets no request through as a tenant:
  what it does not reject it passes on unchanged, and without a key it understands.\<close>

theorem issued_keys_never_authenticate:
  assumes "reach acct_init (acct_step e jwt K) db" "t_accounts pdb = map key_account_of (ad_accounts db)"
    and "apiKeyAuthMiddleware verify pdb req = Inr req'"
  shows "req' = req \<and> \<not> starts_with ''Bearer aitw_'' (or_default [] (h_authorization req))"
proof (cases "starts_with ''Bearer aitw_'' (or_default [] (h_authorization req))")
  case True
  then obtain s where h: "h_authorization req = Some (''Bearer aitw_'' @ s)"
    by (auto simp: starts_with_def prefix_def or_default_def split: option.splits)
  let ?key = "''aitw_'' @ rev (dropWhile is_space (rev s))"
  have "False" if a: "a \<in> set (ad_accounts db)" "ac_prefix a = take 12 ?key" for a
  proof -
    obtain x where "ac_prefix a = take 12 (''caas_'' @ x)"
      using acct.reach_inv [OF assms(1)] a(1) by (auto simp: acct_inv_def keyed_from_def)
    then show ?thesis using a(2) by simp
  qed
  then have "List.find (\<lambda>k. ka_prefix k = take 12 ?key \<and> ka_status k \<noteq> ''suspended'') (t_accounts pdb) = None"
    unfolding assms(2) find_None_iff by (auto simp: key_account_of_def)
  then show ?thesis using assms(3) h trim_sentinel [of s]
    by (simp add: apiKeyAuthMiddleware_def API_KEY_SENTINEL_def API_KEY_PREFIX_LENGTH_def starts_with_def Let_def split: if_splits)
next
  case False
  then have "apiKeyAuthMiddleware verify pdb req = Inr req"
    by (auto simp: apiKeyAuthMiddleware_def API_KEY_SENTINEL_def or_default_def split: option.splits)
  then show ?thesis using assms(3) False by simp
qed

text \<open>What the digests promise: 64 hexadecimal digits, and no two of the keys concerned with the same digest.\<close>

definition key_digest :: "acct_env \<Rightarrow> bool" where
  "key_digest e \<longleftrightarrow> (\<forall>m. length (ae_sha e m) = 64 \<and> ascii_units (units (ae_sha e m)))"

lemma units_inj: "units s = units t \<longleftrightarrow> s = t"
  unfolding units_def by (rule inj_map_eq_map) (rule inj_of_char)

lemma accepted_hash:
  assumes "key_digest e" "ac_hash a = ae_sha e m" "requireApiKey e db req = Inr a" "match_key (or_default [] (h_authorization req)) = Some k"
  shows "ac_hash a = ae_sha e (units k)"
proof -
  have eq: "safeEqual (units (ac_hash a)) (units (ae_sha e (units k))) = Inr (ac_hash a = ae_sha e (units k))"
    using assms(1,2) by (auto simp: key_digest_def units_inj intro!: trans [OF safeEqual_ascii])
  have "safeEqual (units (ac_hash a)) (units (ae_sha e (units k))) = Inr True"
    using assms(3,4) by (auto simp: requireApiKey_def split: option.splits sum.splits bool.splits if_splits)
  with eq show ?thesis by simp
qed

definition hashes_in :: "string \<Rightarrow> string set \<Rightarrow> acct_db \<Rightarrow> bool" where
  "hashes_in i H db \<longleftrightarrow> i \<in> ac_id ` set (ad_accounts db) \<and> (\<forall>a \<in> set (ad_accounts db). ac_id a = i \<longrightarrow> ac_hash a \<in> H)"

lemma hashes_in_update:
  assumes "hashes_in i H db" "ad_accounts db' = update_where p f (ad_accounts db)" "\<And>a. ac_id (f a) = ac_id a"
    and "\<And>a. ac_hash (f a) = ac_hash a \<or> ac_hash (f a) \<in> H"
  shows "hashes_in i H db'"
proof -
  have "ac_hash a \<in> H" if a: "a \<in> set (ad_accounts db')" "ac_id a = i" for a
  proof -
    obtain x where x: "x \<in> set (ad_accounts db)" "a = (if p x then f x else x)" using a(1) unfolding assms(2) set_update_where by blast
    then have "ac_id x = i" using a(2) assms(3) by (simp split: if_splits)
    then have "ac_hash x \<in> H" using assms(1) x(1) by (simp add: hashes_in_def)
    then show ?thesis using x(2) assms(4) [of x] by auto
  qed
  then show ?thesis using assms(1) unfolding hashes_in_def assms(2) image_update_where [of ac_id, OF assms(3)] by blast
qed

lemma hashes_step:
  assumes "acct_step e jwt K db db'" "hashes_in i H db" "\<And>x. x \<in> K \<Longrightarrow> ae_sha e (units (''caas_'' @ x)) \<in> H"
  shows "hashes_in i H db'"
  using assms(1)
proof cases
  case (provisioning n req0 c r)
  show ?thesis
  proof (cases rule: provisioned_cases [OF provisioning(1)])
    case (1 pl)
    then show ?thesis using assms(2) by (simp add: hashes_in_def)
  next
    case (2 req pl)
    have h: "hashes_in i H (db\<lparr>ad_plane := pl\<rparr>)" using assms(2) by (simp add: hashes_in_def)
    show ?thesis
    proof (cases c)
      case (CreateAccount b)
      with 2(3) have "createAccount e n ''system'' b (db\<lparr>ad_plane := pl\<rparr>) = (r, db')" by simp
      then show ?thesis
      proof (cases rule: createAccount_cases)
        case (created s g)
        then show ?thesis using h by (auto simp: hashes_in_def new_account_def)
      qed (use h in simp)
    next
      case (RotateKey j)
      with 2(3) have "rotateApiKey e n ''system'' j (db\<lparr>ad_plane := pl\<rparr>) = (r, db')" by simp
      then show ?thesis
      proof (cases rule: rotateApiKey_cases)
        case (rotated a)
        show ?thesis by (rule hashes_in_update [OF h rotated(5)]) (use assms(3) [OF provisioning(2)] in auto)
      qed (use h in simp)
    next
      case (ChangeTier j tier)
      with 2(3) have "changeTier n ''system'' j tier (db\<lparr>ad_plane := pl\<rparr>) = (r, db')" by simp
      then show ?thesis
      proof (cases rule: changeTier_cases)
        case (changed a)
        have "ad_accounts db' = update_where (\<lambda>x. ac_id x = j \<and> ac_tenant x = ac_tenant a)
            (\<lambda>x. x\<lparr>ac_tier := tier, ac_updated := cn_now n\<rparr>) (ad_accounts (db\<lparr>ad_plane := pl\<rparr>))" using changed(5) by simp
        from hashes_in_update [OF h this] show ?thesis by simp
      qed (use h in simp)
    next
      case (GetAccount j)
      then show ?thesis using 2(3) h by simp
    qed
  qed
next
  case (pilot n req c r)
  then show ?thesis using assms(2)
    by (cases rule: ingested_cases) (auto simp: hashes_in_def insert_decisions_Some)
next
  case (status_set j s)
  have "ad_accounts db' = update_where (\<lambda>a. ac_id a = j) (\<lambda>a. a\<lparr>ac_status := s\<rparr>) (ad_accounts db)" using status_set by simp
  from hashes_in_update [OF assms(2) this] show ?thesis by simp
next
  case (outside g pl)
  then show ?thesis using assms(2) by (simp add: hashes_in_def)
qed

lemma later_accounts:
  assumes "(acct_step e jwt K)\<^sup>*\<^sup>* db db'" "hashes_in i H db" "\<And>x. x \<in> K \<Longrightarrow> ae_sha e (units (''caas_'' @ x)) \<in> H"
  shows "hashes_in i H db'"
  using assms by (induction) (blast intro: hashes_step)+

text \<open>
  C17: A rotated key is dead. After the key of an account was rotated, and whatever happens next, the old
  key never authenticates the account again, as long as the generator does not return it again and
  SHA-256 does not map another key to its digest.\<close>

theorem rotated_key_dead:
  assumes "reach acct_init (acct_step e jwt (insert x (insert (cn_random n) K))) db" "find_account i db = Some a" "ac_hash a = ae_sha e (units (''caas_'' @ x))"
    and "rotateApiKey e n actor i db = (A_rotated raw pre now, db1)" "(acct_step e jwt K)\<^sup>*\<^sup>* db1 db'"
    and "x \<notin> insert (cn_random n) K" "key_digest e"
    and "\<And>y. ae_sha e (units (''caas_'' @ y)) = ae_sha e (units (''caas_'' @ x)) \<Longrightarrow> y = x"
    and "match_key (or_default [] (h_authorization req)) = Some (''caas_'' @ x)" "requireApiKey e db' req = Inr b"
  shows "ac_id b \<noteq> i"
proof
  assume b: "ac_id b = i"
  let ?K = "insert (cn_random n) K" and ?H = "\<lambda>y. ae_sha e (units (''caas_'' @ y))"
  have d: "distinct (map ac_id (ad_accounts db))"
    using acct.reach_inv [OF assms(1)] by (simp add: acct_inv_def acct_keys_def comp_def)
  have "hashes_in i (?H ` ?K) db1"
    using assms(4)
  proof (cases rule: rotateApiKey_cases)
    case (rotated a')
    have "a' = y" if "y \<in> set (ad_accounts db)" "ac_id y = i" for y
      using that rotated(1,2) d by (metis distinct_map inj_onD)
    then have upd: "if ac_id y = i \<and> ac_tenant y = ac_tenant a' then True else ac_id y \<noteq> i" if "y \<in> set (ad_accounts db)" for y
      using that by auto
    have "ac_hash z \<in> ?H ` ?K" if z: "z \<in> set (ad_accounts db1)" "ac_id z = i" for z
    proof -
      obtain y where y: "y \<in> set (ad_accounts db)" "z = (if ac_id y = i \<and> ac_tenant y = ac_tenant a'
          then y\<lparr>ac_hash := ?H (cn_random n), ac_prefix := take 12 (''caas_'' @ cn_random n), ac_rotated := Some (cn_now n), ac_updated := cn_now n\<rparr> else y)"
        using z(1) unfolding rotated(5) set_update_where by blast
      then show ?thesis using z(2) upd [OF y(1)] by (auto split: if_splits)
    qed
    moreover have "i \<in> ac_id ` set (ad_accounts db1)"
      unfolding rotated(5) using rotated(1,2) by (subst image_update_where) auto
    ultimately show ?thesis by (simp add: hashes_in_def)
  qed simp
  then have "hashes_in i (?H ` ?K) db'" by (rule later_accounts [OF assms(5)]) blast
  then have "ac_hash b \<in> ?H ` ?K" using requireApiKey_mem [OF assms(10)] b by (auto simp: hashes_in_def)
  then obtain y where y: "y \<in> ?K" "ac_hash b = ?H y" by blast
  from accepted_hash [OF assms(7) y(2) assms(10,9)] y(2) have "?H y = ?H x" by simp
  then show False using assms(6,8) y(1) by blast
qed

subsection \<open>Decisions\<close>

text \<open>
  C20: Stored decisions are whole and owned. In every reachable state decision ids are unique, and every
  stored decision belongs to an account that exists, carries that account's tenant, has a payload
  of at most 8192 bytes of UTF-8, and its hash is that of its tenant and payload.\<close>

theorem decisions_owned:
  assumes "reach acct_init (acct_step e jwt K) db"
  shows "distinct (map dr_id (ad_decisions db)) \<and> (\<forall>d \<in> set (ad_decisions db).
      (\<exists>a. find_account (dr_account d) db = Some a \<and> ac_tenant a = dr_tenant d)
      \<and> length (utf8 (dr_payload d)) \<le> 8192 \<and> dr_hash d = ae_sha e (units (dr_tenant d) @ dr_payload d))"
proof -
  have inv: "acct_inv e K db" by (rule acct.reach_inv [OF assms])
  have "\<exists>a. find_account i db = Some a \<and> ac_tenant a = t" if it: "(i, t) \<in> set (acct_keys (ad_accounts db))" for i t
  proof -
    obtain a where a: "a \<in> set (ad_accounts db)" "ac_id a = i" "ac_tenant a = t" using it by (auto simp: acct_keys_def)
    have "distinct (map ac_id (ad_accounts db))" using inv by (simp add: acct_inv_def acct_keys_def comp_def)
    from find_distinct_key [OF this a(1)] a show ?thesis by (auto simp: find_account_def)
  qed
  then show ?thesis using inv by (auto simp: acct_inv_def decision_stored_def)
qed

text \<open>
  C19: A batch is stored whole or not at all. For a request with a valid key and a body that passed the
  schema: more than 50 decisions are refused as too many, a payload over 8192 bytes is refused by the
  index of the first one, an id that is taken is an error, and nothing is stored in these cases; otherwise
  every decision is stored once, in order, for the account of the key.\<close>

theorem ingest_whole_or_nothing:
  assumes "requireApiKey e db req = Inr a" "ingest_ok b" "ds = decisions_of b" "length (cn_ids n) = length ds"
    and "distinct (map ac_id (ad_accounts db))"
  shows "pilotIngestRouter e n req (Ingest b) db =
    (if 50 < length ds then (P_batch_too_large (length ds), db)
     else if \<exists>d \<in> set ds. 8192 < length (utf8 (payload_text d)) then
       (P_payload_too_large (LEAST i. i < length ds \<and> 8192 < length (utf8 (payload_text (ds ! i)))), db)
     else if distinct (cn_ids n) \<and> set (cn_ids n) \<inter> dr_id ` set (ad_decisions db) = {} then
       (P_accepted (cn_ids n) (cn_now n),
        db\<lparr>ad_decisions := ad_decisions db @ map2 (decision_row_of e n a req) (cn_ids n) ds\<rparr>)
     else (P_error, db))"
proof -
  have ov: "oversized d \<longleftrightarrow> 8192 < length (utf8 (payload_text d))" for d by (simp add: oversized_def MAX_PAYLOAD_BYTES_def)
  have r: "pilotIngestRouter e n req (Ingest b) db = ingestDecisions e n a req b db"
    using assms(1,2) by (simp add: pilotIngestRouter_def)
  let ?rs = "map2 (decision_row_of e n a req) (cn_ids n) ds"
  show ?thesis
  proof (cases "50 < length ds")
    case True
    then show ?thesis unfolding r by (simp add: ingestDecisions_def Let_def MAX_BATCH_SIZE_def assms(3))
  next
    case small: False
    show ?thesis
    proof (cases "first_index oversized ds")
      case (Some i)
      then have i: "i < length ds" "oversized (ds ! i)" "\<forall>j < i. \<not> oversized (ds ! j)" by (auto simp: first_index_Some)
      have "(LEAST i. i < length ds \<and> 8192 < length (utf8 (payload_text (ds ! i)))) = i"
        by (rule Least_equality) (use i in \<open>auto simp: ov not_less [symmetric]\<close>)
      moreover have "\<exists>d \<in> set ds. 8192 < length (utf8 (payload_text d))" using i(1,2) by (auto simp: ov)
      ultimately show ?thesis using small Some unfolding r by (simp add: ingestDecisions_def Let_def MAX_BATCH_SIZE_def assms(3))
    next
      case None
      then have fit: "\<not> (\<exists>d \<in> set ds. 8192 < length (utf8 (payload_text d)))" by (auto simp: first_index_None ov)
      have "map dr_id ?rs = cn_ids n" using assms(4) by (simp add: map2_map_map comp_def case_prod_unfold decision_row_of_def map_fst_zip)
      then have ids: "map dr_id ?rs = cn_ids n" "dr_id ` set ?rs = set (cn_ids n)" by (metis list.set_map)+
      have "dr_account ` set ?rs \<subseteq> ac_id ` set (ad_accounts db)"
        using requireApiKey_mem [OF assms(1)] by (auto simp: decision_row_of_def split: prod.splits)
      then have "insert_decisions ?rs db = Some x \<longleftrightarrow> distinct (cn_ids n) \<and> set (cn_ids n) \<inter> dr_id ` set (ad_decisions db) = {}
          \<and> x = db\<lparr>ad_decisions := ad_decisions db @ ?rs\<rparr>" for x
        using insert_decisions_Some [of ?rs db x] unfolding ids by blast
      then have "insert_decisions ?rs db = (if distinct (cn_ids n) \<and> set (cn_ids n) \<inter> dr_id ` set (ad_decisions db) = {}
          then Some (db\<lparr>ad_decisions := ad_decisions db @ ?rs\<rparr>) else None)"
        by (metis (lifting) not_None_eq)
      then show ?thesis using small None fit assms(4) unfolding r by (simp add: ingestDecisions_def Let_def MAX_BATCH_SIZE_def assms(3))
    qed
  qed
qed

text \<open>
  A caller sees its own decisions, newest first. The rows listed are stored decisions of the caller's
  account alone, in descending order of their time, at most as many as asked for, and none that is left
  out is newer than one that is shown.\<close>

theorem listing_exact:
  assumes "requireApiKey e db req = Inr a" "1 \<le> limit" "limit \<le> 500"
  shows "\<exists>rows. pilotIngestRouter e n req (ListDecisions limit None) db = (P_list rows, db)
    \<and> set rows \<subseteq> {d \<in> set (ad_decisions db). dr_account d = ac_id a}
    \<and> sorted_wrt (\<lambda>c d. dr_received d \<le> dr_received c) rows
    \<and> length rows = min (nat limit) (count_where (\<lambda>d. dr_account d = ac_id a) (ad_decisions db))
    \<and> (\<forall>d \<in> set (ad_decisions db) - set rows. dr_account d = ac_id a \<longrightarrow> (\<forall>c \<in> set rows. dr_received d \<le> dr_received c))"
proof -
  define own where "own = sort_key (\<lambda>d. - dr_received d) (filter (\<lambda>d. dr_account d = ac_id a) (ad_decisions db))"
  have r: "pilotIngestRouter e n req (ListDecisions limit None) db = (P_list (take (nat limit) own), db)"
    using assms by (simp add: pilotIngestRouter_def listDecisions_def own_def)
  have sorted: "sorted_wrt (\<lambda>c d. dr_received d \<le> dr_received c) own"
    using sorted_sort_key [of "\<lambda>d. - dr_received d"] by (simp add: own_def sorted_map)
  have mem: "set own = {d \<in> set (ad_decisions db). dr_account d = ac_id a}" by (auto simp: own_def)
  have split: "own = take (nat limit) own @ drop (nat limit) own" by simp
  have "dr_received d \<le> dr_received c" if "d \<in> set own" "d \<notin> set (take (nat limit) own)" "c \<in> set (take (nat limit) own)" for c d
  proof -
    have "d \<in> set (drop (nat limit) own)" using that(1,2) split by (metis Un_iff set_append)
    moreover have "\<forall>x \<in> set (take (nat limit) own). \<forall>y \<in> set (drop (nat limit) own). dr_received y \<le> dr_received x"
      using sorted split by (metis sorted_wrt_append)
    ultimately show ?thesis using that(3) by blast
  qed
  then show ?thesis
    using sorted set_take_subset [of "nat limit" own]
    by (intro exI [of _ "take (nat limit) own"]) (auto simp: r mem sorted_wrt_take own_def count_where_def)
qed

subsection \<open>The filter by time\<close>

text \<open>The text of a whole second, to the point before the milliseconds.\<close>

definition second_text :: "int \<Rightarrow> string" where
  "second_text s = (let (y, m, d) = civil_of_days (s div 86400); r = s mod 86400; two = (\<lambda>n. pad_left 2 (nat_digits n))
     in pad_left 4 (nat_digits y) @ ''-'' @ two m @ ''-'' @ two d @ ''T'' @ two (r div 3600) @ '':'' @ two (r div 60 mod 60) @ '':'' @ two (r mod 60))"

lemma iso_second: "iso_string t = second_text (t div 1000) @ ''.'' @ pad_left 3 (nat_digits (t mod 1000)) @ ''Z''"
proof -
  have d: "t div 86400000 = t div 1000 div 86400" by (simp add: div_mult2_eq' zdiv_zmult2_eq [of 86400 t 1000, simplified])
  have m: "t mod 86400000 = 1000 * (t div 1000 mod 86400) + t mod 1000"
    using zmod_zmult2_eq [of 86400 t 1000] by simp
  have k: "t mod 86400000 div 1000 = t div 1000 mod 86400" unfolding m by simp
  have h: "t mod 86400000 div 3600000 = t div 1000 mod 86400 div 3600"
    using zdiv_zmult2_eq [of 3600 "t mod 86400000" 1000] k by simp
  have n: "t mod 86400000 div 60000 = t div 1000 mod 86400 div 60"
    using zdiv_zmult2_eq [of 60 "t mod 86400000" 1000] k by simp
  have r: "t div 1000 mod 86400 mod 60 = t div 1000 mod 60" by (rule mod_mod_cancel) simp
  have z: "t mod 86400000 mod 1000 = t mod 1000" by (rule mod_mod_cancel) simp
  show ?thesis by (simp add: iso_string_def second_text_def Let_def d h n k z r case_prod_unfold)
qed

lemma text_less_prefix: "text_less (p @ s) (p @ t) \<longleftrightarrow> text_less s t"
  by (induction p) auto

text \<open>
  A time without milliseconds hides the rest of its second. The stored times have milliseconds and
  are compared as texts, in which the point sorts before the letter Z: a caller who asks for what came
  since a whole second, written the way the schema allows, does not get the decisions received
  later in that second.\<close>

theorem since_skips_its_second:
  assumes "dr_received d div 1000 = s" "1000 * s < dr_received d"
    and "listDecisions a limit (Some (second_text s @ ''Z'')) db = P_list rows"
  shows "iso_string (1000 * s) = second_text s @ ''.000Z'' \<and> d \<notin> set rows"
proof -
  have "\<not> text_less (second_text s @ ''Z'') (iso_string (dr_received d))"
    unfolding iso_second assms(1) text_less_prefix by simp
  moreover have "rows = take (nat limit) (sort_key (\<lambda>d. - dr_received d)
       (filter (\<lambda>d. dr_account d = ac_id a \<and> text_less (second_text s @ ''Z'') (iso_string (dr_received d))) (ad_decisions db)))"
    using assms(3) by (simp add: listDecisions_def)
  moreover have "pad_left 3 (nat_digits 0) = ''000''" by code_simp
  ultimately show ?thesis using iso_second [of "1000 * s"] by (auto dest!: in_set_takeD)
qed

subsection \<open>Creation\<close>

text \<open>
  C16: A new account is complete. When the provisioning route creates an account, the account is stored
  as a pilot of the tenant, the public badge endpoint answers the returned signature with a green badge,
  and the returned key is accepted by the ingest route at once, unless an older account has the same
  twelve-character prefix; nothing of the other accounts and badges changes.\<close>

theorem created_account_complete:
  assumes "reach acct_init (acct_step e jwt K) db" "hex_digest (ae_hmac e)"
    and "provisioningRouter e jwt n req0 (CreateAccount b) db = (A_created a raw sig, db')"
  shows "ad_accounts db' = ad_accounts db @ [a] \<and> find_account (ac_id a) db' = Some a \<and> ac_tenant a = cb_tenant b \<and> ac_status a = Pilot
    \<and> getBadgeState (ae_hmac e) (ae_sec e) (cb_tenant b) sig (ad_gov db')
        = Ok200 \<lparr>v_state = Green, v_reason = None, v_changed_at = cn_now n, v_stale = False\<rparr>
    \<and> (match_key (or_default [] (h_authorization req)) = Some raw \<longrightarrow> take 12 raw \<notin> ac_prefix ` set (ad_accounts db)
        \<longrightarrow> requireApiKey e db' req = Inr a)
    \<and> (\<forall>t. t \<noteq> cb_tenant b \<longrightarrow> find_badge (ad_gov db') t = find_badge (ad_gov db) t)"
  using assms(3)
proof (cases rule: provisioned_cases)
  case (handled req1 pl)
  let ?db = "db\<lparr>ad_plane := pl\<rparr>" and ?a = "new_account e n b"
  have "createAccount e n ''system'' b ?db = (A_created a raw sig, db')" using handled(3) by simp
  then show ?thesis
  proof (cases rule: createAccount_cases)
    case (created s g)
    have res: "a = ?a" "raw = ''caas_'' @ cn_random n" "sig = sr_signature s" using created(5) by (simp_all add: generateApiKey_def Let_def)
    have acc: "ad_accounts db' = ad_accounts db @ [a]" using created(6) res(1) by simp
    have gov: "ad_gov db' = g" using created(6) by simp
    have a: "ac_id a = cn_id n" "ac_tenant a = cb_tenant b" "ac_status a = Pilot" "ac_prefix a = take 12 raw" "ac_hash a = ae_sha e (units raw)"
      by (simp_all add: res new_account_def generateApiKey_def Let_def)
    have find: "find_account (ac_id a) db' = Some a"
      using find_fresh [of "cn_id n" ac_id "ad_accounts db"] created(2) by (simp add: find_account_def acc a(1) find_append)
    have "cb_tenant b \<notin> b_tenant ` set (badges (ad_gov db))"
      using acct.reach_inv [OF assms(1)] created(1) by (auto simp: acct_inv_def)
    then have none: "find_badge (ad_gov db) (cb_tenant b) = None" unfolding find_badge_def by (rule find_fresh)
    have green: "computeBadgeState \<lparr>in_policy_state = None, in_evidence = None\<rparr> = (Green, None)" by (simp add: computeBadgeState_def)
    have other: "find_badge g t = find_badge (ad_gov db) t" if "t \<noteq> cb_tenant b" for t
      using syncBadge_shown(2) [OF created(4) that] by simp
    from created(4) obtain bd where bd: "find_badge g (cb_tenant b) = Some bd" "b_state bd = Green" "state_reason bd = None"
      "state_changed_at bd = cn_now n" "state_signature bd = sig" "sig \<noteq> []"
    proof (cases rule: syncBadge_cases)
      case (written st reason sg r db1)
      have res': "st = Green" "reason = None" "g = db1" using written(3,7) green by simp_all
      have sg: "sig = sg" using written(5,7) res(3) by simp
      let ?b = "\<lparr>b_tenant = cb_tenant b, b_account = cn_id n, b_state = st, state_signature = sg, state_reason = reason,
        state_changed_at = cn_now n, b_created_at = cn_now n, b_updated_at = cn_now n\<rparr>"
      have "badges g = badges (ad_gov db) @ [?b]" using written(6) none unfolding res' by simp
      then have "find_badge g (cb_tenant b) = Some ?b" using none by (simp add: find_badge_def find_append)
      moreover have "sig \<noteq> []" using sg written(4) hex_nonempty [OF assms(2)] by (simp add: signBadgeState_def)
      ultimately show ?thesis using that [of ?b] res' sg by simp
    qed (use none in simp_all)
    have badge: "getBadgeState (ae_hmac e) (ae_sec e) (cb_tenant b) sig g = Ok200 \<lparr>v_state = Green, v_reason = None, v_changed_at = cn_now n, v_stale = False\<rparr>"
      using bd by (simp add: getBadgeState_def Let_def)
    have key: "requireApiKey e db' req = Inr a"
      if "match_key (or_default [] (h_authorization req)) = Some raw" "take 12 raw \<notin> ac_prefix ` set (ad_accounts db)"
    proof -
      have "List.find (\<lambda>x. ac_prefix x = take 12 raw) (ad_accounts db') = Some a"
        using find_fresh [OF that(2)] a(4) by (simp add: acc find_append)
      then show ?thesis using that(1) a(3,5) by (simp add: requireApiKey_def API_KEY_PREFIX_LENGTH_def)
    qed
    show ?thesis using acc find a(2,3) badge key other gov by blast
  qed simp
next
  case (stopped pl)
  then show ?thesis by auto
qed

subsection \<open>A run\<close>

definition demo_x :: string where "demo_x = replicate 64 (CHR ''0'')"

definition demo_acct_env :: acct_env where
  "demo_acct_env = \<lparr>ae_sha = (\<lambda>m. if m = units (''caas_'' @ demo_x) then replicate 64 (CHR ''a'') else replicate 64 (CHR ''b'')),
     ae_hmac = demo_hmac, ae_sec = demo_sec ''s'' None, ae_uuid = (\<lambda>_. True), ae_email = (\<lambda>_. True), ae_datetime = (\<lambda>_. True)\<rparr>"

definition demo_boss :: user_row where
  "demo_boss = (new_user 0 ''u0'' ''boss'' ''o@x'' ''h'' ''Executive'' ''hq'')\<lparr>u_plane := Business, u_plane_role := ''global_super_admin''\<rparr>"

definition demo_accts :: acct_db where
  "demo_accts = \<lparr>ad_accounts = [], ad_decisions = [], ad_audit = [], ad_gov = demo_db\<lparr>badges := []\<rparr>,
     ad_plane = \<lparr>ps_db = demo_plat\<lparr>t_users := [demo_boss]\<rparr>, ps_bursts = []\<rparr>\<rparr>"

definition demo_boss_jwt :: "string \<Rightarrow> jwt_result" where "demo_boss_jwt t = JwtOk (Some ''u0'') (Some ''hq'') (Some ''Executive'')"

definition demo_boss_call :: request where "demo_boss_call = demo_request\<lparr>r_method := ''POST'', h_authorization := Some ''Bearer T''\<rparr>"

definition demo_key_call :: request where
  "demo_key_call = demo_request\<lparr>h_authorization := Some (''Bearer '' @ ''caas_'' @ demo_x)\<rparr>"

lemma demo_key_digest: "key_digest demo_acct_env"
  by (auto simp: key_digest_def demo_acct_env_def ascii_units_def units_def)

lemma demo_match: "match_key (or_default [] (h_authorization demo_key_call)) = Some (''caas_'' @ demo_x)"
proof -
  have "match_key (''Bearer '' @ ''caas_'' @ replicate 64 (CHR ''0'')) = Some (''caas_'' @ replicate 64 (CHR ''0''))" by code_simp
  then show ?thesis by (simp add: demo_key_call_def demo_x_def or_default_def)
qed

lemma demo_boss_passes:
  assumes "t_users (ps_db st) = [demo_boss]"
  shows "\<exists>req pl. requireAccessToken demo_boss_jwt demo_boss_call = Inr req \<and> t_users (ps_db pl) = [demo_boss]
     \<and> requireDualPlane (requireBusinessPlane (Some [''global_super_admin''])) 5000 req st = (Passed (principal_of demo_boss), pl)"
proof -
  obtain req where req: "requireAccessToken demo_boss_jwt demo_boss_call = Inr req" "caas_user req = Some ''u0''"
    by (simp add: requireAccessToken_def demo_boss_call_def starts_with_def demo_boss_jwt_def)
  have "resolvePrincipal req (ps_db st) = Some (principal_of demo_boss)"
    using req(2) assms by (simp add: resolvePrincipal_def find_user_def demo_boss_def new_user_def)
  then have "\<exists>pl. requireDualPlane (requireBusinessPlane (Some [''global_super_admin''])) 5000 req st = (Passed (principal_of demo_boss), pl)
      \<and> t_users (ps_db pl) = [demo_boss]"
    using assms by (simp add: requireDualPlane_def evaluateBoundary_def requireBusinessPlane_def any_requirement_def allowed_roles_def or_default_def
        principal_of_def demo_boss_def new_user_def write_blocked_def writeAccessMetric_eq)
  then show ?thesis using req(1) by blast
qed

definition demo_body :: "string \<Rightarrow> create_body" where
  "demo_body t = \<lparr>cb_tenant = t, cb_name = ''acme'', cb_tier = LITE, cb_email = None, cb_days = 30\<rparr>"

definition demo_cn :: "string \<Rightarrow> string \<Rightarrow> string list \<Rightarrow> acct_nonce" where
  "demo_cn i x ids = \<lparr>cn_now = 5000, cn_id = i, cn_random = x, cn_ids = ids\<rparr>"

lemma demo_cn_sel:
  "cn_now (demo_cn i x ids) = 5000" "cn_id (demo_cn i x ids) = i" "cn_random (demo_cn i x ids) = x" "cn_ids (demo_cn i x ids) = ids"
  "cb_tenant (demo_body t) = t" "cb_days (demo_body t) = 30" "cb_name (demo_body t) = ''acme''" "cb_email (demo_body t) = None"
  by (simp_all add: demo_cn_def demo_body_def)

definition demo_acct :: "string \<Rightarrow> string \<Rightarrow> acct_row" where
  "demo_acct i t = new_account demo_acct_env (demo_cn i demo_x []) (demo_body t)"

definition demo_create :: "string \<Rightarrow> string \<Rightarrow> acct_db \<Rightarrow> acct_resp \<times> acct_db" where
  "demo_create i t = provisioningRouter demo_acct_env demo_boss_jwt (demo_cn i demo_x []) demo_boss_call (CreateAccount (demo_body t))"

lemma demo_account_created:
  assumes "t_users (ps_db (ad_plane db)) = [demo_boss]" "t \<noteq> []" "t \<notin> ac_tenant ` set (ad_accounts db)" "i \<notin> ac_id ` set (ad_accounts db)"
    and "find_badge (ad_gov db) t = None"
  shows "\<exists>sig db'. demo_create i t db = (A_created (demo_acct i t) (''caas_'' @ demo_x) sig, db') \<and> ad_accounts db' = ad_accounts db @ [demo_acct i t]
     \<and> ad_decisions db' = ad_decisions db \<and> t_users (ps_db (ad_plane db')) = [demo_boss]"
proof -
  obtain req pl where g: "requireAccessToken demo_boss_jwt demo_boss_call = Inr req" "t_users (ps_db pl) = [demo_boss]"
    "requireDualPlane (requireBusinessPlane (Some [''global_super_admin''])) 5000 req (ad_plane db) = (Passed (principal_of demo_boss), pl)"
    using demo_boss_passes [OF assms(1)] by blast
  have ok: "acct_call_ok demo_acct_env (CreateAccount (demo_body t))" using assms(2) by (simp add: demo_cn_sel)
  let ?g = "gov_of (ad_accounts db @ [demo_acct i t]) (ad_gov db)"
  have "account_exists ?g i" by (simp add: demo_acct_def new_account_def demo_cn_sel)
  moreover have "find_badge ?g t = None" using assms(5) by simp
  ultimately obtain s g' where sync: "syncBadge (ae_hmac demo_acct_env) (ae_sec demo_acct_env) 5000 t i \<lparr>in_policy_state = None, in_evidence = None\<rparr> ?g = Inr (s, g')"
    by (simp add: syncBadge_def computeBadgeState_def Let_def)
  show ?thesis
    using g(2,3) ok sync find_fresh [OF assms(3)] assms(4) unfolding demo_acct_def demo_create_def
    by (simp add: provisioningRouter_def g(1) demo_cn_sel createAccount_def Let_def max_time_def generateApiKey_def)
qed

definition demo_accts1 :: acct_db where "demo_accts1 = snd (demo_create ''a1'' ''t'' demo_accts)"

lemma demo_accts1_created:
  "\<exists>sig. demo_create ''a1'' ''t'' demo_accts = (A_created (demo_acct ''a1'' ''t'') (''caas_'' @ demo_x) sig, demo_accts1)"
  and demo_accts1_tables: "ad_accounts demo_accts1 = [demo_acct ''a1'' ''t'']" "ad_decisions demo_accts1 = []" "t_users (ps_db (ad_plane demo_accts1)) = [demo_boss]"
  using demo_account_created [of demo_accts "''t''" "''a1''"] by (auto simp: demo_accts1_def demo_accts_def find_badge_def)

lemma demo_accts_reach: "reach acct_init (acct_step demo_acct_env demo_boss_jwt K) demo_accts"
  by (rule reach_init) (simp add: acct_init_def demo_accts_def)

lemma demo_create_step: "demo_create i t db = (r, db') \<Longrightarrow> demo_x \<in> K \<Longrightarrow> acct_step demo_acct_env demo_boss_jwt K db db'"
  unfolding demo_create_def by (erule provisioning) (simp add: demo_cn_sel)

lemma demo_accts1_reach: "demo_x \<in> K \<Longrightarrow> reach acct_init (acct_step demo_acct_env demo_boss_jwt K) demo_accts1"
  using demo_accts1_created demo_create_step demo_accts_reach reach_step by metis

lemma demo_acct_sel:
  "ac_id (demo_acct i t) = i" "ac_tenant (demo_acct i t) = t" "ac_status (demo_acct i t) = Pilot" "ac_prefix (demo_acct i t) = take 12 (''caas_'' @ demo_x)"
  "ac_hash (demo_acct i t) = ae_sha demo_acct_env (units (''caas_'' @ demo_x))"
  by (simp_all add: demo_acct_def new_account_def demo_cn_sel generateApiKey_def Let_def)

lemma demo_key_works: "requireApiKey demo_acct_env demo_accts1 demo_key_call = Inr (demo_acct ''a1'' ''t'')"
  by (simp add: requireApiKey_def demo_match demo_accts1_tables demo_acct_sel API_KEY_PREFIX_LENGTH_def)

theorem issued_keys_never_authenticate_witness:
  "\<exists>db. reach acct_init (acct_step demo_acct_env demo_boss_jwt {demo_x}) db \<and> ad_accounts db = [(demo_acct ''a1'' ''t'')]
     \<and> apiKeyAuthMiddleware (\<lambda>_ _. Some True) (demo_plat\<lparr>t_accounts := map key_account_of (ad_accounts db)\<rparr>) demo_key_call = Inr demo_key_call
     \<and> \<not> starts_with ''Bearer aitw_'' (or_default [] (h_authorization demo_key_call))"
proof -
  let ?p = "demo_plat\<lparr>t_accounts := map key_account_of (ad_accounts demo_accts1)\<rparr>"
  have r: "reach acct_init (acct_step demo_acct_env demo_boss_jwt {demo_x}) demo_accts1" by (rule demo_accts1_reach) simp
  have "apiKeyAuthMiddleware (\<lambda>_ _. Some True) ?p demo_key_call = Inr demo_key_call"
    by (simp add: apiKeyAuthMiddleware_def demo_key_call_def starts_with_def API_KEY_SENTINEL_def)
  moreover from issued_keys_never_authenticate [OF r _ this]
  have "\<not> starts_with ''Bearer aitw_'' (or_default [] (h_authorization demo_key_call))" by simp
  ultimately show ?thesis using r demo_accts1_tables(1) by blast
qed

definition demo_y :: string where "demo_y = replicate 64 (CHR ''1'')"

lemma demo_y_fresh: "demo_y \<noteq> demo_x" by (simp add: demo_x_def demo_y_def)

text \<open>Two accounts of the same key: after the rotation of the first the old key lets in the second.\<close>

theorem rotated_key_dead_witness:
  "\<exists>db b. requireApiKey demo_acct_env db demo_key_call = Inr b \<and> ac_id b \<noteq> ''a1'' \<and> find_account ''a1'' db \<noteq> None"
proof -
  let ?K = "insert demo_x (insert demo_y {})" and ?a = "demo_acct ''a1'' ''t''" and ?n = "demo_cn ''a1'' demo_y []"
  have r1: "reach acct_init (acct_step demo_acct_env demo_boss_jwt ?K) demo_accts1" by (rule demo_accts1_reach) simp
  have "b_tenant ` set (badges (ad_gov demo_accts1)) \<subseteq> {''t''}"
    using acct.reach_inv [OF r1] by (simp add: acct_inv_def demo_accts1_tables demo_acct_sel)
  then have "find_badge (ad_gov demo_accts1) ''t2'' = None" unfolding find_badge_def by (intro find_fresh) auto
  then obtain sig db where c: "demo_create ''a2'' ''t2'' demo_accts1 = (A_created (demo_acct ''a2'' ''t2'') (''caas_'' @ demo_x) sig, db)"
    "ad_accounts db = [?a, demo_acct ''a2'' ''t2'']"
    using demo_account_created [of demo_accts1 "''t2''" "''a2''"] by (auto simp: demo_accts1_tables demo_acct_sel)
  have r2: "reach acct_init (acct_step demo_acct_env demo_boss_jwt (insert demo_x (insert (cn_random ?n) {}))) db"
    unfolding demo_cn_sel by (rule reach_step [OF r1 demo_create_step [OF c(1)]]) simp
  have f: "find_account ''a1'' db = Some ?a" by (simp add: find_account_def c(2) demo_acct_sel)
  obtain raw pre now db1 where rot: "rotateApiKey demo_acct_env ?n ''system'' ''a1'' db = (A_rotated raw pre now, db1)"
    by (simp add: rotateApiKey_def f Let_def)
  have accs: "ad_accounts db1 = [?a\<lparr>ac_hash := ae_sha demo_acct_env (units (''caas_'' @ demo_y)), ac_prefix := take 12 (''caas_'' @ demo_y),
      ac_rotated := Some 5000, ac_updated := 5000\<rparr>, demo_acct ''a2'' ''t2'']"
    using rot by (cases rule: rotateApiKey_cases) (simp_all add: f c(2) demo_acct_sel demo_cn_sel)
  have pre: "take 12 (''caas_'' @ demo_x) \<noteq> take 12 (''caas_'' @ demo_y)" by (simp add: demo_x_def demo_y_def)
  then have key: "requireApiKey demo_acct_env db1 demo_key_call = Inr (demo_acct ''a2'' ''t2'')"
    by (simp add: requireApiKey_def demo_match accs demo_acct_sel API_KEY_PREFIX_LENGTH_def)
  have coll: "ae_sha demo_acct_env (units (''caas_'' @ y)) = ae_sha demo_acct_env (units (''caas_'' @ demo_x)) \<Longrightarrow> y = demo_x" for y
    by (simp add: demo_acct_env_def units_inj split: if_splits)
  have "ac_id (demo_acct ''a2'' ''t2'') \<noteq> ''a1''"
    by (rule rotated_key_dead [OF r2 f _ rot rtranclp.rtrancl_refl _ demo_key_digest coll demo_match key])
      (use demo_y_fresh in \<open>simp_all add: demo_acct_sel demo_cn_sel\<close>)
  moreover have "find_account ''a1'' db1 \<noteq> None" by (simp add: find_account_def accs demo_acct_sel)
  ultimately show ?thesis using key by blast
qed

theorem decisions_owned_witness:
  "\<exists>db d. reach acct_init (acct_step demo_acct_env demo_boss_jwt {demo_x}) db \<and> ad_decisions db = [d]
     \<and> (\<exists>a. find_account (dr_account d) db = Some a \<and> ac_tenant a = dr_tenant d)"
proof -
  let ?d = "\<lparr>dp_client = None, dp_class = None, dp_risk = None, dp_payload = None\<rparr>"
  let ?n = "demo_cn ''a1'' demo_x [''d1'']" and ?r = "\<lambda>n. decision_row_of demo_acct_env n (demo_acct ''a1'' ''t'') demo_key_call ''d1'' ?d"
  let ?db = "demo_accts1\<lparr>ad_decisions := [?r ?n]\<rparr>"
  have r: "reach acct_init (acct_step demo_acct_env demo_boss_jwt {demo_x}) demo_accts1" by (rule demo_accts1_reach) simp
  have "payload_text ?d = [123, 125]" by (simp add: payload_text_def or_default_def units_def)
  then have "\<not> oversized ?d" by (simp add: oversized_def MAX_PAYLOAD_BYTES_def utf8_unit_def)
  then have "pilotIngestRouter demo_acct_env ?n demo_key_call (Ingest (Single ?d)) demo_accts1 = (P_accepted [''d1''] 5000, ?db)"
    using demo_key_works
    by (simp add: pilotIngestRouter_def decision_ok_def ingestDecisions_def Let_def MAX_BATCH_SIZE_def demo_cn_sel demo_accts1_tables
        decision_row_of_def demo_acct_sel)
  then have "acct_step demo_acct_env demo_boss_jwt {demo_x} demo_accts1 ?db" by (rule pilot)
  with r have r': "reach acct_init (acct_step demo_acct_env demo_boss_jwt {demo_x}) ?db" by (rule reach_step)
  have "\<exists>a. find_account (dr_account (?r ?n)) ?db = Some a \<and> ac_tenant a = dr_tenant (?r ?n)"
    using decisions_owned [OF r'] by simp
  then show ?thesis using r' by (intro exI [of _ ?db] exI [of _ "?r ?n"]) simp
qed

theorem ingest_whole_or_nothing_witness:
  "pilotIngestRouter demo_acct_env (demo_cn ''a1'' demo_x [''d1'', ''d1'']) demo_key_call
     (Ingest (Batch (replicate 2 \<lparr>dp_client = None, dp_class = None, dp_risk = None, dp_payload = None\<rparr>))) demo_accts1 = (P_error, demo_accts1)"
proof -
  let ?d = "\<lparr>dp_client = None, dp_class = None, dp_risk = None, dp_payload = None\<rparr>" and ?n = "demo_cn ''a1'' demo_x [''d1'', ''d1'']"
  have "ingest_ok (Batch (replicate 2 ?d))" by (simp add: decision_ok_def numeral_2_eq_2)
  moreover have "length (cn_ids ?n) = length (replicate 2 ?d)" "\<not> distinct (cn_ids ?n)" by (simp_all add: demo_cn_sel)
  moreover have "distinct (map ac_id (ad_accounts demo_accts1))" by (simp add: demo_accts1_tables)
  moreover have "length (utf8 (payload_text ?d)) = 2" by (simp add: payload_text_def or_default_def units_def utf8_unit_def)
  ultimately show ?thesis
    using ingest_whole_or_nothing [OF demo_key_works, of "Batch (replicate 2 ?d)" "replicate 2 ?d" ?n] by simp
qed

theorem listing_exact_witness:
  "\<exists>rows. pilotIngestRouter demo_acct_env (demo_cn ''a1'' demo_x []) demo_key_call (ListDecisions 50 None) demo_accts1 = (P_list rows, demo_accts1)"
  using listing_exact [OF demo_key_works, of 50 "demo_cn ''a1'' demo_x []"] by auto

theorem since_skips_its_second_witness:
  "\<exists>d rows. dr_received d = 5500 \<and> listDecisions (demo_acct ''a1'' ''t'') 50 (Some (second_text 5 @ ''Z'')) (demo_accts1\<lparr>ad_decisions := [d]\<rparr>) = P_list rows \<and> d \<notin> set rows"
proof -
  let ?d = "(decision_row_of demo_acct_env (demo_cn ''a1'' demo_x []) (demo_acct ''a1'' ''t'') demo_key_call ''d1'' \<lparr>dp_client = None, dp_class = None, dp_risk = None, dp_payload = None\<rparr>)
    \<lparr>dr_received := 5500\<rparr>"
  obtain rows where rows: "listDecisions (demo_acct ''a1'' ''t'') 50 (Some (second_text 5 @ ''Z'')) (demo_accts1\<lparr>ad_decisions := [?d]\<rparr>) = P_list rows"
    by (simp add: listDecisions_def)
  have "dr_received ?d div 1000 = 5" "1000 * 5 < dr_received ?d" by simp_all
  from since_skips_its_second [OF this rows] rows show ?thesis by (intro exI [of _ ?d] exI [of _ rows]) simp
qed

theorem created_account_complete_witness:
  "\<exists>sig. requireApiKey demo_acct_env demo_accts1 demo_key_call = Inr (demo_acct ''a1'' ''t'')
     \<and> getBadgeState demo_hmac (demo_sec ''s'' None) ''t'' sig (ad_gov demo_accts1) = Ok200 \<lparr>v_state = Green, v_reason = None, v_changed_at = 5000, v_stale = False\<rparr>"
proof -
  obtain sig where c: "provisioningRouter demo_acct_env demo_boss_jwt (demo_cn ''a1'' demo_x []) demo_boss_call (CreateAccount (demo_body ''t'')) demo_accts
     = (A_created (demo_acct ''a1'' ''t'') (''caas_'' @ demo_x) sig, demo_accts1)" using demo_accts1_created unfolding demo_create_def by blast
  have h: "hex_digest (ae_hmac demo_acct_env)" by (simp add: demo_acct_env_def demo_hex)
  have e: "ae_hmac demo_acct_env = demo_hmac" "ae_sec demo_acct_env = demo_sec ''s'' None" "ad_accounts demo_accts = []"
    by (simp_all add: demo_acct_env_def demo_accts_def)
  from created_account_complete [OF demo_accts_reach [of UNIV] h c, of demo_key_call] show ?thesis
    unfolding e demo_match demo_cn_sel by auto
qed

end
