(* ===== verification/PovProps.thy ===== *)
theory PovProps
  imports AccountsProps Decimal
begin

section \<open>Proof-of-value statements: properties\<close>

text \<open>
  The arithmetic of the statement is exact as long as a window has at most \<open>2 ^ 30\<close> rows; the
  statement is tied to the guards that write the rows; the amounts of the text read back.
\<close>

subsection \<open>Exact values\<close>

lemma baseline_int: "\<exists>B::int. PENALTY_BASELINE_USD tier = of_int B \<and> 0 < B \<and> B \<le> 100000"
  by (cases tier) (auto intro: exI [of _ 5000] exI [of _ 25000] exI [of _ 100000])

lemma value_exact:
  assumes "c \<le> r" "r \<le> 2 ^ 30"
  shows "value_delivered tier r c = PENALTY_BASELINE_USD tier * of_nat (r + 2 * c)"
proof -
  obtain B :: int where B: "PENALTY_BASELINE_USD tier = of_int B" "0 < B" "B \<le> 100000" using baseline_int by blast
  have le: "int c \<le> int r" "int r \<le> 2 ^ 30" using assms by simp_all
  have d: "fsub (of_nat r) (of_nat c) = of_int (int r - int c)"
    using rnd_of_int [of "int r - int c"] le by (simp add: fsub_def)
  have bd: "k * B \<le> 2 ^ 30 * 100000" if "0 \<le> k" "k \<le> 2 ^ 30" for k using mult_mono [OF that(2) B(3)] B(2) that(1) by simp
  have o: "fmul (of_int (int r - int c)) (of_int B) = of_int ((int r - int c) * B)"
    using rnd_of_int [of "(int r - int c) * B"] bd [of "int r - int c"] le B(2) by (simp add: fmul_def)
  have c1: "fmul (of_nat c) (of_int B) = of_int (int c * B)"
    using rnd_of_int [of "int c * B"] bd [of "int c"] le B(2) by (simp add: fmul_def)
  have c2: "fmul (of_int (int c * B)) 3 = of_int (int c * B * 3)"
    using rnd_of_int [of "int c * B * 3"] bd [of "int c"] le B(2) by (simp add: fmul_def)
  have p: "0 \<le> (int r - int c) * B" using le B(2) by simp
  have s: "fadd (of_int ((int r - int c) * B)) (of_int (int c * B * 3)) = of_int ((int r - int c) * B + int c * B * 3)"
    using rnd_of_int [of "(int r - int c) * B + int c * B * 3"] bd [of "int c"] bd [of "int r - int c"] le B(2) p by (simp add: fadd_def)
  have m: "max 0 (of_int ((int r - int c) * B) :: rat) = of_int ((int r - int c) * B)" using p by (simp add: max_def del: of_int_mult of_int_diff)
  show ?thesis
    by (simp only: value_delivered_def Let_def CROSSING_MULTIPLIER_def B(1) d o c1 c2 m s) (simp add: algebra_simps)
qed

lemma js_round_of_int [simp]: "js_round (of_int k) = k"
  by (simp add: js_round_def floor_unique)

lemma value_rounded:
  assumes "c \<le> r" "r \<le> 2 ^ 30" "PENALTY_BASELINE_USD tier = of_int B"
  shows "js_round (value_delivered tier r c) = B * int (r + 2 * c)"
  using js_round_of_int [of "B * int (r + 2 * c)"] by (simp add: value_exact [OF assms(1,2)] assms(3) del: js_round_of_int)

lemma sum_case_count: "or_default 0 (sum_case p ms) = count_where p ms"
  by (simp add: sum_case_def or_default_def)

lemma crossings_le_risks: "crossings_blocked ms \<le> risks_blocked ms" "risks_blocked ms \<le> length ms"
  unfolding crossings_blocked_def risks_blocked_def sum_case_count
  by (rule count_where_mono, simp) (rule count_where_le_length)

lemma window_length: "length (window_rows now days t db) \<le> length (t_metrics db)"
  by (simp add: window_rows_def)

subsection \<open>Denied requests are the value\<close>

lemma denied_row:
  assumes "requireDualPlane rq now req st = (g, pl)" "resolvePrincipal req (ps_db st) = Some p" "g \<noteq> GuardError500" "\<And>q. g \<noteq> Passed q"
  obtains row where "t_metrics (ps_db pl) = t_metrics (ps_db st) @ [row]" "\<not> m_granted row" "m_tenant row = pr_tenant p" "m_evaluated_at row = now"
    "m_boundary_crossing row \<longleftrightarrow> rq_plane rq \<notin> {None, Some (pr_plane p)}"
proof -
  have "\<exists>b. pl = writeAccessMetric now req (metric_of rq req (Some p) b) st \<and> \<not> bo_granted b
      \<and> (bo_crossing b \<longleftrightarrow> rq_plane rq \<notin> {None, Some (pr_plane p)})"
  proof (cases "evaluateBoundary p rq (h_tenant_id req)")
    case (Inl x)
    then show ?thesis using assms by (simp add: requireDualPlane_def)
  next
    case (Inr b)
    show ?thesis
    proof (cases "bo_granted b")
      case False
      have "bo_crossing b \<longleftrightarrow> rq_plane rq \<notin> {None, Some (pr_plane p)}"
        using Inr False by (auto simp: evaluateBoundary_def Let_def bind_t_Inr deny_def split: if_splits)
      moreover have "pl = writeAccessMetric now req (metric_of rq req (Some p) b) st" using assms(1,2) Inr False by (simp add: requireDualPlane_def)
      ultimately show ?thesis using False by blast
    next
      case True
      have "rq_plane rq \<in> {None, Some (pr_plane p)}"
        using Inr True by (auto simp: evaluateBoundary_def Let_def bind_t_Inr deny_def split: if_splits)
      moreover have "write_blocked p (r_method req) = Some True"
        using assms Inr True by (auto simp: requireDualPlane_def split: option.splits bool.splits)
      ultimately show ?thesis using assms(1,2) Inr True by (auto simp: requireDualPlane_def deny_def)
    qed
  qed
  then obtain b where b: "pl = writeAccessMetric now req (metric_of rq req (Some p) b) st" "\<not> bo_granted b"
    "bo_crossing b \<longleftrightarrow> rq_plane rq \<notin> {None, Some (pr_plane p)}" by blast
  show ?thesis
    by (rule that [of "metric_row now req (metric_of rq req (Some p) b) (ps_db st)"])
      (use b in \<open>simp_all add: writeAccessMetric_eq metric_row_def metric_of_def Let_def\<close>)
qed

text \<open>
  C21: What a tenant is billed as value is what the guards denied. One more request of one of the
  tenant's users that a guard denies raises the value on the next statement by exactly the penalty of
  the tier, by three times the penalty if the guard's plane was not the user's, and leaves the cost as it
  is: the guards' refusals, whatever their reason, are the value the statement claims.\<close>

theorem denial_adds_value:
  assumes "find_account i db = Some a" "resolvePrincipal req (ps_db (ad_plane db)) = Some p" "pr_tenant p = Some (ac_tenant a)"
    and "requireDualPlane rq now req (ad_plane db) = (g, pl)" "g \<noteq> GuardError500" "\<And>q. g \<noteq> Passed q"
    and "1 \<le> days" "length (t_metrics (ps_db (ad_plane db))) < 2 ^ 30"
  shows "\<exists>s s'. buildStatement now i days db = Some s \<and> buildStatement now i days (db\<lparr>ad_plane := pl\<rparr>) = Some s'
    \<and> of_int (se_value (st_economics s')) = of_int (se_value (st_economics s))
        + PENALTY_BASELINE_USD (ac_tier a) * (if rq_plane rq \<in> {None, Some (pr_plane p)} then 1 else 3)
    \<and> se_cost (st_economics s') = se_cost (st_economics s) \<and> sm_risks (st_metrics s') = Suc (sm_risks (st_metrics s))"
proof -
  obtain row where row: "t_metrics (ps_db pl) = t_metrics (ps_db (ad_plane db)) @ [row]" "\<not> m_granted row" "m_tenant row = pr_tenant p"
    "m_evaluated_at row = now" "m_boundary_crossing row \<longleftrightarrow> rq_plane rq \<notin> {None, Some (pr_plane p)}"
    using denied_row [OF assms(4,2,5,6)] by blast
  let ?ms = "window_rows now days (ac_tenant a) (ps_db (ad_plane db))" and ?ms' = "window_rows now days (ac_tenant a) (ps_db pl)"
  have "daysAgo now days < now" using assms(7) by (simp add: daysAgo_def)
  then have w: "?ms' = ?ms @ [row]" using row assms(3) by (simp add: window_rows_def)
  have n: "risks_blocked ?ms' = Suc (risks_blocked ?ms)"
    "crossings_blocked ?ms' = crossings_blocked ?ms + (if rq_plane rq \<in> {None, Some (pr_plane p)} then 0 else 1)"
    using row(2,5) unfolding risks_blocked_def crossings_blocked_def sum_case_count w by auto
  obtain B :: int where B: "PENALTY_BASELINE_USD (ac_tier a) = of_int B" using baseline_int by blast
  have le: "risks_blocked ?ms \<le> 2 ^ 30" "risks_blocked ?ms' \<le> 2 ^ 30"
    using crossings_le_risks(2) [of ?ms] window_length [of now days "ac_tenant a" "ps_db (ad_plane db)"] assms(8) n(1) by simp_all
  note v = value_rounded [OF crossings_le_risks(1) le(1) B] value_rounded [OF crossings_le_risks(1) le(2) B]
  have f: "find_account i (db\<lparr>ad_plane := pl\<rparr>) = Some a" using assms(1) by (simp add: find_account_def)
  have "of_int (js_round (value_delivered (ac_tier a) (risks_blocked ?ms') (crossings_blocked ?ms')))
      = of_int (js_round (value_delivered (ac_tier a) (risks_blocked ?ms) (crossings_blocked ?ms)))
        + PENALTY_BASELINE_USD (ac_tier a) * (if rq_plane rq \<in> {None, Some (pr_plane p)} then 1 else 3)"
    unfolding v unfolding n by (simp add: B algebra_simps)
  then show ?thesis
    unfolding buildStatement_def assms(1) f using n(1) by (simp only: Let_def economics_of_def option.case) simp
qed

text \<open>
  The statement is exact. With at most \<open>2 ^ 30\<close> rows in the table the value, computed in doubles, is
  exactly the penalty of the tier times the denials plus twice the denied crossings of the window, it is
  never negative, and the three counts are the numbers of such rows of the tenant.\<close>

theorem statement_exact:
  assumes "find_account i db = Some a" "length (t_metrics (ps_db (ad_plane db))) \<le> 2 ^ 30"
    and rows_def: "rows = filter (\<lambda>m. m_tenant m = Some (ac_tenant a) \<and> now - days * 86400000 < m_evaluated_at m) (t_metrics (ps_db (ad_plane db)))"
  shows "\<exists>s. buildStatement now i days db = Some s
    \<and> of_int (se_value (st_economics s)) = PENALTY_BASELINE_USD (ac_tier a)
        * of_nat (count_where (\<lambda>m. \<not> m_granted m) rows + 2 * count_where (\<lambda>m. m_boundary_crossing m \<and> \<not> m_granted m) rows)
    \<and> 0 \<le> se_value (st_economics s) \<and> sm_total (st_metrics s) = length rows
    \<and> sm_risks (st_metrics s) = count_where (\<lambda>m. \<not> m_granted m) rows
    \<and> sm_crossings (st_metrics s) = count_where (\<lambda>m. m_boundary_crossing m \<and> \<not> m_granted m) rows"
proof -
  have w: "window_rows now days (ac_tenant a) (ps_db (ad_plane db)) = rows" by (simp add: window_rows_def rows_def daysAgo_def)
  have n: "risks_blocked rows = count_where (\<lambda>m. \<not> m_granted m) rows"
    "crossings_blocked rows = count_where (\<lambda>m. m_boundary_crossing m \<and> \<not> m_granted m) rows"
    by (simp_all add: risks_blocked_def crossings_blocked_def sum_case_count)
  obtain B :: int where B: "PENALTY_BASELINE_USD (ac_tier a) = of_int B" "0 < B" using baseline_int by blast
  have "length rows \<le> 2 ^ 30" using assms(2) length_filter_le le_trans unfolding rows_def by blast
  then have "risks_blocked rows \<le> 2 ^ 30" using crossings_le_risks(2) [of rows] by simp
  note v = value_rounded [OF crossings_le_risks(1) this B(1)]
  show ?thesis
    unfolding buildStatement_def assms(1) using B(2) v n
    by (simp add: Let_def economics_of_def w B(1))
qed

subsection \<open>The text reads back\<close>

text \<open>The amount after the dollar sign of a line, and the number at the end of a line without one.\<close>

definition read_amount :: "ustring \<Rightarrow> int" where
  "read_amount l = (let t = tl (dropWhile (\<lambda>c. c \<noteq> CHR ''$'') (map char_of l)); v = digits_val (filter is_digit t)
     in if t \<noteq> [] \<and> hd t = CHR ''-'' then - v else v)"

definition read_count :: "ustring \<Rightarrow> int" where
  "read_count l = digits_val (rev (takeWhile is_digit (rev (map char_of l))))"

lemma chars_units [simp]: "map char_of (units s) = s"
  by (simp add: units_def comp_def)

lemma not_digits: "\<not> is_digit CHR '',''" "\<not> is_digit CHR ''$''" "\<not> is_digit CHR ''-''" "\<not> is_digit CHR '' ''"
  by (simp_all add: is_digit_def)

lemma filter_group: "filter is_digit (group_rev s) = filter is_digit s"
  by (induction s rule: group_rev.induct) (simp_all add: not_digits)

lemma set_group: "set (group_rev s) \<subseteq> insert (CHR '','') (set s)"
  by (induction s rule: group_rev.induct) auto

lemma digits_only: "0 \<le> n \<Longrightarrow> filter is_digit (nat_digits n) = nat_digits n"
  using nat_digits_no_sep by (simp add: filter_id_conv)

lemma digits_grouped: "filter is_digit (rev (group_rev (rev (nat_digits \<bar>n\<bar>)))) = nat_digits \<bar>n\<bar>"
  by (simp add: rev_filter [symmetric] filter_group digits_only)

lemma locale_string_digits: "digits_val (filter is_digit (locale_string n)) = \<bar>n\<bar>"
  by (simp add: locale_string_def digits_grouped digits_val_nat_digits not_digits)

lemma grouped_head: "s \<noteq> [] \<Longrightarrow> \<forall>c \<in> set s. is_digit c \<Longrightarrow> is_digit (last (group_rev s))"
proof (induction s rule: group_rev.induct)
  case (1 a b c d s)
  have "group_rev (d # s) \<noteq> []" by (cases s rule: group_rev.cases) (auto split: list.splits)
  then show ?case using 1 by simp
qed auto

lemma nat_digits_nonempty: "nat_digits n \<noteq> []"
  by (subst nat_digits.simps) simp

lemma locale_string_sign: "locale_string n \<noteq> [] \<and> (hd (locale_string n) = CHR ''-'' \<longleftrightarrow> n < 0)"
proof -
  let ?g = "rev (group_rev (rev (nat_digits \<bar>n\<bar>)))"
  have "?g \<noteq> []" using digits_grouped [of n] nat_digits_nonempty [of "\<bar>n\<bar>"] by (metis filter.simps(1))
  moreover have "is_digit (hd ?g)"
    using grouped_head [of "rev (nat_digits \<bar>n\<bar>)"] nat_digits_no_sep [of "\<bar>n\<bar>"] nat_digits_nonempty \<open>?g \<noteq> []\<close> by (simp add: hd_rev)
  ultimately show ?thesis using not_digits(3) by (auto simp: locale_string_def)
qed

lemma read_pad_usd: "CHR ''$'' \<notin> set left \<Longrightarrow> read_amount (pad left (usd n)) = n"
proof -
  assume l: "CHR ''$'' \<notin> set left"
  have drop: "dropWhile (\<lambda>c. c \<noteq> CHR ''$'') (left @ replicate k (CHR '' '') @ usd n) = usd n" for k
    using l by (simp add: dropWhile_append usd_def)
  then have "tl (dropWhile (\<lambda>c. c \<noteq> CHR ''$'') (map char_of (pad left (usd n)))) = locale_string n"
    unfolding pad_def chars_units by (simp add: usd_def)
  then show ?thesis using locale_string_sign [of n] locale_string_digits [of n] by (simp add: read_amount_def Let_def)
qed

lemma take_while_stop: "\<forall>c \<in> set xs. p c \<Longrightarrow> \<not> p y \<Longrightarrow> takeWhile p (xs @ y # ys) = xs"
  by (induction xs) auto

lemma read_pad_count: "0 \<le> n \<Longrightarrow> read_count (pad left (int_str n)) = n"
proof -
  assume n: "0 \<le> n"
  define m where "m = (if length left + length (int_str n) < W then W - length left - length (int_str n) else 1)"
  obtain k where "m = Suc k" by (cases m) (auto simp: m_def split: if_splits)
  then have "replicate m (CHR '' '') = replicate k (CHR '' '') @ [CHR '' '']" by (simp only: replicate_Suc replicate_append_same)
  then have k: "pad left (int_str n) = units ((left @ replicate k (CHR '' '')) @ CHR '' '' # nat_digits n)"
    using n unfolding pad_def m_def [symmetric] by (simp add: int_str_def)
  have "rev ((left @ replicate k (CHR '' '')) @ CHR '' '' # nat_digits n) = rev (nat_digits n) @ CHR '' '' # rev (left @ replicate k (CHR '' ''))" by simp
  moreover have "\<forall>c \<in> set (rev (nat_digits n)). is_digit c" using nat_digits_no_sep [OF n] by simp
  ultimately show ?thesis unfolding read_count_def k chars_units by (simp add: take_while_stop not_digits digits_val_nat_digits n)
qed

text \<open>
  The text shows the statement. Whatever the amounts are, negative ones included, reading the grouped
  decimals of the lines with dollars, and the numbers at the end of the evidence lines, gives back the very
  numbers of the JSON statement.\<close>

theorem statement_text_reads_back:
  "read_amount (statement_lines s ! 20) = \<lfloor>se_baseline (st_economics s)\<rfloor> \<and> read_amount (statement_lines s ! 23) = se_value (st_economics s)
   \<and> read_amount (statement_lines s ! 24) = se_cost (st_economics s) \<and> read_amount (statement_lines s ! 25) = se_net (st_economics s)
   \<and> read_count (statement_lines s ! 13) = int (sm_total (st_metrics s)) \<and> read_count (statement_lines s ! 14) = int (sm_risks (st_metrics s))
   \<and> read_count (statement_lines s ! 15) = int (sm_crossings (st_metrics s))"
  by (simp add: statement_lines_def read_pad_usd read_pad_count)

subsection \<open>A run\<close>

definition demo_hq :: acct_db where
  "demo_hq = demo_accts\<lparr>ad_accounts := [demo_acct ''a1'' ''hq'']\<rparr>"

definition demo_hq_call :: request where "demo_hq_call = demo_request\<lparr>caas_user := Some ''u0''\<rparr>"

lemma demo_hq_find: "find_account ''a1'' demo_hq = Some (demo_acct ''a1'' ''hq'')"
  by (simp add: find_account_def demo_hq_def demo_acct_sel)

theorem denial_adds_value_witness:
  "\<exists>s s' pl. buildStatement 9 ''a1'' 30 demo_hq = Some s \<and> buildStatement 9 ''a1'' 30 (demo_hq\<lparr>ad_plane := pl\<rparr>) = Some s'
     \<and> (of_int (se_value (st_economics s')) :: rat) = of_int (se_value (st_economics s)) + 15000"
proof -
  have p: "resolvePrincipal demo_hq_call (ps_db (ad_plane demo_hq)) = Some (principal_of demo_boss)"
    by (simp add: resolvePrincipal_def demo_hq_call_def demo_hq_def demo_accts_def find_user_def demo_boss_def new_user_def)
  have t: "pr_tenant (principal_of demo_boss) = Some (ac_tenant (demo_acct ''a1'' ''hq''))"
    by (simp add: principal_of_def demo_boss_def new_user_def demo_acct_sel)
  have pl: "pr_plane (principal_of demo_boss) = Business" by (simp add: principal_of_def demo_boss_def)
  obtain g st where g: "requireDualPlane (requireClientPlane None) 9 demo_hq_call (ad_plane demo_hq) = (g, st)" by fastforce
  then have d: "g \<noteq> GuardError500" "\<And>q. g \<noteq> Passed q"
    using p by (auto simp: requireDualPlane_def evaluateBoundary_def requireClientPlane_def any_requirement_def pl deny_def Let_def)
  have small: "length (t_metrics (ps_db (ad_plane demo_hq))) < 2 ^ 30" by (simp add: demo_hq_def demo_accts_def demo_plat_def)
  have x: "rq_plane (requireClientPlane None) = Some Client" "ac_tier (demo_acct ''a1'' ''hq'') = LITE"
    by (simp_all add: requireClientPlane_def any_requirement_def demo_acct_def new_account_def demo_body_def)
  from denial_adds_value [OF demo_hq_find p t g d _ small, of 30] show ?thesis by (simp add: x pl) blast
qed

theorem statement_exact_witness:
  "\<exists>s. buildStatement 9 ''a1'' 30 demo_hq = Some s \<and> (of_int (se_value (st_economics s)) :: rat) = 0"
proof -
  have m: "t_metrics (ps_db (ad_plane demo_hq)) = []" by (simp add: demo_hq_def demo_accts_def demo_plat_def)
  from statement_exact [OF demo_hq_find _ refl, of 9 30] show ?thesis by (auto simp: m)
qed

end
