(* ===== verification/Spec2Isabelle.thy ===== *)
theory Spec2Isabelle
  imports RateLimiter Queue Warranty Verification Calibration DualPlane CommercialSystem PayoutProps Webhook UsersProps PovProps
begin

text \<open>
  A verification development for the CaaS platform (TypeScript, src/src of the repository): an
  Express service that sells compliance warranties to tenants, shows each tenant's standing as a
  signed trust badge, verifies compliance events against policies, prices risks, converts payout
  currencies and runs background jobs, all over one SQLite database.

  THE PROGRAM AND ITS PARTS. HTTP requests pass the rate limiter (middleware/rateLimiter.ts), reach
  a router, and read and write the database. The insurance router (routes/insurance.ts) evaluates a
  tenant's access metrics into a policy state, records every transition in the audit log
  (lib/audit.ts) and synchronises the tenant's badge (lib/badge-sync.ts); the scheduler
  (lib/recompute-scheduler.ts) does the same for every active policy every five minutes. At boot
  lib/badge-rotation.ts re-signs the badges when the HMAC secret (lib/badge-secrets.ts) changed, and
  routes/badge.ts answers embedded badges. The policy engine (engine/policy.ts) loads policies from
  JSON files and the verification engine (engine/verification.ts) evaluates events against them; the
  events arrive at webhook/receiver.ts. Users
  register and log in at routes/auth.ts, which counts failures, locks accounts and hands out access
  and refresh tokens; middleware/apiKeyAuth.ts authenticates tenants by API key; the guards of
  middleware/dualPlaneAuth.ts decide by control plane, role and tenant scope, and write the access
  metrics that the insurance router evaluates; analytics/anomaly.ts scores suspicious events and
  locks agents, users and addresses. The
  risk pipeline (lib/risk-profile.ts, lib/premium-pricing.ts, lib/vessel-classes.ts,
  routes/risk-pricing.ts) prices a time series; calibration/ reads loss runs and checks fitted
  coefficients. services/commercialEngine.ts bills the tenants: subscriptions, run counters, invoices,
  an underwriting score computed from the payout, anomaly and query logs, and signed tokens that
  reduce the insurance premium; routes/commercial.ts is its interface. services/payout.ts pays the agents of a
  tenant by the rules of their country (config/countryRequirements.ts) in the currency that services/fx.ts
  converts to; routes/users.ts administers profiles, roles, KYC tiers and the agents of freelancers;
  routes/provisioning.ts creates the tenants' accounts with their API keys and first badges, routes/pilot-ingest.ts
  stores the decisions that arrive with such a key, routes/pov-billing.ts states what the guards' denials were worth;
  services/queue.ts is the persistent job queue.

  THE THEORIES.
  Prelude: SQL tables as lists of rows (List.find, update_where, filter), JavaScript maps as
  association lists, the locale keyed_update (updates that keep the key column) and the locale
  invariant_system over the reachable states \<open>reach\<close>, which forward_simulation extends to the
  refinement of an abstract system. The first is interpreted for the badge and warranty updates,
  the second for the queue, the badge deployment, the warranties, the exchange rates and the
  accounts (auth, lockout), the profiles (usr), the accounts (acct) and the commercial tables (com), the third for the refresh tokens (token_system)
  and for the payouts (pay), which refine the runs of the exchange module.
  JsNumber: IEEE doubles as rationals with the rounding function \<open>rnd\<close> (53 bits, ties to even,
  subnormals; overflow to infinity is not modelled), Math.round, toFixed, the locale \<open>rounding\<close> and
  the comparison of rounded quotients with rounded constants (\<open>rnd_frac_less_iff\<close>).
  JsString: the string operations, ISO timestamps, UTF-16 units and UTF-8 bytes. A string is a
  list of 8-bit characters except where the code compares bytes (the badge signatures).
  JsValue: JavaScript values with property access, Number(), String() and the equalities. JsHex: hexadecimal text.
  RateLimiter: token buckets, the bounded LRU store, tiers, the middleware.
  Queue: job_queue rows, in-flight jobs, dispatch, retries, restart; a step relation.
  Badge: secrets, badge state, syncBadge, rotation, the public endpoint; the database record
  \<open>gov_db\<close> that Warranty shares.
  Warranty: policy evaluation and transitions, the five handlers, the scheduled scan; a step relation
  over requests, scans, metrics and accounts.
  Policy, Verification: policy files, hot reload, queries; conditions, outcomes, alerts, evidence logs.
  Webhook: the signed inbound edge (webhook/receiver.ts) that hands events to the engine, with its store of seen
  ids and the pruning timer; a step relation.
  Risk, Calibration: risk profiles, premiums, quotes; loss runs, aggregation, validation.
  PlatformDb: the tables of users, tokens, agents, anomalies, metrics and accounts (\<open>plat_db\<close>), shared
  by Anomaly (scores, lockouts, detectors, log query), Auth (the handlers of routes/auth.ts, the two
  token middlewares, a step relation over requests with a clock, the abstract map of sessions) and
  DualPlane (capabilities, guard, metrics, access report, the routes that mount them). A login is
  three steps (\<open>login_start\<close>, \<open>login_check\<close>, \<open>login_alerted\<close>) at its awaits, so that overlapping
  logins can be stated; the system steps run whole requests.
  CommercialDb, Billing, Underwriting: the commercial tables, hashes and signatures; subscriptions,
  commitment, invoices, tokens; score, golden thread, registration. Commercial: the routes.
  CommercialSystem: the engine as a step relation with a clock, its invariants and properties.
  Fx: providers, caches, conversion, log, purge; a step relation with a clock.
  CountryRequirements: the table of 24 countries and its look-ups. Payout: one payout in the parts that its
  awaits separate (\<open>pay_quote\<close>, \<open>pay_lock\<close>, \<open>dispatch\<close>, \<open>pay_finish\<close>), the sweep, settlement, audit.
  Decimal: the decimal text of a double and what it reads back as. PayoutSystem: overlapping sweeps as a step
  relation, its invariant and refinement; a sweep is a run of it. PayoutDemo: a concrete run.
  PayoutProps: the properties of the payouts.
  Users: the nine routes of routes/users.ts over the platform tables, the profiles and the agents. UsersProps: the
  router as a step relation, with the other writers of these tables as steps, and its properties.
  Accounts: tenant accounts and their API keys (routes/provisioning.ts), the ingest of decisions with such a key
  (routes/pilot-ingest.ts). AccountsProps: both routers as a step relation, their properties, a run. Pov: the
  statement of the delivered value and its text (routes/pov-billing.ts), computed from the guards' metrics. PovProps: its properties.

  STATE AND OPERATIONS. Each component's state is a record of its tables and variables; each
  operation is one definition from inputs and state to result and new state, with the errors as
  values (a sum, an option or a response datatype). A definition is named like the function it
  translates. What is not under src/ is a parameter: the HMAC and hash functions, the
  regular expression engine, the numeric library functions, network answers, directory contents.
  Hypotheses state documented behaviour only: hex_digest (the digest is 64 hexadecimal digits),
  no collisions among the secrets or records concerned, mathlib_ok, fresh random ids, clocks that
  do not run backwards, a JSON Web Token without a dot is malformed.

  WHAT THE LEMMAS SHOW. Invariants by rule induction over the step relations (queue safety, audit
  chain, signed badges, auditable conversions, account and token tables); refinement (the token table
  implements a map of open sessions); functional correctness of each operation on every
  branch; equivalence with integer or filter specifications (warranty verdicts, aggregation);
  bounds (rate limits, premiums, profiles); isolation of tenants and of buckets; and the places
  where the code departs from what it says: failing jobs that are never dead-lettered, USD
  conversions that always fail, the badge that turns green at exactly the threshold, the signature
  check that throws, event values that stop a verification.

  BOUNDS. warranty_verdict_exact and badge_monotone need at most \<open>2 ^ 42\<close> requests in a window, so that
  the distance of two different fractions exceeds the rounding error; a table of that size does not
  exist. No definition uses fuel: every loop recurses over a list, and the queue's dispatch loop
  over the free places.

  NOT MODELLED YET. Notifications,
  ingestion, provisioning, billing, performance monitoring, the regulatory tables,
  migrations and replication: later parts of this development. Not to be modelled: logging, Express
  wiring, SQL text, drawing of the SVG badge, the delivery of alerts, the copies of source files
  under scripts/.
\<close>

section \<open>Properties that span components\<close>

subsection \<open>The guards' access metrics decide on the warranties\<close>

text \<open>
  The guards write \<open>role_access_metrics\<close>, the warranty evaluation reads it: \<open>gov_metric\<close> is the part of
  a row that it reads, \<open>with_metrics\<close> the governance database over the table the guards wrote.
\<close>

definition gov_metric :: "access_metric_row \<Rightarrow> access_metric" where
  "gov_metric m = \<lparr>user_tenant_id = m_tenant m, access_granted = m_granted m,
     is_boundary_crossing = m_boundary_crossing m, evaluated_at = m_evaluated_at m\<rparr>"

definition with_metrics :: "gov_db \<Rightarrow> plane_state \<Rightarrow> gov_db" where
  "with_metrics db st = db\<lparr>metrics := map gov_metric (t_metrics (ps_db st))\<rparr>"

lemma counts_append:
  assumes "t_metrics (ps_db st') = t_metrics (ps_db st) @ [row]"
  shows "total_requests now t (with_metrics db st') = total_requests now t (with_metrics db st)
      + (if m_tenant row = Some t \<and> isoDaysAgo now 7 < m_evaluated_at row then 1 else 0)"
    and "denied_requests now t (with_metrics db st') = denied_requests now t (with_metrics db st)
      + (if m_tenant row = Some t \<and> isoDaysAgo now 7 < m_evaluated_at row \<and> \<not> m_granted row then 1 else 0)"
  using assms by (simp_all add: total_requests_def denied_requests_def with_metrics_def gov_metric_def ANOMALY_WINDOW_DAYS_def)

text \<open>C40: One denied request voids the warranty of a quiet tenant. If the tenant had fewer than 49
  evaluated requests in the last seven days, a single request of one of its users that a guard
  denies, for whatever reason, makes the next evaluation void its policies for the anomaly
  ratio: the guards' denials feed the warranty decision unfiltered.\<close>

theorem one_denial_voids_warranty:
  assumes user: "resolvePrincipal req (ps_db st) = Some p" "pr_tenant p = Some t"
    and denied: "fst (requireDualPlane rq now req st) = r" "r \<noteq> GuardError500" "\<nexists>q. r = Passed q"
    and quiet: "total_requests now t (with_metrics db st) < 49"
  shows "fst (evaluatePolicyState now t (with_metrics db (snd (requireDualPlane rq now req st)))) = VOID_BY_ANOMALY_RATIO"
proof -
  let ?st' = "snd (requireDualPlane rq now req st)"
  obtain b where b: "?st' = writeAccessMetric now req (metric_of rq req (Some p) b) st" "\<not> bo_granted b"
    using guard_row [of rq now req st] denied user(1) by metis
  let ?row = "metric_row now req (metric_of rq req (Some p) b) (ps_db st)"
  have row: "m_tenant ?row = Some t" "m_evaluated_at ?row = now" "\<not> m_granted ?row"
    using user(2) b(2) by (simp_all add: metric_row_def metric_of_def Let_def)
  have "t_metrics (ps_db ?st') = t_metrics (ps_db st) @ [?row]" by (simp add: b(1) writeAccessMetric_eq)
  note c = counts_append [OF this, of now t db]
  have "isoDaysAgo now 7 < now" by (simp add: isoDaysAgo_def)
  with c row have n: "total_requests now t (with_metrics db ?st') = total_requests now t (with_metrics db st) + 1"
    "denied_requests now t (with_metrics db ?st') = denied_requests now t (with_metrics db st) + 1" by simp_all
  have "0 \<le> total_requests now t (with_metrics db st)" "0 \<le> denied_requests now t (with_metrics db st)"
    by (simp_all add: total_requests_def denied_requests_def)
  with n quiet have "200 * total_requests now t (with_metrics db ?st') \<le> 2 ^ 50" by simp
  from evaluate_verdict [OF this] show ?thesis
    using n quiet \<open>0 \<le> total_requests now t (with_metrics db st)\<close> \<open>0 \<le> denied_requests now t (with_metrics db st)\<close>
    by (simp add: verdict_def)
qed

theorem one_denial_voids_warranty_witness:
  "fst (evaluatePolicyState 1 ''t'' (with_metrics demo_open (snd (requireDualPlane (requireBusinessPlane None) 1 (demo_req ''u1'') demo_plane))))
     = VOID_BY_ANOMALY_RATIO"
proof -
  let ?u = "new_user 0 ''u1'' ''ann'' ''a@x'' ''h'' ''Partner'' ''t''"
  have p: "resolvePrincipal (demo_req ''u1'') (ps_db demo_plane) = Some (principal_of ?u)"
    by (simp add: resolvePrincipal_def demo_req_def demo_plane_users)
  have r: "\<exists>b. fst (requireDualPlane (requireBusinessPlane None) 1 (demo_req ''u1'') demo_plane) = Denied403 (principal_of ?u) b"
    by (simp add: requireDualPlane_def p evaluateBoundary_def requireBusinessPlane_def any_requirement_def principal_of_def new_user_def deny_def)
  have "total_requests 1 ''t'' (with_metrics demo_open demo_plane) = 0"
    by (simp add: total_requests_def with_metrics_def demo_plane_def demo_plat_def)
  with r one_denial_voids_warranty [OF p _ refl] show ?thesis
    by (auto simp: principal_of_def new_user_def)
qed

end
